(* ===== verification/N_Prelude.thy ===== *)
theory N_Prelude
  imports Main "HOL-Library.Word" "HOL-Library.Char_ord" "HOL-Library.List_Lexorder"
    "HOL-Library.Multiset"
begin

text \<open>
  Shared vocabulary of the development.

  A Rust \<open>String\<close> is its UTF-8 bytes, an Isabelle \<^typ>\<open>string\<close>: \<open>length\<close> is
  \<open>str::len\<close>, and byte slices are \<open>take\<close> and \<open>drop\<close>. Where the code iterates over
  \<open>chars()\<close>, \<open>chars\<close> splits a byte string into the encodings of its characters; the
  standard library's predicates on \<open>char\<close> are written out on those encodings.
  A fallible operation returns \<open>'e + 'a\<close>, \<open>Inl\<close> being Rust's \<open>Err\<close>. An SQL table is
  the list of its rows in rowid order, with the three statement shapes the repositories use.
\<close>

named_theorems rust_string \<open>standard-library operations on strings\<close>
named_theorems sql \<open>facts on SQL tables and the statements that change them\<close>

type_synonym ('e, 'a) result = "'e + 'a"

text \<open>A loop that stops at the first error: \<open>iter().map(f).collect::<Result<Vec<_>, _>>()\<close>.\<close>

fun map_result :: "('a \<Rightarrow> 'e + 'b) \<Rightarrow> 'a list \<Rightarrow> 'e + 'b list" where
  "map_result f [] = Inr []"
| "map_result f (x # xs) =
     (case f x of
        Inl e \<Rightarrow> Inl e
      | Inr y \<Rightarrow> (case map_result f xs of Inl e \<Rightarrow> Inl e | Inr ys \<Rightarrow> Inr (y # ys)))"

lemma map_result_cong [fundef_cong]:
  assumes "xs = ys" "\<And>x. x \<in> set ys \<Longrightarrow> f x = g x"
  shows "map_result f xs = map_result g ys"
  using assms(2) unfolding assms(1)
proof (induction ys)
  case (Cons y ys)
  then have "f y = g y" "map_result f ys = map_result g ys" by auto
  then show ?case by (simp split: sum.split)
qed simp

lemma map_result_Inr:
  "map_result f xs = Inr ys \<longleftrightarrow> list_all2 (\<lambda>x y. f x = Inr y) xs ys"
proof (induction xs arbitrary: ys)
  case (Cons x xs)
  show ?case
    by (cases "map_result f xs") (auto simp: list_all2_Cons1 simp flip: Cons.IH split: sum.splits)
qed auto

section \<open>Bytes and characters\<close>

abbreviation byte :: "char \<Rightarrow> nat" where
  "byte c \<equiv> of_char c"

definition is_ascii_lowercase :: "char \<Rightarrow> bool" where
  "is_ascii_lowercase c \<longleftrightarrow> 97 \<le> byte c \<and> byte c \<le> 122"

definition is_ascii_uppercase :: "char \<Rightarrow> bool" where
  "is_ascii_uppercase c \<longleftrightarrow> 65 \<le> byte c \<and> byte c \<le> 90"

definition is_ascii_digit :: "char \<Rightarrow> bool" where
  "is_ascii_digit c \<longleftrightarrow> 48 \<le> byte c \<and> byte c \<le> 57"

definition is_ascii_alphabetic :: "char \<Rightarrow> bool" where
  "is_ascii_alphabetic c \<longleftrightarrow> is_ascii_lowercase c \<or> is_ascii_uppercase c"

definition is_ascii_alphanumeric :: "char \<Rightarrow> bool" where
  "is_ascii_alphanumeric c \<longleftrightarrow> is_ascii_alphabetic c \<or> is_ascii_digit c"

definition to_ascii_lowercase :: "string \<Rightarrow> string" where
  "to_ascii_lowercase = map (\<lambda>c. if is_ascii_uppercase c then char_of (byte c + 32) else c)"

definition char_width :: "char \<Rightarrow> nat" where
  "char_width c =
     (if byte c < 128 then 1 else if byte c < 224 then 2 else if byte c < 240 then 3 else 4)"

fun chars :: "string \<Rightarrow> string list" where
  "chars [] = []"
| "chars (c # cs) = (c # take (char_width c - 1) cs) # chars (drop (char_width c - 1) cs)"

lemma concat_chars [simp, rust_string]: "concat (chars s) = s"
  by (induction s rule: chars.induct) auto

lemma chars_eq_Nil [simp]: "chars s = [] \<longleftrightarrow> s = []"
  by (cases s) auto

lemma chars_nonempty: "ch \<in> set (chars s) \<Longrightarrow> ch \<noteq> []"
  by (induction s rule: chars.induct) auto

lemma length_chars_le [rust_string]: "length (chars s) \<le> length s"
  by (induction s rule: chars.induct) auto

definition is_char_boundary :: "string \<Rightarrow> nat \<Rightarrow> bool" where
  "is_char_boundary s i \<longleftrightarrow>
     i = 0 \<or> i = length s \<or> (i < length s \<and> \<not> (128 \<le> byte (s ! i) \<and> byte (s ! i) < 192))"

text \<open>
  Unicode \<open>White_Space\<close> and \<open>Cc\<close> (control), as \<open>char::is_whitespace\<close> and
  \<open>char::is_control\<close> decide them, on the UTF-8 encoding of one character.
\<close>

definition is_whitespace :: "string \<Rightarrow> bool" where
  "is_whitespace ch =
     (case map byte ch of
        [a] \<Rightarrow> (9 \<le> a \<and> a \<le> 13) \<or> a = 32
      | [a, b] \<Rightarrow> a = 194 \<and> (b = 133 \<or> b = 160)
      | [a, b, c] \<Rightarrow>
          (a = 225 \<and> b = 154 \<and> c = 128)
          \<or> (a = 226 \<and> b = 128 \<and> ((128 \<le> c \<and> c \<le> 138) \<or> c = 168 \<or> c = 169 \<or> c = 175))
          \<or> (a = 226 \<and> b = 129 \<and> c = 159)
          \<or> (a = 227 \<and> b = 128 \<and> c = 128)
      | _ \<Rightarrow> False)"

definition is_control :: "string \<Rightarrow> bool" where
  "is_control ch =
     (case map byte ch of
        [a] \<Rightarrow> a < 32 \<or> a = 127
      | [a, b] \<Rightarrow> a = 194 \<and> 128 \<le> b \<and> b \<le> 159
      | _ \<Rightarrow> False)"

definition ascii_char :: "(char \<Rightarrow> bool) \<Rightarrow> string \<Rightarrow> bool" where
  "ascii_char p ch = (case ch of [c] \<Rightarrow> p c | _ \<Rightarrow> False)"

definition is_ascii :: "string \<Rightarrow> bool" where
  "is_ascii s \<longleftrightarrow> (\<forall>c\<in>set s. byte c < 128)"

lemma chars_ascii [rust_string]: "is_ascii s \<Longrightarrow> chars s = map (\<lambda>c. [c]) s"
  by (induction s) (auto simp: is_ascii_def char_width_def)

lemma is_ascii_simps [simp]:
  "is_ascii []" "is_ascii (c # s) \<longleftrightarrow> byte c < 128 \<and> is_ascii s"
  "is_ascii (s @ t) \<longleftrightarrow> is_ascii s \<and> is_ascii t"
  by (auto simp: is_ascii_def)

lemma chars_singletons:
  "(\<And>ch. ch \<in> set (chars s) \<Longrightarrow> ascii_char p ch) \<Longrightarrow> list_all p s"
proof (induction s rule: chars.induct)
  case (2 c cs)
  from "2.prems" [of "c # take (char_width c - 1) cs"]
  have "take (char_width c - 1) cs = []" "p c"
    by (auto simp: ascii_char_def split: list.splits)
  then have "cs = drop (char_width c - 1) cs"
    by (metis append_Nil append_take_drop_id)
  moreover have "list_all p (drop (char_width c - 1) cs)"
    using "2.prems" by (intro "2.IH") auto
  ultimately show ?case using \<open>p c\<close> by simp
qed simp

text \<open>
  A predicate that only ASCII bytes satisfy holds of every character exactly when it holds
  of every byte: this is how \<open>chars().all(..)\<close> checks read on byte strings.
\<close>

lemma chars_all_ascii [rust_string]:
  assumes "\<And>c. p c \<Longrightarrow> byte c < 128"
  shows "(\<forall>ch\<in>set (chars s). ascii_char p ch) \<longleftrightarrow> list_all p s"
proof
  assume "\<forall>ch\<in>set (chars s). ascii_char p ch"
  then show "list_all p s" by (intro chars_singletons) auto
next
  assume "list_all p s"
  moreover from this have "is_ascii s"
    using assms by (auto simp: is_ascii_def list_all_iff)
  ultimately show "\<forall>ch\<in>set (chars s). ascii_char p ch"
    by (auto simp: chars_ascii ascii_char_def list_all_iff)
qed

lemma ascii_class_bound [rust_string]:
  "is_ascii_lowercase c \<Longrightarrow> byte c < 128" "is_ascii_uppercase c \<Longrightarrow> byte c < 128"
  "is_ascii_digit c \<Longrightarrow> byte c < 128" "is_ascii_alphabetic c \<Longrightarrow> byte c < 128"
  "is_ascii_alphanumeric c \<Longrightarrow> byte c < 128"
  by (auto simp: is_ascii_lowercase_def is_ascii_uppercase_def is_ascii_digit_def
      is_ascii_alphabetic_def is_ascii_alphanumeric_def)

definition trim_start :: "string \<Rightarrow> string" where
  "trim_start s = concat (dropWhile is_whitespace (chars s))"

definition trim_end :: "string \<Rightarrow> string" where
  "trim_end s = concat (rev (dropWhile is_whitespace (rev (chars s))))"

definition trim :: "string \<Rightarrow> string" where
  "trim s = trim_end (trim_start s)"

definition starts_with :: "string \<Rightarrow> string \<Rightarrow> bool" where
  "starts_with p s \<longleftrightarrow> take (length p) s = p"

definition strip_prefix :: "string \<Rightarrow> string \<Rightarrow> string option" where
  "strip_prefix p s = (if starts_with p s then Some (drop (length p) s) else None)"

definition ends_with :: "string \<Rightarrow> string \<Rightarrow> bool" where
  "ends_with p s \<longleftrightarrow> starts_with (rev p) (rev s)"

lemma starts_with_append [simp, rust_string]: "starts_with p (p @ s)"
  by (simp add: starts_with_def)

lemma starts_withE [rust_string]: "starts_with p s \<Longrightarrow> s = p @ drop (length p) s"
  by (metis append_take_drop_id starts_with_def)

lemma strip_prefix_Some [rust_string]: "strip_prefix p s = Some r \<longleftrightarrow> s = p @ r"
  by (auto simp: strip_prefix_def starts_with_def) (metis append_take_drop_id)

definition strip_suffix :: "string \<Rightarrow> string \<Rightarrow> string option" where
  "strip_suffix p s = (if ends_with p s then Some (take (length s - length p) s) else None)"

text \<open>\<open>str::trim_end_matches(c)\<close>.\<close>

definition trim_end_char :: "char \<Rightarrow> string \<Rightarrow> string" where
  "trim_end_char x s = rev (dropWhile (\<lambda>c. c = x) (rev s))"

lemma ends_with_iff [rust_string]: "ends_with p s \<longleftrightarrow> (\<exists>r. s = r @ p)"
proof
  assume "ends_with p s"
  then have "rev s = rev p @ drop (length (rev p)) (rev s)"
    unfolding ends_with_def by (rule starts_withE)
  then show "\<exists>r. s = r @ p" by (metis rev_append rev_rev_ident)
qed (auto simp: ends_with_def)

lemma strip_suffix_Some [rust_string]: "strip_suffix p s = Some r \<longleftrightarrow> s = r @ p"
  by (auto simp: strip_suffix_def ends_with_iff)

lemma strip_suffix_None [rust_string]: "strip_suffix p s = None \<longleftrightarrow> \<not> ends_with p s"
  by (simp add: strip_suffix_def)

lemma trim_end_char_split:
  obtains t where "s = trim_end_char x s @ t" "set t \<subseteq> {x}"
proof -
  have "rev s = takeWhile (\<lambda>c. c = x) (rev s) @ rev (trim_end_char x s)"
    by (simp add: trim_end_char_def)
  then have "s = trim_end_char x s @ rev (takeWhile (\<lambda>c. c = x) (rev s))"
    by (metis rev_append rev_rev_ident)
  moreover have "set (rev (takeWhile (\<lambda>c. c = x) (rev s))) \<subseteq> {x}" by (auto dest: set_takeWhileD)
  ultimately show ?thesis using that by blast
qed

lemma length_trim_end_char: "length (trim_end_char x s) \<le> length s"
proof -
  obtain t where "s = trim_end_char x s @ t" by (rule trim_end_char_split)
  then show ?thesis by (metis length_append le_add1)
qed

lemma trim_end_char_last [simp]:
  assumes "trim_end_char x s \<noteq> []"
  shows "last (trim_end_char x s) \<noteq> x"
proof -
  have "dropWhile (\<lambda>c. c = x) (rev s) \<noteq> []" using assms by (simp add: trim_end_char_def)
  from hd_dropWhile [OF this] this show ?thesis by (simp add: trim_end_char_def last_rev)
qed

lemma trim_end_char_id: "s = [] \<or> last s \<noteq> x \<Longrightarrow> trim_end_char x s = s"
  by (cases s rule: rev_cases) (auto simp: trim_end_char_def)

lemma trim_end_char_idem [simp]: "trim_end_char x (trim_end_char x s) = trim_end_char x s"
  using trim_end_char_last [of x s] by (intro trim_end_char_id) blast

section \<open>Searching and splitting\<close>

text \<open>Byte offset of the first occurrence of an ASCII byte, \<open>str::find(c)\<close>.\<close>

fun find_char :: "char \<Rightarrow> string \<Rightarrow> nat option" where
  "find_char x [] = None"
| "find_char x (c # cs) = (if c = x then Some 0 else map_option Suc (find_char x cs))"

lemma find_char_Some [rust_string]:
  "find_char x s = Some n \<Longrightarrow> n < length s \<and> s ! n = x \<and> x \<notin> set (take n s)"
proof (induction s arbitrary: n)
  case (Cons c cs)
  then show ?case by (cases n) (auto split: if_splits)
qed simp

lemma find_char_None [rust_string]: "find_char x s = None \<longleftrightarrow> x \<notin> set s"
  by (induction s) auto

lemma find_char_append [rust_string]: "x \<notin> set a \<Longrightarrow> find_char x (a @ x # b) = Some (length a)"
  by (induction a) auto

fun split_on :: "char \<Rightarrow> string \<Rightarrow> string list" where
  "split_on x [] = [[]]"
| "split_on x (c # cs) =
     (if c = x then [] # split_on x cs
      else (case split_on x cs of [] \<Rightarrow> [[c]] | p # ps \<Rightarrow> (c # p) # ps))"

lemma split_on_nonempty [simp]: "split_on x s \<noteq> []"
  by (cases s) (auto split: list.splits)

lemma split_on_no_sep: "p \<in> set (split_on x s) \<Longrightarrow> x \<notin> set p"
  by (induction s arbitrary: p) (auto split: if_splits list.splits)

lemma split_on_single: "x \<notin> set s \<Longrightarrow> split_on x s = [s]"
  by (induction s) auto

lemma split_on_append: "x \<notin> set a \<Longrightarrow> split_on x (a @ x # b) = a # split_on x b"
  by (induction a) auto

fun join :: "string \<Rightarrow> string list \<Rightarrow> string" where
  "join sep [] = []"
| "join sep [p] = p"
| "join sep (p # q # ps) = p @ sep @ join sep (q # ps)"

lemma split_on_join:
  "ps \<noteq> [] \<Longrightarrow> \<forall>p\<in>set ps. x \<notin> set p \<Longrightarrow> split_on x (join [x] ps) = ps"
  by (induction ps rule: induct_list012) (auto simp: split_on_single split_on_append)

text \<open>\<open>str::split_once\<close> on a one-byte and on a two-byte separator.\<close>

definition split_once :: "char \<Rightarrow> string \<Rightarrow> (string \<times> string) option" where
  "split_once x s = map_option (\<lambda>n. (take n s, drop (Suc n) s)) (find_char x s)"

fun find_str :: "string \<Rightarrow> string \<Rightarrow> nat option" where
  "find_str p s =
     (if starts_with p s then Some 0
      else (case s of [] \<Rightarrow> None | c # cs \<Rightarrow> map_option Suc (find_str p cs)))"

declare find_str.simps [simp del]

definition split_once_str :: "string \<Rightarrow> string \<Rightarrow> (string \<times> string) option" where
  "split_once_str p s = map_option (\<lambda>n. (take n s, drop (n + length p) s)) (find_str p s)"

lemma find_str_Some [rust_string]: "find_str p s = Some n \<Longrightarrow> starts_with p (drop n s) \<and> n \<le> length s"
proof (induction p s arbitrary: n rule: find_str.induct)
  case (1 p s)
  show ?case
  proof (cases "starts_with p s")
    case True
    with "1.prems" show ?thesis by (simp add: find_str.simps)
  next
    case False
    with "1.prems" obtain c cs m where "s = c # cs" "find_str p cs = Some m" "n = Suc m"
      by (subst (asm) find_str.simps) (auto split: list.splits)
    with "1.IH" [OF False, of c cs m] show ?thesis by simp
  qed
qed

text \<open>Decimal rendering of an unsigned integer, as \<open>format!("{n}")\<close> prints it.\<close>

fun dec :: "nat \<Rightarrow> string" where
  "dec n = (if n < 10 then [char_of (48 + n)] else dec (n div 10) @ [char_of (48 + n mod 10)])"

declare dec.simps [simp del]

definition dec_int :: "int \<Rightarrow> string" where
  "dec_int i = (if i < 0 then ''-'' @ dec (nat (- i)) else dec (nat i))"

section \<open>SQL tables\<close>

text \<open>
  \<open>UPDATE t SET .. WHERE ..\<close>, \<open>DELETE FROM t WHERE ..\<close>, and the upsert
  \<open>INSERT .. ON CONFLICT(key) DO UPDATE ..\<close>. \<open>COALESCE(a, b)\<close> is \<open>coalesce a b\<close>.
  A primary key is a function on rows; \<open>unique_key\<close> is the constraint SQLite maintains.
\<close>

definition sql_update :: "('r \<Rightarrow> bool) \<Rightarrow> ('r \<Rightarrow> 'r) \<Rightarrow> 'r list \<Rightarrow> 'r list" where
  "sql_update p f = map (\<lambda>r. if p r then f r else r)"

definition sql_delete :: "('r \<Rightarrow> bool) \<Rightarrow> 'r list \<Rightarrow> 'r list" where
  "sql_delete p = filter (\<lambda>r. \<not> p r)"

definition sql_upsert ::
  "('r \<Rightarrow> 'k) \<Rightarrow> ('r \<Rightarrow> 'r \<Rightarrow> 'r) \<Rightarrow> 'r \<Rightarrow> 'r list \<Rightarrow> 'r list" where
  "sql_upsert key merge new t =
     (if \<exists>r\<in>set t. key r = key new
      then sql_update (\<lambda>r. key r = key new) (\<lambda>old. merge old new) t else t @ [new])"

definition select_by :: "('r \<Rightarrow> 'k) \<Rightarrow> 'k \<Rightarrow> 'r list \<Rightarrow> 'r option" where
  "select_by key k t = find (\<lambda>r. key r = k) t"

fun coalesce :: "'a option \<Rightarrow> 'a option \<Rightarrow> 'a option" where
  "coalesce (Some a) _ = Some a"
| "coalesce None b = b"

definition unique_key :: "('r \<Rightarrow> 'k) \<Rightarrow> 'r list \<Rightarrow> bool" where
  "unique_key key t \<longleftrightarrow> distinct (map key t)"

text \<open>\<open>LIMIT n\<close>: a negative limit is no limit in SQLite.\<close>

definition limit :: "int \<Rightarrow> 'r list \<Rightarrow> 'r list" where
  "limit n t = (if n < 0 then t else take (nat n) t)"

lemma map_of_filter_key: "map_of (filter (\<lambda>e. fst e \<noteq> k) es) j = (if j = k then None else map_of es j)"
  by (induction es) auto

lemma unique_key_Nil [simp, sql]: "unique_key key []"
  by (simp add: unique_key_def)

lemma select_by_Nil [simp]: "select_by key k [] = None"
  by (simp add: select_by_def)

lemma select_by_Some [sql]: "select_by key k t = Some r \<Longrightarrow> r \<in> set t \<and> key r = k"
  by (auto simp: select_by_def find_Some_iff)

lemma select_by_None [sql]: "select_by key k t = None \<longleftrightarrow> (\<forall>r\<in>set t. key r \<noteq> k)"
  by (auto simp: select_by_def find_None_iff)

lemma select_by_unique [sql]:
  "unique_key key t \<Longrightarrow> r \<in> set t \<Longrightarrow> select_by key (key r) t = Some r"
  unfolding select_by_def unique_key_def
  by (induction t) (auto simp: image_iff)

lemma unique_key_delete [sql]: "unique_key key t \<Longrightarrow> unique_key key (sql_delete p t)"
  by (simp add: unique_key_def sql_delete_def distinct_map_filter)

lemma map_key_update [sql]:
  "(\<And>r. p r \<Longrightarrow> key (f r) = key r) \<Longrightarrow> map key (sql_update p f t) = map key t"
  by (auto simp: sql_update_def)

lemma unique_key_update [sql]:
  "unique_key key t \<Longrightarrow> (\<And>r. p r \<Longrightarrow> key (f r) = key r) \<Longrightarrow> unique_key key (sql_update p f t)"
  by (simp add: unique_key_def map_key_update)

lemma unique_key_update_iff [simp, sql]:
  "(\<And>r. key (f r) = key r) \<Longrightarrow> unique_key key (sql_update p f t) \<longleftrightarrow> unique_key key t"
  by (simp add: unique_key_def map_key_update)

lemma unique_key_snoc [sql]:
  "unique_key key (t @ [r]) \<longleftrightarrow> unique_key key t \<and> (\<forall>x\<in>set t. key x \<noteq> key r)"
  by (auto simp: unique_key_def image_iff)

lemma unique_key_upsert [sql]:
  assumes "unique_key key t" and "\<And>a b. key a = key b \<Longrightarrow> key (merge a b) = key b"
  shows "unique_key key (sql_upsert key merge new t)"
  using assms by (auto simp: sql_upsert_def unique_key_snoc intro!: unique_key_update)

lemma select_by_update_key [sql]:
  assumes "\<And>r. key (f r) = key r"
  shows "select_by key k (sql_update (\<lambda>r. key r = k') f t) =
    (if k = k' then map_option f (select_by key k t) else select_by key k t)"
  unfolding select_by_def sql_update_def using assms by (induction t) auto

lemma select_by_update [sql]:
  assumes "\<And>r. key (f r) = key r"
  shows "select_by key k (sql_update p f t) =
    map_option (\<lambda>r. if p r then f r else r) (select_by key k t)"
  unfolding select_by_def sql_update_def using assms by (induction t) auto

lemma select_by_delete_key [sql]:
  "select_by key k (sql_delete (\<lambda>r. key r = k') t) =
    (if k = k' then None else select_by key k t)"
  unfolding select_by_def sql_delete_def by (induction t) auto

lemma select_by_snoc [sql]:
  "select_by key k (t @ [r]) =
    (case select_by key k t of Some x \<Rightarrow> Some x | None \<Rightarrow> if key r = k then Some r else None)"
  unfolding select_by_def by (induction t) auto

lemma select_by_upsert [sql]:
  assumes "\<And>a b. key a = key b \<Longrightarrow> key (merge a b) = key b"
  shows "select_by key k (sql_upsert key merge new t) =
    (if k = key new
     then Some (case select_by key k t of None \<Rightarrow> new | Some old \<Rightarrow> merge old new)
     else select_by key k t)"
proof (cases "\<exists>r\<in>set t. key r = key new")
  case True
  then have "sql_upsert key merge new t = sql_update (\<lambda>r. key r = key new) (\<lambda>old. merge old new) t"
    by (simp add: sql_upsert_def)
  moreover have "select_by key k (sql_update (\<lambda>r. key r = key new) (\<lambda>old. merge old new) t) =
    (if k = key new then map_option (\<lambda>old. merge old new) (select_by key k t) else select_by key k t)"
    unfolding select_by_def sql_update_def using assms by (induction t) auto
  moreover have "k = key new \<Longrightarrow> select_by key k t \<noteq> None"
    using True by (auto simp: select_by_None)
  ultimately show ?thesis by (auto split: option.splits)
next
  case False
  then have "sql_upsert key merge new t = t @ [new]" "k = key new \<Longrightarrow> select_by key k t = None"
    by (auto simp: sql_upsert_def select_by_None)
  then show ?thesis by (auto simp: select_by_snoc split: option.splits)
qed

lemma in_set_delete [simp, sql]: "r \<in> set (sql_delete p t) \<longleftrightarrow> r \<in> set t \<and> \<not> p r"
  by (auto simp: sql_delete_def)

lemma image_delete_key [sql]: "key ` set (sql_delete (\<lambda>r. key r = k) t) = key ` set t - {k}"
  by auto

lemma in_set_update [sql]:
  "r \<in> set (sql_update p f t) \<longleftrightarrow> (\<exists>x\<in>set t. r = (if p x then f x else x))"
  by (auto simp: sql_update_def)

lemma set_limit [sql]: "set (limit n t) \<subseteq> set t"
  by (auto simp: limit_def dest: in_set_takeD)

lemma length_limit [sql]: "0 \<le> n \<Longrightarrow> length (limit n t) \<le> nat n"
  by (simp add: limit_def)

end
