(* ===== verification/Core_Identity.thy ===== *)
theory Core_Identity
  imports N_Prelude
begin

text \<open>
  \<open>crates/core/src/error.rs\<close>, \<open>identity.rs\<close> and \<open>lobe.rs\<close>: the core error type,
  instance identifiers derived from public keys, the key pair operations, the alias rules,
  and the lobe identifiers with the instance membership rule.

  The cryptographic and encoding crates (\<open>sha2\<close>, \<open>ed25519-dalek\<close>, \<open>data-encoding\<close>)
  are parameters, the fields of \<open>crypto\<close>. A secret key is its 32-byte seed, a public key
  its 32 bytes.
\<close>

section \<open>Errors\<close>

datatype core_error =
    InvalidIdentifier string
  | SignatureInvalid
  | RecipientMismatch (rm_expected: string) (rm_actual: string)
  | TimestampOutOfWindow
  | ReplayDetected
  | Canonical string
  | Crypto string
  | SerdeError string

section \<open>The cryptographic environment\<close>

record crypto =
  sha256 :: "string \<Rightarrow> string"
  base32_encode :: "string \<Rightarrow> string"
  base32_decode :: "string \<Rightarrow> string option"
  hex_encode :: "string \<Rightarrow> string"
  hex_decode :: "string \<Rightarrow> string option"
  ed_public :: "string \<Rightarrow> string"
  ed_sign :: "string \<Rightarrow> string \<Rightarrow> string"
  ed_verify :: "string \<Rightarrow> string \<Rightarrow> string \<Rightarrow> bool"
  ed_key_ok :: "string \<Rightarrow> bool"

text \<open>
  Documented behaviour of those crates, used as named hypotheses: SHA-256 gives 32 bytes;
  Base32 (RFC 4648, no padding) emits upper-case letters and digits, at least one for a
  non-empty input, and decodes what it encoded; HEXLOWER emits two lower-case hex digits a byte and decodes
  what it encoded; an Ed25519 signature has 64 bytes and verifies under the signer's key.
\<close>

definition sha256_law :: "('x) crypto_scheme \<Rightarrow> bool" where
  "sha256_law cr \<longleftrightarrow> (\<forall>m. length (sha256 cr m) = 32)"

definition base32_law :: "('x) crypto_scheme \<Rightarrow> bool" where
  "base32_law cr \<longleftrightarrow>
     (\<forall>b. list_all (\<lambda>c. is_ascii_uppercase c \<or> is_ascii_digit c) (base32_encode cr b)
        \<and> (b \<noteq> [] \<longrightarrow> base32_encode cr b \<noteq> [])
        \<and> base32_decode cr (base32_encode cr b) = Some b)"

definition is_hex_lower :: "char \<Rightarrow> bool" where
  "is_hex_lower c \<longleftrightarrow> is_ascii_digit c \<or> (97 \<le> byte c \<and> byte c \<le> 102)"

definition hex_law :: "('x) crypto_scheme \<Rightarrow> bool" where
  "hex_law cr \<longleftrightarrow>
     (\<forall>b. list_all is_hex_lower (hex_encode cr b) \<and> length (hex_encode cr b) = 2 * length b
        \<and> hex_decode cr (hex_encode cr b) = Some b)"

definition ed25519_law :: "('x) crypto_scheme \<Rightarrow> bool" where
  "ed25519_law cr \<longleftrightarrow>
     (\<forall>sk m. length (ed_sign cr sk m) = 64
        \<and> ed_verify cr (ed_public cr sk) m (ed_sign cr sk m))"

section \<open>Instance identifiers\<close>

type_synonym instance_id = string

definition ID_PREFIX :: string where
  "ID_PREFIX = ''n3:''"

definition ID_HASH_BYTES :: nat where
  "ID_HASH_BYTES = 20"

definition from_public_key :: "('x) crypto_scheme \<Rightarrow> string \<Rightarrow> instance_id" where
  "from_public_key cr pk =
     ID_PREFIX @ to_ascii_lowercase (base32_encode cr (take ID_HASH_BYTES (sha256 cr pk)))"

definition parse_instance_id :: "string \<Rightarrow> (core_error, instance_id) result" where
  "parse_instance_id s =
     (if \<not> starts_with ID_PREFIX s then Inl (InvalidIdentifier s)
      else let payload = drop (length ID_PREFIX) s
           in if payload = [] \<or> \<not> list_all (ascii_char is_ascii_alphanumeric) (chars payload)
              then Inl (InvalidIdentifier s) else Inr s)"

section \<open>Keys\<close>

text \<open>\<open>Keypair\<close> keeps the seed; the public key and the id are recomputed from it.\<close>

type_synonym keypair = string

definition public_key :: "('x) crypto_scheme \<Rightarrow> keypair \<Rightarrow> string" where
  "public_key cr kp = ed_public cr kp"

definition keypair_id :: "('x) crypto_scheme \<Rightarrow> keypair \<Rightarrow> instance_id" where
  "keypair_id cr kp = from_public_key cr (public_key cr kp)"

definition keypair_sign :: "('x) crypto_scheme \<Rightarrow> keypair \<Rightarrow> string \<Rightarrow> string" where
  "keypair_sign cr kp m = ed_sign cr kp m"

definition public_key_verify ::
  "('x) crypto_scheme \<Rightarrow> string \<Rightarrow> string \<Rightarrow> string \<Rightarrow> (core_error, unit) result" where
  "public_key_verify cr pk m sig =
     (if ed_verify cr pk m sig then Inr () else Inl SignatureInvalid)"

text \<open>
  The serde codec of public keys: lower-case Base32 text, decoded after
  \<open>str::to_uppercase\<close>. The full Unicode case table is the parameter \<open>up\<close>;
  \<open>upper_law\<close> says what it does on ASCII text.
\<close>

definition serialize_key :: "('x) crypto_scheme \<Rightarrow> string \<Rightarrow> string" where
  "serialize_key cr pk = to_ascii_lowercase (base32_encode cr pk)"

definition to_ascii_uppercase :: "string \<Rightarrow> string" where
  "to_ascii_uppercase = map (\<lambda>c. if is_ascii_lowercase c then char_of (byte c - 32 :: nat) else c)"

definition upper_law :: "(string \<Rightarrow> string) \<Rightarrow> bool" where
  "upper_law up \<longleftrightarrow> (\<forall>s. is_ascii s \<longrightarrow> up s = to_ascii_uppercase s)"

definition deserialize_key ::
  "(string \<Rightarrow> string) \<Rightarrow> ('x) crypto_scheme \<Rightarrow> string \<Rightarrow> (core_error, string) result" where
  "deserialize_key up cr txt =
     (case base32_decode cr (up txt) of
        None \<Rightarrow> Inl (SerdeError ''base32'')
      | Some bytes \<Rightarrow>
          (if length bytes \<noteq> 32
           then Inl (SerdeError ''public key must be 32 bytes after decoding'')
           else if ed_key_ok cr bytes then Inr bytes else Inl (SerdeError ''invalid key'')))"

section \<open>Aliases\<close>

definition ALIAS_MAX_LEN :: nat where
  "ALIAS_MAX_LEN = 32"

definition alias_char :: "char \<Rightarrow> bool" where
  "alias_char c \<longleftrightarrow> is_ascii_alphanumeric c \<or> c = CHR ''-'' \<or> c = CHR ''_'' \<or> c = CHR ''.''"

definition validate_alias :: "string \<Rightarrow> (core_error, unit) result" where
  "validate_alias a =
     (let n = length (chars a) in
      if n = 0 then Inl (InvalidIdentifier ''alias is empty'')
      else if n > ALIAS_MAX_LEN
      then Inl (InvalidIdentifier (''alias is longer than '' @ dec ALIAS_MAX_LEN @ '' characters''))
      else if starts_with ID_PREFIX a
      then Inl (InvalidIdentifier
        (''alias must not start with `'' @ ID_PREFIX @ ''`: an alias is a label, not an id''))
      else (case find (\<lambda>ch. \<not> ascii_char alias_char ch) (chars a) of
              Some ch \<Rightarrow> Inl (InvalidIdentifier
                (''alias contains `'' @ ch @ ''`; allowed: letters, digits, `-`, `_`, `.`''))
            | None \<Rightarrow> Inr ()))"

section \<open>Lobes\<close>

definition MAX_LOBES_PER_INSTANCE :: nat where
  "MAX_LOBES_PER_INSTANCE = 5"

definition LOBE_ID_MIN_LEN :: nat where
  "LOBE_ID_MIN_LEN = 2"

definition LOBE_ID_MAX_LEN :: nat where
  "LOBE_ID_MAX_LEN = 64"

definition lobe_edge :: "char \<Rightarrow> bool" where
  "lobe_edge c \<longleftrightarrow> is_ascii_lowercase c \<or> is_ascii_digit c"

definition lobe_char :: "char \<Rightarrow> bool" where
  "lobe_char c \<longleftrightarrow> lobe_edge c \<or> c = CHR ''-'' \<or> c = CHR ''.''"

definition validate_lobe_id :: "string \<Rightarrow> (core_error, unit) result" where
  "validate_lobe_id s =
     (let cs = chars s; n = length cs in
      if n < LOBE_ID_MIN_LEN
      then Inl (InvalidIdentifier
        (''lobe id `'' @ s @ ''` is shorter than '' @ dec LOBE_ID_MIN_LEN @ '' characters''))
      else if n > LOBE_ID_MAX_LEN
      then Inl (InvalidIdentifier
        (''lobe id is longer than '' @ dec LOBE_ID_MAX_LEN @ '' characters''))
      else (case find (\<lambda>ch. \<not> ascii_char lobe_char ch) cs of
              Some ch \<Rightarrow> Inl (InvalidIdentifier
                (''lobe id `'' @ s @ ''` contains `'' @ ch @ ''`; allowed: a-z, 0-9, `-`, `.`''))
            | None \<Rightarrow>
                (if \<not> ascii_char lobe_edge (hd cs) \<or> \<not> ascii_char lobe_edge (last cs)
                 then Inl (InvalidIdentifier
                   (''lobe id `'' @ s @ ''` must start and end with a letter or a digit''))
                 else Inr ())))"

text \<open>The loop of \<open>validate_instance_lobes\<close>: \<open>seen\<close> is \<open>ids[..i]\<close>.\<close>

fun validate_lobe_list :: "string list \<Rightarrow> string list \<Rightarrow> (core_error, unit) result" where
  "validate_lobe_list seen [] = Inr ()"
| "validate_lobe_list seen (i # rest) =
     (case validate_lobe_id i of
        Inl e \<Rightarrow> Inl e
      | Inr _ \<Rightarrow>
          (if i \<in> set seen
           then Inl (InvalidIdentifier (''lobe id `'' @ i @ ''` is declared twice''))
           else validate_lobe_list (seen @ [i]) rest))"

definition validate_instance_lobes :: "string list \<Rightarrow> (core_error, unit) result" where
  "validate_instance_lobes ids =
     (if length ids > MAX_LOBES_PER_INSTANCE
      then Inl (InvalidIdentifier
        (''an instance may declare at most '' @ dec MAX_LOBES_PER_INSTANCE @ '' lobes, got ''
          @ dec (length ids)))
      else validate_lobe_list [] ids)"

definition unclaimable_lobes :: "string list \<Rightarrow> string list \<Rightarrow> string list" where
  "unclaimable_lobes cap_lobes instance_lobes =
     filter (\<lambda>l. l \<notin> set instance_lobes) cap_lobes"

section \<open>Lemmas\<close>

lemma to_ascii_lowercase_alnum:
  assumes "list_all (\<lambda>c. is_ascii_uppercase c \<or> is_ascii_digit c) s"
  shows "list_all lobe_edge (to_ascii_lowercase s)"
  using assms
  by (auto simp: list_all_iff to_ascii_lowercase_def lobe_edge_def is_ascii_uppercase_def
      is_ascii_lowercase_def is_ascii_digit_def)

lemma upper_lower [rust_string]:
  assumes "list_all (\<lambda>c. is_ascii_uppercase c \<or> is_ascii_digit c) s"
  shows "to_ascii_uppercase (to_ascii_lowercase s) = s"
  using assms
  by (induction s) (auto simp: to_ascii_lowercase_def to_ascii_uppercase_def is_ascii_uppercase_def
      is_ascii_lowercase_def is_ascii_digit_def)

lemma lobe_edge_alnum: "lobe_edge c \<Longrightarrow> is_ascii_alphanumeric c"
  by (auto simp: lobe_edge_def is_ascii_alphanumeric_def is_ascii_alphabetic_def)

lemma alnum_payload:
  "list_all is_ascii_alphanumeric s \<Longrightarrow> list_all (ascii_char is_ascii_alphanumeric) (chars s)"
  using chars_all_ascii [of is_ascii_alphanumeric s] ascii_class_bound(5)
  by (auto simp: list_all_iff)

lemma parse_instance_id_Inr: "parse_instance_id s = Inr i \<Longrightarrow> i = s \<and> starts_with ID_PREFIX s"
  by (auto simp: parse_instance_id_def Let_def split: if_splits)

lemma parse_from_public_key:
  assumes "sha256_law cr" "base32_law cr"
  shows "parse_instance_id (from_public_key cr pk) = Inr (from_public_key cr pk)"
proof -
  let ?h = "take ID_HASH_BYTES (sha256 cr pk)"
  have "?h \<noteq> []"
    using assms(1) by (auto simp: sha256_law_def ID_HASH_BYTES_def
        dest!: spec [of _ pk])
  then have ne: "base32_encode cr ?h \<noteq> []"
    using assms(2) by (simp add: base32_law_def)
  have "list_all lobe_edge (to_ascii_lowercase (base32_encode cr ?h))"
    using assms(2) by (intro to_ascii_lowercase_alnum) (simp add: base32_law_def)
  then have al: "list_all is_ascii_alphanumeric (to_ascii_lowercase (base32_encode cr ?h))"
    by (auto simp: list_all_iff intro: lobe_edge_alnum)
  with ne show ?thesis
    using alnum_payload [OF al]
    by (simp add: parse_instance_id_def from_public_key_def to_ascii_lowercase_def)
qed

lemma validate_alias_ok:
  "validate_alias a = Inr () \<longleftrightarrow>
     a \<noteq> [] \<and> length a \<le> ALIAS_MAX_LEN \<and> \<not> starts_with ID_PREFIX a \<and> list_all alias_char a"
proof -
  have b: "\<And>c. alias_char c \<Longrightarrow> byte c < 128"
    by (auto simp: alias_char_def dest: ascii_class_bound)
  have "list_all alias_char a \<Longrightarrow> length (chars a) = length a"
    using b by (subst chars_ascii) (auto simp: is_ascii_def list_all_iff)
  moreover have "find (\<lambda>ch. \<not> ascii_char alias_char ch) (chars a) = None \<longleftrightarrow> list_all alias_char a"
    using chars_all_ascii [of alias_char a, OF b] by (auto simp: find_None_iff)
  ultimately show ?thesis
    by (auto simp: validate_alias_def Let_def split: option.splits if_splits)
qed

lemma validate_lobe_id_ok:
  "validate_lobe_id s = Inr () \<longleftrightarrow>
     LOBE_ID_MIN_LEN \<le> length s \<and> length s \<le> LOBE_ID_MAX_LEN \<and> list_all lobe_char s
     \<and> lobe_edge (hd s) \<and> lobe_edge (last s)"
proof -
  have b: "\<And>c. lobe_char c \<Longrightarrow> byte c < 128"
    by (auto simp: lobe_char_def lobe_edge_def dest: ascii_class_bound)
  have f: "find (\<lambda>ch. \<not> ascii_char lobe_char ch) (chars s) = None \<longleftrightarrow> list_all lobe_char s"
    using chars_all_ascii [of lobe_char s, OF b] by (auto simp: find_None_iff)
  have c: "chars s = map (\<lambda>c. [c]) s" if "list_all lobe_char s"
    using that b by (intro chars_ascii) (auto simp: is_ascii_def list_all_iff)
  show ?thesis
  proof (cases "list_all lobe_char s")
    case True
    then show ?thesis using f c
      by (cases "s = []")
        (auto simp: validate_lobe_id_def Let_def ascii_char_def hd_map last_map LOBE_ID_MIN_LEN_def)
  next
    case False
    then show ?thesis using f
      by (auto simp: validate_lobe_id_def Let_def split: option.splits)
  qed
qed

lemma validate_lobe_list_ok:
  "validate_lobe_list seen ids = Inr () \<longleftrightarrow>
     (\<forall>i\<in>set ids. validate_lobe_id i = Inr ()) \<and> distinct ids \<and> set seen \<inter> set ids = {}"
  by (induction ids arbitrary: seen) (auto split: sum.splits)

lemma unclaimable_empty_iff:
  "unclaimable_lobes cap_lobes inst = [] \<longleftrightarrow> set cap_lobes \<subseteq> set inst"
  by (auto simp: unclaimable_lobes_def filter_empty_conv)

lemma serialize_key_ascii:
  assumes "base32_law cr"
  shows "is_ascii (serialize_key cr pk)" "to_ascii_uppercase (serialize_key cr pk) = base32_encode cr pk"
proof -
  have u: "list_all (\<lambda>c. is_ascii_uppercase c \<or> is_ascii_digit c) (base32_encode cr pk)"
    using assms by (simp add: base32_law_def)
  then show "to_ascii_uppercase (serialize_key cr pk) = base32_encode cr pk"
    by (simp add: serialize_key_def upper_lower)
  show "is_ascii (serialize_key cr pk)"
    using to_ascii_lowercase_alnum [OF u]
    by (auto simp: serialize_key_def is_ascii_def list_all_iff
        intro!: ascii_class_bound(5) lobe_edge_alnum)
qed

section \<open>A concrete environment\<close>

text \<open>
  A small instance of the cryptographic parameters, on which witnesses are evaluated: the
  hash is a 32-byte padding of its input, Base32 and hex write each byte as two letters, and
  a signature is a 64-byte padding of the key and the message.
\<close>

definition pad_to :: "nat \<Rightarrow> string \<Rightarrow> string" where
  "pad_to n s = take n (s @ replicate n CHR ''0'')"

definition two_letters :: "nat \<Rightarrow> string \<Rightarrow> string" where
  "two_letters base s =
     concat (map (\<lambda>c. [char_of (base + byte c div 16), char_of (base + byte c mod 16)]) s)"

fun of_two_letters :: "nat \<Rightarrow> string \<Rightarrow> string option" where
  "of_two_letters base (a # b # s) =
     map_option (\<lambda>r. char_of ((byte a - base) * 16 + (byte b - base)) # r) (of_two_letters base s)"
| "of_two_letters base [] = Some []"
| "of_two_letters base [a] = None"

definition hex_digit :: "nat \<Rightarrow> char" where
  "hex_digit n = (if n < 10 then char_of (48 + n) else char_of (87 + n))"

definition hex_value :: "char \<Rightarrow> nat" where
  "hex_value c = (if byte c < 58 then byte c - 48 else byte c - 87)"

definition hex_lower :: "string \<Rightarrow> string" where
  "hex_lower s = concat (map (\<lambda>c. [hex_digit (byte c div 16), hex_digit (byte c mod 16)]) s)"

fun of_hex_lower :: "string \<Rightarrow> string option" where
  "of_hex_lower (a # b # s) =
     (if is_hex_lower a \<and> is_hex_lower b
      then map_option (\<lambda>r. char_of (hex_value a * 16 + hex_value b) # r) (of_hex_lower s)
      else None)"
| "of_hex_lower [] = Some []"
| "of_hex_lower [a] = None"

definition toy_crypto :: crypto where
  "toy_crypto =
     \<lparr>sha256 = pad_to 32, base32_encode = two_letters 65, base32_decode = of_two_letters 65,
      hex_encode = hex_lower, hex_decode = of_hex_lower, ed_public = (\<lambda>sk. sk),
      ed_sign = (\<lambda>sk m. pad_to 64 (sk @ m)),
      ed_verify = (\<lambda>pk m sig. sig = pad_to 64 (pk @ m)), ed_key_ok = (\<lambda>_. True)\<rparr>"

lemma byte_char_of [simp]: "byte (char_of (n::nat)) = n mod 256"
  by (simp add: of_char_of)

lemma nibbles: "byte c div 16 < (16::nat)" "byte c mod 16 < (16::nat)"
  by (simp_all add: div_less_iff_less_mult)

lemma length_pad_to [simp]: "length (pad_to n s) = n"
  by (auto simp: pad_to_def min_def)

lemma sha256_toy [simp]: "sha256_law toy_crypto"
  by (simp add: sha256_law_def toy_crypto_def)

lemma of_two_letters_inverse: "of_two_letters 65 (two_letters 65 s) = Some s"
proof (induction s)
  case (Cons c s)
  have "char_of (byte c div 16 * 16 + byte c mod 16 :: nat) = c" by simp
  with Cons nibbles [of c] show ?case by (simp add: two_letters_def)
qed (simp add: two_letters_def)

lemma base32_toy [simp]: "base32_law toy_crypto"
proof -
  have "list_all is_ascii_uppercase (two_letters 65 s)" for s
  proof (induction s)
    case (Cons c s)
    with nibbles [of c] show ?case by (simp add: two_letters_def is_ascii_uppercase_def)
  qed (simp add: two_letters_def)
  then show ?thesis
    by (auto simp: base32_law_def toy_crypto_def of_two_letters_inverse list_all_iff)
      (simp add: two_letters_def neq_Nil_conv)
qed

lemma hex_digit_ok:
  assumes "n < 16"
  shows "is_hex_lower (hex_digit n)" "hex_value (hex_digit n) = n"
  using assms by (auto simp: is_hex_lower_def hex_digit_def hex_value_def is_ascii_digit_def)

lemma hex_toy [simp]: "hex_law toy_crypto"
proof -
  have "list_all is_hex_lower (hex_lower s) \<and> length (hex_lower s) = 2 * length s
    \<and> of_hex_lower (hex_lower s) = Some s" for s
  proof (induction s)
    case (Cons c s)
    have "char_of (byte c div 16 * 16 + byte c mod 16 :: nat) = c" by simp
    with Cons nibbles [of c] show ?case by (simp add: hex_lower_def hex_digit_ok)
  qed (simp add: hex_lower_def)
  then show ?thesis by (simp add: hex_law_def toy_crypto_def)
qed

lemma ed25519_toy [simp]: "ed25519_law toy_crypto"
  by (simp add: ed25519_law_def toy_crypto_def)

lemma upper_toy [simp]: "upper_law to_ascii_uppercase"
  by (simp add: upper_law_def)

section \<open>Properties\<close>

text \<open>
  (keys and identifiers round-trip). A public key written by the serde codec is read
  back unchanged, and the instance id derived from it passes \<open>InstanceId::parse\<close>.
\<close>

theorem key_and_id_roundtrip:
  assumes "sha256_law cr" "base32_law cr" "upper_law up" "length pk = 32" "ed_key_ok cr pk"
  shows "deserialize_key up cr (serialize_key cr pk) = Inr pk
    \<and> parse_instance_id (from_public_key cr pk) = Inr (from_public_key cr pk)"
  using assms serialize_key_ascii [OF assms(2), of pk] parse_from_public_key
  by (simp add: deserialize_key_def upper_law_def) (simp add: base32_law_def)

lemma key_and_id_roundtrip_witness:
  "deserialize_key to_ascii_uppercase toy_crypto (serialize_key toy_crypto (replicate 32 CHR ''k''))
     = Inr (replicate 32 CHR ''k'')
   \<and> parse_instance_id (from_public_key toy_crypto (replicate 32 CHR ''k''))
     = Inr (from_public_key toy_crypto (replicate 32 CHR ''k''))"
  by (rule key_and_id_roundtrip) (simp_all add: toy_crypto_def [THEN arg_cong [of _ _ ed_key_ok]])

text \<open>
  (aliases). An alias is accepted exactly when it has 1 to 32 characters, all of them
  ASCII letters, digits, \<open>-\<close>, \<open>_\<close> or \<open>.\<close>, and does not pose as an instance id.
\<close>

theorem alias_accepted_iff:
  "validate_alias a = Inr () \<longleftrightarrow>
     0 < length a \<and> length a \<le> 32 \<and> \<not> starts_with ''n3:'' a \<and> list_all alias_char a"
  using validate_alias_ok [of a] by (auto simp: ALIAS_MAX_LEN_def ID_PREFIX_def)

text \<open>
  (instance lobes). The lobes an instance declares are accepted exactly when there are
  at most five, all different, each of 2 to 64 characters over \<open>a-z 0-9 - .\<close> with a
  letter or digit at both ends.
\<close>

theorem instance_lobes_accepted_iff:
  "validate_instance_lobes ids = Inr () \<longleftrightarrow>
     length ids \<le> 5 \<and> distinct ids
     \<and> list_all (\<lambda>s. 2 \<le> length s \<and> length s \<le> 64 \<and> list_all lobe_char s
          \<and> lobe_edge (hd s) \<and> lobe_edge (last s)) ids"
  by (auto simp: validate_instance_lobes_def MAX_LOBES_PER_INSTANCE_def validate_lobe_list_ok
      validate_lobe_id_ok LOBE_ID_MIN_LEN_def LOBE_ID_MAX_LEN_def list_all_iff)

end
