(* ===== verification/Json.thy ===== *)
theory Json
  imports N_Prelude "HOL-Library.Monad_Syntax"
begin

text \<open>
  \<open>serde_json::Value\<close> and the derived serde codecs. An object is its entries; the map
  serde_json builds is ordered by key, as \<open>json_obj\<close> builds it. A number is an integer or
  the text of a float. Parsing and printing of JSON text stay parameters of the definitions
  that use them.
\<close>

datatype json =
    JNull
  | JBool bool
  | JInt int
  | JFloat string
  | JStr string
  | JArr "json list"
  | JObj "(string \<times> json) list"

section \<open>Objects\<close>

fun obj_insert :: "string \<Rightarrow> 'v \<Rightarrow> (string \<times> 'v) list \<Rightarrow> (string \<times> 'v) list" where
  "obj_insert k v [] = [(k, v)]"
| "obj_insert k v ((k', v') # es) =
     (if k < k' then (k, v) # (k', v') # es
      else if k = k' then (k, v) # es
      else (k', v') # obj_insert k v es)"

definition obj_of :: "(string \<times> 'v) list \<Rightarrow> (string \<times> 'v) list" where
  "obj_of es = fold (\<lambda>(k, v). obj_insert k v) es []"

definition json_obj :: "(string \<times> json) list \<Rightarrow> json" where
  "json_obj es = JObj (obj_of es)"

lemma map_of_obj_insert [simp]: "map_of (obj_insert k v es) = (map_of es)(k \<mapsto> v)"
  by (induction k v es rule: obj_insert.induct) (auto simp: fun_eq_iff)

lemma map_of_fold_insert:
  "map_of (fold (\<lambda>(k, v). obj_insert k v) es acc) = map_of acc ++ map_of (rev es)"
proof (induction es arbitrary: acc)
  case (Cons e es)
  obtain k v where "e = (k, v)" by force
  with Cons.IH [of "obj_insert k v acc"] show ?case
    by (auto simp: fun_eq_iff map_add_def split: option.splits)
qed simp

lemma map_of_obj_of [simp]: "map_of (obj_of es) = map_of (rev es)"
  by (simp add: obj_of_def map_of_fold_insert)

lemma keys_obj_insert: "set (map fst (obj_insert k v es)) = insert k (set (map fst es))"
  by (induction k v es rule: obj_insert.induct) auto

lemma sorted_obj_insert:
  "sorted_wrt (<) (map fst es) \<Longrightarrow> sorted_wrt (<) (map fst (obj_insert k v es))"
proof (induction k v es rule: obj_insert.induct)
  case (2 k v k' v' es)
  then show ?case
    using keys_obj_insert [of k v es] by (auto simp del: set_map)
qed simp

lemma sorted_obj_of: "sorted_wrt (<) (map fst (obj_of es))"
proof -
  have "sorted_wrt (<) (map fst acc) \<Longrightarrow>
    sorted_wrt (<) (map fst (fold (\<lambda>(k, v). obj_insert k v) es acc))" for acc :: "(string \<times> 'a) list"
    by (induction es arbitrary: acc) (auto intro!: sorted_obj_insert)
  then show ?thesis by (simp add: obj_of_def)
qed

lemma distinct_obj_of [simp]: "distinct (map fst (obj_of es))"
proof -
  have "sorted_wrt (<) (ks :: string list) \<Longrightarrow> distinct ks" for ks
    by (induction ks) auto
  then show ?thesis using sorted_obj_of by blast
qed

section \<open>Reading values\<close>

fun json_get :: "string \<Rightarrow> json \<Rightarrow> json option" where
  "json_get k (JObj es) = map_of es k"
| "json_get _ _ = None"

fun as_str :: "json \<Rightarrow> string option" where
  "as_str (JStr s) = Some s"
| "as_str _ = None"

fun as_array :: "json \<Rightarrow> json list option" where
  "as_array (JArr xs) = Some xs"
| "as_array _ = None"

fun as_object :: "json \<Rightarrow> (string \<times> json) list option" where
  "as_object (JObj es) = Some es"
| "as_object _ = None"

fun as_bool :: "json \<Rightarrow> bool option" where
  "as_bool (JBool b) = Some b"
| "as_bool _ = None"

fun as_u64 :: "json \<Rightarrow> int option" where
  "as_u64 (JInt i) = (if 0 \<le> i \<and> i < 2 ^ 64 then Some i else None)"
| "as_u64 _ = None"

section \<open>Derived serde codecs\<close>

text \<open>
  A derived \<open>Deserialize\<close> of a struct reads an object by field name, ignoring unknown
  keys and refusing a repeated one, or an array by position. A unit variant is its name, or
  an object holding it with \<open>null\<close>. \<open>None\<close> is a serde error.
\<close>

fun struct_fields :: "string list \<Rightarrow> json \<Rightarrow> (string \<rightharpoonup> json) option" where
  "struct_fields names (JObj es) =
     (if distinct (filter (\<lambda>k. k \<in> set names) (map fst es)) then Some (map_of es) else None)"
| "struct_fields names (JArr vs) =
     (if length vs \<le> length names then Some (map_of (zip names vs)) else None)"
| "struct_fields _ _ = None"

fun variant_tag :: "json \<Rightarrow> string option" where
  "variant_tag (JStr s) = Some s"
| "variant_tag (JObj [(k, JNull)]) = Some k"
| "variant_tag _ = None"

definition read_default :: "(json \<Rightarrow> 'a option) \<Rightarrow> 'a \<Rightarrow> json option \<Rightarrow> 'a option" where
  "read_default d dflt v = (case v of None \<Rightarrow> Some dflt | Some j \<Rightarrow> d j)"

definition read_opt :: "(json \<Rightarrow> 'a option) \<Rightarrow> json option \<Rightarrow> 'a option option" where
  "read_opt d v =
     (case v of None \<Rightarrow> Some None | Some j \<Rightarrow> if j = JNull then Some None else map_option Some (d j))"

definition field_req :: "(json \<Rightarrow> 'a option) \<Rightarrow> (string \<rightharpoonup> json) \<Rightarrow> string \<Rightarrow> 'a option" where
  "field_req d m k = Option.bind (m k) d"

definition field_default ::
  "(json \<Rightarrow> 'a option) \<Rightarrow> 'a \<Rightarrow> (string \<rightharpoonup> json) \<Rightarrow> string \<Rightarrow> 'a option" where
  "field_default d dflt m k = read_default d dflt (m k)"

definition field_opt ::
  "(json \<Rightarrow> 'a option) \<Rightarrow> (string \<rightharpoonup> json) \<Rightarrow> string \<Rightarrow> 'a option option" where
  "field_opt d m k = read_opt d (m k)"

definition dec_list :: "(json \<Rightarrow> 'a option) \<Rightarrow> json \<Rightarrow> 'a list option" where
  "dec_list d j = Option.bind (as_array j) (\<lambda>xs. those (map d xs))"

definition dec_uint :: "nat \<Rightarrow> json \<Rightarrow> int option" where
  "dec_uint w j = (case j of JInt i \<Rightarrow> if 0 \<le> i \<and> i < 2 ^ w then Some i else None | _ \<Rightarrow> None)"

definition dec_sint :: "nat \<Rightarrow> json \<Rightarrow> int option" where
  "dec_sint w j =
     (case j of JInt i \<Rightarrow> if - (2 ^ (w - 1)) \<le> i \<and> i < 2 ^ (w - 1) then Some i else None
      | _ \<Rightarrow> None)"

definition enc_list :: "('a \<Rightarrow> json) \<Rightarrow> 'a list \<Rightarrow> json" where
  "enc_list f xs = JArr (map f xs)"

text \<open>\<open>skip_serializing_if\<close>: an absent option or an empty list gives no entry.\<close>

definition opt_entry :: "string \<Rightarrow> ('a \<Rightarrow> json) \<Rightarrow> 'a option \<Rightarrow> (string \<times> json) list" where
  "opt_entry k f x = (case x of None \<Rightarrow> [] | Some v \<Rightarrow> [(k, f v)])"

definition list_entry :: "string \<Rightarrow> ('a \<Rightarrow> json) \<Rightarrow> 'a list \<Rightarrow> (string \<times> json) list" where
  "list_entry k f xs = (if xs = [] then [] else [(k, enc_list f xs)])"

lemma those_map_Some: "(\<And>x. x \<in> set xs \<Longrightarrow> d (f x) = Some x) \<Longrightarrow> those (map (d \<circ> f) xs) = Some xs"
  by (induction xs) auto

lemma dec_enc_list [simp]: "(\<And>x. d (f x) = Some x) \<Longrightarrow> dec_list d (enc_list f xs) = Some xs"
  using those_map_Some [of xs d f] by (simp add: dec_list_def enc_list_def)

lemma struct_fields_obj [simp]: "struct_fields names (json_obj es) = Some (map_of (rev es))"
  by (simp add: json_obj_def distinct_filter flip: filter_map)

lemma json_get_obj [simp]: "json_get k (json_obj es) = map_of (rev es) k"
  by (simp add: json_obj_def)

lemma map_of_opt_entry [simp]:
  "map_of (opt_entry k f x) = (\<lambda>k'. if k' = k then map_option f x else None)"
  "map_of (rev (opt_entry k f x)) = (\<lambda>k'. if k' = k then map_option f x else None)"
  by (auto simp: opt_entry_def fun_eq_iff split: option.splits)

lemma map_of_list_entry [simp]:
  "map_of (list_entry k f xs) = (\<lambda>k'. if k' = k \<and> xs \<noteq> [] then Some (enc_list f xs) else None)"
  "map_of (rev (list_entry k f xs)) = (\<lambda>k'. if k' = k \<and> xs \<noteq> [] then Some (enc_list f xs) else None)"
  by (auto simp: list_entry_def fun_eq_iff)

lemma map_add_app: "(m ++ n) k = coalesce (n k) (m k)"
  by (cases "n k") (simp_all add: map_add_def)

lemma coalesce_None [simp]: "coalesce x None = x"
  by (cases x) auto

lemma read_codec [simp]:
  "read_opt as_str (map_option JStr x) = Some x"
  "read_opt as_str None = Some None"
  "read_default d dflt None = Some dflt"
  "read_default d dflt (Some j) = d j"
  by (cases x) (auto simp: read_opt_def read_default_def)

lemma read_default_list [simp]:
  assumes "\<And>x. d (f x) = Some x"
  shows "read_default (dec_list d) [] (if xs \<noteq> [] then Some (enc_list f xs) else None) = Some xs"
    "read_default (dec_list d) [] (if xs = [] then None else Some (enc_list f xs)) = Some xs"
  using assms by (auto simp: read_default_def)

lemmas field_defs = field_req_def field_opt_def field_default_def map_add_app

lemma json_size_arr [termination_simp]: "x \<in> set xs \<Longrightarrow> size x < Suc (size_list size xs)"
  by (induction xs) auto

lemma json_size_obj [termination_simp]:
  "(k, x) \<in> set es \<Longrightarrow> size x < Suc (size_list (size_prod (\<lambda>_. 0) size) es)"
  by (induction es) auto

text \<open>A compact printer, for witnesses that need some JSON text (no string escapes).\<close>

fun print_json :: "json \<Rightarrow> string" where
  "print_json JNull = ''null''"
| "print_json (JBool b) = (if b then ''true'' else ''false'')"
| "print_json (JInt i) = dec_int i"
| "print_json (JFloat s) = s"
| "print_json (JStr s) = [CHR 0x22] @ s @ [CHR 0x22]"
| "print_json (JArr xs) = ''['' @ join '','' (map print_json xs) @ '']''"
| "print_json (JObj es) =
     ''{'' @ join '','' (map (\<lambda>e. [CHR 0x22] @ fst e @ [CHR 0x22] @ '':'' @ print_json (snd e)) es) @ ''}''"

end
