(* ===== verification/Core_Message.thy ===== *)
theory Core_Message
  imports Core_Identity Json
begin

text \<open>
  \<open>crates/core/src/message.rs\<close>, \<open>verify.rs\<close>, \<open>capability.rs\<close> and \<open>protocol.rs\<close>:
  envelopes, their signature and verification, capability declarations and the payloads of
  the protocol verbs with their serde codecs.

  A time is a number of nanoseconds since the Unix epoch. RFC 3339 rendering
  (\<open>time\<close>) and JCS (\<open>serde_jcs\<close>) are parameters that may fail.
\<close>

section \<open>Time\<close>

type_synonym time = int

definition NANOS :: int where
  "NANOS = 1000000000"

definition unix_timestamp :: "time \<Rightarrow> int" where
  "unix_timestamp t = t div NANOS"

section \<open>Envelopes\<close>

datatype protocol_verb = DescribeSelf | GetKnownPeers | Ping | Invoke | BlobTicket

fun verb_name :: "protocol_verb \<Rightarrow> string" where
  "verb_name DescribeSelf = ''describe_self''"
| "verb_name GetKnownPeers = ''get_known_peers''"
| "verb_name Ping = ''ping''"
| "verb_name Invoke = ''invoke''"
| "verb_name BlobTicket = ''blob_ticket''"

record envelope =
  sender_id :: instance_id
  recipient_id :: instance_id
  timestamp :: time
  nonce :: string
  verb :: protocol_verb
  payload :: json
  sender_endpoint :: "string option"

record signed_message =
  sm_envelope :: envelope
  sender_public_key :: string
  sm_signature :: string

record wire_env = crypto +
  rfc3339 :: "time \<Rightarrow> string option"
  jcs :: "json \<Rightarrow> string option"

definition envelope_json :: "('x) wire_env_scheme \<Rightarrow> envelope \<Rightarrow> json option" where
  "envelope_json w e =
     do {
       ts \<leftarrow> rfc3339 w (timestamp e);
       Some (json_obj
         ([(''sender_id'', JStr (sender_id e)), (''recipient_id'', JStr (recipient_id e)),
           (''timestamp'', JStr ts), (''nonce'', JStr (nonce e)),
           (''verb'', JStr (verb_name (verb e))), (''payload'', payload e)]
          @ opt_entry ''sender_endpoint'' JStr (sender_endpoint e)))
     }"

definition canonical_bytes ::
  "('x) wire_env_scheme \<Rightarrow> envelope \<Rightarrow> (core_error, string) result" where
  "canonical_bytes w e =
     (case Option.bind (envelope_json w e) (jcs w) of
        None \<Rightarrow> Inl (Canonical ''serialization'')
      | Some b \<Rightarrow> Inr b)"

definition SIGNATURE_BYTES :: nat where
  "SIGNATURE_BYTES = 64"

definition signature_encode :: "('x) crypto_scheme \<Rightarrow> string \<Rightarrow> string" where
  "signature_encode cr sig = hex_encode cr sig"

definition signature_decode :: "('x) crypto_scheme \<Rightarrow> string \<Rightarrow> (core_error, string) result" where
  "signature_decode cr s =
     (case hex_decode cr s of
        None \<Rightarrow> Inl (Crypto ''hex decode'')
      | Some bytes \<Rightarrow>
          (if length bytes \<noteq> SIGNATURE_BYTES
           then Inl (Crypto (''signature must be '' @ dec SIGNATURE_BYTES @ '' bytes, got ''
             @ dec (length bytes)))
           else Inr bytes))"

definition sign_envelope ::
  "('x) wire_env_scheme \<Rightarrow> keypair \<Rightarrow> envelope \<Rightarrow> (core_error, signed_message) result" where
  "sign_envelope w kp e =
     (if sender_id e \<noteq> keypair_id w kp
      then Inl (InvalidIdentifier (''envelope sender_id '' @ sender_id e
        @ '' does not match keypair '' @ keypair_id w kp))
      else (case canonical_bytes w e of
              Inl err \<Rightarrow> Inl err
            | Inr bytes \<Rightarrow>
                Inr \<lparr>sm_envelope = e, sender_public_key = public_key w kp,
                     sm_signature = signature_encode w (keypair_sign w kp bytes)\<rparr>))"

definition verify_signature ::
  "('x) wire_env_scheme \<Rightarrow> signed_message \<Rightarrow> (core_error, unit) result" where
  "verify_signature w m =
     (if from_public_key w (sender_public_key m) \<noteq> sender_id (sm_envelope m)
      then Inl SignatureInvalid
      else (case canonical_bytes w (sm_envelope m) of
              Inl err \<Rightarrow> Inl err
            | Inr bytes \<Rightarrow>
                (case signature_decode w (sm_signature m) of
                   Inl err \<Rightarrow> Inl err
                 | Inr sig \<Rightarrow> public_key_verify w (sender_public_key m) bytes sig)))"

section \<open>Verification\<close>

text \<open>\<open>VerifyConfig\<close>; the clock skew is a \<open>Duration\<close> in nanoseconds, 5 minutes by default.\<close>

record verify_config =
  clock_skew :: int

definition default_verify_config :: verify_config where
  "default_verify_config = \<lparr>clock_skew = 5 * 60 * NANOS\<rparr>"

definition whole_seconds_apart :: "time \<Rightarrow> time \<Rightarrow> int" where
  "whole_seconds_apart now ts = \<bar>now - ts\<bar> div NANOS"

definition verify_envelope ::
  "('x) wire_env_scheme \<Rightarrow> signed_message \<Rightarrow> instance_id \<Rightarrow> time \<Rightarrow> verify_config
     \<Rightarrow> (core_error, signed_message) result" where
  "verify_envelope w m expected now cfg =
     (if recipient_id (sm_envelope m) \<noteq> expected
      then Inl (RecipientMismatch expected (recipient_id (sm_envelope m)))
      else if whole_seconds_apart now (timestamp (sm_envelope m)) * NANOS > clock_skew cfg
      then Inl TimestampOutOfWindow
      else (case verify_signature w m of Inl err \<Rightarrow> Inl err | Inr _ \<Rightarrow> Inr m))"

section \<open>Capability declarations\<close>

datatype access_mode = Free | Restricted | Private

fun is_public :: "access_mode \<Rightarrow> bool" where
  "is_public m = (m \<noteq> Private)"

record capability_example =
  user_intent :: string
  ex_args :: json
  expected_output :: json

record negative_example =
  ne_user_intent :: string
  why_not :: string

record capability_decl =
  cap_name :: string
  description :: string
  schema_in :: json
  schema_out :: json
  mode :: access_mode
  pricing :: "string option"
  tags :: "string list"
  lobe_ids :: "string list"
  examples :: "capability_example list"
  disambiguation :: "string option"
  negative_examples :: "negative_example list"
  output_semantic :: "string option"
  version :: string
  languages :: "string list"
  countries :: "string list"

definition default_cap_version :: string where
  "default_cap_version = ''0.0.0''"

fun mode_name :: "access_mode \<Rightarrow> string" where
  "mode_name Free = ''free''"
| "mode_name Restricted = ''restricted''"
| "mode_name Private = ''private''"

definition mode_of_tag :: "string \<Rightarrow> access_mode option" where
  "mode_of_tag s =
     (if s = ''free'' then Some Free else if s = ''restricted'' then Some Restricted
      else if s = ''private'' then Some Private else None)"

definition dec_mode :: "json \<Rightarrow> access_mode option" where
  "dec_mode j = Option.bind (variant_tag j) mode_of_tag"

definition enc_example :: "capability_example \<Rightarrow> json" where
  "enc_example e =
     json_obj [(''user_intent'', JStr (user_intent e)), (''args'', ex_args e),
       (''expected_output'', expected_output e)]"

definition dec_example :: "json \<Rightarrow> capability_example option" where
  "dec_example j =
     do {
       m \<leftarrow> struct_fields [''user_intent'', ''args'', ''expected_output''] j;
       u \<leftarrow> field_req as_str m ''user_intent'';
       a \<leftarrow> field_req Some m ''args'';
       x \<leftarrow> field_req Some m ''expected_output'';
       Some \<lparr>user_intent = u, ex_args = a, expected_output = x\<rparr>
     }"

definition enc_negative :: "negative_example \<Rightarrow> json" where
  "enc_negative e =
     json_obj [(''user_intent'', JStr (ne_user_intent e)), (''why_not'', JStr (why_not e))]"

definition dec_negative :: "json \<Rightarrow> negative_example option" where
  "dec_negative j =
     do {
       m \<leftarrow> struct_fields [''user_intent'', ''why_not''] j;
       u \<leftarrow> field_req as_str m ''user_intent'';
       y \<leftarrow> field_req as_str m ''why_not'';
       Some \<lparr>ne_user_intent = u, why_not = y\<rparr>
     }"

definition enc_decl :: "capability_decl \<Rightarrow> json" where
  "enc_decl d =
     json_obj
       ([(''name'', JStr (cap_name d)), (''description'', JStr (description d)),
         (''schema_in'', schema_in d), (''schema_out'', schema_out d),
         (''mode'', JStr (mode_name (mode d)))]
        @ opt_entry ''pricing'' JStr (pricing d)
        @ [(''tags'', enc_list JStr (tags d)), (''lobe_ids'', enc_list JStr (lobe_ids d))]
        @ list_entry ''examples'' enc_example (examples d)
        @ opt_entry ''disambiguation'' JStr (disambiguation d)
        @ list_entry ''negative_examples'' enc_negative (negative_examples d)
        @ opt_entry ''output_semantic'' JStr (output_semantic d)
        @ [(''version'', JStr (version d))]
        @ list_entry ''languages'' JStr (languages d)
        @ list_entry ''countries'' JStr (countries d))"

definition dec_decl :: "json \<Rightarrow> capability_decl option" where
  "dec_decl j =
     do {
       m \<leftarrow> struct_fields
         [''name'', ''description'', ''schema_in'', ''schema_out'', ''mode'', ''pricing'', ''tags'',
          ''lobe_ids'', ''examples'', ''disambiguation'', ''negative_examples'', ''output_semantic'',
          ''version'', ''languages'', ''countries''] j;
       n \<leftarrow> field_req as_str m ''name'';
       de \<leftarrow> field_req as_str m ''description'';
       si \<leftarrow> field_req Some m ''schema_in'';
       so \<leftarrow> field_req Some m ''schema_out'';
       mo \<leftarrow> field_req dec_mode m ''mode'';
       pr \<leftarrow> field_opt as_str m ''pricing'';
       tg \<leftarrow> field_default (dec_list as_str) [] m ''tags'';
       lo \<leftarrow> field_default (dec_list as_str) [] m ''lobe_ids'';
       ex \<leftarrow> field_default (dec_list dec_example) [] m ''examples'';
       di \<leftarrow> field_opt as_str m ''disambiguation'';
       ne \<leftarrow> field_default (dec_list dec_negative) [] m ''negative_examples'';
       os \<leftarrow> field_opt as_str m ''output_semantic'';
       ve \<leftarrow> field_default as_str default_cap_version m ''version'';
       la \<leftarrow> field_default (dec_list as_str) [] m ''languages'';
       co \<leftarrow> field_default (dec_list as_str) [] m ''countries'';
       Some \<lparr>cap_name = n, description = de, schema_in = si, schema_out = so, mode = mo,
         pricing = pr, tags = tg, lobe_ids = lo, examples = ex, disambiguation = di,
         negative_examples = ne, output_semantic = os, version = ve, languages = la,
         countries = co\<rparr>
     }"

section \<open>Verb payloads\<close>

definition PROTOCOL_VERSION :: string where
  "PROTOCOL_VERSION = ''n3ur0n/0.3''"

record describe_self_response =
  ds_instance_id :: instance_id
  ds_endpoint :: "string option"
  ds_alias :: "string option"
  protocol_version :: string
  updated_at :: string
  ds_lobe_ids :: "string list"
  capabilities :: "capability_decl list"

record get_known_peers_request =
  gkp_limit :: int
  gkp_capability :: "string option"

record peer_summary =
  ps_instance_id :: instance_id
  ps_endpoint :: "string option"
  ps_alias :: "string option"

record get_known_peers_response =
  gkp_peers :: "peer_summary list"

record ping_response =
  server_time :: string

record invoke_request =
  iv_capability :: string
  iv_args :: json
  subscription_token :: "string option"

record invoke_response =
  iv_result :: json

definition enc_describe_self :: "describe_self_response \<Rightarrow> json" where
  "enc_describe_self r =
     json_obj
       ([(''instance_id'', JStr (ds_instance_id r))]
        @ opt_entry ''endpoint'' JStr (ds_endpoint r)
        @ opt_entry ''alias'' JStr (ds_alias r)
        @ [(''protocol_version'', JStr (protocol_version r)), (''updated_at'', JStr (updated_at r)),
           (''lobe_ids'', enc_list JStr (ds_lobe_ids r)),
           (''capabilities'', enc_list enc_decl (capabilities r))])"

definition dec_describe_self :: "json \<Rightarrow> describe_self_response option" where
  "dec_describe_self j =
     do {
       m \<leftarrow> struct_fields [''instance_id'', ''endpoint'', ''alias'', ''protocol_version'',
         ''updated_at'', ''lobe_ids'', ''capabilities''] j;
       i \<leftarrow> field_req as_str m ''instance_id'';
       e \<leftarrow> field_opt as_str m ''endpoint'';
       a \<leftarrow> field_opt as_str m ''alias'';
       p \<leftarrow> field_req as_str m ''protocol_version'';
       u \<leftarrow> field_req as_str m ''updated_at'';
       l \<leftarrow> field_default (dec_list as_str) [] m ''lobe_ids'';
       c \<leftarrow> field_default (dec_list dec_decl) [] m ''capabilities'';
       Some \<lparr>ds_instance_id = i, ds_endpoint = e, ds_alias = a, protocol_version = p,
         updated_at = u, ds_lobe_ids = l, capabilities = c\<rparr>
     }"

definition dec_get_known_peers_request :: "json \<Rightarrow> get_known_peers_request option" where
  "dec_get_known_peers_request j =
     do {
       m \<leftarrow> struct_fields [''limit'', ''capability''] j;
       l \<leftarrow> field_req (dec_uint 32) m ''limit'';
       c \<leftarrow> field_opt as_str m ''capability'';
       Some \<lparr>gkp_limit = l, gkp_capability = c\<rparr>
     }"

definition enc_get_known_peers_request :: "get_known_peers_request \<Rightarrow> json" where
  "enc_get_known_peers_request r =
     json_obj ([(''limit'', JInt (gkp_limit r))] @ opt_entry ''capability'' JStr (gkp_capability r))"

definition enc_peer_summary :: "peer_summary \<Rightarrow> json" where
  "enc_peer_summary p =
     json_obj ([(''instance_id'', JStr (ps_instance_id p))]
       @ opt_entry ''endpoint'' JStr (ps_endpoint p) @ opt_entry ''alias'' JStr (ps_alias p))"

definition dec_peer_summary :: "json \<Rightarrow> peer_summary option" where
  "dec_peer_summary j =
     do {
       m \<leftarrow> struct_fields [''instance_id'', ''endpoint'', ''alias''] j;
       i \<leftarrow> field_req as_str m ''instance_id'';
       e \<leftarrow> field_opt as_str m ''endpoint'';
       a \<leftarrow> field_opt as_str m ''alias'';
       Some \<lparr>ps_instance_id = i, ps_endpoint = e, ps_alias = a\<rparr>
     }"

definition enc_get_known_peers :: "get_known_peers_response \<Rightarrow> json" where
  "enc_get_known_peers r = json_obj [(''peers'', enc_list enc_peer_summary (gkp_peers r))]"

definition dec_get_known_peers :: "json \<Rightarrow> get_known_peers_response option" where
  "dec_get_known_peers j =
     do {
       m \<leftarrow> struct_fields [''peers''] j;
       p \<leftarrow> field_req (dec_list dec_peer_summary) m ''peers'';
       Some \<lparr>gkp_peers = p\<rparr>
     }"

definition enc_ping :: "ping_response \<Rightarrow> json" where
  "enc_ping r = json_obj [(''server_time'', JStr (server_time r))]"

definition dec_invoke_request :: "json \<Rightarrow> invoke_request option" where
  "dec_invoke_request j =
     do {
       m \<leftarrow> struct_fields [''capability'', ''args'', ''subscription_token''] j;
       c \<leftarrow> field_req as_str m ''capability'';
       a \<leftarrow> field_req Some m ''args'';
       t \<leftarrow> field_opt as_str m ''subscription_token'';
       Some \<lparr>iv_capability = c, iv_args = a, subscription_token = t\<rparr>
     }"

definition enc_invoke_request :: "invoke_request \<Rightarrow> json" where
  "enc_invoke_request r =
     json_obj ([(''capability'', JStr (iv_capability r)), (''args'', iv_args r)]
       @ opt_entry ''subscription_token'' JStr (subscription_token r))"

definition enc_invoke_response :: "invoke_response \<Rightarrow> json" where
  "enc_invoke_response r = json_obj [(''result'', iv_result r)]"

definition dec_invoke_response :: "json \<Rightarrow> invoke_response option" where
  "dec_invoke_response j =
     do {
       m \<leftarrow> struct_fields [''result''] j;
       r \<leftarrow> field_req Some m ''result'';
       Some \<lparr>iv_result = r\<rparr>
     }"

section \<open>Lemmas\<close>

lemma mode_codec [simp]: "dec_mode (JStr (mode_name m)) = Some m"
  by (cases m) (auto simp: dec_mode_def mode_of_tag_def)

lemma example_codec [simp]: "dec_example (enc_example e) = Some e"
  by (simp add: dec_example_def enc_example_def field_defs)

lemma negative_codec [simp]: "dec_negative (enc_negative e) = Some e"
  by (simp add: dec_negative_def enc_negative_def field_defs)

lemma decl_codec [simp]: "dec_decl (enc_decl d) = Some d"
  by (simp add: dec_decl_def enc_decl_def field_defs)

lemma peer_summary_codec [simp]: "dec_peer_summary (enc_peer_summary p) = Some p"
  by (simp add: dec_peer_summary_def enc_peer_summary_def field_defs)

lemma get_known_peers_codec [simp]: "dec_get_known_peers (enc_get_known_peers r) = Some r"
  by (simp add: dec_get_known_peers_def enc_get_known_peers_def field_defs)

lemma describe_self_codec [simp]: "dec_describe_self (enc_describe_self r) = Some r"
  by (simp add: dec_describe_self_def enc_describe_self_def field_defs)

lemma invoke_request_codec [simp]: "dec_invoke_request (enc_invoke_request r) = Some r"
  by (simp add: dec_invoke_request_def enc_invoke_request_def field_defs)

lemma signature_codec:
  assumes "hex_law cr" "length sig = SIGNATURE_BYTES"
  shows "signature_decode cr (signature_encode cr sig) = Inr sig"
  using assms by (simp add: hex_law_def signature_decode_def signature_encode_def)

lemma signed_verifies:
  assumes "hex_law w" "ed25519_law w" "sign_envelope w kp e = Inr m"
  shows "verify_signature w m = Inr ()" "sm_envelope m = e"
proof -
  obtain b where b: "canonical_bytes w e = Inr b" "sender_id e = keypair_id w kp"
    and m: "m = \<lparr>sm_envelope = e, sender_public_key = public_key w kp,
      sm_signature = signature_encode w (keypair_sign w kp b)\<rparr>"
    using assms(3) by (auto simp: sign_envelope_def split: if_splits sum.splits)
  have "signature_decode w (signature_encode w (keypair_sign w kp b)) = Inr (keypair_sign w kp b)"
    using assms by (intro signature_codec)
      (auto simp: ed25519_law_def keypair_sign_def SIGNATURE_BYTES_def)
  moreover have "ed_verify w (public_key w kp) b (keypair_sign w kp b)"
    using assms(2) by (simp add: ed25519_law_def public_key_def keypair_sign_def)
  ultimately show "verify_signature w m = Inr ()"
    using b by (simp add: m verify_signature_def keypair_id_def public_key_verify_def)
  show "sm_envelope m = e" by (simp add: m)
qed

lemma verify_signature_iff:
  "verify_signature w m = Inr () \<longleftrightarrow>
     from_public_key w (sender_public_key m) = sender_id (sm_envelope m)
     \<and> (\<exists>b sig. canonical_bytes w (sm_envelope m) = Inr b
          \<and> hex_decode w (sm_signature m) = Some sig \<and> length sig = SIGNATURE_BYTES
          \<and> ed_verify w (sender_public_key m) b sig)"
  by (auto simp: verify_signature_def signature_decode_def public_key_verify_def
      split: sum.splits option.splits if_splits)

lemma verify_envelope_Inr:
  "verify_envelope w m expected now cfg = Inr m' \<longleftrightarrow>
     m' = m \<and> recipient_id (sm_envelope m) = expected
     \<and> whole_seconds_apart now (timestamp (sm_envelope m)) * NANOS \<le> clock_skew cfg
     \<and> verify_signature w m = Inr ()"
  by (auto simp: verify_envelope_def split: sum.splits)

lemma signed_accepted:
  assumes "hex_law w" "ed25519_law w" "sign_envelope w kp e = Inr m"
    and "recipient_id e = me" "\<bar>now - timestamp e\<bar> \<le> clock_skew cfg"
  shows "verify_envelope w m me now cfg = Inr m"
proof -
  have "\<bar>now - timestamp e\<bar> div NANOS * NANOS \<le> \<bar>now - timestamp e\<bar>"
    by (simp add: NANOS_def)
  then show ?thesis
    using assms signed_verifies [OF assms(1-3)]
    by (auto simp: verify_envelope_Inr whole_seconds_apart_def)
qed

section \<open>A concrete wire environment\<close>

definition toy_wire :: wire_env where
  "toy_wire = crypto.extend toy_crypto
     \<lparr>rfc3339 = (\<lambda>t. Some (dec_int (unix_timestamp t))), jcs = (\<lambda>j. Some (print_json j))\<rparr>"

lemma toy_wire_fields [simp]:
  "sha256 toy_wire = sha256 toy_crypto" "base32_encode toy_wire = base32_encode toy_crypto"
  "base32_decode toy_wire = base32_decode toy_crypto" "hex_encode toy_wire = hex_encode toy_crypto"
  "hex_decode toy_wire = hex_decode toy_crypto" "ed_public toy_wire = ed_public toy_crypto"
  "ed_sign toy_wire = ed_sign toy_crypto" "ed_verify toy_wire = ed_verify toy_crypto"
  "rfc3339 toy_wire t = Some (dec_int (unix_timestamp t))" "jcs toy_wire j = Some (print_json j)"
  by (simp_all add: toy_wire_def crypto.defs)

lemma toy_wire_laws [simp]:
  "sha256_law toy_wire" "base32_law toy_wire" "hex_law toy_wire" "ed25519_law toy_wire"
  using sha256_toy base32_toy hex_toy ed25519_toy
  by (simp_all add: sha256_law_def base32_law_def hex_law_def ed25519_law_def)

definition toy_envelope :: envelope where
  "toy_envelope = \<lparr>sender_id = keypair_id toy_wire ''alice'', recipient_id = keypair_id toy_wire ''bob'',
     timestamp = 5000000000, nonce = ''n1'', verb = Ping, payload = JNull, sender_endpoint = None\<rparr>"

definition toy_message :: signed_message where
  "toy_message = \<lparr>sm_envelope = toy_envelope, sender_public_key = public_key toy_wire ''alice'',
     sm_signature = signature_encode toy_wire (keypair_sign toy_wire ''alice''
       (case canonical_bytes toy_wire toy_envelope of Inr b \<Rightarrow> b))\<rparr>"

lemma toy_message: "sign_envelope toy_wire ''alice'' toy_envelope = Inr toy_message"
  by (simp add: sign_envelope_def toy_message_def canonical_bytes_def envelope_json_def)
    (simp add: toy_envelope_def)

section \<open>Properties\<close>

text \<open>
  (wire codecs). What a node serialises as its \<open>describe_self\<close> answer, capability
  declarations included, is what a peer deserialises, optional and defaulted fields alike.
\<close>

theorem describe_self_roundtrip: "dec_describe_self (enc_describe_self r) = Some r"
  by simp

text \<open>
  (signing and verification agree). An envelope signed by its sender's key pair is accepted
  by \<open>verify_envelope\<close> at the addressed instance while the clocks agree within the window.
\<close>

theorem sign_then_verify:
  assumes "hex_law w" "ed25519_law w" "sign_envelope w kp e = Inr m"
    and "recipient_id e = me" "\<bar>now - timestamp e\<bar> \<le> clock_skew cfg"
  shows "verify_envelope w m me now cfg = Inr m"
  by (rule signed_accepted [OF assms])

lemma sign_then_verify_witness:
  "verify_envelope toy_wire toy_message (keypair_id toy_wire ''bob'') 7000000000 default_verify_config = Inr toy_message"
  by (rule sign_then_verify [OF toy_wire_laws(3,4) toy_message])
    (simp_all add: toy_envelope_def default_verify_config_def NANOS_def)


end
