(* ===== verification/Store_Peers.thy ===== *)
theory Store_Peers
  imports Core_Message
begin

text \<open>
  \<open>crates/storage/src/nonces.rs\<close>, \<open>peers.rs\<close> and the migration loop of \<open>lib.rs\<close>.
  Two interfaces are stated as locales: a table with a primary key written by upserts, and a
  guard against replayed requests. Pool and I/O failures are not modelled; a query answers
  from the rows of its table, ties of an \<open>ORDER BY\<close> in rowid order.
\<close>

section \<open>Interface: keyed tables\<close>

locale keyed_table =
  fixes lookup :: "'k \<Rightarrow> 't \<Rightarrow> 'r option"
    and put :: "'r \<Rightarrow> 't \<Rightarrow> 't"
    and del :: "'k \<Rightarrow> 't \<Rightarrow> 't"
    and inv :: "'t \<Rightarrow> bool"
    and key :: "'r \<Rightarrow> 'k"
    and merge :: "'r \<Rightarrow> 'r \<Rightarrow> 'r"
  assumes lookup_put: "lookup k (put r t) =
      (if k = key r then Some (case lookup k t of None \<Rightarrow> r | Some old \<Rightarrow> merge old r)
       else lookup k t)"
    and lookup_del: "lookup k (del k' t) = (if k = k' then None else lookup k t)"
    and inv_put: "inv t \<Longrightarrow> inv (put r t)"
    and inv_del: "inv t \<Longrightarrow> inv (del k t)"
begin

lemma inv_puts: "inv t \<Longrightarrow> inv (fold put rs t)"
  by (induction rs arbitrary: t) (auto intro: inv_put)

lemma lookup_puts_other: "k \<notin> key ` set rs \<Longrightarrow> lookup k (fold put rs t) = lookup k t"
  by (induction rs arbitrary: t) (auto simp: lookup_put)

lemma lookup_puts_None:
  "lookup k (fold put rs t) = None \<longleftrightarrow> lookup k t = None \<and> k \<notin> key ` set rs"
  by (induction rs arbitrary: t) (auto simp: lookup_put)

text \<open>What a merge keeps of the old row survives any sequence of upserts.\<close>

lemma sticky:
  assumes "lookup k t = Some r" "P r"
    and "\<And>old new. P old \<Longrightarrow> new \<in> set rs \<Longrightarrow> key new = k \<Longrightarrow> P (merge old new)"
  shows "\<exists>r'. lookup k (fold put rs t) = Some r' \<and> P r'"
  using assms
proof (induction rs arbitrary: t r)
  case (Cons a rs)
  show ?case
  proof (cases "key a = k")
    case True
    then have "lookup k (put a t) = Some (merge r a)"
      using Cons.prems(1) by (simp add: lookup_put)
    moreover have "P (merge r a)" using Cons.prems True by simp
    ultimately show ?thesis using Cons.IH [of "put a t" "merge r a"] Cons.prems(3) by simp
  next
    case False
    then have "lookup k (put a t) = Some r" using Cons.prems(1) by (simp add: lookup_put)
    then show ?thesis using Cons.IH [of "put a t" r] Cons.prems(2,3) by simp
  qed
qed auto

end

section \<open>Interface: replay guards\<close>

text \<open>
  \<open>stamp k t\<close> is when the key \<open>k\<close> was recorded. A request is a key with its claimed time
  and arrives at some instant; \<open>fresh\<close> is the clock check. The flag of a request says
  whether admitting it also prunes the table.
\<close>

locale replay_guard =
  fixes good :: "'t \<Rightarrow> bool"
    and stamp :: "'k \<Rightarrow> 't \<Rightarrow> int option"
    and record_once :: "'k \<Rightarrow> int \<Rightarrow> 't \<Rightarrow> bool \<times> 't"
    and prune :: "int \<Rightarrow> 't \<Rightarrow> 't"
    and secs :: "'i \<Rightarrow> int"
    and fresh :: "'i \<Rightarrow> 'c \<Rightarrow> bool"
    and ttl :: int
  assumes record_fst: "fst (record_once k now t) \<longleftrightarrow> stamp k t = None"
    and record_snd: "stamp k' (snd (record_once k now t)) =
      (if k' = k \<and> stamp k t = None then Some now else stamp k' t)"
    and prune_stamp: "good t \<Longrightarrow> stamp k (prune cutoff t) =
      (case stamp k t of None \<Rightarrow> None | Some s \<Rightarrow> if s < cutoff then None else Some s)"
    and good_record: "good t \<Longrightarrow> good (snd (record_once k now t))"
    and good_prune: "good t \<Longrightarrow> good (prune cutoff t)"
    and window: "fresh i c \<Longrightarrow> fresh j c \<Longrightarrow> secs j - secs i \<le> ttl"
begin

fun admitted :: "'t \<Rightarrow> (bool \<times> 'k \<times> 'c \<times> 'i) list \<Rightarrow> (bool \<times> 'k \<times> 'c \<times> 'i) list" where
  "admitted t [] = []"
| "admitted t ((p, k, c, i) # es) =
     (if fresh i c
      then let (new, t') = record_once k (secs i) t in
        if new then (p, k, c, i) # admitted (if p then prune (secs i - ttl) t' else t') es
        else admitted t' es
      else admitted t es)"

lemma admitted_sound:
  "(p, k, c, i) \<in> set (admitted t es) \<Longrightarrow> fresh i c \<and> (p, k, c, i) \<in> set es"
proof (induction es arbitrary: t)
  case (Cons e es)
  then show ?case by (cases e) (fastforce split: prod.splits if_splits)
qed simp

lemma good_after:
  assumes "good t" "record_once k n t = (new, t')"
  shows "good t'" "good (if p then prune cutoff t' else t')"
  using good_record [OF assms(1), of k n] good_prune assms(2) by auto

lemma stamp_after:
  assumes "good t" "stamp k t = Some n" "cutoff \<le> n \<or> \<not> p"
  shows "stamp k (if p then prune cutoff t else t) = Some n"
  using assms by (auto simp: prune_stamp)

lemma recorded_blocks:
  assumes "stamp k t = Some n" "good t" "sorted (map (\<lambda>(p, k, c, i). secs i) es)"
    and "(p, k, c, i) \<in> set (admitted t es)"
  shows "n + ttl < secs i"
  using assms
proof (induction es arbitrary: t)
  case (Cons e es)
  obtain q k' c' i' where e: "e = (q, k', c', i')" by (cases e)
  obtain new t' where r: "record_once k' (secs i') t = (new, t')" by fastforce
  let ?t = "if q then prune (secs i' - ttl) t' else t'"
  have later: "secs i' \<le> secs i" if "(p, k, c, i) \<in> set es"
    using Cons.prems(3) that e by force
  have keep: "stamp k t' = Some n"
    using record_snd [of k k' "secs i'" t] Cons.prems(1) r by (auto split: if_splits)
  have not_new: "\<not> (new \<and> k' = k)"
    using record_fst [of k' "secs i'" t] Cons.prems(1) r by auto
  have tail: "sorted (map (\<lambda>(p, k, c, i). secs i) es)" using Cons.prems(3) by simp
  note g = good_after [OF Cons.prems(2) r]
  show ?case
  proof (cases "fresh i' c' \<and> new")
    case True
    then have mem: "(p, k, c, i) \<in> set (admitted ?t es)"
      using Cons.prems(4) e r not_new by auto
    show ?thesis
    proof (cases "n < secs i' - ttl")
      case True
      then show ?thesis using later mem admitted_sound by fastforce
    next
      case False
      then have "stamp k ?t = Some n" using stamp_after [OF g(1) keep] by simp
      then show ?thesis using Cons.IH [OF _ g(2) tail mem] by blast
    qed
  next
    case False
    then have "(p, k, c, i) \<in> set (admitted t' es) \<or> (p, k, c, i) \<in> set (admitted t es)"
      using Cons.prems(4) e r by (auto split: if_splits)
    then show ?thesis using Cons.IH [OF keep g(1) tail] Cons.IH [OF Cons.prems(1,2) tail] by blast
  qed
qed simp

text \<open>While the clock does not run backwards, no request is admitted twice.\<close>

lemma no_replay:
  assumes "good t" "sorted (map (\<lambda>(p, k, c, i). secs i) es)"
  shows "distinct (map (\<lambda>(p, k, c, i). (k, c)) (admitted t es))"
  using assms
proof (induction t es rule: admitted.induct)
  case (2 t p k c i es)
  obtain new t' where r: "record_once k (secs i) t = (new, t')" by fastforce
  have tail: "sorted (map (\<lambda>(p, k, c, i). secs i) es)" using "2.prems" by simp
  note g = good_after [OF "2.prems"(1) r]
  show ?case
  proof (cases "fresh i c \<and> new")
    case True
    let ?t = "if p then prune (secs i - ttl) t' else t'"
    have "stamp k t' = Some (secs i)"
      using True r record_fst [of k "secs i" t] record_snd [of k k "secs i" t] by simp
    moreover have "0 \<le> ttl" using window [of i c i] True by simp
    ultimately have st: "stamp k ?t = Some (secs i)" using stamp_after [OF g(1)] by simp
    have "(k, c) \<notin> (\<lambda>(p, k, c, i). (k, c)) ` set (admitted ?t es)"
    proof
      assume "(k, c) \<in> (\<lambda>(p, k, c, i). (k, c)) ` set (admitted ?t es)"
      then obtain q j where j: "(q, k, c, j) \<in> set (admitted ?t es)" by auto
      with recorded_blocks [OF st g(2) tail j] window [of i c j] admitted_sound [OF j] True
      show False by simp
    qed
    moreover have "distinct (map (\<lambda>(p, k, c, i). (k, c)) (admitted ?t es))"
      using "2.IH"(1) True r tail g by simp
    ultimately show ?thesis using True r by simp
  next
    case False
    then show ?thesis using "2.IH"(2,3) "2.prems"(1) r tail g by (auto split: if_splits)
  qed
qed simp

end

section \<open>Nonces\<close>

record nonce_row =
  nr_sender :: string
  nr_nonce :: string
  nr_seen_at :: int

definition nonce_key :: "nonce_row \<Rightarrow> string \<times> string" where
  "nonce_key r = (nr_sender r, nr_nonce r)"

text \<open>\<open>INSERT OR IGNORE\<close>: the answer says whether a row was added.\<close>

definition insert_if_absent ::
  "string \<Rightarrow> string \<Rightarrow> int \<Rightarrow> nonce_row list \<Rightarrow> bool \<times> nonce_row list" where
  "insert_if_absent sender non seen_at t =
     (if select_by nonce_key (sender, non) t = None
      then (True, t @ [\<lparr>nr_sender = sender, nr_nonce = non, nr_seen_at = seen_at\<rparr>])
      else (False, t))"

definition prune_older_than :: "int \<Rightarrow> nonce_row list \<Rightarrow> nat \<times> nonce_row list" where
  "prune_older_than cutoff t =
     (length (filter (\<lambda>r. nr_seen_at r < cutoff) t), sql_delete (\<lambda>r. nr_seen_at r < cutoff) t)"

definition nonce_stamp :: "string \<times> string \<Rightarrow> nonce_row list \<Rightarrow> int option" where
  "nonce_stamp k t = map_option nr_seen_at (select_by nonce_key k t)"

lemma unique_nonces:
  "unique_key nonce_key t \<Longrightarrow> unique_key nonce_key (snd (insert_if_absent s n at t))"
  by (auto simp: insert_if_absent_def unique_key_snoc select_by_None nonce_key_def)

lemma stamp_insert:
  "fst (insert_if_absent (fst k) (snd k) now t) \<longleftrightarrow> nonce_stamp k t = None"
  "nonce_stamp k' (snd (insert_if_absent (fst k) (snd k) now t)) =
     (if k' = k \<and> nonce_stamp k t = None then Some now else nonce_stamp k' t)"
  by (auto simp: insert_if_absent_def nonce_stamp_def select_by_snoc nonce_key_def
      split: option.splits)

lemma select_by_delete_unique:
  assumes "unique_key key t"
  shows "select_by key k (sql_delete p t) =
    (case select_by key k t of None \<Rightarrow> None | Some r \<Rightarrow> if p r then None else Some r)"
proof (cases "select_by key k t")
  case None
  then have "select_by key k (sql_delete p t) = None" by (auto simp: select_by_None)
  then show ?thesis using None by simp
next
  case (Some r)
  then have r: "r \<in> set t" "key r = k" by (auto dest: select_by_Some)
  show ?thesis
  proof (cases "p r")
    case True
    have "x = r" if "x \<in> set t" "key x = k" for x
      using that r assms by (auto simp: unique_key_def dest: inj_onD simp: distinct_map)
    then have "select_by key k (sql_delete p t) = None"
      using True by (auto simp: select_by_None)
    then show ?thesis using Some True by simp
  next
    case False
    then have "select_by key (key r) (sql_delete p t) = Some r"
      using r assms by (intro select_by_unique unique_key_delete) auto
    then show ?thesis using Some False r by simp
  qed
qed

definition within_skew :: "time \<Rightarrow> time \<Rightarrow> bool" where
  "within_skew now ts \<longleftrightarrow> whole_seconds_apart now ts * NANOS \<le> clock_skew default_verify_config"

definition NONCE_TTL_SECONDS :: int where
  "NONCE_TTL_SECONDS = 60 * 60"

lemma within_skew_iff: "within_skew now ts \<longleftrightarrow> \<bar>now - ts\<bar> < 301 * NANOS"
  by (simp add: within_skew_def whole_seconds_apart_def default_verify_config_def NANOS_def) linarith

lemma skew_window:
  assumes "within_skew i c" "within_skew j c"
  shows "unix_timestamp j - unix_timestamp i \<le> NONCE_TTL_SECONDS"
proof -
  have "j - i < 602 * NANOS" using assms by (simp add: within_skew_iff)
  then have "j div NANOS \<le> (i + 602 * NANOS) div NANOS"
    by (intro zdiv_mono1) (auto simp: NANOS_def)
  then show ?thesis by (simp add: unix_timestamp_def NANOS_def NONCE_TTL_SECONDS_def)
qed

interpretation nonces: replay_guard "unique_key nonce_key" nonce_stamp
  "\<lambda>k. insert_if_absent (fst k) (snd k)" "\<lambda>cutoff t. snd (prune_older_than cutoff t)"
  unix_timestamp within_skew NONCE_TTL_SECONDS
proof (unfold_locales, goal_cases)
  case (3 t k cutoff)
  then show ?case
    by (auto simp: prune_older_than_def nonce_stamp_def select_by_delete_unique split: option.splits)
next
  case (5 t cutoff)
  then show ?case by (simp add: prune_older_than_def unique_key_delete)
next
  case (6 i c j)
  then show ?case by (rule skew_window)
qed (simp_all add: stamp_insert unique_nonces)

section \<open>Peers\<close>

record peer_record =
  pr_id :: string
  pr_endpoint :: string
  pr_alias :: "string option"
  last_seen :: "int option"
  tls_fingerprint :: "string option"
  describe_self_cached :: "string option"
  describe_self_fetched_at :: "int option"
  pr_source :: "string option"

type_synonym peer_table = "peer_record list"

definition peer_merge :: "peer_record \<Rightarrow> peer_record \<Rightarrow> peer_record" where
  "peer_merge old new =
     \<lparr>pr_id = pr_id old, pr_endpoint = pr_endpoint new,
      pr_alias = coalesce (pr_alias new) (pr_alias old),
      last_seen = coalesce (last_seen new) (last_seen old),
      tls_fingerprint = coalesce (tls_fingerprint new) (tls_fingerprint old),
      describe_self_cached = coalesce (describe_self_cached new) (describe_self_cached old),
      describe_self_fetched_at =
        coalesce (describe_self_fetched_at new) (describe_self_fetched_at old),
      pr_source = coalesce (pr_source new) (pr_source old)\<rparr>"

definition peer_upsert :: "peer_record \<Rightarrow> peer_table \<Rightarrow> peer_table" where
  "peer_upsert = sql_upsert pr_id peer_merge"

definition set_alias :: "string \<Rightarrow> string option \<Rightarrow> peer_table \<Rightarrow> peer_table" where
  "set_alias i a = sql_update (\<lambda>r. pr_id r = i) (\<lambda>r. r\<lparr>pr_alias := a\<rparr>)"

definition find_by_id_prefix :: "string \<Rightarrow> int \<Rightarrow> peer_table \<Rightarrow> peer_record list" where
  "find_by_id_prefix prefix lim t =
     (let body = (case strip_prefix ''n3:'' prefix of Some b \<Rightarrow> b | None \<Rightarrow> prefix) in
      if body = [] \<or> \<not> list_all (\<lambda>b. is_ascii_lowercase b \<or> is_ascii_digit b) body then []
      else limit lim (sort_key pr_id (filter (\<lambda>r. starts_with (''n3:'' @ body) (pr_id r)) t)))"

definition peer_get :: "string \<Rightarrow> peer_table \<Rightarrow> peer_record option" where
  "peer_get = select_by pr_id"

text \<open>\<open>ORDER BY last_seen DESC NULLS LAST\<close>.\<close>

definition seen_rank :: "peer_record \<Rightarrow> int" where
  "seen_rank r = (case last_seen r of Some s \<Rightarrow> - s | None \<Rightarrow> 0)"

definition peer_list :: "int \<Rightarrow> peer_table \<Rightarrow> peer_record list" where
  "peer_list lim t =
     limit lim (sort_key seen_rank (filter (\<lambda>r. last_seen r \<noteq> None) t)
       @ filter (\<lambda>r. last_seen r = None) t)"

definition peer_delete :: "string \<Rightarrow> peer_table \<Rightarrow> bool \<times> peer_table" where
  "peer_delete i t = (\<exists>r\<in>set t. pr_id r = i, sql_delete (\<lambda>r. pr_id r = i) t)"

interpretation peers: keyed_table peer_get peer_upsert "\<lambda>i t. snd (peer_delete i t)"
  "unique_key pr_id" pr_id peer_merge
  by unfold_locales
    (auto simp: peer_get_def peer_upsert_def peer_delete_def peer_merge_def
      select_by_upsert select_by_delete_key intro: unique_key_upsert unique_key_delete)

lemma peer_list_subset: "set (peer_list lim t) \<subseteq> set t"
  using set_limit [of lim] by (force simp: peer_list_def)

section \<open>Migrations\<close>

text \<open>
  \<open>migrate\<close>: the scripts are numbered from 1 and run in one transaction; \<open>run\<close> applies a
  script to the schema. Rolling back leaves the database as it was.
\<close>

record 's database =
  schema :: 's
  schema_version :: "int list"

fun migrate_loop ::
  "(string \<Rightarrow> 's \<Rightarrow> (string, 's) result) \<Rightarrow> int \<Rightarrow> int \<Rightarrow> string list \<Rightarrow> 's database
     \<Rightarrow> (string, 's database) result" where
  "migrate_loop run current v [] db = Inr db"
| "migrate_loop run current v (sql # scripts) db =
     (if v > current
      then (case run sql (schema db) of
              Inl e \<Rightarrow> Inl (''v'' @ dec_int v @ '': '' @ e)
            | Inr s' \<Rightarrow>
                migrate_loop run current (v + 1) scripts
                  \<lparr>schema = s', schema_version = schema_version db @ [v]\<rparr>)
      else migrate_loop run current (v + 1) scripts db)"

definition migrate ::
  "(string \<Rightarrow> 's \<Rightarrow> (string, 's) result) \<Rightarrow> string list \<Rightarrow> 's database
     \<Rightarrow> string option \<times> 's database" where
  "migrate run scripts db =
     (let current = (if schema_version db = [] then 0 else Max (set (schema_version db)))
      in case migrate_loop run current 1 scripts db of
           Inl e \<Rightarrow> (Some e, db)
         | Inr db' \<Rightarrow> (None, db'))"

lemma migrate_loop_skip:
  "current \<ge> v + int (length scripts) - 1 \<Longrightarrow> migrate_loop run current v scripts db = Inr db"
  by (induction scripts arbitrary: v db) auto

lemma migrate_loop_versions:
  "migrate_loop run current v scripts db = Inr db' \<Longrightarrow>
     schema_version db' = schema_version db
       @ filter (\<lambda>x. x > current) [v..v + int (length scripts) - 1]"
proof (induction scripts arbitrary: v db)
  case (Cons sql scripts)
  have "[v..v + int (length (sql # scripts)) - 1] = v # [v + 1..v + 1 + int (length scripts) - 1]"
    by (simp add: upto_rec1 algebra_simps)
  then show ?case using Cons by (auto split: if_splits sum.splits)
qed simp

lemma migrate_loop_none:
  "current \<ge> v + int (length scripts) - 1 \<Longrightarrow> migrate_loop run current v scripts db = Inr db' \<Longrightarrow> db' = db"
  by (simp add: migrate_loop_skip)

lemma migrated_twice:
  fixes db :: "'s database"
  assumes "migrate run scripts db = (None, db')"
  shows "migrate run scripts db' = (None, db')"
proof -
  define cur where "cur = (\<lambda>d :: 's database. if schema_version d = [] then 0 else Max (set (schema_version d)))"
  let ?n = "int (length scripts)"
  have m: "migrate run scripts d =
      (case migrate_loop run (cur d) 1 scripts d of Inl e \<Rightarrow> (Some e, d) | Inr d' \<Rightarrow> (None, d'))" for d
    by (simp add: migrate_def cur_def Let_def)
  have l: "migrate_loop run (cur db) 1 scripts db = Inr db'"
    using assms by (auto simp: m split: sum.splits)
  have "scripts = [] \<or> ?n \<le> cur db'"
  proof (cases "?n \<le> cur db")
    case True
    then show ?thesis using migrate_loop_none [OF _ l] by simp
  next
    case False
    then have "scripts = [] \<or> ?n \<in> set (schema_version db')"
      using migrate_loop_versions [OF l] by (cases scripts) auto
    then show ?thesis by (auto simp: cur_def)
  qed
  then show ?thesis using l by (auto simp: m migrate_loop_skip)
qed

section \<open>Properties\<close>

text \<open>
  (migrations). A run that succeeds leaves a database on which a second run changes
  nothing; one that fails leaves the database exactly as it was.
\<close>

theorem migrate_once_is_enough:
  assumes "migrate run scripts db = (err, db')"
  shows "if err = None then migrate run scripts db' = (None, db') else db' = db"
  using assms migrated_twice [of run scripts db db']
  by (auto simp: migrate_def Let_def split: sum.splits)

lemma migrate_once_is_enough_witness:
  "if (None :: string option) = None
   then migrate (\<lambda>q s. Inr (s @ [q])) [''a'', ''b''] \<lparr>schema = [''a'', ''b''], schema_version = [1, 2]\<rparr>
     = (None, \<lparr>schema = [''a'', ''b''], schema_version = [1, 2]\<rparr>)
   else \<lparr>schema = [''a'', ''b''], schema_version = [1, 2]\<rparr>
     = \<lparr>schema = [''a''], schema_version = [1 :: int]\<rparr>"
  by (rule migrate_once_is_enough) (simp add: migrate_def)

text \<open>
  (a known alias survives reverse announces). Whatever sequence of records without an
  alias is upserted, a peer that had an alias keeps it.
\<close>

theorem alias_survives_announces:
  assumes "peer_get i t = Some r" "pr_alias r = Some a" "list_all (\<lambda>n. pr_alias n = None) rs"
  shows "\<exists>r'. peer_get i (fold peer_upsert rs t) = Some r' \<and> pr_alias r' = Some a"
  using peers.sticky [of i t r "\<lambda>r. pr_alias r = Some a" rs] assms
  by (auto simp: peer_merge_def list_all_iff)

lemma alias_survives_announces_witness:
  "\<exists>r'. peer_get ''n3:a'' (fold peer_upsert
      [\<lparr>pr_id = ''n3:a'', pr_endpoint = ''http://x'', pr_alias = None, last_seen = Some 9,
        tls_fingerprint = None, describe_self_cached = None, describe_self_fetched_at = None,
        pr_source = Some ''reverse_announce''\<rparr>]
      [\<lparr>pr_id = ''n3:a'', pr_endpoint = ''http://a'', pr_alias = Some ''alice'', last_seen = None,
        tls_fingerprint = None, describe_self_cached = None, describe_self_fetched_at = None,
        pr_source = None\<rparr>]) = Some r' \<and> pr_alias r' = Some ''alice''"
  by (rule alias_survives_announces, simp add: peer_get_def select_by_def, simp_all)

end
