(* ===== verification/Core_Blob.thy ===== *)
theory Core_Blob
  imports Core_Message
begin

text \<open>
  \<open>crates/core/src/blob.rs\<close>: content hashes, blob references and tickets with their
  codecs, the four classifications, and the rules for blob paths. A \<open>u64\<close> field is a
  64-bit word. Unicode case mapping, Base64url, JSON text and the civil calendar are
  parameters.
\<close>

type_synonym u64 = "64 word"

definition enc_u64 :: "u64 \<Rightarrow> json" where
  "enc_u64 w = JInt (uint w)"

definition dec_u64 :: "json \<Rightarrow> u64 option" where
  "dec_u64 j = map_option word_of_int (dec_uint 64 j)"

lemma u64_codec [simp]: "dec_u64 (enc_u64 w) = Some w"
  using uint_bounded [of w] by (simp add: dec_u64_def enc_u64_def dec_uint_def)

lemma read_u64 [simp]: "read_opt dec_u64 (map_option enc_u64 x) = Some x" "read_opt d None = Some None"
  by (cases x) (simp_all add: read_opt_def, simp add: enc_u64_def)

section \<open>Hashes\<close>

definition BLOB_HASH_PREFIX :: string where
  "BLOB_HASH_PREFIX = ''sha256:''"

definition validate_hash :: "string \<Rightarrow> (core_error, unit) result" where
  "validate_hash s =
     (if \<not> starts_with BLOB_HASH_PREFIX s
      then Inl (InvalidIdentifier (''blob hash must start with '' @ BLOB_HASH_PREFIX))
      else let hex = drop (length BLOB_HASH_PREFIX) s
           in if length hex \<noteq> 64 \<or> \<not> list_all (ascii_char is_hex_lower) (chars hex)
              then Inl (InvalidIdentifier ''blob hash must be 64 lowercase hex digits'')
              else Inr ())"

definition hash_bytes :: "('x) crypto_scheme \<Rightarrow> string \<Rightarrow> string" where
  "hash_bytes cr data = BLOB_HASH_PREFIX @ hex_encode cr (sha256 cr data)"

section \<open>References and tickets\<close>

record blob_ref =
  br_hash :: string
  br_size :: u64
  br_mime :: string
  fetch_url :: "string option"
  br_name :: "string option"

definition dec_blob_ref :: "json \<Rightarrow> blob_ref option" where
  "dec_blob_ref j =
     do {
       m \<leftarrow> struct_fields [''hash'', ''size'', ''mime'', ''fetch_url'', ''name''] j;
       h \<leftarrow> field_req as_str m ''hash'';
       s \<leftarrow> field_req dec_u64 m ''size'';
       i \<leftarrow> field_req as_str m ''mime'';
       f \<leftarrow> field_opt as_str m ''fetch_url'';
       n \<leftarrow> field_opt as_str m ''name'';
       Some \<lparr>br_hash = h, br_size = s, br_mime = i, fetch_url = f, br_name = n\<rparr>
     }"

definition enc_blob_ref :: "blob_ref \<Rightarrow> json" where
  "enc_blob_ref b =
     json_obj ([(''hash'', JStr (br_hash b)), (''size'', enc_u64 (br_size b)),
         (''mime'', JStr (br_mime b))]
       @ opt_entry ''fetch_url'' JStr (fetch_url b) @ opt_entry ''name'' JStr (br_name b))"

datatype blob_operation = OpPut | OpGet | OpDelete

datatype blob_purpose = PurposeInput | PurposeOutput | PurposeOwned

fun operation_name :: "blob_operation \<Rightarrow> string" where
  "operation_name OpPut = ''put''"
| "operation_name OpGet = ''get''"
| "operation_name OpDelete = ''delete''"

definition dec_operation :: "json \<Rightarrow> blob_operation option" where
  "dec_operation j =
     Option.bind (variant_tag j) (\<lambda>s.
       if s = ''put'' then Some OpPut else if s = ''get'' then Some OpGet
       else if s = ''delete'' then Some OpDelete else None)"

fun purpose_name :: "blob_purpose \<Rightarrow> string" where
  "purpose_name PurposeInput = ''input''"
| "purpose_name PurposeOutput = ''output''"
| "purpose_name PurposeOwned = ''owned''"

definition dec_purpose :: "json \<Rightarrow> blob_purpose option" where
  "dec_purpose j =
     Option.bind (variant_tag j) (\<lambda>s.
       if s = ''input'' then Some PurposeInput else if s = ''output'' then Some PurposeOutput
       else if s = ''owned'' then Some PurposeOwned else None)"

record blob_ticket_payload =
  operation :: blob_operation
  tk_hash :: "string option"
  tk_size :: "u64 option"
  tk_mime :: "string option"
  tk_capability :: "string option"
  expires_at :: int
  purpose :: blob_purpose
  requested_ttl_secs :: "u64 option"
  recipients_whitelist :: "string list option"

definition enc_ticket_payload :: "blob_ticket_payload \<Rightarrow> json" where
  "enc_ticket_payload t =
     json_obj ([(''operation'', JStr (operation_name (operation t)))]
       @ opt_entry ''hash'' JStr (tk_hash t)
       @ opt_entry ''size'' enc_u64 (tk_size t)
       @ opt_entry ''mime'' JStr (tk_mime t)
       @ opt_entry ''capability'' JStr (tk_capability t)
       @ [(''expires_at'', JInt (expires_at t)), (''purpose'', JStr (purpose_name (purpose t)))]
       @ opt_entry ''requested_ttl_secs'' enc_u64 (requested_ttl_secs t)
       @ opt_entry ''recipients_whitelist'' (enc_list JStr) (recipients_whitelist t))"

definition dec_ticket_payload :: "json \<Rightarrow> blob_ticket_payload option" where
  "dec_ticket_payload j =
     do {
       m \<leftarrow> struct_fields [''operation'', ''hash'', ''size'', ''mime'', ''capability'',
         ''expires_at'', ''purpose'', ''requested_ttl_secs'', ''recipients_whitelist''] j;
       oper \<leftarrow> field_req dec_operation m ''operation'';
       h \<leftarrow> field_opt as_str m ''hash'';
       s \<leftarrow> field_opt dec_u64 m ''size'';
       i \<leftarrow> field_opt as_str m ''mime'';
       c \<leftarrow> field_opt as_str m ''capability'';
       e \<leftarrow> field_req (dec_sint 64) m ''expires_at'';
       p \<leftarrow> field_req dec_purpose m ''purpose'';
       r \<leftarrow> field_opt dec_u64 m ''requested_ttl_secs'';
       w \<leftarrow> field_opt (dec_list as_str) m ''recipients_whitelist'';
       Some \<lparr>operation = oper, tk_hash = h, tk_size = s, tk_mime = i, tk_capability = c,
         expires_at = e, purpose = p, requested_ttl_secs = r, recipients_whitelist = w\<rparr>
     }"

definition default_ttl_secs :: "blob_purpose \<Rightarrow> u64" where
  "default_ttl_secs p =
     (case p of PurposeInput \<Rightarrow> 60 * 60 | PurposeOutput \<Rightarrow> 24 * 60 * 60 | PurposeOwned \<Rightarrow> 60 * 60)"

text \<open>The ticket header: JSON text of the signed message in Base64url without padding.\<close>

record ticket_env = wire_env +
  base64url_encode :: "string \<Rightarrow> string"
  base64url_decode :: "string \<Rightarrow> string option"
  message_to_text :: "signed_message \<Rightarrow> string option"
  message_of_text :: "string \<Rightarrow> signed_message option"

definition encode_ticket_wire ::
  "('x) ticket_env_scheme \<Rightarrow> signed_message \<Rightarrow> (core_error, string) result" where
  "encode_ticket_wire w m =
     (case message_to_text w m of
        None \<Rightarrow> Inl (Canonical ''serialization'')
      | Some txt \<Rightarrow> Inr (base64url_encode w txt))"

definition decode_ticket_wire ::
  "('x) ticket_env_scheme \<Rightarrow> string \<Rightarrow> (core_error, signed_message) result" where
  "decode_ticket_wire w header =
     (case base64url_decode w (trim header) of
        None \<Rightarrow> Inl (Crypto ''ticket base64url'')
      | Some bytes \<Rightarrow>
          (case message_of_text w bytes of
             None \<Rightarrow> Inl (SerdeError ''signed message'')
           | Some m \<Rightarrow> Inr m))"

section \<open>Classification\<close>

datatype blob_provenance = Outbound | Inbound
datatype blob_role = RoleInput | RoleOutput
datatype anchor_kind = UserSession | CapJob | LocalCache
datatype processing_status =
  Uploading | Staged | Referenced | Processing | Ready | Consumed | Expired | Stale

record blob_classification =
  provenance :: blob_provenance
  role :: blob_role
  anchor :: anchor_kind
  user_visible :: bool
  user_deletable :: bool
  status :: processing_status

definition classify_outbound_upload :: blob_classification where
  "classify_outbound_upload =
     \<lparr>provenance = Outbound, role = RoleInput, anchor = UserSession, user_visible = True,
      user_deletable = True, status = Ready\<rparr>"

definition classify_inbound_output :: blob_classification where
  "classify_inbound_output =
     \<lparr>provenance = Inbound, role = RoleOutput, anchor = UserSession, user_visible = True,
      user_deletable = True, status = Ready\<rparr>"

definition classify_cap_staging :: blob_classification where
  "classify_cap_staging =
     \<lparr>provenance = Inbound, role = RoleInput, anchor = CapJob, user_visible = False,
      user_deletable = False, status = Staged\<rparr>"

definition classify_local_cache :: blob_classification where
  "classify_local_cache =
     \<lparr>provenance = Outbound, role = RoleInput, anchor = LocalCache, user_visible = True,
      user_deletable = True, status = Staged\<rparr>"

section \<open>Paths\<close>

definition MAX_BLOB_PATH_LEN :: nat where
  "MAX_BLOB_PATH_LEN = 255"

definition clean_path :: "string \<Rightarrow> string" where
  "clean_path raw =
     concat (filter (\<lambda>ch. \<not> is_control ch)
       (map (\<lambda>ch. if ch = [CHR 0x5C] then ''/'' else ch) (chars raw)))"

definition path_segments :: "string \<Rightarrow> string list" where
  "path_segments cleaned =
     filter (\<lambda>seg. seg \<noteq> [] \<and> seg \<noteq> ''.'' \<and> seg \<noteq> ''..'')
       (map trim (split_on CHR ''/'' cleaned))"

fun cut_back :: "string \<Rightarrow> nat \<Rightarrow> nat" where
  "cut_back s 0 = 0"
| "cut_back s (Suc n) = (if is_char_boundary s (Suc n) then Suc n else cut_back s n)"

definition trim_end_matches :: "(char \<Rightarrow> bool) \<Rightarrow> string \<Rightarrow> string" where
  "trim_end_matches p s = rev (dropWhile p (rev s))"

definition sanitize_blob_path :: "string \<Rightarrow> string option" where
  "sanitize_blob_path raw =
     (let segments = path_segments (clean_path raw) in
      if segments = [] then None
      else let out = join ''/'' segments in
        if length out > MAX_BLOB_PATH_LEN
        then let trimmed = trim (trim_end_matches (\<lambda>c. c = CHR ''/'')
                   (take (cut_back out MAX_BLOB_PATH_LEN) out))
             in if trimmed = [] then None else Some trimmed
        else Some out)"

definition mime_extensions :: "(string \<times> string) list" where
  "mime_extensions =
     [(''text/plain'', ''txt''), (''text/markdown'', ''md''), (''text/csv'', ''csv''),
      (''text/html'', ''html''), (''application/json'', ''json''), (''application/pdf'', ''pdf''),
      (''application/zip'', ''zip''), (''image/jpeg'', ''jpg''), (''image/png'', ''png''),
      (''image/gif'', ''gif''), (''image/webp'', ''webp''), (''image/svg+xml'', ''svg''),
      (''audio/mpeg'', ''mp3''), (''audio/wav'', ''wav''), (''video/mp4'', ''mp4'')]"

definition extension_for_mime :: "(string \<Rightarrow> string) \<Rightarrow> string \<Rightarrow> string" where
  "extension_for_mime low raw =
     (let mime = low (trim (hd (split_on CHR '';'' raw))) in
      case map_of mime_extensions mime of
        Some ext \<Rightarrow> ext
      | None \<Rightarrow>
          let subtype = hd (split_on CHR ''+'' (last (split_on CHR ''/'' mime)));
              cleaned = concat (take 8 (filter (ascii_char is_ascii_alphanumeric) (chars subtype)))
          in if cleaned = [] then ''bin'' else cleaned)"

definition pad_left :: "nat \<Rightarrow> string \<Rightarrow> string" where
  "pad_left w s = replicate (w - length s) CHR ''0'' @ s"

definition year_digits :: "int \<Rightarrow> string" where
  "year_digits y = (if y < 0 then ''-'' @ pad_left 3 (dec (nat (- y))) else pad_left 4 (dec (nat y)))"

type_synonym civil_time = "int \<times> nat \<times> nat \<times> nat \<times> nat \<times> nat"

definition stamp_of :: "civil_time option \<Rightarrow> string" where
  "stamp_of t =
     (case t of
        None \<Rightarrow> ''unknown''
      | Some (y, mo, d, h, mi, s) \<Rightarrow>
          year_digits y @ ''-'' @ pad_left 2 (dec mo) @ ''-'' @ pad_left 2 (dec d) @ ''-''
          @ pad_left 2 (dec h) @ pad_left 2 (dec mi) @ pad_left 2 (dec s))"

definition cap_slug :: "string \<Rightarrow> string" where
  "cap_slug capability =
     (let cap = concat (take 64
            (map (\<lambda>ch. if ascii_char alias_char ch then ch else ''-'') (chars capability)));
          punct = (\<lambda>c. c = CHR ''.'' \<or> c = CHR ''-'' \<or> c = CHR ''_'');
          cap = dropWhile punct (trim_end_matches punct cap)
      in if cap = [] then ''output'' else cap)"

definition derive_output_path ::
  "(string \<Rightarrow> string) \<Rightarrow> (int \<Rightarrow> civil_time option) \<Rightarrow> string \<Rightarrow> string \<Rightarrow> int \<Rightarrow> string" where
  "derive_output_path low civil capability mime unix_ts =
     cap_slug capability @ ''/'' @ stamp_of (civil unix_ts) @ ''.'' @ extension_for_mime low mime"

section \<open>Lemmas\<close>

lemma operation_codec [simp]: "dec_operation (JStr (operation_name x)) = Some x"
  by (cases x) (simp_all add: dec_operation_def)

lemma purpose_codec [simp]: "dec_purpose (JStr (purpose_name x)) = Some x"
  by (cases x) (simp_all add: dec_purpose_def)

lemma read_whitelist [simp]:
  "read_opt (dec_list as_str) (map_option (enc_list JStr) x) = Some x"
  by (cases x) (simp_all add: read_opt_def, simp add: enc_list_def)

lemma blob_ref_codec [simp]: "dec_blob_ref (enc_blob_ref b) = Some b"
  by (simp add: dec_blob_ref_def enc_blob_ref_def field_defs)

lemma ticket_payload_codec:
  assumes "- (2 ^ 63) \<le> expires_at t" "expires_at t < 2 ^ 63"
  shows "dec_ticket_payload (enc_ticket_payload t) = Some t"
  using assms
  by (simp add: dec_ticket_payload_def enc_ticket_payload_def field_defs dec_sint_def)

lemma validate_hash_ok:
  "validate_hash s = Inr () \<longleftrightarrow>
     (\<exists>hex. s = BLOB_HASH_PREFIX @ hex \<and> length hex = 64 \<and> list_all is_hex_lower hex)"
proof -
  have b: "\<And>c. is_hex_lower c \<Longrightarrow> byte c < 128"
    by (auto simp: is_hex_lower_def dest: ascii_class_bound)
  have "list_all (ascii_char is_hex_lower) (chars h) \<longleftrightarrow> list_all is_hex_lower h" for h
    using chars_all_ascii [of is_hex_lower h, OF b] by (auto simp: list_all_iff)
  then show ?thesis
    by (auto simp: validate_hash_def Let_def dest: starts_withE split: if_splits)
qed

lemma hash_bytes_valid:
  assumes "sha256_law cr" "hex_law cr"
  shows "validate_hash (hash_bytes cr data) = Inr ()"
  using assms by (auto simp: validate_hash_ok hash_bytes_def sha256_law_def hex_law_def)

text \<open>Trimming removes bytes at the ends only, and nothing when no end is white space.\<close>

lemma set_concat_dropWhile: "set (concat (dropWhile p xs)) \<subseteq> set (concat xs)"
  using set_dropWhileD [of _ p xs] by auto

lemma length_concat_dropWhile: "length (concat (dropWhile p xs)) \<le> length (concat xs)"
  by (induction xs) auto

lemma trim_start_le: "set (trim_start s) \<subseteq> set s" "length (trim_start s) \<le> length s"
  using set_concat_dropWhile [of is_whitespace "chars s"]
    length_concat_dropWhile [of is_whitespace "chars s"]
  by (simp_all add: trim_start_def)

lemma length_concat_rev: "length (concat (rev xs)) = length (concat xs)"
  by (induction xs) auto

lemma trim_end_le: "set (trim_end s) \<subseteq> set s" "length (trim_end s) \<le> length s"
proof -
  have "set (concat (dropWhile is_whitespace (rev (chars s)))) \<subseteq> set (concat (rev (chars s)))"
    by (rule set_concat_dropWhile)
  then show "set (trim_end s) \<subseteq> set s"
    using arg_cong [OF concat_chars [of s], of set]
    by (simp add: trim_end_def del: concat_chars)
  have "length (concat (dropWhile is_whitespace (rev (chars s)))) \<le> length (concat (rev (chars s)))"
    by (rule length_concat_dropWhile)
  then show "length (trim_end s) \<le> length s"
    by (simp add: trim_end_def length_concat_rev)
qed

lemma trim_le: "set (trim s) \<subseteq> set s" "length (trim s) \<le> length s"
  using trim_start_le [of s] trim_end_le [of "trim_start s"] by (auto simp: trim_def)

lemma trim_id:
  assumes "list_all (\<lambda>ch. \<not> is_whitespace ch) (chars s)"
  shows "trim s = s"
proof -
  have "dropWhile is_whitespace xs = xs" if "list_all (\<lambda>ch. \<not> is_whitespace ch) xs" for xs
    using that by (cases xs) auto
  then have "trim_start s = s" "trim_end s = s"
    using assms by (simp_all add: trim_start_def trim_end_def)
  then show ?thesis by (simp add: trim_def)
qed

lemma cut_back_le: "cut_back s n \<le> n"
  by (induction n) auto

lemma length_trim_end_matches: "length (trim_end_matches p s) \<le> length s"
  by (simp add: trim_end_matches_def) (metis length_dropWhile_le length_rev)

lemma path_segments_ok:
  assumes "seg \<in> set (path_segments s)"
  shows "seg \<noteq> []" "seg \<noteq> ''.''" "seg \<noteq> ''..''" "CHR ''/'' \<notin> set seg"
proof -
  obtain q where q: "q \<in> set (split_on CHR ''/'' s)" "seg = trim q"
    using assms by (auto simp: path_segments_def)
  then show "CHR ''/'' \<notin> set seg"
    using split_on_no_sep trim_le(1) [of q] by blast
qed (use assms in \<open>auto simp: path_segments_def\<close>)

lemma join_nonempty: "xs \<noteq> [] \<Longrightarrow> [] \<notin> set xs \<Longrightarrow> join sep xs \<noteq> []"
  by (induction xs rule: induct_list012) auto

lemma sanitize_length:
  assumes "sanitize_blob_path raw = Some p"
  shows "p \<noteq> []" "length p \<le> MAX_BLOB_PATH_LEN"
proof -
  let ?segs = "path_segments (clean_path raw)"
  let ?out = "join ''/'' ?segs"
  let ?cut = "trim (trim_end_matches (\<lambda>c. c = CHR ''/'') (take (cut_back ?out MAX_BLOB_PATH_LEN) ?out))"
  have ne: "?segs \<noteq> []"
    using assms by (auto simp: sanitize_blob_path_def Let_def)
  then have "?out \<noteq> []"
    using path_segments_ok(1) by (intro join_nonempty) auto
  have "length ?cut \<le> MAX_BLOB_PATH_LEN"
    using trim_le(2) length_trim_end_matches cut_back_le
    by (metis (no_types, lifting) length_take min.cobounded2 order_trans)
  then show "p \<noteq> []" "length p \<le> MAX_BLOB_PATH_LEN"
    using assms \<open>?out \<noteq> []\<close> by (auto simp: sanitize_blob_path_def Let_def split: if_splits)
qed

lemma sanitize_segments:
  assumes "sanitize_blob_path raw = Some p"
    and "length (join ''/'' (path_segments (clean_path raw))) \<le> MAX_BLOB_PATH_LEN"
  shows "split_on CHR ''/'' p = path_segments (clean_path raw)"
  using assms path_segments_ok(4)
  by (auto simp: sanitize_blob_path_def Let_def split: if_splits intro!: split_on_join)

text \<open>Names built from ASCII graphic characters pass the sanitizer unchanged.\<close>

definition path_char :: "char \<Rightarrow> bool" where
  "path_char c \<longleftrightarrow> alias_char c"

lemma path_char_cases:
  assumes "path_char c"
  obtains "97 \<le> byte c" "byte c \<le> (122::nat)" | "65 \<le> byte c" "byte c \<le> (90::nat)"
    | "48 \<le> byte c" "byte c \<le> (57::nat)" | "c = CHR ''-''" | "c = CHR ''_''" | "c = CHR ''.''"
  using assms
  unfolding path_char_def alias_char_def is_ascii_alphanumeric_def is_ascii_alphabetic_def
    is_ascii_lowercase_def is_ascii_uppercase_def is_ascii_digit_def
  by blast

lemma path_char_bounds:
  assumes "path_char c"
  shows "33 \<le> byte c \<and> byte c < (127::nat) \<and> c \<noteq> CHR 0x5C \<and> c \<noteq> CHR ''/''"
  using assms by (cases c rule: path_char_cases) auto

lemma graphic_not_special:
  "33 \<le> byte c \<Longrightarrow> byte c < (127::nat) \<Longrightarrow> \<not> is_whitespace [c] \<and> \<not> is_control [c]"
  by (auto simp: is_whitespace_def is_control_def)

lemma graphic_ascii:
  assumes "\<And>c. c \<in> set s \<Longrightarrow> 33 \<le> byte c \<and> byte c < (127::nat)"
  shows "is_ascii s"
proof -
  have "byte c < (128::nat)" if "c \<in> set s" for c
    using assms [OF that] by linarith
  then show ?thesis by (simp add: is_ascii_def)
qed

lemma trim_graphic:
  assumes "list_all path_char s"
  shows "trim s = s"
proof -
  have b: "33 \<le> byte c \<and> byte c < (127::nat)" if "c \<in> set s" for c
    using assms that path_char_bounds [of c] by (simp add: list_all_iff)
  then have "is_ascii s" by (rule graphic_ascii)
  moreover have "\<And>c. c \<in> set s \<Longrightarrow> \<not> is_whitespace [c]"
    using b graphic_not_special by blast
  ultimately show ?thesis by (intro trim_id) (auto simp: chars_ascii list_all_iff)
qed

lemma clean_path_graphic:
  assumes "list_all (\<lambda>c. path_char c \<or> c = CHR ''/'') s"
  shows "clean_path s = s"
proof -
  have b: "33 \<le> byte c \<and> byte c < (127::nat) \<and> c \<noteq> CHR 0x5C" if "c \<in> set s" for c
  proof (cases "c = CHR ''/''")
    case False
    then have "path_char c" using assms that unfolding list_all_iff by blast
    then show ?thesis using path_char_bounds by blast
  qed simp
  then have a: "is_ascii s" by (intro graphic_ascii) simp
  have "map (\<lambda>ch. if ch = [CHR 0x5C] then ''/'' else ch) (map (\<lambda>c. [c]) s) = map (\<lambda>c. [c]) s"
    using b by auto
  moreover have "filter (\<lambda>ch. \<not> is_control ch) (map (\<lambda>c. [c]) s) = map (\<lambda>c. [c]) s"
    using b graphic_not_special by (auto simp: filter_id_conv)
  moreover have "concat (map (\<lambda>c. [c]) s) = s" by (induction s) auto
  ultimately show ?thesis by (simp only: clean_path_def chars_ascii [OF a])
qed

lemma sanitize_two_segments:
  assumes "list_all path_char a" "list_all path_char b"
    and "a \<noteq> []" "hd a \<noteq> CHR ''.''" "b \<noteq> []" "hd b \<noteq> CHR ''.''"
    and "length a + length b < MAX_BLOB_PATH_LEN"
  shows "sanitize_blob_path (a @ ''/'' @ b) = Some (a @ ''/'' @ b)"
proof -
  have "CHR ''/'' \<notin> set a" "CHR ''/'' \<notin> set b"
    using assms(1,2) path_char_bounds by (auto simp: list_all_iff)
  then have "split_on CHR ''/'' (a @ ''/'' @ b) = [a, b]"
    by (simp add: split_on_append split_on_single)
  moreover have "clean_path (a @ ''/'' @ b) = a @ ''/'' @ b"
    using assms(1,2) by (intro clean_path_graphic) (auto simp: list_all_iff)
  ultimately have "path_segments (clean_path (a @ ''/'' @ b)) = [a, b]"
    using assms by (auto simp: path_segments_def trim_graphic)
  then show ?thesis using assms(7) by (simp add: sanitize_blob_path_def)
qed

lemma digit_char: "n < 10 \<Longrightarrow> is_ascii_digit (char_of (48 + n :: nat))"
  by (simp add: is_ascii_digit_def)

lemma dec_digits: "list_all is_ascii_digit (dec n) \<and> dec n \<noteq> []"
proof (induction n rule: dec.induct)
  case (1 n)
  show ?case
    using 1 digit_char [of n] digit_char [of "n mod 10"] by (subst (1 2) dec.simps) simp
qed

lemma length_dec: "n < 10 ^ Suc k \<Longrightarrow> length (dec n) \<le> Suc k"
proof (induction k arbitrary: n)
  case 0
  then show ?case by (subst dec.simps) simp
next
  case (Suc k)
  then have "n div 10 < 10 ^ Suc k" by (simp add: div_less_iff_less_mult mult.commute)
  with Suc.IH show ?case by (subst dec.simps) simp
qed

text \<open>What the derived path relies on of the \<open>time\<close> crate: calendar fields in range.\<close>

definition civil_law :: "(int \<Rightarrow> civil_time option) \<Rightarrow> bool" where
  "civil_law civil \<longleftrightarrow>
     (\<forall>t y mo d h mi s. civil t = Some (y, mo, d, h, mi, s)
        \<longrightarrow> \<bar>y\<bar> < 10000 \<and> mo < 100 \<and> d < 100 \<and> h < 100 \<and> mi < 100 \<and> s < 100)"

lemma pad_left_ok:
  "list_all is_ascii_digit s \<Longrightarrow> list_all path_char (pad_left w s)"
  "length s \<le> w \<Longrightarrow> length (pad_left w s) = w"
  by (auto simp: pad_left_def list_all_iff path_char_def alias_char_def is_ascii_alphanumeric_def
      is_ascii_digit_def)

lemma year_digits_ok:
  assumes "\<bar>y\<bar> < 10000"
  shows "list_all path_char (year_digits y)" "length (year_digits y) \<le> 5"
    "year_digits y \<noteq> []" "hd (year_digits y) \<noteq> CHR ''.''"
proof -
  have l: "length (dec (nat \<bar>y\<bar>)) \<le> 4" using assms length_dec [of "nat \<bar>y\<bar>" 3] by simp
  have d: "list_all is_ascii_digit (dec n)" "dec n \<noteq> []" for n using dec_digits by auto
  have "length (pad_left w s) = max w (length s)" for w s by (simp add: pad_left_def)
  then show "length (year_digits y) \<le> 5" using l by (auto simp: year_digits_def)
  show "list_all path_char (year_digits y)"
    using d pad_left_ok(1) by (auto simp: year_digits_def path_char_def alias_char_def)
  show "year_digits y \<noteq> []" using d by (auto simp: year_digits_def pad_left_def)
  have "hd (pad_left w (dec n)) \<noteq> CHR ''.''" for w n
    using d [of n] by (cases "dec n"; cases "w - length (dec n)")
      (auto simp: pad_left_def is_ascii_digit_def)
  then show "hd (year_digits y) \<noteq> CHR ''.''" by (simp add: year_digits_def)
qed

lemma stamp_ok:
  assumes "civil_law civil"
  shows "list_all path_char (stamp_of (civil t))" "length (stamp_of (civil t)) \<le> 18"
    "stamp_of (civil t) \<noteq> []" "hd (stamp_of (civil t)) \<noteq> CHR ''.''"
proof -
  have two: "list_all path_char (pad_left 2 (dec n))" "length (pad_left 2 (dec n)) = 2" if "n < 100" for n
    using that pad_left_ok dec_digits [of n] length_dec [of n 1] by auto
  have "list_all path_char ''-''" "list_all path_char ''unknown''"
    by (simp_all add: path_char_def alias_char_def is_ascii_alphanumeric_def
        is_ascii_alphabetic_def is_ascii_lowercase_def)
  moreover have "\<bar>y\<bar> < 10000 \<and> mo < 100 \<and> d < 100 \<and> h < 100 \<and> mi < 100 \<and> s < 100"
    if "civil t = Some (y, mo, d, h, mi, s)" for y mo d h mi s
    using assms that by (auto simp: civil_law_def)
  ultimately show "list_all path_char (stamp_of (civil t))" "length (stamp_of (civil t)) \<le> 18"
    "stamp_of (civil t) \<noteq> []" "hd (stamp_of (civil t)) \<noteq> CHR ''.''"
    using two year_digits_ok by (auto simp: stamp_of_def split: option.splits prod.splits)
qed

lemma concat_ascii_chars:
  assumes "list_all (ascii_char p) cs"
  shows "list_all p (concat cs)" "length (concat cs) = length cs"
  using assms by (induction cs) (auto simp: ascii_char_def split: list.splits)

lemma extension_ok:
  "list_all path_char (extension_for_mime low mime) \<and> length (extension_for_mime low mime) \<le> 8"
proof -
  have "list_all (\<lambda>e. list_all path_char (snd e) \<and> length (snd e) \<le> 8) mime_extensions"
    by (simp add: mime_extensions_def path_char_def alias_char_def is_ascii_alphanumeric_def
        is_ascii_alphabetic_def is_ascii_lowercase_def is_ascii_digit_def)
  then have known: "list_all path_char e \<and> length e \<le> 8" if "map_of mime_extensions m = Some e" for m e
    using map_of_SomeD [OF that] by (auto simp: list_all_iff)
  have "list_all path_char (concat (take 8 (filter (ascii_char is_ascii_alphanumeric) cs)))
    \<and> length (concat (take 8 (filter (ascii_char is_ascii_alphanumeric) cs))) \<le> 8" for cs
  proof -
    have "list_all (ascii_char is_ascii_alphanumeric)
      (take 8 (filter (ascii_char is_ascii_alphanumeric) cs))"
      by (auto simp: list_all_iff dest: in_set_takeD)
    from concat_ascii_chars [OF this] show ?thesis
      by (simp add: path_char_def alias_char_def list_all_iff)
  qed
  moreover have "list_all path_char ''bin''"
    by (simp add: path_char_def alias_char_def is_ascii_alphanumeric_def is_ascii_alphabetic_def
        is_ascii_lowercase_def)
  ultimately show ?thesis
    using known by (auto simp: extension_for_mime_def Let_def split: option.splits)
qed

lemma cap_slug_ok:
  "list_all path_char (cap_slug c)" "length (cap_slug c) \<le> 64" "cap_slug c \<noteq> []"
  "hd (cap_slug c) \<noteq> CHR ''.''"
proof -
  let ?punct = "\<lambda>c. c = CHR ''.'' \<or> c = CHR ''-'' \<or> c = CHR ''_''"
  let ?raw = "concat (take 64
      (map (\<lambda>ch. if ascii_char alias_char ch then ch else ''-'') (chars c)))"
  let ?cap = "dropWhile ?punct (trim_end_matches ?punct ?raw)"
  have pc: "path_char = alias_char" by (simp add: fun_eq_iff path_char_def)
  have "alias_char CHR ''-''" by (simp add: alias_char_def)
  then have one: "ascii_char path_char (if ascii_char alias_char ch then ch else ''-'')" for ch
    by (simp add: pc) (simp add: ascii_char_def)
  have "list_all (ascii_char path_char)
      (take 64 (map (\<lambda>ch. if ascii_char alias_char ch then ch else ''-'') (chars c)))"
    unfolding list_all_iff
  proof
    fix x
    assume "x \<in> set (take 64 (map (\<lambda>ch. if ascii_char alias_char ch then ch else ''-'') (chars c)))"
    then obtain ch where "x = (if ascii_char alias_char ch then ch else ''-'')"
      using in_set_takeD by fastforce
    then show "ascii_char path_char x" using one by simp
  qed
  from concat_ascii_chars [OF this]
  have "list_all path_char ?raw" "length ?raw \<le> 64" by auto
  moreover have "set ?cap \<subseteq> set ?raw"
    by (auto simp: trim_end_matches_def dest!: set_dropWhileD)
  moreover have "length ?cap \<le> length ?raw"
    using length_dropWhile_le length_trim_end_matches order_trans by blast
  ultimately have cap: "list_all path_char ?cap" "length ?cap \<le> 64"
    by (auto simp: list_all_iff)
  have hd: "?cap \<noteq> [] \<Longrightarrow> hd ?cap \<noteq> CHR ''.''"
    using hd_dropWhile [of ?punct "trim_end_matches ?punct ?raw"] by auto
  have out: "list_all path_char ''output''"
    by (simp add: path_char_def alias_char_def is_ascii_alphanumeric_def is_ascii_alphabetic_def
        is_ascii_lowercase_def)
  have "cap_slug c = (if ?cap = [] then ''output'' else ?cap)"
    by (simp add: cap_slug_def Let_def)
  then show "list_all path_char (cap_slug c)" "length (cap_slug c) \<le> 64" "cap_slug c \<noteq> []"
    "hd (cap_slug c) \<noteq> CHR ''.''"
    using cap hd out by (simp_all split: if_splits)
qed

lemma derived_path_sanitized:
  assumes "civil_law civil"
  shows "sanitize_blob_path (derive_output_path low civil c mime t)
    = Some (derive_output_path low civil c mime t)"
proof -
  let ?b = "stamp_of (civil t) @ ''.'' @ extension_for_mime low mime"
  note st = stamp_ok [OF assms, of t] and ex = extension_ok [of low mime] and cs = cap_slug_ok [of c]
  have dot: "path_char CHR ''.''" by (simp add: path_char_def alias_char_def)
  have "sanitize_blob_path (cap_slug c @ ''/'' @ ?b) = Some (cap_slug c @ ''/'' @ ?b)"
  proof (rule sanitize_two_segments)
    show "list_all path_char ?b" using st(1) ex dot by simp
    show "hd ?b \<noteq> CHR ''.''" using st(3,4) by simp
    show "length (cap_slug c) + length ?b < MAX_BLOB_PATH_LEN"
      using st(2) ex cs(2) by (simp add: MAX_BLOB_PATH_LEN_def)
  qed (use st cs in auto)
  then show ?thesis by (simp add: derive_output_path_def)
qed

section \<open>Properties\<close>

text \<open>
  (safe paths). A sanitized path is non-empty and at most 255 bytes; when nothing had to
  be truncated, none of its segments is empty, \<open>.\<close> or \<open>..\<close>.
\<close>

theorem sanitized_path_safe:
  assumes "sanitize_blob_path raw = Some p"
  shows "p \<noteq> [] \<and> length p \<le> 255
    \<and> (length (join ''/'' (path_segments (clean_path raw))) \<le> 255 \<longrightarrow>
         (\<forall>seg\<in>set (split_on CHR ''/'' p). seg \<noteq> [] \<and> seg \<noteq> ''.'' \<and> seg \<noteq> ''..''))"
  using sanitize_length [OF assms] sanitize_segments [OF assms] path_segments_ok
  by (auto simp: MAX_BLOB_PATH_LEN_def)

lemma sanitized_path_safe_witness:
  "sanitize_blob_path (''/../a'' @ [CHR 0x5C] @ ''./b.txt'') = Some ''a/b.txt''
    \<and> ''..'' \<notin> set (split_on CHR ''/'' ''a/b.txt'')"
proof -
  have s: "sanitize_blob_path (''/../a'' @ [CHR 0x5C] @ ''./b.txt'') = Some ''a/b.txt''" by code_simp
  have "length (join ''/'' (path_segments (clean_path (''/../a'' @ [CHR 0x5C] @ ''./b.txt'')))) \<le> 255"
    by code_simp
  with sanitized_path_safe [OF s] s show ?thesis by blast
qed

text \<open>
  (truncation reopens traversal). When the joined path is cut at 255 bytes, the cut can
  leave a last segment \<open>..\<close> that the segment filter would have dropped.
\<close>

theorem truncated_path_keeps_dotdot:
  "sanitize_blob_path (replicate 252 CHR ''a'' @ ''/..foo'') = Some (replicate 252 CHR ''a'' @ ''/..'')"
  by code_simp

text \<open>
  (derived output paths). The provisional path of a capability's output passes the
  sanitizer unchanged, whatever the capability is called and whatever MIME type it declares.
\<close>

theorem output_path_is_clean:
  assumes "civil_law civil"
  shows "sanitize_blob_path (derive_output_path low civil cap mime t)
    = Some (derive_output_path low civil cap mime t)"
  by (rule derived_path_sanitized [OF assms])

lemma output_path_is_clean_witness:
  "sanitize_blob_path (derive_output_path id (\<lambda>_. Some (2026, 7, 4, 9, 5, 0)) ''a b'' ''text/csv; x'' 0)
    = Some ''a-b/2026-07-04-090500.csv''"
proof -
  have "derive_output_path id (\<lambda>_. Some (2026, 7, 4, 9, 5, 0)) ''a b'' ''text/csv; x'' 0
    = ''a-b/2026-07-04-090500.csv''"
    by code_simp
  moreover have "civil_law (\<lambda>_. Some (2026, 7, 4, 9, 5, 0))" by (simp add: civil_law_def)
  ultimately show ?thesis using output_path_is_clean by metis
qed

end
