(* ===== verification/Store_Blobs.thy ===== *)
theory Store_Blobs
  imports Store_Peers Core_Blob
begin

text \<open>
  \<open>crates/storage/src/blobs.rs\<close>: the blob index. Rows keep their classification as text,
  as the table does; \<open>strftime('%s', 'now')\<close> is the argument \<open>now\<close>.
\<close>

record blob_insert =
  hash :: string
  b_size :: int
  mime :: string
  path :: "string option"
  b_expires_at :: int
  storage_path :: string
  b_provenance :: string
  b_role :: string
  b_anchor_kind :: string
  b_processing_status :: string
  local_user_id :: "int option"
  client_id :: "string option"
  conversation_id :: "string option"
  dispatch_id :: "string option"
  b_capability :: "string option"
  remote_sender_id :: "string option"
  ticket_nonce :: "string option"
  invoke_id :: "string option"
  b_user_visible :: bool
  b_user_deletable :: bool
  uploader_id :: "string option"
  b_recipients_whitelist :: "string option"

record blob_record = blob_insert +
  created_at :: int
  last_access_at :: "int option"

type_synonym blob_table = "blob_record list"

definition blob_merge :: "int \<Rightarrow> blob_record \<Rightarrow> blob_record \<Rightarrow> blob_record" where
  "blob_merge now old new =
     old\<lparr>b_size := b_size new, mime := mime new, path := coalesce (path old) (path new),
       b_expires_at := b_expires_at new, storage_path := storage_path new,
       b_processing_status := b_processing_status new, last_access_at := Some now\<rparr>"

definition new_blob_row :: "int \<Rightarrow> blob_insert \<Rightarrow> blob_record" where
  "new_blob_row now row = blob_insert.extend row \<lparr>created_at = now, last_access_at = None\<rparr>"

definition blob_upsert :: "int \<Rightarrow> blob_insert \<Rightarrow> blob_table \<Rightarrow> blob_table" where
  "blob_upsert now row = sql_upsert hash (blob_merge now) (new_blob_row now row)"

definition mark_outbound :: "int \<Rightarrow> string \<Rightarrow> int \<Rightarrow> blob_table \<Rightarrow> bool \<times> blob_table" where
  "mark_outbound now h expires t =
     (let cond = (\<lambda>r. hash r = h \<and> b_provenance r = ''outbound'' \<and> b_role r = ''input''
            \<and> (b_anchor_kind r = ''local_cache'' \<or> b_anchor_kind r = ''user_session''))
      in (list_ex cond t,
          sql_update cond
            (\<lambda>r. r\<lparr>b_anchor_kind := ''user_session'', b_processing_status := ''referenced'',
               b_user_visible := True, b_user_deletable := True, b_expires_at := expires,
               last_access_at := Some now\<rparr>) t))"

definition mark_inbound_output ::
  "int \<Rightarrow> string \<Rightarrow> string option \<Rightarrow> int \<Rightarrow> blob_table \<Rightarrow> bool \<times> blob_table" where
  "mark_inbound_output now h name expires t =
     (let cond = (\<lambda>r. hash r = h
            \<and> (b_anchor_kind r = ''local_cache'' \<or> b_anchor_kind r = ''user_session''))
      in (list_ex cond t,
          sql_update cond
            (\<lambda>r. r\<lparr>b_provenance := ''inbound'', b_role := ''output'',
               b_anchor_kind := ''user_session'', b_processing_status := ''ready'',
               b_user_visible := True, b_user_deletable := True,
               path := coalesce name (path r), b_expires_at := expires,
               last_access_at := Some now\<rparr>) t))"

definition blob_get :: "string \<Rightarrow> blob_table \<Rightarrow> blob_record option" where
  "blob_get = select_by hash"

definition blob_delete :: "string \<Rightarrow> blob_table \<Rightarrow> bool \<times> blob_table" where
  "blob_delete h t = (list_ex (\<lambda>r. hash r = h) t, sql_delete (\<lambda>r. hash r = h) t)"

definition newest_first :: "blob_record list \<Rightarrow> blob_record list" where
  "newest_first = sort_key (\<lambda>r. - created_at r)"

definition owned_by :: "int option \<Rightarrow> string option \<Rightarrow> blob_record \<Rightarrow> bool" where
  "owned_by user client r \<longleftrightarrow>
     (user \<noteq> None \<and> local_user_id r = user) \<or> (client \<noteq> None \<and> client_id r = client)"

definition list_user_visible ::
  "int option \<Rightarrow> string option \<Rightarrow> int \<Rightarrow> blob_table \<Rightarrow> blob_record list" where
  "list_user_visible user client lim t =
     limit lim (newest_first (filter (\<lambda>r. b_user_visible r \<and> owned_by user client r) t))"

definition list_cap_jobs :: "int \<Rightarrow> blob_table \<Rightarrow> blob_record list" where
  "list_cap_jobs lim t = limit lim (newest_first (filter (\<lambda>r. b_anchor_kind r = ''cap_job'') t))"

definition active_for :: "string \<Rightarrow> int \<Rightarrow> blob_table \<Rightarrow> blob_record list" where
  "active_for u now = filter (\<lambda>r. uploader_id r = Some u \<and> b_expires_at r > now)"

definition sum_bytes_for_uploader :: "string \<Rightarrow> int \<Rightarrow> blob_table \<Rightarrow> int" where
  "sum_bytes_for_uploader u now t = sum_list (map b_size (active_for u now t))"

definition count_for_uploader :: "string \<Rightarrow> int \<Rightarrow> blob_table \<Rightarrow> int" where
  "count_for_uploader u now t = int (length (active_for u now t))"

definition delete_expired :: "int \<Rightarrow> blob_table \<Rightarrow> blob_record list \<times> blob_table" where
  "delete_expired now t =
     (filter (\<lambda>r. b_expires_at r \<le> now) t, sql_delete (\<lambda>r. b_expires_at r \<le> now) t)"

definition touch :: "string \<Rightarrow> int \<Rightarrow> blob_table \<Rightarrow> blob_table" where
  "touch h now = sql_update (\<lambda>r. hash r = h) (\<lambda>r. r\<lparr>last_access_at := Some now\<rparr>)"

definition opt_json :: "('a \<Rightarrow> json) \<Rightarrow> 'a option \<Rightarrow> json" where
  "opt_json f x = (case x of None \<Rightarrow> JNull | Some v \<Rightarrow> f v)"

definition record_to_json :: "(int \<Rightarrow> string option) \<Rightarrow> blob_record \<Rightarrow> json" where
  "record_to_json fmt_unix r =
     json_obj
       [(''hash'', JStr (hash r)), (''size'', JInt (b_size r)), (''mime'', JStr (mime r)),
        (''path'', opt_json JStr (path r)),
        (''expires_at'', opt_json JStr (fmt_unix (b_expires_at r))),
        (''provenance'', JStr (b_provenance r)), (''role'', JStr (b_role r)),
        (''anchor_kind'', JStr (b_anchor_kind r)),
        (''processing_status'', JStr (b_processing_status r)),
        (''user_visible'', JBool (b_user_visible r)),
        (''user_deletable'', JBool (b_user_deletable r)),
        (''capability'', opt_json JStr (b_capability r)),
        (''remote_sender_id'', opt_json JStr (remote_sender_id r)),
        (''created_at'', JInt (created_at r))]"

section \<open>Lemmas\<close>

lemma new_blob_row_simps [simp]:
  "hash (new_blob_row now row) = hash row" "b_size (new_blob_row now row) = b_size row"
  "path (new_blob_row now row) = path row" "b_expires_at (new_blob_row now row) = b_expires_at row"
  "uploader_id (new_blob_row now row) = uploader_id row"
  "b_anchor_kind (new_blob_row now row) = b_anchor_kind row"
  "b_recipients_whitelist (new_blob_row now row) = b_recipients_whitelist row"
  by (simp_all add: new_blob_row_def blob_insert.defs)

interpretation blobs: keyed_table blob_get "\<lambda>r. sql_upsert hash (blob_merge now) r"
  "\<lambda>h t. snd (blob_delete h t)" "unique_key hash" hash "blob_merge now" for now
  by unfold_locales
    (auto simp: blob_get_def blob_delete_def blob_merge_def select_by_upsert select_by_delete_key
      intro: unique_key_upsert unique_key_delete)

lemma fold_blob_upsert:
  "fold (blob_upsert now) rows t = fold (\<lambda>r. sql_upsert hash (blob_merge now) r) (map (new_blob_row now) rows) t"
  by (induction rows arbitrary: t) (simp_all add: blob_upsert_def)

definition outbound_input :: "blob_record \<Rightarrow> bool" where
  "outbound_input r \<longleftrightarrow> b_provenance r = ''outbound'' \<and> b_role r = ''input''"

definition user_anchored :: "blob_record \<Rightarrow> bool" where
  "user_anchored r \<longleftrightarrow> b_anchor_kind r = ''local_cache'' \<or> b_anchor_kind r = ''user_session''"

lemma blob_get_mark_outbound:
  "blob_get k (snd (mark_outbound now h e t)) =
     map_option (\<lambda>r. if hash r = h \<and> outbound_input r \<and> user_anchored r
       then r\<lparr>b_anchor_kind := ''user_session'', b_processing_status := ''referenced'',
              b_user_visible := True, b_user_deletable := True, b_expires_at := e,
              last_access_at := Some now\<rparr> else r) (blob_get k t)"
  by (simp add: blob_get_def mark_outbound_def Let_def select_by_update outbound_input_def
      user_anchored_def)

lemma blob_get_mark_inbound:
  "blob_get k (snd (mark_inbound_output now h nm e t)) =
     map_option (\<lambda>r. if hash r = h \<and> user_anchored r
       then r\<lparr>b_provenance := ''inbound'', b_role := ''output'',
              b_anchor_kind := ''user_session'', b_processing_status := ''ready'',
              b_user_visible := True, b_user_deletable := True,
              path := coalesce nm (path r), b_expires_at := e,
              last_access_at := Some now\<rparr> else r) (blob_get k t)"
  by (simp add: blob_get_def mark_inbound_output_def Let_def select_by_update user_anchored_def)

lemma blob_get_upsert:
  "blob_get k (blob_upsert now row t) =
     (if k = hash row
      then Some (case blob_get k t of None \<Rightarrow> new_blob_row now row
                 | Some old \<Rightarrow> blob_merge now old (new_blob_row now row))
      else blob_get k t)"
  using blobs.lookup_put [of k now "new_blob_row now row" t] by (simp add: blob_upsert_def)

lemma blob_get_touch:
  "blob_get k (touch h now t) =
     map_option (\<lambda>r. if hash r = h then r\<lparr>last_access_at := Some now\<rparr> else r) (blob_get k t)"
  by (simp add: blob_get_def touch_def select_by_update)

lemma blob_get_hash: "blob_get k t = Some r \<Longrightarrow> hash r = k \<and> r \<in> set t"
  by (auto simp: blob_get_def dest: select_by_Some)

lemma blob_unique:
  assumes "unique_key hash t"
  shows "unique_key hash (blob_upsert now row t)" "unique_key hash (snd (mark_outbound now h e t))"
    "unique_key hash (snd (mark_inbound_output now h nm e t))" "unique_key hash (touch h now t)"
    "unique_key hash (snd (blob_delete h t))" "unique_key hash (snd (delete_expired now t))"
  using assms blobs.inv_put [of t now "new_blob_row now row"]
  by (auto simp: blob_upsert_def mark_outbound_def mark_inbound_output_def touch_def
      blob_delete_def delete_expired_def Let_def intro: unique_key_update unique_key_delete)

lemma gc_keeps_quota:
  "sum_bytes_for_uploader u now (snd (delete_expired now t)) = sum_bytes_for_uploader u now t"
  "count_for_uploader u now (snd (delete_expired now t)) = count_for_uploader u now t"
proof -
  have "active_for u now (snd (delete_expired now t)) = active_for u now t"
    by (auto simp: active_for_def delete_expired_def sql_delete_def intro: filter_cong)
  then show "sum_bytes_for_uploader u now (snd (delete_expired now t)) = sum_bytes_for_uploader u now t"
    "count_for_uploader u now (snd (delete_expired now t)) = count_for_uploader u now t"
    by (simp_all add: sum_bytes_for_uploader_def count_for_uploader_def)
qed

section \<open>The index as a state machine\<close>

text \<open>
  Every statement the program issues on the index, except those that remove the row of the
  observed hash \<open>h\<close>.
\<close>

inductive index_step :: "string \<Rightarrow> blob_table \<Rightarrow> blob_table \<Rightarrow> bool" for h where
  put: "index_step h t (blob_upsert now row t)"
| promote: "index_step h t (snd (mark_outbound now k e t))"
| receive: "index_step h t (snd (mark_inbound_output now k nm e t))"
| access: "index_step h t (touch k now t)"
| remove: "k \<noteq> h \<Longrightarrow> index_step h t (snd (blob_delete k t))"
| collect: "\<forall>r. blob_get h t = Some r \<longrightarrow> now < b_expires_at r \<Longrightarrow>
    index_step h t (snd (delete_expired now t))"

definition same_class :: "blob_record \<Rightarrow> blob_record \<Rightarrow> bool" where
  "same_class r r' \<longleftrightarrow>
     b_provenance r' = b_provenance r \<and> b_role r' = b_role r
     \<and> b_anchor_kind r' = b_anchor_kind r \<and> b_user_visible r' = b_user_visible r
     \<and> b_user_deletable r' = b_user_deletable r \<and> uploader_id r' = uploader_id r
     \<and> b_recipients_whitelist r' = b_recipients_whitelist r
     \<and> b_capability r' = b_capability r \<and> (path r \<noteq> None \<longrightarrow> path r' = path r)"

lemma same_class_simps [simp]: "same_class r r" "same_class r (r\<lparr>last_access_at := a\<rparr>)"
  "same_class r (blob_merge now r new)"
  by (cases "path r"; simp add: same_class_def blob_merge_def)+

lemma same_class_trans: "same_class a b \<Longrightarrow> same_class b c \<Longrightarrow> same_class a c"
  by (auto simp: same_class_def)

lemma index_step_unique: "index_step h t t' \<Longrightarrow> unique_key hash t \<Longrightarrow> unique_key hash t'"
  by (induction rule: index_step.induct) (auto intro: blob_unique)

lemma cap_job_step:
  assumes "index_step h t t'" "unique_key hash t" "blob_get h t = Some r" "b_anchor_kind r = ''cap_job''"
  shows "\<exists>r'. blob_get h t' = Some r' \<and> same_class r r'"
  using assms
proof (induction rule: index_step.induct)
  case (collect t now)
  then show ?case
    by (simp add: blob_get_def delete_expired_def select_by_delete_unique)
next
  case (remove k t)
  then show ?case by (simp add: blob_get_def blob_delete_def select_by_delete_key)
qed (auto simp: blob_get_upsert blob_get_mark_outbound blob_get_mark_inbound blob_get_touch
      user_anchored_def)

lemma cap_job_reach:
  assumes "(index_step h)\<^sup>*\<^sup>* t t'" "unique_key hash t" "blob_get h t = Some r"
    "b_anchor_kind r = ''cap_job''"
  shows "unique_key hash t' \<and> (\<exists>r'. blob_get h t' = Some r' \<and> same_class r r')"
  using assms
proof (induction rule: rtranclp_induct)
  case (step t1 t2)
  then obtain r1 where r1: "unique_key hash t1" "blob_get h t1 = Some r1" "same_class r r1" by auto
  then have "b_anchor_kind r1 = ''cap_job''" using step.prems by (simp add: same_class_def)
  with cap_job_step [OF step.hyps(2)] r1 obtain r2 where "blob_get h t2 = Some r2" "same_class r1 r2"
    by blast
  then show ?case using r1 same_class_trans index_step_unique [OF step.hyps(2)] by blast
qed auto

section \<open>Properties\<close>

text \<open>
  (staging blobs are never relabelled). While its row exists, a blob a peer staged for one
  of our capabilities (class C) keeps its classification, visibility, uploader and path under
  any sequence of index statements.
\<close>

theorem staging_blob_keeps_class:
  assumes "(index_step h)\<^sup>*\<^sup>* t t'" "unique_key hash t" "blob_get h t = Some r"
    "b_anchor_kind r = ''cap_job''"
  shows "\<exists>r'. blob_get h t' = Some r' \<and> same_class r r'"
  using cap_job_reach [OF assms] by simp

definition sample_insert :: "string \<Rightarrow> string \<Rightarrow> string \<Rightarrow> string \<Rightarrow> blob_insert" where
  "sample_insert h prov rol anch =
     \<lparr>hash = h, b_size = 3, mime = ''text/plain'', path = None, b_expires_at = 100,
      storage_path = ''/x'', b_provenance = prov, b_role = rol, b_anchor_kind = anch,
      b_processing_status = ''staged'', local_user_id = None, client_id = Some ''c1'',
      conversation_id = None, dispatch_id = None, b_capability = Some ''echo'',
      remote_sender_id = None, ticket_nonce = None, invoke_id = None, b_user_visible = False,
      b_user_deletable = False, uploader_id = Some ''n3:b'', b_recipients_whitelist = None\<rparr>"

lemma staging_blob_keeps_class_witness:
  "\<exists>r'. blob_get ''h'' (snd (mark_inbound_output 5 ''h'' (Some ''n'') 9
        [new_blob_row 1 (sample_insert ''h'' ''inbound'' ''input'' ''cap_job'')])) = Some r'
     \<and> same_class (new_blob_row 1 (sample_insert ''h'' ''inbound'' ''input'' ''cap_job'')) r'"
  by (rule staging_blob_keeps_class, rule r_into_rtranclp, rule index_step.receive)
    (simp_all add: unique_key_def blob_get_def select_by_def sample_insert_def)

text \<open>
  (promotion and results). Marking a hash as sent or as received changes only rows a local
  user anchored: a local input becomes a visible class A blob, a returned one a class B blob
  whose name is the capability's when it gave one; all other rows are left alone.
\<close>

theorem marks_classify:
  assumes "blob_get k t = Some r"
  shows "blob_get k (snd (mark_outbound now h e t)) = Some
      (if k = h \<and> outbound_input r \<and> user_anchored r
       then r\<lparr>b_anchor_kind := ''user_session'', b_processing_status := ''referenced'',
              b_user_visible := True, b_user_deletable := True, b_expires_at := e,
              last_access_at := Some now\<rparr> else r)
    \<and> blob_get k (snd (mark_inbound_output now h nm e t)) = Some
      (if k = h \<and> user_anchored r
       then r\<lparr>b_provenance := ''inbound'', b_role := ''output'', b_anchor_kind := ''user_session'',
              b_processing_status := ''ready'', b_user_visible := True, b_user_deletable := True,
              path := (if nm = None then path r else nm), b_expires_at := e,
              last_access_at := Some now\<rparr> else r)"
  using assms blob_get_hash [OF assms]
  by (cases nm) (simp_all add: blob_get_mark_outbound blob_get_mark_inbound)

lemma marks_classify_witness:
  "blob_get ''h'' (snd (mark_outbound 5 ''h'' 9 [new_blob_row 1 (sample_insert ''h'' ''outbound'' ''input'' ''local_cache'')]))
     \<noteq> None"
  using marks_classify [of "''h''" "[new_blob_row 1 (sample_insert ''h'' ''outbound'' ''input'' ''local_cache'')]"
      "new_blob_row 1 (sample_insert ''h'' ''outbound'' ''input'' ''local_cache'')" 5 "''h''" 9 None]
  by (simp add: blob_get_def select_by_def sample_insert_def)

end
