(* ===== verification/Node_Blobs.thy ===== *)
theory Node_Blobs
  imports Store_Blobs
begin

text \<open>
  \<open>crates/node/src/blob_resolve.rs\<close>: finding blob references in JSON, reading local bytes,
  and the index rows written around a remote call. The file system is a map from paths to
  bytes, whose writes succeed; the peer (discovery, upload, download) is the record
  \<open>remote\<close>.
\<close>

section \<open>References in JSON\<close>

definition parse_blob_ref :: "json \<Rightarrow> blob_ref option" where
  "parse_blob_ref j =
     do {
       h \<leftarrow> Option.bind (json_get ''hash'' j) as_str;
       _ \<leftarrow> (if validate_hash h = Inr () then Some () else None);
       s \<leftarrow> Option.bind (json_get ''size'' j) as_u64;
       m \<leftarrow> Option.bind (json_get ''mime'' j) as_str;
       Some \<lparr>br_hash = h, br_size = word_of_int s, br_mime = m,
         fetch_url = Option.bind (json_get ''fetch_url'' j) as_str,
         br_name = Option.bind (json_get ''name'' j) as_str\<rparr>
     }"

fun collect_blob_refs :: "json \<Rightarrow> blob_ref list" where
  "collect_blob_refs (JObj es) =
     (case parse_blob_ref (JObj es) of
        Some br \<Rightarrow> [br]
      | None \<Rightarrow> concat (map (\<lambda>e. collect_blob_refs (snd e)) es))"
| "collect_blob_refs (JArr xs) = concat (map collect_blob_refs xs)"
| "collect_blob_refs _ = []"

fun strip_fetch_url :: "string \<Rightarrow> json \<Rightarrow> json" where
  "strip_fetch_url h (JObj es) =
     (if Option.bind (map_of es ''hash'') as_str = Some h
      then JObj (filter (\<lambda>e. fst e \<noteq> ''fetch_url'') es)
      else JObj (map (\<lambda>e. (fst e, strip_fetch_url h (snd e))) es))"
| "strip_fetch_url h (JArr xs) = JArr (map (strip_fetch_url h) xs)"
| "strip_fetch_url h j = j"

section \<open>Local bytes\<close>

record blob_world =
  bw_index :: blob_table
  bw_files :: "string \<rightharpoonup> string"

record blob_conf =
  blobs_dir :: "string option"
  bc_instance :: instance_id

definition path_join :: "string \<Rightarrow> string \<Rightarrow> string" where
  "path_join root h =
     (if starts_with ''/'' h then h
      else if root = [] \<or> ends_with ''/'' root then root @ h else root @ ''/'' @ h)"

definition file_with_hash :: "('x) crypto_scheme \<Rightarrow> blob_world \<Rightarrow> string \<Rightarrow> string \<Rightarrow> string option" where
  "file_with_hash cr w p h =
     (case bw_files w p of
        None \<Rightarrow> None
      | Some b \<Rightarrow> if hash_bytes cr b = h then Some b else None)"

definition read_local_bytes ::
  "('x) crypto_scheme \<Rightarrow> ('y) blob_conf_scheme \<Rightarrow> blob_world \<Rightarrow> string \<Rightarrow> string option" where
  "read_local_bytes cr cf w h =
     (case Option.bind (blob_get h (bw_index w)) (\<lambda>r. file_with_hash cr w (storage_path r) h) of
        Some b \<Rightarrow> Some b
      | None \<Rightarrow> Option.bind (blobs_dir cf) (\<lambda>root. file_with_hash cr w (path_join root h) h))"

definition storage_path_for :: "('y) blob_conf_scheme \<Rightarrow> string \<Rightarrow> string option" where
  "storage_path_for cf h = map_option (\<lambda>d. path_join d h) (blobs_dir cf)"

section \<open>Index rows\<close>

definition ttl_of :: "blob_purpose \<Rightarrow> int" where
  "ttl_of p = sint (default_ttl_secs p)"

definition record_outbound_upload ::
  "('y) blob_conf_scheme \<Rightarrow> int \<Rightarrow> string \<Rightarrow> int \<Rightarrow> string \<Rightarrow> string \<Rightarrow> int option \<Rightarrow> string option
     \<Rightarrow> blob_world \<Rightarrow> blob_world" where
  "record_outbound_upload cf now h sz mi p user client w =
     (let class = classify_outbound_upload; expires = now + ttl_of PurposeInput in
      if blob_get h (bw_index w) \<noteq> None
      then w\<lparr>bw_index := snd (mark_outbound now h expires (bw_index w))\<rparr>
      else w\<lparr>bw_index := blob_upsert now
        \<lparr>hash = h, b_size = sz, mime = mi, path = None, b_expires_at = expires, storage_path = p,
         b_provenance = ''outbound'', b_role = ''input'', b_anchor_kind = ''user_session'',
         b_processing_status = ''referenced'', local_user_id = user, client_id = client,
         conversation_id = None, dispatch_id = None, b_capability = None, remote_sender_id = None,
         ticket_nonce = None, invoke_id = None, b_user_visible = user_visible class,
         b_user_deletable = user_deletable class, uploader_id = Some (bc_instance cf),
         b_recipients_whitelist = None\<rparr> (bw_index w)\<rparr>)"

record blob_owner =
  ow_client_id :: "string option"
  ow_conversation_id :: "string option"

record label_env =
  to_lowercase :: "string \<Rightarrow> string"
  civil :: "int \<Rightarrow> civil_time option"

definition output_name :: "('z) label_env_scheme \<Rightarrow> blob_ref \<Rightarrow> string \<Rightarrow> int \<Rightarrow> string option" where
  "output_name le b cap now =
     (case Option.bind (br_name b) sanitize_blob_path of
        Some p \<Rightarrow> Some p
      | None \<Rightarrow> sanitize_blob_path (derive_output_path (to_lowercase le) (civil le) cap (br_mime b) now))"

definition record_inbound_output ::
  "('z) label_env_scheme \<Rightarrow> int \<Rightarrow> blob_ref \<Rightarrow> string \<Rightarrow> string \<Rightarrow> blob_owner \<Rightarrow> blob_world \<Rightarrow> blob_world" where
  "record_inbound_output le now b p cap owner w =
     (let class = classify_inbound_output; expires = now + ttl_of PurposeOutput in
      w\<lparr>bw_index := blob_upsert now
        \<lparr>hash = br_hash b, b_size = sint (br_size b), mime = br_mime b,
         path = output_name le b cap now, b_expires_at = expires, storage_path = p,
         b_provenance = ''inbound'', b_role = ''output'', b_anchor_kind = ''user_session'',
         b_processing_status = ''ready'', local_user_id = None, client_id = ow_client_id owner,
         conversation_id = ow_conversation_id owner, dispatch_id = None, b_capability = Some cap,
         remote_sender_id = None, ticket_nonce = None, invoke_id = None,
         b_user_visible = user_visible class, b_user_deletable = user_deletable class,
         uploader_id = None, b_recipients_whitelist = None\<rparr> (bw_index w)\<rparr>)"

definition store_local_cache ::
  "('x) crypto_scheme \<Rightarrow> ('y) blob_conf_scheme \<Rightarrow> int \<Rightarrow> string \<Rightarrow> string \<Rightarrow> string option
     \<Rightarrow> int option \<Rightarrow> string option \<Rightarrow> blob_world \<Rightarrow> (string, blob_ref) result \<times> blob_world" where
  "store_local_cache cr cf now bytes mi p user client w =
     (let h = hash_bytes cr bytes in
      case blobs_dir cf of
        None \<Rightarrow> (Inl ''blobs_dir not configured'', w)
      | Some root \<Rightarrow>
          let sp = path_join root h; class = classify_local_cache in
          (Inr \<lparr>br_hash = h, br_size = of_nat (length bytes), br_mime = mi, fetch_url = None,
             br_name = p\<rparr>,
           w\<lparr>bw_files := (bw_files w)(sp \<mapsto> bytes),
             bw_index := blob_upsert now
               \<lparr>hash = h, b_size = int (length bytes), mime = mi, path = p,
                b_expires_at = now + ttl_of PurposeInput, storage_path = sp,
                b_provenance = ''outbound'', b_role = ''input'', b_anchor_kind = ''local_cache'',
                b_processing_status = ''staged'', local_user_id = user, client_id = client,
                conversation_id = None, dispatch_id = None, b_capability = None,
                remote_sender_id = None, ticket_nonce = None, invoke_id = None,
                b_user_visible = user_visible class, b_user_deletable = user_deletable class,
                uploader_id = None, b_recipients_whitelist = None\<rparr> (bw_index w)\<rparr>))"

section \<open>Around a remote invoke\<close>

record remote =
  discover_recipient :: "(string, instance_id) result"
  upload :: "string \<Rightarrow> string \<Rightarrow> (string, unit) result"
  download :: "blob_ref \<Rightarrow> (string, string) result"

fun upload_refs ::
  "('x) crypto_scheme \<Rightarrow> ('y) blob_conf_scheme \<Rightarrow> remote \<Rightarrow> int \<Rightarrow> blob_ref list \<Rightarrow> blob_world
     \<Rightarrow> (string, unit) result \<times> blob_world" where
  "upload_refs cr cf rm now [] w = (Inr (), w)"
| "upload_refs cr cf rm now (br # rest) w =
     (case read_local_bytes cr cf w (br_hash br) of
        None \<Rightarrow> (Inl (''blob `'' @ br_hash br @ ''` not found locally; upload via Files panel first''), w)
      | Some bytes \<Rightarrow>
          (case upload rm (br_mime br) bytes of
             Inl e \<Rightarrow> (Inl e, w)
           | Inr _ \<Rightarrow>
               upload_refs cr cf rm now rest
                 (case storage_path_for cf (br_hash br) of
                    None \<Rightarrow> w
                  | Some p \<Rightarrow>
                      record_outbound_upload cf now (br_hash br) (sint (br_size br)) (br_mime br) p
                        None None w)))"

definition prepare_invoke_args ::
  "('x) crypto_scheme \<Rightarrow> ('y) blob_conf_scheme \<Rightarrow> remote \<Rightarrow> int \<Rightarrow> json \<Rightarrow> blob_world
     \<Rightarrow> (string, json) result \<times> blob_world" where
  "prepare_invoke_args cr cf rm now args w =
     (let refs = collect_blob_refs args in
      if refs = [] then (Inr args, w)
      else (case discover_recipient rm of
              Inl e \<Rightarrow> (Inl e, w)
            | Inr _ \<Rightarrow>
                (case upload_refs cr cf rm now refs w of
                   (Inl e, w') \<Rightarrow> (Inl e, w')
                 | (Inr _, w') \<Rightarrow> (Inr args, w'))))"

fun fetch_refs ::
  "('x) crypto_scheme \<Rightarrow> ('y) blob_conf_scheme \<Rightarrow> ('z) label_env_scheme \<Rightarrow> remote \<Rightarrow> int \<Rightarrow> string
     \<Rightarrow> blob_owner \<Rightarrow> blob_ref list \<Rightarrow> json \<Rightarrow> blob_world \<Rightarrow> (string, json) result \<times> blob_world" where
  "fetch_refs cr cf le rm now cap owner [] out w = (Inr out, w)"
| "fetch_refs cr cf le rm now cap owner (br # rest) out w =
     (if read_local_bytes cr cf w (br_hash br) \<noteq> None
      then fetch_refs cr cf le rm now cap owner rest (strip_fetch_url (br_hash br) out)
             (w\<lparr>bw_index := snd (mark_inbound_output now (br_hash br)
                  (Option.bind (br_name br) sanitize_blob_path) (now + ttl_of PurposeOutput)
                  (bw_index w))\<rparr>)
      else (case download rm br of
              Inl e \<Rightarrow> (Inl e, w)
            | Inr bytes \<Rightarrow>
                (if hash_bytes cr bytes \<noteq> br_hash br
                 then (Inl (''downloaded blob hash mismatch for '' @ br_hash br), w)
                 else (case blobs_dir cf of
                         None \<Rightarrow> (Inl ''blobs_dir not configured'', w)
                       | Some root \<Rightarrow>
                           let p = path_join root (br_hash br) in
                           fetch_refs cr cf le rm now cap owner rest
                             (strip_fetch_url (br_hash br) out)
                             (record_inbound_output le now br p cap owner
                               (w\<lparr>bw_files := (bw_files w)(p \<mapsto> bytes)\<rparr>))))))"

definition fetch_output_blobs ::
  "('x) crypto_scheme \<Rightarrow> ('y) blob_conf_scheme \<Rightarrow> ('z) label_env_scheme \<Rightarrow> remote \<Rightarrow> int \<Rightarrow> string
     \<Rightarrow> blob_owner \<Rightarrow> json \<Rightarrow> blob_world \<Rightarrow> (string, json) result \<times> blob_world" where
  "fetch_output_blobs cr cf le rm now cap owner value w =
     (let refs = collect_blob_refs value in
      if refs = [] then (Inr value, w)
      else (case discover_recipient rm of
              Inl e \<Rightarrow> (Inl e, w)
            | Inr _ \<Rightarrow> fetch_refs cr cf le rm now cap owner refs value w))"

section \<open>Lemmas\<close>

lemma parse_blob_ref_valid: "parse_blob_ref j = Some br \<Longrightarrow> validate_hash (br_hash br) = Inr ()"
  by (auto simp: parse_blob_ref_def bind_eq_Some_conv split: if_splits)

lemma collect_valid: "br \<in> set (collect_blob_refs j) \<Longrightarrow> validate_hash (br_hash br) = Inr ()"
  by (induction j rule: collect_blob_refs.induct)
    (auto dest: parse_blob_ref_valid split: option.splits)

definition stored_under :: "string \<Rightarrow> blob_world \<Rightarrow> bool" where
  "stored_under root w \<longleftrightarrow>
     (\<forall>h r. blob_get h (bw_index w) = Some r \<longrightarrow> storage_path r = path_join root h)"

lemma file_with_hash_Some:
  "file_with_hash cr w p h = Some b \<longleftrightarrow> bw_files w p = Some b \<and> hash_bytes cr b = h"
  by (auto simp: file_with_hash_def split: option.splits)

lemma read_local_hash: "read_local_bytes cr cf w h = Some b \<Longrightarrow> hash_bytes cr b = h"
  by (auto simp: read_local_bytes_def bind_eq_Some_conv file_with_hash_Some split: option.splits)

lemma read_local_under:
  assumes "blobs_dir cf = Some root" "stored_under root w"
  shows "read_local_bytes cr cf w h = file_with_hash cr w (path_join root h) h"
proof -
  have "Option.bind (blob_get h (bw_index w)) (\<lambda>r. file_with_hash cr w (storage_path r) h)
      \<in> {None, file_with_hash cr w (path_join root h) h}"
    using assms(2) by (cases "blob_get h (bw_index w)") (auto simp: stored_under_def)
  then show ?thesis
    using assms(1) by (auto simp: read_local_bytes_def split: option.splits)
qed

lemma valid_hash_relative:
  assumes "validate_hash h = Inr ()"
  shows "\<not> starts_with ''/'' h"
  using assms by (auto simp: validate_hash_ok BLOB_HASH_PREFIX_def starts_with_def)

lemma path_join_inj:
  assumes "validate_hash h = Inr ()" "validate_hash h' = Inr ()" "path_join root h = path_join root h'"
  shows "h = h'"
  using assms valid_hash_relative [of h] valid_hash_relative [of h']
  by (simp add: path_join_def split: if_splits)

lemma stored_mark: "stored_under root w \<Longrightarrow>
    stored_under root (w\<lparr>bw_index := snd (mark_inbound_output now h nm e (bw_index w))\<rparr>)"
  by (auto simp: stored_under_def blob_get_mark_inbound)

lemma stored_record:
  assumes "stored_under root w"
  shows "stored_under root (record_inbound_output le now b (path_join root (br_hash b)) cap owner w)"
  using assms
  by (auto simp: stored_under_def record_inbound_output_def Let_def blob_get_upsert blob_merge_def
      new_blob_row_def blob_insert.defs split: option.splits)

lemma record_files [simp]: "bw_files (record_inbound_output le now b p cap owner w) = bw_files w"
  by (simp add: record_inbound_output_def Let_def)

definition available :: "('x) crypto_scheme \<Rightarrow> string \<Rightarrow> blob_world \<Rightarrow> string \<Rightarrow> bool" where
  "available cr root w h \<longleftrightarrow> (\<exists>b. bw_files w (path_join root h) = Some b \<and> hash_bytes cr b = h)"

lemma available_read:
  "blobs_dir cf = Some root \<Longrightarrow> stored_under root w \<Longrightarrow>
     read_local_bytes cr cf w h \<noteq> None \<longleftrightarrow> available cr root w h"
  by (auto simp: read_local_under available_def file_with_hash_Some)

lemma fetch_refs_available:
  assumes "fetch_refs cr cf le rm now cap owner refs out w = (Inr out', w')"
    and "blobs_dir cf = Some root" "stored_under root w"
    and "\<And>br. br \<in> set refs \<Longrightarrow> validate_hash (br_hash br) = Inr ()"
  shows "stored_under root w'
    \<and> (\<forall>h. validate_hash h = Inr () \<and> available cr root w h \<longrightarrow> available cr root w' h)
    \<and> (\<forall>br\<in>set refs. available cr root w' (br_hash br))"
  using assms
proof (induction refs arbitrary: out w)
  case (Cons br rest)
  show ?case
  proof (cases "read_local_bytes cr cf w (br_hash br) = None")
    case False
    let ?w = "w\<lparr>bw_index := snd (mark_inbound_output now (br_hash br)
                  (Option.bind (br_name br) sanitize_blob_path) (now + ttl_of PurposeOutput)
                  (bw_index w))\<rparr>"
    have "available cr root ?w h \<longleftrightarrow> available cr root w h" for h by (simp add: available_def)
    then show ?thesis
      using Cons.IH [of "strip_fetch_url (br_hash br) out" ?w] Cons.prems False
        stored_mark [OF Cons.prems(3)] available_read [OF Cons.prems(2,3), of cr "br_hash br"]
      by auto
  next
    case True
    let ?p = "path_join root (br_hash br)"
    obtain bytes where dl: "download rm br = Inr bytes" "hash_bytes cr bytes = br_hash br"
      using Cons.prems(1,2) True by (auto split: sum.splits if_splits)
    let ?w1 = "w\<lparr>bw_files := (bw_files w)(?p \<mapsto> bytes)\<rparr>"
    let ?w = "record_inbound_output le now br ?p cap owner ?w1"
    have run: "fetch_refs cr cf le rm now cap owner rest (strip_fetch_url (br_hash br) out) ?w = (Inr out', w')"
      using Cons.prems(1,2) True dl by (simp add: Let_def)
    have "stored_under root ?w1" using Cons.prems(3) by (simp add: stored_under_def)
    then have st: "stored_under root ?w" by (rule stored_record)
    have keep: "available cr root ?w h" if "validate_hash h = Inr ()" "available cr root w h" for h
      using that dl path_join_inj [of h "br_hash br" root] Cons.prems(4) [of br]
      by (auto simp: available_def)
    have new: "available cr root ?w (br_hash br)" using dl by (simp add: available_def)
    show ?thesis
      using Cons.IH [OF run Cons.prems(2) st] keep new Cons.prems(4) by auto
  qed
qed simp

section \<open>Properties\<close>

text \<open>
  (outputs are held and verified). When the output of a remote call has been fetched, the
  bytes of every blob it mentions are readable locally and hash to the hash it names.
\<close>

theorem fetched_outputs_verified:
  assumes "fetch_output_blobs cr cf le rm now cap owner value w = (Inr out, w')"
    and "blobs_dir cf = Some root" "stored_under root w" "br \<in> set (collect_blob_refs value)"
  shows "\<exists>bytes. read_local_bytes cr cf w' (br_hash br) = Some bytes \<and> hash_bytes cr bytes = br_hash br"
proof -
  have "fetch_refs cr cf le rm now cap owner (collect_blob_refs value) value w = (Inr out, w')"
    using assms(1,4) by (auto simp: fetch_output_blobs_def Let_def split: if_splits sum.splits)
  from fetch_refs_available [OF this assms(2,3) collect_valid] assms(4)
  have "stored_under root w'" "available cr root w' (br_hash br)" by auto
  then show ?thesis using available_read [OF assms(2)] read_local_hash by blast
qed

definition sample_hash :: string where
  "sample_hash = hash_bytes toy_crypto ''data''"

definition sample_ref_json :: json where
  "sample_ref_json = json_obj [(''hash'', JStr sample_hash), (''size'', JInt 4), (''mime'', JStr ''text/plain'')]"

lemma sample_hash_valid: "validate_hash sample_hash = Inr ()"
  by (simp add: sample_hash_def hash_bytes_valid)

lemma sample_ref: "collect_blob_refs sample_ref_json =
    [\<lparr>br_hash = sample_hash, br_size = 4, br_mime = ''text/plain'', fetch_url = None, br_name = None\<rparr>]"
proof -
  have "parse_blob_ref sample_ref_json =
    Some \<lparr>br_hash = sample_hash, br_size = 4, br_mime = ''text/plain'', fetch_url = None, br_name = None\<rparr>"
    by (simp add: sample_ref_json_def parse_blob_ref_def sample_hash_valid)
  then show ?thesis by (simp add: sample_ref_json_def json_obj_def)
qed

lemma fetched_outputs_verified_witness:
  "\<exists>bytes. read_local_bytes toy_crypto \<lparr>blobs_dir = Some ''/b'', bc_instance = ''n3:me''\<rparr>
      (snd (fetch_output_blobs toy_crypto \<lparr>blobs_dir = Some ''/b'', bc_instance = ''n3:me''\<rparr>
        \<lparr>to_lowercase = id, civil = (\<lambda>_. None)\<rparr>
        \<lparr>discover_recipient = Inr ''n3:peer'', upload = (\<lambda>_ _. Inr ()), download = (\<lambda>_. Inr ''data'')\<rparr>
        7 ''cap'' \<lparr>ow_client_id = None, ow_conversation_id = None\<rparr> sample_ref_json
        \<lparr>bw_index = [], bw_files = (\<lambda>_. None)\<rparr>)) sample_hash = Some bytes
     \<and> hash_bytes toy_crypto bytes = sample_hash"
proof -
  let ?cf = "\<lparr>blobs_dir = Some ''/b'', bc_instance = ''n3:me''\<rparr>"
  let ?rm = "\<lparr>discover_recipient = Inr ''n3:peer'', upload = (\<lambda>_ _. Inr ()), download = (\<lambda>_. Inr ''data'')\<rparr>"
  let ?w = "\<lparr>bw_index = [], bw_files = (\<lambda>_. None)\<rparr>"
  let ?run = "fetch_output_blobs toy_crypto ?cf \<lparr>to_lowercase = id, civil = (\<lambda>_. None)\<rparr> ?rm
        7 ''cap'' \<lparr>ow_client_id = None, ow_conversation_id = None\<rparr> sample_ref_json ?w"
  have "read_local_bytes toy_crypto ?cf ?w sample_hash = None"
    by (simp add: read_local_bytes_def file_with_hash_def blob_get_def)
  then obtain out where "fst ?run = Inr out"
    by (simp add: fetch_output_blobs_def sample_ref Let_def) (simp add: sample_hash_def Let_def)
  then have run: "?run = (Inr out, snd ?run)" by (metis prod.collapse)
  have "stored_under ''/b'' ?w" by (simp add: stored_under_def blob_get_def)
  from fetched_outputs_verified [OF run _ this] show ?thesis by (simp add: sample_ref)
qed

end
