(* ===== verification/Bind_Template.thy ===== *)
theory Bind_Template
  imports Json
begin

text \<open>
  \<open>crates/node/src/bindings/template.rs\<close>: \<open>{{args.path}}\<close> substitution. The JSON text of a
  non-string value (\<open>Value::to_string\<close>) is the parameter \<open>show\<close>.
\<close>

datatype template_error = PathNotFound string | UnknownRoot string

definition has_str :: "string \<Rightarrow> string \<Rightarrow> bool" where
  "has_str p s \<longleftrightarrow> find_str p s \<noteq> None"

definition whole_template :: "string \<Rightarrow> string option" where
  "whole_template s =
     (if starts_with ''{{'' s \<and> ends_with ''}}'' s
      then let inner = trim (take (length s - 4) (drop 2 s))
           in if has_str ''{{'' inner then None else Some inner
      else None)"

definition split_root :: "string \<Rightarrow> (template_error, string \<times> string) result" where
  "split_root p =
     (case split_once CHR ''.'' p of
        Some (root, rest) \<Rightarrow> if rest \<noteq> [] then Inr (root, rest) else Inl (PathNotFound p)
      | None \<Rightarrow> Inr (p, []))"

definition check_root :: "string \<Rightarrow> (template_error, unit) result" where
  "check_root root = (if root \<noteq> ''args'' then Inl (UnknownRoot root) else Inr ())"

fun walk_path :: "json \<Rightarrow> string list \<Rightarrow> json option" where
  "walk_path current [] = Some current"
| "walk_path current (seg # segs) =
     (if seg = [] then None
      else (case json_get seg current of None \<Rightarrow> None | Some v \<Rightarrow> walk_path v segs))"

definition resolve_path :: "json \<Rightarrow> string \<Rightarrow> json option" where
  "resolve_path args dotted =
     (if dotted = [] then Some args else walk_path args (split_on CHR ''.'' dotted))"

definition value_to_text :: "(json \<Rightarrow> string) \<Rightarrow> json \<Rightarrow> string" where
  "value_to_text show v = (case v of JStr s \<Rightarrow> s | _ \<Rightarrow> show v)"

text \<open>The part both forms share: the value a reference \<open>root.path\<close> denotes.\<close>

definition resolve_ref :: "json \<Rightarrow> string \<Rightarrow> (template_error, json) result" where
  "resolve_ref args inner =
     (case split_root inner of
        Inl e \<Rightarrow> Inl e
      | Inr (root, p) \<Rightarrow>
          (case check_root root of
             Inl e \<Rightarrow> Inl e
           | Inr _ \<Rightarrow>
               (case resolve_path args p of
                  None \<Rightarrow> Inl (PathNotFound (root @ ''.'' @ p))
                | Some v \<Rightarrow> Inr v)))"

function substitute_inline :: "(json \<Rightarrow> string) \<Rightarrow> json \<Rightarrow> string \<Rightarrow> (template_error, string) result" where
  "substitute_inline show args [] = Inr []"
| "substitute_inline show args (c # cs) =
     (if starts_with ''{{'' (c # cs)
      then (case find_str ''}}'' (drop 2 (c # cs)) of
              None \<Rightarrow> Inr (c # cs)
            | Some rel \<Rightarrow>
                (case resolve_ref args (trim (take rel (drop 2 (c # cs)))) of
                   Inl e \<Rightarrow> Inl e
                 | Inr v \<Rightarrow>
                     (case substitute_inline show args (drop (rel + 4) (c # cs)) of
                        Inl e \<Rightarrow> Inl e
                      | Inr rest \<Rightarrow> Inr (value_to_text show v @ rest))))
      else (case substitute_inline show args (drop (char_width c) (c # cs)) of
              Inl e \<Rightarrow> Inl e
            | Inr rest \<Rightarrow> Inr (take (char_width c) (c # cs) @ rest)))"
  by pat_completeness auto
termination
  by (relation "measure (\<lambda>(_, _, s). length s)") (auto simp: char_width_def)

definition render :: "(json \<Rightarrow> string) \<Rightarrow> json \<Rightarrow> string \<Rightarrow> (template_error, json) result" where
  "render show args template =
     (case whole_template (trim template) of
        Some inner \<Rightarrow> resolve_ref args inner
      | None \<Rightarrow>
          (case substitute_inline show args template of Inl e \<Rightarrow> Inl e | Inr s \<Rightarrow> Inr (JStr s)))"

fun render_value :: "(json \<Rightarrow> string) \<Rightarrow> json \<Rightarrow> json \<Rightarrow> (template_error, json) result" where
  "render_value show args (JStr s) = render show args s"
| "render_value show args (JArr xs) =
     (case map_result (render_value show args) xs of Inl e \<Rightarrow> Inl e | Inr ys \<Rightarrow> Inr (JArr ys))"
| "render_value show args (JObj es) =
     (case map_result (\<lambda>e. case render_value show args (snd e) of Inl x \<Rightarrow> Inl x | Inr v \<Rightarrow> Inr (fst e, v)) es of
        Inl e \<Rightarrow> Inl e | Inr ys \<Rightarrow> Inr (JObj ys))"
| "render_value show args j = Inr j"

section \<open>Lemmas\<close>

lemma find_str_literal:
  assumes "hd p \<notin> set a" "p \<noteq> []" "starts_with p b"
  shows "find_str p (a @ b) = Some (length a)"
  using assms
proof (induction a)
  case Nil
  then show ?case by (subst find_str.simps) simp
next
  case (Cons x a)
  then have "\<not> starts_with p ((x # a) @ b)" by (cases p) (auto simp: starts_with_def)
  then show ?case using Cons by (subst find_str.simps) simp
qed

text \<open>A template as the author thinks of it: literal text and references.\<close>

datatype piece = Lit string | Ref string

fun source :: "piece list \<Rightarrow> string" where
  "source [] = []"
| "source (Lit s # ps) = s @ source ps"
| "source (Ref p # ps) = ''{{args.'' @ p @ ''}}'' @ source ps"

definition plain :: "string \<Rightarrow> bool" where
  "plain s \<longleftrightarrow> is_ascii s \<and> CHR ''{'' \<notin> set s \<and> CHR ''}'' \<notin> set s"

definition ref_ok :: "string \<Rightarrow> bool" where
  "ref_ok p \<longleftrightarrow> p \<noteq> [] \<and> CHR ''}'' \<notin> set p \<and> list_all (\<lambda>c. 33 \<le> byte c \<and> byte c < 127) p"

fun pieces_ok :: "piece list \<Rightarrow> bool" where
  "pieces_ok [] = True"
| "pieces_ok (Lit s # ps) = (plain s \<and> pieces_ok ps)"
| "pieces_ok (Ref p # ps) = (ref_ok p \<and> pieces_ok ps)"

fun expand :: "(json \<Rightarrow> string) \<Rightarrow> json \<Rightarrow> piece list \<Rightarrow> (template_error, string) result" where
  "expand show args [] = Inr []"
| "expand show args (Lit s # ps) =
     (case expand show args ps of Inl e \<Rightarrow> Inl e | Inr r \<Rightarrow> Inr (s @ r))"
| "expand show args (Ref p # ps) =
     (case resolve_path args p of
        None \<Rightarrow> Inl (PathNotFound (''args.'' @ p))
      | Some v \<Rightarrow>
          (case expand show args ps of Inl e \<Rightarrow> Inl e | Inr r \<Rightarrow> Inr (value_to_text show v @ r)))"

lemma substitute_literal:
  assumes "plain s"
  shows "substitute_inline show args (s @ t) =
    (case substitute_inline show args t of Inl e \<Rightarrow> Inl e | Inr r \<Rightarrow> Inr (s @ r))"
  using assms
proof (induction s)
  case (Cons c s)
  then have "\<not> starts_with ''{{'' ((c # s) @ t)" "char_width c = 1" "plain s"
    by (auto simp: plain_def starts_with_def char_width_def)
  then show ?case using Cons.IH by (simp split: sum.splits)
qed (simp split: sum.splits)

lemma trim_visible:
  assumes "list_all (\<lambda>c. 33 \<le> byte c \<and> byte c < (127::nat)) s"
  shows "trim s = s"
proof -
  have b: "33 \<le> byte c \<and> byte c < (127::nat)" if "c \<in> set s" for c
    using assms that by (simp add: list_all_iff)
  then have "byte c < (128::nat)" if "c \<in> set s" for c using that by fastforce
  then have "is_ascii s" by (simp add: is_ascii_def)
  moreover have "\<not> is_whitespace [c]" if "c \<in> set s" for c
    using b [OF that] by (auto simp: is_whitespace_def)
  ultimately have ws: "list_all (\<lambda>ch. \<not> is_whitespace ch) (chars s)"
    by (auto simp: chars_ascii list_all_iff)
  have d: "dropWhile is_whitespace xs = xs" if "list_all (\<lambda>ch. \<not> is_whitespace ch) xs" for xs
    using that by (cases xs) auto
  have "trim_start s = s" "trim_end s = s"
    using d [OF ws] d [of "rev (chars s)"] ws by (simp_all add: trim_start_def trim_end_def)
  then show ?thesis by (simp add: trim_def)
qed

lemma resolve_ref_args:
  assumes "ref_ok p"
  shows "resolve_ref args (''args.'' @ p) =
    (case resolve_path args p of None \<Rightarrow> Inl (PathNotFound (''args.'' @ p)) | Some v \<Rightarrow> Inr v)"
proof -
  have "find_char CHR ''.'' (''args'' @ CHR ''.'' # p) = Some 4"
    by (subst find_char_append) auto
  then have "split_root (''args.'' @ p) = Inr (''args'', p)"
    using assms by (simp add: split_root_def split_once_def ref_ok_def)
  then show ?thesis by (simp add: resolve_ref_def check_root_def split: option.split)
qed

lemma substitute_reference:
  assumes "starts_with ''{{'' s" "find_str ''}}'' (drop 2 s) = Some n" "trim (take n (drop 2 s)) = r"
    and "drop (n + 4) s = rest"
  shows "substitute_inline show args s =
    (case resolve_ref args r of
       Inl e \<Rightarrow> Inl e
     | Inr v \<Rightarrow>
         (case substitute_inline show args rest of
            Inl e \<Rightarrow> Inl e
          | Inr t \<Rightarrow> Inr (value_to_text show v @ t)))"
proof (cases s)
  case (Cons c cs)
  then show ?thesis using assms by (simp del: drop_Suc_Cons cong: sum.case_cong)
qed (use assms(1) in \<open>simp add: starts_with_def\<close>)

lemma substitute_pieces:
  assumes "pieces_ok ps"
  shows "substitute_inline show args (source ps) = expand show args ps"
  using assms
proof (induction ps rule: source.induct)
  case (2 s ps)
  then show ?case by (simp add: substitute_literal)
next
  case (3 p ps)
  let ?r = "''args.'' @ p"
  have ok: "ref_ok p" using 3 by simp
  have len: "drop 2 (source (Ref p # ps)) = ?r @ ''}}'' @ source ps" by (simp add: numeral_2_eq_2)
  have "hd ''}}'' \<notin> set ?r" using ok by (simp add: ref_ok_def)
  then have f: "find_str ''}}'' (?r @ ''}}'' @ source ps) = Some (length ?r)"
    by (rule find_str_literal) (simp_all add: starts_with_def)
  have t: "trim ?r = ?r"
    using ok by (intro trim_visible) (simp add: ref_ok_def)
  have dl: "drop (length xs) (xs @ ys) = ys" for xs ys :: string by simp
  have e: "source (Ref p # ps) = (''{{'' @ ?r @ ''}}'') @ source ps" by simp
  have l: "length ?r + 4 = length (''{{'' @ ?r @ ''}}'')" by simp
  have d: "drop (length ?r + 4) (source (Ref p # ps)) = source ps" unfolding e l by (rule dl)
  have "starts_with ''{{'' (source (Ref p # ps))" by (simp add: starts_with_def)
  moreover have "trim (take (length ?r) (drop 2 (source (Ref p # ps)))) = ?r" unfolding len using t by simp
  ultimately have "substitute_inline show args (source (Ref p # ps)) =
    (case resolve_ref args ?r of
       Inl e \<Rightarrow> Inl e
     | Inr v \<Rightarrow>
         (case substitute_inline show args (source ps) of
            Inl e \<Rightarrow> Inl e
          | Inr rest \<Rightarrow> Inr (value_to_text show v @ rest)))"
    using f d unfolding len [symmetric] by (intro substitute_reference) auto
  then show ?case
    using 3 ok
    by (simp add: resolve_ref_args [OF ok, simplified] del: source.simps cong: sum.case_cong
        split: option.splits)
qed simp

lemma whole_reference:
  assumes "ref_ok p" "CHR ''{'' \<notin> set p"
  shows "render show args (''{{args.'' @ p @ ''}}'') =
    (case resolve_path args p of None \<Rightarrow> Inl (PathNotFound (''args.'' @ p)) | Some v \<Rightarrow> Inr v)"
proof -
  let ?r = "''args.'' @ p" and ?t = "''{{args.'' @ p @ ''}}''"
  have vis: "trim ?t = ?t" "trim ?r = ?r"
    using assms(1) by (auto intro!: trim_visible simp: ref_ok_def)
  have "starts_with ''{{'' ?t" by (simp add: starts_with_def)
  moreover have "ends_with ''}}'' ?t" by (simp add: ends_with_def starts_with_def)
  moreover have "take (length ?t - 4) (drop 2 ?t) = ?r" by (simp add: numeral_2_eq_2)
  moreover have "\<not> has_str ''{{'' ?r"
  proof
    assume "has_str ''{{'' ?r"
    then obtain n where n: "starts_with ''{{'' (drop n ?r)"
      using find_str_Some [of "''{{''" ?r] by (auto simp: has_str_def)
    then have "CHR ''{'' \<in> set (drop n ?r)"
      using starts_withE [OF n] by (metis append_Cons list.set_intros(1))
    then have "CHR ''{'' \<in> set ?r" by (meson in_set_dropD)
    then show False using assms(2) by simp
  qed
  ultimately have "whole_template ?t = Some ?r"
    unfolding whole_template_def Let_def using vis(2) by (simp del: append.simps append_assoc)
  then show ?thesis unfolding render_def vis(1) by (simp add: resolve_ref_args [OF assms(1), simplified])
qed

section \<open>Properties\<close>

text \<open>
  (template expansion). A template that is one reference renders to the referenced JSON
  value itself; a mixed one renders to its literal text with each reference replaced, left to
  right, by the text of its value, which is never scanned again for references; the first
  reference that names nothing is the error.
\<close>

theorem template_expansion:
  assumes "pieces_ok ps" "whole_template (trim (source ps)) = None" "ref_ok p" "CHR ''{'' \<notin> set p"
  shows "render show args (source ps) =
      (case expand show args ps of Inl e \<Rightarrow> Inl e | Inr s \<Rightarrow> Inr (JStr s))
    \<and> render show args (source [Ref p]) =
      (case resolve_path args p of None \<Rightarrow> Inl (PathNotFound (''args.'' @ p)) | Some v \<Rightarrow> Inr v)"
  using assms whole_reference [OF assms(3,4)] by (simp add: render_def substitute_pieces)

lemma template_expansion_witness:
  "render print_json (JObj [(''x'', JStr ''{{args.y}}''), (''y'', JInt 5)])
      (source [Lit ''a='', Ref ''x'', Lit '', b='', Ref ''y'']) = Inr (JStr ''a={{args.y}}, b=5'')
   \<and> render print_json (JObj [(''y'', JInt 5)]) (source [Ref ''y'']) = Inr (JInt 5)"
proof -
  let ?ps = "[Lit ''a='', Ref ''x'', Lit '', b='', Ref ''y'']"
  let ?args = "JObj [(''x'', JStr ''{{args.y}}''), (''y'', JInt 5)]"
  have ok: "pieces_ok ?ps" "ref_ok ''y''" by (simp_all add: plain_def ref_ok_def)
  have w: "whole_template (trim (source ?ps)) = None" by code_simp
  have "expand print_json ?args ?ps = Inr ''a={{args.y}}, b=5''" by code_simp
  then show ?thesis
    using template_expansion [OF ok(1) w ok(2), of print_json ?args]
      template_expansion [OF ok(1) w ok(2), of print_json "JObj [(''y'', JInt 5)]"]
    by (simp add: resolve_path_def)
qed

end
