(* ===== verification/Store_Audit.thy ===== *)
theory Store_Audit
  imports N_Prelude
begin

text \<open>
  \<open>crates/storage/src/audit.rs\<close>: the call journal, its per-direction statistics, rankings
  and time buckets. SQLite and Rust both divide integers towards zero; groups of a
  \<open>GROUP BY\<close> come in key order and ties of a ranking keep that order.
\<close>

datatype direction = DirIn | DirOut | DirLocal

fun direction_str :: "direction \<Rightarrow> string" where
  "direction_str DirIn = ''in''"
| "direction_str DirOut = ''out''"
| "direction_str DirLocal = ''local''"

record audit_entry =
  ae_timestamp :: int
  ae_direction :: direction
  ae_peer_id :: string
  ae_capability :: "string option"
  ae_status :: string
  ae_latency_ms :: "int option"

type_synonym audit_log = "audit_entry list"

definition record_entry :: "audit_entry \<Rightarrow> audit_log \<Rightarrow> audit_log" where
  "record_entry e log = log @ [e]"

record direction_stats =
  st_calls :: int
  st_errors :: int
  st_median :: "int option"

definition META_VERBS :: "string list" where
  "META_VERBS = [''describe_self'', ''ping'', ''get_known_peers'', ''blob_ticket'']"

definition is_error :: "audit_entry \<Rightarrow> bool" where
  "is_error e \<longleftrightarrow> ae_status e \<noteq> ''ok''"

definition count_where :: "('r \<Rightarrow> bool) \<Rightarrow> 'r list \<Rightarrow> int" where
  "count_where p t = int (length (filter p t))"

text \<open>\<open>ORDER BY latency_ms LIMIT 1 OFFSET (SELECT COUNT(*) / 2 ..)\<close>; no row is \<open>None\<close>.\<close>

definition median_latency :: "audit_log \<Rightarrow> int option" where
  "median_latency rows =
     (let ls = sort (List.map_filter ae_latency_ms rows); k = length ls div 2
      in if k < length ls then Some (ls ! k) else None)"

definition stats_of :: "audit_log \<Rightarrow> direction_stats" where
  "stats_of rows =
     \<lparr>st_calls = int (length rows), st_errors = count_where is_error rows,
      st_median = (if rows = [] then None else median_latency rows)\<rparr>"

definition not_meta :: "audit_entry \<Rightarrow> bool" where
  "not_meta e \<longleftrightarrow>
     (case ae_capability e of None \<Rightarrow> True | Some c \<Rightarrow> c \<notin> set META_VERBS)"

definition served_capability_stats :: "int \<Rightarrow> audit_log \<Rightarrow> direction_stats" where
  "served_capability_stats since log =
     stats_of (filter (\<lambda>e. ae_direction e = DirIn \<and> ae_timestamp e \<ge> since \<and> not_meta e) log)"

definition dir_stats :: "direction \<Rightarrow> int \<Rightarrow> audit_log \<Rightarrow> direction_stats" where
  "dir_stats d since log =
     stats_of (filter (\<lambda>e. ae_direction e = d \<and> ae_timestamp e \<ge> since) log)"

definition meta_calls_since :: "int \<Rightarrow> audit_log \<Rightarrow> int" where
  "meta_calls_since since log =
     count_where (\<lambda>e. ae_direction e = DirIn \<and> ae_timestamp e \<ge> since
       \<and> (case ae_capability e of None \<Rightarrow> False | Some c \<Rightarrow> c \<in> set META_VERBS)) log"

record ranked =
  rk_key :: string
  rk_calls :: int
  rk_errors :: int

definition rank_by :: "(audit_entry \<Rightarrow> string) \<Rightarrow> int \<Rightarrow> audit_log \<Rightarrow> ranked list" where
  "rank_by key lim rows =
     limit lim (sort_key (\<lambda>r. - rk_calls r)
       (map (\<lambda>k. \<lparr>rk_key = k, rk_calls = count_where (\<lambda>e. key e = k) rows,
                  rk_errors = count_where (\<lambda>e. key e = k \<and> is_error e) rows\<rparr>)
         (sort (remdups (map key rows)))))"

definition cap_of :: "audit_entry \<Rightarrow> string" where
  "cap_of e = (case ae_capability e of Some c \<Rightarrow> c | None \<Rightarrow> [])"

definition top_capabilities_solicited :: "int \<Rightarrow> int \<Rightarrow> audit_log \<Rightarrow> ranked list" where
  "top_capabilities_solicited since lim log =
     rank_by cap_of lim
       (filter (\<lambda>e. (ae_direction e = DirIn \<or> ae_direction e = DirLocal) \<and> ae_timestamp e \<ge> since
          \<and> (case ae_capability e of None \<Rightarrow> False | Some c \<Rightarrow> c \<notin> set META_VERBS)) log)"

definition top_capabilities :: "direction \<Rightarrow> int \<Rightarrow> int \<Rightarrow> audit_log \<Rightarrow> ranked list" where
  "top_capabilities d since lim log =
     rank_by cap_of lim
       (filter (\<lambda>e. ae_direction e = d \<and> ae_timestamp e \<ge> since \<and> ae_capability e \<noteq> None) log)"

definition top_peers :: "direction \<Rightarrow> int \<Rightarrow> int \<Rightarrow> audit_log \<Rightarrow> ranked list" where
  "top_peers d since lim log =
     rank_by ae_peer_id lim (filter (\<lambda>e. ae_direction e = d \<and> ae_timestamp e \<ge> since) log)"

record bucket =
  bk_start :: int
  inbound :: int
  outbound :: int
  local :: int
  bk_errors :: int

definition div_trunc :: "int \<Rightarrow> int \<Rightarrow> int" where
  "div_trunc a b = (if 0 \<le> a then a div b else - ((- a) div b))"

definition bucket_of :: "int \<Rightarrow> audit_entry \<Rightarrow> int" where
  "bucket_of w e = div_trunc (ae_timestamp e) w * w"

definition in_window :: "int \<Rightarrow> int \<Rightarrow> audit_entry \<Rightarrow> bool" where
  "in_window since until e \<longleftrightarrow> since \<le> ae_timestamp e \<and> ae_timestamp e < until"

definition bucket_row :: "int \<Rightarrow> audit_log \<Rightarrow> bucket" where
  "bucket_row start rows =
     \<lparr>bk_start = start, inbound = count_where (\<lambda>e. ae_direction e = DirIn) rows,
      outbound = count_where (\<lambda>e. ae_direction e = DirOut) rows,
      local = count_where (\<lambda>e. ae_direction e = DirLocal) rows,
      bk_errors = count_where is_error rows\<rparr>"

definition found_buckets :: "int \<Rightarrow> int \<Rightarrow> int \<Rightarrow> audit_log \<Rightarrow> bucket list" where
  "found_buckets since until w log =
     (let rows = filter (in_window since until) log
      in map (\<lambda>b. bucket_row b (filter (\<lambda>e. bucket_of w e = b) rows))
           (sort (remdups (map (bucket_of w) rows))))"

function bucket_loop :: "bucket list \<Rightarrow> int \<Rightarrow> int \<Rightarrow> int \<Rightarrow> bucket list" where
  "bucket_loop found w until start =
     (if 0 < w \<and> start < until
      then (case find (\<lambda>b. bk_start b = start) found of
              Some b \<Rightarrow> b
            | None \<Rightarrow> \<lparr>bk_start = start, inbound = 0, outbound = 0, local = 0, bk_errors = 0\<rparr>)
        # bucket_loop found w until (start + w)
      else [])"
  by pat_completeness auto
termination
  by (relation "measure (\<lambda>(_, w, until, start). nat (until - start))") auto

declare bucket_loop.simps [simp del]

text \<open>\<open>None\<close> is the panic of the assertion on the width.\<close>

definition buckets :: "int \<Rightarrow> int \<Rightarrow> int \<Rightarrow> audit_log \<Rightarrow> bucket list option" where
  "buckets since until w log =
     (if w > 0
      then Some (bucket_loop (found_buckets since until w log) w until (div_trunc since w * w))
      else None)"

definition prune_audit :: "int \<Rightarrow> audit_log \<Rightarrow> nat \<times> audit_log" where
  "prune_audit cutoff log =
     (length (filter (\<lambda>e. ae_timestamp e < cutoff) log), sql_delete (\<lambda>e. ae_timestamp e < cutoff) log)"

section \<open>Lemmas\<close>

lemma find_found_bucket:
  "find (\<lambda>b. bk_start b = s) (found_buckets since until w log) =
     (let rows = filter (\<lambda>e. in_window since until e \<and> bucket_of w e = s) log
      in if rows = [] then None else Some (bucket_row s rows))"
proof -
  let ?rows = "filter (in_window since until) log"
  have f: "find (\<lambda>b. bk_start b = s) (map (\<lambda>b. bucket_row b (g b)) ks) =
      (if s \<in> set ks then Some (bucket_row s (g s)) else None)" for g ks
    by (induction ks) (auto simp: bucket_row_def)
  have "s \<in> set (sort (remdups (map (bucket_of w) ?rows))) \<longleftrightarrow>
      filter (\<lambda>e. in_window since until e \<and> bucket_of w e = s) log \<noteq> []"
    by (auto simp: filter_empty_conv)
  then show ?thesis by (simp add: found_buckets_def f Let_def del: set_sort set_remdups)
qed

lemma empty_bucket: "bucket_row s [] = \<lparr>bk_start = s, inbound = 0, outbound = 0, local = 0, bk_errors = 0\<rparr>"
  by (simp add: bucket_row_def count_where_def)

lemma bucket_loop_step:
  "0 < w \<Longrightarrow> start < until \<Longrightarrow>
     bucket_loop (found_buckets since u w log) w until start =
       bucket_row start (filter (\<lambda>e. in_window since u e \<and> bucket_of w e = start) log)
       # bucket_loop (found_buckets since u w log) w until (start + w)"
  by (subst bucket_loop.simps) (auto simp: find_found_bucket Let_def empty_bucket)

lemma bucket_loop_stop: "until \<le> start \<Longrightarrow> bucket_loop found w until start = []"
  by (subst bucket_loop.simps) simp

lemma loop_is_map:
  assumes "0 < w"
  shows "bucket_loop (found_buckets since u w log) w until start =
    map (\<lambda>i. bucket_row (start + int i * w)
        (filter (\<lambda>e. in_window since u e \<and> bucket_of w e = start + int i * w) log))
      [0..<nat ((until - start + w - 1) div w)]"
proof (induction "nat (until - start)" arbitrary: start rule: less_induct)
  case less
  show ?case
  proof (cases "start < until")
    case True
    let ?n = "nat ((until - start + w - 1) div w)"
    let ?m = "nat ((until - (start + w) + w - 1) div w)"
    have "(until - start + w - 1) div w = (until - (start + w) + w - 1) div w + 1"
      using assms div_add_self2 [of w "until - start - 1"] by (simp add: algebra_simps)
    moreover have "0 \<le> (until - start - 1) div w"
      using True assms by (simp add: pos_imp_zdiv_nonneg_iff)
    ultimately have n: "?n = Suc ?m" by (simp add: algebra_simps nat_add_distrib)
    have IH: "bucket_loop (found_buckets since u w log) w until (start + w) =
      map (\<lambda>i. bucket_row (start + w + int i * w)
        (filter (\<lambda>e. in_window since u e \<and> bucket_of w e = start + w + int i * w) log)) [0..<?m]"
      using less [of "start + w"] True assms by simp
    have "[0..<Suc ?m] = 0 # map Suc [0..<?m]" by (simp add: upt_conv_Cons map_Suc_upt del: upt_Suc)
    then show ?thesis
      unfolding bucket_loop_step [OF assms True] n IH
      by (simp add: algebra_simps del: upt_Suc)
  next
    case False
    then have "(until - start + w - 1) div w \<le> 0"
      using assms zdiv_mono1 [of "until - start + w - 1" "w - 1" w] by simp
    then show ?thesis using False by (simp add: bucket_loop_stop)
  qed
qed

lemma count_partition:
  assumes "\<And>e. e \<in> set rows \<Longrightarrow> k e < n"
  shows "(\<Sum>i\<leftarrow>[0..<n]. count_where p (filter (\<lambda>e. k e = i) rows)) = count_where p rows"
  using assms
proof (induction rows)
  case (Cons e rows)
  have one: "(\<Sum>i\<leftarrow>[0..<n]. if k e = i \<and> p e then 1 else 0) = (if p e then 1 else (0::int))"
    using Cons.prems [of e]
    by (simp add: sum_list_distinct_conv_sum_set atLeast0LessThan)
  have "count_where p (filter (\<lambda>e. k e = i) (e # rows)) =
      (if k e = i \<and> p e then 1 else 0) + count_where p (filter (\<lambda>e. k e = i) rows)" for i
    by (simp add: count_where_def)
  then show ?case
    using Cons.IH Cons.prems one by (simp add: sum_list_addf) (simp add: count_where_def)
qed (simp add: count_where_def)

lemma bucket_index:
  assumes "0 < w" "0 \<le> since" "in_window since until e"
  defines "first \<equiv> div_trunc since w * w"
  shows "bucket_of w e = first + int i * w \<longleftrightarrow> nat (ae_timestamp e div w - since div w) = i"
    "nat (ae_timestamp e div w - since div w) < nat ((until - first + w - 1) div w)"
proof -
  let ?t = "ae_timestamp e"
  have t: "since \<le> ?t" "?t < until" using assms(3) by (auto simp: in_window_def)
  then have le: "since div w \<le> ?t div w" using assms(1) by (simp add: zdiv_mono1)
  have b: "bucket_of w e = ?t div w * w" "first = since div w * w"
    using t assms(2) by (simp_all add: bucket_of_def div_trunc_def first_def)
  have "?t div w * w = since div w * w + int i * w \<longleftrightarrow> ?t div w = since div w + int i"
    using assms(1) by (simp flip: distrib_right)
  then show "bucket_of w e = first + int i * w \<longleftrightarrow> nat (?t div w - since div w) = i"
    using le by (auto simp: b)
  have "(until - first + w - 1) div w = (until - 1 + w + (- (since div w)) * w) div w"
    by (simp add: b algebra_simps)
  also have "\<dots> = (until - 1) div w + 1 - since div w"
    using assms(1) by (subst div_mult_self1) (simp_all add: div_add_self2)
  finally have n: "(until - first + w - 1) div w = (until - 1) div w + 1 - since div w" .
  have "?t div w \<le> (until - 1) div w" using t assms(1) by (simp add: zdiv_mono1)
  then show "nat (?t div w - since div w) < nat ((until - first + w - 1) div w)"
    using le by (simp add: n)
qed

lemma buckets_sum:
  assumes "0 < w" "0 \<le> since" "buckets since until w log = Some bs"
    and "\<And>s rows. f (bucket_row s rows) = count_where p rows"
  shows "sum_list (map f bs) = count_where p (filter (in_window since until) log)"
proof -
  let ?first = "div_trunc since w * w"
  let ?n = "nat ((until - ?first + w - 1) div w)"
  let ?k = "\<lambda>e. nat (ae_timestamp e div w - since div w)"
  let ?rows = "filter (in_window since until) log"
  have "bs = bucket_loop (found_buckets since until w log) w until ?first"
    using assms(3) by (simp add: buckets_def split: if_splits)
  then have "map f bs = map (\<lambda>i. count_where p
      (filter (\<lambda>e. in_window since until e \<and> bucket_of w e = ?first + int i * w) log)) [0..<?n]"
    by (simp add: loop_is_map [OF assms(1)] assms(4))
  also have "\<dots> = map (\<lambda>i. count_where p (filter (\<lambda>e. ?k e = i) ?rows)) [0..<?n]"
  proof -
    have "filter (\<lambda>e. in_window since until e \<and> bucket_of w e = ?first + int i * w) log =
        filter (\<lambda>e. ?k e = i) ?rows" for i
      using bucket_index(1) [OF assms(1,2)] by (auto intro: filter_cong)
    then show ?thesis by simp
  qed
  finally have "sum_list (map f bs) = (\<Sum>i\<leftarrow>[0..<?n]. count_where p (filter (\<lambda>e. ?k e = i) ?rows))"
    by (rule arg_cong)
  also have "\<dots> = count_where p ?rows"
    by (rule count_partition) (rule bucket_index(2) [OF assms(1,2)], simp)
  finally show ?thesis .
qed

lemma buckets_starts:
  assumes "buckets since until w log = Some bs"
  shows "map bk_start bs = map (\<lambda>i. div_trunc since w * w + int i * w)
    [0..<nat ((until - div_trunc since w * w + w - 1) div w)]"
  using assms by (auto simp: buckets_def loop_is_map bucket_row_def comp_def split: if_splits)

section \<open>Properties\<close>

text \<open>
  (the pulse is dense and loses nothing). The bucket starts are consecutive multiples of
  the width, and every journalled call of the window is counted in exactly one bucket, in its
  direction and among the errors.
\<close>

theorem buckets_dense_and_complete:
  assumes "0 < w" "0 \<le> since" "buckets since until w log = Some bs"
  shows "map bk_start bs = map (\<lambda>i. since div w * w + int i * w)
      [0..<nat ((until - since div w * w + w - 1) div w)]
    \<and> sum_list (map inbound bs) = count_where (\<lambda>e. ae_direction e = DirIn) (filter (in_window since until) log)
    \<and> sum_list (map outbound bs) = count_where (\<lambda>e. ae_direction e = DirOut) (filter (in_window since until) log)
    \<and> sum_list (map local bs) = count_where (\<lambda>e. ae_direction e = DirLocal) (filter (in_window since until) log)
    \<and> sum_list (map bk_errors bs) = count_where is_error (filter (in_window since until) log)"
  using assms(2) buckets_starts [OF assms(3)]
    buckets_sum [OF assms, of inbound] buckets_sum [OF assms, of outbound]
    buckets_sum [OF assms, of local] buckets_sum [OF assms, of bk_errors]
  by (simp add: bucket_row_def div_trunc_def)

definition sample_entry :: "direction \<Rightarrow> int \<Rightarrow> string \<Rightarrow> int option \<Rightarrow> audit_entry" where
  "sample_entry d t st l = \<lparr>ae_timestamp = t, ae_direction = d, ae_peer_id = ''n3:a'',
     ae_capability = Some ''echo'', ae_status = st, ae_latency_ms = l\<rparr>"

lemma buckets_dense_and_complete_witness:
  "\<exists>bs. buckets 12 40 10 [sample_entry DirIn 13 ''ok'' None, sample_entry DirOut 35 ''replay'' None] = Some bs
     \<and> map bk_start bs = [10, 20, 30] \<and> sum_list (map inbound bs) = 1"
proof -
  let ?log = "[sample_entry DirIn 13 ''ok'' None, sample_entry DirOut 35 ''replay'' None]"
  obtain bs where bs: "buckets 12 40 10 ?log = Some bs" by (simp add: buckets_def)
  have "map (\<lambda>i. (12::int) div 10 * 10 + int i * 10) [0..<nat ((40 - 12 div 10 * 10 + 10 - 1) div 10)]
    = [10, 20, 30]" by code_simp
  moreover have "count_where (\<lambda>e. ae_direction e = DirIn) (filter (in_window 12 40) ?log) = 1"
    by (simp add: count_where_def in_window_def sample_entry_def)
  ultimately show ?thesis
    using bs buckets_dense_and_complete [OF _ _ bs] by simp
qed

text \<open>
  (median latency). The median of a direction is a recorded latency with no more than half
  of the recorded latencies below it and no more than half above it.
\<close>

theorem median_is_middle:
  assumes "st_median (dir_stats d since log) = Some m"
  defines "ls \<equiv> List.map_filter ae_latency_ms
    (filter (\<lambda>e. ae_direction e = d \<and> ae_timestamp e \<ge> since) log)"
  shows "m \<in> set ls \<and> 2 * length (filter (\<lambda>x. x < m) ls) \<le> length ls
    \<and> 2 * length (filter (\<lambda>x. m < x) ls) \<le> length ls"
proof -
  let ?k = "length ls div 2"
  have k: "?k < length ls" and m: "m = sort ls ! ?k"
    using assms(1) by (auto simp: dir_stats_def stats_of_def median_latency_def Let_def ls_def
        split: if_splits)
  then have "m \<in> set ls" by (metis length_sort nth_mem set_sort)
  have len: "length (filter p ls) = length (filter p (sort ls))" for p
    by (metis filter_sort length_sort)
  have "length (filter (\<lambda>x. x < m) (sort ls)) \<le> ?k"
  proof -
    have "filter (\<lambda>x. x < m) (drop ?k (sort ls)) = []"
      using k sorted_nth_mono [OF sorted_sort [of ls]]
      by (auto simp: filter_empty_conv in_set_conv_nth m not_less)
    then have "filter (\<lambda>x. x < m) (sort ls) = filter (\<lambda>x. x < m) (take ?k (sort ls))"
      by (metis append_Nil2 append_take_drop_id filter_append)
    then show ?thesis using length_filter_le [of _ "take ?k (sort ls)"] k by simp
  qed
  moreover have "length (filter (\<lambda>x. m < x) (sort ls)) \<le> length ls - Suc ?k"
  proof -
    have "filter (\<lambda>x. m < x) (take (Suc ?k) (sort ls)) = []"
      using k sorted_nth_mono [OF sorted_sort [of ls]]
      by (auto simp: filter_empty_conv in_set_conv_nth m not_less)
    then have "filter (\<lambda>x. m < x) (sort ls) = filter (\<lambda>x. m < x) (drop (Suc ?k) (sort ls))"
      by (metis append_Nil append_take_drop_id filter_append)
    then show ?thesis using length_filter_le [of _ "drop (Suc ?k) (sort ls)"] by simp
  qed
  ultimately show ?thesis using \<open>m \<in> set ls\<close> k by (auto simp: len)
qed

lemma median_is_middle_witness:
  "(7::int) \<in> set [7, 30, 2] \<and> 2 * length (filter (\<lambda>x. x < 7) [7, 30, 2 :: int]) \<le> length [7, 30, 2 :: int]
    \<and> 2 * length (filter (\<lambda>x. 7 < x) [7, 30, 2 :: int]) \<le> length [7, 30, 2 :: int]"
  using median_is_middle [of DirIn 0 "[sample_entry DirIn 1 ''ok'' (Some 7),
      sample_entry DirIn 2 ''ok'' (Some 30), sample_entry DirIn 3 ''ok'' (Some 2)]" 7]
  by (simp add: dir_stats_def stats_of_def median_latency_def Let_def sample_entry_def
      map_filter_simps)

end
