(* ===== verification/Node_Registry.thy ===== *)
theory Node_Registry
  imports Node_Blobs Bind_Template Store_Audit
begin

text \<open>
  \<open>crates/node/src/error.rs\<close>, \<open>audit.rs\<close> and \<open>registry.rs\<close>: node errors, their journal
  vocabulary, and the capability registry. The registry is a hash map by name; it is modelled
  by its entries in iteration order, one per name. A binding is a value of the type \<open>'b\<close>.
\<close>

section \<open>Errors\<close>

datatype adapter_error =
    AdUnknownCapability string
  | Transport string
  | Backend string
  | AdSerde string

datatype node_error =
    Core core_error
  | Storage string
  | Adapter adapter_error
  | Replay
  | UnknownCapability string
  | InvalidPayload string
  | PartialReload nat string
  | IdentityFile string
  | Io string
  | NodeSerde string
  | UnresolvedMentions "string list"
  | Template template_error

fun status_of :: "node_error \<Rightarrow> string" where
  "status_of (UnknownCapability _) = ''unknown_capability''"
| "status_of Replay = ''replay''"
| "status_of (InvalidPayload _) = ''invalid_payload''"
| "status_of (UnresolvedMentions _) = ''unresolved_mentions''"
| "status_of (Adapter _) = ''adapter_error''"
| "status_of (Template _) = ''template_error''"
| "status_of (Storage _) = ''storage_error''"
| "status_of (Core _) = ''rejected''"
| "status_of _ = ''error''"

section \<open>The registry\<close>

record 'b entry =
  decl :: capability_decl
  binding :: "'b option"

type_synonym 'b registry = "(string \<times> 'b entry) list"

definition reg_insert :: "string \<Rightarrow> 'b entry \<Rightarrow> 'b registry \<Rightarrow> 'b registry" where
  "reg_insert k e r =
     (if k \<in> fst ` set r then map (\<lambda>p. if fst p = k then (k, e) else p) r else r @ [(k, e)])"

definition from_decls :: "capability_decl list \<Rightarrow> 'b registry" where
  "from_decls ds = fold (\<lambda>d. reg_insert (cap_name d) \<lparr>decl = d, binding = None\<rparr>) ds []"

definition from_entries :: "(capability_decl \<times> 'b) list \<Rightarrow> 'b registry" where
  "from_entries es =
     fold (\<lambda>(d, b). reg_insert (cap_name d) \<lparr>decl = d, binding = Some b\<rparr>) es []"

definition reg_get :: "string \<Rightarrow> 'b registry \<Rightarrow> capability_decl option" where
  "reg_get n r = map_option decl (map_of r n)"

definition binding_for :: "string \<Rightarrow> 'b registry \<Rightarrow> 'b option" where
  "binding_for n r = Option.bind (map_of r n) binding"

definition reg_all :: "'b registry \<Rightarrow> capability_decl list" where
  "reg_all r = map (decl \<circ> snd) r"

definition public_decls :: "'b registry \<Rightarrow> capability_decl list" where
  "public_decls r = map (decl \<circ> snd) (filter (\<lambda>p. is_public (mode (decl (snd p)))) r)"

definition restrict_lobes :: "string list \<Rightarrow> 'b entry \<Rightarrow> 'b entry" where
  "restrict_lobes inst e =
     (if unclaimable_lobes (lobe_ids (decl e)) inst = [] then e
      else e\<lparr>decl := (decl e)\<lparr>lobe_ids := filter (\<lambda>l. l \<in> set inst) (lobe_ids (decl e))\<rparr>\<rparr>)"

definition enforce_instance_lobes ::
  "string list \<Rightarrow> 'b registry \<Rightarrow> (string \<times> string list) list \<times> 'b registry" where
  "enforce_instance_lobes inst r =
     (sort_key fst
        (map (\<lambda>p. (fst p, unclaimable_lobes (lobe_ids (decl (snd p))) inst))
          (filter (\<lambda>p. unclaimable_lobes (lobe_ids (decl (snd p))) inst \<noteq> []) r)),
      map (\<lambda>p. (fst p, restrict_lobes inst (snd p))) r)"

definition retain_published :: "string list \<Rightarrow> 'b registry \<Rightarrow> string list \<times> 'b registry" where
  "retain_published allow r =
     (if allow = [] then ([], r)
      else (filter (\<lambda>n. n \<notin> fst ` set r) allow, filter (\<lambda>p. fst p \<in> set allow) r))"

definition reg_len :: "'b registry \<Rightarrow> nat" where
  "reg_len r = length r"

definition reg_is_empty :: "'b registry \<Rightarrow> bool" where
  "reg_is_empty r \<longleftrightarrow> r = []"

section \<open>Lemmas\<close>

definition reg_ok :: "'b registry \<Rightarrow> bool" where
  "reg_ok r \<longleftrightarrow> distinct (map fst r) \<and> list_all (\<lambda>p. cap_name (decl (snd p)) = fst p) r"

lemma map_of_reg_insert: "map_of (reg_insert k e r) = (map_of r)(k \<mapsto> e)"
proof (cases "k \<in> fst ` set r")
  case True
  have "k \<in> fst ` set r \<Longrightarrow> map_of (map (\<lambda>p. if fst p = k then (k, e) else p) r) = (map_of r)(k \<mapsto> e)"
  proof (induction r)
    case (Cons p r)
    show ?case
    proof (cases "k \<in> fst ` set r")
      case True
      then show ?thesis using Cons.IH by (cases p) (auto simp: fun_eq_iff)
    next
      case False
      then have "map (\<lambda>p. if fst p = k then (k, e) else p) r = r" by (intro map_idI) force
      then show ?thesis using Cons.prems False by (cases p) auto
    qed
  qed simp
  then show ?thesis using True by (simp add: reg_insert_def)
next
  case False
  then have "map_of r k = None" by (simp add: map_of_eq_None_iff)
  then show ?thesis
    using False by (auto simp: reg_insert_def fun_eq_iff map_add_def split: option.splits)
qed

lemma keys_update: "map fst (map (\<lambda>p. if fst p = k then (k, e) else p) r) = map fst r"
  by auto

lemma reg_ok_insert: "reg_ok r \<Longrightarrow> cap_name (decl e) = k \<Longrightarrow> reg_ok (reg_insert k e r)"
  using keys_update [of k e r]
  by (auto simp: reg_ok_def reg_insert_def list_all_iff simp del: map_map)

lemma reg_ok_fold:
  "reg_ok r \<Longrightarrow> (\<And>d. cap_name (decl (h d)) = g d) \<Longrightarrow> reg_ok (fold (\<lambda>d. reg_insert (g d) (h d)) ds r)"
proof (induction ds arbitrary: r)
  case (Cons d ds)
  then show ?case by (simp add: reg_ok_insert)
qed simp

lemma reg_ok_from_decls: "reg_ok (from_decls ds)"
  unfolding from_decls_def by (rule reg_ok_fold) (simp_all add: reg_ok_def)

lemma reg_ok_from_entries: "reg_ok (from_entries es)"
  unfolding from_entries_def case_prod_beta'
  by (rule reg_ok_fold) (simp_all add: reg_ok_def)

lemma restrict_lobes_simps [simp]:
  "cap_name (decl (restrict_lobes inst e)) = cap_name (decl e)"
  "mode (decl (restrict_lobes inst e)) = mode (decl e)"
  "binding (restrict_lobes inst e) = binding e"
  by (simp_all add: restrict_lobes_def)

lemma restrict_lobes_set:
  "lobe_ids (decl (restrict_lobes inst e)) = filter (\<lambda>l. l \<in> set inst) (lobe_ids (decl e))"
proof (cases "unclaimable_lobes (lobe_ids (decl e)) inst = []")
  case True
  then have "filter (\<lambda>l. l \<in> set inst) (lobe_ids (decl e)) = lobe_ids (decl e)"
    by (auto simp: unclaimable_empty_iff filter_id_conv)
  then show ?thesis using True by (simp add: restrict_lobes_def)
qed (simp add: restrict_lobes_def)

lemma enforce_snd: "snd (enforce_instance_lobes inst r) = map (\<lambda>p. (fst p, restrict_lobes inst (snd p))) r"
  by (simp add: enforce_instance_lobes_def)

lemma reg_ok_enforce: "reg_ok r \<Longrightarrow> reg_ok (snd (enforce_instance_lobes inst r))"
  by (auto simp: reg_ok_def enforce_snd list_all_iff comp_def)

section \<open>Properties\<close>

text \<open>
  (lobe membership). After \<open>enforce_instance_lobes\<close> no capability claims a lobe its
  instance does not declare, capabilities and their other lobes are kept, a second pass drops
  nothing, and the report names exactly the capabilities that lost a lobe.
\<close>

theorem instance_lobes_enforced:
  "list_all (\<lambda>d. set (lobe_ids d) \<subseteq> set inst) (reg_all (snd (enforce_instance_lobes inst r)))
   \<and> map cap_name (reg_all (snd (enforce_instance_lobes inst r))) = map cap_name (reg_all r)
   \<and> map lobe_ids (reg_all (snd (enforce_instance_lobes inst r)))
      = map (filter (\<lambda>l. l \<in> set inst)) (map lobe_ids (reg_all r))
   \<and> fst (enforce_instance_lobes inst (snd (enforce_instance_lobes inst r))) = []
   \<and> set (map fst (fst (enforce_instance_lobes inst r)))
      = fst ` {p \<in> set r. \<not> set (lobe_ids (decl (snd p))) \<subseteq> set inst}"
proof -
  have none: "unclaimable_lobes (filter (\<lambda>l. l \<in> set inst) ls) inst = []" for ls
    by (auto simp: unclaimable_empty_iff)
  have "fst (enforce_instance_lobes inst (snd (enforce_instance_lobes inst r))) = []"
    unfolding enforce_snd by (simp add: enforce_instance_lobes_def restrict_lobes_set none comp_def)
  moreover have "set (map fst (fst (enforce_instance_lobes inst r)))
      = fst ` {p \<in> set r. \<not> set (lobe_ids (decl (snd p))) \<subseteq> set inst}"
    by (force simp: enforce_instance_lobes_def unclaimable_empty_iff)
  ultimately show ?thesis
    by (auto simp: enforce_snd reg_all_def restrict_lobes_set list_all_iff comp_def)
qed

end
