(* ===== verification/Adapter_OpenAI.thy ===== *)
theory Adapter_OpenAI
  imports Node_Registry
begin

text \<open>
  \<open>crates/adapters/src/openai.rs\<close> and \<open>echo.rs\<close>: the backend that speaks to an
  OpenAI-compatible chat endpoint, and the echo backend. Sending a request, JSON text and the
  texts of statuses and decoding errors are parameters (\<open>upstream\<close>).
\<close>

section \<open>The outside\<close>

record http_request =
  rq_method :: string
  rq_url :: string
  rq_headers :: "(string \<times> string) list"
  rq_body :: "json option"
  rq_timeout_ms :: int

record upstream =
  send_request :: "http_request \<Rightarrow> (string, nat \<times> string) result"
  parse_json :: "string \<Rightarrow> (string, json) result"
  decode_error :: "json \<Rightarrow> string"
  lossy_text :: "string \<Rightarrow> string"
  status_text :: "nat \<Rightarrow> string"
  json_text :: "json \<Rightarrow> string"

definition success_code :: "nat \<Rightarrow> bool" where
  "success_code c \<longleftrightarrow> 200 \<le> c \<and> c < 300"

section \<open>Configuration\<close>

record openai_config =
  oc_base_url :: string
  oc_default_model :: string
  oc_api_key :: "string option"
  oc_description :: "string option"
  oc_allow_override :: bool

definition base_suffixes :: "string list" where
  "base_suffixes = [''/v1/chat/completions'', ''/api/generate'', ''/v1'']"

definition drop_suffix :: "string \<Rightarrow> string \<Rightarrow> string" where
  "drop_suffix p s = (case strip_suffix p s of Some r \<Rightarrow> trim_end_char CHR ''/'' r | None \<Rightarrow> s)"

definition drop_suffixes :: "string \<Rightarrow> string" where
  "drop_suffixes s = fold drop_suffix base_suffixes s"

lemma drop_suffix_cases:
  obtains "drop_suffix p s = s" "\<not> ends_with p s"
  | r where "s = r @ p" "drop_suffix p s = trim_end_char CHR ''/'' r"
proof (cases "strip_suffix p s")
  case None
  then show ?thesis using that(1) strip_suffix_None [of p s] by (simp add: drop_suffix_def)
next
  case (Some r)
  then have "s = r @ p" by (simp add: strip_suffix_Some)
  moreover have "drop_suffix p s = trim_end_char CHR ''/'' r" using Some by (simp add: drop_suffix_def)
  ultimately show ?thesis using that(2) by blast
qed

lemma drop_suffix_shrinks: "drop_suffix p s = s \<or> length (drop_suffix p s) < length s"
proof (rule drop_suffix_cases [of p s])
  fix r assume s: "s = r @ p" and d: "drop_suffix p s = trim_end_char CHR ''/'' r"
  show ?thesis
  proof (cases "p = []")
    case True
    obtain t where "r = trim_end_char CHR ''/'' r @ t" by (rule trim_end_char_split)
    then show ?thesis using s d True by (cases "t = []") (simp, metis append.right_neutral append_eq_conv_conj length_append length_greater_0_conv less_add_same_cancel1)
  next
    case False
    have "length (drop_suffix p s) \<le> length r" unfolding d by (rule length_trim_end_char)
    moreover have "0 < length p" using False by simp
    ultimately show ?thesis unfolding s by (simp only: length_append) linarith
  qed
qed simp

lemma drop_suffixes_shrinks: "drop_suffixes s \<noteq> s \<Longrightarrow> length (drop_suffixes s) < length s"
proof -
  have "fold drop_suffix ps s = s \<or> length (fold drop_suffix ps s) < length s" for ps
  proof (induction ps arbitrary: s)
    case (Cons p ps)
    from Cons [of "drop_suffix p s"] drop_suffix_shrinks [of p s] show ?case by fastforce
  qed simp
  then show "drop_suffixes s \<noteq> s \<Longrightarrow> length (drop_suffixes s) < length s"
    unfolding drop_suffixes_def by blast
qed

function normalize_loop :: "string \<Rightarrow> string" where
  "normalize_loop s = (if drop_suffixes s = s then s else normalize_loop (drop_suffixes s))"
  by pat_completeness auto
termination by (relation "measure length") (auto simp: drop_suffixes_shrinks)

declare normalize_loop.simps [simp del]

definition normalize_openai_base_url :: "string \<Rightarrow> string" where
  "normalize_openai_base_url url = normalize_loop (trim_end_char CHR ''/'' (trim url))"

definition ollama_local :: "string \<Rightarrow> openai_config" where
  "ollama_local model =
     \<lparr>oc_base_url = ''http://localhost:11434'', oc_default_model = model, oc_api_key = None,
      oc_description = None, oc_allow_override = False\<rparr>"

definition new_openai_backend :: "openai_config \<Rightarrow> openai_config" where
  "new_openai_backend c = c\<lparr>oc_base_url := normalize_openai_base_url (oc_base_url c)\<rparr>"

definition chat_url :: "openai_config \<Rightarrow> string" where
  "chat_url c = trim_end_char CHR ''/'' (oc_base_url c) @ ''/v1/chat/completions''"

definition models_url :: "openai_config \<Rightarrow> string" where
  "models_url c = trim_end_char CHR ''/'' (oc_base_url c) @ ''/v1/models''"

definition auth_header :: "openai_config \<Rightarrow> (string \<times> string) list" where
  "auth_header c =
     (case oc_api_key c of Some key \<Rightarrow> [(''Authorization'', ''Bearer '' @ key)] | None \<Rightarrow> [])"

section \<open>Building a request\<close>

definition CHAT_ARG_ALLOWLIST :: "string list" where
  "CHAT_ARG_ALLOWLIST =
     [''prompt'', ''messages'', ''model'', ''temperature'', ''max_tokens'', ''top_p'', ''stop'',
      ''tools'', ''tool_choice'', ''grammar'', ''response_format'', ''format'']"

definition obj_remove :: "string \<Rightarrow> (string \<times> 'v) list \<Rightarrow> (string \<times> 'v) list" where
  "obj_remove k es = filter (\<lambda>e. fst e \<noteq> k) es"

definition coerce_messages :: "upstream \<Rightarrow> (string \<times> json) list \<Rightarrow> (string \<times> json) list" where
  "coerce_messages up out =
     (case map_of out ''messages'' of
        Some (JStr raw) \<Rightarrow>
          (case parse_json up raw of
             Inr (JArr xs) \<Rightarrow> obj_insert ''messages'' (JArr xs) out
           | _ \<Rightarrow> obj_remove ''messages'' (obj_insert ''prompt'' (JStr raw) out))
      | _ \<Rightarrow> out)"

definition sanitise_chat_args :: "upstream \<Rightarrow> json \<Rightarrow> json" where
  "sanitise_chat_args up args =
     (case args of
        JObj es \<Rightarrow> JObj (coerce_messages up
          (fold (\<lambda>k out. case map_of es k of Some v \<Rightarrow> obj_insert k v out | None \<Rightarrow> out)
            CHAT_ARG_ALLOWLIST []))
      | other \<Rightarrow> other)"

definition apply_model_lock :: "openai_config \<Rightarrow> (string \<times> json) list \<Rightarrow> (string \<times> json) list" where
  "apply_model_lock c es =
     (if oc_allow_override c
      then (case Option.bind (map_of es ''model'') as_str of
              Some m \<Rightarrow> if m = [] then obj_insert ''model'' (JStr (oc_default_model c)) es else es
            | None \<Rightarrow> obj_insert ''model'' (JStr (oc_default_model c)) es)
      else obj_insert ''model'' (JStr (oc_default_model c)) es)"

definition build_request :: "upstream \<Rightarrow> json \<Rightarrow> openai_config \<Rightarrow> (adapter_error, json) result" where
  "build_request up args c =
     (let s = sanitise_chat_args up args in
      case Option.bind (json_get ''prompt'' s) as_str of
        Some p \<Rightarrow> Inr (json_obj [(''model'', JStr (oc_default_model c)),
          (''messages'', JArr [json_obj [(''role'', JStr ''user''), (''content'', JStr p)]]),
          (''stream'', JBool False)])
      | None \<Rightarrow>
          (if json_get ''messages'' s = None
           then Inl (Backend ''invoke args must contain either `prompt` (string) or `messages` (array)'')
           else Inr (case s of
               JObj es \<Rightarrow> JObj (obj_insert ''stream'' (JBool False) (apply_model_lock c es))
             | other \<Rightarrow> other)))"

section \<open>Reading the answer\<close>

record chat_message =
  cm_role :: string
  cm_content :: "string option"
  cm_tool_calls :: "json option"

record chat_choice =
  ch_message :: chat_message
  ch_finish :: "string option"

record chat_completion =
  cc_model :: "string option"
  cc_choices :: "chat_choice list"

definition dec_chat_message :: "json \<Rightarrow> chat_message option" where
  "dec_chat_message j =
     do {
       m \<leftarrow> struct_fields [''role'', ''content'', ''tool_calls''] j;
       r \<leftarrow> field_req as_str m ''role'';
       c \<leftarrow> field_opt as_str m ''content'';
       t \<leftarrow> field_opt Some m ''tool_calls'';
       Some \<lparr>cm_role = r, cm_content = c, cm_tool_calls = t\<rparr>
     }"

definition dec_chat_choice :: "json \<Rightarrow> chat_choice option" where
  "dec_chat_choice j =
     do {
       m \<leftarrow> struct_fields [''message'', ''finish_reason''] j;
       msg \<leftarrow> field_req dec_chat_message m ''message'';
       f \<leftarrow> field_opt as_str m ''finish_reason'';
       Some \<lparr>ch_message = msg, ch_finish = f\<rparr>
     }"

definition dec_chat_completion :: "json \<Rightarrow> chat_completion option" where
  "dec_chat_completion j =
     do {
       m \<leftarrow> struct_fields [''model'', ''choices''] j;
       md \<leftarrow> field_opt as_str m ''model'';
       cs \<leftarrow> field_req (dec_list dec_chat_choice) m ''choices'';
       Some \<lparr>cc_model = md, cc_choices = cs\<rparr>
     }"

definition opt_json :: "string option \<Rightarrow> json" where
  "opt_json o' = (case o' of Some s \<Rightarrow> JStr s | None \<Rightarrow> JNull)"

definition chat_result :: "string option \<Rightarrow> chat_choice \<Rightarrow> json" where
  "chat_result md ch =
     json_obj [(''model'', opt_json md),
       (''message'', json_obj ([(''role'', JStr (cm_role (ch_message ch))),
          (''content'', opt_json (cm_content (ch_message ch)))]
          @ opt_entry ''tool_calls'' id (cm_tool_calls (ch_message ch)))),
       (''finish_reason'', opt_json (ch_finish ch))]"

definition openai_invoke :: "upstream \<Rightarrow> openai_config \<Rightarrow> string \<Rightarrow> json \<Rightarrow> (adapter_error, json) result" where
  "openai_invoke up c cap args =
     (if cap \<noteq> ''chat'' then Inl (AdUnknownCapability cap)
      else case build_request up args c of
        Inl e \<Rightarrow> Inl e
      | Inr req \<Rightarrow>
          (case send_request up \<lparr>rq_method = ''POST'', rq_url = chat_url c, rq_headers = auth_header c,
                 rq_body = Some req, rq_timeout_ms = 120000\<rparr> of
             Inl e \<Rightarrow> Inl (Transport e)
           | Inr (code, bytes) \<Rightarrow>
               if \<not> success_code code
               then Inl (Backend (chat_url c @ '' returned '' @ status_text up code @ '': ''
                 @ lossy_text up bytes))
               else (case parse_json up bytes of
                   Inl e \<Rightarrow> Inl (AdSerde e)
                 | Inr j \<Rightarrow>
                     (case dec_chat_completion j of
                        None \<Rightarrow> Inl (AdSerde (decode_error up j))
                      | Some cc \<Rightarrow>
                          (case cc_choices cc of
                             [] \<Rightarrow> Inl (Backend ''upstream returned no choices'')
                           | first # _ \<Rightarrow> Inr (chat_result (cc_model cc) first))))))"

datatype health_status = Healthy | Degraded | Unhealthy

definition openai_health :: "upstream \<Rightarrow> openai_config \<Rightarrow> health_status" where
  "openai_health up c =
     (case send_request up \<lparr>rq_method = ''GET'', rq_url = models_url c, rq_headers = auth_header c,
            rq_body = None, rq_timeout_ms = 120000\<rparr> of
        Inr (code, _) \<Rightarrow> if success_code code then Healthy else Degraded
      | Inl _ \<Rightarrow> Unhealthy)"

section \<open>Self-description\<close>

definition chat_schema_in :: json where
  "chat_schema_in = json_obj
     [(''type'', JStr ''object''),
      (''oneOf'', JArr
        [json_obj [(''required'', JArr [JStr ''prompt'']),
           (''properties'', json_obj [(''prompt'', json_obj [(''type'', JStr ''string'')]),
              (''model'', json_obj [(''type'', JStr ''string'')])])],
         json_obj [(''required'', JArr [JStr ''messages'']),
           (''properties'', json_obj
             [(''model'', json_obj [(''type'', JStr ''string'')]),
              (''messages'', json_obj [(''type'', JStr ''array''),
                 (''items'', json_obj [(''type'', JStr ''object''),
                    (''required'', JArr [JStr ''role'', JStr ''content'']),
                    (''properties'', json_obj
                      [(''role'', json_obj [(''enum'',
                          JArr [JStr ''system'', JStr ''user'', JStr ''assistant'', JStr ''tool''])]),
                       (''content'', json_obj [(''type'', JStr ''string'')])])])]),
              (''temperature'', json_obj [(''type'', JStr ''number'')]),
              (''max_tokens'', json_obj [(''type'', JStr ''integer'')])])]])]"

definition chat_schema_out :: json where
  "chat_schema_out = json_obj
     [(''type'', JStr ''object''), (''required'', JArr [JStr ''message'']),
      (''properties'', json_obj
        [(''model'', json_obj [(''type'', JArr [JStr ''string'', JStr ''null''])]),
         (''message'', json_obj [(''type'', JStr ''object''),
            (''required'', JArr [JStr ''role'', JStr ''content'']),
            (''properties'', json_obj [(''role'', json_obj [(''type'', JStr ''string'')]),
               (''content'', json_obj [(''type'', JStr ''string'')])])]),
         (''finish_reason'', json_obj [(''type'', JArr [JStr ''string'', JStr ''null''])])])]"

definition chat_example_output :: "string \<Rightarrow> json" where
  "chat_example_output text = json_obj
     [(''model'', JStr ''llama3.1:8b''),
      (''message'', json_obj [(''role'', JStr ''assistant''), (''content'', JStr text)]),
      (''finish_reason'', JStr ''stop'')]"

definition openai_decl :: "openai_config \<Rightarrow> capability_decl" where
  "openai_decl c =
     \<lparr>cap_name = ''chat'',
      description = (case oc_description c of Some d \<Rightarrow> d
        | None \<Rightarrow> ''OpenAI-compatible chat completion via '' @ oc_base_url c
            @ '' (default model: '' @ oc_default_model c @ '').''),
      schema_in = chat_schema_in, schema_out = chat_schema_out, mode = Free, pricing = None,
      tags = [''chat'', ''llm'', ''text-generation'', ''reasoning''], lobe_ids = [],
      examples =
        [\<lparr>user_intent = ''answer a free-form question or generate prose'',
          ex_args = json_obj [(''prompt'', JStr ''Write one haiku about autumn.'')],
          expected_output = chat_example_output
            ''Crimson leaves descend / Wind whispers a fading song / Stillness draws nearer''\<rparr>,
         \<lparr>user_intent = ''translate text between human languages'',
          ex_args = json_obj [(''prompt'', JStr (''Translate to French: '' @ [CHR 0x27] @ ''Good morning, world.'' @ [CHR 0x27]))],
          expected_output = chat_example_output ''Bonjour, monde.''\<rparr>,
         \<lparr>user_intent = ''multi-turn dialogue with system steering'',
          ex_args = json_obj [(''messages'', JArr
            [json_obj [(''role'', JStr ''system''), (''content'', JStr ''You are a concise assistant.'')],
             json_obj [(''role'', JStr ''user''), (''content'', JStr
               ''Summarise: distributed systems trade consistency for availability.'')]])],
          expected_output = chat_example_output ''CAP-theorem tradeoff: pick C or A under partition.''\<rparr>],
      disambiguation = Some (
        ''General-purpose text in / text out. Use for open-ended language tasks (translation, summarisation, ''
        @ ''reasoning, creative writing, Q&A). For deterministic transformations on strings (reverse, length, ''
        @ ''etc.) prefer the dedicated utility caps when available.''),
      negative_examples =
        [\<lparr>ne_user_intent = ''reverse the characters in a string'',
          why_not = ''deterministic utility caps (e.g. `reverse`) are cheaper and exact; ''
            @ ''do not delegate trivial string ops to a chat model.''\<rparr>,
         \<lparr>ne_user_intent = ''pick a random number'',
          why_not = ''LLMs are not uniform RNGs; use `random_int` instead.''\<rparr>],
      output_semantic = Some (''Assistant turn content (the model'' @ [CHR 0x27] @ ''s'' @
        '' reply) plus model id and finish reason; the meaningful payload is `message.content`.''),
      version = ''0.1.0'', languages = [], countries = []\<rparr>"

section \<open>The echo backend\<close>

definition echo_invoke :: "string \<Rightarrow> json \<Rightarrow> (adapter_error, json) result" where
  "echo_invoke cap args = Inr args"

definition echo_decl :: capability_decl where
  "echo_decl =
     \<lparr>cap_name = ''echo'',
      description = ''Returns its input arguments untouched. Useful as a probe or smoke test; ''
        @ ''provides no transformation.'',
      schema_in = json_obj [(''type'', JStr ''object'')], schema_out = json_obj [(''type'', JStr ''object'')],
      mode = Free, pricing = None, tags = [''debug'', ''smoke''], lobe_ids = [],
      examples = [\<lparr>user_intent = ''round-trip a payload to verify reachability'',
        ex_args = json_obj [(''hello'', JStr ''world'')], expected_output = json_obj [(''hello'', JStr ''world'')]\<rparr>],
      disambiguation = Some (
        ''Diagnostic cap only. Never add as an intermediate step in a multi-step plan ''
        @ map char_of [0xE2, 0x80, 0x94 :: nat] @ '' it produces no useful data for downstream consumers.''),
      negative_examples =
        [\<lparr>ne_user_intent = ''transform or format the user input'',
          why_not = ''echo does not modify its input; pick a transformation cap ''
            @ ''(e.g. `reverse`, `string_length`, or a chat cap) instead.''\<rparr>,
         \<lparr>ne_user_intent = ''relay an earlier step'' @ [CHR 0x27] @ ''s result so it appears in the trace'',
          why_not = ''the executor'' @ [CHR 0x27] @ ''s blackboard already carries every step'' @ [CHR 0x27]
            @ ''s result; an echo step is redundant filler.''\<rparr>],
      output_semantic = Some ''Same JSON object the caller supplied.'',
      version = ''0.1.0'', languages = [], countries = []\<rparr>"

section \<open>Lemmas\<close>

lemma length_fold_drop: "length (fold drop_suffix ps s) \<le> length s"
proof (induction ps arbitrary: s)
  case (Cons p ps)
  from Cons [of "drop_suffix p s"] drop_suffix_shrinks [of p s] show ?case by fastforce
qed simp

lemma fold_drop_fixed: "fold drop_suffix ps s = s \<Longrightarrow> p \<in> set ps \<Longrightarrow> drop_suffix p s = s"
proof (induction ps)
  case (Cons q ps)
  have "drop_suffix q s = s"
    using Cons.prems(1) length_fold_drop [of ps "drop_suffix q s"] drop_suffix_shrinks [of q s] by auto
  then show ?case using Cons by auto
qed simp

lemma drop_suffix_fixed: "drop_suffix p s = s \<Longrightarrow> p \<noteq> [] \<Longrightarrow> \<not> ends_with p s"
proof (rule drop_suffix_cases [of p s])
  fix r assume fixed: "drop_suffix p s = s" "p \<noteq> []"
    and r: "s = r @ p" "drop_suffix p s = trim_end_char CHR ''/'' r"
  have "length s \<le> length r" using length_trim_end_char [of "CHR ''/''" r] fixed(1) r(2) by simp
  moreover have "0 < length p" using fixed(2) by simp
  ultimately show ?thesis unfolding r(1) by simp
qed

definition slash_free_end :: "string \<Rightarrow> bool" where
  "slash_free_end s \<longleftrightarrow> trim_end_char CHR ''/'' s = s"

lemma drop_suffixes_slash: "slash_free_end s \<Longrightarrow> slash_free_end (drop_suffixes s)"
proof -
  have "slash_free_end s \<Longrightarrow> slash_free_end (fold drop_suffix ps s)" for ps s
  proof (induction ps arbitrary: s)
    case (Cons p ps)
    have "slash_free_end (drop_suffix p s)"
      using Cons.prems by (rule_tac drop_suffix_cases [of p s]) (simp_all add: slash_free_end_def)
    from Cons.IH [OF this] show ?case by simp
  qed simp
  then show "slash_free_end s \<Longrightarrow> slash_free_end (drop_suffixes s)" by (simp add: drop_suffixes_def)
qed

lemma normalize_loop_result:
  "drop_suffixes (normalize_loop s) = normalize_loop s
    \<and> (slash_free_end s \<longrightarrow> slash_free_end (normalize_loop s))"
proof (induction s rule: normalize_loop.induct)
  case (1 s)
  then show ?case by (subst (1 2 3) normalize_loop.simps) (auto simp: drop_suffixes_slash)
qed

lemma normalized:
  assumes "n = normalize_openai_base_url url" "p \<in> set base_suffixes"
  shows "\<not> ends_with p n" "slash_free_end n"
proof -
  have "slash_free_end (trim_end_char CHR ''/'' (trim url))" by (simp add: slash_free_end_def)
  with normalize_loop_result show "slash_free_end n"
    unfolding assms(1) normalize_openai_base_url_def by blast
  have "drop_suffix p n = n"
    using normalize_loop_result fold_drop_fixed [OF _ assms(2)]
    unfolding assms(1) normalize_openai_base_url_def drop_suffixes_def by blast
  moreover have "p \<noteq> []" using assms(2) by (auto simp: base_suffixes_def)
  ultimately show "\<not> ends_with p n" by (rule drop_suffix_fixed)
qed

lemma keys_remove: "fst ` set (obj_remove k es) = fst ` set es - {k}"
  by (auto simp: obj_remove_def)

lemma keys_insert: "fst ` set (obj_insert k v es) = insert k (fst ` set es)"
  using keys_obj_insert [of k v es] by simp

lemma keys_allowed:
  "fst ` set (fold (\<lambda>k out. case map_of es k of Some v \<Rightarrow> obj_insert k v out | None \<Rightarrow> out) ks out)
     \<subseteq> fst ` set out \<union> set ks"
proof (induction ks arbitrary: out)
  case (Cons k ks)
  from Cons [of "case map_of es k of Some v \<Rightarrow> obj_insert k v out | None \<Rightarrow> out"]
  show ?case by (auto simp: keys_insert split: option.splits)
qed simp

lemma coerce_keys:
  "fst ` set out \<subseteq> set CHAT_ARG_ALLOWLIST \<Longrightarrow> fst ` set (coerce_messages up out) \<subseteq> set CHAT_ARG_ALLOWLIST"
  by (auto simp: coerce_messages_def keys_insert keys_remove CHAT_ARG_ALLOWLIST_def
      split: option.splits json.splits sum.splits)

lemma sanitised_keys:
  assumes "sanitise_chat_args up args = JObj es"
  shows "fst ` set es \<subseteq> set CHAT_ARG_ALLOWLIST"
proof (cases args)
  case (JObj es0)
  have "fst ` set (fold (\<lambda>k out. case map_of es0 k of Some v \<Rightarrow> obj_insert k v out | None \<Rightarrow> out)
      CHAT_ARG_ALLOWLIST []) \<subseteq> set CHAT_ARG_ALLOWLIST"
    using keys_allowed [of es0 CHAT_ARG_ALLOWLIST "[]"] by simp
  from coerce_keys [OF this, of up] assms JObj show ?thesis by (simp only: sanitise_chat_args_def json.simps json.inject)
qed (use assms in \<open>simp_all add: sanitise_chat_args_def\<close>)

section \<open>Properties\<close>

text \<open>
  (one API suffix). Whatever is configured, a backend's base URL ends neither in a slash nor
  in any of the API paths, so that the chat URL has its path exactly once.
\<close>

theorem chat_url_has_one_suffix:
  "chat_url (new_openai_backend c) = oc_base_url (new_openai_backend c) @ ''/v1/chat/completions''
   \<and> list_all (\<lambda>p. \<not> ends_with p (oc_base_url (new_openai_backend c)))
       [''/v1/chat/completions'', ''/api/generate'', ''/v1'', ''/'']"
proof -
  let ?n = "normalize_openai_base_url (oc_base_url c)"
  have "slash_free_end ?n" by (rule normalized(2) [OF refl, of "''/v1''"]) (simp add: base_suffixes_def)
  moreover from this have "\<not> ends_with ''/'' ?n"
    using trim_end_char_last [of "CHR ''/''" ?n] by (auto simp: slash_free_end_def ends_with_iff)
  moreover have "\<not> ends_with p ?n" if "p \<in> set base_suffixes" for p
    by (rule normalized(1) [OF refl that])
  ultimately show ?thesis
    by (simp add: chat_url_def new_openai_backend_def slash_free_end_def base_suffixes_def)
qed

text \<open>
  C28 (the caller does not choose the model). Every request a network-facing backend sends
  upstream names the configured model, is not streaming, and has no field outside the allowlist,
  whatever the arguments of the call were.
\<close>

theorem upstream_request_locked:
  assumes "build_request up args c = Inr r" "\<not> oc_allow_override c"
  shows "json_get ''model'' r = Some (JStr (oc_default_model c))
    \<and> json_get ''stream'' r = Some (JBool False)
    \<and> (\<exists>es. r = JObj es \<and> fst ` set es \<subseteq> insert ''stream'' (set CHAT_ARG_ALLOWLIST))"
proof (cases "Option.bind (json_get ''prompt'' (sanitise_chat_args up args)) as_str")
  case (Some p)
  then have r: "r = json_obj [(''model'', JStr (oc_default_model c)),
      (''messages'', JArr [json_obj [(''role'', JStr ''user''), (''content'', JStr p)]]), (''stream'', JBool False)]"
    using assms(1) by (simp add: build_request_def)
  have "fst ` set (obj_of [(''model'', JStr (oc_default_model c)),
      (''messages'', JArr [json_obj [(''role'', JStr ''user''), (''content'', JStr p)]]), (''stream'', JBool False)])
    \<subseteq> insert ''stream'' (set CHAT_ARG_ALLOWLIST)"
    by (simp add: obj_of_def keys_insert CHAT_ARG_ALLOWLIST_def del: obj_insert.simps)
  then show ?thesis by (simp add: r) (auto simp: json_obj_def)
next
  case None
  with assms(1) obtain es where es: "sanitise_chat_args up args = JObj es"
    "r = JObj (obj_insert ''stream'' (JBool False) (apply_model_lock c es))"
    by (cases "sanitise_chat_args up args") (auto simp: build_request_def Let_def split: if_splits)
  have "''model'' \<in> set CHAT_ARG_ALLOWLIST" by (simp add: CHAT_ARG_ALLOWLIST_def)
  then show ?thesis
    using es(2) sanitised_keys [OF es(1)] assms(2) by (auto simp: apply_model_lock_def keys_insert)
qed

lemma upstream_request_locked_witness:
  "json_get ''model'' (json_obj [(''model'', JStr ''qwen''), (''messages'', JArr []), (''stream'', JBool False)])
     = Some (JStr ''qwen'')"
proof -
  let ?up = "\<lparr>send_request = (\<lambda>_. Inl []), parse_json = (\<lambda>_. Inl []), decode_error = (\<lambda>_. []),
    lossy_text = id, status_text = dec, json_text = print_json\<rparr>"
  let ?c = "ollama_local ''qwen''"
  have "build_request ?up (json_obj [(''messages'', JArr []), (''model'', JStr ''gpt''), (''api_key'', JStr ''x'')]) ?c
      = Inr (json_obj [(''model'', JStr ''qwen''), (''messages'', JArr []), (''stream'', JBool False)])"
    by code_simp
  from upstream_request_locked [OF this] show ?thesis by (simp add: ollama_local_def)
qed

end
