(* ===== verification/Manifest.thy ===== *)
theory Manifest
  imports Adapter_OpenAI
begin

text \<open>
  \<open>crates/node/src/manifest/\<close>: the backend and capability manifests and what their parser
  accepts. Files, TOML, semver and JSON Schema compilation are parameters (\<open>manifest_env\<close>);
  a TOML value arrives as the JSON value serde makes of it. A hash map is the list of its
  entries in iteration order.
\<close>

section \<open>Files as TOML gives them\<close>

record prompt_section =
  ps_system :: string
  ps_user_template :: "string option"
  ps_parameters :: "(string \<times> json) list"
  ps_output_parser :: "string option"
  ps_model :: "string option"

record mcp_section =
  xs_tool :: string
  xs_arg_mapping :: "(string \<times> json) list"
  xs_result_mapping :: "(string \<times> json) list"

record http_section =
  hs_url_template :: string
  hs_method :: string
  hs_headers :: "(string \<times> string) list"
  hs_body_template :: "json option"
  hs_response_path :: "string option"
  hs_timeout_ms :: "int option"

record binding_header =
  bh_kind :: string
  bh_backend :: string
  bh_prompt :: "prompt_section option"
  bh_mcp :: "mcp_section option"
  bh_http :: "http_section option"

record backend_file =
  bf_version :: string
  bf_name :: string
  bf_kind :: string
  bf_extras :: "string \<rightharpoonup> json"

record cap_file =
  cf_version :: string
  cf_descriptor :: capability_decl
  cf_binding :: binding_header

record manifest_env =
  read_file :: "string \<Rightarrow> (string, string) result"
  backend_toml :: "string \<Rightarrow> (string, backend_file) result"
  cap_toml :: "string \<Rightarrow> (string, cap_file) result"
  semver_fault :: "string \<Rightarrow> string option"
  schema_fault :: "json \<Rightarrow> string option"
  dir_entries :: "string \<Rightarrow> string list option"

section \<open>The normalised manifests\<close>

record backend_openai =
  bo_base_url :: string
  bo_default_model :: string
  bo_api_key :: string

datatype mcp_transport = Stdio | HttpSse

record mcp_server_config =
  mc_transport :: mcp_transport
  mc_command :: string
  mc_args :: "string list"
  mc_env :: "(string \<times> string) list"

record http_base_config =
  hb_base_url :: string
  hb_headers :: "(string \<times> string) list"

datatype backend_kind =
    OpenAICompat backend_openai
  | McpServer mcp_server_config
  | HttpBase http_base_config

record backend_manifest =
  bm_name :: string
  bm_kind :: backend_kind

datatype output_parser = ParseText | ParseJson

datatype http_method = Get | Post | Put | Delete

record prompt_spec =
  pb_backend :: string
  pb_system :: string
  pb_user_template :: "string option"
  pb_parameters :: "(string \<times> json) list"
  pb_parser :: output_parser
  pb_model :: "string option"

record mcp_spec =
  mb_backend :: string
  mb_tool :: string
  mb_arg_mapping :: "(string \<times> json) list"
  mb_result_mapping :: "(string \<times> json) list"

record http_spec =
  htb_backend :: string
  htb_url_template :: string
  htb_method :: http_method
  htb_headers :: "(string \<times> string) list"
  htb_body_template :: "json option"
  htb_response_path :: "string option"
  htb_timeout_ms :: "int option"

datatype binding_spec = PromptSpec prompt_spec | McpSpec mcp_spec | HttpSpec http_spec

fun spec_backend :: "binding_spec \<Rightarrow> string" where
  "spec_backend (PromptSpec s) = pb_backend s"
| "spec_backend (McpSpec s) = mb_backend s"
| "spec_backend (HttpSpec s) = htb_backend s"

record capability_manifest =
  cap_descriptor :: capability_decl
  cap_binding :: binding_spec

datatype manifest_error =
    ManifestIo string string
  | ManifestToml string string
  | ManifestInvalid string string

section \<open>Checks shared by both kinds of file\<close>

definition SUPPORTED_FORMAT_VERSION :: string where
  "SUPPORTED_FORMAT_VERSION = ''0.1''"

definition validate_format_version :: "string \<Rightarrow> string \<Rightarrow> (manifest_error, unit) result" where
  "validate_format_version pth v =
     (if v \<noteq> SUPPORTED_FORMAT_VERSION
      then Inl (ManifestInvalid pth (''manifest.version is `'' @ v @ ''`; this runtime supports `''
        @ SUPPORTED_FORMAT_VERSION @ ''`''))
      else Inr ())"

definition plausible_char :: "char \<Rightarrow> bool" where
  "plausible_char c \<longleftrightarrow> is_ascii_alphanumeric c \<or> c = CHR ''-''"

definition is_plausible_bcp47 :: "string \<Rightarrow> bool" where
  "is_plausible_bcp47 tag \<longleftrightarrow>
     2 \<le> length (chars tag) \<and> length (chars tag) \<le> 35 \<and> list_all (ascii_char plausible_char) (chars tag)"

definition is_plausible_iso_country :: "string \<Rightarrow> bool" where
  "is_plausible_iso_country c \<longleftrightarrow>
     length (chars c) = 2 \<and> list_all (ascii_char is_ascii_uppercase) (chars c)"

definition is_object :: "json \<Rightarrow> bool" where
  "is_object j \<longleftrightarrow> as_object j \<noteq> None"

text \<open>The checks in the order of the code; the first that fails is reported.\<close>

definition descriptor_faults :: "manifest_env \<Rightarrow> capability_decl \<Rightarrow> string option list" where
  "descriptor_faults me d =
     [if trim (cap_name d) = [] then Some ''descriptor.name is empty'' else None,
      if trim (description d) = [] then Some ''descriptor.description is empty'' else None,
      map_option (\<lambda>e. ''descriptor.version `'' @ version d @ ''` is not valid semver: '' @ e)
        (semver_fault me (version d)),
      if \<not> is_object (schema_in d) then Some ''descriptor.schema_in must be a JSON object'' else None,
      if \<not> is_object (schema_out d) then Some ''descriptor.schema_out must be a JSON object'' else None,
      map_option (\<lambda>e. ''descriptor.schema_in is not a valid JSON Schema: '' @ e) (schema_fault me (schema_in d)),
      map_option (\<lambda>e. ''descriptor.schema_out is not a valid JSON Schema: '' @ e) (schema_fault me (schema_out d))]
     @ map (\<lambda>l. if is_plausible_bcp47 l then None
         else Some (''descriptor.languages contains implausible BCP 47 tag `'' @ l @ ''`'')) (languages d)
     @ map (\<lambda>c. if is_plausible_iso_country c then None
         else Some (''descriptor.countries contains implausible ISO 3166-1 alpha-2 code `'' @ c @ ''`''))
       (countries d)"

fun first_fault :: "string option list \<Rightarrow> string option" where
  "first_fault [] = None"
| "first_fault (Some e # fs) = Some e"
| "first_fault (None # fs) = first_fault fs"

definition validate_descriptor :: "manifest_env \<Rightarrow> string \<Rightarrow> capability_decl \<Rightarrow> (manifest_error, unit) result"
where
  "validate_descriptor me pth d =
     (case first_fault (descriptor_faults me d) of
        Some m \<Rightarrow> Inl (ManifestInvalid pth m) | None \<Rightarrow> Inr ())"

section \<open>Bindings\<close>

definition output_parser_of :: "string \<Rightarrow> string option \<Rightarrow> (manifest_error, output_parser) result" where
  "output_parser_of pth p =
     (let name = (case p of Some s \<Rightarrow> s | None \<Rightarrow> ''text'') in
      if name = ''text'' then Inr ParseText
      else if name = ''json'' then Inr ParseJson
      else Inl (ManifestInvalid pth (''output_parser `'' @ name @ ''` invalid (text|json)'')))"

definition http_method_of :: "string \<Rightarrow> string \<Rightarrow> (manifest_error, http_method) result" where
  "http_method_of pth m =
     (let name = to_ascii_uppercase m in
      if name = ''GET'' then Inr Get
      else if name = ''POST'' then Inr Post
      else if name = ''PUT'' then Inr Put
      else if name = ''DELETE'' then Inr Delete
      else Inl (ManifestInvalid pth (''http.method `'' @ name @ ''` invalid (GET|POST|PUT|DELETE)'')))"

definition build_binding_spec :: "string \<Rightarrow> binding_header \<Rightarrow> (manifest_error, binding_spec) result" where
  "build_binding_spec pth b =
     (if trim (bh_backend b) = []
      then Inl (ManifestInvalid pth ''binding.backend must reference a backend by name'')
      else if bh_kind b = ''prompt'' then
        (case bh_prompt b of
           None \<Rightarrow> Inl (ManifestInvalid pth ''binding.type=prompt requires [binding.prompt] section'')
         | Some s \<Rightarrow>
             (case output_parser_of pth (ps_output_parser s) of
                Inl e \<Rightarrow> Inl e
              | Inr parser \<Rightarrow> Inr (PromptSpec
                  \<lparr>pb_backend = bh_backend b, pb_system = ps_system s,
                   pb_user_template = ps_user_template s, pb_parameters = ps_parameters s,
                   pb_parser = parser, pb_model = ps_model s\<rparr>)))
      else if bh_kind b = ''mcp'' then
        (case bh_mcp b of
           None \<Rightarrow> Inl (ManifestInvalid pth ''binding.type=mcp requires [binding.mcp] section'')
         | Some s \<Rightarrow>
             if trim (xs_tool s) = [] then Inl (ManifestInvalid pth ''binding.mcp.tool_name is empty'')
             else Inr (McpSpec \<lparr>mb_backend = bh_backend b, mb_tool = xs_tool s,
               mb_arg_mapping = xs_arg_mapping s, mb_result_mapping = xs_result_mapping s\<rparr>))
      else if bh_kind b = ''http'' then
        (case bh_http b of
           None \<Rightarrow> Inl (ManifestInvalid pth ''binding.type=http requires [binding.http] section'')
         | Some s \<Rightarrow>
             (case http_method_of pth (hs_method s) of
                Inl e \<Rightarrow> Inl e
              | Inr m \<Rightarrow> Inr (HttpSpec
                  \<lparr>htb_backend = bh_backend b, htb_url_template = hs_url_template s, htb_method = m,
                   htb_headers = hs_headers s, htb_body_template = hs_body_template s,
                   htb_response_path = hs_response_path s, htb_timeout_ms = hs_timeout_ms s\<rparr>)))
      else Inl (ManifestInvalid pth (''binding.type `'' @ bh_kind b @ ''` invalid (prompt|mcp|http)'')))"

definition parse_cap_file :: "manifest_env \<Rightarrow> string \<Rightarrow> (manifest_error, capability_manifest) result" where
  "parse_cap_file me pth =
     (case read_file me pth of
        Inl e \<Rightarrow> Inl (ManifestIo pth e)
      | Inr raw \<Rightarrow>
          (case cap_toml me raw of
             Inl e \<Rightarrow> Inl (ManifestToml pth e)
           | Inr f \<Rightarrow>
               (case validate_format_version pth (cf_version f) of
                  Inl e \<Rightarrow> Inl e
                | Inr _ \<Rightarrow>
                    (case validate_descriptor me pth (cf_descriptor f) of
                       Inl e \<Rightarrow> Inl e
                     | Inr _ \<Rightarrow>
                         (case build_binding_spec pth (cf_binding f) of
                            Inl e \<Rightarrow> Inl e
                          | Inr b \<Rightarrow> Inr \<lparr>cap_descriptor = cf_descriptor f, cap_binding = b\<rparr>)))))"

section \<open>Backends\<close>

definition section_of :: "string \<Rightarrow> string \<Rightarrow> (string \<rightharpoonup> json) \<Rightarrow> (manifest_error, json) result" where
  "section_of pth name extras =
     (case extras name of
        None \<Rightarrow> Inl (ManifestInvalid pth (''['' @ name @ ''] section missing''))
      | Some j \<Rightarrow> if is_object j then Inr j
          else Inl (ManifestInvalid pth (''['' @ name @ ''] must be a table'')))"

definition str_field :: "string \<Rightarrow> json \<Rightarrow> string option" where
  "str_field k j = Option.bind (json_get k j) as_str"

definition required :: "string \<Rightarrow> string \<Rightarrow> string option \<Rightarrow> (manifest_error, string) result" where
  "required pth what v =
     (case v of Some s \<Rightarrow> Inr s | None \<Rightarrow> Inl (ManifestInvalid pth (what @ '' required'')))"

definition str_entries :: "json option \<Rightarrow> (string \<times> string) list" where
  "str_entries j =
     (case Option.bind j as_object of
        None \<Rightarrow> []
      | Some es \<Rightarrow> List.map_filter (\<lambda>(k, v). map_option (\<lambda>s. (k, s)) (as_str v)) es)"

definition take_openai_compat :: "string \<Rightarrow> (string \<rightharpoonup> json) \<Rightarrow> (manifest_error, backend_openai) result" where
  "take_openai_compat pth extras =
     (case section_of pth ''openai_compat'' extras of
        Inl e \<Rightarrow> Inl e
      | Inr s \<Rightarrow>
          (case required pth ''openai_compat.base_url'' (str_field ''base_url'' s) of
             Inl e \<Rightarrow> Inl e
           | Inr url \<Rightarrow>
               (case required pth ''openai_compat.default_model'' (str_field ''default_model'' s) of
                  Inl e \<Rightarrow> Inl e
                | Inr model \<Rightarrow> Inr
                    \<lparr>bo_base_url = normalize_openai_base_url url, bo_default_model = model,
                     bo_api_key = (case str_field ''api_key'' s of Some k \<Rightarrow> k | None \<Rightarrow> [])\<rparr>)))"

definition mcp_transport_of :: "string \<Rightarrow> string option \<Rightarrow> (manifest_error, mcp_transport) result" where
  "mcp_transport_of pth t =
     (let name = (case t of Some s \<Rightarrow> s | None \<Rightarrow> ''stdio'') in
      if name = ''stdio'' then Inr Stdio
      else if name = ''http_sse'' then Inr HttpSse
      else Inl (ManifestInvalid pth (''mcp_server.transport `'' @ name @ ''` invalid (stdio|http_sse)'')))"

definition take_mcp_server :: "string \<Rightarrow> (string \<rightharpoonup> json) \<Rightarrow> (manifest_error, mcp_server_config) result" where
  "take_mcp_server pth extras =
     (case section_of pth ''mcp_server'' extras of
        Inl e \<Rightarrow> Inl e
      | Inr s \<Rightarrow>
          (case mcp_transport_of pth (str_field ''transport'' s) of
             Inl e \<Rightarrow> Inl e
           | Inr t \<Rightarrow>
               (case required pth ''mcp_server.command'' (str_field ''command'' s) of
                  Inl e \<Rightarrow> Inl e
                | Inr c \<Rightarrow> Inr
                    \<lparr>mc_transport = t, mc_command = c,
                     mc_args = (case Option.bind (json_get ''args'' s) as_array of
                         Some xs \<Rightarrow> List.map_filter as_str xs | None \<Rightarrow> []),
                     mc_env = str_entries (json_get ''env'' s)\<rparr>)))"

definition take_http_base :: "string \<Rightarrow> (string \<rightharpoonup> json) \<Rightarrow> (manifest_error, http_base_config) result" where
  "take_http_base pth extras =
     (case section_of pth ''http_base'' extras of
        Inl e \<Rightarrow> Inl e
      | Inr s \<Rightarrow>
          (case required pth ''http_base.base_url'' (str_field ''base_url'' s) of
             Inl e \<Rightarrow> Inl e
           | Inr url \<Rightarrow> Inr \<lparr>hb_base_url = url, hb_headers = str_entries (json_get ''headers'' s)\<rparr>))"

definition backend_kind_of :: "string \<Rightarrow> backend_file \<Rightarrow> (manifest_error, backend_kind) result" where
  "backend_kind_of pth f =
     (if bf_kind f = ''openai_compat'' then map_sum id OpenAICompat (take_openai_compat pth (bf_extras f))
      else if bf_kind f = ''mcp_server'' then map_sum id McpServer (take_mcp_server pth (bf_extras f))
      else if bf_kind f = ''http_base'' then map_sum id HttpBase (take_http_base pth (bf_extras f))
      else Inl (ManifestInvalid pth (''unknown backend.kind `'' @ bf_kind f
        @ ''` (expected one of: openai_compat, mcp_server, http_base)'')))"

definition parse_backend_file :: "manifest_env \<Rightarrow> string \<Rightarrow> (manifest_error, backend_manifest) result" where
  "parse_backend_file me pth =
     (case read_file me pth of
        Inl e \<Rightarrow> Inl (ManifestIo pth e)
      | Inr raw \<Rightarrow>
          (case backend_toml me raw of
             Inl e \<Rightarrow> Inl (ManifestToml pth e)
           | Inr f \<Rightarrow>
               (case validate_format_version pth (bf_version f) of
                  Inl e \<Rightarrow> Inl e
                | Inr _ \<Rightarrow>
                    (case backend_kind_of pth f of
                       Inl e \<Rightarrow> Inl e
                     | Inr k \<Rightarrow>
                         if trim (bf_name f) = [] then Inl (ManifestInvalid pth ''backend.name is empty'')
                         else Inr \<lparr>bm_name = trim (bf_name f), bm_kind = k\<rparr>))))"

section \<open>Directories\<close>

definition file_name :: "string \<Rightarrow> string" where
  "file_name pth = last (split_on CHR ''/'' pth)"

definition has_toml_extension :: "string \<Rightarrow> bool" where
  "has_toml_extension pth \<longleftrightarrow> ends_with ''.toml'' (file_name pth) \<and> 5 < length (file_name pth)"

definition list_toml :: "manifest_env \<Rightarrow> string \<Rightarrow> string list" where
  "list_toml me dir =
     (case dir_entries me dir of None \<Rightarrow> [] | Some ps \<Rightarrow> sort (filter has_toml_extension ps))"

definition load_backend_dir :: "manifest_env \<Rightarrow> string \<Rightarrow> (manifest_error, backend_manifest) result list" where
  "load_backend_dir me dir = map (parse_backend_file me) (list_toml me dir)"

definition load_cap_dir :: "manifest_env \<Rightarrow> string \<Rightarrow> (manifest_error, capability_manifest) result list" where
  "load_cap_dir me dir = map (parse_cap_file me) (list_toml me dir)"

section \<open>Lemmas\<close>

lemma first_fault_None: "first_fault fs = None \<longleftrightarrow> list_all (\<lambda>f. f = None) fs"
  by (induction fs rule: first_fault.induct) auto

lemma validate_descriptor_ok:
  "validate_descriptor me pth d = Inr () \<longleftrightarrow> list_all (\<lambda>f. f = None) (descriptor_faults me d)"
  by (simp add: validate_descriptor_def split: option.split flip: first_fault_None)

lemma fault_if: "(if c then Some x else None) = None \<longleftrightarrow> \<not> c" "(if c then None else Some x) = None \<longleftrightarrow> c"
  by simp_all

lemma no_faults:
  "list_all (\<lambda>f. f = None) (descriptor_faults me d) \<longleftrightarrow>
     trim (cap_name d) \<noteq> [] \<and> trim (description d) \<noteq> [] \<and> semver_fault me (version d) = None
     \<and> is_object (schema_in d) \<and> is_object (schema_out d) \<and> schema_fault me (schema_in d) = None
     \<and> schema_fault me (schema_out d) = None \<and> list_all is_plausible_bcp47 (languages d)
     \<and> list_all is_plausible_iso_country (countries d)"
  unfolding descriptor_faults_def list_all_append list.pred_map comp_def list.pred_inject fault_if
  by (simp only: option.map_disc_iff not_not simp_thms conj_assoc list.pred_inject)

lemma plausible_bcp47_iff:
  "is_plausible_bcp47 t \<longleftrightarrow> 2 \<le> length t \<and> length t \<le> 35 \<and> list_all plausible_char t"
proof -
  have bound: "plausible_char c \<Longrightarrow> byte c < 128" for c
    by (auto simp: plausible_char_def dest: ascii_class_bound)
  have "list_all (ascii_char plausible_char) (chars t) \<longleftrightarrow> list_all plausible_char t"
    using chars_all_ascii [of plausible_char t] bound by (simp add: list_all_iff)
  moreover have "list_all plausible_char t \<Longrightarrow> length (chars t) = length t"
    using bound by (simp add: chars_ascii is_ascii_def list_all_iff)
  ultimately show ?thesis by (auto simp: is_plausible_bcp47_def)
qed

lemma spec_backend_named:
  "build_binding_spec pth b = Inr s \<Longrightarrow> spec_backend s = bh_backend b \<and> trim (spec_backend s) \<noteq> []"
  by (auto simp: build_binding_spec_def split: if_splits option.splits sum.splits)

section \<open>Properties\<close>

text \<open>
  (what a capability manifest must be). A capability file that parses has the supported
  version, a name and a description that are not blank, a semver version, schemas that are
  objects and compile, plausible locale tags, and a binding that names a backend.
\<close>

theorem cap_manifest_checked:
  assumes "parse_cap_file me pth = Inr m"
  shows "trim (cap_name (cap_descriptor m)) \<noteq> [] \<and> trim (description (cap_descriptor m)) \<noteq> []
    \<and> semver_fault me (version (cap_descriptor m)) = None
    \<and> is_object (schema_in (cap_descriptor m)) \<and> schema_fault me (schema_in (cap_descriptor m)) = None
    \<and> is_object (schema_out (cap_descriptor m)) \<and> schema_fault me (schema_out (cap_descriptor m)) = None
    \<and> list_all (\<lambda>t. 2 \<le> length t \<and> length t \<le> 35 \<and> list_all plausible_char t) (languages (cap_descriptor m))
    \<and> trim (spec_backend (cap_binding m)) \<noteq> []"
proof -
  obtain raw f where "read_file me pth = Inr raw" "cap_toml me raw = Inr f"
    using assms by (auto simp: parse_cap_file_def split: sum.splits)
  then have f: "validate_descriptor me pth (cf_descriptor f) = Inr ()"
    "build_binding_spec pth (cf_binding f) = Inr (cap_binding m)" "cap_descriptor m = cf_descriptor f"
    using assms by (auto simp: parse_cap_file_def split: sum.splits)
  have all: "list_all (\<lambda>x. x = None) (descriptor_faults me (cap_descriptor m))"
    using f(1,3) by (simp add: validate_descriptor_ok)
  note checks = all [unfolded no_faults]
  then have langs: "list_all (\<lambda>t. 2 \<le> length t \<and> length t \<le> 35 \<and> list_all plausible_char t)
      (languages (cap_descriptor m))"
    by (simp add: plausible_bcp47_iff list_all_iff)
  show ?thesis
    using checks langs spec_backend_named [OF f(2)] by blast
qed

definition toy_manifest_env :: manifest_env where
  "toy_manifest_env =
     \<lparr>read_file = (\<lambda>p. if p = ''caps/echo.toml'' then Inr ''echo'' else Inl ''not found''),
      backend_toml = (\<lambda>_. Inl ''bad''),
      cap_toml = (\<lambda>_. Inr \<lparr>cf_version = ''0.1'', cf_descriptor = echo_decl,
        cf_binding = \<lparr>bh_kind = ''mcp'', bh_backend = ''tools'', bh_prompt = None,
          bh_mcp = Some \<lparr>xs_tool = ''echo'', xs_arg_mapping = [], xs_result_mapping = []\<rparr>,
          bh_http = None\<rparr>\<rparr>),
      semver_fault = (\<lambda>_. None), schema_fault = (\<lambda>_. None),
      dir_entries = (\<lambda>d. if d = ''caps'' then Some [''caps/echo.toml'', ''caps/.toml''] else None)\<rparr>"

lemma cap_manifest_checked_witness:
  "trim (cap_name echo_decl) \<noteq> [] \<and> is_object (schema_in echo_decl)"
proof -
  have "parse_cap_file toy_manifest_env ''caps/echo.toml'' = Inr \<lparr>cap_descriptor = echo_decl, cap_binding =
    McpSpec \<lparr>mb_backend = ''tools'', mb_tool = ''echo'', mb_arg_mapping = [], mb_result_mapping = []\<rparr>\<rparr>"
    by code_simp
  from cap_manifest_checked [OF this] show ?thesis by simp
qed

end
