(* ===== verification/Error_Text.thy ===== *)
theory Error_Text
  imports Node_Registry
begin

text \<open>
  The \<open>Display\<close> renderings of the error types of \<open>core\<close>, \<open>adapters\<close> and \<open>node\<close>, which the
  code stores in outcomes and journals.
\<close>

fun core_error_text :: "core_error \<Rightarrow> string" where
  "core_error_text (InvalidIdentifier s) = ''invalid identifier format: '' @ s"
| "core_error_text SignatureInvalid = ''signature verification failed''"
| "core_error_text (RecipientMismatch e a) = ''recipient mismatch: expected '' @ e @ '', got '' @ a"
| "core_error_text TimestampOutOfWindow = ''timestamp out of acceptable window''"
| "core_error_text ReplayDetected = ''nonce already seen (replay)''"
| "core_error_text (Canonical s) = ''canonical serialization failed: '' @ s"
| "core_error_text (Crypto s) = ''crypto error: '' @ s"
| "core_error_text (SerdeError s) = ''serde error: '' @ s"

fun adapter_error_text :: "adapter_error \<Rightarrow> string" where
  "adapter_error_text (AdUnknownCapability s) = ''capability not found: '' @ s"
| "adapter_error_text (Transport s) = ''backend transport: '' @ s"
| "adapter_error_text (Backend s) = ''backend returned error: '' @ s"
| "adapter_error_text (AdSerde s) = ''serde: '' @ s"

fun template_error_text :: "template_error \<Rightarrow> string" where
  "template_error_text (PathNotFound p) = ''template references `'' @ p @ ''` which is not present in args''"
| "template_error_text (UnknownRoot n) =
     ''template references `'' @ n @ ''` which is not a known root (expected `args`)''"

fun node_error_text :: "node_error \<Rightarrow> string" where
  "node_error_text (Core e) = core_error_text e"
| "node_error_text (Storage s) = s"
| "node_error_text (Adapter e) = adapter_error_text e"
| "node_error_text Replay = ''nonce already seen (replay)''"
| "node_error_text (UnknownCapability s) = ''capability not found: '' @ s"
| "node_error_text (InvalidPayload s) = ''invalid payload for verb: '' @ s"
| "node_error_text (PartialReload n r) =
     ''backends reloaded ('' @ dec n @ '') but cap rebind failed: '' @ r"
| "node_error_text (IdentityFile s) = ''identity file: '' @ s"
| "node_error_text (Io s) = ''io: '' @ s"
| "node_error_text (NodeSerde s) = ''serde: '' @ s"
| "node_error_text (UnresolvedMentions ms) = ''unknown reference: '' @ join '', '' ms"
| "node_error_text (Template e) = ''template: '' @ template_error_text e"

end
