(* ===== verification/Bind_Runtime.thy ===== *)
theory Bind_Runtime
  imports Manifest Error_Text
begin

text \<open>
  \<open>crates/node/src/bindings/\<close> and \<open>backends_registry.rs\<close>: the live backends, the three kinds
  of binding and what one invocation of each does. JSONPath and the MCP subprocess are
  parameters: the process is the lines it has printed after each message it was sent. A server
  that neither prints nor closes its output keeps its caller waiting, and is not modelled.
\<close>

section \<open>Live backends\<close>

record http_backend =
  hk_base_url :: string
  hk_headers :: "(string \<times> string) list"

datatype backend_instance = LiveOpenAI openai_config | LiveHttp http_backend | LiveMcp mcp_server_config

definition new_http_backend :: "http_base_config \<Rightarrow> (string, http_backend) result" where
  "new_http_backend c =
     (if trim (hb_base_url c) = [] then Inl (''invalid base_url `'' @ hb_base_url c @ ''`'')
      else Inr \<lparr>hk_base_url = trim_end_char CHR ''/'' (hb_base_url c), hk_headers = hb_headers c\<rparr>)"

definition build_backend_instance :: "backend_manifest \<Rightarrow> (node_error, backend_instance) result" where
  "build_backend_instance m =
     (case bm_kind m of
        OpenAICompat c \<Rightarrow> Inr (LiveOpenAI (new_openai_backend
          \<lparr>oc_base_url = bo_base_url c, oc_default_model = bo_default_model c,
           oc_api_key = (if bo_api_key c = [] then None else Some (bo_api_key c)),
           oc_description = None, oc_allow_override = False\<rparr>))
      | HttpBase c \<Rightarrow>
          (case new_http_backend c of
             Inl e \<Rightarrow> Inl (InvalidPayload (''http backend init: '' @ e))
           | Inr b \<Rightarrow> Inr (LiveHttp b))
      | McpServer c \<Rightarrow> Inr (LiveMcp c))"

type_synonym backends = "string \<rightharpoonup> backend_instance"

fun backends_from :: "backend_manifest list \<Rightarrow> backends \<Rightarrow> (node_error, backends) result" where
  "backends_from [] acc = Inr acc"
| "backends_from (m # ms) acc =
     (case build_backend_instance m of
        Inl e \<Rightarrow> Inl e
      | Inr b \<Rightarrow> backends_from ms (acc(bm_name m \<mapsto> b)))"

definition require_backend :: "backends \<Rightarrow> string \<Rightarrow> (node_error, backend_instance) result" where
  "require_backend bs name =
     (case bs name of
        Some b \<Rightarrow> Inr b
      | None \<Rightarrow> Inl (InvalidPayload (''capability references backend `'' @ name
          @ ''` which is not declared in backends/'')))"

section \<open>Bindings\<close>

datatype binding =
    PromptBinding openai_config prompt_spec
  | HttpBinding http_backend http_spec
  | McpBinding mcp_server_config mcp_spec

fun binding_kind :: "binding \<Rightarrow> string" where
  "binding_kind (PromptBinding _ _) = ''prompt''"
| "binding_kind (HttpBinding _ _) = ''http''"
| "binding_kind (McpBinding _ _) = ''mcp''"

definition build_binding :: "binding_spec \<Rightarrow> backend_instance \<Rightarrow> (node_error, binding) result" where
  "build_binding spec b =
     (case (spec, b) of
        (PromptSpec s, LiveOpenAI c) \<Rightarrow> Inr (PromptBinding c s)
      | (HttpSpec s, LiveHttp h) \<Rightarrow> Inr (HttpBinding h s)
      | (McpSpec s, LiveMcp m) \<Rightarrow> Inr (McpBinding m s)
      | (PromptSpec s, _) \<Rightarrow> Inl (InvalidPayload (''prompt binding requires an `openai_compat` backend; `''
          @ pb_backend s @ ''` is a different kind''))
      | (HttpSpec s, _) \<Rightarrow> Inl (InvalidPayload (''http binding requires an `http_base` backend; `''
          @ htb_backend s @ ''` is a different kind''))
      | (McpSpec s, _) \<Rightarrow> Inl (InvalidPayload (''mcp binding requires an `mcp_server` backend; `''
          @ mb_backend s @ ''` is a different kind'')))"

section \<open>The prompt binding\<close>

definition set_fields :: "(string \<times> json) list \<Rightarrow> (string \<times> json) list \<Rightarrow> (string \<times> json) list" where
  "set_fields new es = fold (\<lambda>(k, v). obj_insert k v) new es"

definition prompt_payload :: "prompt_spec \<Rightarrow> string \<Rightarrow> json" where
  "prompt_payload s user =
     JObj (set_fields (pb_parameters s @ opt_entry ''model'' JStr (pb_model s))
       (obj_of [(''messages'', JArr
          [json_obj [(''role'', JStr ''system''), (''content'', JStr (pb_system s))],
           json_obj [(''role'', JStr ''user''), (''content'', JStr user)]])]))"

definition prompt_user :: "upstream \<Rightarrow> prompt_spec \<Rightarrow> json \<Rightarrow> (node_error, string) result" where
  "prompt_user up s args =
     (case pb_user_template s of
        None \<Rightarrow> Inr (json_text up args)
      | Some t \<Rightarrow>
          (case render (json_text up) args t of
             Inl e \<Rightarrow> Inl (Template e)
           | Inr v \<Rightarrow> Inr (value_to_text (json_text up) v)))"

definition message_content :: "json \<Rightarrow> string option" where
  "message_content r = Option.bind (Option.bind (json_get ''message'' r) (json_get ''content'')) as_str"

definition take_chars :: "nat \<Rightarrow> string \<Rightarrow> string" where
  "take_chars n s = concat (take n (chars s))"

definition prompt_output :: "upstream \<Rightarrow> output_parser \<Rightarrow> string \<Rightarrow> (node_error, json) result" where
  "prompt_output up p content =
     (case p of
        ParseText \<Rightarrow> Inr (json_obj [(''text'', JStr content)])
      | ParseJson \<Rightarrow>
          (case parse_json up content of
             Inl e \<Rightarrow> Inl (InvalidPayload (''prompt binding: output_parser=json failed: '' @ e @ ''; raw: ''
               @ take_chars 200 content))
           | Inr v \<Rightarrow> Inr v))"

definition invoke_prompt :: "upstream \<Rightarrow> openai_config \<Rightarrow> prompt_spec \<Rightarrow> json \<Rightarrow> (node_error, json) result"
where
  "invoke_prompt up c s args =
     (case prompt_user up s args of
        Inl e \<Rightarrow> Inl e
      | Inr user \<Rightarrow>
          (case openai_invoke up c ''chat'' (prompt_payload s user) of
             Inl e \<Rightarrow> Inl (Adapter e)
           | Inr resp \<Rightarrow>
               (case message_content resp of
                  None \<Rightarrow> Inl (InvalidPayload
                    ''prompt binding: upstream response missing /message/content'')
                | Some content \<Rightarrow> prompt_output up (pb_parser s) (trim content))))"

section \<open>The HTTP binding\<close>

fun method_name :: "http_method \<Rightarrow> string" where
  "method_name Get = ''GET''"
| "method_name Post = ''POST''"
| "method_name Put = ''PUT''"
| "method_name Delete = ''DELETE''"

definition join_url :: "string \<Rightarrow> string \<Rightarrow> string" where
  "join_url base rendered =
     (if starts_with ''http://'' rendered \<or> starts_with ''https://'' rendered then rendered
      else base @ (if starts_with ''/'' rendered then rendered else ''/'' @ rendered))"

definition extract_path ::
  "(string \<Rightarrow> json \<Rightarrow> (string, json list) result) \<Rightarrow> json \<Rightarrow> string \<Rightarrow> (node_error, json) result" where
  "extract_path jp body p =
     (if p = ''$'' then Inr body
      else case jp p body of
        Inl e \<Rightarrow> Inl (InvalidPayload (''invalid JSONPath `'' @ p @ ''`: '' @ e))
      | Inr [] \<Rightarrow> Inl (InvalidPayload (''JSONPath `'' @ p @ ''` matched no nodes in response''))
      | Inr [v] \<Rightarrow> Inr v
      | Inr vs \<Rightarrow> Inr (JArr vs))"

definition http_request_of ::
  "upstream \<Rightarrow> http_backend \<Rightarrow> http_spec \<Rightarrow> json \<Rightarrow> (node_error, http_request) result" where
  "http_request_of up b s args =
     (case render (json_text up) args (htb_url_template s) of
        Inl e \<Rightarrow> Inl (Template e)
      | Inr u \<Rightarrow>
          let req = \<lparr>rq_method = method_name (htb_method s),
                 rq_url = join_url (hk_base_url b) (value_to_text (json_text up) u),
                 rq_headers = hk_headers b @ htb_headers s, rq_body = None,
                 rq_timeout_ms = (case htb_timeout_ms s of Some t \<Rightarrow> t | None \<Rightarrow> 30000)\<rparr>
          in case htb_body_template s of
               None \<Rightarrow> Inr req
             | Some t \<Rightarrow>
                 (case render_value (json_text up) args t of
                    Inl e \<Rightarrow> Inl (Template e)
                  | Inr v \<Rightarrow> Inr (req\<lparr>rq_body := Some v\<rparr>)))"

definition http_body :: "upstream \<Rightarrow> string \<Rightarrow> (node_error, json) result" where
  "http_body up bytes =
     (if bytes = [] then Inr (json_obj [])
      else case parse_json up bytes of
        Inl e \<Rightarrow> Inl (Adapter (Backend (''non-JSON response: '' @ e @ ''; raw: ''
          @ take_chars 200 (lossy_text up bytes))))
      | Inr v \<Rightarrow> Inr v)"

definition invoke_http ::
  "upstream \<Rightarrow> (string \<Rightarrow> json \<Rightarrow> (string, json list) result) \<Rightarrow> http_backend \<Rightarrow> http_spec \<Rightarrow> json
     \<Rightarrow> (node_error, json) result" where
  "invoke_http up jp b s args =
     (case http_request_of up b s args of
        Inl e \<Rightarrow> Inl e
      | Inr req \<Rightarrow>
          (case send_request up req of
             Inl e \<Rightarrow> Inl (Adapter (Transport e))
           | Inr (code, bytes) \<Rightarrow>
               if \<not> success_code code
               then Inl (Adapter (Backend (''http '' @ rq_url req @ '' returned '' @ status_text up code
                 @ '': '' @ take_chars 300 (lossy_text up bytes))))
               else (case http_body up bytes of
                   Inl e \<Rightarrow> Inl e
                 | Inr body \<Rightarrow>
                     (case htb_response_path s of
                        None \<Rightarrow> Inr body
                      | Some p \<Rightarrow> extract_path jp body p))))"

section \<open>MCP over stdio\<close>

datatype mcp_error =
    McpSpawn string string
  | McpIo string
  | McpProtocol string
  | McpApplication int string
  | McpSerde string

fun mcp_error_text :: "mcp_error \<Rightarrow> string" where
  "mcp_error_text (McpSpawn c e) = ''spawn `'' @ c @ ''` failed: '' @ e"
| "mcp_error_text (McpIo e) = ''io error talking to mcp server: '' @ e"
| "mcp_error_text (McpProtocol s) = ''mcp server returned protocol error: '' @ s"
| "mcp_error_text (McpApplication c m) =
     ''mcp server returned application error code='' @ dec_int c @ '' message='' @ m"
| "mcp_error_text (McpSerde s) = ''serde: '' @ s"

record mcp_session =
  next_id :: int
  unread :: "string list"
  sent :: "json list"

record mcp_env =
  mcp_spawn :: "mcp_server_config \<Rightarrow> (string, unit) result"
  mcp_prints :: "mcp_server_config \<Rightarrow> json list \<Rightarrow> string list"
  mcp_write_fault :: "mcp_server_config \<Rightarrow> json list \<Rightarrow> string option"
  mcp_parse :: "string \<Rightarrow> (string, json) result"

definition as_i64 :: "json \<Rightarrow> int option" where
  "as_i64 j = dec_sint 64 j"

definition mcp_write ::
  "mcp_env \<Rightarrow> mcp_server_config \<Rightarrow> json \<Rightarrow> mcp_session \<Rightarrow> (mcp_error, unit) result \<times> mcp_session" where
  "mcp_write me c msg s =
     (let history = sent s @ [msg] in
      case mcp_write_fault me c history of
        Some e \<Rightarrow> (Inl (McpIo e), s)
      | None \<Rightarrow> (Inr (), s\<lparr>sent := history, unread := unread s @ mcp_prints me c history\<rparr>))"

definition mcp_answer :: "json \<Rightarrow> (mcp_error, json) result" where
  "mcp_answer msg =
     (case json_get ''error'' msg of
        Some err \<Rightarrow> Inl (McpApplication
          (case Option.bind (json_get ''code'' err) as_i64 of Some c \<Rightarrow> c | None \<Rightarrow> 0)
          (case Option.bind (json_get ''message'' err) as_str of Some m \<Rightarrow> m | None \<Rightarrow> ''(no message)''))
      | None \<Rightarrow> Inr (case json_get ''result'' msg of Some r \<Rightarrow> r | None \<Rightarrow> JNull))"

fun await_reply :: "mcp_env \<Rightarrow> int \<Rightarrow> string list \<Rightarrow> (mcp_error, json) result \<times> string list" where
  "await_reply me i [] = (Inl (McpProtocol ''mcp server closed stdout (EOF)''), [])"
| "await_reply me i (line # lines) =
     (if trim line = [] then await_reply me i lines
      else case mcp_parse me (trim line) of
        Inl e \<Rightarrow> (Inl (McpSerde e), lines)
      | Inr msg \<Rightarrow>
          (if Option.bind (json_get ''id'' msg) as_i64 = Some i then (mcp_answer msg, lines)
           else await_reply me i lines))"

definition mcp_request ::
  "mcp_env \<Rightarrow> mcp_server_config \<Rightarrow> string \<Rightarrow> json \<Rightarrow> mcp_session \<Rightarrow> (mcp_error, json) result \<times> mcp_session"
where
  "mcp_request me c method params s =
     (let i = next_id s;
          envelope = json_obj [(''jsonrpc'', JStr ''2.0''), (''id'', JInt i), (''method'', JStr method),
            (''params'', params)];
          (w, s1) = mcp_write me c envelope (s\<lparr>next_id := i + 1\<rparr>)
      in case w of
           Inl e \<Rightarrow> (Inl e, s1)
         | Inr _ \<Rightarrow> (let (r, rest) = await_reply me i (unread s1) in (r, s1\<lparr>unread := rest\<rparr>)))"

definition PKG_VERSION :: string where
  "PKG_VERSION = ''0.4.3''"

definition mcp_initialize ::
  "mcp_env \<Rightarrow> mcp_server_config \<Rightarrow> mcp_session \<Rightarrow> (mcp_error, unit) result \<times> mcp_session" where
  "mcp_initialize me c s =
     (let (r, s1) = mcp_request me c ''initialize'' (json_obj
            [(''protocolVersion'', JStr ''2025-06-18''),
             (''capabilities'', json_obj [(''tools'', json_obj [])]),
             (''clientInfo'', json_obj [(''name'', JStr ''n3ur0n''), (''version'', JStr PKG_VERSION)])]) s
      in case r of
           Inl e \<Rightarrow> (Inl e, s1)
         | Inr _ \<Rightarrow> mcp_write me c (json_obj [(''jsonrpc'', JStr ''2.0''),
             (''method'', JStr ''notifications/initialized'')]) s1)"

definition spawn_session ::
  "mcp_env \<Rightarrow> mcp_server_config \<Rightarrow> (mcp_error, mcp_session) result" where
  "spawn_session me c =
     (case mcp_spawn me c of
        Inl e \<Rightarrow> Inl (McpSpawn (mc_command c) e)
      | Inr _ \<Rightarrow>
          (let (r, s) = mcp_initialize me c \<lparr>next_id = 1, unread = [], sent = []\<rparr>
           in case r of Inl e \<Rightarrow> Inl e | Inr _ \<Rightarrow> Inr s))"

definition list_tools ::
  "mcp_env \<Rightarrow> mcp_server_config \<Rightarrow> mcp_session \<Rightarrow> (mcp_error, json list) result \<times> mcp_session" where
  "list_tools me c s =
     (let (r, s1) = mcp_request me c ''tools/list'' (json_obj []) s in
      (case r of
         Inl e \<Rightarrow> Inl e
       | Inr v \<Rightarrow>
           (case Option.bind (json_get ''tools'' v) as_array of
              Some ts \<Rightarrow> Inr ts
            | None \<Rightarrow> Inl (McpProtocol ''tools/list missing `tools`'')), s1))"

definition call_tool ::
  "mcp_env \<Rightarrow> mcp_server_config \<Rightarrow> string \<Rightarrow> json \<Rightarrow> mcp_session \<Rightarrow> (mcp_error, json) result \<times> mcp_session"
where
  "call_tool me c name args s =
     mcp_request me c ''tools/call'' (json_obj [(''name'', JStr name), (''arguments'', args)]) s"

definition ensure_session ::
  "mcp_env \<Rightarrow> mcp_server_config \<Rightarrow> mcp_session option
     \<Rightarrow> (node_error, mcp_session) result \<times> mcp_session option" where
  "ensure_session me c st =
     (case st of
        Some s \<Rightarrow> (Inr s, st)
      | None \<Rightarrow>
          (if mc_transport c \<noteq> Stdio
           then (Inl (InvalidPayload ''mcp backend: only stdio transport is supported in v0.3.0''), None)
           else (case spawn_session me c of
               Inl e \<Rightarrow> (Inl (InvalidPayload (''mcp spawn: '' @ mcp_error_text e)), None)
             | Inr s \<Rightarrow> (Inr s, Some s))))"

definition map_args :: "(json \<Rightarrow> string) \<Rightarrow> mcp_spec \<Rightarrow> json \<Rightarrow> (node_error, json) result" where
  "map_args show_value s args =
     (if mb_arg_mapping s = [] then Inr args
      else case map_result (\<lambda>(k, t). map_sum Template (\<lambda>v. (k, v)) (render_value show_value args t))
          (mb_arg_mapping s) of
        Inl e \<Rightarrow> Inl e
      | Inr es \<Rightarrow> Inr (json_obj es))"

definition invoke_mcp ::
  "mcp_env \<Rightarrow> (json \<Rightarrow> string) \<Rightarrow> mcp_server_config \<Rightarrow> mcp_spec \<Rightarrow> json \<Rightarrow> mcp_session option
     \<Rightarrow> (node_error, json) result \<times> mcp_session option" where
  "invoke_mcp me show_value c s args st =
     (case map_args show_value s args of
        Inl e \<Rightarrow> (Inl e, st)
      | Inr mapped \<Rightarrow>
          (let (r, st1) = ensure_session me c st in
           case r of
             Inl e \<Rightarrow> (Inl e, st1)
           | Inr sess \<Rightarrow>
               (let (raw, sess1) = call_tool me c (mb_tool s) mapped sess
                in (map_sum (\<lambda>e. InvalidPayload (''mcp call_tool: '' @ mcp_error_text e)) id raw,
                    Some sess1))))"

section \<open>A binding as the handler calls it\<close>

definition invoke_binding ::
  "upstream \<Rightarrow> (string \<Rightarrow> json \<Rightarrow> (string, json list) result) \<Rightarrow> mcp_env \<Rightarrow> binding \<Rightarrow> json
     \<Rightarrow> mcp_session option \<Rightarrow> (node_error, json) result \<times> mcp_session option" where
  "invoke_binding up jp me b args st =
     (case b of
        PromptBinding c s \<Rightarrow> (invoke_prompt up c s args, st)
      | HttpBinding h s \<Rightarrow> (invoke_http up jp h s args, st)
      | McpBinding c s \<Rightarrow> invoke_mcp me (json_text up) c s args st)"

section \<open>Objects are determined by their lookups\<close>

lemma alist_eq:
  assumes "sorted_wrt (<) (map fst xs)" "sorted_wrt (<) (map fst ys)" "map_of xs = map_of ys"
  shows "(xs :: (string \<times> 'v) list) = ys"
  using assms
proof (induction xs arbitrary: ys)
  case Nil
  then show ?case by (metis map_of_eq_empty_iff map_of.simps(1))
next
  case (Cons x xs)
  obtain k v where x: "x = (k, v)" by force
  have "map_of ys k = Some v" using Cons.prems(3) x by (metis map_of_Cons_code(2))
  then obtain y ys' where ys: "ys = y # ys'" by (cases ys) auto
  obtain k' v' where y: "y = (k', v')" by force
  have "map_of (x # xs) k' = Some v'" using fun_cong [OF Cons.prems(3), of k'] unfolding ys y by simp
  then have k': "k' \<in> set (map fst (x # xs))" by (force dest: map_of_SomeD)
  have "map_of ys k = Some v" by fact
  then have "k \<in> set (map fst ys)" by (force dest: map_of_SomeD)
  then have kk: "k = k'"
    using k' Cons.prems(1,2) x y ys by (auto simp del: set_map) (metis less_asym)
  have notin: "k \<notin> set (map fst xs)" "k \<notin> set (map fst ys')"
    using Cons.prems(1,2) x y ys kk by (auto simp del: set_map)
  then have none: "map_of xs k = None" "map_of ys' k = None"
    by (auto simp: map_of_eq_None_iff)
  have "map_of xs = map_of ys'"
  proof
    fix a
    show "map_of xs a = map_of ys' a"
      using fun_cong [OF Cons.prems(3), of a] x y ys kk none by (cases "a = k") auto
  qed
  then have "xs = ys'" using Cons.IH [of ys'] Cons.prems(1,2) ys by simp
  moreover have "v = v'" using \<open>map_of ys k = Some v\<close> ys y kk by simp
  ultimately show ?case using x y ys kk by simp
qed

abbreviation ordered :: "(string \<times> 'v) list \<Rightarrow> bool" where
  "ordered es \<equiv> sorted_wrt (<) (map fst es)"

lemma ordered_remove: "ordered es \<Longrightarrow> ordered (obj_remove k es)"
proof (induction es)
  case (Cons e es)
  then show ?case by (auto simp: obj_remove_def)
qed (simp add: obj_remove_def)

lemma map_of_remove: "map_of (obj_remove k es) = (map_of es)(k := None)"
  by (induction es) (auto simp: obj_remove_def fun_eq_iff)

lemma map_of_allowed:
  "map_of (fold (\<lambda>k out. case map_of es k of Some v \<Rightarrow> obj_insert k v out | None \<Rightarrow> out) ks out) k
     = (if k \<in> set ks \<and> map_of es k \<noteq> None then map_of es k else map_of out k)"
  by (induction ks arbitrary: out) (auto split: option.splits)

lemma ordered_allowed:
  "ordered out \<Longrightarrow>
     ordered (fold (\<lambda>k out. case map_of es k of Some v \<Rightarrow> obj_insert k v out | None \<Rightarrow> out) ks out)"
  by (induction ks arbitrary: out) (auto simp: sorted_obj_insert split: option.split)

definition allowed_fields :: "(string \<times> json) list \<Rightarrow> (string \<times> json) list" where
  "allowed_fields es =
     fold (\<lambda>k out. case map_of es k of Some v \<Rightarrow> obj_insert k v out | None \<Rightarrow> out) CHAT_ARG_ALLOWLIST []"

lemma ordered_coerce: "ordered out \<Longrightarrow> ordered (coerce_messages up out)"
  by (auto simp: coerce_messages_def sorted_obj_insert ordered_remove
      split: option.split json.split sum.split)

lemma coerce_cong:
  assumes "\<And>k. k \<noteq> ''model'' \<Longrightarrow> map_of a k = map_of b k" "k \<noteq> ''model''"
  shows "map_of (coerce_messages up a) k = map_of (coerce_messages up b) k"
  using assms by (simp add: coerce_messages_def map_of_remove split: option.split json.split sum.split)

text \<open>A locked backend builds the same request from arguments that differ in \<open>model\<close> only.\<close>

lemma build_request_model:
  assumes "\<And>k. k \<noteq> ''model'' \<Longrightarrow> map_of a k = map_of b k" "\<not> oc_allow_override c"
  shows "build_request up (JObj a) c = build_request up (JObj b) c"
proof -
  let ?a = "coerce_messages up (allowed_fields a)" and ?b = "coerce_messages up (allowed_fields b)"
  have allowed: "map_of (allowed_fields a) k = map_of (allowed_fields b) k" if "k \<noteq> ''model''" for k
    using assms(1) [OF that] by (simp add: allowed_fields_def map_of_allowed)
  have same: "map_of ?a k = map_of ?b k" if "k \<noteq> ''model''" for k
    by (rule coerce_cong [OF allowed that])
  have san: "sanitise_chat_args up (JObj a) = JObj ?a" "sanitise_chat_args up (JObj b) = JObj ?b"
    by (simp_all add: sanitise_chat_args_def allowed_fields_def)
  have ord: "ordered ?a" "ordered ?b"
    by (simp_all add: allowed_fields_def ordered_allowed ordered_coerce)
  let ?lock = "\<lambda>es. obj_insert ''stream'' (JBool False) (obj_insert ''model'' (JStr (oc_default_model c)) es)"
  have "?lock ?a = ?lock ?b"
    by (rule alist_eq) (use ord same in \<open>auto simp: sorted_obj_insert fun_eq_iff\<close>)
  then show ?thesis
    using same [of "''prompt''"] same [of "''messages''"] assms(2)
    by (simp add: build_request_def san apply_model_lock_def Let_def cong: option.case_cong if_cong)
qed

lemma map_of_set_fields: "map_of (set_fields new es) = map_of es ++ map_of (rev new)"
  by (simp add: set_fields_def map_of_fold_insert)

lemma prompt_payload_model:
  "k \<noteq> ''model'' \<Longrightarrow>
    map_of (set_fields (ps @ opt_entry ''model'' JStr m) es) k = map_of (set_fields ps es) k"
  by (simp add: map_of_set_fields map_add_app opt_entry_def split: option.split)

section \<open>MCP lemmas\<close>

definition other_id :: "mcp_env \<Rightarrow> int \<Rightarrow> string \<Rightarrow> bool" where
  "other_id me i line \<longleftrightarrow>
     trim line = []
     \<or> (case mcp_parse me (trim line) of
          Inl _ \<Rightarrow> False | Inr m \<Rightarrow> Option.bind (json_get ''id'' m) as_i64 \<noteq> Some i)"

lemma await_skips: "list_all (other_id me i) stale \<Longrightarrow> await_reply me i (stale @ rest) = await_reply me i rest"
  by (induction stale) (auto simp: other_id_def split: sum.splits)

definition silent :: "mcp_env \<Rightarrow> mcp_server_config \<Rightarrow> mcp_session \<Rightarrow> bool" where
  "silent me c s \<longleftrightarrow> unread s = [] \<and> (\<forall>h. mcp_prints me c (sent s @ h) = [])"

lemma silent_request:
  assumes "silent me c s"
  shows "\<exists>e s'. mcp_request me c m p s = (Inl e, s') \<and> silent me c s'"
proof -
  let ?env = "json_obj [(''jsonrpc'', JStr ''2.0''), (''id'', JInt (next_id s)), (''method'', JStr m), (''params'', p)]"
  have "mcp_prints me c ((sent s @ [?env]) @ h) = []" for h
    using assms by (simp add: silent_def)
  moreover from this [of "[]"] have "mcp_prints me c (sent s @ [?env]) = []" by simp
  ultimately show ?thesis
    using assms by (auto simp: mcp_request_def mcp_write_def silent_def Let_def split: option.split)
qed

section \<open>Properties\<close>

text \<open>
  (the model of a prompt capability has no effect). Backends built from manifests never
  allow a model override, so a prompt binding answers the same whatever model its manifest names.
\<close>

theorem prompt_model_ignored:
  assumes "build_backend_instance m = Inr (LiveOpenAI c)"
  shows "invoke_prompt up c (s\<lparr>pb_model := md\<rparr>) args = invoke_prompt up c s args"
proof -
  have lock: "\<not> oc_allow_override c"
    using assms by (auto simp: build_backend_instance_def new_openai_backend_def
        split: backend_kind.splits sum.splits)
  have "build_request up (prompt_payload (s\<lparr>pb_model := md\<rparr>) u) c = build_request up (prompt_payload s u) c" for u
    unfolding prompt_payload_def
    by (rule build_request_model [OF _ lock]) (simp add: prompt_payload_model)
  then have "openai_invoke up c ''chat'' (prompt_payload (s\<lparr>pb_model := md\<rparr>) u)
      = openai_invoke up c ''chat'' (prompt_payload s u)" for u
    by (simp add: openai_invoke_def)
  then show ?thesis by (simp add: invoke_prompt_def prompt_user_def cong: sum.case_cong option.case_cong)
qed

text \<open>
  (bindings fit their backends). Building a binding succeeds exactly when the backend it
  names is of the kind the binding needs, and the binding it gives is of the manifest's kind.
\<close>

theorem binding_fits_backend:
  "(\<exists>bd. build_binding spec b = Inr bd) \<longleftrightarrow>
     (case spec of
        PromptSpec _ \<Rightarrow> \<exists>c. b = LiveOpenAI c
      | HttpSpec _ \<Rightarrow> \<exists>h. b = LiveHttp h
      | McpSpec _ \<Rightarrow> \<exists>m. b = LiveMcp m)"
  by (auto simp: build_binding_def split: binding_spec.split backend_instance.split)

text \<open>
  (replies are matched by id). Whatever notifications and replies to other requests are
  still unread or arrive first, a request returns the answer of the message that carries its id,
  and leaves what follows for the next request.
\<close>

theorem mcp_reply_matched:
  assumes "fst (mcp_write me c (json_obj [(''jsonrpc'', JStr ''2.0''), (''id'', JInt (next_id s)),
      (''method'', JStr m), (''params'', p)]) s) = Inr ()"
    and "unread s @ mcp_prints me c (sent s @ [json_obj [(''jsonrpc'', JStr ''2.0''), (''id'', JInt (next_id s)),
      (''method'', JStr m), (''params'', p)]]) = stale @ line # rest"
    and "list_all (other_id me (next_id s)) stale" "trim line \<noteq> []" "mcp_parse me (trim line) = Inr msg"
    and "Option.bind (json_get ''id'' msg) as_i64 = Some (next_id s)"
  shows "fst (mcp_request me c m p s) = mcp_answer msg
    \<and> unread (snd (mcp_request me c m p s)) = rest
    \<and> next_id (snd (mcp_request me c m p s)) = next_id s + 1"
proof -
  have "mcp_write_fault me c (sent s @ [json_obj [(''jsonrpc'', JStr ''2.0''), (''id'', JInt (next_id s)),
      (''method'', JStr m), (''params'', p)]]) = None"
    using assms(1) by (simp add: mcp_write_def Let_def split: option.splits)
  then show ?thesis
    using assms(2,4-6) await_skips [OF assms(3), of "line # rest"]
    by (simp add: mcp_request_def mcp_write_def Let_def)
qed

text \<open>
  (a dead MCP server is not replaced). Once the session exists and the server prints nothing
  more, every later call fails and keeps the dead session, although a new one could be spawned.
\<close>

theorem mcp_dead_session_kept:
  assumes "silent me c s" "map_args show_value sp args = Inr mapped"
  shows "\<exists>e s'. invoke_mcp me show_value c sp args (Some s) = (Inl e, Some s') \<and> silent me c s'"
proof -
  obtain e s' where "call_tool me c (mb_tool sp) mapped s = (Inl e, s')" "silent me c s'"
    using silent_request [OF assms(1)] unfolding call_tool_def by blast
  then show ?thesis using assms(2) by (auto simp: invoke_mcp_def ensure_session_def)
qed

definition toy_upstream :: upstream where
  "toy_upstream = \<lparr>send_request = (\<lambda>_. Inl ''down''), parse_json = (\<lambda>_. Inl ''bad''), decode_error = (\<lambda>_. []),
     lossy_text = id, status_text = dec, json_text = print_json\<rparr>"

definition toy_prompt :: prompt_spec where
  "toy_prompt = \<lparr>pb_backend = ''llm'', pb_system = ''sys'', pb_user_template = None, pb_parameters = [],
     pb_parser = ParseText, pb_model = Some ''big''\<rparr>"

definition toy_backend :: backend_manifest where
  "toy_backend = \<lparr>bm_name = ''llm'', bm_kind = OpenAICompat
     \<lparr>bo_base_url = ''http://h/v1'', bo_default_model = ''small'', bo_api_key = []\<rparr>\<rparr>"

lemma prompt_model_ignored_witness:
  "\<exists>c. build_backend_instance toy_backend = Inr (LiveOpenAI c)
     \<and> invoke_prompt toy_upstream c (toy_prompt\<lparr>pb_model := None\<rparr>) JNull = invoke_prompt toy_upstream c toy_prompt JNull"
proof -
  have "\<exists>c. build_backend_instance toy_backend = Inr (LiveOpenAI c)"
    by (simp add: build_backend_instance_def toy_backend_def)
  then obtain c where c: "build_backend_instance toy_backend = Inr (LiveOpenAI c)" by blast
  with prompt_model_ignored [OF c] show ?thesis by blast
qed

definition toy_mcp :: mcp_server_config where
  "toy_mcp = \<lparr>mc_transport = Stdio, mc_command = ''srv'', mc_args = [], mc_env = []\<rparr>"

definition toy_mcp_env :: "string list \<Rightarrow> json \<Rightarrow> mcp_env" where
  "toy_mcp_env lines msg = \<lparr>mcp_spawn = (\<lambda>_. Inr ()), mcp_prints = (\<lambda>_ _. lines), mcp_write_fault = (\<lambda>_ _. None),
     mcp_parse = (\<lambda>_. Inr msg)\<rparr>"

lemma mcp_reply_matched_witness:
  "fst (mcp_request (toy_mcp_env [''x''] (json_obj [(''id'', JInt 7), (''result'', JBool True)])) toy_mcp ''m'' JNull
      \<lparr>next_id = 7, unread = [], sent = []\<rparr>) = Inr (JBool True)"
proof -
  let ?msg = "json_obj [(''id'', JInt 7), (''result'', JBool True)]"
  let ?me = "toy_mcp_env [''x''] ?msg" and ?s = "\<lparr>next_id = 7, unread = [], sent = []\<rparr>"
  let ?env = "json_obj [(''jsonrpc'', JStr ''2.0''), (''id'', JInt (next_id ?s)), (''method'', JStr ''m''), (''params'', JNull)]"
  have w: "fst (mcp_write ?me toy_mcp ?env ?s) = Inr ()"
    by (simp add: mcp_write_def toy_mcp_env_def)
  have l: "unread ?s @ mcp_prints ?me toy_mcp (sent ?s @ [?env]) = [] @ ''x'' # []"
    by (simp add: toy_mcp_env_def)
  have t: "trim ''x'' \<noteq> []" by code_simp
  have p: "mcp_parse ?me (trim ''x'') = Inr ?msg" by (simp add: toy_mcp_env_def)
  have i: "Option.bind (json_get ''id'' ?msg) as_i64 = Some (next_id ?s)" by (simp add: as_i64_def dec_sint_def)
  from mcp_reply_matched [OF w l _ t p i] show ?thesis by (simp add: mcp_answer_def)
qed

lemma mcp_dead_session_kept_witness:
  "\<exists>e s'. invoke_mcp (toy_mcp_env [] JNull) print_json toy_mcp
      \<lparr>mb_backend = ''b'', mb_tool = ''t'', mb_arg_mapping = [], mb_result_mapping = []\<rparr> JNull
      (Some \<lparr>next_id = 2, unread = [], sent = []\<rparr>) = (Inl e, Some s')
    \<and> mcp_spawn (toy_mcp_env [] JNull) toy_mcp = Inr ()"
proof -
  have "silent (toy_mcp_env [] JNull) toy_mcp \<lparr>next_id = 2, unread = [], sent = []\<rparr>"
    by (simp add: silent_def toy_mcp_env_def)
  moreover have "map_args print_json
      \<lparr>mb_backend = ''b'', mb_tool = ''t'', mb_arg_mapping = [], mb_result_mapping = []\<rparr> JNull = Inr JNull"
    by (simp add: map_args_def)
  ultimately have "\<exists>e s'. invoke_mcp (toy_mcp_env [] JNull) print_json toy_mcp
      \<lparr>mb_backend = ''b'', mb_tool = ''t'', mb_arg_mapping = [], mb_result_mapping = []\<rparr> JNull
      (Some \<lparr>next_id = 2, unread = [], sent = []\<rparr>) = (Inl e, Some s')"
    using mcp_dead_session_kept by blast
  then show ?thesis by (simp add: toy_mcp_env_def)
qed

end
