(* ===== verification/Node_Handler.thy ===== *)
theory Node_Handler
  imports Node_Registry Store_Peers
begin

text \<open>
  \<open>crates/node/src/handler.rs\<close>: what a node does with one inbound signed message. A request
  arrives with the readings of the clock it meets on its way (\<open>arrival\<close>); the tables it
  touches are \<open>node_state\<close>. Backends, bindings, JSON text and RFC 3339 are parameters of
  \<open>node_env\<close>. The background pull of an unknown caller's descriptor is spawned, not awaited:
  the endpoints it is spawned for are logged in \<open>ns_pulls\<close>.
\<close>

section \<open>The node, its environment and its state\<close>

record 'b node =
  nd_keypair :: keypair
  nd_registry :: "'b registry"
  nd_lobes :: "string list"
  nd_alias :: "string option"
  nd_endpoint :: "string option"
  nd_verify :: verify_config
  nd_blobs :: blob_conf

record 'b node_env = wire_env +
  backend_invoke :: "string \<Rightarrow> json \<Rightarrow> (adapter_error, json) result"
  binding_invoke :: "'b \<Rightarrow> json \<Rightarrow> (node_error, json) result"
  json_from_str :: "string \<Rightarrow> json option"
  serde_text :: "json \<Rightarrow> string"
  time_text :: "time \<Rightarrow> string"

record arrival =
  ar_message :: signed_message
  ar_verify :: time
  ar_now :: time
  ar_done :: time
  ar_elapsed_ms :: int
  ar_uuid :: string

record node_state =
  ns_nonces :: "nonce_row list"
  ns_peers :: peer_table
  ns_audit :: audit_log
  ns_blobs :: blob_world
  ns_pulls :: "string list"

section \<open>Verb handlers\<close>

definition format_now :: "('b, 'x) node_env_scheme \<Rightarrow> time \<Rightarrow> (node_error, string) result" where
  "format_now ne now =
     (case rfc3339 ne now of None \<Rightarrow> Inl (InvalidPayload (time_text ne now)) | Some t \<Rightarrow> Inr t)"

definition describe_self ::
  "('b, 'x) node_env_scheme \<Rightarrow> 'b node \<Rightarrow> time \<Rightarrow> (node_error, json) result" where
  "describe_self ne nd now =
     (case format_now ne now of
        Inl e \<Rightarrow> Inl e
      | Inr t \<Rightarrow> Inr (enc_describe_self
          \<lparr>ds_instance_id = keypair_id ne (nd_keypair nd), ds_endpoint = nd_endpoint nd,
           ds_alias = nd_alias nd, protocol_version = PROTOCOL_VERSION, updated_at = t,
           ds_lobe_ids = nd_lobes nd, capabilities = public_decls (nd_registry nd)\<rparr>))"

definition ping :: "('b, 'x) node_env_scheme \<Rightarrow> time \<Rightarrow> (node_error, json) result" where
  "ping ne now =
     (case format_now ne now of Inl e \<Rightarrow> Inl e | Inr t \<Rightarrow> Inr (enc_ping \<lparr>server_time = t\<rparr>))"

definition offers :: "('b, 'x) node_env_scheme \<Rightarrow> string \<Rightarrow> peer_record \<Rightarrow> bool" where
  "offers ne want p =
     (case Option.bind (describe_self_cached p)
             (\<lambda>raw. Option.bind (json_from_str ne raw) dec_describe_self) of
        None \<Rightarrow> False
      | Some d \<Rightarrow> list_ex (\<lambda>c. cap_name c = want \<and> is_public (mode c)) (capabilities d))"

definition summarise ::
  "('b, 'x) node_env_scheme \<Rightarrow> string option \<Rightarrow> peer_record \<Rightarrow> peer_summary option" where
  "summarise ne want p =
     (case parse_instance_id (pr_id p) of
        Inl _ \<Rightarrow> None
      | Inr i \<Rightarrow>
          (if (case want of None \<Rightarrow> True | Some c \<Rightarrow> offers ne c p)
           then Some \<lparr>ps_instance_id = i, ps_endpoint = Some (pr_endpoint p), ps_alias = pr_alias p\<rparr>
           else None))"

definition get_known_peers ::
  "('b, 'x) node_env_scheme \<Rightarrow> peer_table \<Rightarrow> json \<Rightarrow> (node_error, json) result" where
  "get_known_peers ne peers pl =
     (case dec_get_known_peers_request pl of
        None \<Rightarrow> Inl (InvalidPayload (''get_known_peers: '' @ serde_text ne pl))
      | Some req \<Rightarrow>
          Inr (enc_get_known_peers
            \<lparr>gkp_peers = List.map_filter (summarise ne (gkp_capability req))
               (peer_list (min (gkp_limit req) 1000) peers)\<rparr>))"

definition first_missing ::
  "('x) crypto_scheme \<Rightarrow> blob_conf \<Rightarrow> blob_world \<Rightarrow> json \<Rightarrow> blob_ref option" where
  "first_missing cr cf w args =
     find (\<lambda>br. read_local_bytes cr cf w (br_hash br) = None) (collect_blob_refs args)"

definition run_capability ::
  "('b, 'x) node_env_scheme \<Rightarrow> 'b registry \<Rightarrow> string \<Rightarrow> json \<Rightarrow> (node_error, json) result" where
  "run_capability ne reg cap args =
     (case binding_for cap reg of
        Some b \<Rightarrow> binding_invoke ne b args
      | None \<Rightarrow> (case backend_invoke ne cap args of Inl e \<Rightarrow> Inl (Adapter e) | Inr v \<Rightarrow> Inr v))"

definition invoke ::
  "('b, 'x) node_env_scheme \<Rightarrow> 'b node \<Rightarrow> blob_world \<Rightarrow> json \<Rightarrow> (node_error, json) result" where
  "invoke ne nd w pl =
     (case dec_invoke_request pl of
        None \<Rightarrow> Inl (InvalidPayload (''invoke: '' @ serde_text ne pl))
      | Some req \<Rightarrow>
          (case reg_get (iv_capability req) (nd_registry nd) of
             None \<Rightarrow> Inl (UnknownCapability (iv_capability req))
           | Some d \<Rightarrow>
               if mode d = Private then Inl (UnknownCapability (iv_capability req))
               else if mode d = Restricted \<and> subscription_token req = None
               then Inl (InvalidPayload (''capability '' @ iv_capability req
                 @ '' is restricted; subscription_token required''))
               else (case first_missing ne (nd_blobs nd) w (iv_args req) of
                  Some br \<Rightarrow> Inl (InvalidPayload (''blob '' @ br_hash br
                    @ '' was not uploaded to this instance (PUT /n3ur0n/v0/blobs first)''))
                | None \<Rightarrow>
                    (case run_capability ne (nd_registry nd) (iv_capability req) (iv_args req) of
                       Inl e \<Rightarrow> Inl e
                     | Inr v \<Rightarrow> Inr (enc_invoke_response \<lparr>iv_result = v\<rparr>)))))"

definition inbound_label :: "envelope \<Rightarrow> string option" where
  "inbound_label env =
     (case verb env of
        Invoke \<Rightarrow> Option.bind (json_get ''capability'' (payload env)) as_str
      | DescribeSelf \<Rightarrow> Some ''describe_self''
      | Ping \<Rightarrow> Some ''ping''
      | GetKnownPeers \<Rightarrow> Some ''get_known_peers''
      | BlobTicket \<Rightarrow> Some ''blob_ticket'')"

section \<open>The whole request\<close>

definition record_audit ::
  "direction \<Rightarrow> string \<Rightarrow> string option \<Rightarrow> (node_error, 'v) result \<Rightarrow> time \<Rightarrow> int
     \<Rightarrow> audit_log \<Rightarrow> audit_log" where
  "record_audit dir peer cap outcome done elapsed_ms =
     record_entry
       \<lparr>ae_timestamp = unix_timestamp done, ae_direction = dir, ae_peer_id = peer,
        ae_capability = cap,
        ae_status = (case outcome of Inr _ \<Rightarrow> ''ok'' | Inl e \<Rightarrow> status_of e),
        ae_latency_ms = (if elapsed_ms < 2 ^ 63 then Some elapsed_ms else None)\<rparr>"

definition dispatch ::
  "('b, 'x) node_env_scheme \<Rightarrow> 'b node \<Rightarrow> time \<Rightarrow> envelope \<Rightarrow> node_state \<Rightarrow> (node_error, json) result"
where
  "dispatch ne nd now env s =
     (case verb env of
        DescribeSelf \<Rightarrow> describe_self ne nd now
      | Ping \<Rightarrow> ping ne now
      | GetKnownPeers \<Rightarrow> get_known_peers ne (ns_peers s) (payload env)
      | Invoke \<Rightarrow> invoke ne nd (ns_blobs s) (payload env)
      | BlobTicket \<Rightarrow> Inl (InvalidPayload
          ''blob_ticket is not accepted on /messages; use /n3ur0n/v0/blobs''))"

definition announce_record :: "instance_id \<Rightarrow> string \<Rightarrow> time \<Rightarrow> peer_record" where
  "announce_record i ep now =
     \<lparr>pr_id = i, pr_endpoint = ep, pr_alias = None, last_seen = Some (unix_timestamp now),
      tls_fingerprint = None, describe_self_cached = None, describe_self_fetched_at = None,
      pr_source = Some ''reverse_announce''\<rparr>"

definition reverse_announce :: "instance_id \<Rightarrow> time \<Rightarrow> envelope \<Rightarrow> node_state \<Rightarrow> node_state" where
  "reverse_announce me now env s =
     (case sender_endpoint env of
        None \<Rightarrow> s
      | Some ep \<Rightarrow>
          (if sender_id env \<noteq> me \<and> ep \<noteq> []
           then s\<lparr>ns_peers := peer_upsert (announce_record (sender_id env) ep now) (ns_peers s),
                  ns_pulls := (if peer_get (sender_id env) (ns_peers s) = None
                               then ns_pulls s @ [ep] else ns_pulls s)\<rparr>
           else s))"

text \<open>The part of \<open>handle_request\<close> behind the anti-replay check.\<close>

definition serve_request ::
  "('b, 'x) node_env_scheme \<Rightarrow> 'b node \<Rightarrow> arrival \<Rightarrow> envelope \<Rightarrow> node_state
     \<Rightarrow> (node_error, signed_message) result \<times> node_state" where
  "serve_request ne nd a env s =
     (let me = keypair_id ne (nd_keypair nd); now = ar_now a;
          outcome = dispatch ne nd now env s;
          s1 = s\<lparr>ns_audit := record_audit DirIn (sender_id env) (inbound_label env)
                 outcome (ar_done a) (ar_elapsed_ms a) (ns_audit s)\<rparr>
      in case outcome of
           Inl e \<Rightarrow> (Inl e, s1)
         | Inr response \<Rightarrow>
             let reply = \<lparr>sender_id = me, recipient_id = sender_id env, timestamp = now,
                          nonce = ar_uuid a, verb = verb env, payload = response,
                          sender_endpoint = nd_endpoint nd\<rparr>
             in (case sign_envelope ne (nd_keypair nd) reply of Inl e \<Rightarrow> Inl (Core e) | Inr m \<Rightarrow> Inr m,
                 reverse_announce me now env s1))"

definition handle_request ::
  "('b, 'x) node_env_scheme \<Rightarrow> 'b node \<Rightarrow> arrival \<Rightarrow> node_state
     \<Rightarrow> (node_error, signed_message) result \<times> node_state" where
  "handle_request ne nd a s =
     (case verify_envelope ne (ar_message a) (keypair_id ne (nd_keypair nd)) (ar_verify a) (nd_verify nd) of
        Inl e \<Rightarrow> (Inl (Core e), s)
      | Inr msg \<Rightarrow>
          let env = sm_envelope msg; now_secs = unix_timestamp (ar_now a);
              (inserted, t) = insert_if_absent (sender_id env) (nonce env) now_secs (ns_nonces s)
          in if \<not> inserted then (Inl Replay, s\<lparr>ns_nonces := t\<rparr>)
             else serve_request ne nd a env
               (s\<lparr>ns_nonces := snd (prune_older_than (now_secs - NONCE_TTL_SECONDS) t)\<rparr>))"

text \<open>A run over several requests, and those of them that reached a verb handler.\<close>

fun served ::
  "('b, 'x) node_env_scheme \<Rightarrow> 'b node \<Rightarrow> arrival list \<Rightarrow> node_state \<Rightarrow> arrival list" where
  "served ne nd [] s = []"
| "served ne nd (a # as) s =
     (let s' = snd (handle_request ne nd a s) in
      if ns_audit s' \<noteq> ns_audit s then a # served ne nd as s' else served ne nd as s')"

section \<open>Lemmas\<close>

lemma dec_uint_nonneg: "dec_uint n j = Some l \<Longrightarrow> 0 \<le> l"
  by (cases j) (auto simp: dec_uint_def split: if_splits)

lemma gkp_limit_nonneg: "dec_get_known_peers_request pl = Some req \<Longrightarrow> 0 \<le> gkp_limit req"
  by (auto simp: dec_get_known_peers_request_def bind_eq_Some_conv field_req_def intro: dec_uint_nonneg)

lemma reverse_announce_frame [simp]:
  "ns_nonces (reverse_announce me now env s) = ns_nonces s"
  "ns_audit (reverse_announce me now env s) = ns_audit s"
  "ns_blobs (reverse_announce me now env s) = ns_blobs s"
  by (simp_all add: reverse_announce_def split: option.splits)

definition accepted :: "('b, 'x) node_env_scheme \<Rightarrow> 'b node \<Rightarrow> arrival \<Rightarrow> bool" where
  "accepted ne nd a \<longleftrightarrow>
     verify_envelope ne (ar_message a) (keypair_id ne (nd_keypair nd)) (ar_verify a) (nd_verify nd)
       = Inr (ar_message a)"

definition msg_key :: "arrival \<Rightarrow> string \<times> string" where
  "msg_key a = (sender_id (sm_envelope (ar_message a)), nonce (sm_envelope (ar_message a)))"

lemma verify_same: "verify_envelope w m i now cfg = Inr m' \<Longrightarrow> m' = m"
  by (auto simp: verify_envelope_def split: if_splits sum.splits)

lemma handle_rejected:
  assumes "\<not> accepted ne nd a"
  shows "\<exists>e. handle_request ne nd a s = (Inl (Core e), s)"
  using assms verify_same [of ne "ar_message a"]
  by (fastforce simp: accepted_def handle_request_def split: sum.split)

lemma insert_known: "nonce_stamp k t \<noteq> None \<Longrightarrow> insert_if_absent (fst k) (snd k) at t = (False, t)"
  by (auto simp: insert_if_absent_def nonce_stamp_def)

lemma insert_new: "nonce_stamp k t = None \<Longrightarrow> \<exists>t'. insert_if_absent (fst k) (snd k) at t = (True, t')"
  by (auto simp: insert_if_absent_def nonce_stamp_def)

lemma handle_accepted:
  assumes "accepted ne nd a"
  shows "handle_request ne nd a s =
    (let (inserted, t) = insert_if_absent (fst (msg_key a)) (snd (msg_key a))
           (unix_timestamp (ar_now a)) (ns_nonces s)
     in if \<not> inserted then (Inl Replay, s\<lparr>ns_nonces := t\<rparr>)
        else serve_request ne nd a (sm_envelope (ar_message a))
          (s\<lparr>ns_nonces := snd (prune_older_than (unix_timestamp (ar_now a) - NONCE_TTL_SECONDS) t)\<rparr>))"
  using assms by (simp add: accepted_def handle_request_def msg_key_def Let_def)

lemma handle_replayed:
  assumes "accepted ne nd a" "nonce_stamp (msg_key a) (ns_nonces s) \<noteq> None"
  shows "handle_request ne nd a s = (Inl Replay, s)"
  using assms(2) by (simp add: handle_accepted [OF assms(1)] insert_known)

lemma serve_request_frame [simp]:
  "ns_nonces (snd (serve_request ne nd a env s)) = ns_nonces s"
  "ns_blobs (snd (serve_request ne nd a env s)) = ns_blobs s"
  "ns_audit (snd (serve_request ne nd a env s)) = record_audit DirIn (sender_id env)
     (inbound_label env) (dispatch ne nd (ar_now a) env s) (ar_done a) (ar_elapsed_ms a) (ns_audit s)"
  by (simp_all add: serve_request_def Let_def split: sum.split)

lemma record_audit_grows: "record_audit d p c r dn el log \<noteq> log"
  by (simp add: record_audit_def record_entry_def)

section \<open>Interface: the replay guard of the handler\<close>

text \<open>
  The handler reads the clock twice, to verify and to stamp the nonce. An instant of the
  guard is the pair of both readings, at most \<open>LAG\<close> apart.
\<close>

definition LAG :: int where
  "LAG = 2900 * NANOS"

definition prompt :: "time \<times> time \<Rightarrow> bool" where
  "prompt i \<longleftrightarrow> fst i \<le> snd i \<and> snd i \<le> fst i + LAG"

definition fresh_at :: "time \<times> time \<Rightarrow> time \<Rightarrow> bool" where
  "fresh_at i c \<longleftrightarrow> within_skew (fst i) c \<and> prompt i"

lemma fresh_window:
  assumes "fresh_at i c" "fresh_at j c"
  shows "unix_timestamp (snd j) - unix_timestamp (snd i) \<le> NONCE_TTL_SECONDS"
proof -
  have "snd j - snd i < 3502 * NANOS"
    using assms unfolding fresh_at_def prompt_def within_skew_iff LAG_def NANOS_def fst_conv
    by linarith
  then have "snd j div NANOS \<le> (snd i + 3502 * NANOS) div NANOS"
    by (intro zdiv_mono1) (auto simp: NANOS_def)
  then show ?thesis by (simp add: unix_timestamp_def NANOS_def NONCE_TTL_SECONDS_def)
qed

interpretation handler: replay_guard "unique_key nonce_key" nonce_stamp
  "\<lambda>k. insert_if_absent (fst k) (snd k)" "\<lambda>cutoff t. snd (prune_older_than cutoff t)"
  "\<lambda>i. unix_timestamp (snd i)" fresh_at NONCE_TTL_SECONDS
  by unfold_locales
    (auto simp: stamp_insert nonces.prune_stamp nonces.good_prune unique_nonces intro: fresh_window)

definition event :: "arrival \<Rightarrow> bool \<times> (string \<times> string) \<times> time \<times> time \<times> time" where
  "event a = (True, msg_key a, timestamp (sm_envelope (ar_message a)), ar_verify a, ar_now a)"

lemma accepted_fresh:
  assumes "accepted ne nd a" "nd_verify nd = default_verify_config"
    "prompt (ar_verify a, ar_now a)"
  shows "fresh_at (ar_verify a, ar_now a) (timestamp (sm_envelope (ar_message a)))"
  using assms
  by (auto simp: accepted_def verify_envelope_def fresh_at_def within_skew_def split: if_splits)

lemma served_admitted:
  assumes "nd_verify nd = default_verify_config"
    and "list_all (\<lambda>a. prompt (ar_verify a, ar_now a)) as"
  shows "map event (served ne nd as s)
    = handler.admitted (ns_nonces s) (map event (filter (accepted ne nd) as))"
  using assms(2)
proof (induction as arbitrary: s)
  case (Cons a as)
  let ?k = "msg_key a" and ?n = "unix_timestamp (ar_now a)"
  consider (rejected) "\<not> accepted ne nd a"
    | (replayed) "accepted ne nd a" "nonce_stamp ?k (ns_nonces s) \<noteq> None"
    | (fresh) "accepted ne nd a" "nonce_stamp ?k (ns_nonces s) = None" by blast
  then show ?case
  proof cases
    case rejected
    then obtain e where "handle_request ne nd a s = (Inl (Core e), s)" using handle_rejected by blast
    then show ?thesis using Cons rejected by simp
  next
    case replayed
    then show ?thesis
      using Cons handle_replayed [OF replayed] by (simp add: event_def [of a] insert_known)
  next
    case fresh
    obtain t' where ins: "insert_if_absent (fst ?k) (snd ?k) ?n (ns_nonces s) = (True, t')"
      using insert_new [OF fresh(2)] by blast
    moreover have "fresh_at (ar_verify a, ar_now a) (timestamp (sm_envelope (ar_message a)))"
      using accepted_fresh [OF fresh(1) assms(1)] Cons.prems by simp
    moreover have "handle_request ne nd a s = serve_request ne nd a (sm_envelope (ar_message a))
        (s\<lparr>ns_nonces := snd (prune_older_than (?n - NONCE_TTL_SECONDS) t')\<rparr>)"
      by (simp add: handle_accepted [OF fresh(1)] ins)
    ultimately show ?thesis
      using Cons.IH [of "snd (handle_request ne nd a s)"] Cons.prems fresh(1)
      by (simp add: event_def [of a] record_audit_grows)
  qed
qed simp

section \<open>Private capabilities\<close>

definition hide_private :: "'b node \<Rightarrow> 'b node" where
  "hide_private nd = nd\<lparr>nd_registry :=
     filter (\<lambda>p. is_public (mode (decl (snd p)))) (nd_registry nd)\<rparr>"

lemma hide_private_fields [simp]:
  "nd_keypair (hide_private nd) = nd_keypair nd" "nd_endpoint (hide_private nd) = nd_endpoint nd"
  "nd_lobes (hide_private nd) = nd_lobes nd" "nd_alias (hide_private nd) = nd_alias nd"
  "nd_verify (hide_private nd) = nd_verify nd" "nd_blobs (hide_private nd) = nd_blobs nd"
  "nd_registry (hide_private nd) = filter (\<lambda>p. is_public (mode (decl (snd p)))) (nd_registry nd)"
  by (simp_all add: hide_private_def)

lemma map_of_filter_distinct:
  "distinct (map fst r) \<Longrightarrow> map_of (filter (\<lambda>p. P (snd p)) r) k =
     (case map_of r k of None \<Rightarrow> None | Some e \<Rightarrow> if P e then Some e else None)"
proof (induction r)
  case (Cons p r)
  then have "fst p \<notin> fst ` set (filter (\<lambda>p. P (snd p)) r)" by auto
  then have "map_of (filter (\<lambda>p. P (snd p)) r) (fst p) = None" by (simp add: map_of_eq_None_iff)
  then show ?case using Cons by (cases p) auto
qed simp

lemma map_of_public:
  assumes "reg_ok r"
  shows "map_of (filter (\<lambda>p. is_public (mode (decl (snd p)))) r) k =
    (case map_of r k of None \<Rightarrow> None | Some e \<Rightarrow> if mode (decl e) = Private then None else Some e)"
  using map_of_filter_distinct [of r "\<lambda>e. is_public (mode (decl e))" k] assms
  by (auto simp: reg_ok_def split: option.split)

lemma invoke_hide_private:
  assumes "reg_ok (nd_registry nd)"
  shows "invoke ne (hide_private nd) w pl = invoke ne nd w pl"
proof -
  have "reg_get c (nd_registry (hide_private nd)) =
      (case reg_get c (nd_registry nd) of None \<Rightarrow> None | Some d \<Rightarrow> if mode d = Private then None else Some d)" for c
    by (simp add: reg_get_def map_of_public [OF assms] del: is_public.simps split: option.split)
  moreover have "run_capability ne (nd_registry (hide_private nd)) c v = run_capability ne (nd_registry nd) c v"
    if "reg_get c (nd_registry nd) = Some d" "mode d \<noteq> Private" for c d v
    using that
    by (auto simp: run_capability_def binding_for_def reg_get_def map_of_public [OF assms] simp del: is_public.simps)
  ultimately show ?thesis
    by (auto simp: invoke_def simp del: hide_private_fields(7) split: option.split)
qed

lemma dispatch_hide_private:
  assumes "reg_ok (nd_registry nd)"
  shows "dispatch ne (hide_private nd) now env s = dispatch ne nd now env s"
proof -
  have "describe_self ne (hide_private nd) now = describe_self ne nd now"
    by (simp add: describe_self_def public_decls_def cong: sum.case_cong)
  then show ?thesis
    by (simp add: dispatch_def invoke_hide_private [OF assms] split: protocol_verb.split)
qed

lemma serve_hide_private:
  "reg_ok (nd_registry nd) \<Longrightarrow> serve_request ne (hide_private nd) a env s = serve_request ne nd a env s"
  by (simp add: serve_request_def dispatch_hide_private cong: sum.case_cong)

section \<open>A concrete node\<close>

definition toy_node_env :: "nat node_env" where
  "toy_node_env = wire_env.extend toy_wire
     \<lparr>backend_invoke = (\<lambda>c v. Inl (AdUnknownCapability c)), binding_invoke = (\<lambda>b v. Inr v),
      json_from_str = (\<lambda>_. None), serde_text = print_json, time_text = (\<lambda>_. [])\<rparr>"

definition toy_decl :: "string \<Rightarrow> access_mode \<Rightarrow> capability_decl" where
  "toy_decl n m = \<lparr>cap_name = n, description = [], schema_in = JNull, schema_out = JNull, mode = m,
     pricing = None, tags = [], lobe_ids = [], examples = [], disambiguation = None,
     negative_examples = [], output_semantic = None, version = default_cap_version,
     languages = [], countries = []\<rparr>"

definition toy_node :: "nat node" where
  "toy_node = \<lparr>nd_keypair = ''bob'',
     nd_registry = from_entries [(toy_decl ''echo'' Free, 1), (toy_decl ''notes'' Private, 2)],
     nd_lobes = [], nd_alias = None, nd_endpoint = Some ''http://bob'',
     nd_verify = default_verify_config,
     nd_blobs = \<lparr>blobs_dir = None, bc_instance = keypair_id toy_wire ''bob''\<rparr>\<rparr>"

definition toy_state :: node_state where
  "toy_state = \<lparr>ns_nonces = [], ns_peers = [], ns_audit = [],
     ns_blobs = \<lparr>bw_index = [], bw_files = (\<lambda>_. None)\<rparr>, ns_pulls = []\<rparr>"

definition toy_arrival :: arrival where
  "toy_arrival = \<lparr>ar_message = toy_message, ar_verify = 6000000000, ar_now = 6000000000,
     ar_done = 6000000000, ar_elapsed_ms = 0, ar_uuid = ''u''\<rparr>"

section \<open>Properties\<close>

text \<open>
  (no request is served twice). While the clock does not run backwards and no request waits
  more than 2900 s between the two clock readings, no two requests that reach a verb handler
  share sender, nonce and timestamp, although nonces are forgotten after an hour.
\<close>

theorem no_message_served_twice:
  assumes "unique_key nonce_key (ns_nonces s)" "nd_verify nd = default_verify_config"
    and "list_all (\<lambda>a. prompt (ar_verify a, ar_now a)) as"
    and "sorted (map (\<lambda>a. unix_timestamp (ar_now a)) as)"
  shows "distinct (map (\<lambda>a. (msg_key a, timestamp (sm_envelope (ar_message a)))) (served ne nd as s))"
proof -
  have "sorted (map (\<lambda>(p, k, c, i). unix_timestamp (snd i)) (map event (filter (accepted ne nd) as)))"
    using sorted_filter [OF assms(4), of "accepted ne nd"] by (simp add: comp_def event_def)
  from handler.no_replay [OF assms(1) this]
  show ?thesis
    unfolding served_admitted [OF assms(2,3), symmetric] by (simp add: comp_def event_def)
qed

lemma no_message_served_twice_witness:
  "distinct (map (\<lambda>a. (msg_key a, timestamp (sm_envelope (ar_message a))))
     (served toy_node_env toy_node [toy_arrival, toy_arrival] toy_state))"
  by (rule no_message_served_twice)
    (simp_all add: toy_state_def toy_node_def toy_arrival_def prompt_def LAG_def NANOS_def unique_key_def)



text \<open>
  (effects of a request). A message that fails verification or repeats a nonce changes nothing,
  the journal included; any other adds exactly one journal entry, under its signed sender, with
  status \<open>ok\<close> exactly if the verb handler succeeded, and touches the peer directory only then.
\<close>

theorem request_effects:
  "if \<not> accepted ne nd a then \<exists>e. handle_request ne nd a s = (Inl (Core e), s)
   else if nonce_stamp (msg_key a) (ns_nonces s) \<noteq> None then handle_request ne nd a s = (Inl Replay, s)
   else \<exists>e s'. snd (handle_request ne nd a s) = s' \<and> ns_audit s' = ns_audit s @ [e]
     \<and> ae_direction e = DirIn \<and> ae_peer_id e = fst (msg_key a) \<and> ns_blobs s' = ns_blobs s
     \<and> (ae_status e \<noteq> ''ok'' \<longrightarrow> ns_peers s' = ns_peers s \<and> ns_pulls s' = ns_pulls s)"
proof -
  consider (rejected) "\<not> accepted ne nd a"
    | (replayed) "accepted ne nd a" "nonce_stamp (msg_key a) (ns_nonces s) \<noteq> None"
    | (fresh) "accepted ne nd a" "nonce_stamp (msg_key a) (ns_nonces s) = None" by blast
  then show ?thesis
  proof cases
    case fresh
    obtain t' where "insert_if_absent (fst (msg_key a)) (snd (msg_key a)) (unix_timestamp (ar_now a))
        (ns_nonces s) = (True, t')" using insert_new [OF fresh(2)] by blast
    then have "handle_request ne nd a s = serve_request ne nd a (sm_envelope (ar_message a))
        (s\<lparr>ns_nonces := snd (prune_older_than (unix_timestamp (ar_now a) - NONCE_TTL_SECONDS) t')\<rparr>)"
      by (simp add: handle_accepted [OF fresh(1)])
    then show ?thesis
      using fresh
      by (simp add: record_audit_def record_entry_def msg_key_def)
        (simp add: serve_request_def Let_def split: sum.split)
  next
    case replayed
    then show ?thesis by (simp add: handle_replayed)
  qed (simp add: handle_rejected)
qed

lemma toy_node_env_wire:
  "verify_envelope toy_node_env = verify_envelope toy_wire" "keypair_id toy_node_env = keypair_id toy_wire"
  by (intro ext, simp add: toy_node_env_def wire_env.defs verify_envelope_def verify_signature_def
      canonical_bytes_def envelope_json_def from_public_key_def toy_wire_def crypto.defs
      signature_decode_def keypair_id_def public_key_verify_def public_key_def cong: sum.case_cong)+

lemma toy_accepted: "accepted toy_node_env toy_node toy_arrival"
  unfolding accepted_def toy_node_env_wire
  by (simp add: toy_node_def toy_arrival_def signed_accepted [OF toy_wire_laws(3,4) toy_message]
      toy_envelope_def default_verify_config_def NANOS_def)

lemma request_effects_witness:
  "\<exists>e s'. snd (handle_request toy_node_env toy_node toy_arrival toy_state) = s'
    \<and> ns_audit s' = [e] \<and> ae_direction e = DirIn \<and> ns_blobs s' = ns_blobs toy_state"
proof -
  have "nonce_stamp (msg_key toy_arrival) (ns_nonces toy_state) = None"
    by (simp add: nonce_stamp_def toy_state_def)
  moreover have "ns_audit toy_state = []" by (simp add: toy_state_def)
  ultimately show ?thesis
    using request_effects [of toy_node_env toy_node toy_arrival toy_state] toy_accepted by auto
qed

text \<open>
  (what a peer learns of our directory). The answer to \<open>get_known_peers\<close> lists stored peers
  only, at most 1000 and no more than asked for, and with a capability filter only those whose
  cached descriptor offers that capability publicly.
\<close>

theorem known_peers_answer:
  assumes "get_known_peers ne peers pl = Inr j" "dec_get_known_peers_request pl = Some req"
  shows "\<exists>r. dec_get_known_peers j = Some r
    \<and> length (gkp_peers r) \<le> nat (min (gkp_limit req) 1000)
    \<and> (\<forall>q\<in>set (gkp_peers r). \<exists>p\<in>set peers. ps_instance_id q = pr_id p
         \<and> ps_endpoint q = Some (pr_endpoint p)
         \<and> (case gkp_capability req of None \<Rightarrow> True | Some c \<Rightarrow> offers ne c p))"
proof -
  let ?ps = "peer_list (min (gkp_limit req) 1000) peers"
  let ?r = "\<lparr>gkp_peers = List.map_filter (summarise ne (gkp_capability req)) ?ps\<rparr>"
  have j: "j = enc_get_known_peers ?r" using assms by (simp add: get_known_peers_def)
  have lim: "0 \<le> gkp_limit req"
    using assms(2) by (rule gkp_limit_nonneg)
  have "length (List.map_filter (summarise ne (gkp_capability req)) ?ps) \<le> length ?ps"
    by (simp add: List.map_filter_def)
  also have "\<dots> \<le> nat (min (gkp_limit req) 1000)"
    unfolding peer_list_def using lim by (intro length_limit) simp
  finally have len: "length (gkp_peers ?r) \<le> nat (min (gkp_limit req) 1000)" by simp
  have same: "i = x" if "parse_instance_id x = Inr i" for x i
    using that by (auto simp: parse_instance_id_def Let_def split: option.splits if_splits)
  have "\<forall>q\<in>set (gkp_peers ?r). \<exists>p\<in>set peers. ps_instance_id q = pr_id p
         \<and> ps_endpoint q = Some (pr_endpoint p)
         \<and> (case gkp_capability req of None \<Rightarrow> True | Some c \<Rightarrow> offers ne c p)"
    using peer_list_subset [of "min (gkp_limit req) 1000" peers]
    by (fastforce simp: List.map_filter_def summarise_def dest: same split: sum.splits if_splits)
  with len j show ?thesis by auto
qed

lemma known_peers_answer_witness:
  "\<exists>r. dec_get_known_peers (enc_get_known_peers \<lparr>gkp_peers = []\<rparr>) = Some r
    \<and> length (gkp_peers r) \<le> nat (min 7 1000) \<and> gkp_peers r = []"
proof -
  let ?q = "json_obj [(''limit'', JInt 7)]"
  have d: "dec_get_known_peers_request ?q = Some \<lparr>gkp_limit = 7, gkp_capability = None\<rparr>"
    by (simp add: dec_get_known_peers_request_def field_defs dec_uint_def)
  then have "get_known_peers toy_node_env [] ?q = Inr (enc_get_known_peers \<lparr>gkp_peers = []\<rparr>)"
    by (simp add: get_known_peers_def peer_list_def limit_def List.map_filter_def)
  from known_peers_answer [OF this d] obtain r where
    r: "dec_get_known_peers (enc_get_known_peers \<lparr>gkp_peers = []\<rparr>) = Some r"
      "length (gkp_peers r) \<le> nat (min 7 1000)" "\<forall>q\<in>set (gkp_peers r). \<exists>p\<in>set []. ps_instance_id q = pr_id p"
    by fastforce
  then have "gkp_peers r = []" by (cases "gkp_peers r") auto
  with r show ?thesis by blast
qed

end
