(* ===== verification/Node_Lifecycle.thy ===== *)
theory Node_Lifecycle
  imports Bind_Runtime Node_Handler
begin

text \<open>
  \<open>crates/node/src/node.rs\<close>: the live node and the operations that swap its capability
  registry, backends, lobes and alias at runtime. Each operation reads and swaps the cells as
  one step. The manifest directory is read through \<open>manifest_env\<close>.
\<close>

section \<open>State\<close>

record live_node = "binding node" +
  ln_backends :: "backends option"
  ln_manifest_dir :: "string option"

record node_config =
  nc_endpoint :: "string option"
  nc_alias :: "string option"
  nc_lobes :: "string list"
  nc_verify :: verify_config
  nc_blobs_dir :: "string option"

definition new_node ::
  "('x) crypto_scheme \<Rightarrow> keypair \<Rightarrow> binding registry \<Rightarrow> node_config \<Rightarrow> live_node" where
  "new_node cr kp reg c =
     \<lparr>nd_keypair = kp, nd_registry = snd (enforce_instance_lobes (nc_lobes c) reg), nd_lobes = nc_lobes c,
      nd_alias = nc_alias c, nd_endpoint = nc_endpoint c, nd_verify = nc_verify c,
      nd_blobs = \<lparr>blobs_dir = nc_blobs_dir c, bc_instance = keypair_id cr kp\<rparr>,
      ln_backends = None, ln_manifest_dir = None\<rparr>"

definition with_manifest_runtime :: "backends \<Rightarrow> string \<Rightarrow> live_node \<Rightarrow> live_node" where
  "with_manifest_runtime bs dir n = n\<lparr>ln_backends := Some bs, ln_manifest_dir := Some dir\<rparr>"

definition set_node_alias :: "string option \<Rightarrow> live_node \<Rightarrow> live_node" where
  "set_node_alias a n = n\<lparr>nd_alias := a\<rparr>"

definition set_lobes :: "string list \<Rightarrow> live_node \<Rightarrow> live_node" where
  "set_lobes ls n = n\<lparr>nd_lobes := ls, nd_registry := snd (enforce_instance_lobes ls (nd_registry n))\<rparr>"

section \<open>Reloading\<close>

text \<open>The capabilities that can be served: malformed files and bindings that fail are skipped.\<close>

definition bind_cap :: "backends \<Rightarrow> capability_manifest \<Rightarrow> (capability_decl \<times> binding) option" where
  "bind_cap bs m =
     (case bs (spec_backend (cap_binding m)) of
        None \<Rightarrow> None
      | Some b \<Rightarrow>
          (case build_binding (cap_binding m) b of
             Inl _ \<Rightarrow> None
           | Inr bd \<Rightarrow> Some (cap_descriptor m, bd)))"

definition loadable ::
  "backends \<Rightarrow> (manifest_error, capability_manifest) result list \<Rightarrow> (capability_decl \<times> binding) list" where
  "loadable bs rs =
     List.map_filter (\<lambda>r. case r of Inl _ \<Rightarrow> None | Inr m \<Rightarrow> bind_cap bs m) rs"

definition reload_caps :: "manifest_env \<Rightarrow> live_node \<Rightarrow> (node_error, nat) result \<times> live_node" where
  "reload_caps me n =
     (case ln_manifest_dir n of
        None \<Rightarrow> (Inl (InvalidPayload (''node was not built in manifest mode ''
          @ map char_of [0xE2, 0x80, 0x94 :: nat] @ '' cap hot-reload unavailable'')), n)
      | Some dir \<Rightarrow>
          (case ln_backends n of
             None \<Rightarrow> (Inl (InvalidPayload (''node has no backends registry ''
               @ map char_of [0xE2, 0x80, 0x94 :: nat] @ '' cap hot-reload unavailable'')), n)
           | Some bs \<Rightarrow>
               let caps_dir = path_join dir ''caps''; entries = loadable bs (load_cap_dir me caps_dir) in
               if entries = [] then
                 let files = length (load_cap_dir me caps_dir) in
                 (if 0 < files
                  then Inl (InvalidPayload (''none of the '' @ dec files @ '' cap manifest(s) in '' @ caps_dir
                    @ '' could be loaded '' @ map char_of [0xE2, 0x80, 0x94 :: nat]
                    @ '' check the backend each one binds to''))
                  else Inr 0, n)
               else
                 let reg = snd (enforce_instance_lobes (nd_lobes n) (from_entries entries))
                 in (Inr (reg_len reg), n\<lparr>nd_registry := reg\<rparr>)))"

definition ok_manifests :: "(manifest_error, backend_manifest) result list \<Rightarrow> backend_manifest list" where
  "ok_manifests rs = List.map_filter (\<lambda>r. case r of Inl _ \<Rightarrow> None | Inr m \<Rightarrow> Some m) rs"

definition backends_count :: "backend_manifest list \<Rightarrow> nat" where
  "backends_count ms = card (bm_name ` set ms)"

definition reload_backends ::
  "manifest_env \<Rightarrow> live_node \<Rightarrow> (node_error, nat \<times> nat) result \<times> live_node" where
  "reload_backends me n =
     (case ln_manifest_dir n of
        None \<Rightarrow> (Inl (InvalidPayload (''node was not built in manifest mode ''
          @ map char_of [0xE2, 0x80, 0x94 :: nat] @ '' backend hot-reload unavailable'')), n)
      | Some dir \<Rightarrow>
          (case ln_backends n of
             None \<Rightarrow> (Inl (InvalidPayload (''node has no backends registry ''
               @ map char_of [0xE2, 0x80, 0x94 :: nat] @ '' backend hot-reload unavailable'')), n)
           | Some _ \<Rightarrow>
               let ms = ok_manifests (load_backend_dir me (path_join dir ''backends'')) in
               (case backends_from ms Map.empty of
                  Inl e \<Rightarrow> (Inl e, n)
                | Inr bs \<Rightarrow>
                    let (r, n1) = reload_caps me (n\<lparr>ln_backends := Some bs\<rparr>) in
                    (case r of
                       Inr caps \<Rightarrow> Inr (backends_count ms, caps)
                     | Inl e \<Rightarrow> Inl (PartialReload (backends_count ms) (node_error_text e)), n1))))"

definition is_manifest_mode :: "live_node \<Rightarrow> bool" where
  "is_manifest_mode n \<longleftrightarrow> ln_manifest_dir n \<noteq> None"

definition has_openai_compat_backend :: "string \<Rightarrow> live_node \<Rightarrow> bool" where
  "has_openai_compat_backend name n =
     (case Option.bind (ln_backends n) (\<lambda>bs. bs name) of Some (LiveOpenAI _) \<Rightarrow> True | _ \<Rightarrow> False)"

section \<open>A node under administration\<close>

datatype admin_op =
    Rename "string option"
  | JoinLobes "string list"
  | ReloadCaps manifest_env
  | ReloadBackends manifest_env

fun admin_step :: "admin_op \<Rightarrow> live_node \<Rightarrow> live_node" where
  "admin_step (Rename a) n = set_node_alias a n"
| "admin_step (JoinLobes ls) n = set_lobes ls n"
| "admin_step (ReloadCaps me) n = snd (reload_caps me n)"
| "admin_step (ReloadBackends me) n = snd (reload_backends me n)"

definition lobes_ok :: "('b, 'x) node_scheme \<Rightarrow> bool" where
  "lobes_ok n \<longleftrightarrow>
     reg_ok (nd_registry n) \<and> list_all (\<lambda>d. set (lobe_ids d) \<subseteq> set (nd_lobes n)) (reg_all (nd_registry n))"

section \<open>Lemmas\<close>

lemma enforced_lobes:
  "list_all (\<lambda>d. set (lobe_ids d) \<subseteq> set ls) (reg_all (snd (enforce_instance_lobes ls r)))"
  by (auto simp: enforce_snd reg_all_def restrict_lobes_set list_all_iff)

lemma lobes_ok_enforced:
  assumes "reg_ok r" "nd_registry n = snd (enforce_instance_lobes (nd_lobes n) r)"
  shows "lobes_ok n"
  unfolding lobes_ok_def assms(2) using enforced_lobes reg_ok_enforce [OF assms(1)] by blast

lemma new_node_ok: "reg_ok r \<Longrightarrow> lobes_ok (new_node cr kp r c)"
  by (rule lobes_ok_enforced) (simp_all add: new_node_def)

lemma reload_caps_cases:
  obtains e where "reload_caps me n = (Inl e, n)"
  | "reload_caps me n = (Inr 0, n)"
  | dir bs es where "ln_manifest_dir n = Some dir" "ln_backends n = Some bs"
      "es = loadable bs (load_cap_dir me (path_join dir ''caps''))" "es \<noteq> []"
      "reload_caps me n = (Inr (reg_len (snd (enforce_instance_lobes (nd_lobes n) (from_entries es)))),
         n\<lparr>nd_registry := snd (enforce_instance_lobes (nd_lobes n) (from_entries es))\<rparr>)"
proof (cases "ln_manifest_dir n")
  case None
  then show ?thesis using that(1) by (simp add: reload_caps_def)
next
  case dir: (Some dir)
  show ?thesis
  proof (cases "ln_backends n")
    case None
    then show ?thesis using that(1) dir by (simp add: reload_caps_def)
  next
    case bs: (Some bs)
    show ?thesis
    proof (cases "loadable bs (load_cap_dir me (path_join dir ''caps'')) = []")
      case True
      then show ?thesis
        using that(1,2) dir bs by (cases "load_cap_dir me (path_join dir ''caps'') = []")
          (simp_all add: reload_caps_def Let_def)
    next
      case False
      then show ?thesis using that(3) [OF dir bs refl] dir bs by (simp add: reload_caps_def Let_def)
    qed
  qed
qed

lemma from_entries_nonempty:
  assumes "es \<noteq> []"
  shows "from_entries es \<noteq> []"
proof -
  have "reg_insert k e r \<noteq> []" for k and e :: "'a entry" and r
    by (cases r) (simp_all add: reg_insert_def)
  then show ?thesis
    using assms by (cases es rule: rev_cases) (simp_all add: from_entries_def prod.case_eq_if)
qed

lemma reload_caps_keeps:
  assumes "reload_caps me n = (r, n')"
  shows "lobes_ok n \<Longrightarrow> lobes_ok n'" "nd_registry n \<noteq> [] \<Longrightarrow> nd_registry n' \<noteq> []"
    "nd_lobes n' = nd_lobes n" "isl r \<Longrightarrow> n' = n"
  using assms
  by (cases rule: reload_caps_cases [of me n];
      auto simp: enforce_snd from_entries_nonempty intro!: lobes_ok_enforced reg_ok_from_entries)+

lemma lobes_ok_backends [simp]: "lobes_ok (n\<lparr>ln_backends := b\<rparr>) \<longleftrightarrow> lobes_ok n"
  by (simp add: lobes_ok_def)

lemma reload_backends_cases:
  obtains e where "reload_backends me n = (Inl e, n)"
  | bs r n' where "reload_caps me (n\<lparr>ln_backends := Some bs\<rparr>) = (r, n')" "snd (reload_backends me n) = n'"
proof (cases "ln_manifest_dir n")
  case None
  then show ?thesis using that(1) by (simp add: reload_backends_def)
next
  case dir: (Some dir)
  show ?thesis
  proof (cases "ln_backends n")
    case None
    then show ?thesis using that(1) dir by (simp add: reload_backends_def)
  next
    case old: (Some old)
    let ?ms = "ok_manifests (load_backend_dir me (path_join dir ''backends''))"
    show ?thesis
    proof (cases "backends_from ?ms Map.empty")
      case (Inl e)
      then show ?thesis using that(1) dir old by (simp add: reload_backends_def Let_def)
    next
      case (Inr bs)
      obtain r n' where "reload_caps me (n\<lparr>ln_backends := Some bs\<rparr>) = (r, n')" by force
      then show ?thesis using that(2) [of bs r n'] dir old Inr by (simp add: reload_backends_def Let_def)
    qed
  qed
qed

lemma admin_step_keeps:
  shows "lobes_ok n \<Longrightarrow> lobes_ok (admin_step op n)"
    "nd_registry n \<noteq> [] \<Longrightarrow> nd_registry (admin_step op n) \<noteq> []"
proof -
  have "(lobes_ok n \<longrightarrow> lobes_ok (admin_step op n))
      \<and> (nd_registry n \<noteq> [] \<longrightarrow> nd_registry (admin_step op n) \<noteq> [])"
  proof (cases op)
    case (Rename a)
    then show ?thesis by (simp add: set_node_alias_def lobes_ok_def)
  next
    case (JoinLobes ls)
    have "lobes_ok n \<longrightarrow> lobes_ok (set_lobes ls n)"
      by (intro impI lobes_ok_enforced [of "nd_registry n"]) (simp_all add: lobes_ok_def set_lobes_def)
    then show ?thesis using JoinLobes by (simp add: set_lobes_def enforce_snd)
  next
    case (ReloadCaps me)
    obtain r n' where "reload_caps me n = (r, n')" by force
    from reload_caps_keeps [OF this] this show ?thesis by (simp add: ReloadCaps)
  next
    case (ReloadBackends me)
    show ?thesis
    proof (rule reload_backends_cases [of me n])
      fix bs r n' assume "reload_caps me (n\<lparr>ln_backends := Some bs\<rparr>) = (r, n')" "snd (reload_backends me n) = n'"
      with reload_caps_keeps [OF this(1)] show ?thesis by (simp add: ReloadBackends)
    qed (simp add: ReloadBackends)
  qed
  then show "lobes_ok n \<Longrightarrow> lobes_ok (admin_step op n)"
    "nd_registry n \<noteq> [] \<Longrightarrow> nd_registry (admin_step op n) \<noteq> []" by blast+
qed

lemma admin_run_keeps:
  shows "lobes_ok n \<Longrightarrow> lobes_ok (fold admin_step ops n)"
    "nd_registry n \<noteq> [] \<Longrightarrow> nd_registry (fold admin_step ops n) \<noteq> []"
  by (induction ops arbitrary: n) (simp_all add: admin_step_keeps)

section \<open>Properties\<close>


text \<open>
  (a reload never retires a working node). No administrative operation turns a node that
  serves capabilities into one that serves none, and a capability reload that fails changes
  nothing at all.
\<close>

theorem reload_keeps_serving:
  assumes "nd_registry n \<noteq> []"
  shows "nd_registry (fold admin_step ops n) \<noteq> [] \<and> (isl (fst (reload_caps me n)) \<longrightarrow> snd (reload_caps me n) = n)"
  using admin_run_keeps(2) [OF assms] reload_caps_keeps(4) [of me n] by (cases "reload_caps me n") auto

text \<open>
  (leaving and rejoining a lobe). While the manifests load, a reload makes the registry a
  function of the manifests, the backends and the current lobes: lobes stripped while a lobe was
  left are back after rejoining and reloading, and reloading twice is reloading once.
\<close>

theorem reload_forgets_history:
  assumes "ln_manifest_dir n = Some dir" "ln_backends n = Some bs"
    and "loadable bs (load_cap_dir me (path_join dir ''caps'')) \<noteq> []"
  shows "nd_registry (snd (reload_caps me (set_lobes ls (set_lobes left n))))
      = nd_registry (snd (reload_caps me (set_lobes ls n)))
    \<and> snd (reload_caps me (snd (reload_caps me n))) = snd (reload_caps me n)"
  using assms by (simp add: reload_caps_def set_lobes_def Let_def)

definition toy_config :: node_config where
  "toy_config = \<lparr>nc_endpoint = None, nc_alias = None, nc_lobes = [''a''], nc_verify = default_verify_config,
     nc_blobs_dir = None\<rparr>"

definition toy_live :: live_node where
  "toy_live = with_manifest_runtime [''tools'' \<mapsto> LiveMcp toy_mcp] [] (new_node toy_wire ''bob''
     (from_entries [(echo_decl, McpBinding toy_mcp
        \<lparr>mb_backend = ''tools'', mb_tool = ''echo'', mb_arg_mapping = [], mb_result_mapping = []\<rparr>)]) toy_config)"

definition toy_live_env :: "binding node_env" where
  "toy_live_env = wire_env.extend toy_wire
     \<lparr>backend_invoke = echo_invoke,
      binding_invoke = (\<lambda>b v. fst (invoke_binding toy_upstream (\<lambda>_ _. Inr []) (toy_mcp_env [] JNull) b v None)),
      json_from_str = (\<lambda>_. None), serde_text = print_json, time_text = (\<lambda>_. [])\<rparr>"


lemma reload_keeps_serving_witness:
  "nd_registry (fold admin_step [JoinLobes [], ReloadCaps toy_manifest_env, Rename None] toy_live) \<noteq> []"
proof -
  have "nd_registry toy_live \<noteq> []"
    by (simp add: toy_live_def with_manifest_runtime_def new_node_def enforce_snd from_entries_def reg_insert_def)
  from reload_keeps_serving [OF this] show ?thesis by blast
qed

lemma reload_forgets_history_witness:
  "nd_registry (snd (reload_caps toy_manifest_env (set_lobes [''a''] (set_lobes [] toy_live))))
     = nd_registry (snd (reload_caps toy_manifest_env (set_lobes [''a''] toy_live)))"
proof -
  have d: "ln_manifest_dir toy_live = Some []" "ln_backends toy_live = Some [''tools'' \<mapsto> LiveMcp toy_mcp]"
    by (simp_all add: toy_live_def with_manifest_runtime_def)
  have "loadable [''tools'' \<mapsto> LiveMcp toy_mcp] (load_cap_dir toy_manifest_env (path_join [] ''caps'')) \<noteq> []"
    by code_simp
  from reload_forgets_history [OF d this] show ?thesis by blast
qed

end
