(* ===== verification/Node_Discovery.thy ===== *)
theory Node_Discovery
  imports Node_Handler Error_Text
begin

text \<open>
  \<open>crates/node/src/client.rs\<close> and \<open>discovery.rs\<close>: signed calls to other nodes, the bootstrap
  walk and the on-demand cascade. The network, the clock and the random source are parameters
  indexed by the number of calls made so far, so that every answer may differ; a call under
  \<open>tokio::time::timeout\<close> is dropped when \<open>times_out\<close> says so, which loses no write because
  the writes of \<open>refresh_peer\<close> follow its last await. Logging is left out.
\<close>

section \<open>The outbound client\<close>

datatype client_error =
    CHttp string
  | CStatus nat string
  | CInvalid string
  | CCore core_error
  | CSerde string

fun client_error_text :: "client_error \<Rightarrow> string" where
  "client_error_text (CHttp s) = ''http transport: '' @ s"
| "client_error_text (CStatus n b) = ''non-success status '' @ dec n @ '': '' @ b"
| "client_error_text (CInvalid s) = ''invalid response: '' @ s"
| "client_error_text (CCore e) = ''core: '' @ core_error_text e"
| "client_error_text (CSerde s) = ''serde: '' @ s"

record 'b net_env = "'b node_env" +
  http_get :: "nat \<Rightarrow> string \<Rightarrow> (string, nat \<times> string) result"
  http_post :: "nat \<Rightarrow> string \<Rightarrow> signed_message \<Rightarrow> (string, nat \<times> string) result"
  message_from_slice :: "string \<Rightarrow> signed_message option"
  serde_fault :: "string \<Rightarrow> string"
  utf8_lossy :: "string \<Rightarrow> string"
  clock_at :: "nat \<Rightarrow> time"
  uuid_at :: "nat \<Rightarrow> string"
  times_out :: "nat \<Rightarrow> bool"

definition response_body ::
  "('b, 'x) net_env_scheme \<Rightarrow> (string, nat \<times> string) result \<Rightarrow> (client_error, string) result" where
  "response_body ne r =
     (case r of
        Inl e \<Rightarrow> Inl (CHttp e)
      | Inr (code, bytes) \<Rightarrow>
          (if code < 200 \<or> 300 \<le> code then Inl (CStatus code (utf8_lossy ne bytes)) else Inr bytes))"

definition dec_health :: "json \<Rightarrow> string option" where
  "dec_health j = Option.bind (struct_fields [''instance_id''] j) (\<lambda>m. field_req as_str m ''instance_id'')"

definition discover_peer_id ::
  "('b, 'x) net_env_scheme \<Rightarrow> nat \<Rightarrow> string \<Rightarrow> (client_error, instance_id) result" where
  "discover_peer_id ne k base =
     (case response_body ne (http_get ne k (trim_end_char CHR ''/'' base @ ''/n3ur0n/v0/health'')) of
        Inl e \<Rightarrow> Inl e
      | Inr bytes \<Rightarrow>
          (case Option.bind (json_from_str ne bytes) dec_health of
             None \<Rightarrow> Inl (CSerde (serde_fault ne bytes))
           | Some i \<Rightarrow> (case parse_instance_id i of Inl e \<Rightarrow> Inl (CCore e) | Inr r \<Rightarrow> Inr r)))"

definition check_reply ::
  "('b, 'x) net_env_scheme \<Rightarrow> instance_id \<Rightarrow> instance_id \<Rightarrow> string
     \<Rightarrow> (client_error, signed_message) result" where
  "check_reply ne me rcpt bytes =
     (case message_from_slice ne bytes of
        None \<Rightarrow> Inl (CSerde (serde_fault ne bytes))
      | Some reply \<Rightarrow>
          (case verify_signature ne reply of
             Inl e \<Rightarrow> Inl (CCore e)
           | Inr _ \<Rightarrow>
               if recipient_id (sm_envelope reply) \<noteq> me
               then Inl (CInvalid ''reply not addressed to us'')
               else if sender_id (sm_envelope reply) \<noteq> rcpt
               then Inl (CInvalid ''reply sender_id does not match contacted peer'')
               else Inr reply))"

definition request_envelope ::
  "('b, 'x) net_env_scheme \<Rightarrow> nat \<Rightarrow> keypair \<Rightarrow> instance_id \<Rightarrow> protocol_verb \<Rightarrow> json
     \<Rightarrow> string option \<Rightarrow> envelope" where
  "request_envelope ne k kp rcpt v pl ep =
     \<lparr>sender_id = keypair_id ne kp, recipient_id = rcpt, timestamp = clock_at ne k,
      nonce = uuid_at ne k, verb = v, payload = pl, sender_endpoint = ep\<rparr>"

definition send_signed ::
  "('b, 'x) net_env_scheme \<Rightarrow> nat \<Rightarrow> keypair \<Rightarrow> string \<Rightarrow> protocol_verb \<Rightarrow> json
     \<Rightarrow> string option \<Rightarrow> (client_error, signed_message) result" where
  "send_signed ne k kp base v pl ep =
     (case discover_peer_id ne k base of
        Inl e \<Rightarrow> Inl e
      | Inr rcpt \<Rightarrow>
          (case sign_envelope ne kp (request_envelope ne k kp rcpt v pl ep) of
             Inl e \<Rightarrow> Inl (CCore e)
           | Inr req \<Rightarrow>
               (case response_body ne
                   (http_post ne k (trim_end_char CHR ''/'' base @ ''/n3ur0n/v0/messages'') req) of
                  Inl e \<Rightarrow> Inl e
                | Inr bytes \<Rightarrow> check_reply ne (keypair_id ne kp) rcpt bytes)))"

definition reply_as ::
  "('b, 'x) net_env_scheme \<Rightarrow> (json \<Rightarrow> 'r option) \<Rightarrow> (client_error, signed_message) result
     \<Rightarrow> (client_error, 'r) result" where
  "reply_as ne decode r =
     (case r of
        Inl e \<Rightarrow> Inl e
      | Inr m \<Rightarrow>
          (case decode (payload (sm_envelope m)) of
             None \<Rightarrow> Inl (CSerde (serde_fault ne (serde_text ne (payload (sm_envelope m)))))
           | Some v \<Rightarrow> Inr v))"

definition client_describe_self ::
  "('b, 'x) net_env_scheme \<Rightarrow> nat \<Rightarrow> keypair \<Rightarrow> string \<Rightarrow> string option
     \<Rightarrow> (client_error, describe_self_response) result" where
  "client_describe_self ne k kp base ep =
     reply_as ne dec_describe_self (send_signed ne k kp base DescribeSelf (json_obj []) ep)"

definition client_known_peers ::
  "('b, 'x) net_env_scheme \<Rightarrow> nat \<Rightarrow> keypair \<Rightarrow> string \<Rightarrow> get_known_peers_request \<Rightarrow> string option
     \<Rightarrow> (client_error, get_known_peers_response) result" where
  "client_known_peers ne k kp base req ep =
     reply_as ne dec_get_known_peers
       (send_signed ne k kp base GetKnownPeers (enc_get_known_peers_request req) ep)"

section \<open>Refreshing one peer\<close>

definition node_id :: "('x) crypto_scheme \<Rightarrow> 'b node \<Rightarrow> instance_id" where
  "node_id ne nd = keypair_id ne (nd_keypair nd)"

definition peer_row ::
  "('b, 'x) node_env_scheme \<Rightarrow> string \<Rightarrow> int \<Rightarrow> describe_self_response \<Rightarrow> peer_record" where
  "peer_row ne endpoint now d =
     \<lparr>pr_id = ds_instance_id d, pr_endpoint = endpoint, pr_alias = ds_alias d,
      last_seen = Some now, tls_fingerprint = None,
      describe_self_cached = Some (serde_text ne (enc_describe_self d)),
      describe_self_fetched_at = Some now, pr_source = Some ''bootstrap''\<rparr>"

definition refresh_peer ::
  "('b, 'x) net_env_scheme \<Rightarrow> 'b node \<Rightarrow> nat \<Rightarrow> string \<Rightarrow> peer_table
     \<Rightarrow> (node_error, describe_self_response) result \<times> peer_table" where
  "refresh_peer ne nd k endpoint t =
     (case client_describe_self ne k (nd_keypair nd) endpoint (nd_endpoint nd) of
        Inl e \<Rightarrow>
          (Inl (InvalidPayload (''describe_self '' @ endpoint @ '': '' @ client_error_text e)), t)
      | Inr d \<Rightarrow>
          (if ds_instance_id d = node_id ne nd then (Inr d, t)
           else (Inr d, set_alias (ds_instance_id d) (ds_alias d)
             (peer_upsert (peer_row ne endpoint (unix_timestamp (clock_at ne k)) d) t))))"

text \<open>The same under a 10 s timeout: \<open>None\<close> when it fires.\<close>

definition refresh_in_time ::
  "('b, 'x) net_env_scheme \<Rightarrow> 'b node \<Rightarrow> nat \<Rightarrow> string \<Rightarrow> peer_table
     \<Rightarrow> (node_error, describe_self_response) result option \<times> peer_table" where
  "refresh_in_time ne nd k endpoint t =
     (if times_out ne k then (None, t)
      else (let (r, t') = refresh_peer ne nd k endpoint t in (Some r, t')))"

definition known_peers_in_time ::
  "('b, 'x) net_env_scheme \<Rightarrow> 'b node \<Rightarrow> nat \<Rightarrow> string \<Rightarrow> get_known_peers_request
     \<Rightarrow> peer_summary list option" where
  "known_peers_in_time ne nd k endpoint req =
     (if times_out ne k then None
      else (case client_known_peers ne k (nd_keypair nd) endpoint req (nd_endpoint nd) of
              Inl _ \<Rightarrow> None
            | Inr r \<Rightarrow> Some (gkp_peers r)))"

section \<open>Bootstrap\<close>

definition CASCADE_FAN_OUT :: nat where
  "CASCADE_FAN_OUT = 5"

definition BOOTSTRAP_MAX_PEERS :: nat where
  "BOOTSTRAP_MAX_PEERS = 100"

definition BOOTSTRAP_PAGE_SIZE :: int where
  "BOOTSTRAP_PAGE_SIZE = 50"

record bootstrap_outcome =
  bo_endpoint :: string
  bo_instance_id :: "string option"
  bo_error :: "string option"

fun bootstrap_initial_peers ::
  "('b, 'x) net_env_scheme \<Rightarrow> 'b node \<Rightarrow> string list \<Rightarrow> nat \<Rightarrow> peer_table
     \<Rightarrow> bootstrap_outcome list \<times> nat \<times> peer_table" where
  "bootstrap_initial_peers ne nd [] k t = ([], k, t)"
| "bootstrap_initial_peers ne nd (ep # eps) k t =
     (let (r, t1) = refresh_peer ne nd k ep t;
          outcome = (case r of
              Inr d \<Rightarrow> \<lparr>bo_endpoint = ep, bo_instance_id = Some (ds_instance_id d), bo_error = None\<rparr>
            | Inl e \<Rightarrow> \<lparr>bo_endpoint = ep, bo_instance_id = None, bo_error = Some (node_error_text e)\<rparr>);
          (out, k', t') = bootstrap_initial_peers ne nd eps (Suc k) t1
      in (outcome # out, k', t'))"

record walk =
  wk_calls :: nat
  wk_peers :: peer_table
  wk_visited :: "string list"
  wk_total :: nat
  wk_next :: "string list"

fun walk_summaries ::
  "('b, 'x) net_env_scheme \<Rightarrow> 'b node \<Rightarrow> peer_summary list \<Rightarrow> walk \<Rightarrow> walk" where
  "walk_summaries ne nd [] w = w"
| "walk_summaries ne nd (q # qs) w =
     (if BOOTSTRAP_MAX_PEERS \<le> wk_total w then w
      else if ps_instance_id q \<in> set (wk_visited w) then walk_summaries ne nd qs w
      else let w1 = w\<lparr>wk_visited := ps_instance_id q # wk_visited w\<rparr> in
        case ps_endpoint q of
          None \<Rightarrow> walk_summaries ne nd qs w1
        | Some ep \<Rightarrow>
            let (r, t) = refresh_in_time ne nd (wk_calls w) ep (wk_peers w);
                w2 = w1\<lparr>wk_calls := Suc (wk_calls w), wk_peers := t\<rparr>
            in walk_summaries ne nd qs
                 (case r of
                    Some (Inr _) \<Rightarrow> w2\<lparr>wk_total := Suc (wk_total w), wk_next := wk_next w @ [ep]\<rparr>
                  | _ \<Rightarrow> w2))"

fun walk_frontier ::
  "('b, 'x) net_env_scheme \<Rightarrow> 'b node \<Rightarrow> string list \<Rightarrow> walk \<Rightarrow> walk" where
  "walk_frontier ne nd [] w = w"
| "walk_frontier ne nd (ep # eps) w =
     (let asked = known_peers_in_time ne nd (wk_calls w) ep
            \<lparr>gkp_limit = BOOTSTRAP_PAGE_SIZE, gkp_capability = None\<rparr>;
          w1 = w\<lparr>wk_calls := Suc (wk_calls w)\<rparr>
      in walk_frontier ne nd eps
           (case asked of None \<Rightarrow> w1 | Some qs \<Rightarrow> walk_summaries ne nd qs w1))"

fun walk_levels ::
  "('b, 'x) net_env_scheme \<Rightarrow> 'b node \<Rightarrow> nat \<Rightarrow> string list \<Rightarrow> walk \<Rightarrow> walk" where
  "walk_levels ne nd 0 frontier w = w"
| "walk_levels ne nd (Suc depth) frontier w =
     (if frontier = [] \<or> BOOTSTRAP_MAX_PEERS \<le> wk_total w then w
      else let w1 = walk_frontier ne nd frontier (w\<lparr>wk_next := []\<rparr>)
           in walk_levels ne nd depth (wk_next w1) w1)"

definition walk_start :: "instance_id \<Rightarrow> bootstrap_outcome list \<Rightarrow> nat \<Rightarrow> peer_table \<Rightarrow> walk" where
  "walk_start me seeds k t =
     \<lparr>wk_calls = k, wk_peers = t, wk_visited = me # List.map_filter bo_instance_id seeds,
      wk_total = length (filter (\<lambda>b. bo_error b = None) seeds), wk_next = []\<rparr>"

definition bootstrap_transitive ::
  "('b, 'x) net_env_scheme \<Rightarrow> 'b node \<Rightarrow> string list \<Rightarrow> nat \<Rightarrow> nat \<Rightarrow> peer_table
     \<Rightarrow> bootstrap_outcome list \<times> walk" where
  "bootstrap_transitive ne nd seeds max_depth k t =
     (let (outcomes, k', t') = bootstrap_initial_peers ne nd seeds k t;
          w = walk_start (node_id ne nd) outcomes k' t'
      in if max_depth = 0 then (outcomes, w)
         else (outcomes, walk_levels ne nd max_depth
           (map bo_endpoint (filter (\<lambda>b. bo_instance_id b \<noteq> None) outcomes)) w))"

section \<open>The cascade\<close>

record cascade =
  cs_calls :: nat
  cs_peers :: peer_table
  cs_new :: nat

fun cascade_summaries ::
  "('b, 'x) net_env_scheme \<Rightarrow> 'b node \<Rightarrow> peer_summary list \<Rightarrow> cascade \<Rightarrow> cascade" where
  "cascade_summaries ne nd [] c = c"
| "cascade_summaries ne nd (q # qs) c =
     (if ps_instance_id q = node_id ne nd then cascade_summaries ne nd qs c
      else if peer_get (ps_instance_id q) (cs_peers c) \<noteq> None then cascade_summaries ne nd qs c
      else case ps_endpoint q of
          None \<Rightarrow> cascade_summaries ne nd qs c
        | Some ep \<Rightarrow>
            let (r, t) = refresh_in_time ne nd (cs_calls c) ep (cs_peers c);
                c1 = c\<lparr>cs_calls := Suc (cs_calls c), cs_peers := t\<rparr>
            in cascade_summaries ne nd qs
                 (case r of Some (Inr _) \<Rightarrow> c1\<lparr>cs_new := Suc (cs_new c)\<rparr> | _ \<Rightarrow> c1))"

fun cascade_sample ::
  "('b, 'x) net_env_scheme \<Rightarrow> 'b node \<Rightarrow> get_known_peers_request \<Rightarrow> peer_record list \<Rightarrow> cascade \<Rightarrow> cascade"
where
  "cascade_sample ne nd req [] c = c"
| "cascade_sample ne nd req (p # ps) c =
     (let asked = known_peers_in_time ne nd (cs_calls c) (pr_endpoint p) req;
          c1 = c\<lparr>cs_calls := Suc (cs_calls c)\<rparr>
      in cascade_sample ne nd req ps
           (case asked of None \<Rightarrow> c1 | Some qs \<Rightarrow> cascade_summaries ne nd qs c1))"

definition discover_capability ::
  "('b, 'x) net_env_scheme \<Rightarrow> (peer_record list \<Rightarrow> peer_record list) \<Rightarrow> 'b node \<Rightarrow> string
     \<Rightarrow> nat \<Rightarrow> peer_table \<Rightarrow> cascade" where
  "discover_capability ne shuffle nd capability k t =
     (let known = peer_list 1000 t; c = \<lparr>cs_calls = k, cs_peers = t, cs_new = 0\<rparr> in
      if known = [] then c
      else cascade_sample ne nd \<lparr>gkp_limit = 100, gkp_capability = Some capability\<rparr>
        (take CASCADE_FAN_OUT (shuffle known)) c)"

section \<open>What refreshing does to the directory\<close>

lemma length_peer_upsert: "length (peer_upsert r t) \<le> Suc (length t)"
  by (simp add: peer_upsert_def sql_upsert_def sql_update_def)

lemma length_set_alias [simp]: "length (set_alias i a t) = length t"
  by (simp add: set_alias_def sql_update_def)

lemma peer_get_set_alias:
  "peer_get i (set_alias j a t) =
     (if i = j then map_option (\<lambda>r. r\<lparr>pr_alias := a\<rparr>) (peer_get i t) else peer_get i t)"
  unfolding peer_get_def set_alias_def by (rule select_by_update_key) simp

lemma unique_set_alias [simp]: "unique_key pr_id (set_alias i a t) \<longleftrightarrow> unique_key pr_id t"
  unfolding set_alias_def by (rule unique_key_update_iff) simp

lemma refresh_failed [simp]:
  "fst (refresh_peer ne nd k ep t) = Inl e \<Longrightarrow> snd (refresh_peer ne nd k ep t) = t"
  by (auto simp: refresh_peer_def split: sum.splits if_splits)

lemma refresh_known:
  assumes "fst (refresh_peer ne nd k ep t) = Inr d"
  shows "peer_get i (snd (refresh_peer ne nd k ep t)) =
    (if i = ds_instance_id d \<and> i \<noteq> node_id ne nd
     then Some (let new = peer_row ne ep (unix_timestamp (clock_at ne k)) d in
       case peer_get i t of
         None \<Rightarrow> new
       | Some old \<Rightarrow> (peer_merge old new)\<lparr>pr_alias := ds_alias d\<rparr>)
     else peer_get i t)"
  using assms
  by (auto simp: refresh_peer_def peer_get_set_alias peers.lookup_put peer_row_def Let_def
      split: sum.splits if_splits option.splits)

lemma length_refresh:
  "length (snd (refresh_peer ne nd k ep t))
     \<le> length t + (case fst (refresh_peer ne nd k ep t) of Inl _ \<Rightarrow> 0 | Inr _ \<Rightarrow> 1)"
  using length_peer_upsert by (simp add: refresh_peer_def split: sum.split)

text \<open>What one refresh keeps of the directory, every form of discovery keeps.\<close>

locale refresh_invariant =
  fixes ne :: "('b, 'x) net_env_scheme" and nd :: "'b node" and inv :: "peer_table \<Rightarrow> bool"
  assumes refresh: "inv t \<Longrightarrow> inv (snd (refresh_peer ne nd k ep t))"
begin

lemma refreshed: "refresh_peer ne nd k ep t = (r, t') \<Longrightarrow> inv t \<Longrightarrow> inv t'"
  using refresh [of t k ep] by simp

lemma refreshed_timed: "refresh_in_time ne nd k ep t = (r, t') \<Longrightarrow> inv t \<Longrightarrow> inv t'"
  by (auto simp: refresh_in_time_def split: if_splits prod.splits dest: refreshed)

lemma initial: "inv t \<Longrightarrow> inv (snd (snd (bootstrap_initial_peers ne nd eps k t)))"
proof (induction eps arbitrary: k t)
  case (Cons ep eps)
  have "inv (snd (refresh_peer ne nd k ep t))" using Cons.prems by (rule refresh)
  from Cons.IH [OF this] show ?case by (simp add: Let_def prod.case_eq_if)
qed simp

lemma summaries: "inv (wk_peers w) \<Longrightarrow> inv (wk_peers (walk_summaries ne nd qs w))"
  by (induction qs arbitrary: w)
    (auto simp: Let_def split: prod.split option.split sum.split dest: refreshed_timed)

lemma frontier: "inv (wk_peers w) \<Longrightarrow> inv (wk_peers (walk_frontier ne nd eps w))"
  by (induction eps arbitrary: w) (auto simp: Let_def summaries split: option.split)

lemma levels: "inv (wk_peers w) \<Longrightarrow> inv (wk_peers (walk_levels ne nd n eps w))"
  by (induction n arbitrary: eps w) (auto simp: Let_def frontier)

lemma transitive: "inv t \<Longrightarrow> inv (wk_peers (snd (bootstrap_transitive ne nd seeds n k t)))"
  using initial [of t seeds k]
  by (auto simp: bootstrap_transitive_def walk_start_def Let_def levels split: prod.split)

lemma cascade_inner: "inv (cs_peers c) \<Longrightarrow> inv (cs_peers (cascade_summaries ne nd qs c))"
  by (induction qs arbitrary: c)
    (auto simp: Let_def split: prod.split option.split sum.split dest: refreshed_timed)

lemma cascade_outer: "inv (cs_peers c) \<Longrightarrow> inv (cs_peers (cascade_sample ne nd req ps c))"
  by (induction ps arbitrary: c) (auto simp: Let_def cascade_inner split: option.split)

lemma cascade: "inv t \<Longrightarrow> inv (cs_peers (discover_capability ne sh nd cap k t))"
  by (simp add: discover_capability_def Let_def cascade_outer)

end

lemma refresh_not_self:
  "peer_get (node_id ne nd) t = None \<Longrightarrow>
     peer_get (node_id ne nd) (snd (refresh_peer ne nd k ep t)) = None"
  by (cases "fst (refresh_peer ne nd k ep t)") (simp_all add: refresh_known)

interpretation own: refresh_invariant ne nd "\<lambda>t. peer_get (node_id ne nd) t = None" for ne nd
  by unfold_locales (rule refresh_not_self)

interpretation keyed: refresh_invariant ne nd "unique_key pr_id" for ne nd
  by unfold_locales (simp add: refresh_peer_def peers.inv_put split: sum.split)

section \<open>The bounds of the walk\<close>

lemma refresh_timed_length:
  "refresh_in_time ne nd k ep t = (r, t') \<Longrightarrow>
     length t' \<le> length t + (case r of Some (Inr _) \<Rightarrow> 1 | _ \<Rightarrow> 0)"
  using length_refresh [of ne nd k ep t]
  by (auto simp: refresh_in_time_def split: if_splits prod.splits sum.splits)

definition walk_ok :: "nat \<Rightarrow> walk \<Rightarrow> bool" where
  "walk_ok rows w \<longleftrightarrow> length (wk_peers w) \<le> rows + wk_total w"

text \<open>One reply adds at most as many rows as it adds to the count, which it takes no further than the cap.\<close>

lemma summaries_bounds:
  assumes "walk_ok rows w"
  shows "walk_ok rows (walk_summaries ne nd qs w)
    \<and> wk_total (walk_summaries ne nd qs w) \<le> max BOOTSTRAP_MAX_PEERS (wk_total w)
    \<and> wk_total w \<le> wk_total (walk_summaries ne nd qs w)
    \<and> wk_calls (walk_summaries ne nd qs w) \<le> wk_calls w + length qs"
  using assms
proof (induction qs arbitrary: w)
  case (Cons q qs)
  show ?case
  proof (cases "BOOTSTRAP_MAX_PEERS \<le> wk_total w \<or> ps_instance_id q \<in> set (wk_visited w)")
    case True
    then show ?thesis using Cons.IH [OF Cons.prems] Cons.prems by (auto simp: le_SucI)
  next
    case False
    let ?w1 = "w\<lparr>wk_visited := ps_instance_id q # wk_visited w\<rparr>"
    show ?thesis
    proof (cases "ps_endpoint q")
      case None
      have "walk_ok rows ?w1" using Cons.prems by (simp add: walk_ok_def)
      from Cons.IH [OF this] show ?thesis using False None by simp
    next
      case (Some ep)
      obtain r t where rt: "refresh_in_time ne nd (wk_calls w) ep (wk_peers w) = (r, t)" by force
      define w2 where "w2 = (let v = ?w1\<lparr>wk_calls := Suc (wk_calls w), wk_peers := t\<rparr> in
        case r of Some (Inr _) \<Rightarrow> v\<lparr>wk_total := Suc (wk_total w), wk_next := wk_next w @ [ep]\<rparr> | _ \<Rightarrow> v)"
      have eq: "walk_summaries ne nd (q # qs) w = walk_summaries ne nd qs w2"
        using False Some rt by (simp add: w2_def Let_def)
      have w2: "wk_total w2 \<le> Suc (wk_total w)" "wk_total w \<le> wk_total w2"
        "wk_calls w2 = Suc (wk_calls w)" "wk_peers w2 = t"
        "wk_total w2 = wk_total w + (case r of Some (Inr _) \<Rightarrow> 1 | _ \<Rightarrow> 0)"
        by (simp_all add: w2_def Let_def split: option.split sum.split)
      then have "walk_ok rows w2"
        using refresh_timed_length [OF rt] Cons.prems by (simp add: walk_ok_def)
      from Cons.IH [OF this] show ?thesis using False w2(1-3) unfolding eq by simp
    qed
  qed
qed simp

lemma frontier_bounds:
  assumes "walk_ok rows w"
  shows "walk_ok rows (walk_frontier ne nd eps w)
    \<and> wk_total (walk_frontier ne nd eps w) \<le> max BOOTSTRAP_MAX_PEERS (wk_total w)"
  using assms
proof (induction eps arbitrary: w)
  case (Cons ep eps)
  let ?w1 = "w\<lparr>wk_calls := Suc (wk_calls w)\<rparr>"
  have w1: "walk_ok rows ?w1" using Cons.prems by (simp add: walk_ok_def)
  show ?case
  proof (cases "known_peers_in_time ne nd (wk_calls w) ep
      \<lparr>gkp_limit = BOOTSTRAP_PAGE_SIZE, gkp_capability = None\<rparr>")
    case None
    then show ?thesis using Cons.IH [OF w1] by simp
  next
    case (Some qs)
    from Cons.IH [of "walk_summaries ne nd qs ?w1"] summaries_bounds [OF w1, of ne nd qs]
    show ?thesis using Some by (auto simp: le_max_iff_disj)
  qed
qed simp

lemma levels_bounds:
  assumes "walk_ok rows w"
  shows "walk_ok rows (walk_levels ne nd n eps w)
    \<and> wk_total (walk_levels ne nd n eps w) \<le> max BOOTSTRAP_MAX_PEERS (wk_total w)"
  using assms
proof (induction n arbitrary: eps w)
  case (Suc n)
  let ?w1 = "walk_frontier ne nd eps (w\<lparr>wk_next := []\<rparr>)"
  have "walk_ok rows (w\<lparr>wk_next := []\<rparr>)" using Suc.prems by (simp add: walk_ok_def)
  note b = frontier_bounds [OF this, of ne nd eps]
  with Suc.IH [of ?w1 "wk_next ?w1"] show ?case by (auto simp: Let_def Suc.prems le_max_iff_disj)
qed simp

lemma initial_bounds:
  "bootstrap_initial_peers ne nd eps k t = (out, k', t') \<Longrightarrow>
     map bo_endpoint out = eps \<and> k' = k + length eps
     \<and> list_all (\<lambda>b. bo_error b = None \<longleftrightarrow> bo_instance_id b \<noteq> None) out
     \<and> length t' \<le> length t + length (filter (\<lambda>b. bo_error b = None) out)"
proof (induction eps arbitrary: k t out)
  case (Cons ep eps)
  obtain r t1 where r: "refresh_peer ne nd k ep t = (r, t1)" by force
  obtain out1 where rest: "bootstrap_initial_peers ne nd eps (Suc k) t1 = (out1, k', t')"
    and out: "out = (case r of
              Inr d \<Rightarrow> \<lparr>bo_endpoint = ep, bo_instance_id = Some (ds_instance_id d), bo_error = None\<rparr>
            | Inl e \<Rightarrow> \<lparr>bo_endpoint = ep, bo_instance_id = None, bo_error = Some (node_error_text e)\<rparr>) # out1"
    using Cons.prems r by (auto simp: Let_def split: prod.splits)
  have "length t1 \<le> length t + (case r of Inl _ \<Rightarrow> 0 | Inr _ \<Rightarrow> 1)"
    using length_refresh [of ne nd k ep t] r by simp
  then show ?case using Cons.IH [OF rest] out by (auto split: sum.splits)
qed auto

section \<open>One exchange\<close>

text \<open>
  What the code relies on the network for: the health route of \<open>base\<close> names the node \<open>nd'\<close>,
  and the reply it makes to the message \<open>m\<close>, if any, comes back and parses as what was sent.
\<close>

definition routes_to ::
  "('b, 'x) net_env_scheme \<Rightarrow> 'b node \<Rightarrow> nat \<Rightarrow> string \<Rightarrow> arrival \<Rightarrow> node_state \<Rightarrow> bool" where
  "routes_to ne nd' k base a s \<longleftrightarrow>
     (\<exists>h. http_get ne k (trim_end_char CHR ''/'' base @ ''/n3ur0n/v0/health'') = Inr (200, h)
        \<and> Option.bind (json_from_str ne h) dec_health = Some (node_id ne nd'))
     \<and> (\<forall>reply. fst (handle_request ne nd' a s) = Inr reply \<longrightarrow>
         (\<exists>b. http_post ne k (trim_end_char CHR ''/'' base @ ''/n3ur0n/v0/messages'') (ar_message a) = Inr (200, b)
            \<and> message_from_slice ne b = Some reply))"

text \<open>RFC 3339 and JCS render every envelope (years up to 9999, no float payloads).\<close>

definition wire_total :: "('x) wire_env_scheme \<Rightarrow> bool" where
  "wire_total w \<longleftrightarrow> (\<forall>t. rfc3339 w t \<noteq> None) \<and> (\<forall>j. jcs w j \<noteq> None)"

lemma signs:
  assumes "wire_total w" "sender_id e = keypair_id w kp"
  obtains m where "sign_envelope w kp e = Inr m"
proof -
  obtain t where t: "rfc3339 w (timestamp e) = Some t" using assms(1) by (auto simp: wire_total_def)
  have "\<exists>b. canonical_bytes w e = Inr b"
    using assms(1) by (auto simp: canonical_bytes_def envelope_json_def t wire_total_def split: option.split)
  then show ?thesis using assms(2) that by (auto simp: sign_envelope_def)
qed

lemma handler_replies:
  assumes "wire_total ne" "accepted ne nd a" "nonce_stamp (msg_key a) (ns_nonces s) = None"
    and "dispatch ne nd (ar_now a) (sm_envelope (ar_message a)) s = Inr j"
  obtains reply e where "fst (handle_request ne nd a s) = Inr reply"
    "sign_envelope ne (nd_keypair nd) e = Inr reply"
    "sender_id e = node_id ne nd" "recipient_id e = sender_id (sm_envelope (ar_message a))"
    "verb e = verb (sm_envelope (ar_message a))" "payload e = j"
proof -
  let ?env = "sm_envelope (ar_message a)"
  let ?e = "\<lparr>sender_id = keypair_id ne (nd_keypair nd), recipient_id = sender_id ?env,
    timestamp = ar_now a, nonce = ar_uuid a, verb = verb ?env, payload = j, sender_endpoint = nd_endpoint nd\<rparr>"
  obtain t' where "insert_if_absent (fst (msg_key a)) (snd (msg_key a)) (unix_timestamp (ar_now a))
      (ns_nonces s) = (True, t')" using insert_new [OF assms(3)] by blast
  then have "handle_request ne nd a s = serve_request ne nd a ?env
      (s\<lparr>ns_nonces := snd (prune_older_than (unix_timestamp (ar_now a) - NONCE_TTL_SECONDS) t')\<rparr>)"
    by (simp add: handle_accepted [OF assms(2)])
  moreover have "dispatch ne nd (ar_now a) ?env (s\<lparr>ns_nonces := n\<rparr>) = Inr j" for n
    using assms(4) by (simp add: dispatch_def cong: protocol_verb.case_cong)
  moreover obtain reply where "sign_envelope ne (nd_keypair nd) ?e = Inr reply"
    using signs [OF assms(1), of ?e "nd_keypair nd"] by auto
  ultimately show ?thesis
    using that [of reply ?e] by (simp add: serve_request_def Let_def node_id_def)
qed

lemma exchange:
  assumes laws: "sha256_law ne" "base32_law ne" "hex_law ne" "ed25519_law ne" "wire_total ne"
    and m: "sign_envelope ne kp (request_envelope ne k kp (node_id ne nd') v pl ep) = Inr (ar_message a)"
    and route: "routes_to ne nd' k base a s"
    and clocks: "\<bar>ar_verify a - clock_at ne k\<bar> \<le> clock_skew (nd_verify nd')"
    and fresh: "nonce_stamp (keypair_id ne kp, uuid_at ne k) (ns_nonces s) = None"
    and answer: "dispatch ne nd' (ar_now a) (request_envelope ne k kp (node_id ne nd') v pl ep) s = Inr j"
  shows "\<exists>reply. send_signed ne k kp base v pl ep = Inr reply \<and> payload (sm_envelope reply) = j
    \<and> verb (sm_envelope reply) = v \<and> sender_id (sm_envelope reply) = node_id ne nd'"
proof -
  let ?e = "request_envelope ne k kp (node_id ne nd') v pl ep"
  have env: "sm_envelope (ar_message a) = ?e" by (rule signed_verifies(2) [OF laws(3,4) m])
  have acc: "accepted ne nd' a"
    unfolding accepted_def
    by (rule signed_accepted [OF laws(3,4) m]) (use clocks in \<open>simp_all add: request_envelope_def node_id_def\<close>)
  have new: "nonce_stamp (msg_key a) (ns_nonces s) = None"
    using fresh by (simp add: msg_key_def env request_envelope_def)
  have ans: "dispatch ne nd' (ar_now a) (sm_envelope (ar_message a)) s = Inr j"
    using answer by (simp only: env)
  have fields: "sender_id ?e = keypair_id ne kp" "verb ?e = v"
    by (simp_all add: request_envelope_def)
  obtain reply e where r: "fst (handle_request ne nd' a s) = Inr reply"
    "sign_envelope ne (nd_keypair nd') e = Inr reply"
    "sender_id e = node_id ne nd'" "recipient_id e = keypair_id ne kp" "verb e = v" "payload e = j"
    using handler_replies [OF laws(5) acc new ans] unfolding env fields by metis
  note rv = signed_verifies [OF laws(3,4) r(2)]
  from route r(1) obtain h b where
    h: "http_get ne k (trim_end_char CHR ''/'' base @ ''/n3ur0n/v0/health'') = Inr (200, h)"
      "Option.bind (json_from_str ne h) dec_health = Some (node_id ne nd')"
    and b: "http_post ne k (trim_end_char CHR ''/'' base @ ''/n3ur0n/v0/messages'') (ar_message a) = Inr (200, b)"
      "message_from_slice ne b = Some reply"
    unfolding routes_to_def by blast
  have "parse_instance_id (node_id ne nd') = Inr (node_id ne nd')"
    unfolding node_id_def keypair_id_def by (rule parse_from_public_key [OF laws(1,2)])
  then have "discover_peer_id ne k base = Inr (node_id ne nd')"
    using h by (simp add: discover_peer_id_def response_body_def)
  then have "send_signed ne k kp base v pl ep = Inr reply"
    using m b rv r by (simp add: send_signed_def response_body_def check_reply_def)
  then show ?thesis using rv r by simp
qed

section \<open>A node over time\<close>

text \<open>
  Everything that happens to the directory of a running node on its own: requests, the pulls
  they spawn (in any order), bootstrap walks and cascades. The state is the node's tables and
  the number of calls made.
\<close>

datatype node_event =
    Inbound arrival
  | Pull string
  | Boot "string list" nat
  | Find "peer_record list \<Rightarrow> peer_record list" string

fun node_step ::
  "('b, 'x) net_env_scheme \<Rightarrow> 'b node \<Rightarrow> node_event \<Rightarrow> node_state \<times> nat \<Rightarrow> node_state \<times> nat" where
  "node_step ne nd (Inbound a) (s, k) = (snd (handle_request ne nd a s), k)"
| "node_step ne nd (Pull ep) (s, k) =
     (if ep \<in> set (ns_pulls s)
      then (s\<lparr>ns_pulls := remove1 ep (ns_pulls s),
              ns_peers := snd (refresh_peer ne nd k ep (ns_peers s))\<rparr>, Suc k)
      else (s, k))"
| "node_step ne nd (Boot seeds depth) (s, k) =
     (let w = snd (bootstrap_transitive ne nd seeds depth k (ns_peers s))
      in (s\<lparr>ns_peers := wk_peers w\<rparr>, wk_calls w))"
| "node_step ne nd (Find sh cap) (s, k) =
     (let c = discover_capability ne sh nd cap k (ns_peers s)
      in (s\<lparr>ns_peers := cs_peers c\<rparr>, cs_calls c))"

lemma announce_self:
  assumes "peer_get me (ns_peers s) = None"
  shows "peer_get me (ns_peers (reverse_announce me now env s)) = None"
  using assms by (auto simp: reverse_announce_def announce_record_def peers.lookup_put split: option.split)

lemma announce_unique:
  "unique_key pr_id (ns_peers s) \<Longrightarrow> unique_key pr_id (ns_peers (reverse_announce me now env s))"
  by (auto simp: reverse_announce_def intro: peers.inv_put split: option.split)

lemma serve_request_peers:
  "\<exists>s'. ns_peers s' = ns_peers s \<and> (snd (serve_request ne nd a env s) = s'
     \<or> snd (serve_request ne nd a env s) = reverse_announce (node_id ne nd) (ar_now a) env s')"
proof -
  define s' where "s' = s\<lparr>ns_audit := record_audit DirIn (sender_id env) (inbound_label env)
    (dispatch ne nd (ar_now a) env s) (ar_done a) (ar_elapsed_ms a) (ns_audit s)\<rparr>"
  have "snd (serve_request ne nd a env s) = s'
      \<or> snd (serve_request ne nd a env s) = reverse_announce (node_id ne nd) (ar_now a) env s'"
    by (simp add: serve_request_def s'_def Let_def node_id_def split: sum.split)
  moreover have "ns_peers s' = ns_peers s" by (simp add: s'_def)
  ultimately show ?thesis by blast
qed

lemma handle_request_peers:
  obtains s' env where "ns_peers s' = ns_peers s"
    "snd (handle_request ne nd a s) = s'
     \<or> snd (handle_request ne nd a s) = reverse_announce (node_id ne nd) (ar_now a) env s'"
proof -
  consider (rejected) "\<not> accepted ne nd a"
    | (replayed) "accepted ne nd a" "nonce_stamp (msg_key a) (ns_nonces s) \<noteq> None"
    | (fresh) "accepted ne nd a" "nonce_stamp (msg_key a) (ns_nonces s) = None" by blast
  then show ?thesis
  proof cases
    case rejected
    then show ?thesis using handle_rejected [OF rejected, of s] that [of s] by auto
  next
    case replayed
    then show ?thesis using that [of s] by (simp add: handle_replayed)
  next
    case fresh
    obtain t' where "insert_if_absent (fst (msg_key a)) (snd (msg_key a)) (unix_timestamp (ar_now a))
        (ns_nonces s) = (True, t')" using insert_new [OF fresh(2)] by blast
    then have eq: "handle_request ne nd a s = serve_request ne nd a (sm_envelope (ar_message a))
        (s\<lparr>ns_nonces := snd (prune_older_than (unix_timestamp (ar_now a) - NONCE_TTL_SECONDS) t')\<rparr>)"
      by (simp add: handle_accepted [OF fresh(1)])
    show ?thesis
      unfolding eq using serve_request_peers that [unfolded eq] by (metis node_state.simps(2) node_state.select_convs(2) node_state.surjective node_state.update_convs(1))
  qed
qed

lemma node_step_directory:
  assumes "peer_get (node_id ne nd) (ns_peers (fst st)) = None" "unique_key pr_id (ns_peers (fst st))"
  shows "peer_get (node_id ne nd) (ns_peers (fst (node_step ne nd ev st))) = None
    \<and> unique_key pr_id (ns_peers (fst (node_step ne nd ev st)))"
proof (cases st)
  case (Pair s k)
  show ?thesis
  proof (cases ev)
    case (Inbound a)
    obtain s' env where "ns_peers s' = ns_peers s"
      "snd (handle_request ne nd a s) = s'
       \<or> snd (handle_request ne nd a s) = reverse_announce (node_id ne nd) (ar_now a) env s'"
      by (rule handle_request_peers)
    then show ?thesis using assms announce_self announce_unique by (auto simp: Pair Inbound)
  qed (use assms in \<open>simp_all add: Pair Let_def own.refresh keyed.refresh own.transitive keyed.transitive
        own.cascade keyed.cascade\<close>)
qed

lemma node_run_directory:
  assumes "peer_get (node_id ne nd) (ns_peers (fst st)) = None" "unique_key pr_id (ns_peers (fst st))"
  shows "peer_get (node_id ne nd) (ns_peers (fst (fold (node_step ne nd) evs st))) = None
    \<and> unique_key pr_id (ns_peers (fst (fold (node_step ne nd) evs st)))"
  using assms
proof (induction evs arbitrary: st)
  case (Cons ev evs)
  from Cons.IH node_step_directory [OF Cons.prems] show ?case by simp
qed simp

section \<open>A concrete network\<close>

definition toy_net :: "signed_message \<Rightarrow> nat net_env" where
  "toy_net reply = node_env.extend (toy_node_env\<lparr>json_from_str :=
       (\<lambda>_. Some (json_obj [(''instance_id'', JStr (keypair_id toy_wire ''bob''))]))\<rparr>)
     \<lparr>http_get = (\<lambda>_ _. Inr (200, ''h'')), http_post = (\<lambda>_ _ _. Inr (200, ''m'')),
      message_from_slice = (\<lambda>_. Some reply), serde_fault = id, utf8_lossy = id,
      clock_at = (\<lambda>_. 5000000000), uuid_at = dec, times_out = (\<lambda>_. False)\<rparr>"

definition toy_caller :: "nat node" where
  "toy_caller = toy_node\<lparr>nd_keypair := ''alice'', nd_registry := [], nd_endpoint := None\<rparr>"

lemma toy_net_wire [simp]:
  "sign_envelope (toy_net r) = sign_envelope toy_wire"
  "keypair_id (toy_net r) = keypair_id toy_wire"
  "verify_signature (toy_net r) = verify_signature toy_wire"
  by (intro ext, simp add: toy_net_def toy_node_env_def wire_env.defs node_env.defs verify_signature_def
      sign_envelope_def canonical_bytes_def envelope_json_def from_public_key_def toy_wire_def crypto.defs
      signature_decode_def signature_encode_def keypair_id_def public_key_verify_def public_key_def
      keypair_sign_def cong: sum.case_cong)+

lemma toy_net_fields [simp]:
  "clock_at (toy_net r) k = 5000000000" "uuid_at (toy_net r) k = dec k"
  "rfc3339 (toy_net r) t = Some (dec_int (unix_timestamp t))"
  "message_from_slice (toy_net r) b = Some r" "http_post (toy_net r) k u m = Inr (200, ''m'')"
  "http_get (toy_net r) k u = Inr (200, ''h'')"
  "json_from_str (toy_net r) b = Some (json_obj [(''instance_id'', JStr (keypair_id toy_wire ''bob''))])"
  by (simp_all add: toy_net_def node_env.defs toy_node_env_def wire_env.defs)

lemma toy_ids:
  "keypair_id toy_wire ''alice'' \<noteq> keypair_id toy_wire ''bob''"
  "keypair_id toy_wire ''alice'' \<noteq> ''n3:victim''"
  by (simp_all add: keypair_id_def from_public_key_def toy_crypto_def ID_HASH_BYTES_def
      to_ascii_lowercase_def ID_PREFIX_def pad_to_def two_letters_def public_key_def)

lemma toy_victim: "keypair_id toy_wire ''bob'' \<noteq> ''n3:victim''"
  by (simp add: keypair_id_def from_public_key_def toy_crypto_def ID_HASH_BYTES_def
      to_ascii_lowercase_def ID_PREFIX_def pad_to_def two_letters_def public_key_def)

lemma toy_net_id [simp]: "node_id (toy_net r) nd = keypair_id toy_wire (nd_keypair nd)"
  by (simp add: node_id_def)

lemma toy_net_laws [simp]:
  "sha256_law (toy_net r)" "base32_law (toy_net r)" "hex_law (toy_net r)" "ed25519_law (toy_net r)"
  "wire_total (toy_net r)"
  using toy_wire_laws
  by (simp_all add: sha256_law_def base32_law_def hex_law_def ed25519_law_def wire_total_def toy_net_def
      toy_node_env_def wire_env.defs node_env.defs toy_wire_def crypto.defs)

lemma toy_health [simp]: "discover_peer_id (toy_net r) k base = Inr (keypair_id toy_wire ''bob'')"
proof -
  have "parse_instance_id (keypair_id toy_wire ''bob'') = Inr (keypair_id toy_wire ''bob'')"
    unfolding keypair_id_def by (rule parse_from_public_key) simp_all
  then show ?thesis
    by (simp add: discover_peer_id_def response_body_def dec_health_def field_defs)
qed

lemma toy_sends:
  assumes "sign_envelope toy_wire ''bob'' e = Inr r" "recipient_id e = keypair_id toy_wire ''alice''"
    and "sender_id e = keypair_id toy_wire ''bob''"
  shows "send_signed (toy_net r) k ''alice'' base v pl ep = Inr r"
proof -
  have "wire_total toy_wire" by (simp add: wire_total_def)
  moreover have "sender_id (request_envelope (toy_net r) k ''alice'' (keypair_id toy_wire ''bob'') v pl ep)
      = keypair_id toy_wire ''alice''" by (simp add: request_envelope_def)
  ultimately obtain m where m: "sign_envelope toy_wire ''alice''
      (request_envelope (toy_net r) k ''alice'' (keypair_id toy_wire ''bob'') v pl ep) = Inr m"
    by (rule signs)
  then show ?thesis
    using m signed_verifies [OF toy_wire_laws(3,4) assms(1)] assms(2,3)
    by (simp add: send_signed_def check_reply_def response_body_def)
qed

definition toy_describes :: "json \<Rightarrow> envelope" where
  "toy_describes d = \<lparr>sender_id = keypair_id toy_wire ''bob'', recipient_id = keypair_id toy_wire ''alice'',
     timestamp = 6000000000, nonce = ''u'', verb = DescribeSelf, payload = d,
     sender_endpoint = Some ''http://bob''\<rparr>"

definition toy_signed :: "keypair \<Rightarrow> envelope \<Rightarrow> signed_message" where
  "toy_signed kp e = (case sign_envelope toy_wire kp e of Inr m \<Rightarrow> m)"

lemma toy_signed:
  assumes "sender_id e = keypair_id toy_wire kp"
  shows "sign_envelope toy_wire kp e = Inr (toy_signed kp e)"
proof -
  have "wire_total toy_wire" by (simp add: wire_total_def)
  then obtain m where "sign_envelope toy_wire kp e = Inr m" using assms by (rule signs)
  then show ?thesis by (simp add: toy_signed_def)
qed

section \<open>Properties\<close>


definition toy_call :: "json \<Rightarrow> arrival" where
  "toy_call d = toy_arrival\<lparr>ar_message := toy_signed ''alice''
     (request_envelope (toy_net (toy_signed ''bob'' (toy_describes d))) 0 ''alice''
       (keypair_id toy_wire ''bob'') DescribeSelf (json_obj []) None)\<rparr>"

lemma toy_call_signed:
  "sign_envelope toy_wire ''alice'' (request_envelope (toy_net r) 0 ''alice'' (keypair_id toy_wire ''bob'')
     DescribeSelf (json_obj []) None) = Inr (ar_message (toy_call d))"
proof -
  have same: "request_envelope (toy_net r) 0 ''alice'' i v j None = request_envelope (toy_net r') 0 ''alice'' i v j None"
    for r r' i v j by (simp add: request_envelope_def)
  show ?thesis
    unfolding toy_call_def same [of r _ _ _ "toy_signed ''bob'' (toy_describes d)"]
    by (simp, rule toy_signed) (simp add: request_envelope_def)
qed

definition toy_reply :: signed_message where
  "toy_reply = toy_signed ''bob'' (toy_describes (enc_describe_self
     \<lparr>ds_instance_id = keypair_id toy_wire ''bob'', ds_endpoint = Some ''http://bob'', ds_alias = None,
      protocol_version = PROTOCOL_VERSION, updated_at = dec_int 6, ds_lobe_ids = [],
      capabilities = public_decls (nd_registry toy_node)\<rparr>))"


text \<open>
  C26 (a node is never its own peer). From a directory without the node itself, and with one row
  per id, no sequence of requests, spawned pulls, bootstrap walks and cascades files the node in
  its own directory or an id twice, whatever peers claim to be.
\<close>

theorem never_own_peer:
  assumes "peer_get (node_id ne nd) (ns_peers s) = None" "unique_key pr_id (ns_peers s)"
  shows "peer_get (node_id ne nd) (ns_peers (fst (fold (node_step ne nd) evs (s, k)))) = None
    \<and> unique_key pr_id (ns_peers (fst (fold (node_step ne nd) evs (s, k))))"
  by (rule node_run_directory) (use assms in simp_all)

lemma never_own_peer_witness:
  "peer_get (keypair_id toy_wire ''bob'') (ns_peers (fst (fold (node_step (toy_net toy_message) toy_node)
      [Inbound toy_arrival, Boot [''http://bob''] 2, Find id ''echo''] (toy_state, 0)))) = None"
proof -
  have "nd_keypair toy_node = ''bob''" "ns_peers toy_state = []"
    by (simp_all add: toy_node_def toy_state_def)
  then show ?thesis
    using never_own_peer [of "toy_net toy_message" toy_node toy_state
        "[Inbound toy_arrival, Boot [''http://bob''] 2, Find id ''echo'']" 0]
    by (simp add: peer_get_def del: fold_simps)
qed

text \<open>
  (the walk is bounded). A transitive bootstrap of any depth learns at most 100 peers beyond
  which only the configured seeds themselves count, and adds no more rows than that.
\<close>

theorem bootstrap_bounded:
  "wk_total (snd (bootstrap_transitive ne nd seeds depth k t)) \<le> max 100 (length seeds)
   \<and> length (wk_peers (snd (bootstrap_transitive ne nd seeds depth k t))) \<le> length t + max 100 (length seeds)
   \<and> map bo_endpoint (fst (bootstrap_transitive ne nd seeds depth k t)) = seeds"
proof -
  obtain out k' t' where b: "bootstrap_initial_peers ne nd seeds k t = (out, k', t')"
    by (cases "bootstrap_initial_peers ne nd seeds k t") auto
  note i = initial_bounds [OF b]
  let ?w = "walk_start (node_id ne nd) out k' t'"
  have ok: "walk_ok (length t) ?w" using i by (simp add: walk_ok_def walk_start_def)
  have "length out = length seeds" using i by (metis length_map)
  then have tot: "wk_total ?w \<le> length seeds"
    using length_filter_le [of "\<lambda>b. bo_error b = None" out] by (simp add: walk_start_def)
  define w where "w = snd (bootstrap_transitive ne nd seeds depth k t)"
  have "walk_ok (length t) w \<and> wk_total w \<le> max BOOTSTRAP_MAX_PEERS (wk_total ?w)"
  proof (cases "depth = 0")
    case True
    then have "w = ?w" by (simp add: w_def bootstrap_transitive_def b)
    then show ?thesis using ok by simp
  next
    case False
    then obtain eps where "w = walk_levels ne nd depth eps ?w"
      by (simp add: w_def bootstrap_transitive_def b)
    then show ?thesis using levels_bounds [OF ok, of ne nd depth eps] by simp
  qed
  then have "wk_total w \<le> max 100 (length seeds)" "length (wk_peers w) \<le> length t + wk_total w"
    using tot by (auto simp: walk_ok_def BOOTSTRAP_MAX_PEERS_def)
  moreover have "map bo_endpoint (fst (bootstrap_transitive ne nd seeds depth k t)) = seeds"
    using i by (simp add: bootstrap_transitive_def b Let_def)
  ultimately show ?thesis unfolding w_def [symmetric] by simp
qed

text \<open>
  (refused contacts are not bounded). The cap counts only peers that answer: a reply that
  lists \<open>n\<close> new ids whose endpoints fail makes the walk contact all \<open>n\<close> of them, one after the
  other, however long the list is and although the request asked for 50.
\<close>

theorem failed_contacts_unbounded:
  assumes "wk_total w < 100" "distinct (map ps_instance_id qs)"
    and "set (map ps_instance_id qs) \<inter> set (wk_visited w) = {}"
    and "list_all (\<lambda>q. ps_endpoint q \<noteq> None) qs" "list_all (times_out ne) [wk_calls w..<wk_calls w + length qs]"
  shows "wk_calls (walk_summaries ne nd qs w) = wk_calls w + length qs
    \<and> wk_total (walk_summaries ne nd qs w) = wk_total w"
  using assms
proof (induction qs arbitrary: w)
  case (Cons q qs)
  obtain ep where ep: "ps_endpoint q = Some ep" using Cons.prems(4) by auto
  let ?w = "w\<lparr>wk_visited := ps_instance_id q # wk_visited w, wk_calls := Suc (wk_calls w),
    wk_peers := wk_peers w\<rparr>"
  have "times_out ne (wk_calls w)" "list_all (times_out ne) [wk_calls ?w..<wk_calls ?w + length qs]"
    using Cons.prems(5) by (auto simp: list_all_iff)
  moreover from this have "walk_summaries ne nd (q # qs) w = walk_summaries ne nd qs ?w"
    using Cons.prems(1,3) ep by (simp add: BOOTSTRAP_MAX_PEERS_def refresh_in_time_def Let_def)
  ultimately show ?case using Cons.IH [of ?w] Cons.prems by auto
qed simp

lemma failed_contacts_unbounded_witness:
  "wk_calls (walk_summaries ((toy_net toy_message)\<lparr>times_out := \<lambda>_. True\<rparr>) toy_node
     (map (\<lambda>i. \<lparr>ps_instance_id = replicate i CHR ''x'', ps_endpoint = Some ''u'', ps_alias = None\<rparr>) [1..<5001])
     (walk_start [] [] 0 [])) = 5000"
proof -
  let ?qs = "map (\<lambda>i. \<lparr>ps_instance_id = replicate i CHR ''x'', ps_endpoint = Some ''u'', ps_alias = None\<rparr>) [1..<5001]"
  have "distinct (map ps_instance_id ?qs)" by (simp add: comp_def distinct_map inj_on_def)
  moreover have "set (map ps_instance_id ?qs) \<inter> set (wk_visited (walk_start [] [] 0 [])) = {}"
    by (auto simp: walk_start_def List.map_filter_def)
  ultimately show ?thesis
    using failed_contacts_unbounded [of "walk_start [] [] 0 []" ?qs "(toy_net toy_message)\<lparr>times_out := \<lambda>_. True\<rparr>" toy_node]
    by (simp add: walk_start_def list_all_iff)
qed

text \<open>
  (a descriptor may speak for another instance). \<open>send_signed\<close> checks who signed the reply,
  but nothing compares the descriptor's instance id with that signer: a peer that describes
  another instance replaces that instance's endpoint and alias in our directory with its own.
\<close>

theorem descriptor_speaks_for_others:
  assumes "send_signed ne k (nd_keypair nd) base DescribeSelf (json_obj []) (nd_endpoint nd) = Inr m"
    and "dec_describe_self (payload (sm_envelope m)) = Some d"
    and "ds_instance_id d \<noteq> node_id ne nd" "ds_instance_id d \<noteq> sender_id (sm_envelope m)"
  shows "\<exists>t' r. refresh_peer ne nd k base t = (Inr d, t') \<and> peer_get (ds_instance_id d) t' = Some r
    \<and> pr_endpoint r = base \<and> pr_alias r = ds_alias d"
proof -
  have "fst (refresh_peer ne nd k base t) = Inr d"
    using assms(1-3) by (simp add: refresh_peer_def client_describe_self_def reply_as_def)
  from refresh_known [OF this, of "ds_instance_id d"] this assms(3) show ?thesis
    by (cases "refresh_peer ne nd k base t")
      (simp add: peer_row_def Let_def peer_merge_def split: option.splits)
qed

definition toy_descriptor :: "string \<Rightarrow> describe_self_response" where
  "toy_descriptor i = \<lparr>ds_instance_id = i, ds_endpoint = None, ds_alias = Some ''v'',
     protocol_version = PROTOCOL_VERSION, updated_at = [], ds_lobe_ids = [], capabilities = []\<rparr>"

lemma descriptor_speaks_for_others_witness:
  "\<exists>t' r. refresh_peer (toy_net (toy_signed ''bob'' (toy_describes (enc_describe_self (toy_descriptor ''n3:victim'')))))
     toy_caller 0 ''http://bob'' [] = (Inr (toy_descriptor ''n3:victim''), t')
   \<and> peer_get ''n3:victim'' t' = Some r \<and> pr_endpoint r = ''http://bob''"
proof -
  let ?e = "toy_describes (enc_describe_self (toy_descriptor ''n3:victim''))"
  let ?m = "toy_signed ''bob'' ?e"
  have s: "sign_envelope toy_wire ''bob'' ?e = Inr ?m" by (rule toy_signed) (simp add: toy_describes_def)
  have env: "sm_envelope ?m = ?e" by (rule signed_verifies(2) [OF toy_wire_laws(3,4) s])
  have "send_signed (toy_net ?m) 0 (nd_keypair toy_caller) ''http://bob'' DescribeSelf (json_obj [])
      (nd_endpoint toy_caller) = Inr ?m"
    unfolding toy_caller_def by simp (rule toy_sends [OF s], simp_all add: toy_describes_def)
  note send = this
  have d: "dec_describe_self (payload (sm_envelope ?m)) = Some (toy_descriptor ''n3:victim'')"
    unfolding env by (simp add: toy_describes_def)
  have i: "ds_instance_id (toy_descriptor ''n3:victim'') = ''n3:victim''" by (simp add: toy_descriptor_def)
  have "node_id (toy_net ?m) toy_caller \<noteq> ''n3:victim''" "sender_id (sm_envelope ?m) \<noteq> ''n3:victim''"
    unfolding env using toy_ids(2) toy_victim by (simp_all add: toy_caller_def toy_describes_def)
  then show ?thesis
    using descriptor_speaks_for_others [OF send d, of "[]"] unfolding i by metis
qed

end
