(* ===== verification/Store_Auth.thy ===== *)
theory Store_Auth
  imports Core_Identity
begin

text \<open>
  \<open>crates/storage/src/auth.rs\<close>: users, sessions and the credential primitives. Argon2 is a
  parameter (hashing takes the salt that the code draws); random bytes are arguments. Deleting
  a user cascades to the user's sessions, as the foreign key of the migration says.
\<close>

datatype user_role = RoleUser | RoleOperator | RoleAdmin

fun role_str :: "user_role \<Rightarrow> string" where
  "role_str RoleUser = ''user''"
| "role_str RoleOperator = ''operator''"
| "role_str RoleAdmin = ''admin''"

definition role_parse :: "string \<Rightarrow> user_role option" where
  "role_parse s =
     (if s = ''user'' then Some RoleUser else if s = ''operator'' then Some RoleOperator
      else if s = ''admin'' then Some RoleAdmin else None)"

record user_record =
  u_id :: int
  u_username :: string
  u_role :: user_role
  u_created_at :: int
  u_last_login :: "int option"

record user_row =
  us_id :: int
  us_username :: string
  us_password_hash :: string
  us_role :: string
  us_created_at :: int
  us_last_login :: "int option"

record session_row =
  ss_token_hash :: string
  ss_user_id :: int
  ss_created_at :: int
  ss_expires_at :: int

record auth_db =
  users :: "user_row list"
  sessions :: "session_row list"
  user_seq :: int

record auth_env = crypto +
  argon_hash :: "string \<Rightarrow> string \<Rightarrow> string option"
  argon_verify :: "string \<Rightarrow> string \<Rightarrow> bool option"

definition argon_law :: "('x) auth_env_scheme \<Rightarrow> bool" where
  "argon_law w \<longleftrightarrow> (\<forall>salt pw h. argon_hash w salt pw = Some h \<longrightarrow> argon_verify w pw h = Some True)"

section \<open>Credentials\<close>

definition hash_password :: "('x) auth_env_scheme \<Rightarrow> string \<Rightarrow> string \<Rightarrow> (string, string) result" where
  "hash_password w salt pw =
     (case argon_hash w salt pw of None \<Rightarrow> Inl ''migration: argon2 hash'' | Some h \<Rightarrow> Inr h)"

definition verify_password :: "('x) auth_env_scheme \<Rightarrow> string \<Rightarrow> string \<Rightarrow> (string, bool) result" where
  "verify_password w pw stored =
     (case argon_verify w pw stored of None \<Rightarrow> Inl ''migration: argon2 parse'' | Some b \<Rightarrow> Inr b)"

definition hash_session_token :: "('x) crypto_scheme \<Rightarrow> string \<Rightarrow> string" where
  "hash_session_token w token = to_ascii_lowercase (base32_encode w (sha256 w token))"

definition mint_session_token :: "('x) crypto_scheme \<Rightarrow> string \<Rightarrow> string \<times> string" where
  "mint_session_token w raw =
     (let plaintext = to_ascii_lowercase (base32_encode w raw)
      in (plaintext, hash_session_token w plaintext))"

section \<open>Users\<close>

definition row_to_user :: "user_row \<Rightarrow> user_record" where
  "row_to_user r =
     \<lparr>u_id = us_id r, u_username = us_username r,
      u_role = (case role_parse (us_role r) of Some x \<Rightarrow> x | None \<Rightarrow> RoleUser),
      u_created_at = us_created_at r, u_last_login = us_last_login r\<rparr>"

definition count_users :: "auth_db \<Rightarrow> int" where
  "count_users db = int (length (users db))"

definition create_user ::
  "('x) auth_env_scheme \<Rightarrow> string \<Rightarrow> string \<Rightarrow> string \<Rightarrow> user_role \<Rightarrow> int \<Rightarrow> auth_db
     \<Rightarrow> (string, user_record \<times> auth_db) result" where
  "create_user w salt name pw r now db =
     (case hash_password w salt pw of
        Inl e \<Rightarrow> Inl e
      | Inr h \<Rightarrow>
          (if select_by us_username name (users db) \<noteq> None
           then Inl ''sqlite: UNIQUE constraint failed: users.username''
           else let row = \<lparr>us_id = user_seq db + 1, us_username = name, us_password_hash = h,
                  us_role = role_str r, us_created_at = now, us_last_login = None\<rparr>
                in Inr (\<lparr>u_id = us_id row, u_username = name, u_role = r, u_created_at = now,
                         u_last_login = None\<rparr>,
                     db\<lparr>users := users db @ [row], user_seq := us_id row\<rparr>)))"

definition get_user_by_username :: "string \<Rightarrow> auth_db \<Rightarrow> user_record option" where
  "get_user_by_username name db = map_option row_to_user (select_by us_username name (users db))"

definition get_user_by_id :: "int \<Rightarrow> auth_db \<Rightarrow> user_record option" where
  "get_user_by_id i db = map_option row_to_user (select_by us_id i (users db))"

definition list_users :: "auth_db \<Rightarrow> user_record list" where
  "list_users db = map row_to_user (sort_key us_username (users db))"

definition update_user_role :: "int \<Rightarrow> user_role \<Rightarrow> auth_db \<Rightarrow> auth_db" where
  "update_user_role i r db =
     db\<lparr>users := sql_update (\<lambda>u. us_id u = i) (\<lambda>u. u\<lparr>us_role := role_str r\<rparr>) (users db)\<rparr>"

definition set_user_password ::
  "('x) auth_env_scheme \<Rightarrow> string \<Rightarrow> int \<Rightarrow> string \<Rightarrow> auth_db \<Rightarrow> (string, auth_db) result" where
  "set_user_password w salt i pw db =
     (case hash_password w salt pw of
        Inl e \<Rightarrow> Inl e
      | Inr h \<Rightarrow>
          Inr (db\<lparr>users := sql_update (\<lambda>u. us_id u = i) (\<lambda>u. u\<lparr>us_password_hash := h\<rparr>) (users db)\<rparr>))"

definition delete_user :: "int \<Rightarrow> auth_db \<Rightarrow> auth_db" where
  "delete_user i db =
     db\<lparr>users := sql_delete (\<lambda>u. us_id u = i) (users db),
        sessions := sql_delete (\<lambda>s. ss_user_id s = i \<and> (\<exists>u\<in>set (users db). us_id u = i)) (sessions db)\<rparr>"

definition fetch_password_hash :: "string \<Rightarrow> auth_db \<Rightarrow> (int \<times> string) option" where
  "fetch_password_hash name db =
     map_option (\<lambda>u. (us_id u, us_password_hash u)) (select_by us_username name (users db))"

definition touch_last_login :: "int \<Rightarrow> int \<Rightarrow> auth_db \<Rightarrow> auth_db" where
  "touch_last_login i now db =
     db\<lparr>users := sql_update (\<lambda>u. us_id u = i) (\<lambda>u. u\<lparr>us_last_login := Some now\<rparr>) (users db)\<rparr>"

section \<open>Sessions\<close>

definition create_session ::
  "int \<Rightarrow> string \<Rightarrow> int \<Rightarrow> int \<Rightarrow> auth_db \<Rightarrow> (string, auth_db) result" where
  "create_session uid th created expires db =
     (if select_by ss_token_hash th (sessions db) \<noteq> None
      then Inl ''sqlite: UNIQUE constraint failed: sessions.token_hash''
      else if select_by us_id uid (users db) = None
      then Inl ''sqlite: FOREIGN KEY constraint failed''
      else Inr (db\<lparr>sessions := sessions db @
        [\<lparr>ss_token_hash = th, ss_user_id = uid, ss_created_at = created, ss_expires_at = expires\<rparr>]\<rparr>))"

definition delete_session :: "string \<Rightarrow> auth_db \<Rightarrow> auth_db" where
  "delete_session th db = db\<lparr>sessions := sql_delete (\<lambda>s. ss_token_hash s = th) (sessions db)\<rparr>"

definition lookup_session :: "string \<Rightarrow> int \<Rightarrow> auth_db \<Rightarrow> user_record option \<times> auth_db" where
  "lookup_session th now db =
     (case select_by ss_token_hash th (sessions db) of
        None \<Rightarrow> (None, db)
      | Some s \<Rightarrow>
          (case select_by us_id (ss_user_id s) (users db) of
             None \<Rightarrow> (None, db)
           | Some u \<Rightarrow>
               (if ss_expires_at s \<le> now then (None, delete_session th db)
                else (Some (row_to_user u), db))))"

definition refresh_session_expiry :: "string \<Rightarrow> int \<Rightarrow> auth_db \<Rightarrow> auth_db" where
  "refresh_session_expiry th expires db =
     db\<lparr>sessions := sql_update (\<lambda>s. ss_token_hash s = th) (\<lambda>s. s\<lparr>ss_expires_at := expires\<rparr>) (sessions db)\<rparr>"

definition delete_sessions_for_user :: "int \<Rightarrow> auth_db \<Rightarrow> auth_db" where
  "delete_sessions_for_user uid db = db\<lparr>sessions := sql_delete (\<lambda>s. ss_user_id s = uid) (sessions db)\<rparr>"

definition prune_expired_sessions :: "int \<Rightarrow> auth_db \<Rightarrow> nat \<times> auth_db" where
  "prune_expired_sessions now db =
     (length (filter (\<lambda>s. ss_expires_at s \<le> now) (sessions db)),
      db\<lparr>sessions := sql_delete (\<lambda>s. ss_expires_at s \<le> now) (sessions db)\<rparr>)"

section \<open>Integrity\<close>

definition auth_ok :: "auth_db \<Rightarrow> bool" where
  "auth_ok db \<longleftrightarrow>
     unique_key us_id (users db) \<and> unique_key us_username (users db)
     \<and> unique_key ss_token_hash (sessions db)
     \<and> list_all (\<lambda>u. us_id u \<le> user_seq db \<and> role_parse (us_role u) \<noteq> None) (users db)
     \<and> list_all (\<lambda>s. ss_user_id s \<in> us_id ` set (users db)) (sessions db)"

lemma role_codec [simp]: "role_parse (role_str r) = Some r"
  by (cases r) (simp_all add: role_parse_def)

lemma ids_update:
  assumes "\<And>u. us_id (f u) = us_id u"
  shows "us_id ` set (sql_update p f t) = us_id ` set t"
  using arg_cong [OF map_key_update [of p us_id f t], of set] assms by simp

lemma create_user_ok:
  assumes "create_user w salt n pw r now db = Inr (u, db')" "auth_ok db"
  shows "auth_ok db'"
proof -
  have "us_id x \<noteq> user_seq db + 1" if "x \<in> set (users db)" for x
    using assms(2) that by (force simp: auth_ok_def list_all_iff)
  then show ?thesis using assms
    by (fastforce simp: create_user_def auth_ok_def unique_key_snoc select_by_None list_all_iff Let_def
        split: sum.splits if_splits)
qed

lemma session_ops_ok:
  assumes "auth_ok db"
  shows "auth_ok (delete_session th db)" "auth_ok (snd (lookup_session th now db))"
    "auth_ok (refresh_session_expiry th e db)" "auth_ok (delete_sessions_for_user uid db)"
    "auth_ok (snd (prune_expired_sessions now db))"
  using assms
  by (auto simp: auth_ok_def delete_session_def lookup_session_def refresh_session_expiry_def
      delete_sessions_for_user_def prune_expired_sessions_def list_all_iff in_set_update
      intro: unique_key_delete split: option.splits)

lemma create_session_ok:
  "create_session uid th c e db = Inr db' \<Longrightarrow> auth_ok db \<Longrightarrow> auth_ok db'"
  by (auto simp: create_session_def auth_ok_def unique_key_snoc select_by_None list_all_iff
      dest: select_by_Some split: if_splits)

lemma user_updates_ok:
  assumes "auth_ok db"
  shows "auth_ok (update_user_role i r db)" "auth_ok (touch_last_login i now db)"
    "set_user_password w salt i pw db = Inr db' \<Longrightarrow> auth_ok db'"
  using assms
  by (auto simp: auth_ok_def update_user_role_def touch_last_login_def set_user_password_def
      list_all_iff in_set_update ids_update split: sum.splits)

lemma delete_user_ok: "auth_ok db \<Longrightarrow> auth_ok (delete_user i db)"
  by (auto simp: auth_ok_def delete_user_def list_all_iff image_delete_key image_iff
      intro: unique_key_delete) fastforce

end
