(* ===== verification/Server_Auth.thy ===== *)
theory Server_Auth
  imports Store_Auth Json
begin

text \<open>
  \<open>crates/server/src/auth.rs\<close>: the role policy, the session middleware and guards, and the
  authentication and user routes. A handler maps the database to a response and the database
  it leaves; the clock, the salt and the token bytes it draws are arguments.
\<close>

section \<open>Policy\<close>

definition permissions_for :: "user_role \<Rightarrow> string list" where
  "permissions_for r =
     (case r of
        RoleUser \<Rightarrow> [''chat:use'', ''invoke:use'', ''caps:read'', ''peers:read'', ''backends:read'',
          ''identity:read'', ''files:read'', ''files:delete'']
      | RoleOperator \<Rightarrow> [''chat:use'', ''invoke:use'', ''caps:read'', ''caps:write'', ''peers:read'',
          ''backends:read'', ''identity:read'', ''files:read'', ''files:delete'', ''caps:blobs:read'']
      | RoleAdmin \<Rightarrow> [''chat:use'', ''invoke:use'', ''caps:read'', ''caps:write'', ''peers:read'',
          ''peers:write'', ''backends:read'', ''backends:write'', ''users:read'', ''users:write'',
          ''identity:read'', ''identity:rotate'', ''files:read'', ''files:delete'', ''caps:blobs:read''])"

definition has_permission :: "user_role \<Rightarrow> string \<Rightarrow> bool" where
  "has_permission r want \<longleftrightarrow> want \<in> set (permissions_for r)"

definition USERS_WRITE :: string where
  "USERS_WRITE = ''users:write''"

section \<open>Responses and sessions\<close>

record response =
  rs_status :: nat
  rs_body :: json
  rs_cookies :: "string list"

record authed_user =
  au_id :: int
  au_username :: string
  au_role :: user_role
  au_token_hash :: "string option"

type_synonym 'd handler = "authed_user option \<Rightarrow> 'd \<Rightarrow> response \<times> 'd"

definition respond :: "nat \<Rightarrow> json \<Rightarrow> response" where
  "respond code body = \<lparr>rs_status = code, rs_body = body, rs_cookies = []\<rparr>"

definition error_response :: "nat \<Rightarrow> string \<Rightarrow> response" where
  "error_response code msg = respond code (json_obj [(''error'', JStr msg)])"

definition unauthorised :: response where
  "unauthorised = respond 401 (json_obj [(''error'', JStr ''unauthenticated'')])"

definition forbidden :: "string \<Rightarrow> response" where
  "forbidden p = respond 403 (json_obj [(''error'', JStr ''forbidden''), (''required_permission'', JStr p)])"

definition ok_response :: response where
  "ok_response = respond 200 (json_obj [(''ok'', JBool True)])"

definition SESSION_COOKIE :: string where
  "SESSION_COOKIE = ''n3ur0n_session''"

definition SESSION_TTL_SECS :: int where
  "SESSION_TTL_SECS = 7 * 24 * 60 * 60"

fun extract_parts :: "string list \<Rightarrow> string option" where
  "extract_parts [] = None"
| "extract_parts (p # ps) =
     (case strip_prefix (SESSION_COOKIE @ ''='') (trim p) of
        Some rest \<Rightarrow> if rest \<noteq> [] then Some rest else extract_parts ps
      | None \<Rightarrow> extract_parts ps)"

definition extract_cookie :: "string option \<Rightarrow> string option" where
  "extract_cookie header = Option.bind header (\<lambda>raw. extract_parts (split_on CHR '';'' raw))"

definition session_cookie_string :: "string \<Rightarrow> int \<Rightarrow> string" where
  "session_cookie_string token age =
     SESSION_COOKIE @ ''='' @ token @ ''; Path=/; Max-Age='' @ dec_int age @ ''; HttpOnly; SameSite=Lax''"

definition cleared_session_cookie_string :: string where
  "cleared_session_cookie_string = SESSION_COOKIE @ ''=; Path=/; Max-Age=0; HttpOnly; SameSite=Lax''"

text \<open>\<open>HeaderValue::from_str\<close> accepts tabs and bytes from 32 on, except 127.\<close>

definition header_value_ok :: "string \<Rightarrow> bool" where
  "header_value_ok = list_all (\<lambda>c. byte c = 9 \<or> (32 \<le> byte c \<and> byte c \<noteq> 127))"

definition append_cookie :: "string \<Rightarrow> response \<Rightarrow> response" where
  "append_cookie c r = (if header_value_ok c then r\<lparr>rs_cookies := rs_cookies r @ [c]\<rparr> else r)"

definition bypass_user :: authed_user where
  "bypass_user = \<lparr>au_id = 0, au_username = ''dev-bypass'', au_role = RoleAdmin, au_token_hash = None\<rparr>"

definition resolve_session ::
  "('x) crypto_scheme \<Rightarrow> int \<Rightarrow> string \<Rightarrow> auth_db \<Rightarrow> authed_user option \<times> auth_db" where
  "resolve_session w now token db =
     (let th = hash_session_token w token in
      case lookup_session th now db of
        (Some u, db1) \<Rightarrow>
          (Some \<lparr>au_id = u_id u, au_username = u_username u, au_role = u_role u, au_token_hash = Some th\<rparr>,
           refresh_session_expiry th (now + SESSION_TTL_SECS) db1)
      | (None, db1) \<Rightarrow> (None, db1))"

definition session_middleware ::
  "('x) crypto_scheme \<Rightarrow> bool \<Rightarrow> int \<Rightarrow> string option \<Rightarrow> auth_db handler \<Rightarrow> auth_db \<Rightarrow> response \<times> auth_db" where
  "session_middleware w bypass now header next_handler db =
     (if bypass then next_handler (Some bypass_user) db
      else (case extract_cookie header of
              None \<Rightarrow> next_handler None db
            | Some token \<Rightarrow>
                (case resolve_session w now token db of
                   (None, db1) \<Rightarrow> next_handler None db1
                 | (Some u, db1) \<Rightarrow>
                     (case next_handler (Some u) db1 of
                        (resp, db2) \<Rightarrow>
                          (append_cookie (session_cookie_string token SESSION_TTL_SECS) resp, db2)))))"

definition require_authed :: "'d handler \<Rightarrow> 'd handler" where
  "require_authed h user db = (if user = None then (unauthorised, db) else h user db)"

definition require_permission :: "string \<Rightarrow> 'd handler \<Rightarrow> 'd handler" where
  "require_permission p h user db =
     (case user of
        None \<Rightarrow> (unauthorised, db)
      | Some u \<Rightarrow> if has_permission (au_role u) p then h user db else (forbidden p, db))"

section \<open>Authentication routes\<close>

definition is_valid_username :: "string \<Rightarrow> bool" where
  "is_valid_username s \<longleftrightarrow>
     (let n = length (chars s) in 3 \<le> n \<and> n \<le> 32)
     \<and> list_all (ascii_char (\<lambda>c. is_ascii_alphanumeric c \<or> c = CHR ''.'' \<or> c = CHR ''_'' \<or> c = CHR ''-''))
         (chars s)"

definition perms_json :: "user_role \<Rightarrow> json" where
  "perms_json r = enc_list JStr (permissions_for r)"

definition issue_session ::
  "('x) crypto_scheme \<Rightarrow> string \<Rightarrow> user_record \<Rightarrow> int \<Rightarrow> auth_db \<Rightarrow> response \<times> auth_db" where
  "issue_session w raw user now db =
     (case mint_session_token w raw of
        (token, th) \<Rightarrow>
          (case create_session (u_id user) th now (now + SESSION_TTL_SECS) db of
             Inl e \<Rightarrow> (error_response 500 e, db)
           | Inr db' \<Rightarrow>
               (append_cookie (session_cookie_string token SESSION_TTL_SECS)
                  (respond 200 (json_obj
                    [(''id'', JInt (u_id user)), (''username'', JStr (u_username user)),
                     (''role'', JStr (role_str (u_role user))),
                     (''permissions'', perms_json (u_role user))])), db')))"

definition bootstrap ::
  "('x) auth_env_scheme \<Rightarrow> string \<Rightarrow> string \<Rightarrow> int \<Rightarrow> string \<Rightarrow> string \<Rightarrow> auth_db \<Rightarrow> response \<times> auth_db" where
  "bootstrap w salt raw now name pw db =
     (if count_users db > 0 then (error_response 409 ''bootstrap already completed'', db)
      else if \<not> is_valid_username name
      then (error_response 400 ''invalid username (3-32 chars, [A-Za-z0-9._-])'', db)
      else if length (chars pw) < 6
      then (error_response 400 ''password must be at least 6 chars'', db)
      else (case create_user w salt name pw RoleAdmin now db of
              Inl e \<Rightarrow> (error_response 500 e, db)
            | Inr (user, db1) \<Rightarrow> issue_session w raw user now db1))"

definition login ::
  "('x) auth_env_scheme \<Rightarrow> string \<Rightarrow> int \<Rightarrow> string \<Rightarrow> string \<Rightarrow> auth_db \<Rightarrow> response \<times> auth_db" where
  "login w raw now name pw db =
     (case fetch_password_hash name db of
        None \<Rightarrow> (error_response 401 ''invalid credentials'', db)
      | Some (uid, h) \<Rightarrow>
          (if verify_password w pw h \<noteq> Inr True
           then (error_response 401 ''invalid credentials'', db)
           else (case get_user_by_id uid db of
                   None \<Rightarrow> (error_response 500 ''user lookup failed'', db)
                 | Some user \<Rightarrow>
                     issue_session w raw user now (touch_last_login (u_id user) now db))))"

definition logout :: "auth_db handler" where
  "logout user db =
     (let db' = (case user of
          Some u \<Rightarrow> (case au_token_hash u of Some th \<Rightarrow> delete_session th db | None \<Rightarrow> db)
        | None \<Rightarrow> db)
      in (append_cookie cleared_session_cookie_string ok_response, db'))"

definition me :: "auth_db handler" where
  "me user db =
     (respond 200 (case user of
        Some u \<Rightarrow> json_obj
          [(''authenticated'', JBool True), (''id'', JInt (au_id u)), (''username'', JStr (au_username u)),
           (''role'', JStr (role_str (au_role u))), (''permissions'', perms_json (au_role u)),
           (''bootstrap_required'', JBool False)]
      | None \<Rightarrow> json_obj
          [(''authenticated'', JBool False), (''bootstrap_required'', JBool (count_users db = 0))]), db)"

definition change_password ::
  "('x) auth_env_scheme \<Rightarrow> string \<Rightarrow> string \<Rightarrow> string \<Rightarrow> auth_db handler" where
  "change_password w salt current new user db =
     (case user of
        None \<Rightarrow> (unauthorised, db)
      | Some u \<Rightarrow>
          (if length (chars new) < 6
           then (error_response 400 ''new password must be at least 6 chars'', db)
           else (case fetch_password_hash (au_username u) db of
                   None \<Rightarrow> (error_response 500 ''user not found'', db)
                 | Some (_, h) \<Rightarrow>
                     (if verify_password w current h \<noteq> Inr True
                      then (error_response 401 ''current password incorrect'', db)
                      else (case set_user_password w salt (au_id u) new db of
                              Inl e \<Rightarrow> (error_response 500 e, db)
                            | Inr db1 \<Rightarrow>
                                (ok_response, delete_sessions_for_user (au_id u) db1))))))"

section \<open>User routes\<close>

definition user_json :: "user_record \<Rightarrow> json" where
  "user_json u =
     json_obj [(''id'', JInt (u_id u)), (''username'', JStr (u_username u)),
       (''role'', JStr (role_str (u_role u))), (''created_at'', JInt (u_created_at u)),
       (''last_login'', (case u_last_login u of None \<Rightarrow> JNull | Some t \<Rightarrow> JInt t))]"

definition list_users_route :: "auth_db handler" where
  "list_users_route user db = (respond 200 (json_obj [(''users'', enc_list user_json (list_users db))]), db)"

definition create_user_route ::
  "('x) auth_env_scheme \<Rightarrow> string \<Rightarrow> int \<Rightarrow> string \<Rightarrow> string \<Rightarrow> string \<Rightarrow> auth_db handler" where
  "create_user_route w salt now name pw role_text user db =
     (if \<not> is_valid_username name then (error_response 400 ''invalid username'', db)
      else if length (chars pw) < 6
      then (error_response 400 ''password must be at least 6 chars'', db)
      else (case role_parse role_text of
              None \<Rightarrow> (error_response 400 ''role must be user|operator|admin'', db)
            | Some r \<Rightarrow>
                (case create_user w salt name pw r now db of
                   Inl e \<Rightarrow> (error_response 409 e, db)
                 | Inr (u, db') \<Rightarrow> (respond 201 (user_json u), db'))))"

text \<open>The password half of an update; \<open>Some resp\<close> is its early return.\<close>

definition update_password_part ::
  "('x) auth_env_scheme \<Rightarrow> string \<Rightarrow> int \<Rightarrow> string option \<Rightarrow> auth_db \<Rightarrow> response option \<times> auth_db" where
  "update_password_part w salt i pw db =
     (case pw of
        None \<Rightarrow> (None, db)
      | Some p \<Rightarrow>
          (if length (chars p) < 6
           then (Some (error_response 400 ''password must be at least 6 chars''), db)
           else (case set_user_password w salt i p db of
                   Inl e \<Rightarrow> (Some (error_response 500 e), db)
                 | Inr db1 \<Rightarrow> (None, delete_sessions_for_user i db1))))"

definition update_user_route ::
  "('x) auth_env_scheme \<Rightarrow> string \<Rightarrow> int \<Rightarrow> string option \<Rightarrow> string option \<Rightarrow> auth_db handler" where
  "update_user_route w salt i role_text pw user db =
     (case (case role_text of
              None \<Rightarrow> Inr db
            | Some r \<Rightarrow>
                (case role_parse r of
                   None \<Rightarrow> Inl (error_response 400 ''role must be user|operator|admin'')
                 | Some x \<Rightarrow> Inr (update_user_role i x db))) of
        Inl resp \<Rightarrow> (resp, db)
      | Inr db1 \<Rightarrow>
          (case update_password_part w salt i pw db1 of
             (Some resp, db2) \<Rightarrow> (resp, db2)
           | (None, db2) \<Rightarrow>
               (respond 200 (json_obj [(''ok'', JBool True),
                  (''user'', (case get_user_by_id i db2 of None \<Rightarrow> JNull | Some u \<Rightarrow> user_json u))]),
                db2)))"

definition delete_user_route :: "int \<Rightarrow> auth_db handler" where
  "delete_user_route i user db =
     (if (\<exists>u. user = Some u \<and> au_id u = i) then (error_response 400 ''cannot delete yourself'', db)
      else let admins = filter (\<lambda>u. u_role u = RoleAdmin) (list_users db) in
        if length admins \<le> 1 \<and> list_ex (\<lambda>u. u_id u = i) admins
        then (error_response 400 ''cannot delete the last admin'', db)
        else (ok_response, delete_user i db))"

text \<open>The router: the user routes sit behind the \<open>users:write\<close> guard.\<close>

datatype user_request =
    ListUsers
  | CreateUser string string string
  | UpdateUser int "string option" "string option"
  | DeleteUser int

definition users_handler ::
  "('x) auth_env_scheme \<Rightarrow> string \<Rightarrow> int \<Rightarrow> user_request \<Rightarrow> auth_db handler" where
  "users_handler w salt now req =
     require_permission USERS_WRITE
       (case req of
          ListUsers \<Rightarrow> list_users_route
        | CreateUser n p r \<Rightarrow> create_user_route w salt now n p r
        | UpdateUser i r p \<Rightarrow> update_user_route w salt i r p
        | DeleteUser i \<Rightarrow> delete_user_route i)"

section \<open>Lemmas\<close>

lemma permissions_grow:
  "set (permissions_for RoleUser) \<subseteq> set (permissions_for RoleOperator)"
  "set (permissions_for RoleOperator) \<subseteq> set (permissions_for RoleAdmin)"
  by (auto simp: permissions_for_def)

lemma users_write_admin: "has_permission r USERS_WRITE \<longleftrightarrow> r = RoleAdmin"
  by (cases r) (simp_all add: has_permission_def permissions_for_def USERS_WRITE_def)

lemma set_password_sessions:
  "set_user_password w salt i pw db = Inr db' \<Longrightarrow> sessions db' = sessions db"
  by (auto simp: set_user_password_def split: sum.splits)

lemma select_by_created:
  assumes "create_session uid th c e db = Inr db'"
  shows "select_by ss_token_hash th (sessions db') =
      Some \<lparr>ss_token_hash = th, ss_user_id = uid, ss_created_at = c, ss_expires_at = e\<rparr>"
    "users db' = users db"
  using assms by (auto simp: create_session_def select_by_snoc split: if_splits option.splits)

lemma lookup_created:
  assumes "create_session uid th c e db = Inr db'"
  shows "fst (lookup_session th now db') =
    (if now < e then map_option row_to_user (select_by us_id uid (users db)) else None)"
  using select_by_created [OF assms]
  by (auto simp: lookup_session_def split: option.splits)

lemma resolve_fst: "fst (resolve_session w now token db) =
    map_option (\<lambda>u. \<lparr>au_id = u_id u, au_username = u_username u, au_role = u_role u,
        au_token_hash = Some (hash_session_token w token)\<rparr>)
      (fst (lookup_session (hash_session_token w token) now db))"
  by (auto simp: resolve_session_def Let_def split: prod.splits option.splits)

lemma admins_left:
  "filter (\<lambda>u. u_role u = RoleAdmin) (list_users (delete_user i db)) =
       filter (\<lambda>u. u_id u \<noteq> i) (filter (\<lambda>u. u_role u = RoleAdmin) (list_users db))"
  by (simp add: list_users_def delete_user_def sql_delete_def filter_map comp_def row_to_user_def
      conj_commute flip: filter_sort)

definition admins :: "auth_db \<Rightarrow> user_record list" where
  "admins db = filter (\<lambda>u. u_role u = RoleAdmin) (list_users db)"

lemma distinct_ids: "unique_key us_id (users db) \<Longrightarrow> distinct (map u_id (list_users db))"
proof -
  assume "unique_key us_id (users db)"
  moreover have "map u_id (list_users db) = map us_id (sort_key us_username (users db))"
    by (simp add: list_users_def row_to_user_def comp_def)
  moreover have "mset (map us_id (sort_key us_username (users db))) = mset (map us_id (users db))"
    by simp
  ultimately show ?thesis unfolding unique_key_def by (metis mset_eq_imp_distinct_iff)
qed

lemma delete_keeps_admin:
  assumes "auth_ok db" "admins db \<noteq> []"
  shows "admins (snd (delete_user_route i user db)) \<noteq> []"
proof (cases "snd (delete_user_route i user db) = db")
  case False
  then have del: "snd (delete_user_route i user db) = delete_user i db"
    and guard: "\<not> (length (admins db) \<le> 1 \<and> list_ex (\<lambda>u. u_id u = i) (admins db))"
    by (auto simp: delete_user_route_def admins_def Let_def split: if_splits)
  have left: "admins (delete_user i db) = filter (\<lambda>u. u_id u \<noteq> i) (admins db)"
    by (simp add: admins_def admins_left)
  show ?thesis
  proof (cases "list_ex (\<lambda>u. u_id u = i) (admins db)")
    case True
    then obtain a b rest where ab: "admins db = a # b # rest"
      using guard by (cases "admins db"; cases "tl (admins db)") auto
    have "distinct (map u_id (admins db))"
      using distinct_ids assms(1) by (auto simp: admins_def auth_ok_def intro: distinct_map_filter)
    then have "u_id a \<noteq> u_id b" by (simp add: ab)
    then show ?thesis unfolding del left ab by auto
  next
    case False
    then have "filter (\<lambda>u. u_id u \<noteq> i) (admins db) = admins db"
      by (auto simp: filter_id_conv list_ex_iff)
    then show ?thesis using assms(2) by (simp add: del left)
  qed
qed (use assms in simp)

section \<open>Properties\<close>

text \<open>
  (roles). Each role holds the permissions of the one below it, and a user route run for
  anybody but an admin answers 401 or 403 and changes nothing.
\<close>

theorem roles_and_guard:
  "set (permissions_for RoleUser) \<subseteq> set (permissions_for RoleOperator)
   \<and> set (permissions_for RoleOperator) \<subseteq> set (permissions_for RoleAdmin)
   \<and> (if (\<exists>u. user = Some u \<and> au_role u = RoleAdmin) then True
      else users_handler w salt now req user db =
        (if user = None then unauthorised else forbidden USERS_WRITE, db))"
  using permissions_grow
  by (auto simp: users_handler_def require_permission_def users_write_admin split: option.splits)

text \<open>
  (sessions). The cookie issued at a login identifies its user until the session expires
  after seven days, and nobody from then on.
\<close>

theorem issued_session_valid_until_expiry:
  assumes "mint_session_token w raw = (token, th)"
    and "create_session uid th now (now + SESSION_TTL_SECS) db = Inr db'"
    and "select_by us_id uid (users db) = Some row"
  shows "fst (resolve_session w later token db') =
    (if later < now + 604800
     then Some \<lparr>au_id = us_id row, au_username = us_username row, au_role = u_role (row_to_user row),
       au_token_hash = Some th\<rparr>
     else None)"
proof -
  have "th = hash_session_token w token" using assms(1) by (auto simp: mint_session_token_def Let_def)
  then show ?thesis
    using assms(3) lookup_created [OF assms(2), of later]
    by (simp add: resolve_fst SESSION_TTL_SECS_def row_to_user_def)
qed

definition sample_user :: "int \<Rightarrow> string \<Rightarrow> user_role \<Rightarrow> user_row" where
  "sample_user i n r = \<lparr>us_id = i, us_username = n, us_password_hash = ''h'' @ n, us_role = role_str r,
     us_created_at = 1, us_last_login = None\<rparr>"

definition sample_auth :: auth_db where
  "sample_auth = \<lparr>users = [sample_user 1 ''root'' RoleAdmin, sample_user 2 ''bob'' RoleUser],
     sessions = [], user_seq = 2\<rparr>"

lemma issued_session_valid_until_expiry_witness:
  "fst (resolve_session toy_crypto 50 (fst (mint_session_token toy_crypto ''k''))
      (sample_auth\<lparr>sessions := [\<lparr>ss_token_hash = snd (mint_session_token toy_crypto ''k''),
         ss_user_id = 2, ss_created_at = 10, ss_expires_at = 10 + SESSION_TTL_SECS\<rparr>]\<rparr>)) =
    Some \<lparr>au_id = 2, au_username = ''bob'', au_role = RoleUser,
      au_token_hash = Some (snd (mint_session_token toy_crypto ''k''))\<rparr>"
proof -
  let ?db = "sample_auth\<lparr>sessions := [\<lparr>ss_token_hash = snd (mint_session_token toy_crypto ''k''),
         ss_user_id = 2, ss_created_at = 10, ss_expires_at = 10 + SESSION_TTL_SECS\<rparr>]\<rparr>"
  have "create_session 2 (snd (mint_session_token toy_crypto ''k'')) 10 (10 + SESSION_TTL_SECS) sample_auth
      = Inr ?db"
    "select_by us_id 2 (users sample_auth) = Some (sample_user 2 ''bob'' RoleUser)"
    by (simp_all add: create_session_def sample_auth_def select_by_def sample_user_def)
  from issued_session_valid_until_expiry [OF prod.collapse [symmetric] this, of 50] show ?thesis
    by (simp add: sample_user_def row_to_user_def role_parse_def)
qed

text \<open>
  (the last admin cannot be deleted). On a consistent database with an admin, deleting a
  user through the route leaves an admin.
\<close>

theorem delete_route_keeps_admin:
  assumes "auth_ok db" "admins db \<noteq> []"
  shows "admins (snd (delete_user_route i user db)) \<noteq> []"
  using assms by (rule delete_keeps_admin)

lemma sample_auth_ok: "auth_ok sample_auth" "admins sample_auth = [row_to_user (sample_user 1 ''root'' RoleAdmin)]"
  by (simp_all add: auth_ok_def sample_auth_def sample_user_def unique_key_def admins_def list_users_def
      row_to_user_def role_parse_def)

lemma delete_route_keeps_admin_witness:
  "admins (snd (delete_user_route 1 None sample_auth)) \<noteq> []"
  by (rule delete_route_keeps_admin) (simp_all add: sample_auth_ok)

text \<open>
  (the update route has no such guard). Patching the only admin's role leaves no admin at
  all; and a patch that is refused for its short password has already changed the role.
\<close>

theorem update_route_drops_last_admin:
  "admins sample_auth \<noteq> []
   \<and> admins (snd (update_user_route w salt 1 (Some ''user'') None user sample_auth)) = []
   \<and> rs_status (fst (update_user_route w salt 1 (Some ''user'') (Some ''short'') user sample_auth)) = 400
   \<and> admins (snd (update_user_route w salt 1 (Some ''user'') (Some ''short'') user sample_auth)) = []"
  by (simp add: sample_auth_ok update_user_route_def update_password_part_def role_parse_def
      update_user_role_def sample_auth_def sample_user_def admins_def list_users_def row_to_user_def
      sql_update_def error_response_def respond_def char_width_def)

text \<open>
  (a password change ends every session). After a successful change no session of that
  user is left, the one that asked for the change included.
\<close>

theorem password_change_revokes_all:
  assumes "change_password w salt current new (Some u) db = (resp, db')" "rs_status resp = 200"
  shows "list_all (\<lambda>s. ss_user_id s \<noteq> au_id u) (sessions db')"
  using assms
  by (auto simp: change_password_def error_response_def respond_def list_all_iff
      delete_sessions_for_user_def split: if_splits option.splits sum.splits prod.splits)

definition toy_auth :: auth_env where
  "toy_auth = crypto.extend toy_crypto
     \<lparr>argon_hash = (\<lambda>salt pw. Some (''h'' @ pw)), argon_verify = (\<lambda>pw h. Some (h = ''h'' @ pw))\<rparr>"

lemma password_change_revokes_all_witness:
  "list_all (\<lambda>s. ss_user_id s \<noteq> 2)
     (sessions (snd (change_password toy_auth [] ''bob'' ''secret'' (Some \<lparr>au_id = 2, au_username = ''bob'',
        au_role = RoleUser, au_token_hash = Some ''t''\<rparr>)
        (sample_auth\<lparr>sessions := [\<lparr>ss_token_hash = ''t'', ss_user_id = 2, ss_created_at = 1, ss_expires_at = 9\<rparr>]\<rparr>))))"
proof -
  let ?u = "\<lparr>au_id = 2, au_username = ''bob'', au_role = RoleUser, au_token_hash = Some ''t''\<rparr>"
  let ?db = "sample_auth\<lparr>sessions := [\<lparr>ss_token_hash = ''t'', ss_user_id = 2, ss_created_at = 1, ss_expires_at = 9\<rparr>]\<rparr>"
  have "rs_status (fst (change_password toy_auth [] ''bob'' ''secret'' (Some ?u) ?db)) = 200"
    by (simp add: change_password_def sample_auth_def fetch_password_hash_def select_by_def
        sample_user_def verify_password_def toy_auth_def set_user_password_def hash_password_def
        crypto.defs ok_response_def respond_def char_width_def)
  from password_change_revokes_all [OF prod.collapse [symmetric] this] show ?thesis by simp
qed

end
