(* ===== verification/Server_Blobs.thy ===== *)
theory Server_Blobs
  imports Node_Handler Error_Text Node_Blobs Server_Auth
begin

text \<open>
  \<open>crates/server/src/blobs.rs\<close> and \<open>blob_gc.rs\<close>: the publisher's blob endpoint, its tickets,
  quotas and retention, and the sweep of expired blobs. A request carries the readings of the
  clock its handler makes, in their order, and what the file system answers; the node's database
  and files are the node's state. JSON text and RFC 3339 are parameters.
\<close>

section \<open>Replies\<close>

datatype reply_body = NoBody | JsonBody json | ByteBody string

record reply =
  rp_status :: nat
  rp_headers :: "(string \<times> string) list"
  rp_body :: reply_body

definition json_reply :: "nat \<Rightarrow> json \<Rightarrow> reply" where
  "json_reply code j =
     \<lparr>rp_status = code, rp_headers = [(''content-type'', ''application/json'')], rp_body = JsonBody j\<rparr>"

definition blob_error :: "nat \<Rightarrow> string \<Rightarrow> reply" where
  "blob_error code msg = json_reply code (json_obj [(''error'', JStr msg)])"

record blob_env = ticket_env +
  secs_rfc3339 :: "int \<Rightarrow> string option"
  json_fault :: "json \<Rightarrow> string"
  json_write :: "json \<Rightarrow> string option"
  json_read :: "string \<Rightarrow> json option"

record 'b blob_host =
  bh_node :: "'b node"
  config_dir :: "string option"

text \<open>
  \<open>bq_mkdir\<close> and \<open>bq_write\<close> are the error of a failed directory creation or write, the latter
  with what it leaves in the file; \<open>bq_unlink\<close> says whether removing the file succeeds.
\<close>

record blob_request =
  bq_hash :: string
  bq_ticket :: "string option"
  bq_body :: string
  bq_verify :: time
  bq_now :: time
  bq_check :: time
  bq_quota :: time
  bq_store :: time
  bq_sql :: int
  bq_mkdir :: "string option"
  bq_write :: "(string \<times> string option) option"
  bq_unlink :: bool

definition MAX_GRANTED_TTL_SECS :: int where
  "MAX_GRANTED_TTL_SECS = 7 * 24 * 60 * 60"

definition DEFAULT_PER_PEER_BYTES :: int where
  "DEFAULT_PER_PEER_BYTES = 100 * 1024 * 1024"

definition DEFAULT_PER_PEER_BLOBS :: int where
  "DEFAULT_PER_PEER_BLOBS = 50"

definition blobs_root :: "string \<Rightarrow> string" where
  "blobs_root dir = path_join (path_join dir ''blobs'') ''sha256''"

definition storage_path_in :: "string \<Rightarrow> string \<Rightarrow> string" where
  "storage_path_in root h = path_join root h"

section \<open>Tickets\<close>

text \<open>\<open>HeaderValue::to_str\<close> answers for tabs and visible ASCII only.\<close>

definition header_to_str :: "string \<Rightarrow> string option" where
  "header_to_str v = (if list_all (\<lambda>c. byte c = 9 \<or> (32 \<le> byte c \<and> byte c < 127)) v then Some v else None)"

definition ticket_message ::
  "('x) ticket_env_scheme \<Rightarrow> 'b node \<Rightarrow> blob_request \<Rightarrow> (reply, signed_message) result" where
  "ticket_message be nd rq =
     (case Option.bind (bq_ticket rq) header_to_str of
        None \<Rightarrow> Inl (blob_error 401 ''missing X-N3UR0N-Ticket'')
      | Some raw \<Rightarrow>
          (case decode_ticket_wire be raw of
             Inl e \<Rightarrow> Inl (blob_error 400 (core_error_text e))
           | Inr sg \<Rightarrow>
               (case verify_envelope be sg (keypair_id be (nd_keypair nd)) (bq_verify rq) (nd_verify nd) of
                  Inl e \<Rightarrow> Inl (blob_error 401 (core_error_text e))
                | Inr msg \<Rightarrow>
                    if verb (sm_envelope msg) \<noteq> BlobTicket
                    then Inl (blob_error 400 ''ticket verb must be blob_ticket'')
                    else Inr msg)))"

definition ticket_payload ::
  "('x) blob_env_scheme \<Rightarrow> blob_request \<Rightarrow> blob_operation \<Rightarrow> json \<Rightarrow> (reply, blob_ticket_payload) result" where
  "ticket_payload be rq want pl =
     (case dec_ticket_payload pl of
        None \<Rightarrow> Inl (blob_error 400 (''ticket payload: '' @ json_fault be pl))
      | Some tk \<Rightarrow>
          if operation tk \<noteq> want then Inl (blob_error 400 ''ticket operation mismatch'')
          else if expires_at tk < unix_timestamp (bq_now rq) then Inl (blob_error 401 ''ticket expired'')
          else if (case tk_hash tk of None \<Rightarrow> False | Some h \<Rightarrow> h \<noteq> bq_hash rq)
          then Inl (blob_error 400 ''ticket hash mismatch'')
          else Inr tk)"

definition verify_ticket ::
  "('x) blob_env_scheme \<Rightarrow> 'b node \<Rightarrow> blob_request \<Rightarrow> blob_operation \<Rightarrow> node_state
     \<Rightarrow> (reply, signed_message \<times> blob_ticket_payload) result \<times> node_state" where
  "verify_ticket be nd rq want s =
     (case ticket_message be nd rq of
        Inl r \<Rightarrow> (Inl r, s)
      | Inr msg \<Rightarrow>
          let env = sm_envelope msg;
              (inserted, t) = insert_if_absent (sender_id env) (nonce env)
                (unix_timestamp (bq_now rq)) (ns_nonces s);
              s1 = s\<lparr>ns_nonces := t\<rparr>
          in if \<not> inserted then (Inl (blob_error 409 ''ticket replay''), s1)
             else (case ticket_payload be rq want (payload env) of
                     Inl r \<Rightarrow> (Inl r, s1)
                   | Inr tk \<Rightarrow> (Inr (msg, tk), s1)))"

section \<open>Admission\<close>

definition cap_allows_upload :: "'b node \<Rightarrow> string \<Rightarrow> (reply, unit) result" where
  "cap_allows_upload nd cap =
     (case reg_get cap (nd_registry nd) of
        None \<Rightarrow> Inl (blob_error 404 ''capability not found'')
      | Some d \<Rightarrow>
          (case mode d of
             Private \<Rightarrow> Inl (blob_error 403 ''capability refuses upload'')
           | Restricted \<Rightarrow> Inr ()
           | Free \<Rightarrow> Inr ()))"

definition check_peer_quota :: "string \<Rightarrow> int \<Rightarrow> int \<Rightarrow> blob_table \<Rightarrow> (reply, unit) result" where
  "check_peer_quota uploader add_bytes now t =
     (if sum_bytes_for_uploader uploader now t + add_bytes > DEFAULT_PER_PEER_BYTES
      then Inl (blob_error 429 ''quota exceeded'')
      else if count_for_uploader uploader now t \<ge> DEFAULT_PER_PEER_BLOBS
      then Inl (blob_error 429 ''quota exceeded'')
      else Inr ())"

text \<open>\<open>i64::try_from(r).unwrap_or(i64::MAX).clamp(default, MAX_GRANTED_TTL_SECS)\<close>.\<close>

definition effective_expires :: "blob_ticket_payload \<Rightarrow> int \<Rightarrow> int" where
  "effective_expires tk now =
     (let dflt = ttl_of (purpose tk) in
      now + (case requested_ttl_secs tk of
               None \<Rightarrow> dflt
             | Some r \<Rightarrow> max dflt (min MAX_GRANTED_TTL_SECS (min (uint r) (2 ^ 63 - 1)))))"

definition insert_blob_record ::
  "('x) blob_env_scheme \<Rightarrow> int \<Rightarrow> string \<Rightarrow> int \<Rightarrow> string \<Rightarrow> int \<Rightarrow> string \<Rightarrow> blob_ticket_payload
     \<Rightarrow> string \<Rightarrow> string \<Rightarrow> blob_table \<Rightarrow> blob_table" where
  "insert_blob_record be sql_now h sz mi expires storage tk uploader nonc t =
     (let class = classify_cap_staging in
      blob_upsert sql_now
        \<lparr>hash = h, b_size = sz, mime = mi, path = None, b_expires_at = expires,
         storage_path = storage, b_provenance = ''inbound'', b_role = ''input'',
         b_anchor_kind = ''cap_job'', b_processing_status = ''staged'', local_user_id = None,
         client_id = None, conversation_id = None, dispatch_id = None,
         b_capability = tk_capability tk, remote_sender_id = Some uploader,
         ticket_nonce = Some nonc, invoke_id = None, b_user_visible = user_visible class,
         b_user_deletable = user_deletable class, uploader_id = Some uploader,
         b_recipients_whitelist = map_option (\<lambda>ids. case json_write be (enc_list JStr ids) of
           None \<Rightarrow> [] | Some s \<Rightarrow> s) (recipients_whitelist tk)\<rparr> t)"

definition stored_reply :: "('x) blob_env_scheme \<Rightarrow> nat \<Rightarrow> string \<Rightarrow> json \<Rightarrow> int \<Rightarrow> reply" where
  "stored_reply be code h sz expires =
     json_reply code (json_obj [(''hash'', JStr h), (''size'', sz),
       (''expires_at'', opt_json JStr (secs_rfc3339 be expires))])"

section \<open>The four handlers\<close>

definition store_upload ::
  "('x) blob_env_scheme \<Rightarrow> string \<Rightarrow> blob_request \<Rightarrow> signed_message \<Rightarrow> blob_ticket_payload \<Rightarrow> u64
     \<Rightarrow> string \<Rightarrow> node_state \<Rightarrow> reply \<times> node_state" where
  "store_upload be dir rq sg tk sz mi s =
     (let h = bq_hash rq; uploader = sender_id (sm_envelope sg); w = ns_blobs s;
          storage = storage_path_in (blobs_root dir) h
      in if of_nat (length (bq_body rq)) \<noteq> sz then (blob_error 400 ''size mismatch'', s)
      else if hash_bytes be (bq_body rq) \<noteq> h then (blob_error 400 ''hash mismatch'', s)
      else (case check_peer_quota uploader (sint sz) (unix_timestamp (bq_quota rq)) (bw_index w) of
              Inl r \<Rightarrow> (r, s)
            | Inr _ \<Rightarrow>
                (case bq_mkdir rq of
                   Some e \<Rightarrow> (blob_error 500 e, s)
                 | None \<Rightarrow>
                     (case bq_write rq of
                        Some (e, left) \<Rightarrow>
                          (blob_error 500 e, s\<lparr>ns_blobs := w\<lparr>bw_files := (bw_files w)(storage := left)\<rparr>\<rparr>)
                      | None \<Rightarrow>
                          let expires = effective_expires tk (unix_timestamp (bq_store rq)) in
                          (stored_reply be 201 h (enc_u64 sz) expires,
                           s\<lparr>ns_blobs :=
                             \<lparr>bw_index = insert_blob_record be (bq_sql rq) h (sint sz) mi expires
                                storage tk uploader (nonce (sm_envelope sg)) (bw_index w),
                              bw_files = (bw_files w)(storage \<mapsto> bq_body rq)\<rparr>\<rparr>)))))"

definition put_blob ::
  "('x) blob_env_scheme \<Rightarrow> 'b blob_host \<Rightarrow> blob_request \<Rightarrow> node_state \<Rightarrow> reply \<times> node_state" where
  "put_blob be bh rq s =
     (case config_dir bh of
        None \<Rightarrow> (blob_error 503 ''blob storage not configured'', s)
      | Some dir \<Rightarrow>
     (case validate_hash (bq_hash rq) of
        Inl e \<Rightarrow> (blob_error 400 (core_error_text e), s)
      | Inr _ \<Rightarrow>
     (case verify_ticket be (bh_node bh) rq OpPut s of
        (Inl r, s1) \<Rightarrow> (r, s1)
      | (Inr (sg, tk), s1) \<Rightarrow>
     (case tk_capability tk of
        None \<Rightarrow> (blob_error 400 ''ticket missing capability'', s1)
      | Some cap \<Rightarrow>
     (case tk_size tk of
        None \<Rightarrow> (blob_error 400 ''ticket missing size'', s1)
      | Some sz \<Rightarrow>
     (case tk_mime tk of
        None \<Rightarrow> (blob_error 400 ''ticket missing mime'', s1)
      | Some mi \<Rightarrow>
     (case cap_allows_upload (bh_node bh) cap of
        Inl r \<Rightarrow> (r, s1)
      | Inr _ \<Rightarrow>
     (case blob_get (bq_hash rq) (bw_index (ns_blobs s1)) of
        None \<Rightarrow> store_upload be dir rq sg tk sz mi s1
      | Some r \<Rightarrow>
          if b_expires_at r > unix_timestamp (bq_check rq)
          then (stored_reply be 200 (bq_hash rq) (JInt (b_size r)) (b_expires_at r), s1)
          else store_upload be dir rq sg tk sz mi s1))))))))"

definition get_authorization :: "('x) blob_env_scheme \<Rightarrow> blob_record \<Rightarrow> string \<Rightarrow> (reply, unit) result" where
  "get_authorization be r sender =
     (if uploader_id r = Some sender then Inr ()
      else (case Option.bind (Option.bind (b_recipients_whitelist r) (json_read be)) (dec_list as_str) of
              None \<Rightarrow> Inl (blob_error 403 ''not authorized to download'')
            | Some ids \<Rightarrow>
                if sender \<in> set ids then Inr () else Inl (blob_error 403 ''not authorized to download'')))"

text \<open>\<open>Response::builder\<close> fails when a header value is not valid.\<close>

definition build_response :: "(string \<times> string) list \<Rightarrow> reply_body \<Rightarrow> reply" where
  "build_response headers body =
     (if list_all (\<lambda>(k, v). header_value_ok v) headers
      then \<lparr>rp_status = 200, rp_headers = headers, rp_body = body\<rparr>
      else blob_error 500 ''response build failed'')"

definition get_blob ::
  "('x) blob_env_scheme \<Rightarrow> 'b blob_host \<Rightarrow> blob_request \<Rightarrow> node_state \<Rightarrow> reply \<times> node_state" where
  "get_blob be bh rq s =
     (case validate_hash (bq_hash rq) of
        Inl e \<Rightarrow> (blob_error 400 (core_error_text e), s)
      | Inr _ \<Rightarrow>
     (case verify_ticket be (bh_node bh) rq OpGet s of
        (Inl r, s1) \<Rightarrow> (r, s1)
      | (Inr (sg, tk), s1) \<Rightarrow>
     (case blob_get (bq_hash rq) (bw_index (ns_blobs s1)) of
        None \<Rightarrow> (blob_error 404 ''blob not found'', s1)
      | Some r \<Rightarrow>
          let now = unix_timestamp (bq_check rq) in
          if b_expires_at r \<le> now then (blob_error 404 ''blob expired'', s1)
          else (case get_authorization be r (sender_id (sm_envelope sg)) of
                  Inl e \<Rightarrow> (e, s1)
                | Inr _ \<Rightarrow>
                    (case bw_files (ns_blobs s1) (storage_path r) of
                       None \<Rightarrow> (blob_error 404 ''blob not found'', s1)
                     | Some bytes \<Rightarrow>
                         (build_response
                            [(''content-type'', mime r), (''content-length'', dec_int (b_size r)),
                             (''etag'', CHR 0x22 # hash r @ [CHR 0x22])] (ByteBody bytes),
                          s1\<lparr>ns_blobs := (ns_blobs s1)\<lparr>bw_index :=
                            touch (bq_hash rq) now (bw_index (ns_blobs s1))\<rparr>\<rparr>))))))"

definition head_blob :: "blob_request \<Rightarrow> node_state \<Rightarrow> reply" where
  "head_blob rq s =
     (case validate_hash (bq_hash rq) of
        Inl e \<Rightarrow> blob_error 400 (core_error_text e)
      | Inr _ \<Rightarrow>
          (case blob_get (bq_hash rq) (bw_index (ns_blobs s)) of
             None \<Rightarrow> blob_error 404 ''blob not found''
           | Some r \<Rightarrow>
               if b_expires_at r \<le> unix_timestamp (bq_check rq) then blob_error 404 ''blob not found''
               else build_response
                 [(''content-type'', mime r), (''content-length'', dec_int (b_size r))] NoBody))"

definition delete_blob ::
  "('x) blob_env_scheme \<Rightarrow> 'b blob_host \<Rightarrow> blob_request \<Rightarrow> node_state \<Rightarrow> reply \<times> node_state" where
  "delete_blob be bh rq s =
     (case validate_hash (bq_hash rq) of
        Inl e \<Rightarrow> (blob_error 400 (core_error_text e), s)
      | Inr _ \<Rightarrow>
     (case verify_ticket be (bh_node bh) rq OpDelete s of
        (Inl r, s1) \<Rightarrow> (r, s1)
      | (Inr (sg, tk), s1) \<Rightarrow>
     (case blob_get (bq_hash rq) (bw_index (ns_blobs s1)) of
        None \<Rightarrow> (blob_error 404 ''blob not found'', s1)
      | Some r \<Rightarrow>
          if uploader_id r \<noteq> Some (sender_id (sm_envelope sg))
          then (blob_error 403 ''only uploader may delete'', s1)
          else let w = ns_blobs s1 in
            (\<lparr>rp_status = 204, rp_headers = [], rp_body = NoBody\<rparr>,
             s1\<lparr>ns_blobs :=
               \<lparr>bw_index = snd (blob_delete (bq_hash rq) (bw_index w)),
                bw_files = (if bq_unlink rq then (bw_files w)(storage_path r := None) else bw_files w)\<rparr>\<rparr>))))"

section \<open>The sweep\<close>

text \<open>One tick removes the expired rows first, then their files; another handler may run between.\<close>

definition gc_rows :: "int \<Rightarrow> node_state \<Rightarrow> blob_record list \<times> node_state" where
  "gc_rows now s =
     (let (expired, t) = delete_expired now (bw_index (ns_blobs s)) in
      (expired, s\<lparr>ns_blobs := (ns_blobs s)\<lparr>bw_index := t\<rparr>\<rparr>))"

definition gc_files :: "(string \<Rightarrow> bool) \<Rightarrow> blob_record list \<Rightarrow> node_state \<Rightarrow> node_state" where
  "gc_files unlinks expired s =
     s\<lparr>ns_blobs := (ns_blobs s)\<lparr>bw_files :=
       fold (\<lambda>r f. if unlinks (storage_path r) then f(storage_path r := None) else f) expired
         (bw_files (ns_blobs s))\<rparr>\<rparr>"

definition gc_tick :: "(string \<Rightarrow> bool) \<Rightarrow> int \<Rightarrow> node_state \<Rightarrow> node_state" where
  "gc_tick unlinks now s = (let (expired, s1) = gc_rows now s in gc_files unlinks expired s1)"

section \<open>The local download ticket\<close>

definition forge_local_get_ticket ::
  "('x) wire_env_scheme \<Rightarrow> keypair \<Rightarrow> instance_id \<Rightarrow> string \<Rightarrow> time \<Rightarrow> string
     \<Rightarrow> (core_error, signed_message) result" where
  "forge_local_get_ticket w kp recipient h now uuid =
     sign_envelope w kp
       \<lparr>sender_id = keypair_id w kp, recipient_id = recipient, timestamp = now, nonce = uuid,
        verb = BlobTicket,
        payload = enc_ticket_payload
          \<lparr>operation = OpGet, tk_hash = Some h, tk_size = None, tk_mime = None,
           tk_capability = None, expires_at = unix_timestamp now + 300, purpose = PurposeOwned,
           requested_ttl_secs = None, recipients_whitelist = None\<rparr>,
        sender_endpoint = None\<rparr>"

section \<open>The endpoint among the node's other work\<close>

datatype blob_event =
    Put blob_request
  | Get blob_request
  | Head blob_request
  | Delete blob_request
  | Sweep "string \<Rightarrow> bool" int
  | Serve arrival

record 'b blob_setup =
  bu_blob :: blob_env
  bu_node :: "'b node_env"
  bu_host :: "'b blob_host"

fun blob_step :: "('b) blob_setup \<Rightarrow> blob_event \<Rightarrow> node_state \<Rightarrow> reply option \<times> node_state" where
  "blob_step u (Put rq) s = (let (r, s') = put_blob (bu_blob u) (bu_host u) rq s in (Some r, s'))"
| "blob_step u (Get rq) s = (let (r, s') = get_blob (bu_blob u) (bu_host u) rq s in (Some r, s'))"
| "blob_step u (Head rq) s = (Some (head_blob rq s), s)"
| "blob_step u (Delete rq) s = (let (r, s') = delete_blob (bu_blob u) (bu_host u) rq s in (Some r, s'))"
| "blob_step u (Sweep unlinks now) s = (None, gc_tick unlinks now s)"
| "blob_step u (Serve a) s = (None, snd (handle_request (bu_node u) (bh_node (bu_host u)) a s))"

fun blob_run :: "('b) blob_setup \<Rightarrow> blob_event list \<Rightarrow> node_state \<Rightarrow> (blob_event \<times> reply option) list \<times> node_state" where
  "blob_run u [] s = ([], s)"
| "blob_run u (e # es) s =
     (let (r, s1) = blob_step u e s; (rs, s2) = blob_run u es s1 in ((e, r) # rs, s2))"

section \<open>Lemmas\<close>

lemma blob_error_simps [simp]:
  "rp_status (blob_error c m) = c" "rp_body (blob_error c m) = JsonBody (json_obj [(''error'', JStr m)])"
  by (simp_all add: blob_error_def json_reply_def)

lemma stored_reply_simps [simp]:
  "rp_status (stored_reply be c h sz e) = c"
  "\<exists>j. rp_body (stored_reply be c h sz e) = JsonBody j"
  by (simp_all add: stored_reply_def json_reply_def)

lemma stored_reply_not_bytes [simp]: "rp_body (stored_reply be c h sz e) \<noteq> ByteBody b"
  by (simp add: stored_reply_def json_reply_def)

text \<open>What a handler that went past \<open>verify_ticket\<close> knows of the ticket.\<close>

definition ticket_key :: "signed_message \<Rightarrow> string \<times> string" where
  "ticket_key sg = (sender_id (sm_envelope sg), nonce (sm_envelope sg))"

definition burn :: "blob_request \<Rightarrow> signed_message \<Rightarrow> node_state \<Rightarrow> node_state" where
  "burn rq sg s = s\<lparr>ns_nonces := snd (insert_if_absent (fst (ticket_key sg)) (snd (ticket_key sg))
     (unix_timestamp (bq_now rq)) (ns_nonces s))\<rparr>"

lemma burn_frame [simp]:
  "ns_blobs (burn rq sg s) = ns_blobs s" "ns_audit (burn rq sg s) = ns_audit s"
  "ns_peers (burn rq sg s) = ns_peers s"
  by (simp_all add: burn_def)

lemma ticket_message_Inr:
  "ticket_message be nd rq = Inr sg \<longleftrightarrow>
     (\<exists>raw. bq_ticket rq = Some raw \<and> header_to_str raw = Some raw \<and> decode_ticket_wire be raw = Inr sg)
     \<and> verify_envelope be sg (keypair_id be (nd_keypair nd)) (bq_verify rq) (nd_verify nd) = Inr sg
     \<and> verb (sm_envelope sg) = BlobTicket"
  by (auto simp: ticket_message_def header_to_str_def bind_eq_Some_conv dest: verify_same
      split: option.splits sum.splits if_splits)

lemma ticket_payload_Inr:
  "ticket_payload be rq want pl = Inr tk \<longleftrightarrow>
     dec_ticket_payload pl = Some tk \<and> operation tk = want
     \<and> unix_timestamp (bq_now rq) \<le> expires_at tk \<and> tk_hash tk \<in> {None, Some (bq_hash rq)}"
  by (auto simp: ticket_payload_def split: option.splits)

lemma ticket_payload_Inl:
  "ticket_payload be rq want pl = Inl r \<Longrightarrow> \<exists>c m. r = blob_error c m \<and> 400 \<le> c"
  by (auto simp: ticket_payload_def split: option.splits if_splits)

lemma ticket_message_Inl:
  "ticket_message be nd rq = Inl r \<Longrightarrow> \<exists>c m. r = blob_error c m \<and> 400 \<le> c"
  by (auto simp: ticket_message_def split: option.splits sum.splits if_splits)

lemma verify_ticket_cases:
  obtains (refused) c m where "verify_ticket be nd rq want s = (Inl (blob_error c m), s)" "400 \<le> c"
      "\<forall>sg. ticket_message be nd rq = Inr sg \<longrightarrow> nonce_stamp (ticket_key sg) (ns_nonces s) \<noteq> None"
  | (burned) sg c m where "verify_ticket be nd rq want s = (Inl (blob_error c m), burn rq sg s)" "400 \<le> c"
      "ticket_message be nd rq = Inr sg" "nonce_stamp (ticket_key sg) (ns_nonces s) = None"
      "ticket_payload be rq want (payload (sm_envelope sg)) = Inl (blob_error c m)"
  | (passed) sg tk where "verify_ticket be nd rq want s = (Inr (sg, tk), burn rq sg s)"
      "ticket_message be nd rq = Inr sg" "nonce_stamp (ticket_key sg) (ns_nonces s) = None"
      "ticket_payload be rq want (payload (sm_envelope sg)) = Inr tk"
proof (cases "ticket_message be nd rq")
  case (Inl r)
  then show ?thesis
    using ticket_message_Inl [OF Inl] by (auto simp: verify_ticket_def intro: refused)
next
  case (Inr sg)
  show ?thesis
  proof (cases "nonce_stamp (ticket_key sg) (ns_nonces s) = None")
    case False
    then have "verify_ticket be nd rq want s = (Inl (blob_error 409 ''ticket replay''), s)"
      using insert_known [OF False] Inr by (simp add: verify_ticket_def ticket_key_def)
    then show ?thesis using False Inr by (intro refused [of 409]) auto
  next
    case True
    then obtain t where ins: "insert_if_absent (fst (ticket_key sg)) (snd (ticket_key sg))
        (unix_timestamp (bq_now rq)) (ns_nonces s) = (True, t)"
      using insert_new by blast
    show ?thesis
    proof (cases "ticket_payload be rq want (payload (sm_envelope sg))")
      case (Inl r)
      then obtain c m where "r = blob_error c m" "400 \<le> c" using ticket_payload_Inl by blast
      then show ?thesis
        using Inl True \<open>ticket_message be nd rq = Inr sg\<close> ins
        by (intro burned [of c m sg]) (auto simp: verify_ticket_def burn_def ticket_key_def)
    next
      case (Inr tk)
      then show ?thesis
        using True \<open>ticket_message be nd rq = Inr sg\<close> ins
        by (intro passed) (auto simp: verify_ticket_def burn_def ticket_key_def)
    qed
  qed
qed

definition valid_target :: "'b blob_host \<Rightarrow> blob_event \<Rightarrow> bool" where
  "valid_target bh e =
     (case e of
        Put rq \<Rightarrow> config_dir bh \<noteq> None \<and> validate_hash (bq_hash rq) = Inr ()
      | Get rq \<Rightarrow> validate_hash (bq_hash rq) = Inr ()
      | Delete rq \<Rightarrow> validate_hash (bq_hash rq) = Inr ()
      | _ \<Rightarrow> False)"

text \<open>What \<open>put_blob\<close> does after its ticket has passed.\<close>

definition put_admitted ::
  "('x) blob_env_scheme \<Rightarrow> 'b blob_host \<Rightarrow> string \<Rightarrow> blob_request \<Rightarrow> signed_message
     \<Rightarrow> blob_ticket_payload \<Rightarrow> node_state \<Rightarrow> reply \<times> node_state" where
  "put_admitted be bh dir rq sg tk s1 =
     (case tk_capability tk of
        None \<Rightarrow> (blob_error 400 ''ticket missing capability'', s1)
      | Some cap \<Rightarrow>
     (case tk_size tk of
        None \<Rightarrow> (blob_error 400 ''ticket missing size'', s1)
      | Some sz \<Rightarrow>
     (case tk_mime tk of
        None \<Rightarrow> (blob_error 400 ''ticket missing mime'', s1)
      | Some mi \<Rightarrow>
     (case cap_allows_upload (bh_node bh) cap of
        Inl r \<Rightarrow> (r, s1)
      | Inr _ \<Rightarrow>
     (case blob_get (bq_hash rq) (bw_index (ns_blobs s1)) of
        None \<Rightarrow> store_upload be dir rq sg tk sz mi s1
      | Some r \<Rightarrow>
          if b_expires_at r > unix_timestamp (bq_check rq)
          then (stored_reply be 200 (bq_hash rq) (JInt (b_size r)) (b_expires_at r), s1)
          else store_upload be dir rq sg tk sz mi s1)))))"

lemma put_blob_split:
  "put_blob be bh rq s =
     (case config_dir bh of
        None \<Rightarrow> (blob_error 503 ''blob storage not configured'', s)
      | Some dir \<Rightarrow>
     (case validate_hash (bq_hash rq) of
        Inl e \<Rightarrow> (blob_error 400 (core_error_text e), s)
      | Inr _ \<Rightarrow>
     (case verify_ticket be (bh_node bh) rq OpPut s of
        (Inl r, s1) \<Rightarrow> (r, s1)
      | (Inr (sg, tk), s1) \<Rightarrow> put_admitted be bh dir rq sg tk s1)))"
  by (simp add: put_blob_def put_admitted_def cong: option.case_cong sum.case_cong prod.case_cong)

lemma store_upload_frame [simp]:
  "ns_nonces (snd (store_upload be dir rq sg tk sz mi s)) = ns_nonces s"
  "ns_audit (snd (store_upload be dir rq sg tk sz mi s)) = ns_audit s"
  by (auto simp: store_upload_def Let_def split: sum.split option.split)

lemma put_admitted_frame [simp]:
  "ns_nonces (snd (put_admitted be bh dir rq sg tk s)) = ns_nonces s"
  "ns_audit (snd (put_admitted be bh dir rq sg tk s)) = ns_audit s"
  by (auto simp: put_admitted_def split: option.split sum.split)

lemma get_blob_frame [simp]:
  "ns_nonces (snd (get_blob be bh rq s)) =
     (if validate_hash (bq_hash rq) = Inr () then ns_nonces (snd (verify_ticket be (bh_node bh) rq OpGet s))
      else ns_nonces s)"
  by (auto simp: get_blob_def Let_def split: option.split sum.split prod.split)

lemma delete_blob_frame [simp]:
  "ns_nonces (snd (delete_blob be bh rq s)) =
     (if validate_hash (bq_hash rq) = Inr () then ns_nonces (snd (verify_ticket be (bh_node bh) rq OpDelete s))
      else ns_nonces s)"
  by (auto simp: delete_blob_def Let_def split: option.split sum.split prod.split)

lemma put_blob_frame [simp]:
  "ns_nonces (snd (put_blob be bh rq s)) =
     (if config_dir bh \<noteq> None \<and> validate_hash (bq_hash rq) = Inr ()
      then ns_nonces (snd (verify_ticket be (bh_node bh) rq OpPut s)) else ns_nonces s)"
  by (auto simp: put_blob_split split: option.split sum.split prod.split)

lemma gc_frame [simp]: "ns_nonces (gc_tick f now s) = ns_nonces s" "ns_audit (gc_tick f now s) = ns_audit s"
  by (simp_all add: gc_tick_def gc_rows_def gc_files_def split_beta Let_def)

lemma verify_ticket_nonces:
  "ns_nonces (snd (verify_ticket be nd rq want s)) =
     (case ticket_message be nd rq of
        Inl _ \<Rightarrow> ns_nonces s
      | Inr sg \<Rightarrow> snd (insert_if_absent (fst (ticket_key sg)) (snd (ticket_key sg))
                    (unix_timestamp (bq_now rq)) (ns_nonces s)))"
proof (cases rule: verify_ticket_cases [of be nd rq want s])
  case (refused c m)
  then show ?thesis using insert_known by (auto split: sum.split)
qed (auto simp: burn_def)

text \<open>The requests of a run that took a nonce, and the events of the replay guard they are.\<close>

definition ticket_event :: "('b) blob_setup \<Rightarrow> blob_request \<Rightarrow> (bool \<times> (string \<times> string) \<times> time \<times> time \<times> time) option" where
  "ticket_event u rq =
     (case ticket_message (bu_blob u) (bh_node (bu_host u)) rq of
        Inl _ \<Rightarrow> None
      | Inr sg \<Rightarrow> Some (False, ticket_key sg, timestamp (sm_envelope sg), bq_verify rq, bq_now rq))"

definition guard_event :: "('b) blob_setup \<Rightarrow> blob_event \<Rightarrow> (bool \<times> (string \<times> string) \<times> time \<times> time \<times> time) option" where
  "guard_event u e =
     (case e of
        Serve a \<Rightarrow> if accepted (bu_node u) (bh_node (bu_host u)) a then Some (event a) else None
      | Put rq \<Rightarrow> if valid_target (bu_host u) e then ticket_event u rq else None
      | Get rq \<Rightarrow> if valid_target (bu_host u) e then ticket_event u rq else None
      | Delete rq \<Rightarrow> if valid_target (bu_host u) e then ticket_event u rq else None
      | _ \<Rightarrow> None)"

definition admits :: "('b) blob_setup \<Rightarrow> blob_event \<Rightarrow> node_state \<Rightarrow> bool" where
  "admits u e s =
     (let s' = snd (blob_step u e s) in
      case e of Serve _ \<Rightarrow> ns_audit s' \<noteq> ns_audit s | _ \<Rightarrow> ns_nonces s' \<noteq> ns_nonces s)"

fun admitted_events :: "('b) blob_setup \<Rightarrow> blob_event list \<Rightarrow> node_state \<Rightarrow> blob_event list" where
  "admitted_events u [] s = []"
| "admitted_events u (e # es) s =
     (let rest = admitted_events u es (snd (blob_step u e s)) in if admits u e s then e # rest else rest)"

definition prompt_event :: "blob_event \<Rightarrow> bool" where
  "prompt_event e =
     (case e of
        Serve a \<Rightarrow> prompt (ar_verify a, ar_now a)
      | Put rq \<Rightarrow> prompt (bq_verify rq, bq_now rq)
      | Get rq \<Rightarrow> prompt (bq_verify rq, bq_now rq)
      | Delete rq \<Rightarrow> prompt (bq_verify rq, bq_now rq)
      | _ \<Rightarrow> True)"

lemma insert_changes: "snd (insert_if_absent (fst k) (snd k) n t) \<noteq> t \<longleftrightarrow> nonce_stamp k t = None"
  by (auto simp: insert_if_absent_def nonce_stamp_def)

definition guarded :: "('b) blob_setup \<Rightarrow> blob_event \<Rightarrow> node_state \<Rightarrow> bool" where
  "guarded u e s =
     (let t = ns_nonces s; t' = ns_nonces (snd (blob_step u e s)) in
      case guard_event u e of
        None \<Rightarrow> t' = t \<and> \<not> admits u e s
      | Some (p, k, c, i) \<Rightarrow>
          let (new, t1) = insert_if_absent (fst k) (snd k) (unix_timestamp (snd i)) t in
          fresh_at i c \<and> admits u e s = new
          \<and> t' = (if new \<and> p then snd (prune_older_than (unix_timestamp (snd i) - NONCE_TTL_SECONDS) t1) else t1))"

lemma ticket_guarded:
  assumes "guard_event u e = (if valid_target (bu_host u) e then ticket_event u rq else None)"
    and "ns_nonces (snd (blob_step u e s)) =
      (if valid_target (bu_host u) e
       then ns_nonces (snd (verify_ticket (bu_blob u) (bh_node (bu_host u)) rq want s)) else ns_nonces s)"
    and "admits u e s \<longleftrightarrow> ns_nonces (snd (blob_step u e s)) \<noteq> ns_nonces s"
    and "prompt (bq_verify rq, bq_now rq)" "nd_verify (bh_node (bu_host u)) = default_verify_config"
  shows "guarded u e s"
proof (cases "valid_target (bu_host u) e")
  case False
  then show ?thesis using assms by (simp add: guarded_def)
next
  case True
  show ?thesis
  proof (cases "ticket_message (bu_blob u) (bh_node (bu_host u)) rq")
    case (Inl r)
    then show ?thesis using assms True by (simp add: guarded_def verify_ticket_nonces ticket_event_def)
  next
    case (Inr sg)
    then have "verify_envelope (bu_blob u) sg (keypair_id (bu_blob u) (nd_keypair (bh_node (bu_host u))))
        (bq_verify rq) default_verify_config = Inr sg"
      using assms(5) by (simp add: ticket_message_Inr)
    then have fresh: "fresh_at (bq_verify rq, bq_now rq) (timestamp (sm_envelope sg))"
      using assms(4) by (simp add: fresh_at_def within_skew_def verify_envelope_Inr)
    let ?k = "ticket_key sg" and ?n = "unix_timestamp (bq_now rq)"
    show ?thesis
    proof (cases "nonce_stamp ?k (ns_nonces s) = None")
      case False
      show ?thesis
        using assms(1-3) True Inr fresh insert_known [OF False, of ?n]
        by (simp add: guarded_def verify_ticket_nonces ticket_event_def)
    next
      case new: True
      then obtain t where "insert_if_absent (fst ?k) (snd ?k) ?n (ns_nonces s) = (True, t)"
        using insert_new by blast
      then show ?thesis
        using assms(1-3) True Inr fresh insert_changes [of ?k ?n "ns_nonces s"] new
        by (simp add: guarded_def verify_ticket_nonces ticket_event_def)
    qed
  qed
qed

lemma serve_guarded:
  assumes "prompt (ar_verify a, ar_now a)" "nd_verify (bh_node (bu_host u)) = default_verify_config"
  shows "guarded u (Serve a) s"
proof -
  let ?nd = "bh_node (bu_host u)" and ?k = "msg_key a" and ?n = "unix_timestamp (ar_now a)"
  consider (rejected) "\<not> accepted (bu_node u) ?nd a"
    | (replayed) "accepted (bu_node u) ?nd a" "nonce_stamp ?k (ns_nonces s) \<noteq> None"
    | (fresh) "accepted (bu_node u) ?nd a" "nonce_stamp ?k (ns_nonces s) = None" by blast
  then show ?thesis
  proof cases
    case rejected
    then obtain e where "handle_request (bu_node u) ?nd a s = (Inl (Core e), s)"
      using handle_rejected by blast
    then show ?thesis using rejected by (simp add: guarded_def guard_event_def admits_def)
  next
    case replayed
    then show ?thesis
      using handle_replayed [OF replayed] accepted_fresh [OF replayed(1) assms(2,1)]
        insert_known [OF replayed(2), of ?n]
      by (simp add: guarded_def guard_event_def admits_def event_def)
  next
    case fresh
    obtain t' where ins: "insert_if_absent (fst ?k) (snd ?k) ?n (ns_nonces s) = (True, t')"
      using insert_new [OF fresh(2)] by blast
    moreover have "handle_request (bu_node u) ?nd a s = serve_request (bu_node u) ?nd a (sm_envelope (ar_message a))
        (s\<lparr>ns_nonces := snd (prune_older_than (?n - NONCE_TTL_SECONDS) t')\<rparr>)"
      by (simp add: handle_accepted [OF fresh(1)] ins)
    ultimately show ?thesis
      using fresh(1) accepted_fresh [OF fresh(1) assms(2,1)]
      by (simp add: guarded_def guard_event_def admits_def event_def record_audit_grows)
  qed
qed

lemma step_guarded:
  assumes "prompt_event e" "nd_verify (bh_node (bu_host u)) = default_verify_config"
  shows "guarded u e s"
proof (cases e)
  case (Put rq)
  then show ?thesis
    using assms
    by (intro ticket_guarded [of u e rq s OpPut])
      (auto simp: guard_event_def valid_target_def admits_def prompt_event_def split_beta)
next
  case (Get rq)
  then show ?thesis
    using assms
    by (intro ticket_guarded [of u e rq s OpGet])
      (auto simp: guard_event_def valid_target_def admits_def prompt_event_def split_beta)
next
  case (Delete rq)
  then show ?thesis
    using assms
    by (intro ticket_guarded [of u e rq s OpDelete])
      (auto simp: guard_event_def valid_target_def admits_def prompt_event_def split_beta)
next
  case (Serve a)
  then show ?thesis using assms by (simp add: serve_guarded prompt_event_def)
qed (simp_all add: guarded_def guard_event_def admits_def)

lemma admitted_events_guard:
  assumes "list_all prompt_event es" "nd_verify (bh_node (bu_host u)) = default_verify_config"
  shows "map (guard_event u) (admitted_events u es s)
    = map Some (handler.admitted (ns_nonces s) (List.map_filter (guard_event u) es))"
  using assms(1)
proof (induction es arbitrary: s)
  case (Cons e es)
  have g: "guarded u e s" using Cons.prems assms(2) by (simp add: step_guarded)
  note IH = Cons.IH [of "snd (blob_step u e s)"]
  show ?case
  proof (cases "guard_event u e")
    case None
    then show ?thesis using g IH Cons.prems by (simp add: guarded_def List.map_filter_simps)
  next
    case (Some ev)
    obtain p k c i where ev: "ev = (p, k, c, i)" by (cases ev)
    obtain new t1 where ins: "insert_if_absent (fst k) (snd k) (unix_timestamp (snd i)) (ns_nonces s) = (new, t1)"
      by fastforce
    show ?thesis
      using g IH Cons.prems Some ev ins
      by (cases new; cases p) (simp_all add: guarded_def List.map_filter_simps)
  qed
qed (simp add: List.map_filter_simps)

text \<open>The outcomes of an upload.\<close>

definition active :: "int \<Rightarrow> string \<Rightarrow> node_state \<Rightarrow> bool" where
  "active now h s \<longleftrightarrow> (\<exists>r. blob_get h (bw_index (ns_blobs s)) = Some r \<and> now < b_expires_at r)"

definition upload_path :: "string \<Rightarrow> blob_request \<Rightarrow> string" where
  "upload_path dir rq = storage_path_in (blobs_root dir) (bq_hash rq)"

definition stored_world ::
  "('x) blob_env_scheme \<Rightarrow> string \<Rightarrow> blob_request \<Rightarrow> signed_message \<Rightarrow> blob_ticket_payload
     \<Rightarrow> string \<Rightarrow> blob_world \<Rightarrow> blob_world" where
  "stored_world be dir rq sg tk mi w =
     \<lparr>bw_index = insert_blob_record be (bq_sql rq) (bq_hash rq) (sint (of_nat (length (bq_body rq)) :: u64)) mi
        (effective_expires tk (unix_timestamp (bq_store rq))) (upload_path dir rq) tk
        (sender_id (sm_envelope sg)) (nonce (sm_envelope sg)) (bw_index w),
      bw_files = (bw_files w)(upload_path dir rq \<mapsto> bq_body rq)\<rparr>"

lemma store_upload_cases:
  obtains (kept) c m where "store_upload be dir rq sg tk sz mi s = (blob_error c m, s)" "400 \<le> c"
  | (torn) e left where "store_upload be dir rq sg tk sz mi s = (blob_error 500 e,
        s\<lparr>ns_blobs := (ns_blobs s)\<lparr>bw_files := (bw_files (ns_blobs s))(upload_path dir rq := left)\<rparr>\<rparr>)"
  | (stored) "store_upload be dir rq sg tk sz mi s =
        (stored_reply be 201 (bq_hash rq) (enc_u64 sz) (effective_expires tk (unix_timestamp (bq_store rq))),
         s\<lparr>ns_blobs := stored_world be dir rq sg tk mi (ns_blobs s)\<rparr>)"
      "sz = of_nat (length (bq_body rq))" "hash_bytes be (bq_body rq) = bq_hash rq"
      "check_peer_quota (sender_id (sm_envelope sg)) (sint sz) (unix_timestamp (bq_quota rq))
         (bw_index (ns_blobs s)) = Inr ()"
proof -
  let ?q = "check_peer_quota (sender_id (sm_envelope sg)) (sint sz) (unix_timestamp (bq_quota rq))
    (bw_index (ns_blobs s))"
  have quota: "\<exists>m. r = blob_error 429 m" if "?q = Inl r" for r
    using that by (auto simp: check_peer_quota_def split: if_splits)
  show ?thesis
  proof (cases "of_nat (length (bq_body rq)) = sz \<and> hash_bytes be (bq_body rq) = bq_hash rq
      \<and> ?q = Inr () \<and> bq_mkdir rq = None")
    case False
    then have "\<exists>c m. store_upload be dir rq sg tk sz mi s = (blob_error c m, s) \<and> 400 \<le> c"
      using quota by (cases ?q; cases "bq_mkdir rq") (auto simp: store_upload_def Let_def)
    then show ?thesis using kept by blast
  next
    case True
    show ?thesis
    proof (cases "bq_write rq")
      case None
      then show ?thesis
        using True
        by (intro stored) (simp_all add: store_upload_def Let_def upload_path_def stored_world_def)
    next
      case (Some el)
      then show ?thesis
        using True
        by (intro torn [of "fst el" "snd el"])
          (simp add: store_upload_def Let_def upload_path_def split_beta)
    qed
  qed
qed

lemma put_blob_cases:
  obtains (quiet) "ns_blobs (snd (put_blob be bh rq s)) = ns_blobs s"
      "rp_status (fst (put_blob be bh rq s)) \<noteq> 201"
  | (torn) dir left where "config_dir bh = Some dir" "validate_hash (bq_hash rq) = Inr ()"
      "\<not> active (unix_timestamp (bq_check rq)) (bq_hash rq) s"
      "ns_blobs (snd (put_blob be bh rq s)) =
         (ns_blobs s)\<lparr>bw_files := (bw_files (ns_blobs s))(upload_path dir rq := left)\<rparr>"
      "rp_status (fst (put_blob be bh rq s)) = 500"
  | (stored) dir sg tk mi cap where "config_dir bh = Some dir" "validate_hash (bq_hash rq) = Inr ()"
      "\<not> active (unix_timestamp (bq_check rq)) (bq_hash rq) s"
      "ticket_message be (bh_node bh) rq = Inr sg"
      "ticket_payload be rq OpPut (payload (sm_envelope sg)) = Inr tk"
      "tk_size tk = Some (of_nat (length (bq_body rq)))" "tk_mime tk = Some mi"
      "tk_capability tk = Some cap" "cap_allows_upload (bh_node bh) cap = Inr ()"
      "hash_bytes be (bq_body rq) = bq_hash rq"
      "check_peer_quota (sender_id (sm_envelope sg)) (sint (of_nat (length (bq_body rq)) :: u64))
         (unix_timestamp (bq_quota rq)) (bw_index (ns_blobs s)) = Inr ()"
      "put_blob be bh rq s =
        (stored_reply be 201 (bq_hash rq) (enc_u64 (of_nat (length (bq_body rq))))
           (effective_expires tk (unix_timestamp (bq_store rq))),
         (burn rq sg s)\<lparr>ns_blobs := stored_world be dir rq sg tk mi (ns_blobs s)\<rparr>)"
proof (cases "config_dir bh")
  case None
  then show ?thesis by (intro quiet) (simp_all add: put_blob_split)
next
  case (Some dir)
  show ?thesis
  proof (cases "validate_hash (bq_hash rq)")
    case (Inl e)
    then show ?thesis using Some by (intro quiet) (simp_all add: put_blob_split)
  next
    case (Inr x)
    then have v: "validate_hash (bq_hash rq) = Inr ()" by simp
    show ?thesis
    proof (cases rule: verify_ticket_cases [of be "bh_node bh" rq OpPut s])
      case (refused c m)
      then show ?thesis using Some v by (intro quiet) (simp_all add: put_blob_split)
    next
      case (burned sg c m)
      then show ?thesis using Some v by (intro quiet) (simp_all add: put_blob_split)
    next
      case (passed sg tk)
      let ?s = "burn rq sg s"
      have run: "put_blob be bh rq s = put_admitted be bh dir rq sg tk ?s"
        using Some v passed(1) by (simp add: put_blob_split)
      show ?thesis
      proof (cases "(\<exists>cap sz mi. tk_capability tk = Some cap \<and> tk_size tk = Some sz \<and> tk_mime tk = Some mi
          \<and> cap_allows_upload (bh_node bh) cap = Inr ()) \<and> \<not> active (unix_timestamp (bq_check rq)) (bq_hash rq) s")
        case False
        have "\<exists>r. put_admitted be bh dir rq sg tk ?s = (r, ?s) \<and> rp_status r \<noteq> 201"
          using False
          by (auto simp: put_admitted_def active_def cap_allows_upload_def
              split: option.split sum.split access_mode.split)
        then show ?thesis using run by (intro quiet) auto
      next
        case True
        then obtain cap sz mi where tk: "tk_capability tk = Some cap" "tk_size tk = Some sz"
            "tk_mime tk = Some mi" "cap_allows_upload (bh_node bh) cap = Inr ()"
          and act: "\<not> active (unix_timestamp (bq_check rq)) (bq_hash rq) s" by blast
        have run': "put_blob be bh rq s = store_upload be dir rq sg tk sz mi ?s"
          using run tk act by (auto simp: put_admitted_def active_def split: option.split)
        show ?thesis
        proof (cases rule: store_upload_cases [of be dir rq sg tk sz mi ?s])
          case (kept c m)
          then show ?thesis using run' by (intro quiet) auto
        next
          case (torn e left)
          then show ?thesis using run' by (intro that(2) [OF Some v act, of left]) auto
        next
          case stored
          then show ?thesis
            using run' tk by (intro that(3) [OF Some v act passed(2,4), of mi cap]) auto
        qed
      qed
    qed
  qed
qed

definition whitelist_text :: "('x) blob_env_scheme \<Rightarrow> blob_ticket_payload \<Rightarrow> string option" where
  "whitelist_text be tk = map_option (\<lambda>ids. case json_write be (enc_list JStr ids) of
     None \<Rightarrow> [] | Some s \<Rightarrow> s) (recipients_whitelist tk)"

lemma stored_row:
  obtains row where "blob_get (bq_hash rq) (bw_index (stored_world be dir rq sg tk mi w)) = Some row"
    "hash row = bq_hash rq" "storage_path row = upload_path dir rq" "mime row = mi"
    "b_expires_at row = effective_expires tk (unix_timestamp (bq_store rq))"
    "b_size row = sint (of_nat (length (bq_body rq)) :: u64)"
    "uploader_id row = (case blob_get (bq_hash rq) (bw_index w) of
       None \<Rightarrow> Some (sender_id (sm_envelope sg)) | Some old \<Rightarrow> uploader_id old)"
    "b_recipients_whitelist row = (case blob_get (bq_hash rq) (bw_index w) of
       None \<Rightarrow> whitelist_text be tk | Some old \<Rightarrow> b_recipients_whitelist old)"
proof (cases "blob_get (bq_hash rq) (bw_index w)")
  case None
  then show ?thesis
    by (intro that, simp add: stored_world_def insert_blob_record_def Let_def blob_get_upsert)
      (simp_all add: new_blob_row_def blob_insert.defs whitelist_text_def)
next
  case (Some old)
  then have "hash old = bq_hash rq" using blob_get_hash by blast
  with Some show ?thesis
    by (intro that, simp add: stored_world_def insert_blob_record_def Let_def blob_get_upsert)
      (simp_all add: blob_merge_def new_blob_row_def blob_insert.defs)
qed

lemma stored_other:
  "k \<noteq> bq_hash rq \<Longrightarrow> blob_get k (bw_index (stored_world be dir rq sg tk mi w)) = blob_get k (bw_index w)"
  by (simp add: stored_world_def insert_blob_record_def Let_def blob_get_upsert)

lemma stored_files [simp]:
  "bw_files (stored_world be dir rq sg tk mi w) = (bw_files w)(upload_path dir rq \<mapsto> bq_body rq)"
  by (simp add: stored_world_def)

lemma stored_unique:
  "unique_key hash (bw_index w) \<Longrightarrow> unique_key hash (bw_index (stored_world be dir rq sg tk mi w))"
  by (simp add: stored_world_def insert_blob_record_def Let_def blob_unique)

text \<open>
  The index and the store of an endpoint at \<open>dir\<close>, from the instant \<open>now\<close> on: one row for a
  hash, at the path the hash names, and behind every row still active its content.
\<close>

definition backed :: "('x) crypto_scheme \<Rightarrow> string \<Rightarrow> int \<Rightarrow> (string \<rightharpoonup> string) \<Rightarrow> string \<Rightarrow> blob_record \<Rightarrow> bool" where
  "backed cr dir now files h r \<longleftrightarrow>
     validate_hash h = Inr () \<and> storage_path r = path_join (blobs_root dir) h
     \<and> (now < b_expires_at r \<longrightarrow> (\<exists>b. files (storage_path r) = Some b \<and> hash_bytes cr b = h))"

definition intact :: "('x) crypto_scheme \<Rightarrow> string \<Rightarrow> int \<Rightarrow> node_state \<Rightarrow> bool" where
  "intact cr dir now s \<longleftrightarrow>
     unique_key hash (bw_index (ns_blobs s))
     \<and> (\<forall>h r. blob_get h (bw_index (ns_blobs s)) = Some r \<longrightarrow> backed cr dir now (bw_files (ns_blobs s)) h r)"

lemma backed_later: "backed cr dir now files h r \<Longrightarrow> now \<le> now' \<Longrightarrow> backed cr dir now' files h r"
  by (auto simp: backed_def)

lemma backed_inactive: "backed cr dir now files h r \<Longrightarrow> b_expires_at r \<le> now \<Longrightarrow> backed cr dir now files' h r"
  by (auto simp: backed_def)

lemma backed_other:
  assumes "backed cr dir now files h r" "validate_hash k = Inr ()" "k \<noteq> h"
  shows "backed cr dir now (files(path_join (blobs_root dir) k := x)) h r"
  using assms path_join_inj [of k h "blobs_root dir"] by (auto simp: backed_def)

lemma backed_same:
  assumes "backed cr dir now files h r" "files' (storage_path r) = files (storage_path r)"
  shows "backed cr dir now files' h r"
  using assms(1) unfolding backed_def assms(2) .

lemma backed_touch [simp]: "backed cr dir now files h (r\<lparr>last_access_at := a\<rparr>) = backed cr dir now files h r"
  by (simp add: backed_def)

lemma intact_backed: "intact cr dir now s \<Longrightarrow> blob_get h (bw_index (ns_blobs s)) = Some r \<Longrightarrow>
    backed cr dir now (bw_files (ns_blobs s)) h r"
  by (simp add: intact_def)

lemma intact_later:
  assumes "intact cr dir now s" "now \<le> now'"
  shows "intact cr dir now' s"
  using assms(1) backed_later [OF _ assms(2)] unfolding intact_def by blast

lemma intact_cong: "ns_blobs s' = ns_blobs s \<Longrightarrow> intact cr dir now s' = intact cr dir now s"
  by (simp add: intact_def)

lemma upload_path_eq: "upload_path dir rq = path_join (blobs_root dir) (bq_hash rq)"
  by (simp add: upload_path_def storage_path_in_def)

lemma intact_put:
  assumes "intact be dir now s" "config_dir bh = Some dir" "now \<le> unix_timestamp (bq_check rq)"
  shows "intact be dir (unix_timestamp (bq_check rq)) (snd (put_blob be bh rq s))"
proof -
  let ?c = "unix_timestamp (bq_check rq)"
  have old: "intact be dir ?c s" by (rule intact_later [OF assms(1,3)])
  show ?thesis
  proof (cases rule: put_blob_cases [of be bh rq s])
    case quiet
    then show ?thesis using old intact_cong [OF quiet(1)] by blast
  next
    case (torn d left)
    have "backed be dir ?c ((bw_files (ns_blobs s))(upload_path d rq := left)) h r"
      if r: "blob_get h (bw_index (ns_blobs s)) = Some r" for h r
    proof (cases "h = bq_hash rq")
      case True
      then have "b_expires_at r \<le> ?c" using torn(3) r by (auto simp: active_def not_less)
      then show ?thesis using backed_inactive [OF intact_backed [OF old r]] by simp
    next
      case False
      then show ?thesis
        using backed_other [OF intact_backed [OF old r] torn(2)] torn(1) assms(2)
        by (simp add: upload_path_eq)
    qed
    then show ?thesis using old torn(4) by (simp add: intact_def)
  next
    case (stored d sg tk mi cap)
    let ?w = "stored_world be dir rq sg tk mi (ns_blobs s)"
    have w: "ns_blobs (snd (put_blob be bh rq s)) = ?w" using stored(1,12) assms(2) by simp
    obtain row where row: "blob_get (bq_hash rq) (bw_index ?w) = Some row" "storage_path row = upload_path dir rq"
      by (rule stored_row [of rq be dir sg tk mi "ns_blobs s"])
    have "backed be dir ?c (bw_files ?w) h r" if r: "blob_get h (bw_index ?w) = Some r" for h r
    proof (cases "h = bq_hash rq")
      case True
      then show ?thesis using r row stored(2,10) by (simp add: upload_path_eq backed_def)
    next
      case False
      then have "blob_get h (bw_index (ns_blobs s)) = Some r" using r by (simp add: stored_other)
      then show ?thesis
        using backed_other [OF intact_backed [OF old] stored(2)] False by (simp add: upload_path_eq)
    qed
    then show ?thesis
      using old w stored_unique [of "ns_blobs s" be dir rq sg tk mi] by (simp add: intact_def)
  qed
qed

text \<open>The outcomes of a download and of a deletion.\<close>

lemma get_blob_cases:
  obtains (refused) c m where "fst (get_blob be bh rq s) = blob_error c m" "400 \<le> c"
      "ns_blobs (snd (get_blob be bh rq s)) = ns_blobs s"
  | (answered) sg tk r b where "validate_hash (bq_hash rq) = Inr ()"
      "ticket_message be (bh_node bh) rq = Inr sg" "nonce_stamp (ticket_key sg) (ns_nonces s) = None"
      "ticket_payload be rq OpGet (payload (sm_envelope sg)) = Inr tk"
      "blob_get (bq_hash rq) (bw_index (ns_blobs s)) = Some r"
      "unix_timestamp (bq_check rq) < b_expires_at r"
      "get_authorization be r (sender_id (sm_envelope sg)) = Inr ()"
      "bw_files (ns_blobs s) (storage_path r) = Some b"
      "get_blob be bh rq s = (build_response
         [(''content-type'', mime r), (''content-length'', dec_int (b_size r)),
          (''etag'', CHR 0x22 # hash r @ [CHR 0x22])] (ByteBody b),
         (burn rq sg s)\<lparr>ns_blobs := (ns_blobs s)\<lparr>bw_index :=
            touch (bq_hash rq) (unix_timestamp (bq_check rq)) (bw_index (ns_blobs s))\<rparr>\<rparr>)"
proof (cases "validate_hash (bq_hash rq)")
  case (Inl e)
  then show ?thesis by (intro refused [of 400 "core_error_text e"]) (simp_all add: get_blob_def)
next
  case (Inr x)
  then have v: "validate_hash (bq_hash rq) = Inr ()" by simp
  show ?thesis
  proof (cases rule: verify_ticket_cases [of be "bh_node bh" rq OpGet s])
    case (refused c m)
    then show ?thesis using v by (intro that(1) [of c m]) (simp_all add: get_blob_def)
  next
    case (burned sg c m)
    then show ?thesis using v by (intro that(1) [of c m]) (simp_all add: get_blob_def)
  next
    case (passed sg tk)
    show ?thesis
    proof (cases "blob_get (bq_hash rq) (bw_index (ns_blobs s))")
      case None
      then show ?thesis
        using v passed by (intro refused [of 404 "''blob not found''"]) (simp_all add: get_blob_def)
    next
      case (Some r)
      have auth: "\<exists>m. e = blob_error 403 m" if "get_authorization be r (sender_id (sm_envelope sg)) = Inl e" for e
        using that by (auto simp: get_authorization_def split: if_splits option.splits)
      show ?thesis
      proof (cases "unix_timestamp (bq_check rq) < b_expires_at r
          \<and> get_authorization be r (sender_id (sm_envelope sg)) = Inr ()
          \<and> (\<exists>b. bw_files (ns_blobs s) (storage_path r) = Some b)")
        case True
        then obtain b where "bw_files (ns_blobs s) (storage_path r) = Some b" by blast
        then show ?thesis
          using v passed Some True by (intro answered [of sg tk r b]) (simp_all add: get_blob_def Let_def)
      next
        case False
        then have "\<exists>c m. fst (get_blob be bh rq s) = blob_error c m \<and> 400 \<le> c
            \<and> ns_blobs (snd (get_blob be bh rq s)) = ns_blobs s"
          using v passed Some auth
          by (cases "get_authorization be r (sender_id (sm_envelope sg))")
            (auto simp: get_blob_def Let_def split: option.split)
        then show ?thesis using refused by blast
      qed
    qed
  qed
qed

lemma delete_blob_cases:
  obtains (refused) c m where "fst (delete_blob be bh rq s) = blob_error c m" "400 \<le> c"
      "ns_blobs (snd (delete_blob be bh rq s)) = ns_blobs s"
  | (removed) sg tk r where "validate_hash (bq_hash rq) = Inr ()"
      "ticket_message be (bh_node bh) rq = Inr sg" "nonce_stamp (ticket_key sg) (ns_nonces s) = None"
      "ticket_payload be rq OpDelete (payload (sm_envelope sg)) = Inr tk"
      "blob_get (bq_hash rq) (bw_index (ns_blobs s)) = Some r"
      "uploader_id r = Some (sender_id (sm_envelope sg))"
      "rp_status (fst (delete_blob be bh rq s)) = 204"
      "ns_blobs (snd (delete_blob be bh rq s)) =
         \<lparr>bw_index = snd (blob_delete (bq_hash rq) (bw_index (ns_blobs s))),
          bw_files = (if bq_unlink rq then (bw_files (ns_blobs s))(storage_path r := None)
                      else bw_files (ns_blobs s))\<rparr>"
proof (cases "validate_hash (bq_hash rq)")
  case (Inl e)
  then show ?thesis by (intro refused [of 400 "core_error_text e"]) (simp_all add: delete_blob_def)
next
  case (Inr x)
  then have v: "validate_hash (bq_hash rq) = Inr ()" by simp
  show ?thesis
  proof (cases rule: verify_ticket_cases [of be "bh_node bh" rq OpDelete s])
    case (refused c m)
    then show ?thesis using v by (intro that(1) [of c m]) (simp_all add: delete_blob_def)
  next
    case (burned sg c m)
    then show ?thesis using v by (intro that(1) [of c m]) (simp_all add: delete_blob_def)
  next
    case (passed sg tk)
    show ?thesis
    proof (cases "blob_get (bq_hash rq) (bw_index (ns_blobs s))")
      case None
      then show ?thesis
        using v passed by (intro refused [of 404 "''blob not found''"]) (simp_all add: delete_blob_def)
    next
      case (Some r)
      show ?thesis
      proof (cases "uploader_id r = Some (sender_id (sm_envelope sg))")
        case True
        then show ?thesis
          using v passed Some by (intro removed [of sg tk r]) (simp_all add: delete_blob_def Let_def)
      next
        case False
        then show ?thesis
          using v passed Some
          by (intro refused [of 403 "''only uploader may delete''"]) (simp_all add: delete_blob_def)
      qed
    qed
  qed
qed

end
