(* ===== verification/Blob_Endpoint.thy ===== *)
theory Blob_Endpoint
  imports Server_Blobs
begin

text \<open>
  The blob endpoint over time: runs of uploads, downloads, deletions, sweeps and requests on one
  node, what they keep of the index and the store, a concrete endpoint, and the properties of the
  endpoint.
\<close>

section \<open>Runs\<close>

definition event_second :: "blob_event \<Rightarrow> int" where
  "event_second e =
     (case e of
        Put rq \<Rightarrow> unix_timestamp (bq_check rq)
      | Get rq \<Rightarrow> unix_timestamp (bq_check rq)
      | Head rq \<Rightarrow> unix_timestamp (bq_check rq)
      | Delete rq \<Rightarrow> unix_timestamp (bq_check rq)
      | Sweep _ now \<Rightarrow> now
      | Serve a \<Rightarrow> unix_timestamp (ar_now a))"

lemma files_after_gc:
  "p \<notin> storage_path ` set expired \<Longrightarrow>
     fold (\<lambda>r f. if unlinks (storage_path r) then f(storage_path r := None) else f) expired files p = files p"
  by (induction expired arbitrary: files) auto

lemma files_removed:
  assumes "p \<in> storage_path ` set expired" "unlinks p"
  shows "fold (\<lambda>r f. if unlinks (storage_path r) then f(storage_path r := None) else f) expired files p = None"
  using assms(1)
proof (induction expired arbitrary: files)
  case (Cons a es)
  show ?case
  proof (cases "p \<in> storage_path ` set es")
    case True
    then show ?thesis using Cons.IH by simp
  next
    case False
    then show ?thesis using Cons.prems assms(2) False by (auto simp: files_after_gc)
  qed
qed simp

lemma gc_rows_get:
  assumes "unique_key hash (bw_index (ns_blobs s))"
  shows "blob_get h (bw_index (ns_blobs (gc_tick unlinks now s))) =
    (case blob_get h (bw_index (ns_blobs s)) of
       None \<Rightarrow> None | Some r \<Rightarrow> if b_expires_at r \<le> now then None else Some r)"
  using assms
  by (simp add: gc_tick_def gc_rows_def gc_files_def delete_expired_def blob_get_def select_by_delete_unique Let_def)

lemma gc_tick_files:
  "bw_files (ns_blobs (gc_tick unlinks now s)) =
     fold (\<lambda>r f. if unlinks (storage_path r) then f(storage_path r := None) else f)
       (filter (\<lambda>r. b_expires_at r \<le> now) (bw_index (ns_blobs s))) (bw_files (ns_blobs s))"
  by (simp add: gc_tick_def gc_rows_def gc_files_def delete_expired_def Let_def)

lemma indexed_row:
  assumes "unique_key hash t" "r \<in> set t"
  shows "blob_get (hash r) t = Some r"
  using assms by (simp add: blob_get_def select_by_unique)

lemma gc_keeps_file:
  assumes "intact cr dir now s" "blob_get h (bw_index (ns_blobs s)) = Some r" "now' < b_expires_at r"
  shows "bw_files (ns_blobs (gc_tick unlinks now' s)) (storage_path r) = bw_files (ns_blobs s) (storage_path r)"
proof -
  have "storage_path r \<noteq> storage_path x" if "x \<in> set (bw_index (ns_blobs s))" "b_expires_at x \<le> now'" for x
  proof -
    have x: "blob_get (hash x) (bw_index (ns_blobs s)) = Some x"
      using assms(1) that(1) by (simp add: intact_def indexed_row)
    have "hash x \<noteq> h" using x assms(2,3) that(2) by auto
    then show ?thesis
      using intact_backed [OF assms(1) x] intact_backed [OF assms(1,2)] path_join_inj [of h "hash x"]
      by (auto simp: backed_def)
  qed
  then show ?thesis unfolding gc_tick_files by (intro files_after_gc) auto
qed

lemma intact_gc:
  assumes "intact cr dir now s"
  shows "intact cr dir now (gc_tick unlinks now' s)"
proof -
  have u: "unique_key hash (bw_index (ns_blobs s))" using assms by (simp add: intact_def)
  then have "unique_key hash (bw_index (ns_blobs (gc_tick unlinks now' s)))"
    by (simp add: gc_tick_def gc_rows_def gc_files_def blob_unique Let_def split_beta)
  moreover have "backed cr dir now (bw_files (ns_blobs (gc_tick unlinks now' s))) h r"
    if r: "blob_get h (bw_index (ns_blobs (gc_tick unlinks now' s))) = Some r" for h r
  proof -
    have old: "blob_get h (bw_index (ns_blobs s)) = Some r" "now' < b_expires_at r"
      using r by (auto simp: gc_rows_get [OF u] split: option.splits if_splits)
    show ?thesis
      using backed_same [OF intact_backed [OF assms old(1)]] gc_keeps_file [OF assms old] by blast
  qed
  ultimately show ?thesis by (simp add: intact_def)
qed

lemma intact_get:
  assumes "intact cr dir now s"
  shows "intact cr dir now (snd (get_blob be bh rq s))"
proof (cases rule: get_blob_cases [of be bh rq s])
  case (refused c m)
  then show ?thesis using assms intact_cong [OF refused(3)] by blast
next
  case (answered sg tk r b)
  let ?s = "snd (get_blob be bh rq s)"
  have ns: "ns_blobs ?s = (ns_blobs s)\<lparr>bw_index :=
      touch (bq_hash rq) (unix_timestamp (bq_check rq)) (bw_index (ns_blobs s))\<rparr>"
    using answered by simp
  have "backed cr dir now (bw_files (ns_blobs s)) h x"
    if "blob_get h (touch (bq_hash rq) (unix_timestamp (bq_check rq)) (bw_index (ns_blobs s))) = Some x" for h x
    using that intact_backed [OF assms] by (auto simp: blob_get_touch)
  then show ?thesis using assms by (simp add: intact_def ns blob_unique)
qed

lemma blob_get_delete: "blob_get k (snd (blob_delete h t)) = (if k = h then None else blob_get k t)"
  by (simp add: blob_get_def blob_delete_def select_by_delete_key)

lemma intact_delete:
  assumes "intact cr dir now s"
  shows "intact cr dir now (snd (delete_blob be bh rq s))"
proof (cases rule: delete_blob_cases [of be bh rq s])
  case (refused c m)
  then show ?thesis using assms intact_cong [OF refused(3)] by blast
next
  case (removed sg tk r)
  have p: "storage_path r = path_join (blobs_root dir) (bq_hash rq)"
    using intact_backed [OF assms removed(5)] by (simp add: backed_def)
  have "backed cr dir now (bw_files (ns_blobs (snd (delete_blob be bh rq s)))) h x"
    if "blob_get h (snd (blob_delete (bq_hash rq) (bw_index (ns_blobs s)))) = Some x" for h x
  proof -
    have "h \<noteq> bq_hash rq" "blob_get h (bw_index (ns_blobs s)) = Some x"
      using that by (auto simp: blob_get_delete split: if_splits)
    then show ?thesis
      using backed_other [OF intact_backed [OF assms] removed(1)] intact_backed [OF assms] removed(8) p
      by (auto split: if_splits)
  qed
  then show ?thesis using assms removed(8) by (simp add: intact_def blob_unique)
qed

lemma handle_request_blobs [simp]: "ns_blobs (snd (handle_request ne nd a s)) = ns_blobs s"
  by (auto simp: handle_request_def Let_def split: sum.split prod.split)

lemma intact_step:
  assumes "intact (bu_blob u) dir now s" "config_dir (bu_host u) = Some dir" "now \<le> event_second e"
  shows "intact (bu_blob u) dir (event_second e) (snd (blob_step u e s))"
proof (cases e)
  case (Put rq)
  then show ?thesis using intact_put [OF assms(1,2)] assms(3) by (simp add: event_second_def split_beta)
next
  case (Get rq)
  then show ?thesis
    using intact_get [OF intact_later [OF assms(1,3)]] by (simp add: event_second_def split_beta)
next
  case (Delete rq)
  then show ?thesis
    using intact_delete [OF intact_later [OF assms(1,3)]] by (simp add: event_second_def split_beta)
next
  case (Sweep f n)
  then show ?thesis using intact_gc [OF intact_later [OF assms(1,3)]] by (simp add: event_second_def)
next
  case (Serve a)
  then show ?thesis
    using intact_later [OF assms(1,3)]
    by (simp add: event_second_def) (rule intact_cong [OF handle_request_blobs, THEN iffD2])
next
  case (Head rq)
  then show ?thesis using intact_later [OF assms(1,3)] by (simp add: event_second_def)
qed

lemma intact_run:
  assumes "intact (bu_blob u) dir now s" "config_dir (bu_host u) = Some dir"
    and "sorted (map event_second es)" "\<forall>e\<in>set es. now \<le> event_second e"
  shows "\<exists>now'. (now' = now \<or> now' \<in> event_second ` set es) \<and> intact (bu_blob u) dir now' (snd (blob_run u es s))"
  using assms
proof (induction es arbitrary: now s)
  case (Cons e es)
  have "intact (bu_blob u) dir (event_second e) (snd (blob_step u e s))"
    using intact_step [OF Cons.prems(1,2)] Cons.prems(4) by simp
  from Cons.IH [OF this Cons.prems(2)] Cons.prems(3) show ?case
    by (auto simp: split_beta)
qed auto

definition event_stamp :: "blob_event \<Rightarrow> int" where
  "event_stamp e =
     (case e of
        Put rq \<Rightarrow> unix_timestamp (bq_now rq)
      | Get rq \<Rightarrow> unix_timestamp (bq_now rq)
      | Head rq \<Rightarrow> unix_timestamp (bq_now rq)
      | Delete rq \<Rightarrow> unix_timestamp (bq_now rq)
      | Sweep _ now \<Rightarrow> now
      | Serve a \<Rightarrow> unix_timestamp (ar_now a))"

lemma guard_event_stamp:
  "guard_event u e = Some (p, k, c, i) \<Longrightarrow> unix_timestamp (snd i) = event_stamp e"
  by (auto simp: guard_event_def ticket_event_def event_stamp_def event_def split: blob_event.splits if_splits sum.splits)

lemma guard_events_sorted:
  assumes "sorted (map event_stamp es)"
  shows "sorted (map (\<lambda>(p, k, c, i). unix_timestamp (snd i)) (List.map_filter (guard_event u) es))"
  using assms
proof (induction es)
  case (Cons e es)
  have "event_stamp e \<le> unix_timestamp (snd i)"
    if "(p, k, c, i) \<in> set (List.map_filter (guard_event u) es)" for p k c i
    using that Cons.prems guard_event_stamp [of u] by (fastforce simp: List.map_filter_def)
  then show ?case
    using Cons guard_event_stamp [of u e]
    by (fastforce simp: List.map_filter_simps split: option.split)
qed (simp add: List.map_filter_simps)

text \<open>An upload that is still retained, as its uploader can see it.\<close>

definition upload_row :: "string \<Rightarrow> string \<Rightarrow> string \<Rightarrow> string \<Rightarrow> string \<Rightarrow> int \<Rightarrow> blob_record \<Rightarrow> bool" where
  "upload_row dir h owner mi body expires r \<longleftrightarrow>
     uploader_id r = Some owner \<and> mime r = mi \<and> b_expires_at r = expires
     \<and> storage_path r = path_join (blobs_root dir) h \<and> b_size r = sint (of_nat (length body) :: u64)"

definition retained :: "string \<Rightarrow> string \<Rightarrow> string \<Rightarrow> string \<Rightarrow> string \<Rightarrow> int \<Rightarrow> node_state \<Rightarrow> bool" where
  "retained dir h owner mi body expires s \<longleftrightarrow>
     (\<exists>r. blob_get h (bw_index (ns_blobs s)) = Some r \<and> upload_row dir h owner mi body expires r)
     \<and> bw_files (ns_blobs s) (path_join (blobs_root dir) h) = Some body"

lemma upload_row_touch [simp]:
  "upload_row dir h owner mi body expires (r\<lparr>last_access_at := a\<rparr>) = upload_row dir h owner mi body expires r"
  by (simp add: upload_row_def)

definition deletes :: "('b) blob_setup \<Rightarrow> string \<Rightarrow> string \<Rightarrow> blob_event \<Rightarrow> bool" where
  "deletes u owner h e =
     (case e of
        Delete rq \<Rightarrow> bq_hash rq = h
          \<and> (case ticket_message (bu_blob u) (bh_node (bu_host u)) rq of
               Inl _ \<Rightarrow> False | Inr sg \<Rightarrow> sender_id (sm_envelope sg) = owner)
      | _ \<Rightarrow> False)"

lemma retained_cong: "ns_blobs s' = ns_blobs s \<Longrightarrow> retained dir h owner mi body expires s \<Longrightarrow> retained dir h owner mi body expires s'"
  by (simp add: retained_def)

lemma retained_put:
  assumes "retained dir h owner mi body expires s" "validate_hash h = Inr ()"
    and "config_dir bh = Some dir" "unix_timestamp (bq_check rq) < expires"
  shows "retained dir h owner mi body expires (snd (put_blob be bh rq s))"
proof -
  have act: "bq_hash rq = h \<Longrightarrow> active (unix_timestamp (bq_check rq)) (bq_hash rq) s"
    using assms(1,4) by (auto simp: retained_def upload_row_def active_def)
  have frame: "bq_hash rq \<noteq> h \<Longrightarrow> validate_hash (bq_hash rq) = Inr () \<Longrightarrow>
      path_join (blobs_root dir) h \<noteq> upload_path dir rq"
    using path_join_inj [OF assms(2), of "bq_hash rq"] by (auto simp: upload_path_eq)
  show ?thesis
  proof (cases rule: put_blob_cases [of be bh rq s])
    case quiet
    then show ?thesis using retained_cong assms(1) by blast
  next
    case (torn d left)
    then show ?thesis using act frame assms(1,3) by (auto simp: retained_def)
  next
    case (stored d sg tk m cap)
    then have "bq_hash rq \<noteq> h" using act by blast
    then show ?thesis
      using stored(1,2,12) frame assms(1,3) stored_other [of h rq be dir sg tk m "ns_blobs s"]
      by (auto simp: retained_def)
  qed
qed

lemma retained_step:
  assumes "retained dir h owner mi body expires s" "intact (bu_blob u) dir now s"
    and "config_dir (bu_host u) = Some dir" "event_second e < expires" "\<not> deletes u owner h e"
  shows "retained dir h owner mi body expires (snd (blob_step u e s))"
proof -
  obtain r where r: "blob_get h (bw_index (ns_blobs s)) = Some r" "uploader_id r = Some owner"
      "b_expires_at r = expires" "storage_path r = path_join (blobs_root dir) h"
      and row: "upload_row dir h owner mi body expires r"
      and bytes: "bw_files (ns_blobs s) (path_join (blobs_root dir) h) = Some body"
    using assms(1) by (auto simp: retained_def upload_row_def)
  have v: "validate_hash h = Inr ()" using intact_backed [OF assms(2) r(1)] by (simp add: backed_def)
  show ?thesis
  proof (cases e)
    case (Put rq)
    then show ?thesis
      using retained_put [OF assms(1) v assms(3)] assms(4) by (simp add: event_second_def split_beta)
  next
    case (Get rq)
    then show ?thesis
    proof (cases rule: get_blob_cases [of "bu_blob u" "bu_host u" rq s])
      case (refused c m)
      then show ?thesis using Get retained_cong assms(1) by (simp add: split_beta)
    next
      case (answered sg tk x b)
      then show ?thesis using Get row bytes by (simp add: retained_def blob_get_touch r(1))
    qed
  next
    case (Delete rq)
    then show ?thesis
    proof (cases rule: delete_blob_cases [of "bu_blob u" "bu_host u" rq s])
      case (refused c m)
      then show ?thesis using Delete retained_cong assms(1) by (simp add: split_beta)
    next
      case (removed sg tk x)
      have ne: "bq_hash rq \<noteq> h"
        using assms(5) Delete removed r(1,2) by (auto simp: deletes_def)
      then have "storage_path x \<noteq> path_join (blobs_root dir) h"
        using intact_backed [OF assms(2) removed(5)] path_join_inj [OF v removed(1), of "blobs_root dir"]
        by (auto simp: backed_def)
      then show ?thesis
        using Delete assms(1) removed(8) ne by (auto simp: retained_def blob_get_delete split_beta)
    qed
  next
    case (Sweep f n)
    have "unique_key hash (bw_index (ns_blobs s))" using assms(2) by (simp add: intact_def)
    then show ?thesis
      using Sweep assms(1,4) r gc_keeps_file [OF assms(2) r(1), of n f]
      by (auto simp: retained_def event_second_def gc_rows_get)
  next
    case (Serve a)
    then show ?thesis using retained_cong [OF handle_request_blobs] assms(1) by simp
  qed (use assms(1) in simp)
qed

lemma retained_run:
  assumes "retained dir h owner mi body expires s" "intact (bu_blob u) dir now s"
    and "config_dir (bu_host u) = Some dir" "sorted (map event_second es)"
    and "\<forall>e\<in>set es. now \<le> event_second e \<and> event_second e < expires \<and> \<not> deletes u owner h e"
  shows "retained dir h owner mi body expires (snd (blob_run u es s))"
  using assms
proof (induction es arbitrary: now s)
  case (Cons e es)
  have "intact (bu_blob u) dir (event_second e) (snd (blob_step u e s))"
    using intact_step [OF Cons.prems(2,3)] Cons.prems(5) by simp
  moreover have "retained dir h owner mi body expires (snd (blob_step u e s))"
    using retained_step [OF Cons.prems(1-3)] Cons.prems(5) by simp
  ultimately show ?case
    using Cons.IH [of "snd (blob_step u e s)" "event_second e"] Cons.prems(3-5)
    by (simp add: split_beta)
qed simp

lemma put_created:
  assumes "rp_status (fst (put_blob be bh rq s)) = 201"
  obtains dir sg tk mi where "config_dir bh = Some dir" "validate_hash (bq_hash rq) = Inr ()"
    "\<not> active (unix_timestamp (bq_check rq)) (bq_hash rq) s"
    "ticket_message be (bh_node bh) rq = Inr sg"
    "ticket_payload be rq OpPut (payload (sm_envelope sg)) = Inr tk" "tk_mime tk = Some mi"
    "hash_bytes be (bq_body rq) = bq_hash rq"
    "check_peer_quota (sender_id (sm_envelope sg)) (sint (of_nat (length (bq_body rq)) :: u64))
       (unix_timestamp (bq_quota rq)) (bw_index (ns_blobs s)) = Inr ()"
    "ns_blobs (snd (put_blob be bh rq s)) = stored_world be dir rq sg tk mi (ns_blobs s)"
proof (cases rule: put_blob_cases [of be bh rq s])
  case quiet
  then show ?thesis using assms by simp
next
  case torn
  then show ?thesis using assms by simp
next
  case (stored dir sg tk mi cap)
  then show ?thesis using that [of dir sg tk mi] by simp
qed

lemma created_retained:
  assumes "rp_status (fst (put_blob be bh rq s)) = 201" "config_dir bh = Some dir"
    and "ticket_message be (bh_node bh) rq = Inr sg" "ticket_payload be rq OpPut (payload (sm_envelope sg)) = Inr tk"
    and "tk_mime tk = Some mi" "blob_get (bq_hash rq) (bw_index (ns_blobs s)) = None"
  shows "retained dir (bq_hash rq) (sender_id (sm_envelope sg)) mi (bq_body rq)
    (effective_expires tk (unix_timestamp (bq_store rq))) (snd (put_blob be bh rq s))"
proof (rule put_created [OF assms(1)])
  fix d sg' tk' mi'
  assume w: "ns_blobs (snd (put_blob be bh rq s)) = stored_world be d rq sg' tk' mi' (ns_blobs s)"
    and same: "config_dir bh = Some d" "ticket_message be (bh_node bh) rq = Inr sg'"
      "ticket_payload be rq OpPut (payload (sm_envelope sg')) = Inr tk'" "tk_mime tk' = Some mi'"
  have eq: "d = dir" "sg' = sg" "tk' = tk" "mi' = mi" using assms(2-5) same by auto
  show ?thesis
    by (rule stored_row [of rq be dir sg tk mi "ns_blobs s"])
      (use w assms(6) in \<open>simp add: eq retained_def upload_row_def upload_path_eq\<close>)
qed

lemma header_digits: "header_value_ok (dec_int n)"
proof -
  have "list_all (\<lambda>c. byte c = 9 \<or> (32 \<le> byte c \<and> byte c \<noteq> 127)) (dec k)" for k
    using dec_digits [of k] by (auto simp: list_all_iff is_ascii_digit_def)
  then show ?thesis by (simp add: dec_int_def header_value_ok_def)
qed

lemma header_hash: "validate_hash h = Inr () \<Longrightarrow> header_value_ok (CHR 0x22 # h @ [CHR 0x22])"
  by (fastforce simp: validate_hash_ok header_value_ok_def BLOB_HASH_PREFIX_def list_all_iff is_hex_lower_def
      is_ascii_digit_def)

lemma retained_download:
  assumes "retained dir h owner mi body expires s" "validate_hash h = Inr ()" "bq_hash rq = h"
    and "unix_timestamp (bq_check rq) < expires"
    and "ticket_message be (bh_node bh) rq = Inr sg" "sender_id (sm_envelope sg) = owner"
    and "nonce_stamp (ticket_key sg) (ns_nonces s) = None"
    and "ticket_payload be rq OpGet (payload (sm_envelope sg)) = Inr tk"
  shows "if header_value_ok mi
    then rp_status (fst (get_blob be bh rq s)) = 200 \<and> rp_body (fst (get_blob be bh rq s)) = ByteBody body
    else fst (get_blob be bh rq s) = blob_error 500 ''response build failed''"
proof -
  obtain r where r: "blob_get h (bw_index (ns_blobs s)) = Some r" "upload_row dir h owner mi body expires r"
    using assms(1) by (auto simp: retained_def)
  have "verify_ticket be (bh_node bh) rq OpGet s = (Inr (sg, tk), burn rq sg s)"
    using assms(5,7,8) by (cases rule: verify_ticket_cases [of be "bh_node bh" rq OpGet s]) auto
  moreover have "get_authorization be r owner = Inr ()" using r(2) by (simp add: get_authorization_def upload_row_def)
  moreover have "hash r = h" using blob_get_hash [OF r(1)] by simp
  moreover have "bw_files (ns_blobs s) (path_join (blobs_root dir) h) = Some body"
    using assms(1) by (simp add: retained_def)
  ultimately show ?thesis
    using assms(2-4,6) r header_hash [OF assms(2)] header_digits
    by (simp add: get_blob_def Let_def upload_row_def build_response_def)
qed

lemma sum_filter_update:
  fixes f :: "'r \<Rightarrow> int"
  assumes "unique_key key t" "r \<in> set t" "\<not> P r" "\<And>x. key (g x) = key x"
  shows "sum_list (map f (filter P (sql_update (\<lambda>x. key x = key r) g t)))
      = sum_list (map f (filter P t)) + (if P (g r) then f (g r) else 0)"
    and "length (filter P (sql_update (\<lambda>x. key x = key r) g t))
      = length (filter P t) + (if P (g r) then 1 else 0)"
proof -
  obtain a b where t: "t = a @ r # b" using split_list [OF assms(2)] by blast
  then have ne: "key x \<noteq> key r" if "x \<in> set a \<union> set b" for x
    using assms(1) that by (auto simp: unique_key_def) (metis imageI)+
  have "sql_update (\<lambda>x. key x = key r) g t = a @ g r # b"
    using ne by (auto simp: t sql_update_def intro: map_idI)
  then show "sum_list (map f (filter P (sql_update (\<lambda>x. key x = key r) g t)))
      = sum_list (map f (filter P t)) + (if P (g r) then f (g r) else 0)"
    and "length (filter P (sql_update (\<lambda>x. key x = key r) g t))
      = length (filter P t) + (if P (g r) then 1 else 0)"
    using assms(3) by (simp_all add: t)
qed

text \<open>Whom an upload is charged to: the uploader the row had, when there was one.\<close>

definition charged :: "string \<Rightarrow> string \<Rightarrow> node_state \<Rightarrow> string option" where
  "charged h sender s =
     (case blob_get h (bw_index (ns_blobs s)) of None \<Rightarrow> Some sender | Some old \<Rightarrow> uploader_id old)"

lemma stored_usage:
  assumes "unique_key hash (bw_index w)" "\<forall>old. blob_get (bq_hash rq) (bw_index w) = Some old \<longrightarrow> b_expires_at old \<le> now"
    and "now < effective_expires tk (unix_timestamp (bq_store rq))"
    and "charge = (case blob_get (bq_hash rq) (bw_index w) of
      None \<Rightarrow> Some (sender_id (sm_envelope sg)) | Some old \<Rightarrow> uploader_id old)"
  shows "sum_bytes_for_uploader v now (bw_index (stored_world be dir rq sg tk mi w))
      = sum_bytes_for_uploader v now (bw_index w)
        + (if charge = Some v then sint (of_nat (length (bq_body rq)) :: u64) else 0)"
    and "count_for_uploader v now (bw_index (stored_world be dir rq sg tk mi w))
      = count_for_uploader v now (bw_index w) + (if charge = Some v then 1 else 0)"
proof -
  let ?t' = "bw_index (stored_world be dir rq sg tk mi w)" and ?P = "\<lambda>r. uploader_id r = Some v \<and> now < b_expires_at r"
  have "sum_list (map b_size (filter ?P ?t')) = sum_list (map b_size (filter ?P (bw_index w)))
        + (if charge = Some v then sint (of_nat (length (bq_body rq)) :: u64) else 0)
      \<and> length (filter ?P ?t') = length (filter ?P (bw_index w)) + (if charge = Some v then 1 else 0)"
  proof (cases "blob_get (bq_hash rq) (bw_index w)")
    case None
    then have "\<forall>r\<in>set (bw_index w). hash r \<noteq> bq_hash rq" by (simp add: blob_get_def select_by_None)
    then show ?thesis
      using None assms(3,4)
      by (auto simp: stored_world_def insert_blob_record_def Let_def blob_upsert_def sql_upsert_def
          new_blob_row_def blob_insert.defs)
  next
    case (Some old)
    have old: "old \<in> set (bw_index w)" "hash old = bq_hash rq" using blob_get_hash [OF Some] by auto
    define g where "g = (\<lambda>r. blob_merge (bq_sql rq) r (new_blob_row (bq_sql rq)
      \<lparr>hash = bq_hash rq, b_size = sint (of_nat (length (bq_body rq)) :: u64), mime = mi, path = None,
         b_expires_at = effective_expires tk (unix_timestamp (bq_store rq)),
         storage_path = upload_path dir rq, b_provenance = ''inbound'', b_role = ''input'',
         b_anchor_kind = ''cap_job'', b_processing_status = ''staged'', local_user_id = None,
         client_id = None, conversation_id = None, dispatch_id = None,
         b_capability = tk_capability tk, remote_sender_id = Some (sender_id (sm_envelope sg)),
         ticket_nonce = Some (nonce (sm_envelope sg)), invoke_id = None,
         b_user_visible = user_visible classify_cap_staging, b_user_deletable = user_deletable classify_cap_staging,
         uploader_id = Some (sender_id (sm_envelope sg)), b_recipients_whitelist = whitelist_text be tk\<rparr>))"
    have t': "?t' = sql_update (\<lambda>x. hash x = hash old) g (bw_index w)"
      using old by (auto simp: stored_world_def insert_blob_record_def Let_def blob_upsert_def sql_upsert_def
          g_def whitelist_text_def)
    have gk: "hash (g x) = hash x" "uploader_id (g x) = uploader_id x"
      "b_expires_at (g x) = effective_expires tk (unix_timestamp (bq_store rq))"
      "b_size (g x) = sint (of_nat (length (bq_body rq)) :: u64)" for x
      by (simp_all add: g_def blob_merge_def new_blob_row_def blob_insert.defs)
    have "\<not> ?P old" using assms(2) Some by auto
    note sums = sum_filter_update(1) [OF assms(1) old(1), where P = ?P and g = g and f = b_size, OF this gk(1)]
      sum_filter_update(2) [OF assms(1) old(1), where P = ?P and g = g, OF this gk(1)]
    show ?thesis
      using sums Some assms(3,4) by (simp add: t' gk)
  qed
  then show "sum_bytes_for_uploader v now ?t' = sum_bytes_for_uploader v now (bw_index w)
        + (if charge = Some v then sint (of_nat (length (bq_body rq)) :: u64) else 0)"
    and "count_for_uploader v now ?t' = count_for_uploader v now (bw_index w) + (if charge = Some v then 1 else 0)"
    by (simp_all add: sum_bytes_for_uploader_def count_for_uploader_def active_for_def)
qed

lemma retention_range:
  "ttl_of (purpose tk) \<le> effective_expires tk now - now \<and> effective_expires tk now - now \<le> MAX_GRANTED_TTL_SECS"
  by (cases "purpose tk")
    (auto simp: effective_expires_def Let_def ttl_of_def default_ttl_secs_def MAX_GRANTED_TTL_SECS_def
      split: option.split)

lemma verify_ticket_passes:
  assumes "ticket_message be nd rq = Inr sg" "nonce_stamp (ticket_key sg) (ns_nonces s) = None"
    and "ticket_payload be rq want (payload (sm_envelope sg)) = Inr tk"
  shows "verify_ticket be nd rq want s = (Inr (sg, tk), burn rq sg s)"
  using assms by (cases rule: verify_ticket_cases [of be nd rq want s]) auto

lemma put_creates:
  assumes "config_dir bh = Some dir" "validate_hash (bq_hash rq) = Inr ()"
    and "ticket_message be (bh_node bh) rq = Inr sg" "nonce_stamp (ticket_key sg) (ns_nonces s) = None"
    and "ticket_payload be rq OpPut (payload (sm_envelope sg)) = Inr tk"
    and "tk_capability tk = Some cap" "tk_mime tk = Some mi" "tk_size tk = Some (of_nat (length (bq_body rq)))"
    and "cap_allows_upload (bh_node bh) cap = Inr ()"
    and "\<not> active (unix_timestamp (bq_check rq)) (bq_hash rq) s"
    and "hash_bytes be (bq_body rq) = bq_hash rq"
    and "check_peer_quota (sender_id (sm_envelope sg)) (sint (of_nat (length (bq_body rq)) :: u64))
       (unix_timestamp (bq_quota rq)) (bw_index (ns_blobs s)) = Inr ()"
    and "bq_mkdir rq = None" "bq_write rq = None"
  shows "rp_status (fst (put_blob be bh rq s)) = 201"
proof -
  have "put_blob be bh rq s = put_admitted be bh dir rq sg tk (burn rq sg s)"
    using assms(1,2) verify_ticket_passes [OF assms(3-5)] by (simp add: put_blob_split)
  also have "\<dots> = store_upload be dir rq sg tk (of_nat (length (bq_body rq))) mi (burn rq sg s)"
    using assms(6-10) by (auto simp: put_admitted_def active_def split: option.split)
  finally show ?thesis using assms(11-14) by (simp add: store_upload_def Let_def)
qed

section \<open>A concrete endpoint\<close>

definition toy_sign :: "keypair \<Rightarrow> envelope \<Rightarrow> signed_message" where
  "toy_sign kp e = \<lparr>sm_envelope = e, sender_public_key = public_key toy_wire kp,
     sm_signature = signature_encode toy_wire (keypair_sign toy_wire kp
       (case canonical_bytes toy_wire e of Inr b \<Rightarrow> b))\<rparr>"

definition toy_ticket :: "keypair \<Rightarrow> string \<Rightarrow> blob_operation \<Rightarrow> signed_message" where
  "toy_ticket kp n oper = toy_sign kp
     \<lparr>sender_id = keypair_id toy_wire kp, recipient_id = keypair_id toy_wire ''bob'',
      timestamp = 5000000000, nonce = n, verb = BlobTicket,
      payload = enc_ticket_payload
        \<lparr>operation = oper, tk_hash = None, tk_size = Some 2, tk_mime = Some ''text/plain'',
         tk_capability = Some ''echo'', expires_at = 10000, purpose = PurposeInput,
         requested_ttl_secs = None, recipients_whitelist = None\<rparr>,
      sender_endpoint = None\<rparr>"

text \<open>Headers of the toy endpoint name the ticket: \<open>p\<close> and \<open>g\<close> upload and download for Alice,
  \<open>P\<close> and \<open>G\<close> for Carol.\<close>

definition toy_blob_env :: blob_env where
  "toy_blob_env = ticket_env.extend
     (wire_env.extend toy_wire
       \<lparr>base64url_encode = id, base64url_decode = Some, message_to_text = (\<lambda>_. None),
        message_of_text = (\<lambda>t.
          if t = ''p'' then Some (toy_ticket ''alice'' ''1'' OpPut)
          else if t = ''g'' then Some (toy_ticket ''alice'' ''2'' OpGet)
          else if t = ''P'' then Some (toy_ticket ''carol'' ''1'' OpPut)
          else if t = ''G'' then Some (toy_ticket ''carol'' ''2'' OpGet) else None)\<rparr>)
     \<lparr>secs_rfc3339 = (\<lambda>_. None), json_fault = (\<lambda>_. []), json_write = (\<lambda>_. None), json_read = (\<lambda>_. None)\<rparr>"

definition toy_host :: "nat blob_host" where
  "toy_host = \<lparr>bh_node = toy_node, config_dir = Some ''/d''\<rparr>"

definition toy_setup :: "nat blob_setup" where
  "toy_setup = \<lparr>bu_blob = toy_blob_env, bu_node = toy_node_env, bu_host = toy_host\<rparr>"

definition toy_hash :: string where
  "toy_hash = hash_bytes toy_blob_env ''hi''"

definition toy_blob_request :: "string \<Rightarrow> string \<Rightarrow> int \<Rightarrow> blob_request" where
  "toy_blob_request h body secs =
     \<lparr>bq_hash = toy_hash, bq_ticket = Some h, bq_body = body, bq_verify = 5000000000, bq_now = 5000000000,
      bq_check = secs * NANOS, bq_quota = secs * NANOS, bq_store = secs * NANOS, bq_sql = secs,
      bq_mkdir = None, bq_write = None, bq_unlink = True\<rparr>"

lemma toy_request_simps [simp]:
  "bq_hash (toy_blob_request h b t) = toy_hash" "bq_ticket (toy_blob_request h b t) = Some h"
  "bq_body (toy_blob_request h b t) = b" "bq_now (toy_blob_request h b t) = 5000000000"
  "bq_verify (toy_blob_request h b t) = 5000000000" "bq_mkdir (toy_blob_request h b t) = None"
  "bq_write (toy_blob_request h b t) = None" "unix_timestamp (bq_check (toy_blob_request h b t)) = t"
  "unix_timestamp (bq_quota (toy_blob_request h b t)) = t" "unix_timestamp (bq_store (toy_blob_request h b t)) = t"
  by (simp_all add: toy_blob_request_def unix_timestamp_def NANOS_def)

lemma toy_blob_env_wire:
  "verify_envelope toy_blob_env = verify_envelope toy_wire" "keypair_id toy_blob_env = keypair_id toy_wire"
  "hash_bytes toy_blob_env = hash_bytes toy_wire"
  by (intro ext, simp add: toy_blob_env_def ticket_env.defs wire_env.defs verify_envelope_def verify_signature_def
      canonical_bytes_def envelope_json_def from_public_key_def toy_wire_def crypto.defs hash_bytes_def
      signature_decode_def keypair_id_def public_key_verify_def public_key_def cong: sum.case_cong)+

lemma toy_sign: "sender_id e = keypair_id toy_wire kp \<Longrightarrow> sign_envelope toy_wire kp e = Inr (toy_sign kp e)"
  by (simp add: sign_envelope_def toy_sign_def canonical_bytes_def envelope_json_def)

lemma toy_hash_valid [simp]: "validate_hash toy_hash = Inr ()"
  unfolding toy_hash_def toy_blob_env_wire by (rule hash_bytes_valid) simp_all

definition toy_payload :: "blob_operation \<Rightarrow> blob_ticket_payload" where
  "toy_payload oper = \<lparr>operation = oper, tk_hash = None, tk_size = Some 2, tk_mime = Some ''text/plain'',
     tk_capability = Some ''echo'', expires_at = 10000, purpose = PurposeInput,
     requested_ttl_secs = None, recipients_whitelist = None\<rparr>"

lemma toy_payload_simps [simp]:
  "tk_capability (toy_payload oper) = Some ''echo''" "tk_size (toy_payload oper) = Some 2"
  "tk_mime (toy_payload oper) = Some ''text/plain''" "operation (toy_payload oper) = oper"
  by (simp_all add: toy_payload_def)

lemma toy_ticket_simps [simp]:
  "sender_id (sm_envelope (toy_ticket kp n oper)) = keypair_id toy_wire kp"
  "nonce (sm_envelope (toy_ticket kp n oper)) = n"
  "payload (sm_envelope (toy_ticket kp n oper)) = enc_ticket_payload (toy_payload oper)"
  "verb (sm_envelope (toy_ticket kp n oper)) = BlobTicket"
  "timestamp (sm_envelope (toy_ticket kp n oper)) = 5000000000"
  by (simp_all add: toy_ticket_def toy_sign_def toy_payload_def)

lemma toy_ticket_verified:
  "verify_envelope toy_blob_env (toy_ticket kp n oper) (keypair_id toy_wire ''bob'') 5000000000
     default_verify_config = Inr (toy_ticket kp n oper)"
  unfolding toy_blob_env_wire toy_ticket_def
  by (rule signed_accepted [OF toy_wire_laws(3,4) toy_sign]) (simp_all add: default_verify_config_def NANOS_def)

lemma toy_ticket_message:
  assumes "message_of_text toy_blob_env h = Some (toy_ticket kp n oper)" "header_to_str h = Some h" "trim h = h"
  shows "ticket_message toy_blob_env (bh_node toy_host) (toy_blob_request h b t) = Inr (toy_ticket kp n oper)"
  using assms toy_ticket_verified [of kp n oper]
  by (simp add: ticket_message_Inr decode_ticket_wire_def toy_host_def toy_node_def toy_blob_env_wire)
    (simp add: toy_blob_env_def ticket_env.defs wire_env.defs)

lemma toy_ticket_payload: "ticket_payload toy_blob_env (toy_blob_request h b t) oper
    (enc_ticket_payload (toy_payload oper)) = Inr (toy_payload oper)"
  by (simp add: ticket_payload_Inr ticket_payload_codec toy_payload_def unix_timestamp_def NANOS_def)

lemma toy_headers:
  "ticket_message toy_blob_env (bh_node toy_host) (toy_blob_request ''p'' b t) = Inr (toy_ticket ''alice'' ''1'' OpPut)"
  "ticket_message toy_blob_env (bh_node toy_host) (toy_blob_request ''g'' b t) = Inr (toy_ticket ''alice'' ''2'' OpGet)"
  "ticket_message toy_blob_env (bh_node toy_host) (toy_blob_request ''P'' b t) = Inr (toy_ticket ''carol'' ''1'' OpPut)"
  "ticket_message toy_blob_env (bh_node toy_host) (toy_blob_request ''G'' b t) = Inr (toy_ticket ''carol'' ''2'' OpGet)"
     apply (rule toy_ticket_message, simp add: toy_blob_env_def ticket_env.defs wire_env.defs, code_simp, code_simp)
    apply (rule toy_ticket_message, simp add: toy_blob_env_def ticket_env.defs wire_env.defs, code_simp, code_simp)
   apply (rule toy_ticket_message, simp add: toy_blob_env_def ticket_env.defs wire_env.defs, code_simp, code_simp)
  apply (rule toy_ticket_message, simp add: toy_blob_env_def ticket_env.defs wire_env.defs, code_simp, code_simp)
  done

lemma toy_cap: "cap_allows_upload (bh_node toy_host) ''echo'' = Inr ()"
  by (simp add: cap_allows_upload_def toy_host_def toy_node_def from_entries_def reg_insert_def reg_get_def toy_decl_def)

lemma toy_host_dir [simp]: "config_dir toy_host = Some ''/d''"
  by (simp add: toy_host_def)

lemma toy_upload:
  assumes "ticket_message toy_blob_env (bh_node toy_host) (toy_blob_request h ''hi'' t) = Inr (toy_ticket kp n OpPut)"
    and "nonce_stamp (keypair_id toy_wire kp, n) (ns_nonces s) = None" "\<not> active t toy_hash s"
    and "active_for (keypair_id toy_wire kp) t (bw_index (ns_blobs s)) = []"
  shows "rp_status (fst (put_blob toy_blob_env toy_host (toy_blob_request h ''hi'' t) s)) = 201"
proof -
  have "check_peer_quota (keypair_id toy_wire kp) (sint (of_nat (length ''hi'') :: u64)) t (bw_index (ns_blobs s)) = Inr ()"
    using assms(4) by (simp add: check_peer_quota_def sum_bytes_for_uploader_def count_for_uploader_def
        DEFAULT_PER_PEER_BYTES_def DEFAULT_PER_PEER_BLOBS_def)
  then show ?thesis
    using assms toy_ticket_payload toy_cap
    by (intro put_creates [of toy_host "''/d''" _ toy_blob_env "toy_ticket kp n OpPut" _ "toy_payload OpPut" "''echo''" "''text/plain''"])
      (simp_all add: ticket_key_def toy_hash_def [symmetric])
qed

lemma toy_empty: "intact cr ''/d'' t toy_state" "blob_get h (bw_index (ns_blobs toy_state)) = None"
  "\<not> active t h toy_state" "active_for v t (bw_index (ns_blobs toy_state)) = []"
  "nonce_stamp k (ns_nonces toy_state) = None" "unique_key hash (bw_index (ns_blobs toy_state))"
  by (simp_all add: intact_def toy_state_def blob_get_def active_def active_for_def nonce_stamp_def)

lemma toy_uploaded:
  "rp_status (fst (put_blob toy_blob_env toy_host (toy_blob_request ''p'' ''hi'' 5) toy_state)) = 201"
  by (rule toy_upload [OF toy_headers(1)]) (simp_all add: toy_empty)

lemma toy_expires: "effective_expires (toy_payload oper) t = t + 3600"
  by (simp add: effective_expires_def toy_payload_def ttl_of_def default_ttl_secs_def)

section \<open>Properties\<close>

text \<open>
  C1 (a signed message is used once). Over any mixture of requests, uploads, downloads,
  deletions and sweeps in which the clock does not run backwards and no request waits more than
  2900 s between its two readings, no two messages that were admitted, whether by the request
  handler or by the blob endpoint, share sender, nonce and timestamp.
\<close>

theorem message_admitted_once:
  assumes "unique_key nonce_key (ns_nonces s)"
    and "nd_verify (bh_node (bu_host u)) = default_verify_config"
    and "list_all prompt_event es" "sorted (map event_stamp es)"
  shows "distinct (map (\<lambda>e. map_option (\<lambda>(p, k, c, i). (k, c)) (guard_event u e)) (admitted_events u es s))"
proof -
  let ?f = "map_option (\<lambda>(p, k, c, i). (k, c))"
  have "distinct (map (\<lambda>(p, k, c, i). (k, c)) (handler.admitted (ns_nonces s) (List.map_filter (guard_event u) es)))"
    by (rule handler.no_replay [OF assms(1) guard_events_sorted [OF assms(4)]])
  then have "distinct (map Some (map (\<lambda>(p, k, c, i). (k, c)) (handler.admitted (ns_nonces s) (List.map_filter (guard_event u) es))))"
    by (subst distinct_map) simp
  also have "map Some (map (\<lambda>(p, k, c, i). (k, c)) (handler.admitted (ns_nonces s) (List.map_filter (guard_event u) es)))
    = map ?f (map (guard_event u) (admitted_events u es s))"
    unfolding admitted_events_guard [OF assms(3,2)] by simp
  finally show ?thesis by (simp add: comp_def)
qed

lemma message_admitted_once_witness:
  "distinct (map (\<lambda>e. map_option (\<lambda>(p, k, c, i). (k, c)) (guard_event toy_setup e))
     (admitted_events toy_setup
       [Put (toy_blob_request ''p'' ''hi'' 5), Put (toy_blob_request ''p'' ''hi'' 5)] toy_state))"
  by (rule message_admitted_once)
    (simp_all add: toy_state_def toy_setup_def toy_host_def toy_node_def prompt_event_def prompt_def
      LAG_def NANOS_def event_stamp_def)

text \<open>
  C10 (downloads are what their hash says). On an endpoint whose active rows have their content,
  over any run with a clock that does not go back, every download that answers with bytes
  answers with bytes of the requested hash, torn writes and failed removals included.
\<close>

theorem downloads_match_hash:
  assumes "intact (bu_blob u) dir now s" "config_dir (bu_host u) = Some dir"
    and "sorted (map event_second es)" "\<forall>e\<in>set es. now \<le> event_second e"
    and "(Get rq, Some r) \<in> set (fst (blob_run u es s))" "rp_body r = ByteBody b"
  shows "hash_bytes (bu_blob u) b = bq_hash rq"
  using assms
proof (induction es arbitrary: now s)
  case (Cons e es)
  have step: "intact (bu_blob u) dir (event_second e) (snd (blob_step u e s))"
    using intact_step [OF Cons.prems(1,2)] Cons.prems(4) by simp
  show ?case
  proof (cases "(Get rq, Some r) \<in> set (fst (blob_run u es (snd (blob_step u e s))))")
    case True
    then show ?thesis
      using Cons.IH [OF step Cons.prems(2) _ _ True Cons.prems(6)] Cons.prems(3) by simp
  next
    case False
    then have e: "e = Get rq" "r = fst (get_blob (bu_blob u) (bu_host u) rq s)"
      using Cons.prems(5) by (auto simp: split_beta)
    show ?thesis
    proof (cases rule: get_blob_cases [of "bu_blob u" "bu_host u" rq s])
      case (refused c m)
      then show ?thesis using e(2) Cons.prems(6) by simp
    next
      case (answered sg tk x y)
      have "b = y"
        using answered(9) e(2) Cons.prems(6) by (simp add: build_response_def split: if_splits)
      moreover have "now < b_expires_at x"
        using answered(6) Cons.prems(4) e(1) by (simp add: event_second_def)
      ultimately show ?thesis
        using intact_backed [OF Cons.prems(1) answered(5)] answered(8) by (simp add: backed_def)
    qed
  qed
qed simp

lemma toy_put_message: "ticket_payload toy_blob_env (toy_blob_request h b t) oper
    (payload (sm_envelope (toy_ticket kp n oper))) = Inr (toy_payload oper)"
  by (simp add: toy_ticket_payload)

definition toy_stored :: node_state where
  "toy_stored = snd (put_blob toy_blob_env toy_host (toy_blob_request ''p'' ''hi'' 5) toy_state)"

lemma toy_retained:
  "retained ''/d'' toy_hash (keypair_id toy_wire ''alice'') ''text/plain'' ''hi'' 3605 toy_stored"
  using created_retained [OF toy_uploaded toy_host_dir toy_headers(1) toy_put_message]
  by (simp add: toy_empty toy_expires toy_stored_def)

lemma toy_stored_nonces:
  "nonce_stamp (x, ''2'') (ns_nonces toy_stored) = None"
  "x \<noteq> keypair_id toy_wire ''alice'' \<Longrightarrow> nonce_stamp (x, n) (ns_nonces toy_stored) = None"
proof -
  have ns: "ns_nonces toy_stored = snd (insert_if_absent (keypair_id toy_wire ''alice'') ''1'' 5 [])"
    using toy_headers(1) by (simp add: toy_stored_def verify_ticket_nonces ticket_key_def toy_state_def
        unix_timestamp_def NANOS_def)
  show "nonce_stamp (x, ''2'') (ns_nonces toy_stored) = None"
    "x \<noteq> keypair_id toy_wire ''alice'' \<Longrightarrow> nonce_stamp (x, n) (ns_nonces toy_stored) = None"
    by (simp_all add: ns insert_if_absent_def nonce_stamp_def select_by_def nonce_key_def)
qed

lemma toy_intact: "intact toy_blob_env ''/d'' 5 toy_stored"
  using intact_put [OF toy_empty(1) toy_host_dir, of 5 "toy_blob_request ''p'' ''hi'' 5"]
  by (simp add: toy_stored_def)

lemma toy_header_plain: "header_value_ok ''text/plain''"
  by code_simp

lemma downloads_match_hash_witness:
  "\<exists>r. (Get (toy_blob_request ''g'' [] 6), Some r)
       \<in> set (fst (blob_run toy_setup [Get (toy_blob_request ''g'' [] 6)] toy_stored))
     \<and> rp_body r = ByteBody ''hi'' \<and> hash_bytes toy_blob_env ''hi'' = toy_hash"
proof -
  let ?rq = "toy_blob_request ''g'' [] 6"
  let ?r = "fst (get_blob toy_blob_env toy_host ?rq toy_stored)"
  have "rp_body ?r = ByteBody ''hi''"
    using retained_download [OF toy_retained toy_hash_valid _ _ toy_headers(2) _ _ toy_put_message, of "[]" 6]
      toy_header_plain by (simp add: ticket_key_def toy_stored_nonces)
  moreover have mem: "(Get ?rq, Some ?r) \<in> set (fst (blob_run toy_setup [Get ?rq] toy_stored))"
    by (simp add: split_beta toy_setup_def)
  ultimately show ?thesis
    using downloads_match_hash [of toy_setup "''/d''" 5 toy_stored "[Get ?rq]" ?rq ?r "''hi''"]
    by (intro exI [of _ ?r]) (simp add: toy_setup_def toy_intact event_second_def)
qed



text \<open>
  C12 (bytes go to the authorised only). \<open>get_blob\<close> answers with bytes only to the signer of a
  fresh download ticket addressed to this node, for a row that has not expired, when the signer
  uploaded the row or is on its whitelist.
\<close>

theorem download_authorised:
  assumes "rp_body (fst (get_blob be bh rq s)) = ByteBody b"
  shows "\<exists>sg tk r. ticket_message be (bh_node bh) rq = Inr sg
    \<and> verify_envelope be sg (keypair_id be (nd_keypair (bh_node bh))) (bq_verify rq) (nd_verify (bh_node bh)) = Inr sg
    \<and> nonce_stamp (ticket_key sg) (ns_nonces s) = None
    \<and> dec_ticket_payload (payload (sm_envelope sg)) = Some tk \<and> operation tk = OpGet
    \<and> unix_timestamp (bq_now rq) \<le> expires_at tk \<and> tk_hash tk \<in> {None, Some (bq_hash rq)}
    \<and> blob_get (bq_hash rq) (bw_index (ns_blobs s)) = Some r
    \<and> unix_timestamp (bq_check rq) < b_expires_at r
    \<and> (uploader_id r = Some (sender_id (sm_envelope sg))
       \<or> (\<exists>txt j ids. b_recipients_whitelist r = Some txt \<and> json_read be txt = Some j
            \<and> dec_list as_str j = Some ids \<and> sender_id (sm_envelope sg) \<in> set ids))"
proof (cases rule: get_blob_cases [of be bh rq s])
  case (refused c m)
  then show ?thesis using assms by simp
next
  case (answered sg tk r y)
  moreover have "uploader_id r = Some (sender_id (sm_envelope sg))
       \<or> (\<exists>txt j ids. b_recipients_whitelist r = Some txt \<and> json_read be txt = Some j
            \<and> dec_list as_str j = Some ids \<and> sender_id (sm_envelope sg) \<in> set ids)"
    using answered(7) by (auto simp: get_authorization_def bind_eq_Some_conv split: if_splits option.splits)
  ultimately show ?thesis by (auto simp: ticket_message_Inr ticket_payload_Inr)
qed

lemma download_authorised_witness:
  "\<exists>sg. ticket_message toy_blob_env (bh_node toy_host) (toy_blob_request ''g'' [] 6) = Inr sg
     \<and> sender_id (sm_envelope sg) = keypair_id toy_wire ''alice''"
proof -
  have "rp_body (fst (get_blob toy_blob_env toy_host (toy_blob_request ''g'' [] 6) toy_stored)) = ByteBody ''hi''"
    using retained_download [OF toy_retained toy_hash_valid _ _ toy_headers(2) _ _ toy_put_message, of "[]" 6]
      toy_header_plain by (simp add: ticket_key_def toy_stored_nonces)
  from download_authorised [OF this] show ?thesis by (auto simp: toy_headers)
qed



text \<open>
  (quota and retention). A stored upload charged to its sender leaves them within 100 MiB
  and 50 blobs, and is kept for the default of its purpose at least and a week at most,
  whatever the ticket asked for.
\<close>

theorem upload_within_limits:
  assumes "unique_key hash (bw_index (ns_blobs s))"
    and "rp_status (fst (put_blob be bh rq s)) = 201"
    and "ticket_message be (bh_node bh) rq = Inr sg" "ticket_payload be rq OpPut (payload (sm_envelope sg)) = Inr tk"
    and "charged (bq_hash rq) (sender_id (sm_envelope sg)) s = Some (sender_id (sm_envelope sg))"
    and "unix_timestamp (bq_check rq) \<le> now" "unix_timestamp (bq_quota rq) = now" "now \<le> unix_timestamp (bq_store rq)"
    and "t = bw_index (ns_blobs (snd (put_blob be bh rq s)))"
  shows "sum_bytes_for_uploader (sender_id (sm_envelope sg)) now t \<le> DEFAULT_PER_PEER_BYTES
    \<and> count_for_uploader (sender_id (sm_envelope sg)) now t \<le> DEFAULT_PER_PEER_BLOBS
    \<and> (\<exists>r. blob_get (bq_hash rq) t = Some r
         \<and> unix_timestamp (bq_store rq) + ttl_of (purpose tk) \<le> b_expires_at r
         \<and> b_expires_at r \<le> unix_timestamp (bq_store rq) + MAX_GRANTED_TTL_SECS)"
proof (rule put_created [OF assms(2)])
  fix dir sg' tk' mi
  assume put: "ns_blobs (snd (put_blob be bh rq s)) = stored_world be dir rq sg' tk' mi (ns_blobs s)"
    "ticket_message be (bh_node bh) rq = Inr sg'" "ticket_payload be rq OpPut (payload (sm_envelope sg')) = Inr tk'"
    "\<not> active (unix_timestamp (bq_check rq)) (bq_hash rq) s"
    and quota: "check_peer_quota (sender_id (sm_envelope sg')) (sint (of_nat (length (bq_body rq)) :: u64))
       (unix_timestamp (bq_quota rq)) (bw_index (ns_blobs s)) = Inr ()"
  have eq: "sg' = sg" "tk' = tk" using put(2,3) assms(3,4) by auto
  let ?v = "sender_id (sm_envelope sg)" and ?size = "sint (of_nat (length (bq_body rq)) :: u64)"
  have t: "t = bw_index (stored_world be dir rq sg tk mi (ns_blobs s))" using put(1) assms(9) eq by simp
  have old: "\<forall>old. blob_get (bq_hash rq) (bw_index (ns_blobs s)) = Some old \<longrightarrow> b_expires_at old \<le> now"
    using put(4) assms(6) by (auto simp: active_def)
  have range: "ttl_of (purpose tk) \<le> effective_expires tk m - m" "effective_expires tk m - m \<le> MAX_GRANTED_TTL_SECS" for m
    using retention_range [of tk m] by auto
  have pos: "0 < ttl_of (purpose tk)" by (cases "purpose tk") (simp_all add: ttl_of_def default_ttl_secs_def)
  have later: "now < effective_expires tk (unix_timestamp (bq_store rq))"
    using range(1) [of "unix_timestamp (bq_store rq)"] pos assms(8) by linarith
  note usage = stored_usage [OF assms(1) old later, of _ sg, OF refl, of ?v be dir mi]
  have within: "sum_bytes_for_uploader ?v now (bw_index (ns_blobs s)) + ?size \<le> DEFAULT_PER_PEER_BYTES"
    "count_for_uploader ?v now (bw_index (ns_blobs s)) < DEFAULT_PER_PEER_BLOBS"
    using quota assms(7) by (auto simp: check_peer_quota_def eq split: if_splits)
  have charge: "(case blob_get (bq_hash rq) (bw_index (ns_blobs s)) of None \<Rightarrow> Some ?v | Some old \<Rightarrow> uploader_id old) = Some ?v"
    using assms(5) by (simp add: charged_def)
  obtain row where "blob_get (bq_hash rq) t = Some row"
      "b_expires_at row = effective_expires tk (unix_timestamp (bq_store rq))"
    unfolding t by (rule stored_row)
  then show ?thesis
    using usage within charge range [of "unix_timestamp (bq_store rq)"] by (auto simp: t)
qed

lemma upload_within_limits_witness:
  "sum_bytes_for_uploader (keypair_id toy_wire ''alice'') 5 (bw_index (ns_blobs toy_stored)) \<le> DEFAULT_PER_PEER_BYTES
   \<and> (\<exists>r. blob_get toy_hash (bw_index (ns_blobs toy_stored)) = Some r \<and> 3605 \<le> b_expires_at r)"
  using upload_within_limits [OF toy_empty(6) toy_uploaded toy_headers(1) toy_put_message, of 5]
  by (simp add: toy_stored_def charged_def toy_empty)
    (auto simp: toy_payload_def ttl_of_def default_ttl_secs_def)

text \<open>
  (a renewed upload stays with its first uploader). When an expired row is still in the index,
  an upload of the same hash by someone else is stored (201) but the row keeps its first uploader
  and whitelist: the sender is refused their own blob (403), and its bytes count against the
  first uploader, whose quota was not asked, and not against the sender.
\<close>

theorem renewed_upload_not_owned:
  assumes "unique_key hash (bw_index (ns_blobs s))"
    and "rp_status (fst (put_blob be bh rq s)) = 201" "s1 = snd (put_blob be bh rq s)"
    and "ticket_message be (bh_node bh) rq = Inr sg" "ticket_payload be rq OpPut (payload (sm_envelope sg)) = Inr tk"
    and "blob_get (bq_hash rq) (bw_index (ns_blobs s)) = Some old" "uploader_id old = Some first"
    and "first \<noteq> sender_id (sm_envelope sg)" "b_recipients_whitelist old = None"
    and "b_expires_at old \<le> now" "now \<le> unix_timestamp (bq_store rq)"
    and "bq_hash get = bq_hash rq" "unix_timestamp (bq_check get) < unix_timestamp (bq_store rq) + ttl_of (purpose tk)"
    and "ticket_message be (bh_node bh) get = Inr sg'" "sender_id (sm_envelope sg') = sender_id (sm_envelope sg)"
    and "nonce_stamp (ticket_key sg') (ns_nonces s1) = None"
    and "ticket_payload be get OpGet (payload (sm_envelope sg')) = Inr tk'"
  shows "fst (get_blob be bh get s1) = blob_error 403 ''not authorized to download''
    \<and> sum_bytes_for_uploader first now (bw_index (ns_blobs s1))
        = sum_bytes_for_uploader first now (bw_index (ns_blobs s)) + sint (of_nat (length (bq_body rq)) :: u64)
    \<and> sum_bytes_for_uploader (sender_id (sm_envelope sg)) now (bw_index (ns_blobs s1))
        = sum_bytes_for_uploader (sender_id (sm_envelope sg)) now (bw_index (ns_blobs s))"
proof (rule put_created [OF assms(2)])
  fix dir sg0 tk0 mi
  assume put: "ns_blobs (snd (put_blob be bh rq s)) = stored_world be dir rq sg0 tk0 mi (ns_blobs s)"
    "ticket_message be (bh_node bh) rq = Inr sg0" "ticket_payload be rq OpPut (payload (sm_envelope sg0)) = Inr tk0"
    "validate_hash (bq_hash rq) = Inr ()"
  have eq: "sg0 = sg" "tk0 = tk" using put(2,3) assms(4,5) by auto
  have w: "ns_blobs s1 = stored_world be dir rq sg tk mi (ns_blobs s)" using put(1) assms(3) eq by simp
  have range: "ttl_of (purpose tk) \<le> effective_expires tk m - m" for m using retention_range [of tk m] by auto
  have pos: "0 < ttl_of (purpose tk)" by (cases "purpose tk") (simp_all add: ttl_of_def default_ttl_secs_def)
  have later: "now < effective_expires tk (unix_timestamp (bq_store rq))"
    using range [of "unix_timestamp (bq_store rq)"] pos assms(11) by linarith
  obtain row where row: "blob_get (bq_hash rq) (bw_index (ns_blobs s1)) = Some row" "uploader_id row = Some first"
      "b_recipients_whitelist row = None" "b_expires_at row = effective_expires tk (unix_timestamp (bq_store rq))"
    using assms(6,7,9) unfolding w
    by (rule_tac stored_row [of rq be dir sg tk mi "ns_blobs s"]) simp
  have "verify_ticket be (bh_node bh) get OpGet s1 = (Inr (sg', tk'), burn get sg' s1)"
    by (rule verify_ticket_passes [OF assms(14,16,17)])
  moreover have "get_authorization be row (sender_id (sm_envelope sg)) = Inl (blob_error 403 ''not authorized to download'')"
    using row(2,3) assms(8) by (simp add: get_authorization_def)
  ultimately have "fst (get_blob be bh get s1) = blob_error 403 ''not authorized to download''"
    using row range [of "unix_timestamp (bq_store rq)"] assms(12,13,15) put(4) by (simp add: get_blob_def Let_def)
  then show ?thesis
    using stored_usage(1) [OF assms(1) _ later, where be = be and dir = dir and mi = mi and sg = sg, OF _ refl] assms(6-8,10)
    by (simp add: w)
qed

lemma toy_row:
  obtains r where "bw_index (ns_blobs toy_stored) = [r]" "hash r = toy_hash" "b_expires_at r = 3605"
    "uploader_id r = Some (keypair_id toy_wire ''alice'')" "b_recipients_whitelist r = None"
proof (rule put_created [OF toy_uploaded])
  fix d sg tk mi
  assume "ns_blobs (snd (put_blob toy_blob_env toy_host (toy_blob_request ''p'' ''hi'' 5) toy_state))
      = stored_world toy_blob_env d (toy_blob_request ''p'' ''hi'' 5) sg tk mi (ns_blobs toy_state)"
    "ticket_message toy_blob_env (bh_node toy_host) (toy_blob_request ''p'' ''hi'' 5) = Inr sg"
    "ticket_payload toy_blob_env (toy_blob_request ''p'' ''hi'' 5) OpPut (payload (sm_envelope sg)) = Inr tk"
  moreover have "recipients_whitelist (toy_payload OpPut) = None" by (simp add: toy_payload_def)
  ultimately show thesis
    using toy_headers(1) toy_put_message [of "''p''" "''hi''" 5 OpPut "''alice''" "''1''"]
    by (intro that)
      (auto simp: toy_stored_def stored_world_def insert_blob_record_def Let_def blob_upsert_def sql_upsert_def
        new_blob_row_def blob_insert.defs toy_state_def toy_expires)
qed

lemma toy_keys_differ: "keypair_id toy_wire ''carol'' \<noteq> keypair_id toy_wire ''alice''"
  by (simp add: keypair_id_def from_public_key_def toy_crypto_def pad_to_def two_letters_def public_key_def
      ID_HASH_BYTES_def to_ascii_lowercase_def is_ascii_uppercase_def)

text \<open>Carol uploads Alice's expired blob again.\<close>

lemma toy_renewed:
  "rp_status (fst (put_blob toy_blob_env toy_host (toy_blob_request ''P'' ''hi'' 4000) toy_stored)) = 201"
proof -
  obtain r where r: "bw_index (ns_blobs toy_stored) = [r]" "b_expires_at r = 3605" by (rule toy_row)
  then show ?thesis
    using toy_stored_nonces(2) [OF toy_keys_differ]
    by (intro toy_upload [OF toy_headers(3)]) (simp_all add: active_def active_for_def blob_get_def select_by_def)
qed

lemma put_nonces:
  assumes "config_dir bh \<noteq> None" "validate_hash (bq_hash rq) = Inr ()" "ticket_message be (bh_node bh) rq = Inr sg"
    "k \<noteq> ticket_key sg" "nonce_stamp k (ns_nonces s) = None"
  shows "nonce_stamp k (ns_nonces (snd (put_blob be bh rq s))) = None"
  using assms stamp_insert(2) [of k "ticket_key sg"] by (simp add: verify_ticket_nonces)

lemma renewed_upload_not_owned_witness:
  "fst (get_blob toy_blob_env toy_host (toy_blob_request ''G'' [] 4001)
     (snd (put_blob toy_blob_env toy_host (toy_blob_request ''P'' ''hi'' 4000) toy_stored)))
   = blob_error 403 ''not authorized to download''"
proof -
  obtain r where r: "bw_index (ns_blobs toy_stored) = [r]" "hash r = toy_hash" "b_expires_at r = 3605"
    "uploader_id r = Some (keypair_id toy_wire ''alice'')" "b_recipients_whitelist r = None" by (rule toy_row)
  have get: "blob_get toy_hash (bw_index (ns_blobs toy_stored)) = Some r"
    using r by (simp add: blob_get_def select_by_def)
  have u: "unique_key hash (bw_index (ns_blobs toy_stored))" using toy_intact by (simp add: intact_def)
  have "nonce_stamp (keypair_id toy_wire ''carol'', ''2'')
      (ns_nonces (snd (put_blob toy_blob_env toy_host (toy_blob_request ''P'' ''hi'' 4000) toy_stored))) = None"
    using toy_stored_nonces(1) by (intro put_nonces [OF _ _ toy_headers(3)]) (simp_all add: ticket_key_def)
  then show ?thesis
    using renewed_upload_not_owned [OF u toy_renewed refl toy_headers(3) toy_put_message, of r
        "keypair_id toy_wire ''alice''" 4000 "toy_blob_request ''G'' [] 4001", OF _ _ _ _ _ _ _ _ toy_headers(4)]
      get r toy_keys_differ toy_put_message [of "''G''" "[]" 4001 OpGet "''carol''" "''2''"]
    by (simp add: ticket_key_def toy_payload_def [of OpPut] ttl_of_def default_ttl_secs_def)
qed

text \<open>
  (a sweep can lose an upload). A sweep deletes the rows of expired blobs before it removes
  their files. When the blob is uploaded again in between (201), the sweep removes the file just
  written: the index still lists the blob, its uploader is told it is not found, and further
  uploads answer without storing the bytes, until the new row expires.
\<close>

theorem sweep_loses_upload:
  assumes "intact be dir t0 s" "config_dir bh = Some dir"
    and "blob_get (bq_hash rq) (bw_index (ns_blobs s)) = Some old" "b_expires_at old \<le> now"
    and "gc_rows now s = (expired, s1)" "rp_status (fst (put_blob be bh rq s1)) = 201"
    and "ticket_message be (bh_node bh) rq = Inr sg" "ticket_payload be rq OpPut (payload (sm_envelope sg)) = Inr tk"
    and "unlinks (path_join (blobs_root dir) (bq_hash rq))"
    and "s3 = gc_files unlinks expired (snd (put_blob be bh rq s1))"
    and "bq_hash get = bq_hash rq" "unix_timestamp (bq_check get) < unix_timestamp (bq_store rq) + ttl_of (purpose tk)"
    and "ticket_message be (bh_node bh) get = Inr sg'" "sender_id (sm_envelope sg') = sender_id (sm_envelope sg)"
    and "nonce_stamp (ticket_key sg') (ns_nonces s3) = None"
    and "ticket_payload be get OpGet (payload (sm_envelope sg')) = Inr tk'"
    and "bq_hash again = bq_hash rq" "unix_timestamp (bq_check again) < unix_timestamp (bq_store rq) + ttl_of (purpose tk)"
  shows "fst (get_blob be bh get s3) = blob_error 404 ''blob not found''
    \<and> active (unix_timestamp (bq_check get)) (bq_hash rq) s3
    \<and> ns_blobs (snd (put_blob be bh again s3)) = ns_blobs s3"
proof (rule put_created [OF assms(6)])
  fix d sg0 tk0 mi
  let ?p = "path_join (blobs_root dir) (bq_hash rq)"
  assume put: "ns_blobs (snd (put_blob be bh rq s1)) = stored_world be d rq sg0 tk0 mi (ns_blobs s1)"
    "ticket_message be (bh_node bh) rq = Inr sg0" "ticket_payload be rq OpPut (payload (sm_envelope sg0)) = Inr tk0"
    "validate_hash (bq_hash rq) = Inr ()" "config_dir bh = Some d"
  have eq: "sg0 = sg" "tk0 = tk" "d = dir" using put(2,3,5) assms(2,7,8) by auto
  have ex: "expired = filter (\<lambda>r. b_expires_at r \<le> now) (bw_index (ns_blobs s))"
    and none: "blob_get (bq_hash rq) (bw_index (ns_blobs s1)) = None"
    using assms(1,3-5) by (auto simp: gc_rows_def delete_expired_def Let_def blob_get_def select_by_delete_unique intact_def)
  have "old \<in> set expired" "storage_path old = ?p"
    using blob_get_hash [OF assms(3)] assms(4) ex intact_backed [OF assms(1,3)] by (auto simp: backed_def)
  then have gone: "fold (\<lambda>r f. if unlinks (storage_path r) then f(storage_path r := None) else f) expired files ?p = None"
    for files :: "string \<rightharpoonup> string"
    using assms(9) by (intro files_removed) (auto intro: rev_image_eqI)
  have ix: "bw_index (ns_blobs s3) = bw_index (stored_world be dir rq sg tk mi (ns_blobs s1))"
    and lost: "bw_files (ns_blobs s3) ?p = None"
    using assms(10) put(1) gone by (simp_all add: gc_files_def eq)
  obtain row where row: "blob_get (bq_hash rq) (bw_index (ns_blobs s3)) = Some row" "storage_path row = ?p"
      "uploader_id row = Some (sender_id (sm_envelope sg))"
      "b_expires_at row = effective_expires tk (unix_timestamp (bq_store rq))"
    unfolding ix by (rule stored_row [of rq be dir sg tk mi "ns_blobs s1"]) (simp add: none upload_path_eq)
  have range: "unix_timestamp (bq_store rq) + ttl_of (purpose tk) \<le> b_expires_at row"
    using retention_range [of tk "unix_timestamp (bq_store rq)"] row(4) by simp
  have "verify_ticket be (bh_node bh) get OpGet s3 = (Inr (sg', tk'), burn get sg' s3)"
    by (rule verify_ticket_passes [OF assms(13,15,16)])
  then have "fst (get_blob be bh get s3) = blob_error 404 ''blob not found''"
    using row range lost assms(11,12,14) put(4) by (simp add: get_blob_def Let_def get_authorization_def)
  moreover have act: "active t (bq_hash rq) s3" if "t < unix_timestamp (bq_store rq) + ttl_of (purpose tk)" for t
    using row(1) range that by (auto simp: active_def)
  moreover have "ns_blobs (snd (put_blob be bh again s3)) = ns_blobs s3"
    using act [OF assms(18)] assms(17)
    by (cases rule: put_blob_cases [of be bh again s3]) auto
  ultimately show ?thesis using assms(12) by blast
qed

lemma sweep_loses_upload_witness:
  "\<exists>expired s1 s3. gc_rows 4000 toy_stored = (expired, s1)
     \<and> s3 = gc_files (\<lambda>_. True) expired (snd (put_blob toy_blob_env toy_host (toy_blob_request ''P'' ''hi'' 4000) s1))
     \<and> fst (get_blob toy_blob_env toy_host (toy_blob_request ''G'' [] 4001) s3) = blob_error 404 ''blob not found''"
proof -
  let ?put = "toy_blob_request ''P'' ''hi'' 4000" and ?get = "toy_blob_request ''G'' [] 4001"
  obtain r where r: "bw_index (ns_blobs toy_stored) = [r]" "hash r = toy_hash" "b_expires_at r = 3605" by (rule toy_row)
  obtain expired s1 where gc: "gc_rows 4000 toy_stored = (expired, s1)" by (cases "gc_rows 4000 toy_stored")
  then have s1: "bw_index (ns_blobs s1) = []" "ns_nonces s1 = ns_nonces toy_stored"
    using r by (auto simp: gc_rows_def delete_expired_def sql_delete_def)
  define s3 where "s3 = gc_files (\<lambda>_. True) expired (snd (put_blob toy_blob_env toy_host ?put s1))"
  have created: "rp_status (fst (put_blob toy_blob_env toy_host ?put s1)) = 201"
    using s1 toy_stored_nonces(2) [OF toy_keys_differ]
    by (intro toy_upload [OF toy_headers(3)]) (simp_all add: active_def active_for_def blob_get_def)
  have "nonce_stamp (keypair_id toy_wire ''carol'', ''2'') (ns_nonces (snd (put_blob toy_blob_env toy_host ?put s1))) = None"
    using toy_stored_nonces(1) s1(2)
    by (intro put_nonces [OF _ _ toy_headers(3)]) (simp_all add: ticket_key_def)
  then have nonce: "nonce_stamp (ticket_key (toy_ticket ''carol'' ''2'' OpGet)) (ns_nonces s3) = None"
    by (simp add: s3_def gc_files_def ticket_key_def)
  have old: "blob_get (bq_hash ?put) (bw_index (ns_blobs toy_stored)) = Some r" "b_expires_at r \<le> 4000"
    using r by (simp_all add: blob_get_def select_by_def)
  have "fst (get_blob toy_blob_env toy_host ?get s3) = blob_error 404 ''blob not found''"
    using sweep_loses_upload [OF toy_intact toy_host_dir old gc created toy_headers(3) toy_put_message
        _ s3_def _ _ toy_headers(4) _ nonce toy_put_message, where again = ?get]
    by (simp add: toy_payload_def [of OpPut] ttl_of_def default_ttl_secs_def)
  with gc s3_def show ?thesis by blast
qed

text \<open>
  (the node's own download ticket). The ticket \<open>forge_local_get_ticket\<close> signs with the node's
  key pair is admitted by the node's own endpoint as a download of that blob, while the clocks of
  signing and checking are within the window and its nonce is new.
\<close>

theorem local_ticket_admitted:
  assumes "hex_law be" "ed25519_law be"
    and "forge_local_get_ticket be (nd_keypair nd) (keypair_id be (nd_keypair nd)) h now uuid = Inr sg"
    and "nd_verify nd = default_verify_config" "\<bar>bq_verify rq - now\<bar> \<le> 300 * NANOS"
    and "unix_timestamp now \<in> {- (2 ^ 62) .. 2 ^ 62}" "unix_timestamp (bq_now rq) \<le> unix_timestamp now + 300"
    and "bq_hash rq = h" "bq_ticket rq = Some raw" "header_to_str raw = Some raw" "decode_ticket_wire be raw = Inr sg"
    and "nonce_stamp (keypair_id be (nd_keypair nd), uuid) (ns_nonces s) = None"
  shows "\<exists>tk. verify_ticket be nd rq OpGet s = (Inr (sg, tk), burn rq sg s) \<and> tk_hash tk = Some h"
proof -
  let ?e = "\<lparr>sender_id = keypair_id be (nd_keypair nd), recipient_id = keypair_id be (nd_keypair nd),
    timestamp = now, nonce = uuid, verb = BlobTicket,
    payload = enc_ticket_payload \<lparr>operation = OpGet, tk_hash = Some h, tk_size = None, tk_mime = None,
      tk_capability = None, expires_at = unix_timestamp now + 300, purpose = PurposeOwned,
      requested_ttl_secs = None, recipients_whitelist = None\<rparr>, sender_endpoint = None\<rparr>"
  have sign: "sign_envelope be (nd_keypair nd) ?e = Inr sg"
    using assms(3) by (simp add: forge_local_get_ticket_def)
  then have env: "sm_envelope sg = ?e" by (auto simp: sign_envelope_def split: if_splits sum.splits)
  have "verify_envelope be sg (keypair_id be (nd_keypair nd)) (bq_verify rq) (nd_verify nd) = Inr sg"
    using assms(4,5) by (intro signed_accepted [OF assms(1,2) sign]) (simp_all add: default_verify_config_def)
  then have msg: "ticket_message be nd rq = Inr sg"
    using assms(9-11) by (simp add: ticket_message_Inr env)
  have "ticket_payload be rq OpGet (payload (sm_envelope sg)) = Inr
      \<lparr>operation = OpGet, tk_hash = Some h, tk_size = None, tk_mime = None, tk_capability = None,
       expires_at = unix_timestamp now + 300, purpose = PurposeOwned, requested_ttl_secs = None,
       recipients_whitelist = None\<rparr>"
    using assms(6-8) by (simp add: ticket_payload_Inr env ticket_payload_codec)
  from verify_ticket_passes [OF msg _ this, of s] assms(12) show ?thesis
    by (simp add: ticket_key_def env)
qed

definition toy_local :: signed_message where
  "toy_local = toy_sign ''bob''
     \<lparr>sender_id = keypair_id toy_wire ''bob'', recipient_id = keypair_id toy_wire ''bob'',
      timestamp = 5000000000, nonce = ''u'', verb = BlobTicket,
      payload = enc_ticket_payload \<lparr>operation = OpGet, tk_hash = Some toy_hash, tk_size = None, tk_mime = None,
        tk_capability = None, expires_at = 305, purpose = PurposeOwned, requested_ttl_secs = None,
        recipients_whitelist = None\<rparr>, sender_endpoint = None\<rparr>"

definition toy_local_env :: blob_env where
  "toy_local_env = toy_blob_env\<lparr>message_of_text := (\<lambda>_. Some toy_local)\<rparr>"

lemma toy_local_wire:
  "sign_envelope toy_local_env = sign_envelope toy_wire" "keypair_id toy_local_env = keypair_id toy_wire"
  "hex_law toy_local_env" "ed25519_law toy_local_env"
proof -
  show "sign_envelope toy_local_env = sign_envelope toy_wire" "keypair_id toy_local_env = keypair_id toy_wire"
    by (intro ext, simp add: toy_local_env_def toy_blob_env_def ticket_env.defs wire_env.defs sign_envelope_def
      canonical_bytes_def envelope_json_def from_public_key_def toy_wire_def crypto.defs signature_encode_def
      keypair_sign_def keypair_id_def public_key_def)+
  show "hex_law toy_local_env" "ed25519_law toy_local_env"
    using hex_toy ed25519_toy
    by (simp_all add: hex_law_def ed25519_law_def toy_local_env_def toy_blob_env_def ticket_env.defs wire_env.defs)
qed

lemma local_ticket_admitted_witness:
  "\<exists>tk. verify_ticket toy_local_env toy_node (toy_blob_request ''l'' [] 5) OpGet toy_state
      = (Inr (toy_local, tk), burn (toy_blob_request ''l'' [] 5) toy_local toy_state) \<and> tk_hash tk = Some toy_hash"
proof -
  have forge: "forge_local_get_ticket toy_local_env ''bob'' (keypair_id toy_local_env ''bob'') toy_hash 5000000000 ''u''
      = Inr toy_local"
    by (simp add: forge_local_get_ticket_def toy_local_wire toy_sign toy_local_def unix_timestamp_def NANOS_def)
  have "header_to_str ''l'' = Some ''l''" "trim ''l'' = ''l''" by code_simp+
  moreover have "decode_ticket_wire toy_local_env ''l'' = Inr toy_local"
    using \<open>trim ''l'' = ''l''\<close>
    by (simp add: decode_ticket_wire_def toy_local_env_def toy_blob_env_def ticket_env.defs wire_env.defs)
  ultimately show ?thesis
    using local_ticket_admitted [OF toy_local_wire(3,4), of toy_node toy_hash 5000000000 "''u''" toy_local
        "toy_blob_request ''l'' [] 5" "''l''" toy_state] forge
    by (simp add: toy_node_def NANOS_def toy_state_def unix_timestamp_def nonce_stamp_def)
qed

end
