(* ===== verification/Blob_Client.thy ===== *)
theory Blob_Client
  imports Node_Discovery Blob_Endpoint
begin

text \<open>
  \<open>crates/node/src/blob_client.rs\<close>: tickets for uploads and downloads, the addresses of blobs,
  and the three calls to a publisher. The answers of the network, the clock and the random source
  of one call are parameters.
\<close>

section \<open>Tickets\<close>

definition TICKET_TTL_SECS :: int where
  "TICKET_TTL_SECS = 300"

definition ticket_envelope ::
  "('x) crypto_scheme \<Rightarrow> keypair \<Rightarrow> instance_id \<Rightarrow> time \<Rightarrow> string \<Rightarrow> blob_ticket_payload \<Rightarrow> envelope" where
  "ticket_envelope w kp recipient now uuid tk =
     \<lparr>sender_id = keypair_id w kp, recipient_id = recipient, timestamp = now, nonce = uuid,
      verb = BlobTicket, payload = enc_ticket_payload tk, sender_endpoint = None\<rparr>"

record blob_net = blob_env +
  bn_head :: "string \<Rightarrow> (string, nat) result"
  bn_put :: "string \<Rightarrow> string \<Rightarrow> string \<Rightarrow> (string, nat \<times> string) result"
  bn_get :: "string \<Rightarrow> string \<Rightarrow> (string, nat \<times> string) result"
  bn_fault :: "string \<Rightarrow> string"
  bn_lossy :: "string \<Rightarrow> string"
  bn_clock :: time
  bn_uuid :: string

definition put_ticket_payload :: "string \<Rightarrow> u64 \<Rightarrow> string \<Rightarrow> string \<Rightarrow> time \<Rightarrow> blob_ticket_payload" where
  "put_ticket_payload h sz mi cap now =
     \<lparr>operation = OpPut, tk_hash = Some h, tk_size = Some sz, tk_mime = Some mi,
      tk_capability = Some cap, expires_at = unix_timestamp now + TICKET_TTL_SECS,
      purpose = PurposeInput, requested_ttl_secs = None, recipients_whitelist = None\<rparr>"

definition get_ticket_payload :: "string \<Rightarrow> time \<Rightarrow> blob_ticket_payload" where
  "get_ticket_payload h now =
     \<lparr>operation = OpGet, tk_hash = Some h, tk_size = None, tk_mime = None,
      tk_capability = None, expires_at = unix_timestamp now + TICKET_TTL_SECS,
      purpose = PurposeOutput, requested_ttl_secs = None, recipients_whitelist = None\<rparr>"

definition client_sign :: "('x) blob_net_scheme \<Rightarrow> keypair \<Rightarrow> envelope \<Rightarrow> (client_error, signed_message) result" where
  "client_sign bn kp e = (case sign_envelope bn kp e of Inl err \<Rightarrow> Inl (CCore err) | Inr m \<Rightarrow> Inr m)"

definition forge_put_ticket ::
  "('x) blob_net_scheme \<Rightarrow> keypair \<Rightarrow> instance_id \<Rightarrow> string \<Rightarrow> u64 \<Rightarrow> string \<Rightarrow> string
     \<Rightarrow> (client_error, signed_message) result" where
  "forge_put_ticket bn kp recipient h sz mi cap =
     client_sign bn kp (ticket_envelope bn kp recipient (bn_clock bn) (bn_uuid bn)
       (put_ticket_payload h sz mi cap (bn_clock bn)))"

definition forge_get_ticket ::
  "('x) blob_net_scheme \<Rightarrow> keypair \<Rightarrow> instance_id \<Rightarrow> string \<Rightarrow> (client_error, signed_message) result" where
  "forge_get_ticket bn kp recipient h =
     client_sign bn kp (ticket_envelope bn kp recipient (bn_clock bn) (bn_uuid bn)
       (get_ticket_payload h (bn_clock bn)))"

section \<open>Addresses\<close>

text \<open>The code point of one character given as its UTF-8 bytes, and \<open>{:02X}\<close>.\<close>

fun code_point :: "string \<Rightarrow> nat" where
  "code_point [a] = byte a"
| "code_point [a, b] = byte a mod 32 * 64 + byte b mod 64"
| "code_point [a, b, c] = (byte a mod 16 * 64 + byte b mod 64) * 64 + byte c mod 64"
| "code_point [a, b, c, d] = ((byte a mod 8 * 64 + byte b mod 64) * 64 + byte c mod 64) * 64 + byte d mod 64"
| "code_point _ = 0"

fun hex_upper :: "nat \<Rightarrow> string" where
  "hex_upper n =
     (let d = (\<lambda>k. if k < 10 then char_of (48 + k :: nat) else char_of (55 + k)) in
      if n < 16 then [d n] else hex_upper (n div 16) @ [d (n mod 16)])"

declare hex_upper.simps [simp del]

definition url_char :: "string \<Rightarrow> string" where
  "url_char c =
     (if c = '':'' then ''%3A'' else if c = ''/'' then ''%2F''
      else if ascii_char is_ascii_alphanumeric c \<or> c \<in> {''-'', ''_'', ''.'', ''~''} then c
      else CHR ''%'' # pad_left 2 (hex_upper (code_point c)))"

definition urlencoding_encode :: "string \<Rightarrow> string" where
  "urlencoding_encode s = concat (map url_char (chars s))"

definition blob_url :: "string \<Rightarrow> string \<Rightarrow> string" where
  "blob_url base h = trim_end_char CHR ''/'' base @ ''/n3ur0n/v0/blobs/'' @ urlencoding_encode h"

section \<open>Calls\<close>

definition client_head_blob :: "('x) blob_net_scheme \<Rightarrow> string \<Rightarrow> string \<Rightarrow> (client_error, bool) result" where
  "client_head_blob bn base h =
     (case bn_head bn (blob_url base h) of
        Inl e \<Rightarrow> Inl (CHttp e)
      | Inr code \<Rightarrow> Inr (200 \<le> code \<and> code < 300))"

definition call_body ::
  "('x) blob_net_scheme \<Rightarrow> (string, nat \<times> string) result \<Rightarrow> (client_error, string) result" where
  "call_body bn r =
     (case r of
        Inl e \<Rightarrow> Inl (CHttp e)
      | Inr (code, bytes) \<Rightarrow>
          if 200 \<le> code \<and> code < 300 then Inr bytes else Inl (CStatus code (bn_lossy bn bytes)))"

definition dec_put_response :: "json \<Rightarrow> unit option" where
  "dec_put_response j =
     do {
       m \<leftarrow> struct_fields [''hash'', ''size''] j;
       _ \<leftarrow> field_req as_str m ''hash'';
       _ \<leftarrow> field_req dec_u64 m ''size'';
       Some ()
     }"

definition uploaded_ref :: "string \<Rightarrow> string \<Rightarrow> string \<Rightarrow> blob_ref" where
  "uploaded_ref h mi bytes =
     \<lparr>br_hash = h, br_size = of_nat (length bytes), br_mime = mi, fetch_url = None, br_name = None\<rparr>"

definition upload_blob ::
  "('x) blob_net_scheme \<Rightarrow> keypair \<Rightarrow> string \<Rightarrow> instance_id \<Rightarrow> string \<Rightarrow> string \<Rightarrow> string
     \<Rightarrow> (client_error, blob_ref) result" where
  "upload_blob bn kp base recipient cap mi bytes =
     (let h = hash_bytes bn bytes in
      case client_head_blob bn base h of
        Inl e \<Rightarrow> Inl e
      | Inr True \<Rightarrow> Inr (uploaded_ref h mi bytes)
      | Inr False \<Rightarrow>
     (case forge_put_ticket bn kp recipient h (of_nat (length bytes)) mi cap of
        Inl e \<Rightarrow> Inl e
      | Inr ticket \<Rightarrow>
     (case encode_ticket_wire bn ticket of
        Inl e \<Rightarrow> Inl (CCore e)
      | Inr header \<Rightarrow>
     (case call_body bn (bn_put bn (blob_url base h) header bytes) of
        Inl e \<Rightarrow> Inl e
      | Inr body \<Rightarrow>
     (case Option.bind (json_read bn body) dec_put_response of
        None \<Rightarrow> Inl (CSerde (bn_fault bn body))
      | Some _ \<Rightarrow> Inr (uploaded_ref h mi bytes))))))"

definition download_blob ::
  "('x) blob_net_scheme \<Rightarrow> keypair \<Rightarrow> string \<Rightarrow> instance_id \<Rightarrow> blob_ref \<Rightarrow> (client_error, string) result" where
  "download_blob bn kp base recipient br =
     (case forge_get_ticket bn kp recipient (br_hash br) of
        Inl e \<Rightarrow> Inl e
      | Inr ticket \<Rightarrow>
     (case encode_ticket_wire bn ticket of
        Inl e \<Rightarrow> Inl (CCore e)
      | Inr header \<Rightarrow> call_body bn (bn_get bn (blob_url base (br_hash br)) header)))"

definition upload_blob_discover ::
  "('x) blob_net_scheme \<Rightarrow> (client_error, instance_id) result \<Rightarrow> keypair \<Rightarrow> string \<Rightarrow> string \<Rightarrow> string
     \<Rightarrow> string \<Rightarrow> (client_error, blob_ref) result" where
  "upload_blob_discover bn discovered kp base cap mi bytes =
     (case discovered of
        Inl e \<Rightarrow> Inl e
      | Inr recipient \<Rightarrow> upload_blob bn kp base recipient cap mi bytes)"

section \<open>Lemmas\<close>

text \<open>What the header relies on: both codecs read back what they wrote, in visible characters.\<close>

definition ticket_codec_law :: "('x) ticket_env_scheme \<Rightarrow> bool" where
  "ticket_codec_law w \<longleftrightarrow>
     (\<forall>m t. message_to_text w m = Some t \<longrightarrow> message_of_text w t = Some m)
     \<and> (\<forall>x. base64url_decode w (base64url_encode w x) = Some x
          \<and> header_to_str (base64url_encode w x) = Some (base64url_encode w x)
          \<and> trim (base64url_encode w x) = base64url_encode w x)"

lemma encoded_ticket:
  assumes "ticket_codec_law w" "encode_ticket_wire w m = Inr header"
  shows "header_to_str header = Some header" "decode_ticket_wire w header = Inr m"
  using assms by (auto simp: ticket_codec_law_def encode_ticket_wire_def decode_ticket_wire_def split: option.splits)

lemma forged_admitted:
  assumes "hex_law be" "ed25519_law be" "ticket_codec_law be"
    and "sign_envelope be kp (ticket_envelope be kp (keypair_id be (nd_keypair nd)) now uuid tk) = Inr sg"
    and "encode_ticket_wire be sg = Inr header" "bq_ticket rq = Some header"
    and "nd_verify nd = default_verify_config" "\<bar>bq_verify rq - now\<bar> \<le> 300 * NANOS"
    and "- (2 ^ 63) \<le> expires_at tk" "expires_at tk < 2 ^ 63" "unix_timestamp (bq_now rq) \<le> expires_at tk"
    and "tk_hash tk = Some (bq_hash rq)"
  shows "ticket_message be nd rq = Inr sg" "ticket_key sg = (keypair_id be kp, uuid)"
    "ticket_payload be rq (operation tk) (payload (sm_envelope sg)) = Inr tk"
proof -
  let ?e = "ticket_envelope be kp (keypair_id be (nd_keypair nd)) now uuid tk"
  have env: "sm_envelope sg = ?e" using assms(4) by (auto simp: sign_envelope_def split: if_splits sum.splits)
  have "verify_envelope be sg (keypair_id be (nd_keypair nd)) (bq_verify rq) (nd_verify nd) = Inr sg"
    using assms(7,8)
    by (intro signed_accepted [OF assms(1,2,4)]) (simp_all add: default_verify_config_def ticket_envelope_def)
  then show "ticket_message be nd rq = Inr sg"
    using encoded_ticket [OF assms(3,5)] assms(6) by (simp add: ticket_message_Inr env ticket_envelope_def)
  show "ticket_key sg = (keypair_id be kp, uuid)" by (simp add: ticket_key_def env ticket_envelope_def)
  show "ticket_payload be rq (operation tk) (payload (sm_envelope sg)) = Inr tk"
    using assms(9-12) by (simp add: ticket_payload_Inr env ticket_envelope_def ticket_payload_codec)
qed

lemma url_char_plain: "is_ascii_alphanumeric c \<Longrightarrow> url_char [c] = [c]"
  by (auto simp: url_char_def ascii_char_def is_ascii_alphanumeric_def is_ascii_alphabetic_def
      is_ascii_lowercase_def is_ascii_uppercase_def is_ascii_digit_def)

lemma encode_valid_hash:
  assumes "validate_hash h = Inr ()"
  shows "urlencoding_encode h = ''sha256%3A'' @ drop 7 h"
proof -
  obtain hex where h: "h = BLOB_HASH_PREFIX @ hex" "list_all is_hex_lower hex"
    using assms by (auto simp: validate_hash_ok)
  have alnum: "is_ascii_alphanumeric c" if "is_hex_lower c" for c
    using that by (auto simp: is_hex_lower_def is_ascii_alphanumeric_def is_ascii_alphabetic_def
        is_ascii_lowercase_def is_ascii_digit_def)
  have "is_ascii h" using h by (auto simp: is_ascii_def BLOB_HASH_PREFIX_def list_all_iff is_hex_lower_def is_ascii_digit_def)
  then have "urlencoding_encode h = concat (map (\<lambda>c. url_char [c]) h)"
    by (simp add: urlencoding_encode_def chars_ascii comp_def)
  also have "\<dots> = ''sha256%3A'' @ concat (map (\<lambda>c. url_char [c]) hex)"
    by (simp add: h(1) BLOB_HASH_PREFIX_def url_char_def ascii_char_def is_ascii_alphanumeric_def
        is_ascii_alphabetic_def is_ascii_lowercase_def is_ascii_digit_def)
  also have "concat (map (\<lambda>c. url_char [c]) hex) = hex"
    using h(2) alnum by (induction hex) (simp_all add: url_char_plain)
  finally show ?thesis by (simp add: h(1) BLOB_HASH_PREFIX_def)
qed

text \<open>A reply as the client receives it.\<close>

definition carried :: "('x) blob_env_scheme \<Rightarrow> reply \<Rightarrow> nat \<times> string" where
  "carried be r = (rp_status r,
     case rp_body r of
       NoBody \<Rightarrow> []
     | ByteBody b \<Rightarrow> b
     | JsonBody j \<Rightarrow> (case json_write be j of None \<Rightarrow> [] | Some t \<Rightarrow> t))"

lemma put_response_reads: "dec_put_response (json_obj [(''hash'', JStr h), (''size'', enc_u64 sz), (''expires_at'', j)]) = Some ()"
  by (simp add: dec_put_response_def field_defs)

lemma head_absent: "\<not> active (unix_timestamp (bq_check rq)) (bq_hash rq) s \<Longrightarrow> validate_hash (bq_hash rq) = Inr () \<Longrightarrow>
    rp_status (head_blob rq s) = 404"
  by (auto simp: head_blob_def active_def split: option.split)

section \<open>Properties\<close>

text \<open>
  C30 (upload, from the client to the store). When \<open>upload_blob\<close> talks to a publisher whose
  endpoint is the modelled one, allows the capability and has room for the bytes, the client's
  ticket is admitted, the call succeeds, and the publisher then retains exactly these bytes for an
  hour, under their hash and in the name of the client's key.
\<close>

theorem client_upload_retained:
  fixes rq :: blob_request and bytes :: string
  assumes "h = hash_bytes bn bytes" "url = blob_url base h"
    and "hex_law bn" "ed25519_law bn" "sha256_law bn" "ticket_codec_law bn"
    and "nd_verify (bh_node bh) = default_verify_config" "config_dir bh = Some dir"
    and "cap_allows_upload (bh_node bh) cap = Inr ()"
    and "blob_get h (bw_index (ns_blobs s)) = None"
    and "check_peer_quota (keypair_id bn kp) (sint (of_nat (length bytes) :: u64))
           (unix_timestamp (bq_quota rq)) (bw_index (ns_blobs s)) = Inr ()"
    and "bq_mkdir rq = None" "bq_write rq = None"
    and "\<bar>bq_verify rq - bn_clock bn\<bar> \<le> 300 * NANOS" "unix_timestamp (bn_clock bn) \<in> {0 .. 2 ^ 62}"
    and "unix_timestamp (bq_now rq) \<le> unix_timestamp (bn_clock bn) + TICKET_TTL_SECS"
    and "nonce_stamp (keypair_id bn kp, bn_uuid bn) (ns_nonces s) = None"
    and "recipient = keypair_id bn (nd_keypair (bh_node bh))"
    and "forge_put_ticket bn kp recipient h (of_nat (length bytes)) mi cap = Inr sg"
    and "encode_ticket_wire bn sg = Inr header"
    and "request = rq\<lparr>bq_hash := h, bq_ticket := Some header, bq_body := bytes\<rparr>"
    and "bn_head bn url = Inr (rp_status (head_blob (rq\<lparr>bq_hash := h\<rparr>) s))"
    and "bn_put bn url header bytes = Inr (carried bn (fst (put_blob bn bh request s)))"
    and "\<forall>j. rp_body (fst (put_blob bn bh request s)) = JsonBody j \<longrightarrow>
           Option.bind (json_write bn j) (json_read bn) = Some j"
  shows "upload_blob bn kp base recipient cap mi bytes = Inr (uploaded_ref h mi bytes)
    \<and> retained dir h (keypair_id bn kp) mi bytes (unix_timestamp (bq_store rq) + 3600)
        (snd (put_blob bn bh request s))"
proof -
  let ?tk = "put_ticket_payload h (of_nat (length bytes)) mi cap (bn_clock bn)"
  have sign: "sign_envelope bn kp (ticket_envelope bn kp recipient (bn_clock bn) (bn_uuid bn) ?tk) = Inr sg"
    using assms(19) by (auto simp: forge_put_ticket_def client_sign_def split: sum.splits)
  have msg: "ticket_message bn (bh_node bh) request = Inr sg" "ticket_key sg = (keypair_id bn kp, bn_uuid bn)"
    "ticket_payload bn request OpPut (payload (sm_envelope sg)) = Inr ?tk"
    using forged_admitted [OF assms(3,4,6) sign [unfolded assms(18)] assms(20), of request] assms(7,14-16,21)
    by (simp_all add: put_ticket_payload_def TICKET_TTL_SECS_def)
  have valid: "validate_hash h = Inr ()" unfolding assms(1) by (rule hash_bytes_valid [OF assms(5,3)])
  have sender: "sender_id (sm_envelope sg) = keypair_id bn kp" using msg(2) by (simp add: ticket_key_def)
  have absent: "\<not> active t h s" for t using assms(10) by (simp add: active_def)
  have created: "rp_status (fst (put_blob bn bh request s)) = 201"
    using assms(8,9,11-13,17,21) msg valid sender absent
    by (intro put_creates [of bh dir request bn sg s ?tk cap mi]) (simp_all add: put_ticket_payload_def flip: assms(1))
  obtain sz e where reply: "rp_body (fst (put_blob bn bh request s)) =
      JsonBody (json_obj [(''hash'', JStr h), (''size'', enc_u64 sz), (''expires_at'', e)])"
    using created assms(21)
    by (cases rule: put_blob_cases [of bn bh request s]) (auto simp: stored_reply_def json_reply_def)
  have "json_read bn (snd (carried bn (fst (put_blob bn bh request s)))) =
      Some (json_obj [(''hash'', JStr h), (''size'', enc_u64 sz), (''expires_at'', e)])"
    using assms(24) reply by (auto simp: carried_def bind_eq_Some_conv)
  then have answer: "Option.bind (json_read bn (snd (carried bn (fst (put_blob bn bh request s))))) dec_put_response = Some ()"
    by (simp add: put_response_reads)
  have head: "bn_head bn url = Inr 404" using assms(22) head_absent [of "rq\<lparr>bq_hash := h\<rparr>" s] absent valid by simp
  have "upload_blob bn kp base recipient cap mi bytes = Inr (uploaded_ref h mi bytes)"
    using head answer created assms(19,20,23)
    by (simp add: upload_blob_def client_head_blob_def call_body_def carried_def split_beta
        flip: assms(1,2))
  moreover have "effective_expires ?tk t = t + 3600" for t
    by (simp add: effective_expires_def put_ticket_payload_def ttl_of_def default_ttl_secs_def)
  ultimately show ?thesis
    using created_retained [OF created assms(8) msg(1,3)] assms(10,21) sender
    by (simp add: put_ticket_payload_def)
qed

definition toy_upload_ticket :: signed_message where
  "toy_upload_ticket = toy_sign ''alice'' (ticket_envelope toy_wire ''alice'' (keypair_id toy_wire ''bob'')
     5000000000 ''1'' (put_ticket_payload toy_hash 2 ''text/plain'' ''echo'' 5000000000))"

definition toy_reply_json :: json where
  "toy_reply_json = json_obj [(''hash'', JStr toy_hash), (''size'', enc_u64 2), (''expires_at'', JNull)]"

definition toy_publisher :: blob_net where
  "toy_publisher = blob_env.extend (ticket_env.extend
     (wire_env.extend toy_wire
       \<lparr>base64url_encode = hex_lower, base64url_decode = of_hex_lower,
        message_to_text = (\<lambda>m. if m = toy_upload_ticket then Some ''t'' else None),
        message_of_text = (\<lambda>_. Some toy_upload_ticket)\<rparr>)
     \<lparr>secs_rfc3339 = (\<lambda>_. None), json_fault = (\<lambda>_. []),
      json_write = (\<lambda>j. if j = toy_reply_json then Some ''r'' else None),
      json_read = (\<lambda>_. Some toy_reply_json)\<rparr>)
     \<lparr>bn_head = (\<lambda>_. Inr 404), bn_put = (\<lambda>_ _ _. Inr (201, ''r'')), bn_get = (\<lambda>_ _. Inl []),
      bn_fault = id, bn_lossy = id, bn_clock = 5000000000, bn_uuid = ''1''\<rparr>"

lemma toy_publisher_wire:
  "sign_envelope toy_publisher = sign_envelope toy_wire" "keypair_id toy_publisher = keypair_id toy_wire"
  "hash_bytes toy_publisher = hash_bytes toy_wire"
  "hex_law toy_publisher" "ed25519_law toy_publisher" "sha256_law toy_publisher"
proof -
  show "sign_envelope toy_publisher = sign_envelope toy_wire" "keypair_id toy_publisher = keypair_id toy_wire"
    "hash_bytes toy_publisher = hash_bytes toy_wire"
    by (intro ext, simp add: toy_publisher_def blob_env.defs ticket_env.defs wire_env.defs sign_envelope_def
      canonical_bytes_def envelope_json_def from_public_key_def toy_wire_def crypto.defs signature_encode_def
      keypair_sign_def keypair_id_def public_key_def hash_bytes_def)+
  show "hex_law toy_publisher" "ed25519_law toy_publisher" "sha256_law toy_publisher"
    using hex_toy ed25519_toy sha256_toy
    by (simp_all add: hex_law_def ed25519_law_def sha256_law_def toy_publisher_def blob_env.defs
        ticket_env.defs wire_env.defs)
qed

lemma toy_publisher_simps [simp]:
  "bn_clock toy_publisher = 5000000000" "bn_uuid toy_publisher = ''1''" "bn_head toy_publisher u = Inr 404"
  "bn_put toy_publisher u x b = Inr (201, ''r'')" "secs_rfc3339 toy_publisher e = None"
  "json_write toy_publisher j = (if j = toy_reply_json then Some ''r'' else None)"
  "json_read toy_publisher t = Some toy_reply_json"
  by (simp_all add: toy_publisher_def blob_env.defs ticket_env.defs wire_env.defs)

lemma toy_publisher_codec: "ticket_codec_law toy_publisher"
proof -
  have hexes: "list_all is_hex_lower (hex_lower x)" "of_hex_lower (hex_lower x) = Some x" for x
    using hex_toy by (simp_all add: hex_law_def toy_crypto_def)
  have "trim (hex_lower x) = hex_lower x" for x
    by (rule trim_graphic) (use hexes(1) [of x] in \<open>auto simp: list_all_iff path_char_def alias_char_def is_hex_lower_def
      is_ascii_alphanumeric_def is_ascii_alphabetic_def is_ascii_lowercase_def is_ascii_digit_def\<close>)
  moreover have "header_to_str (hex_lower x) = Some (hex_lower x)" for x
    using hexes(1) [of x] by (fastforce simp: header_to_str_def list_all_iff is_hex_lower_def is_ascii_digit_def)
  ultimately show ?thesis
    using hexes(2)
    by (auto simp: ticket_codec_law_def toy_publisher_def blob_env.defs ticket_env.defs wire_env.defs split: if_splits)
qed

lemma toy_forged:
  "forge_put_ticket toy_publisher ''alice'' (keypair_id toy_wire ''bob'') toy_hash 2 ''text/plain'' ''echo'' = Inr toy_upload_ticket"
  by (simp add: forge_put_ticket_def client_sign_def toy_publisher_wire toy_sign ticket_envelope_def
      toy_upload_ticket_def)

lemma toy_upload_header:
  obtains header where "encode_ticket_wire toy_publisher toy_upload_ticket = Inr header"
  by (simp add: encode_ticket_wire_def toy_publisher_def blob_env.defs ticket_env.defs wire_env.defs)

lemma client_upload_retained_witness:
  "upload_blob toy_publisher ''alice'' ''http://bob'' (keypair_id toy_wire ''bob'') ''echo'' ''text/plain'' ''hi''
     = Inr (uploaded_ref toy_hash ''text/plain'' ''hi'')"
proof -
  let ?rq = "toy_blob_request ''x'' ''hi'' 5"
  obtain header where enc: "encode_ticket_wire toy_publisher toy_upload_ticket = Inr header" by (rule toy_upload_header)
  define request where "request = ?rq\<lparr>bq_hash := toy_hash, bq_ticket := Some header, bq_body := ''hi''\<rparr>"
  have hash: "toy_hash = hash_bytes toy_publisher ''hi''"
    by (simp add: toy_hash_def toy_publisher_wire toy_blob_env_wire)
  have quota: "check_peer_quota v 2 t (bw_index (ns_blobs toy_state)) = Inr ()" for v t
    by (simp add: check_peer_quota_def sum_bytes_for_uploader_def count_for_uploader_def toy_empty
        DEFAULT_PER_PEER_BYTES_def DEFAULT_PER_PEER_BLOBS_def)
  have node: "nd_verify (bh_node toy_host) = default_verify_config" "nd_keypair (bh_node toy_host) = ''bob''"
    by (simp_all add: toy_host_def toy_node_def)
  let ?tk = "put_ticket_payload toy_hash 2 ''text/plain'' ''echo'' 5000000000"
  have sign: "sign_envelope toy_publisher ''alice'' (ticket_envelope toy_publisher ''alice''
      (keypair_id toy_publisher (nd_keypair (bh_node toy_host))) 5000000000 ''1'' ?tk) = Inr toy_upload_ticket"
    using toy_forged by (auto simp: forge_put_ticket_def client_sign_def toy_publisher_wire node split: sum.splits)
  have msg: "ticket_message toy_publisher (bh_node toy_host) request = Inr toy_upload_ticket"
    "ticket_key toy_upload_ticket = (keypair_id toy_wire ''alice'', ''1'')"
    "ticket_payload toy_publisher request OpPut (payload (sm_envelope toy_upload_ticket)) = Inr ?tk"
    using forged_admitted [OF toy_publisher_wire(4,5) toy_publisher_codec sign enc, of request] node
    by (simp_all add: request_def put_ticket_payload_def TICKET_TTL_SECS_def toy_publisher_wire NANOS_def unix_timestamp_def)
  have created: "rp_status (fst (put_blob toy_publisher toy_host request toy_state)) = 201"
    using msg quota toy_cap
    by (intro put_creates [of toy_host "''/d''" request toy_publisher toy_upload_ticket toy_state ?tk "''echo''" "''text/plain''"])
      (simp_all add: request_def put_ticket_payload_def toy_empty ticket_key_def hash [symmetric])
  have body: "rp_body (fst (put_blob toy_publisher toy_host request toy_state)) = JsonBody toy_reply_json"
    using created
    by (cases rule: put_blob_cases [of toy_publisher toy_host request toy_state])
      (simp_all add: stored_reply_def json_reply_def toy_reply_json_def request_def opt_json_def)
  have "upload_blob toy_publisher ''alice'' ''http://bob'' (keypair_id toy_wire ''bob'') ''echo'' ''text/plain'' ''hi''
      = Inr (uploaded_ref toy_hash ''text/plain'' ''hi'')
    \<and> retained ''/d'' toy_hash (keypair_id toy_publisher ''alice'') ''text/plain'' ''hi''
        (unix_timestamp (bq_store ?rq) + 3600) (snd (put_blob toy_publisher toy_host request toy_state))"
    by (rule client_upload_retained [OF hash refl toy_publisher_wire(4-6) toy_publisher_codec node(1) toy_host_dir toy_cap])
      (use toy_forged enc created body quota in \<open>simp_all add: toy_empty request_def node toy_publisher_wire carried_def
        head_absent NANOS_def unix_timestamp_def TICKET_TTL_SECS_def\<close>)
  then show ?thesis by blast
qed

end
