(* ===== verification/Server_Config.thy ===== *)
theory Server_Config
  imports Complex_Main Node_Lifecycle Server_Auth
begin

text \<open>
  The configuration files of a server and what it starts from: \<open>server/instance_config.rs\<close>,
  \<open>bootstrap_config.rs\<close>, \<open>planner_config.rs\<close>, \<open>bootstrap.rs\<close> and the first half of \<open>serve\<close> in
  \<open>cli.rs\<close>. TOML text, the environment and the file system are parameters; a TOML document arrives
  as the JSON value serde makes of it.
\<close>

section \<open>Files\<close>

text \<open>
  A disk is the table of its files by location: a path taken apart, \<open>.\<close> and \<open>..\<close> resolved, seen
  from the working directory. There are no links; directories are where their files are.
\<close>

record disk =
  dk_files :: "(string list \<times> string) list"

definition enter :: "string \<Rightarrow> string list \<Rightarrow> string list" where
  "enter s loc = (if s = [] \<or> s = ''.'' then loc else if s = ''..'' then butlast loc else loc @ [s])"

definition locate :: "string \<Rightarrow> string list" where
  "locate p = fold enter (split_on CHR ''/'' p) []"

definition disk_get :: "string \<Rightarrow> disk \<Rightarrow> string option" where
  "disk_get p dk = map_of (dk_files dk) (locate p)"

definition disk_put :: "string \<Rightarrow> string \<Rightarrow> disk \<Rightarrow> disk" where
  "disk_put p c dk = \<lparr>dk_files = (locate p, c) # filter (\<lambda>f. fst f \<noteq> locate p) (dk_files dk)\<rparr>"

definition disk_del :: "string \<Rightarrow> disk \<Rightarrow> disk" where
  "disk_del p dk = \<lparr>dk_files = filter (\<lambda>f. fst f \<noteq> locate p) (dk_files dk)\<rparr>"

text \<open>
  What may go wrong: an operation fails with its text. A failed write leaves the file as it was
  (\<open>None\<close>) or with the part that was written.
\<close>

record settings_env = manifest_env +
  make_dir_fault :: "string \<Rightarrow> string option"
  write_fault :: "string \<Rightarrow> string \<Rightarrow> (string \<times> string option) option"
  remove_fault :: "string \<Rightarrow> string option"
  read_fault :: "string \<Rightarrow> string option"
  absent :: string
  env_var :: "string \<Rightarrow> string option"
  toml_read :: "string \<Rightarrow> (string, json) result"
  toml_write :: "json \<Rightarrow> (string, string) result"
  parse_f32 :: "string \<Rightarrow> rat option"

definition read_disk :: "('x) settings_env_scheme \<Rightarrow> disk \<Rightarrow> string \<Rightarrow> (string, string) result" where
  "read_disk se dk p =
     (case read_fault se p of
        Some e \<Rightarrow> Inl e
      | None \<Rightarrow> (case disk_get p dk of None \<Rightarrow> Inl (absent se) | Some c \<Rightarrow> Inr c))"

definition write_disk :: "('x) settings_env_scheme \<Rightarrow> string \<Rightarrow> string \<Rightarrow> disk \<Rightarrow> (string, unit) result \<times> disk" where
  "write_disk se p c dk =
     (case write_fault se p c of
        Some (e, None) \<Rightarrow> (Inl e, dk)
      | Some (e, Some part) \<Rightarrow> (Inl e, disk_put p part dk)
      | None \<Rightarrow> (Inr (), disk_put p c dk))"

definition remove_disk :: "('x) settings_env_scheme \<Rightarrow> string \<Rightarrow> disk \<Rightarrow> (string, unit) result \<times> disk" where
  "remove_disk se p dk =
     (case remove_fault se p of Some e \<Rightarrow> (Inl e, dk) | None \<Rightarrow> (Inr (), disk_del p dk))"

definition disk_dir :: "disk \<Rightarrow> string \<Rightarrow> string list option" where
  "disk_dir dk dir =
     Some (map (\<lambda>f. path_join dir (last (fst f)))
       (filter (\<lambda>f. fst f \<noteq> [] \<and> butlast (fst f) = locate dir) (dk_files dk)))"

text \<open>The manifest loader, on a disk.\<close>

definition me_on :: "('x) settings_env_scheme \<Rightarrow> disk \<Rightarrow> manifest_env" where
  "me_on se dk = (manifest_env.truncate se)\<lparr>read_file := read_disk se dk, dir_entries := disk_dir dk\<rparr>"

section \<open>Configuration files\<close>

definition load_config :: "('x) settings_env_scheme \<Rightarrow> string \<Rightarrow> string \<Rightarrow> (json \<Rightarrow> 'c option) \<Rightarrow> disk \<Rightarrow> 'c option" where
  "load_config se dir name rd dk =
     (case read_disk se dk (path_join dir name) of
        Inl _ \<Rightarrow> None
      | Inr raw \<Rightarrow> (case toml_read se raw of Inl _ \<Rightarrow> None | Inr j \<Rightarrow> rd j))"

text \<open>An \<open>anyhow\<close> error shows its outermost context.\<close>

definition save_config ::
  "('x) settings_env_scheme \<Rightarrow> string \<Rightarrow> string \<Rightarrow> json \<Rightarrow> disk \<Rightarrow> (string, unit) result \<times> disk" where
  "save_config se dir name j dk =
     (case make_dir_fault se dir of
        Some _ \<Rightarrow> (Inl (''creating config dir '' @ dir), dk)
      | None \<Rightarrow>
          (case toml_write se j of
             Inl _ \<Rightarrow> (Inl (''serialising '' @ name), dk)
           | Inr body \<Rightarrow>
               (case write_disk se (path_join dir name) body dk of
                  (Inl _, dk1) \<Rightarrow> (Inl (''writing '' @ path_join dir name), dk1)
                | (Inr _, dk1) \<Rightarrow> (Inr (), dk1))))"

text \<open>A list in a flag, a variable or a form: commas and white space separate.\<close>

fun split_chars :: "(string \<Rightarrow> bool) \<Rightarrow> string list \<Rightarrow> string list" where
  "split_chars p [] = [[]]"
| "split_chars p (c # cs) =
     (if p c then [] # split_chars p cs
      else (case split_chars p cs of [] \<Rightarrow> [c] | w # ws \<Rightarrow> (c @ w) # ws))"

definition parse_lobe_list :: "string \<Rightarrow> string list" where
  "parse_lobe_list raw =
     filter (\<lambda>s. s \<noteq> []) (map trim (split_chars (\<lambda>c. c = '','' \<or> is_whitespace c) (chars raw)))"

definition parse_peer_list :: "string \<Rightarrow> string list" where
  "parse_peer_list raw =
     filter (\<lambda>s. s \<noteq> []) (map trim (split_chars (\<lambda>c. c = '','' \<or> is_whitespace c) (chars raw)))"

definition nonblank :: "string option \<Rightarrow> string option" where
  "nonblank s = Option.bind s (\<lambda>x. if trim x = [] then None else Some (trim x))"

subsection \<open>\<open>instance.toml\<close>\<close>

record instance_config =
  iu_alias :: "string option"
  iu_lobes :: "string list"

definition enc_instance :: "instance_config \<Rightarrow> json" where
  "enc_instance c =
     json_obj (opt_entry ''alias'' JStr (iu_alias c) @ [(''lobe_ids'', enc_list JStr (iu_lobes c))])"

definition dec_instance :: "json \<Rightarrow> instance_config option" where
  "dec_instance j =
     do {
       m \<leftarrow> struct_fields [''alias'', ''lobe_ids''] j;
       a \<leftarrow> field_opt as_str m ''alias'';
       l \<leftarrow> field_default (dec_list as_str) [] m ''lobe_ids'';
       Some \<lparr>iu_alias = a, iu_lobes = l\<rparr>
     }"

definition enc_instance_file :: "instance_config \<Rightarrow> json" where
  "enc_instance_file c = json_obj [(''instance'', enc_instance c)]"

definition dec_instance_file :: "json \<Rightarrow> instance_config option" where
  "dec_instance_file j =
     Option.bind (struct_fields [''instance''] j) (\<lambda>m. field_req dec_instance m ''instance'')"

definition load_instance_user_config :: "('x) settings_env_scheme \<Rightarrow> string \<Rightarrow> disk \<Rightarrow> instance_config option" where
  "load_instance_user_config se dir dk = load_config se dir ''instance.toml'' dec_instance_file dk"

definition save_instance_user_config ::
  "('x) settings_env_scheme \<Rightarrow> string \<Rightarrow> instance_config \<Rightarrow> disk \<Rightarrow> (string, unit) result \<times> disk" where
  "save_instance_user_config se dir c dk =
     (case validate_instance_lobes (iu_lobes c) of
        Inl _ \<Rightarrow> (Inl ''invalid lobe set'', dk)
      | Inr _ \<Rightarrow>
          (case map_option validate_alias (iu_alias c) of
             Some (Inl _) \<Rightarrow> (Inl ''invalid alias'', dk)
           | _ \<Rightarrow> save_config se dir ''instance.toml'' (enc_instance_file c) dk))"

definition env_lobes :: "('x) settings_env_scheme \<Rightarrow> string list" where
  "env_lobes se = (case env_var se ''N3UR0N_LOBES'' of Some s \<Rightarrow> parse_lobe_list s | None \<Rightarrow> [])"

fun keep_lobes :: "string list \<Rightarrow> string list \<Rightarrow> string list" where
  "keep_lobes kept [] = kept"
| "keep_lobes kept (i # raw) =
     (case validate_lobe_id i of
        Inl _ \<Rightarrow> keep_lobes kept raw
      | Inr _ \<Rightarrow>
          (if i \<in> set kept then keep_lobes kept raw
           else if length kept = MAX_LOBES_PER_INSTANCE then kept
           else keep_lobes (kept @ [i]) raw))"

definition resolve_startup_lobes :: "('x) settings_env_scheme \<Rightarrow> string list \<Rightarrow> string \<Rightarrow> disk \<Rightarrow> string list" where
  "resolve_startup_lobes se cli dir dk =
     keep_lobes []
       (if cli \<noteq> [] then cli
        else if env_lobes se \<noteq> [] then env_lobes se
        else (case load_instance_user_config se dir dk of Some c \<Rightarrow> iu_lobes c | None \<Rightarrow> []))"

definition resolve_startup_alias :: "('x) settings_env_scheme \<Rightarrow> string option \<Rightarrow> string \<Rightarrow> disk \<Rightarrow> string option" where
  "resolve_startup_alias se cli dir dk =
     (case (case cli of
              Some a \<Rightarrow> Some a
            | None \<Rightarrow>
                (case env_var se ''N3UR0N_ALIAS'' of
                   Some a \<Rightarrow> Some a
                 | None \<Rightarrow> Option.bind (load_instance_user_config se dir dk) iu_alias)) of
        None \<Rightarrow> None
      | Some raw \<Rightarrow>
          (let a = trim raw in
           if a = [] then None
           else (case validate_alias a of Inr _ \<Rightarrow> Some a | Inl _ \<Rightarrow> None)))"

subsection \<open>\<open>bootstrap.toml\<close>\<close>

definition enc_bootstrap_file :: "string list \<Rightarrow> json" where
  "enc_bootstrap_file ps = json_obj [(''bootstrap'', json_obj [(''peers'', enc_list JStr ps)])]"

definition dec_bootstrap :: "json \<Rightarrow> string list option" where
  "dec_bootstrap j =
     Option.bind (struct_fields [''peers''] j) (\<lambda>m. field_default (dec_list as_str) [] m ''peers'')"

definition dec_bootstrap_file :: "json \<Rightarrow> string list option" where
  "dec_bootstrap_file j =
     Option.bind (struct_fields [''bootstrap''] j) (\<lambda>m. field_req dec_bootstrap m ''bootstrap'')"

definition load_bootstrap_user_config :: "('x) settings_env_scheme \<Rightarrow> string \<Rightarrow> disk \<Rightarrow> string list option" where
  "load_bootstrap_user_config se dir dk = load_config se dir ''bootstrap.toml'' dec_bootstrap_file dk"

definition save_bootstrap_user_config ::
  "('x) settings_env_scheme \<Rightarrow> string \<Rightarrow> string list \<Rightarrow> disk \<Rightarrow> (string, unit) result \<times> disk" where
  "save_bootstrap_user_config se dir ps dk =
     save_config se dir ''bootstrap.toml'' (enc_bootstrap_file ps) dk"

definition env_bootstrap_peers :: "('x) settings_env_scheme \<Rightarrow> string list" where
  "env_bootstrap_peers se =
     (case env_var se ''N3UR0N_BOOTSTRAP_PEERS'' of Some s \<Rightarrow> parse_peer_list s | None \<Rightarrow> [])"

definition seed_endpoint :: "string \<Rightarrow> string" where
  "seed_endpoint p = trim_end_char CHR ''/'' (trim p)"

definition normalize_peers :: "string list \<Rightarrow> string list" where
  "normalize_peers ps =
     fold (\<lambda>p out. let t = seed_endpoint p in if t = [] \<or> t \<in> set out then out else out @ [t]) ps []"

definition form_bootstrap_peers :: "('x) settings_env_scheme \<Rightarrow> string \<Rightarrow> disk \<Rightarrow> string list \<times> string" where
  "form_bootstrap_peers se dir dk =
     (case load_bootstrap_user_config se dir dk of
        Some ps \<Rightarrow> (normalize_peers ps, ''file'')
      | None \<Rightarrow>
          if env_bootstrap_peers se \<noteq> [] then (normalize_peers (env_bootstrap_peers se), ''env'') else ([], ''empty''))"

definition startup_bootstrap_peers :: "('x) settings_env_scheme \<Rightarrow> string \<Rightarrow> disk \<Rightarrow> string list" where
  "startup_bootstrap_peers se dir dk =
     (case load_bootstrap_user_config se dir dk of Some ps \<Rightarrow> normalize_peers ps | None \<Rightarrow> [])"

definition resolve_startup_peers :: "('x) settings_env_scheme \<Rightarrow> string list \<Rightarrow> string \<Rightarrow> disk \<Rightarrow> string list" where
  "resolve_startup_peers se cli dir dk =
     (let c = normalize_peers cli in if c \<noteq> [] then c else startup_bootstrap_peers se dir dk)"

definition remove_endpoint_from_bootstrap ::
  "('x) settings_env_scheme \<Rightarrow> string \<Rightarrow> string \<Rightarrow> disk \<Rightarrow> (string, bool) result \<times> disk" where
  "remove_endpoint_from_bootstrap se dir e dk =
     (case load_bootstrap_user_config se dir dk of
        None \<Rightarrow> (Inr False, dk)
      | Some ps \<Rightarrow>
          (let left = filter (\<lambda>p. seed_endpoint p \<noteq> seed_endpoint e) ps in
           if length left = length ps then (Inr False, dk)
           else (case save_bootstrap_user_config se dir left dk of
                   (Inl m, dk1) \<Rightarrow> (Inl m, dk1)
                 | (Inr _, dk1) \<Rightarrow> (Inr True, dk1))))"

subsection \<open>\<open>planner.toml\<close>\<close>

record planner_user =
  pu_backend :: "string option"
  pu_model :: "string option"

record planner_fallback =
  pf_base_url :: string
  pf_model :: string
  pf_api_key :: "string option"

definition enc_planner_file :: "planner_user \<Rightarrow> json" where
  "enc_planner_file u =
     json_obj [(''planner'', json_obj (opt_entry ''backend'' JStr (pu_backend u) @ opt_entry ''model'' JStr (pu_model u)))]"

definition dec_planner :: "json \<Rightarrow> planner_user option" where
  "dec_planner j =
     do {
       m \<leftarrow> struct_fields [''backend'', ''model''] j;
       b \<leftarrow> field_opt as_str m ''backend'';
       d \<leftarrow> field_opt as_str m ''model'';
       Some \<lparr>pu_backend = b, pu_model = d\<rparr>
     }"

definition dec_planner_file :: "json \<Rightarrow> planner_user option" where
  "dec_planner_file j =
     Option.bind (struct_fields [''planner''] j) (\<lambda>m. field_req dec_planner m ''planner'')"

definition load_planner_user_config :: "('x) settings_env_scheme \<Rightarrow> string \<Rightarrow> disk \<Rightarrow> planner_user" where
  "load_planner_user_config se dir dk =
     (case load_config se dir ''planner.toml'' dec_planner_file dk of
        Some u \<Rightarrow> u
      | None \<Rightarrow> \<lparr>pu_backend = None, pu_model = None\<rparr>)"

definition save_planner_user_config ::
  "('x) settings_env_scheme \<Rightarrow> string \<Rightarrow> planner_user \<Rightarrow> disk \<Rightarrow> (string, unit) result \<times> disk" where
  "save_planner_user_config se dir u dk = save_config se dir ''planner.toml'' (enc_planner_file u) dk"

record resolved_llm =
  rl_openai :: openai_config
  rl_model :: string
  rl_source :: string
  rl_backend :: "string option"

definition manifest_path :: "string \<Rightarrow> string \<Rightarrow> string \<Rightarrow> string" where
  "manifest_path dir sub name = path_join (path_join dir sub) (name @ ''.toml'')"

text \<open>The texts of its errors are hidden by the context of the only caller.\<close>

definition load_openai_compat_backend :: "('x) settings_env_scheme \<Rightarrow> string \<Rightarrow> string \<Rightarrow> disk \<Rightarrow> backend_openai option" where
  "load_openai_compat_backend se dir name dk =
     (case parse_backend_file (me_on se dk) (manifest_path dir ''backends'' name) of
        Inl _ \<Rightarrow> None
      | Inr m \<Rightarrow> (case bm_kind m of OpenAICompat c \<Rightarrow> Some c | _ \<Rightarrow> None))"

definition resolve_planner_llm ::
  "('x) settings_env_scheme \<Rightarrow> string \<Rightarrow> live_node \<Rightarrow> planner_fallback \<Rightarrow> planner_user \<Rightarrow> disk
     \<Rightarrow> (string, resolved_llm) result" where
  "resolve_planner_llm se dir n env u dk =
     (case nonblank (pu_backend u) of
        Some name \<Rightarrow>
          (case load_openai_compat_backend se dir name dk of
             None \<Rightarrow> Inl (''planner backend `'' @ name @ ''`'')
           | Some c \<Rightarrow>
               if is_manifest_mode n \<and> \<not> has_openai_compat_backend name n
               then Inl (''backend `'' @ name @ ''` is not loaded (add it under Settings ''
                 @ map char_of [0xE2, 0x86, 0x92 :: nat] @ '' Backends, or reload after edits)'')
               else
                 (let model = (case nonblank (pu_model u) of Some m \<Rightarrow> m | None \<Rightarrow> bo_default_model c) in
                  Inr \<lparr>rl_openai = \<lparr>oc_base_url = bo_base_url c, oc_default_model = model,
                         oc_api_key = (if bo_api_key c = [] then None else Some (bo_api_key c)),
                         oc_description = None, oc_allow_override = False\<rparr>,
                       rl_model = model, rl_source = ''backend'', rl_backend = Some name\<rparr>))
      | None \<Rightarrow>
          (let model = (case nonblank (pu_model u) of Some m \<Rightarrow> m | None \<Rightarrow> pf_model env) in
           Inr \<lparr>rl_openai = \<lparr>oc_base_url = normalize_openai_base_url (pf_base_url env), oc_default_model = model,
                  oc_api_key = pf_api_key env, oc_description = None, oc_allow_override = False\<rparr>,
                rl_model = model, rl_source = ''env'', rl_backend = None\<rparr>))"

definition list_openai_compat_backends :: "('x) settings_env_scheme \<Rightarrow> string \<Rightarrow> disk \<Rightarrow> (string \<times> json) list" where
  "list_openai_compat_backends se dir dk =
     sort_key fst (List.map_filter
       (\<lambda>r. case r of
          Inr m \<Rightarrow>
            (case bm_kind m of
               OpenAICompat c \<Rightarrow> Some (bm_name m, json_obj [(''name'', JStr (bm_name m)),
                 (''kind'', JStr ''openai_compat''), (''base_url'', JStr (bo_base_url c)),
                 (''default_model'', JStr (bo_default_model c))])
             | _ \<Rightarrow> None)
        | Inl _ \<Rightarrow> None)
       (load_backend_dir (me_on se dk) (path_join dir ''backends'')))"

section \<open>The planner\<close>

text \<open>
  What \<open>build_runtime_from_resolved\<close> puts together: the model behind both planners, its name, the peer
  that compiles when confidence is below the threshold, the embedding endpoint of the retriever.
\<close>

record planner_setup =
  su_llm :: openai_config
  su_model :: string
  su_remote :: "(string \<times> rat) option"
  su_embeddings :: "(string \<times> string \<times> string option) option"

definition build_runtime_from_resolved :: "('x) settings_env_scheme \<Rightarrow> resolved_llm \<Rightarrow> planner_setup" where
  "build_runtime_from_resolved se r =
     \<lparr>su_llm = new_openai_backend ((rl_openai r)\<lparr>oc_allow_override := True\<rparr>),
      su_model = rl_model r,
      su_remote =
        (case env_var se ''N3UR0N_PLANNER_REMOTE_FALLBACK'' of
           None \<Rightarrow> None
         | Some e \<Rightarrow>
             if trim e = [] then None
             else Some (trim e,
               (case Option.bind (env_var se ''N3UR0N_PLANNER_CONFIDENCE_THRESHOLD'') (parse_f32 se) of
                  Some t \<Rightarrow> t | None \<Rightarrow> 1 / 2))),
      su_embeddings =
        (case env_var se ''N3UR0N_PLANNER_EMBED_MODEL'' of
           None \<Rightarrow> None
         | Some m \<Rightarrow>
             if trim m = [] then None
             else Some (normalize_openai_base_url
                 (case env_var se ''N3UR0N_PLANNER_EMBED_BASE_URL'' of Some u \<Rightarrow> u | None \<Rightarrow> oc_base_url (rl_openai r)),
               m, oc_api_key (rl_openai r)))\<rparr>"

definition build_runtime_with_user_config ::
  "('x) settings_env_scheme \<Rightarrow> string \<Rightarrow> live_node \<Rightarrow> planner_fallback \<Rightarrow> planner_user \<Rightarrow> disk
     \<Rightarrow> (string, planner_setup) result" where
  "build_runtime_with_user_config se dir n env u dk =
     (case resolve_planner_llm se dir n env u dk of
        Inl e \<Rightarrow> Inl e
      | Inr r \<Rightarrow> Inr (build_runtime_from_resolved se r))"

text \<open>The handle through which the settings routes replace it; no setup while the planner is off.\<close>

record planner_handle =
  ph_setup :: "planner_setup option"
  ph_env :: planner_fallback

definition hot_reload_planner_runtime ::
  "('x) settings_env_scheme \<Rightarrow> string \<Rightarrow> live_node \<Rightarrow> planner_user \<Rightarrow> disk \<Rightarrow> planner_handle
     \<Rightarrow> (string, resolved_llm) result \<times> planner_handle" where
  "hot_reload_planner_runtime se dir n u dk h =
     (case build_runtime_with_user_config se dir n (ph_env h) u dk of
        Inl e \<Rightarrow> (Inl e, h)
      | Inr rt \<Rightarrow>
          (case resolve_planner_llm se dir n (ph_env h) u dk of
             Inl e \<Rightarrow> (Inl e, h)
           | Inr r \<Rightarrow> (Inr r, h\<lparr>ph_setup := Some rt\<rparr>)))"

definition hot_reload_planner_after_backend_change ::
  "('x) settings_env_scheme \<Rightarrow> string \<Rightarrow> live_node \<Rightarrow> string \<Rightarrow> disk \<Rightarrow> planner_handle
     \<Rightarrow> (string, resolved_llm option) result \<times> planner_handle" where
  "hot_reload_planner_after_backend_change se dir n name dk h =
     (if ph_setup h = None then (Inr None, h)
      else
        let u = load_planner_user_config se dir dk in
        if pu_backend u \<noteq> Some name then (Inr None, h)
        else (case hot_reload_planner_runtime se dir n u dk h of
                (Inl e, h1) \<Rightarrow> (Inl e, h1)
              | (Inr r, h1) \<Rightarrow> (Inr (Some r), h1)))"

section \<open>Starting\<close>

definition default_config_dir :: "('x) settings_env_scheme \<Rightarrow> string" where
  "default_config_dir se =
     (case env_var se ''XDG_CONFIG_HOME'' of
        Some x \<Rightarrow> path_join x ''n3ur0n''
      | None \<Rightarrow>
          (case env_var se ''HOME'' of
             Some home \<Rightarrow> path_join home ''.config/n3ur0n''
           | None \<Rightarrow> ''.n3ur0n''))"

definition default_manifest_dir :: "string \<Rightarrow> string" where
  "default_manifest_dir dir = path_join dir ''manifests''"

definition has_manifests :: "string \<Rightarrow> disk \<Rightarrow> bool" where
  "has_manifests dir dk =
     list_ex (\<lambda>sub. case disk_dir dk (path_join dir sub) of
        Some ps \<Rightarrow> list_ex has_toml_extension ps | None \<Rightarrow> False) [''caps'', ''backends'']"

definition env_published_caps :: "('x) settings_env_scheme \<Rightarrow> string list" where
  "env_published_caps se =
     (case env_var se ''N3UR0N_CAPS'' of
        None \<Rightarrow> []
      | Some raw \<Rightarrow>
          filter (\<lambda>s. s \<noteq> []) (map trim (split_chars (\<lambda>c. c = '','' \<or> is_whitespace c) (chars raw))))"

definition apply_published_caps :: "('x) settings_env_scheme \<Rightarrow> binding registry \<Rightarrow> binding registry" where
  "apply_published_caps se r =
     (if env_published_caps se = [] then r else snd (retain_published (env_published_caps se) r))"

datatype backend_choice = UseEcho | UseOpenAI openai_config | UseManifest string

text \<open>What the chosen compile-time backend declares of itself.\<close>

fun legacy_decls :: "backend_choice \<Rightarrow> capability_decl list" where
  "legacy_decls UseEcho = [echo_decl]"
| "legacy_decls (UseOpenAI c) = [openai_decl (new_openai_backend c)]"
| "legacy_decls (UseManifest _) = []"

definition load_backends_only :: "('x) settings_env_scheme \<Rightarrow> string \<Rightarrow> disk \<Rightarrow> backends" where
  "load_backends_only se dir dk =
     (case backends_from (ok_manifests (load_backend_dir (me_on se dk) (path_join dir ''backends''))) Map.empty of
        Inl _ \<Rightarrow> Map.empty
      | Inr bs \<Rightarrow> bs)"

definition load_manifest_registry ::
  "('x) settings_env_scheme \<Rightarrow> string \<Rightarrow> disk \<Rightarrow> (string, binding registry \<times> backends) result" where
  "load_manifest_registry se dir dk =
     (case backends_from (ok_manifests (load_backend_dir (me_on se dk) (path_join dir ''backends''))) Map.empty of
        Inl e \<Rightarrow> Inl (''backends registry: '' @ node_error_text e)
      | Inr bs \<Rightarrow> Inr (from_entries (loadable bs (load_cap_dir (me_on se dk) (path_join dir ''caps''))), bs))"

text \<open>The identity file is read, and the database opened, outside the model.\<close>

definition load_node ::
  "('x) settings_env_scheme \<Rightarrow> ('y) crypto_scheme \<Rightarrow> (string, keypair) result \<Rightarrow> string \<Rightarrow> string option
     \<Rightarrow> backend_choice \<Rightarrow> string list \<Rightarrow> string option \<Rightarrow> disk \<Rightarrow> (string, live_node) result" where
  "load_node se cr identity dir endpoint choice lobes alias dk =
     (case identity of
        Inl _ \<Rightarrow> Inl (''loading identity from '' @ path_join dir ''keys.json'')
      | Inr kp \<Rightarrow>
          (let cfg = \<lparr>nc_endpoint = endpoint, nc_alias = alias, nc_lobes = lobes, nc_verify = default_verify_config,
                 nc_blobs_dir = Some (path_join (path_join dir ''blobs'') ''sha256'')\<rparr> in
           (case choice of
              UseManifest md \<Rightarrow>
                (case load_manifest_registry se md dk of
                   Inl e \<Rightarrow> Inl e
                 | Inr (reg, bs) \<Rightarrow>
                     Inr (with_manifest_runtime bs md (new_node cr kp (apply_published_caps se reg) cfg)))
            | _ \<Rightarrow>
                (let md = default_manifest_dir dir in
                 Inr (with_manifest_runtime (load_backends_only se md dk) md
                   (new_node cr kp (apply_published_caps se (from_decls (legacy_decls choice))) cfg))))))"

text \<open>The arguments of \<open>serve\<close> that decide what runs.\<close>

record serve_args =
  sv_config_dir :: "string option"
  sv_endpoint :: "string option"
  sv_bootstrap :: "string list"
  sv_lobe :: "string list"
  sv_alias :: "string option"
  sv_manifest_dir :: "string option"
  sv_backend :: string
  sv_openai_base_url :: "string option"
  sv_openai_model :: "string option"
  sv_openai_api_key :: "string option"
  sv_planner_mode :: string
  sv_planner_base_url :: "string option"
  sv_planner_model :: "string option"
  sv_planner_api_key :: "string option"

definition plain_openai :: "string \<Rightarrow> string \<Rightarrow> string option \<Rightarrow> openai_config" where
  "plain_openai url model key =
     \<lparr>oc_base_url = url, oc_default_model = model, oc_api_key = key, oc_description = None, oc_allow_override = False\<rparr>"

definition parse_backend_kind ::
  "string \<Rightarrow> string option \<Rightarrow> string option \<Rightarrow> string option \<Rightarrow> (string, backend_choice) result" where
  "parse_backend_kind kind url model key =
     (let k = to_ascii_lowercase kind in
      if k = ''echo'' then Inr UseEcho
      else if k = ''openai'' \<or> k = ''ollama'' then
        (case (case url of Some u \<Rightarrow> Some u | None \<Rightarrow> if k = ''ollama'' then Some ''http://localhost:11434'' else None) of
           None \<Rightarrow> Inl ''--openai-base-url (or env N3UR0N_OPENAI_BASE_URL) required when --backend openai''
         | Some u \<Rightarrow>
             (case model of
                None \<Rightarrow> Inl ''--openai-model (or env N3UR0N_OPENAI_MODEL) required when --backend openai''
              | Some m \<Rightarrow> Inr (UseOpenAI (plain_openai u m key))))
      else Inl (''unknown backend: '' @ k))"

definition build_openai_config ::
  "string option \<Rightarrow> string option \<Rightarrow> string option \<Rightarrow> (string, openai_config) result" where
  "build_openai_config url model key =
     (case url of
        None \<Rightarrow> Inl (''--planner-llm-base-url (or env N3UR0N_PLANNER_LLM_BASE_URL) ''
          @ ''required for LLM-backed planner'')
      | Some u \<Rightarrow>
          (case model of
             None \<Rightarrow> Inl (''--planner-llm-model (or env N3UR0N_PLANNER_LLM_MODEL) ''
               @ ''required for LLM-backed planner'')
           | Some m \<Rightarrow> Inr (plain_openai u m key)))"

text \<open>\<open>PlannerKind::PlanExec\<close> with its model hint.\<close>

definition parse_planner_kind ::
  "string \<Rightarrow> string option \<Rightarrow> string option \<Rightarrow> string option \<Rightarrow> (string, (openai_config \<times> string option) option) result" where
  "parse_planner_kind kind url model key =
     (let k = to_ascii_lowercase kind in
      if k \<in> set [''none'', [], ''off''] then Inr None
      else if k \<in> set [''plan_exec'', ''plan-exec'', ''plan'', ''ptx'', ''llm'', ''ollama''] then
        (case build_openai_config url model key of
           Inl e \<Rightarrow> Inl e
         | Inr c \<Rightarrow> Inr (Some (c, model)))
      else Inl (''unknown planner mode: '' @ k))"

definition planner_fallback_of :: "openai_config \<times> string option \<Rightarrow> planner_fallback" where
  "planner_fallback_of k =
     \<lparr>pf_base_url = oc_base_url (fst k),
      pf_model = (case snd k of Some m \<Rightarrow> m | None \<Rightarrow> oc_default_model (fst k)),
      pf_api_key = oc_api_key (fst k)\<rparr>"

definition serve_backend :: "serve_args \<Rightarrow> string \<Rightarrow> disk \<Rightarrow> (string, backend_choice) result" where
  "serve_backend args dir dk =
     (case (case sv_manifest_dir args of
              Some d \<Rightarrow> Some d
            | None \<Rightarrow> if has_manifests (default_manifest_dir dir) dk then Some (default_manifest_dir dir) else None) of
        Some d \<Rightarrow> Inr (UseManifest d)
      | None \<Rightarrow> parse_backend_kind (sv_backend args) (sv_openai_base_url args) (sv_openai_model args)
                 (sv_openai_api_key args))"

record started =
  st_node :: live_node
  st_peers :: "string list"
  st_planner :: "planner_handle option"

text \<open>\<open>serve\<close> up to the moment it listens; an error ends the process.\<close>

definition serve_setup ::
  "('x) settings_env_scheme \<Rightarrow> ('y) crypto_scheme \<Rightarrow> (string, keypair) result \<Rightarrow> serve_args \<Rightarrow> disk
     \<Rightarrow> (string, started) result" where
  "serve_setup se cr identity args dk =
     (let dir = (case sv_config_dir args of Some d \<Rightarrow> d | None \<Rightarrow> default_config_dir se);
          peers = resolve_startup_peers se (filter (\<lambda>s. s \<noteq> []) (map trim (sv_bootstrap args))) dir dk;
          lobes = resolve_startup_lobes se (concat (map parse_lobe_list (sv_lobe args))) dir dk;
          alias = resolve_startup_alias se (sv_alias args) dir dk
      in (case serve_backend args dir dk of
            Inl e \<Rightarrow> Inl e
          | Inr choice \<Rightarrow>
              (case load_node se cr identity dir (sv_endpoint args) choice lobes alias dk of
                 Inl e \<Rightarrow> Inl e
               | Inr n \<Rightarrow>
                   (case parse_planner_kind (sv_planner_mode args) (sv_planner_base_url args) (sv_planner_model args)
                           (sv_planner_api_key args) of
                      Inl e \<Rightarrow> Inl e
                    | Inr None \<Rightarrow> Inr \<lparr>st_node = n, st_peers = peers, st_planner = None\<rparr>
                    | Inr (Some k) \<Rightarrow>
                        (case build_runtime_with_user_config se dir n (planner_fallback_of k)
                                (load_planner_user_config se dir dk) dk of
                           Inl e \<Rightarrow> Inl e
                         | Inr rt \<Rightarrow> Inr \<lparr>st_node = n, st_peers = peers,
                             st_planner = Some \<lparr>ph_setup = Some rt, ph_env = planner_fallback_of k\<rparr>\<rparr>)))))"

section \<open>Lemmas\<close>

text \<open>A segment that names something.\<close>

definition proper_segment :: "string \<Rightarrow> bool" where
  "proper_segment s \<longleftrightarrow> s \<noteq> [] \<and> s \<noteq> ''.'' \<and> s \<noteq> ''..'' \<and> CHR ''/'' \<notin> set s"

lemma split_on_middle: "split_on x (a @ x # b) = split_on x a @ split_on x b"
  by (induction a) (auto split: list.split simp: split_on_nonempty)

lemma locate_append: "locate (p @ ''/'' @ s) = fold enter (split_on CHR ''/'' s) (locate p)"
  by (simp add: locate_def split_on_middle)

lemma locate_slash: "locate (p @ ''/'') = locate p"
  using locate_append [of p "[]"] by (simp add: enter_def)

lemma locate_path_join:
  assumes "\<not> starts_with ''/'' s"
  shows "locate (path_join p s) = fold enter (split_on CHR ''/'' s) (locate p)"
proof -
  consider "p = []" | q where "p = q @ ''/''" | "p \<noteq> []" "\<not> ends_with ''/'' p"
    by (auto simp: ends_with_iff)
  then show ?thesis
  proof cases
    case 1
    then show ?thesis using assms by (simp add: path_join_def locate_def enter_def)
  next
    case (2 q)
    then have "path_join p s = q @ ''/'' @ s" using assms by (simp add: path_join_def ends_with_iff)
    then show ?thesis using 2 locate_append [of q s] locate_slash [of q] by simp
  next
    case 3
    then have "path_join p s = p @ ''/'' @ s" using assms by (simp add: path_join_def)
    then show ?thesis by (simp only: locate_append)
  qed
qed

lemma locate_join [simp]:
  assumes "proper_segment s"
  shows "locate (path_join p s) = locate p @ [s]"
proof -
  have "split_on CHR ''/'' s = [s]" using split_on_single [of "CHR ''/''" s] assms by (simp add: proper_segment_def)
  moreover have "\<not> starts_with ''/'' s" using assms by (cases s) (auto simp: proper_segment_def starts_with_def)
  ultimately show ?thesis using assms by (simp add: locate_path_join enter_def proper_segment_def)
qed

lemma proper_segments [simp]:
  "proper_segment ''instance.toml''" "proper_segment ''bootstrap.toml''" "proper_segment ''planner.toml''"
  "proper_segment ''caps''" "proper_segment ''backends''" "proper_segment ''manifests''"
  by (simp_all add: proper_segment_def)

text \<open>Files after a change.\<close>

lemma disk_get_put: "disk_get q (disk_put p c dk) = (if locate q = locate p then Some c else disk_get q dk)"
  by (simp add: disk_get_def disk_put_def map_of_filter_key)

lemma disk_get_del: "disk_get q (disk_del p dk) = (if locate q = locate p then None else disk_get q dk)"
  by (simp add: disk_get_def disk_del_def map_of_filter_key)

text \<open>
  What is relied on: TOML that was written reads back. A calm file system reads every file, and a
  write that fails leaves the file alone.
\<close>

definition toml_law :: "('x) settings_env_scheme \<Rightarrow> bool" where
  "toml_law se \<longleftrightarrow> (\<forall>j t. toml_write se j = Inr t \<longrightarrow> toml_read se t = Inr j)"

definition calm :: "('x) settings_env_scheme \<Rightarrow> bool" where
  "calm se \<longleftrightarrow> (\<forall>p. read_fault se p = None) \<and> (\<forall>p c e part. write_fault se p c = Some (e, part) \<longrightarrow> part = None)"

lemma instance_codec [simp]: "dec_instance_file (enc_instance_file c) = Some c"
  by (simp add: dec_instance_file_def enc_instance_file_def dec_instance_def enc_instance_def field_defs)

lemma bootstrap_codec [simp]: "dec_bootstrap_file (enc_bootstrap_file ps) = Some ps"
  by (simp add: dec_bootstrap_file_def enc_bootstrap_file_def dec_bootstrap_def field_defs)

lemma planner_codec [simp]: "dec_planner_file (enc_planner_file u) = Some u"
  by (simp add: dec_planner_file_def enc_planner_file_def dec_planner_def field_defs)

lemma write_disk_cases:
  assumes "write_disk se p c dk = (r, dk1)"
  obtains "dk1 = dk" "isl r" | part where "dk1 = disk_put p part dk" "r = Inr () \<longrightarrow> part = c" "isl r \<longrightarrow> \<not> calm se"
proof (cases "write_fault se p c")
  case None
  then show ?thesis using assms that(2) [of c] by (auto simp: write_disk_def)
next
  case (Some f)
  obtain e part where f: "f = (e, part)" by force
  show ?thesis
  proof (cases part)
    case None
    then show ?thesis using assms that(1) Some f by (auto simp: write_disk_def)
  next
    case (Some t)
    then have "\<not> calm se" using \<open>write_fault se p c = Some f\<close> f unfolding calm_def by blast
    then show ?thesis using assms that(2) [of t] Some \<open>write_fault se p c = Some f\<close> f by (auto simp: write_disk_def)
  qed
qed

lemma write_disk_other:
  "write_disk se p c dk = (r, dk1) \<Longrightarrow> locate q \<noteq> locate p \<Longrightarrow> disk_get q dk1 = disk_get q dk"
  by (erule write_disk_cases) (auto simp: disk_get_put)

lemma write_disk_ok: "write_disk se p c dk = (Inr u, dk1) \<Longrightarrow> dk1 = disk_put p c dk"
  by (auto elim!: write_disk_cases)

lemma remove_disk_other:
  "remove_disk se p dk = (r, dk1) \<Longrightarrow> locate q \<noteq> locate p \<Longrightarrow> disk_get q dk1 = disk_get q dk"
  by (auto simp: remove_disk_def disk_get_del split: option.splits)

lemma save_config_cases:
  assumes "save_config se dir name j dk = (r, dk1)"
  obtains "dk1 = dk" "isl r"
  | body r1 where "write_disk se (path_join dir name) body dk = (r1, dk1)" "isl r1 = isl r"
      "toml_write se j = Inr body"
  using assms by (auto simp: save_config_def split: option.splits sum.splits prod.splits)

lemma save_config_other:
  "save_config se dir name j dk = (r, dk1) \<Longrightarrow> locate q \<noteq> locate (path_join dir name)
     \<Longrightarrow> disk_get q dk1 = disk_get q dk"
  by (erule save_config_cases) (auto dest: write_disk_other)

lemma save_config_failed: "save_config se dir name j dk = (Inl e, dk1) \<Longrightarrow> calm se \<Longrightarrow> dk1 = dk"
  by (auto elim!: save_config_cases write_disk_cases)

lemma load_saved:
  assumes "save_config se dir name j dk = (Inr u, dk1)" "toml_law se" "read_fault se' (path_join dir name) = None"
    and "toml_read se' = toml_read se" "rd j = Some c"
  shows "load_config se' dir name rd dk1 = Some c"
  using assms(1)
proof (cases rule: save_config_cases)
  case (2 body r1)
  then have "write_disk se (path_join dir name) body dk = (Inr (), dk1)" by (cases r1) auto
  then have "dk1 = disk_put (path_join dir name) body dk" by (rule write_disk_ok)
  then show ?thesis using assms 2 by (simp add: load_config_def read_disk_def disk_get_put toml_law_def)
qed simp

lemma load_config_cong:
  "disk_get (path_join dir name) dk1 = disk_get (path_join dir name) dk
     \<Longrightarrow> load_config se dir name rd dk1 = load_config se dir name rd dk"
  by (cases "read_fault se (path_join dir name)") (simp_all add: load_config_def read_disk_def)

section \<open>What a node starts with\<close>

text \<open>The first occurrences of a list, in order.\<close>

definition firsts :: "'a list \<Rightarrow> 'a list" where
  "firsts xs = rev (remdups (rev xs))"

lemma firsts_simps: "firsts [] = []" "firsts (xs @ [x]) = (if x \<in> set xs then firsts xs else firsts xs @ [x])"
  by (simp_all add: firsts_def)

lemma firsts_set [simp]: "set (firsts xs) = set xs" "distinct (firsts xs)"
  by (simp_all add: firsts_def)

lemma firsts_distinct: "distinct xs \<Longrightarrow> firsts xs = xs"
  by (simp add: firsts_def distinct_remdups_id)

definition lobe_ok :: "string \<Rightarrow> bool" where
  "lobe_ok i \<longleftrightarrow> validate_lobe_id i = Inr ()"

lemma firsts_grow: "\<exists>ys. firsts (pre @ xs) = firsts pre @ ys"
proof (induction xs rule: rev_induct)
  case (snoc x xs)
  then obtain ys where "firsts (pre @ xs) = firsts pre @ ys" by blast
  then show ?case using firsts_simps(2) [of "pre @ xs" x] by (auto split: if_splits)
qed simp

lemma keep_lobes_are:
  "keep_lobes (firsts pre) raw = take MAX_LOBES_PER_INSTANCE (firsts (pre @ filter lobe_ok raw))"
  if "length (firsts pre) \<le> MAX_LOBES_PER_INSTANCE"
  using that
proof (induction raw arbitrary: pre)
  case (Cons i raw)
  show ?case
  proof (cases "validate_lobe_id i")
    case (Inl e)
    then show ?thesis using Cons by (simp add: lobe_ok_def)
  next
    case (Inr u)
    note ok = Inr
    then have step: "pre @ filter lobe_ok (i # raw) = (pre @ [i]) @ filter lobe_ok raw" by (simp add: lobe_ok_def)
    consider "i \<in> set pre" | "i \<notin> set pre" "length (firsts pre) = MAX_LOBES_PER_INSTANCE"
      | "i \<notin> set pre" "length (firsts pre) < MAX_LOBES_PER_INSTANCE" using Cons.prems by linarith
    then show ?thesis
    proof cases
      case 1
      then show ?thesis using Cons.IH [of "pre @ [i]"] Cons.prems ok unfolding step by (simp add: firsts_simps)
    next
      case 2
      obtain ys where "firsts (pre @ filter lobe_ok (i # raw)) = firsts pre @ ys" using firsts_grow by blast
      then show ?thesis using 2 ok by simp
    next
      case 3
      then show ?thesis using Cons.IH [of "pre @ [i]"] ok unfolding step by (simp add: firsts_simps)
    qed
  qed
qed simp

lemma kept_lobes: "keep_lobes [] raw = take MAX_LOBES_PER_INSTANCE (firsts (filter lobe_ok raw))"
  using keep_lobes_are [of "[]" raw] by (simp add: firsts_simps)

lemma validate_lobes_iff:
  "validate_instance_lobes ls = Inr () \<longleftrightarrow> length ls \<le> MAX_LOBES_PER_INSTANCE \<and> distinct ls \<and> list_all lobe_ok ls"
  by (auto simp: validate_instance_lobes_def validate_lobe_list_ok lobe_ok_def list_all_iff)

lemma accepted_lobes_kept: "validate_instance_lobes ls = Inr () \<Longrightarrow> keep_lobes [] ls = ls"
  by (simp add: validate_lobes_iff kept_lobes list_all_iff firsts_distinct)

text \<open>
  (lobes at start). The lobes a node starts with are the first five different valid ids of the
  flags, or of the environment when there are no flags, or else of the file; a set every later check
  accepts.
\<close>

theorem startup_lobes:
  "resolve_startup_lobes se cli dir dk =
     take 5 (firsts (filter (\<lambda>i. validate_lobe_id i = Inr ())
       (if cli \<noteq> [] then cli else if env_lobes se \<noteq> [] then env_lobes se
        else (case load_instance_user_config se dir dk of Some c \<Rightarrow> iu_lobes c | None \<Rightarrow> []))))
   \<and> validate_instance_lobes (resolve_startup_lobes se cli dir dk) = Inr ()"
proof -
  have "validate_instance_lobes (keep_lobes [] raw) = Inr ()" for raw
    by (auto simp: validate_lobes_iff kept_lobes list_all_iff dest: in_set_takeD)
  moreover have "keep_lobes [] raw = take 5 (firsts (filter (\<lambda>i. validate_lobe_id i = Inr ()) raw))" for raw
    unfolding kept_lobes lobe_ok_def [abs_def] by (simp add: MAX_LOBES_PER_INSTANCE_def)
  ultimately show ?thesis unfolding resolve_startup_lobes_def by auto
qed

end
