(* ===== verification/Toml_Text.thy ===== *)
theory Toml_Text
  imports Json
begin

text \<open>
  The TOML that \<open>server/settings.rs\<close> writes by hand: strings, keys and JSON values. The \<open>toml\<close>
  crate reads it back; \<open>basic_string\<close> and \<open>multi_string\<close> are the readers of its grammar (TOML 1.0)
  for the two kinds of string the code writes, and the lemmas compare the two.
\<close>

abbreviation (input) "dquote \<equiv> CHR 0x22"
abbreviation (input) "bslash \<equiv> CHR 0x5C"
abbreviation (input) "newline \<equiv> CHR 0x0A"
abbreviation (input) "creturn \<equiv> CHR 0x0D"
abbreviation (input) "tab \<equiv> CHR 0x09"

section \<open>Writing\<close>

definition subst_char :: "char \<Rightarrow> string \<Rightarrow> string \<Rightarrow> string" where
  "subst_char c r s = concat (map (\<lambda>x. if x = c then r else [x]) s)"

definition toml_escape :: "string \<Rightarrow> string" where
  "toml_escape s = subst_char dquote [bslash, dquote] (subst_char bslash [bslash, bslash] s)"

definition toml_str :: "string \<Rightarrow> string" where
  "toml_str s =
     [dquote] @ subst_char tab [bslash, CHR ''t''] (subst_char creturn [bslash, CHR ''r'']
       (subst_char newline [bslash, CHR ''n''] (toml_escape s))) @ [dquote]"

text \<open>\<open>replace\<close> with a pattern of three quotes: occurrences from the left that do not overlap.\<close>

fun escape_fences :: "string \<Rightarrow> string" where
  "escape_fences (a # b # c # s) =
     (if a = dquote \<and> b = dquote \<and> c = dquote
      then [bslash, dquote, bslash, dquote, bslash, dquote] @ escape_fences s
      else a # escape_fences (b # c # s))"
| "escape_fences s = s"

definition toml_fence :: string where
  "toml_fence = [dquote, dquote, dquote]"

definition toml_multiline :: "string \<Rightarrow> string" where
  "toml_multiline s =
     (if newline \<in> set s
      then toml_fence @ [newline] @ escape_fences s @ [newline] @ toml_fence
      else toml_str s)"

definition toml_key :: "string \<Rightarrow> string" where
  "toml_key k =
     (if list_all (\<lambda>c. is_ascii_alphanumeric c \<or> c = CHR ''_'') k then k
      else [dquote] @ subst_char dquote [bslash, dquote] k @ [dquote])"

fun json_to_toml_value :: "json \<Rightarrow> string" where
  "json_to_toml_value JNull = [dquote, dquote]"
| "json_to_toml_value (JBool b) = (if b then ''true'' else ''false'')"
| "json_to_toml_value (JInt i) = dec_int i"
| "json_to_toml_value (JFloat s) = s"
| "json_to_toml_value (JStr s) = toml_str s"
| "json_to_toml_value (JArr xs) = ''['' @ join '', '' (map json_to_toml_value xs) @ '']''"
| "json_to_toml_value (JObj es) =
     ''{ '' @ join '', '' (map (\<lambda>e. toml_key (fst e) @ '' = '' @ json_to_toml_value (snd e)) es) @ '' }''"

section \<open>Reading\<close>

text \<open>
  A basic string after its opening quote: the value and the text after the closing one. Control
  characters other than tab are not allowed. The escapes with hexadecimal digits are left out (a
  string that has one is not read): the writer makes none.
\<close>

definition toml_control :: "char \<Rightarrow> bool" where
  "toml_control c \<longleftrightarrow> (byte c < 32 \<and> c \<noteq> tab) \<or> byte c = 127"

definition unescape :: "char \<Rightarrow> char option" where
  "unescape c =
     map_of [(CHR ''b'', CHR 0x08), (CHR ''t'', tab), (CHR ''n'', newline), (CHR ''f'', CHR 0x0C),
       (CHR ''r'', creturn), (dquote, dquote), (bslash, bslash)] c"

fun basic_chars :: "string \<Rightarrow> (string \<times> string) option" where
  "basic_chars [] = None"
| "basic_chars (c # s) =
     (if c = dquote then Some ([], s)
      else if c = bslash then
        (case s of
           [] \<Rightarrow> None
         | e # s' \<Rightarrow>
             (case unescape e of
                None \<Rightarrow> None
              | Some x \<Rightarrow> map_option (\<lambda>(t, r). (x # t, r)) (basic_chars s')))
      else if toml_control c then None
      else map_option (\<lambda>(t, r). (c # t, r)) (basic_chars s))"

definition basic_string :: "string \<Rightarrow> (string \<times> string) option" where
  "basic_string s = Option.bind (strip_prefix [dquote] s) basic_chars"

text \<open>
  A multi-line basic string: a line break right after the opening fence is dropped, and the next
  three quotes that are not escaped close it (a fourth or fifth would belong to the text; the
  closing fence the code writes has neither).
\<close>

fun multi_chars :: "string \<Rightarrow> (string \<times> string) option" where
  "multi_chars [] = None"
| "multi_chars (c # s) =
     (if starts_with toml_fence (c # s) then Some ([], drop 3 (c # s))
      else if c = bslash then
        (case s of
           [] \<Rightarrow> None
         | e # s' \<Rightarrow>
             (case unescape e of
                None \<Rightarrow> None
              | Some x \<Rightarrow> map_option (\<lambda>(t, r). (x # t, r)) (multi_chars s')))
      else if toml_control c \<and> c \<noteq> newline then None
      else map_option (\<lambda>(t, r). (c # t, r)) (multi_chars s))"

definition multi_string :: "string \<Rightarrow> (string \<times> string) option" where
  "multi_string s =
     Option.bind (strip_prefix toml_fence s)
       (\<lambda>r. multi_chars (case r of c # r' \<Rightarrow> if c = newline then r' else r | [] \<Rightarrow> []))"

section \<open>What is read back\<close>

text \<open>The replacements, one after the other, act on each character on its own.\<close>

definition escaped :: "char \<Rightarrow> string" where
  "escaped c =
     (if c = bslash then [bslash, bslash] else if c = dquote then [bslash, dquote] else [c])"

definition escaped_line :: "char \<Rightarrow> string" where
  "escaped_line c =
     (if c = newline then [bslash, CHR ''n''] else if c = creturn then [bslash, CHR ''r'']
      else if c = tab then [bslash, CHR ''t''] else escaped c)"

lemma subst_char_append [simp]: "subst_char c r (s @ t) = subst_char c r s @ subst_char c r t"
  by (simp add: subst_char_def)

lemma subst_char_simps [simp]:
  "subst_char c r [] = []" "subst_char c r (x # s) = (if x = c then r else [x]) @ subst_char c r s"
  by (simp_all add: subst_char_def)

lemma toml_escape_each: "toml_escape s = concat (map escaped s)"
  by (induction s) (auto simp: toml_escape_def escaped_def)

lemma toml_str_each: "toml_str s = [dquote] @ concat (map escaped_line s) @ [dquote]"
proof -
  have "subst_char tab [bslash, CHR ''t''] (subst_char creturn [bslash, CHR ''r'']
      (subst_char newline [bslash, CHR ''n''] (concat (map escaped s)))) = concat (map escaped_line s)"
    by (induction s) (auto simp: escaped_def escaped_line_def)
  then show ?thesis by (simp add: toml_str_def toml_escape_each)
qed

lemma unescape_simps [simp]:
  "unescape (CHR ''t'') = Some tab" "unescape (CHR ''n'') = Some newline" "unescape (CHR ''r'') = Some creturn"
  "unescape dquote = Some dquote" "unescape bslash = Some bslash"
  by (simp_all add: unescape_def)

text \<open>Whatever is written for a character is read as that character, or refused for good.\<close>

lemma read_escaped_char:
  "basic_chars (escaped c @ s) = (if toml_control c then None else map_option (\<lambda>(t, r). (c # t, r)) (basic_chars s))"
  by (auto simp: escaped_def toml_control_def)

lemma read_escaped_line:
  "basic_chars (escaped_line c @ s) =
     (if toml_control c \<and> c \<noteq> newline \<and> c \<noteq> creturn then None
      else map_option (\<lambda>(t, r). (c # t, r)) (basic_chars s))"
  by (auto simp: escaped_line_def read_escaped_char) (auto simp: toml_control_def)

lemma toml_escape_read:
  "basic_string (dquote # toml_escape s @ dquote # rest) =
     (if list_ex toml_control s then None else Some (s, rest))"
proof -
  have "basic_chars (concat (map escaped s) @ dquote # rest) =
      (if list_ex toml_control s then None else Some (s, rest))"
    by (induction s) (auto simp: read_escaped_char)
  then show ?thesis by (simp add: basic_string_def toml_escape_each strip_prefix_def starts_with_def)
qed

lemma toml_str_read:
  "basic_string (toml_str s @ rest) =
     (if list_ex (\<lambda>c. toml_control c \<and> c \<noteq> newline \<and> c \<noteq> creturn) s then None else Some (s, rest))"
proof -
  have "basic_chars (concat (map escaped_line s) @ dquote # rest) =
      (if list_ex (\<lambda>c. toml_control c \<and> c \<noteq> newline \<and> c \<noteq> creturn) s then None else Some (s, rest))"
    by (induction s) (auto simp: read_escaped_line)
  then show ?thesis by (simp add: basic_string_def toml_str_each strip_prefix_def starts_with_def)
qed

text \<open>No unescaped fence is left in the text of a multi-line string.\<close>

lemma fence_prefix:
  "starts_with [dquote] (escape_fences s @ newline # r) \<Longrightarrow> starts_with [dquote] s"
  "starts_with [dquote, dquote] (escape_fences s @ newline # r) \<Longrightarrow> starts_with [dquote, dquote] s"
proof -
  show one: "starts_with [dquote] s" if "starts_with [dquote] (escape_fences s @ newline # r)" for s
    using that by (cases s rule: escape_fences.cases) (auto simp: starts_with_def split: if_splits)
  show "starts_with [dquote, dquote] s" if "starts_with [dquote, dquote] (escape_fences s @ newline # r)"
  proof (cases s rule: escape_fences.cases)
    case (1 a b c t)
    then show ?thesis using that one [of "b # c # t"] by (auto simp: starts_with_def split: if_splits)
  qed (use that in \<open>auto simp: starts_with_def\<close>)
qed

lemma no_fence: "\<not> starts_with toml_fence (escape_fences s @ newline # r)"
proof (cases s rule: escape_fences.cases)
  case (1 a b c t)
  then show ?thesis using fence_prefix(2) [of "b # c # t" r]
    by (auto simp: starts_with_def toml_fence_def)
qed (auto simp: starts_with_def toml_fence_def)

declare multi_chars.simps [simp del]

lemma multi_plain:
  assumes "\<not> starts_with toml_fence (c # s)" "c \<noteq> bslash" "c = newline \<or> \<not> toml_control c"
  shows "multi_chars (c # s) = map_option (\<lambda>(t, r). (c # t, r)) (multi_chars s)"
  using assms by (auto simp: multi_chars.simps)

lemma multi_quote:
  "multi_chars (bslash # dquote # s) = map_option (\<lambda>(t, r). (dquote # t, r)) (multi_chars s)"
  by (simp add: multi_chars.simps starts_with_def toml_fence_def)

lemma multi_close: "multi_chars (newline # toml_fence @ r) = Some ([newline], r)"
  by (simp add: multi_chars.simps starts_with_def toml_fence_def)

lemma multi_short:
  assumes "a \<noteq> bslash \<and> (a = newline \<or> \<not> toml_control a)"
  shows "multi_chars (a # newline # toml_fence @ r) = Some ([a, newline], r)"
    and "b \<noteq> bslash \<and> (b = newline \<or> \<not> toml_control b) \<Longrightarrow>
      multi_chars (a # b # newline # toml_fence @ r) = Some ([a, b, newline], r)"
  using assms no_fence [of "[a]" "toml_fence @ r"] no_fence [of "[a, b]" "toml_fence @ r"]
    no_fence [of "[b]" "toml_fence @ r"]
  by (simp_all add: multi_plain multi_close)

lemma read_fences:
  assumes "list_all (\<lambda>c. c \<noteq> bslash \<and> (c = newline \<or> \<not> toml_control c)) s"
  shows "multi_chars (escape_fences s @ newline # toml_fence @ r) = Some (s @ [newline], r)"
  using assms
proof (induction s rule: escape_fences.induct)
  case (1 a b c s)
  show ?case
  proof (cases "a = dquote \<and> b = dquote \<and> c = dquote")
    case True
    then show ?thesis using 1 by (simp add: multi_quote)
  next
    case False
    then have e: "escape_fences (a # b # c # s) = a # escape_fences (b # c # s)" by auto
    have "multi_chars (escape_fences (a # b # c # s) @ newline # toml_fence @ r)
        = map_option (\<lambda>(t, r). (a # t, r)) (multi_chars (escape_fences (b # c # s) @ newline # toml_fence @ r))"
      using "1.prems" no_fence [of "a # b # c # s" "toml_fence @ r"] unfolding e
      by (simp del: escape_fences.simps add: multi_plain)
    also have "multi_chars (escape_fences (b # c # s) @ newline # toml_fence @ r) = Some ((b # c # s) @ [newline], r)"
      using "1.IH"(2) [OF False] "1.prems" by simp
    finally show ?thesis by simp
  qed
qed (simp_all add: multi_close multi_short)


text \<open>
  (a prompt of several lines grows). A text of several lines, without backslashes and control
  characters, is written as a multi-line string that reads back with a line break more at its end:
  every time a manifest is read and saved again its prompt is one line longer.
\<close>

theorem prompt_gains_line:
  assumes "newline \<in> set s" "list_all (\<lambda>c. c \<noteq> bslash \<and> (c = newline \<or> \<not> toml_control c)) s"
  shows "multi_string (toml_multiline s @ rest) = Some (s @ [newline], rest)"
  using assms read_fences [OF assms(2), of rest]
  by (simp add: multi_string_def toml_multiline_def strip_prefix_def starts_with_def toml_fence_def)

lemma prompt_gains_line_witness:
  "multi_string (toml_multiline [CHR ''a'', newline, CHR ''b'']) = Some ([CHR ''a'', newline, CHR ''b'', newline], [])"
  using prompt_gains_line [of "[CHR ''a'', newline, CHR ''b'']" "[]"] by (simp add: toml_control_def)

end
