(* ===== verification/Server_Settings.thy ===== *)
theory Server_Settings
  imports Server_Config Toml_Text Node_Discovery
begin

text \<open>
  \<open>server/settings.rs\<close> and the planner and bootstrap settings of \<open>server/http.rs\<close>: the routes that
  edit the files of a node and reload what it runs. A request body arrives decoded; a hash map of a
  body is the list of its entries in iteration order.
\<close>

section \<open>The state behind the routes\<close>

record settings_app =
  sa_node :: live_node
  sa_disk :: disk
  sa_planner :: "planner_handle option"

definition manifest_dir_of :: "string \<Rightarrow> live_node \<Rightarrow> string" where
  "manifest_dir_of dir n = (case ln_manifest_dir n of Some d \<Rightarrow> d | None \<Rightarrow> dir)"

definition settings_error :: "nat \<Rightarrow> string \<Rightarrow> response" where
  "settings_error code msg = respond code (json_obj [(''error'', JStr msg)])"

definition json_or_null :: "('a \<Rightarrow> json) \<Rightarrow> 'a option \<Rightarrow> json" where
  "json_or_null f x = (case x of None \<Rightarrow> JNull | Some v \<Rightarrow> f v)"

definition jnat :: "nat \<Rightarrow> json" where
  "jnat n = JInt (int n)"

text \<open>The names of manifests.\<close>

definition name_char :: "char \<Rightarrow> bool" where
  "name_char c \<longleftrightarrow> is_ascii_alphanumeric c \<or> c = CHR ''_'' \<or> c = CHR ''-''"

definition valid_name :: "string \<Rightarrow> bool" where
  "valid_name s \<longleftrightarrow> s \<noteq> [] \<and> list_all name_char s"

section \<open>Alias and lobes\<close>

definition get_alias :: "('y) crypto_scheme \<Rightarrow> settings_app \<Rightarrow> response" where
  "get_alias cr a =
     respond 200 (json_obj [(''alias'', json_or_null JStr (nd_alias (sa_node a))),
       (''instance_id'', JStr (keypair_id cr (nd_keypair (sa_node a)))), (''max_len'', jnat ALIAS_MAX_LEN)])"

definition instance_or_default :: "('x) settings_env_scheme \<Rightarrow> string \<Rightarrow> disk \<Rightarrow> instance_config" where
  "instance_or_default se dir dk =
     (case load_instance_user_config se dir dk of Some c \<Rightarrow> c | None \<Rightarrow> \<lparr>iu_alias = None, iu_lobes = []\<rparr>)"

definition put_alias ::
  "('x) settings_env_scheme \<Rightarrow> string \<Rightarrow> string option \<Rightarrow> settings_app \<Rightarrow> response \<times> settings_app" where
  "put_alias se dir asked a =
     (let al = nonblank asked in
      case map_option validate_alias al of
        Some (Inl e) \<Rightarrow> (settings_error 400 (core_error_text e), a)
      | _ \<Rightarrow>
          (case save_instance_user_config se dir ((instance_or_default se dir (sa_disk a))\<lparr>iu_alias := al\<rparr>)
                  (sa_disk a) of
             (Inl e, dk) \<Rightarrow> (settings_error 500 e, a\<lparr>sa_disk := dk\<rparr>)
           | (Inr _, dk) \<Rightarrow>
               (respond 200 (json_obj [(''ok'', JBool True), (''alias'', json_or_null JStr al)]),
                a\<lparr>sa_disk := dk, sa_node := set_node_alias al (sa_node a)\<rparr>)))"

definition get_lobes :: "settings_app \<Rightarrow> response" where
  "get_lobes a =
     respond 200 (json_obj [(''lobe_ids'', enc_list JStr (nd_lobes (sa_node a))),
       (''max'', jnat MAX_LOBES_PER_INSTANCE)])"

definition put_lobes ::
  "('x) settings_env_scheme \<Rightarrow> string \<Rightarrow> string list \<Rightarrow> settings_app \<Rightarrow> response \<times> settings_app" where
  "put_lobes se dir asked a =
     (let ls = filter (\<lambda>l. l \<noteq> []) (map trim asked) in
      case validate_instance_lobes ls of
        Inl e \<Rightarrow> (settings_error 400 (core_error_text e), a)
      | Inr _ \<Rightarrow>
          (let c = \<lparr>iu_alias = Option.bind (load_instance_user_config se dir (sa_disk a)) iu_alias, iu_lobes = ls\<rparr> in
           (case save_instance_user_config se dir c (sa_disk a) of
              (Inl e, dk) \<Rightarrow> (settings_error 500 e, a\<lparr>sa_disk := dk\<rparr>)
            | (Inr _, dk) \<Rightarrow>
                (let (r, n) = reload_caps (me_on se dk) (set_lobes ls (sa_node a)) in
                 (respond 200 (json_obj [(''ok'', JBool True), (''lobe_ids'', enc_list JStr (nd_lobes n)),
                    (''caps_reloaded'', (case r of Inr k \<Rightarrow> jnat k | Inl _ \<Rightarrow> JNull))]),
                  a\<lparr>sa_disk := dk, sa_node := n\<rparr>)))))"

section \<open>Backends\<close>

record backend_request =
  cb_name :: string
  cb_kind :: string
  cb_base_url :: "string option"
  cb_default_model :: "string option"
  cb_api_key :: "string option"
  cb_api_key_keep :: bool
  cb_transport :: "string option"
  cb_command :: "string option"
  cb_args :: "string list"
  cb_env :: "(string \<times> string) list"
  cb_headers :: "(string \<times> string) list"

definition text_lines :: "string list \<Rightarrow> string" where
  "text_lines ls = concat (map (\<lambda>l. l @ [newline]) ls)"

definition quoted :: "string \<Rightarrow> string" where
  "quoted s = [dquote] @ s @ [dquote]"

definition backend_header :: "string \<Rightarrow> string \<Rightarrow> string" where
  "backend_header name kind =
     text_lines [''[manifest]'', ''version = \"0.1\"'', [], ''[backend]'', ''name = '' @ quoted name,
       ''kind = '' @ quoted kind, []]"

definition openai_backend_text :: "string \<Rightarrow> string \<Rightarrow> string \<Rightarrow> string \<Rightarrow> string" where
  "openai_backend_text name url model key =
     backend_header name ''openai_compat''
     @ text_lines [''[openai_compat]'', ''base_url      = '' @ quoted (toml_escape url),
         ''default_model = '' @ quoted (toml_escape model), ''api_key       = '' @ quoted (toml_escape key)]"

definition mcp_backend_text :: "string \<Rightarrow> string \<Rightarrow> string \<Rightarrow> string list \<Rightarrow> (string \<times> string) list \<Rightarrow> string" where
  "mcp_backend_text name transport command args env =
     backend_header name ''mcp_server''
     @ text_lines [''[mcp_server]'', ''transport = '' @ quoted transport, ''command   = '' @ quoted (toml_escape command)]
     @ (if args = [] then []
        else text_lines [''args = ['' @ join '', '' (map (\<lambda>x. quoted (toml_escape x)) args) @ '']''])
     @ (if env = [] then []
        else text_lines ([[], ''[mcp_server.env]''] @ map (\<lambda>(k, v). k @ '' = '' @ quoted (toml_escape v)) env))"

definition http_backend_text :: "string \<Rightarrow> string \<Rightarrow> (string \<times> string) list \<Rightarrow> string" where
  "http_backend_text name url headers =
     backend_header name ''http_base''
     @ text_lines [''[http_base]'', ''base_url = '' @ quoted (toml_escape url)]
     @ (if headers = [] then []
        else text_lines ([[], ''[http_base.headers]'']
          @ map (\<lambda>(k, v). quoted (subst_char dquote [bslash, dquote] k) @ '' = '' @ quoted (toml_escape v)) headers))"

text \<open>The key an edit keeps is looked up in the configuration directory.\<close>

definition kept_api_key :: "('x) settings_env_scheme \<Rightarrow> string \<Rightarrow> string \<Rightarrow> disk \<Rightarrow> string" where
  "kept_api_key se dir name dk =
     (case parse_backend_file (me_on se dk) (manifest_path dir ''backends'' name) of
        Inl _ \<Rightarrow> []
      | Inr m \<Rightarrow> (case bm_kind m of OpenAICompat c \<Rightarrow> bo_api_key c | _ \<Rightarrow> []))"

definition backend_body :: "('x) settings_env_scheme \<Rightarrow> string \<Rightarrow> string \<Rightarrow> backend_request \<Rightarrow> disk \<Rightarrow> (response, string) result"
where
  "backend_body se dir name rq dk =
     (if cb_kind rq = ''openai_compat'' then
        (case cb_base_url rq of
           None \<Rightarrow> Inl (settings_error 400 ''base_url required for openai_compat'')
         | Some raw \<Rightarrow>
             (case cb_default_model rq of
                None \<Rightarrow> Inl (settings_error 400 ''default_model required for openai_compat'')
              | Some model \<Rightarrow>
                  Inr (openai_backend_text name (normalize_openai_base_url raw) model
                    (if cb_api_key rq = None \<and> cb_api_key_keep rq then kept_api_key se dir name dk
                     else (case cb_api_key rq of Some k \<Rightarrow> k | None \<Rightarrow> [])))))
      else if cb_kind rq = ''mcp_server'' then
        (let t = (case cb_transport rq of Some t \<Rightarrow> t | None \<Rightarrow> ''stdio'') in
         if t \<noteq> ''stdio'' \<and> t \<noteq> ''http_sse'' then Inl (settings_error 400 ''transport must be stdio|http_sse'')
         else
           (case cb_command rq of
              None \<Rightarrow> Inl (settings_error 400 ''command required for mcp_server'')
            | Some c \<Rightarrow>
                if trim c = [] then Inl (settings_error 400 ''command required for mcp_server'')
                else Inr (mcp_backend_text name t c (cb_args rq) (cb_env rq))))
      else if cb_kind rq = ''http_base'' then
        (case cb_base_url rq of
           None \<Rightarrow> Inl (settings_error 400 ''base_url required for http_base'')
         | Some url \<Rightarrow> Inr (http_backend_text name url (cb_headers rq)))
      else Inl (settings_error 400 (''unknown kind `'' @ cb_kind rq
        @ ''` (expected openai_compat|mcp_server|http_base)'')))"

text \<open>A capability that no longer binds is a warning; any other failure of the reload counts nothing.\<close>

fun reload_report :: "(node_error, nat \<times> nat) result \<Rightarrow> nat \<times> nat \<times> string option" where
  "reload_report (Inr (b, c)) = (b, c, None)"
| "reload_report (Inl (PartialReload b reason)) = (b, 0, Some reason)"
| "reload_report (Inl e) = (0, 0, Some (node_error_text e))"

definition active_json :: "resolved_llm \<Rightarrow> json" where
  "active_json r =
     json_obj [(''base_url'', JStr (oc_base_url (rl_openai r))), (''model'', JStr (rl_model r)),
       (''backend'', json_or_null JStr (rl_backend r))]"

definition create_backend ::
  "('x) settings_env_scheme \<Rightarrow> string \<Rightarrow> backend_request \<Rightarrow> settings_app \<Rightarrow> response \<times> settings_app" where
  "create_backend se dir rq a =
     (let name = trim (cb_name rq) in
      if \<not> valid_name name then (settings_error 400 ''name must be non-empty and match [a-zA-Z0-9_-]'', a)
      else
        (case backend_body se dir name rq (sa_disk a) of
           Inl r \<Rightarrow> (r, a)
         | Inr body \<Rightarrow>
             (let md = manifest_dir_of dir (sa_node a); target = manifest_path md ''backends'' name in
              case make_dir_fault se (path_join md ''backends'') of
                Some e \<Rightarrow> (settings_error 500 e, a)
              | None \<Rightarrow>
                  (case write_disk se target body (sa_disk a) of
                     (Inl e, dk) \<Rightarrow> (settings_error 500 e, a\<lparr>sa_disk := dk\<rparr>)
                   | (Inr _, dk) \<Rightarrow>
                       (let (r, n) = reload_backends (me_on se dk) (sa_node a);
                            (b, c, warning) = reload_report r;
                            (pr, pl) =
                              (case sa_planner a of
                                 None \<Rightarrow> (Inr None, None)
                               | Some h \<Rightarrow> apsnd Some (hot_reload_planner_after_backend_change se dir n name dk h))
                        in (respond 200 (json_obj [(''ok'', JBool True), (''name'', JStr name), (''path'', JStr target),
                              (''updated'', JBool (disk_get target (sa_disk a) \<noteq> None)),
                              (''backends_loaded'', jnat b), (''caps_loaded'', jnat c),
                              (''reload_warning'', json_or_null JStr warning),
                              (''planner_reloaded'', JBool (case pr of Inr (Some _) \<Rightarrow> True | _ \<Rightarrow> False)),
                              (''planner_reload_warning'', (case pr of Inl e \<Rightarrow> JStr e | Inr _ \<Rightarrow> JNull)),
                              (''planner_active'', (case pr of Inr (Some l) \<Rightarrow> active_json l | _ \<Rightarrow> JNull))]),
                            \<lparr>sa_node = n, sa_disk = dk, sa_planner = pl\<rparr>))))))"

fun transport_text :: "mcp_transport \<Rightarrow> string" where
  "transport_text Stdio = ''stdio''"
| "transport_text HttpSse = ''httpsse''"

fun backend_summary :: "backend_kind \<Rightarrow> string \<times> json" where
  "backend_summary (OpenAICompat c) =
     (''openai_compat'', json_obj [(''base_url'', JStr (bo_base_url c)), (''default_model'', JStr (bo_default_model c)),
       (''has_api_key'', JBool (bo_api_key c \<noteq> []))])"
| "backend_summary (McpServer c) =
     (''mcp_server'', json_obj [(''transport'', JStr (transport_text (mc_transport c))),
       (''command'', JStr (mc_command c)), (''args_count'', jnat (length (mc_args c)))])"
| "backend_summary (HttpBase c) =
     (''http_base'', json_obj [(''base_url'', JStr (hb_base_url c)), (''header_count'', jnat (length (hb_headers c)))])"

fun manifest_error_text :: "manifest_error \<Rightarrow> string" where
  "manifest_error_text (ManifestIo p e) = ''io error reading '' @ p @ '': '' @ e"
| "manifest_error_text (ManifestToml p e) = ''toml parse error in '' @ p @ '': '' @ e"
| "manifest_error_text (ManifestInvalid p e) = ''manifest validation in '' @ p @ '': '' @ e"

definition list_backends :: "('x) settings_env_scheme \<Rightarrow> string \<Rightarrow> settings_app \<Rightarrow> response" where
  "list_backends se dir a =
     (let d = path_join (manifest_dir_of dir (sa_node a)) ''backends'' in
      respond 200 (json_obj [(''backends'', JArr (map (\<lambda>r. case r of
           Inr m \<Rightarrow> json_obj [(''name'', JStr (bm_name m)), (''kind'', JStr (fst (backend_summary (bm_kind m)))),
             (''details'', snd (backend_summary (bm_kind m)))]
         | Inl e \<Rightarrow> json_obj [(''name'', JNull), (''error'', JStr (manifest_error_text e))])
           (load_backend_dir (me_on se (sa_disk a)) d))),
         (''dir'', JStr d)]))"

definition entries_json :: "(string \<times> string) list \<Rightarrow> json" where
  "entries_json es = json_obj (map (\<lambda>(k, v). (k, JStr v)) es)"

fun backend_view :: "string \<Rightarrow> backend_kind \<Rightarrow> json" where
  "backend_view name (OpenAICompat c) =
     json_obj [(''name'', JStr name), (''kind'', JStr ''openai_compat''), (''base_url'', JStr (bo_base_url c)),
       (''default_model'', JStr (bo_default_model c)), (''has_api_key'', JBool (bo_api_key c \<noteq> []))]"
| "backend_view name (McpServer c) =
     json_obj [(''name'', JStr name), (''kind'', JStr ''mcp_server''), (''transport'', JStr (transport_text (mc_transport c))),
       (''command'', JStr (mc_command c)), (''args'', enc_list JStr (mc_args c)), (''env'', entries_json (mc_env c))]"
| "backend_view name (HttpBase c) =
     json_obj [(''name'', JStr name), (''kind'', JStr ''http_base''), (''base_url'', JStr (hb_base_url c)),
       (''headers'', entries_json (hb_headers c))]"

definition get_backend :: "('x) settings_env_scheme \<Rightarrow> string \<Rightarrow> string \<Rightarrow> settings_app \<Rightarrow> response" where
  "get_backend se dir name a =
     (if \<not> valid_name name then settings_error 400 ''invalid name''
      else
        (let target = manifest_path dir ''backends'' name in
         if disk_get target (sa_disk a) = None then settings_error 404 ''backend manifest not found''
         else
           (case parse_backend_file (me_on se (sa_disk a)) target of
              Inl e \<Rightarrow> settings_error 500 (manifest_error_text e)
            | Inr m \<Rightarrow> respond 200 (backend_view (bm_name m) (bm_kind m)))))"

text \<open>A failure to save is only logged.\<close>

definition clear_planner_backend_if_removed :: "('x) settings_env_scheme \<Rightarrow> string \<Rightarrow> string \<Rightarrow> disk \<Rightarrow> disk" where
  "clear_planner_backend_if_removed se dir name dk =
     (let u = load_planner_user_config se dir dk in
      if pu_backend u \<noteq> Some name then dk
      else snd (save_planner_user_config se dir (u\<lparr>pu_backend := None\<rparr>) dk))"

definition delete_backend ::
  "('x) settings_env_scheme \<Rightarrow> string \<Rightarrow> string \<Rightarrow> settings_app \<Rightarrow> response \<times> settings_app" where
  "delete_backend se dir name a =
     (if \<not> valid_name name then (settings_error 400 ''invalid name'', a)
      else
        (let target = manifest_path dir ''backends'' name in
         if disk_get target (sa_disk a) = None then (settings_error 404 ''backend manifest not found'', a)
         else
           (case remove_disk se target (sa_disk a) of
              (Inl e, dk) \<Rightarrow> (settings_error 500 e, a\<lparr>sa_disk := dk\<rparr>)
            | (Inr _, dk1) \<Rightarrow>
                (let was = (pu_backend (load_planner_user_config se dir dk1) = Some name);
                     dk = clear_planner_backend_if_removed se dir name dk1;
                     (r, n) = reload_backends (me_on se dk) (sa_node a);
                     (b, c, warning) = (case r of Inr (b, c) \<Rightarrow> (b, c, None) | Inl e \<Rightarrow> (0, 0, Some (node_error_text e)));
                     (pr, pl) =
                       (case sa_planner a of
                          Some h \<Rightarrow>
                            if was then apsnd Some (apfst Some
                              (hot_reload_planner_runtime se dir n (load_planner_user_config se dir dk) dk h))
                            else (None, Some h)
                        | None \<Rightarrow> (None, None))
                 in (respond 200 (json_obj [(''ok'', JBool True), (''name'', JStr name), (''backends_loaded'', jnat b),
                       (''caps_loaded'', jnat c), (''reload_warning'', json_or_null JStr warning),
                       (''planner_reloaded'', JBool (case pr of Some (Inr _) \<Rightarrow> True | _ \<Rightarrow> False)),
                       (''planner_reload_warning'', (case pr of Some (Inl e) \<Rightarrow> JStr e | _ \<Rightarrow> JNull))]),
                     \<lparr>sa_node = n, sa_disk = dk, sa_planner = pl\<rparr>)))))"

section \<open>Capability manifests\<close>

record cap_example_request =
  cx_intent :: string
  cx_args :: json
  cx_output :: json

datatype cap_binding_request =
    PromptRequest string string "string option" "(string \<times> json) list" string "string option"
  | McpRequest string string "(string \<times> json) list" "(string \<times> json) list"
  | HttpRequest string string string "(string \<times> string) list" "json option" "string option" "int option"

record cap_request =
  uc_name :: string
  uc_version :: string
  uc_description :: string
  uc_mode :: string
  uc_languages :: "string list"
  uc_countries :: "string list"
  uc_tags :: "string list"
  uc_lobe_ids :: "string list"
  uc_disambiguation :: "string option"
  uc_output_semantic :: "string option"
  uc_schema_in :: json
  uc_schema_out :: json
  uc_examples :: "cap_example_request list"
  uc_binding :: cap_binding_request

definition list_line :: "string \<Rightarrow> string list \<Rightarrow> string list" where
  "list_line k xs = (if xs = [] then [] else [k @ '' = ['' @ join '', '' (map toml_str xs) @ '']''])"

definition multi_line :: "string \<Rightarrow> string option \<Rightarrow> string list" where
  "multi_line k v =
     (case v of None \<Rightarrow> [] | Some s \<Rightarrow> if trim s = [] then [] else [k @ '' = '' @ toml_multiline s])"

definition str_line :: "string \<Rightarrow> string option \<Rightarrow> string list" where
  "str_line k v = (case v of None \<Rightarrow> [] | Some s \<Rightarrow> if trim s = [] then [] else [k @ '' = '' @ toml_str s])"

definition entry_lines :: "(string \<times> json) list \<Rightarrow> string list" where
  "entry_lines es = map (\<lambda>(k, v). toml_key k @ '' = '' @ json_to_toml_value v) es"

definition inline_table :: "string \<Rightarrow> (string \<times> json) list \<Rightarrow> string list" where
  "inline_table k es = (if es = [] then [] else [k @ '' = { '' @ join '', '' (entry_lines es) @ '' }''])"

definition binding_lines :: "string \<Rightarrow> string \<Rightarrow> string list" where
  "binding_lines kind backend =
     [[], ''[binding]'', ''type = '' @ quoted kind, ''backend = '' @ toml_str backend, [], ''[binding.'' @ kind @ '']'']"

fun binding_text :: "cap_binding_request \<Rightarrow> (string, string list) result" where
  "binding_text (PromptRequest backend system user params parser model) =
     Inr (binding_lines ''prompt'' backend @ [''system_prompt = '' @ toml_multiline system]
       @ multi_line ''user_template'' user @ inline_table ''parameters'' params
       @ [''output_parser = '' @ toml_str parser] @ str_line ''model'' model)"
| "binding_text (McpRequest backend tool args res) =
     (if trim tool = [] then Inl ''binding.mcp.tool_name is required''
      else Inr (binding_lines ''mcp'' backend @ [''tool_name = '' @ toml_str tool]
        @ inline_table ''arg_mapping'' args @ inline_table ''result_mapping'' res))"
| "binding_text (HttpRequest backend url meth headers body resp timeout) =
     (if trim url = [] then Inl ''binding.http.url_template is required''
      else
        let m = to_ascii_uppercase meth in
        if m \<notin> set [''GET'', ''POST'', ''PUT'', ''DELETE'']
        then Inl (''binding.http.method `'' @ meth @ ''` invalid (GET|POST|PUT|DELETE)'')
        else Inr (binding_lines ''http'' backend
          @ [''url_template = '' @ toml_str url, ''method = '' @ toml_str m]
          @ (case timeout of None \<Rightarrow> [] | Some t \<Rightarrow> [''timeout_ms = '' @ dec_int t])
          @ str_line ''response_path'' resp
          @ (case body of None \<Rightarrow> [] | Some b \<Rightarrow> [''body_template = '' @ json_to_toml_value b])
          @ (if headers = [] then []
             else [[], ''[binding.http.headers]''] @ map (\<lambda>(k, v). toml_key k @ '' = '' @ toml_str v) headers)))"

definition build_cap_toml :: "string \<Rightarrow> cap_request \<Rightarrow> (string, string) result" where
  "build_cap_toml name rq =
     (case (as_object (uc_schema_in rq), as_object (uc_schema_out rq)) of
        (None, _) \<Rightarrow> Inl ''schema_in must be a JSON object''
      | (_, None) \<Rightarrow> Inl ''schema_out must be a JSON object''
      | (Some si, Some so) \<Rightarrow>
          map_sum id (\<lambda>binding. text_lines
            ([''[manifest]'', ''version = \"0.1\"'', [], ''[descriptor]'', ''name = '' @ toml_str name,
              ''version = '' @ toml_str (uc_version rq), ''description = '' @ toml_str (uc_description rq),
              ''mode = '' @ toml_str (uc_mode rq)]
             @ list_line ''tags'' (uc_tags rq) @ list_line ''lobe_ids'' (uc_lobe_ids rq)
             @ list_line ''languages'' (uc_languages rq) @ list_line ''countries'' (uc_countries rq)
             @ multi_line ''disambiguation'' (uc_disambiguation rq)
             @ multi_line ''output_semantic'' (uc_output_semantic rq)
             @ [[], ''[descriptor.schema_in]''] @ entry_lines si
             @ [[], ''[descriptor.schema_out]''] @ entry_lines so
             @ concat (map (\<lambda>x. [[], ''[[descriptor.examples]]'', ''user_intent = '' @ toml_str (cx_intent x),
                 ''args = '' @ json_to_toml_value (cx_args x),
                 ''expected_output = '' @ json_to_toml_value (cx_output x)]) (uc_examples rq))
             @ binding)) (binding_text (uc_binding rq)))"

fun binding_type_str :: "binding_spec \<Rightarrow> string" where
  "binding_type_str (PromptSpec _) = ''prompt''"
| "binding_type_str (McpSpec _) = ''mcp''"
| "binding_type_str (HttpSpec _) = ''http''"

definition list_cap_manifests :: "('x) settings_env_scheme \<Rightarrow> string \<Rightarrow> settings_app \<Rightarrow> response" where
  "list_cap_manifests se dir a =
     (let d = path_join (manifest_dir_of dir (sa_node a)) ''caps'' in
      respond 200 (json_obj [(''caps'', JArr (map (\<lambda>r. case r of
           Inr m \<Rightarrow> json_obj [(''name'', JStr (cap_name (cap_descriptor m))),
             (''version'', JStr (version (cap_descriptor m))), (''description'', JStr (description (cap_descriptor m))),
             (''binding_type'', JStr (binding_type_str (cap_binding m))),
             (''binding_backend'', JStr (spec_backend (cap_binding m)))]
         | Inl e \<Rightarrow> json_obj [(''name'', JNull), (''error'', JStr (manifest_error_text e))])
           (load_cap_dir (me_on se (sa_disk a)) d))),
         (''dir'', JStr d)]))"

definition get_cap_manifest :: "('x) settings_env_scheme \<Rightarrow> string \<Rightarrow> string \<Rightarrow> settings_app \<Rightarrow> response" where
  "get_cap_manifest se dir name a =
     (let target = manifest_path (manifest_dir_of dir (sa_node a)) ''caps'' name in
      if disk_get target (sa_disk a) = None then settings_error 404 ''cap manifest not found''
      else
        (case read_disk se (sa_disk a) target of
           Inr raw \<Rightarrow> respond 200 (json_obj [(''name'', JStr name), (''toml'', JStr raw)])
         | Inl e \<Rightarrow> settings_error 500 e))"

definition delete_cap_manifest ::
  "('x) settings_env_scheme \<Rightarrow> string \<Rightarrow> string \<Rightarrow> settings_app \<Rightarrow> response \<times> settings_app" where
  "delete_cap_manifest se dir name a =
     (if \<not> valid_name name then (settings_error 400 ''invalid name'', a)
      else
        (let target = manifest_path (manifest_dir_of dir (sa_node a)) ''caps'' name in
         if disk_get target (sa_disk a) = None then (settings_error 404 ''cap manifest not found'', a)
         else
           (case remove_disk se target (sa_disk a) of
              (Inl e, dk) \<Rightarrow> (settings_error 500 e, a\<lparr>sa_disk := dk\<rparr>)
            | (Inr _, dk) \<Rightarrow>
                (case reload_caps (me_on se dk) (sa_node a) of
                   (Inl e, n) \<Rightarrow>
                     (settings_error 500 (''delete ok but reload failed: '' @ node_error_text e),
                      a\<lparr>sa_disk := dk, sa_node := n\<rparr>)
                 | (Inr k, n) \<Rightarrow>
                     (respond 200 (json_obj [(''ok'', JBool True), (''name'', JStr name), (''registered'', jnat k)]),
                      a\<lparr>sa_disk := dk, sa_node := n\<rparr>)))))"

text \<open>The checks of \<open>upsert_cap_manifest\<close> before it writes, in the order of the code.\<close>

definition cap_request_fault :: "('x) settings_env_scheme \<Rightarrow> cap_request \<Rightarrow> live_node \<Rightarrow> string option" where
  "cap_request_fault se rq n =
     (if \<not> valid_name (trim (uc_name rq)) then Some ''name must be non-empty and match [a-zA-Z0-9_-]''
      else if semver_fault se (uc_version rq) \<noteq> None then Some ''version must be valid semver (e.g. 0.1.0)''
      else if trim (uc_description rq) = [] then Some ''description is required''
      else if uc_examples rq = []
      then Some ''at least one example is required (the planner refuses caps with no examples)''
      else if unclaimable_lobes (uc_lobe_ids rq) (nd_lobes n) \<noteq> []
      then Some (''this instance does not belong to '' @ join '', '' (unclaimable_lobes (uc_lobe_ids rq) (nd_lobes n))
        @ ''; join the lobe in Settings '' @ map char_of [0xE2, 0x86, 0x92 :: nat] @ '' Identity first'')
      else None)"

definition upsert_cap_manifest ::
  "('x) settings_env_scheme \<Rightarrow> string \<Rightarrow> cap_request \<Rightarrow> settings_app \<Rightarrow> response \<times> settings_app" where
  "upsert_cap_manifest se dir rq a =
     (let name = trim (uc_name rq) in
      case cap_request_fault se rq (sa_node a) of
        Some e \<Rightarrow> (settings_error 400 e, a)
      | None \<Rightarrow>
          (case build_cap_toml name rq of
             Inl e \<Rightarrow> (settings_error 400 e, a)
           | Inr body \<Rightarrow>
               (let md = manifest_dir_of dir (sa_node a); target = manifest_path md ''caps'' name in
                case make_dir_fault se (path_join md ''caps'') of
                  Some e \<Rightarrow> (settings_error 500 e, a)
                | None \<Rightarrow>
                    (case write_disk se target body (sa_disk a) of
                       (Inl e, dk) \<Rightarrow> (settings_error 500 e, a\<lparr>sa_disk := dk\<rparr>)
                     | (Inr _, dk) \<Rightarrow>
                         (case reload_caps (me_on se dk) (sa_node a) of
                            (Inl e, n) \<Rightarrow>
                              (settings_error 500 (''saved but reload failed: '' @ node_error_text e),
                               a\<lparr>sa_disk := dk, sa_node := n\<rparr>)
                          | (Inr k, n) \<Rightarrow>
                              (if reg_get name (nd_registry n) = None
                               then settings_error 422 (''saved to '' @ target @ '' but not registered ''
                                 @ map char_of [0xE2, 0x80, 0x94 :: nat] @ '' its binding could not be built; ''
                                 @ ''check that the backend it names exists'')
                               else respond 200 (json_obj [(''ok'', JBool True), (''name'', JStr name),
                                 (''path'', JStr target), (''registered'', jnat k)]),
                               a\<lparr>sa_disk := dk, sa_node := n\<rparr>))))))"

section \<open>Planner\<close>

text \<open>
  \<open>api_planner_get\<close> and \<open>api_planner_put\<close> on a server that has a configuration directory; the handle
  holds the fallback of the environment, and there is none on a node without a planner.
\<close>

definition api_planner_get :: "('x) settings_env_scheme \<Rightarrow> string \<Rightarrow> settings_app \<Rightarrow> response" where
  "api_planner_get se dir a =
     (let u = load_planner_user_config se dir (sa_disk a);
          enabled = (Option.bind (sa_planner a) ph_setup \<noteq> None);
          active = (if enabled
                    then Option.bind (sa_planner a) (\<lambda>h.
                      case resolve_planner_llm se dir (sa_node a) (ph_env h) u (sa_disk a) of
                        Inr r \<Rightarrow> Some r | Inl _ \<Rightarrow> None)
                    else None)
      in respond 200 (json_obj [(''enabled'', JBool enabled),
           (''config'', json_obj [(''backend'', json_or_null JStr (pu_backend u)), (''model'', json_or_null JStr (pu_model u))]),
           (''active'', json_or_null (\<lambda>r. json_obj [(''source'', JStr (rl_source r)),
              (''backend'', json_or_null JStr (rl_backend r)), (''model'', JStr (rl_model r)),
              (''base_url'', JStr (oc_base_url (rl_openai r)))]) active),
           (''env_default'', json_or_null (\<lambda>h. json_obj [(''base_url'', JStr (pf_base_url (ph_env h))),
              (''model'', JStr (pf_model (ph_env h))),
              (''has_api_key'', JBool (\<exists>k. pf_api_key (ph_env h) = Some k \<and> k \<noteq> []))]) (sa_planner a)),
           (''available_backends'', JArr (map snd (list_openai_compat_backends se dir (sa_disk a)))),
           (''manifest_mode'', JBool (is_manifest_mode (sa_node a)))]))"

definition api_planner_put ::
  "('x) settings_env_scheme \<Rightarrow> string \<Rightarrow> string option \<Rightarrow> string option \<Rightarrow> settings_app \<Rightarrow> response \<times> settings_app" where
  "api_planner_put se dir backend model a =
     (case sa_planner a of
        None \<Rightarrow> (settings_error 503 ''no planner configured on this node (set N3UR0N_PLANNER_MODE)'', a)
      | Some h \<Rightarrow>
          (let u = \<lparr>pu_backend = nonblank backend, pu_model = nonblank model\<rparr> in
           (case save_planner_user_config se dir u (sa_disk a) of
              (Inl e, dk) \<Rightarrow> (settings_error 500 e, a\<lparr>sa_disk := dk\<rparr>)
            | (Inr _, dk) \<Rightarrow>
                (case build_runtime_with_user_config se dir (sa_node a) (ph_env h) u dk of
                   Inl e \<Rightarrow> (settings_error 400 e, a\<lparr>sa_disk := dk\<rparr>)
                 | Inr rt \<Rightarrow>
                     ((case resolve_planner_llm se dir (sa_node a) (ph_env h) u dk of
                         Inr r \<Rightarrow> respond 200 (json_obj [(''ok'', JBool True),
                           (''active'', json_obj [(''source'', JStr (rl_source r)),
                             (''backend'', json_or_null JStr (rl_backend r)), (''model'', JStr (rl_model r)),
                             (''base_url'', JStr (oc_base_url (rl_openai r)))])])
                       | Inl e \<Rightarrow> settings_error 500 e),
                      a\<lparr>sa_disk := dk, sa_planner := Some (h\<lparr>ph_setup := Some rt\<rparr>)\<rparr>)))))"

section \<open>Bootstrap seeds\<close>

definition PUBLIC_SEED_ENDPOINT :: string where
  "PUBLIC_SEED_ENDPOINT = ''https://seed.n3ur0n.net''"

definition api_bootstrap_get :: "('x) settings_env_scheme \<Rightarrow> string \<Rightarrow> settings_app \<Rightarrow> response" where
  "api_bootstrap_get se dir a =
     (let (ps, source) = form_bootstrap_peers se dir (sa_disk a) in
      respond 200 (json_obj [(''peers'', enc_list JStr ps), (''source'', JStr source),
        (''env_peers'', enc_list JStr (env_bootstrap_peers se)), (''public_seed'', JStr PUBLIC_SEED_ENDPOINT),
        (''saved'', JBool (load_bootstrap_user_config se dir (sa_disk a) \<noteq> None))]))"

definition DEFAULT_BOOTSTRAP_DEPTH :: nat where
  "DEFAULT_BOOTSTRAP_DEPTH = 2"

text \<open>The walk starts at call \<open>k\<close> of the network, on the directory \<open>t\<close>.\<close>

definition api_bootstrap_put ::
  "('x) settings_env_scheme \<Rightarrow> (binding, 'z) net_env_scheme \<Rightarrow> nat \<Rightarrow> peer_table \<Rightarrow> string \<Rightarrow> string list \<Rightarrow> string option
     \<Rightarrow> settings_app \<Rightarrow> response \<times> settings_app \<times> peer_table" where
  "api_bootstrap_put se ne k t dir peers text a =
     (let ps = normalize_peers (peers @ (case text of Some s \<Rightarrow> parse_peer_list s | None \<Rightarrow> [])) in
      case save_bootstrap_user_config se dir ps (sa_disk a) of
        (Inl e, dk) \<Rightarrow> (settings_error 500 e, a\<lparr>sa_disk := dk\<rparr>, t)
      | (Inr _, dk) \<Rightarrow>
          (let (outs, t1) = (if ps = [] then ([], t)
                 else apsnd wk_peers (bootstrap_transitive ne (node.truncate (sa_node a)) ps DEFAULT_BOOTSTRAP_DEPTH k t))
           in (respond 200 (json_obj [(''ok'', JBool True), (''peers'', enc_list JStr ps),
                 (''outcomes'', JArr (map (\<lambda>b. json_obj [(''endpoint'', JStr (bo_endpoint b)),
                    (''instance_id'', json_or_null JStr (bo_instance_id b)),
                    (''error'', json_or_null JStr (bo_error b))]) outs))]),
               a\<lparr>sa_disk := dk\<rparr>, t1)))"

definition api_bootstrap_remove_seed ::
  "('x) settings_env_scheme \<Rightarrow> string \<Rightarrow> string \<Rightarrow> settings_app \<Rightarrow> response \<times> settings_app" where
  "api_bootstrap_remove_seed se dir asked a =
     (let e = seed_endpoint asked in
      if e = [] then (settings_error 400 ''endpoint required'', a)
      else
        (case remove_endpoint_from_bootstrap se dir e (sa_disk a) of
           (Inl m, dk) \<Rightarrow> (settings_error 500 m, a\<lparr>sa_disk := dk\<rparr>)
         | (Inr removed, dk) \<Rightarrow>
             (respond 200 (json_obj [(''ok'', JBool True), (''endpoint'', JStr e), (''removed'', JBool removed),
                (''peers'', enc_list JStr (fst (form_bootstrap_peers se dir dk)))]),
              a\<lparr>sa_disk := dk\<rparr>)))"

end
