(* ===== verification/Json_Text.thy ===== *)
theory Json_Text
  imports Json
begin

text \<open>
  One concrete text for JSON values, read back by a parser with fuel: an instance of the law
  (printing and parsing are inverse) that the development asks of \<open>serde_json\<close>. It is not the
  grammar of JSON.
\<close>

definition string_text :: "string \<Rightarrow> string" where
  "string_text s = concat (map (\<lambda>c. [CHR ''.'', c]) s) @ '';''"

fun read_string :: "string \<Rightarrow> (string \<times> string) option" where
  "read_string (k # c # rest) =
     (if k = CHR '';'' then Some ([], c # rest)
      else map_option (\<lambda>(s, r). (c # s, r)) (read_string rest))"
| "read_string [k] = (if k = CHR '';'' then Some ([], []) else None)"
| "read_string [] = None"

fun json_text_of :: "json \<Rightarrow> string" where
  "json_text_of JNull = ''n''"
| "json_text_of (JBool b) = (if b then ''t'' else ''f'')"
| "json_text_of (JInt i) = (if 0 \<le> i then ''p'' else ''m'') @ string_text (replicate (nat \<bar>i\<bar>) CHR ''1'')"
| "json_text_of (JFloat s) = ''d'' @ string_text s"
| "json_text_of (JStr s) = ''s'' @ string_text s"
| "json_text_of (JArr xs) = ''a'' @ concat (map (\<lambda>x. '','' @ json_text_of x) xs) @ '';''"
| "json_text_of (JObj es) =
     ''o'' @ concat (map (\<lambda>e. '','' @ string_text (fst e) @ json_text_of (snd e)) es) @ '';''"

fun read_json :: "nat \<Rightarrow> string \<Rightarrow> (json \<times> string) option"
  and read_items :: "nat \<Rightarrow> string \<Rightarrow> (json list \<times> string) option"
  and read_entries :: "nat \<Rightarrow> string \<Rightarrow> ((string \<times> json) list \<times> string) option" where
  "read_json (Suc n) (k # rest) =
     (if k = CHR ''n'' then Some (JNull, rest)
      else if k = CHR ''t'' then Some (JBool True, rest)
      else if k = CHR ''f'' then Some (JBool False, rest)
      else if k = CHR ''p'' then map_option (\<lambda>(s, r). (JInt (int (length s)), r)) (read_string rest)
      else if k = CHR ''m'' then map_option (\<lambda>(s, r). (JInt (- int (length s)), r)) (read_string rest)
      else if k = CHR ''d'' then map_option (\<lambda>(s, r). (JFloat s, r)) (read_string rest)
      else if k = CHR ''s'' then map_option (\<lambda>(s, r). (JStr s, r)) (read_string rest)
      else if k = CHR ''a'' then map_option (\<lambda>(xs, r). (JArr xs, r)) (read_items n rest)
      else if k = CHR ''o'' then map_option (\<lambda>(es, r). (JObj es, r)) (read_entries n rest)
      else None)"
| "read_json _ _ = None"
| "read_items (Suc n) (k # rest) =
     (if k = CHR '';'' then Some ([], rest)
      else (case read_json n rest of
              None \<Rightarrow> None
            | Some (x, r) \<Rightarrow> map_option (\<lambda>(xs, r'). (x # xs, r')) (read_items n r)))"
| "read_items _ _ = None"
| "read_entries (Suc n) (k # rest) =
     (if k = CHR '';'' then Some ([], rest)
      else (case read_string rest of
              None \<Rightarrow> None
            | Some (key, r) \<Rightarrow>
                (case read_json n r of
                   None \<Rightarrow> None
                 | Some (x, r') \<Rightarrow> map_option (\<lambda>(es, r''). ((key, x) # es, r'')) (read_entries n r'))))"
| "read_entries _ _ = None"

definition json_of_text :: "string \<Rightarrow> json option" where
  "json_of_text s = (case read_json (length s) s of Some (j, []) \<Rightarrow> Some j | _ \<Rightarrow> None)"

lemma read_string_text: "read_string (string_text s @ rest) = Some (s, rest)"
proof (induction s)
  case Nil
  then show ?case by (cases rest) (simp_all add: string_text_def)
next
  case (Cons c s)
  then show ?case by (simp add: string_text_def)
qed

lemma text_nonempty: "json_text_of j \<noteq> []"
  by (cases j) auto

lemma read_items_text:
  assumes "\<And>x n rest. x \<in> set xs \<Longrightarrow> length (json_text_of x) \<le> n \<Longrightarrow>
      read_json n (json_text_of x @ rest) = Some (x, rest)"
    and "length (concat (map (\<lambda>x. '','' @ json_text_of x) xs)) < n"
  shows "read_items n (concat (map (\<lambda>x. '','' @ json_text_of x) xs) @ '';'' @ rest) = Some (xs, rest)"
  using assms
proof (induction xs arbitrary: n)
  case Nil
  then show ?case by (cases n) simp_all
next
  case (Cons x xs)
  obtain m where m: "n = Suc m" using Cons.prems(2) by (cases n) auto
  have "read_json m (json_text_of x @ concat (map (\<lambda>x. '','' @ json_text_of x) xs) @ '';'' @ rest)
      = Some (x, concat (map (\<lambda>x. '','' @ json_text_of x) xs) @ '';'' @ rest)"
    using Cons.prems m by simp
  moreover have "read_items m (concat (map (\<lambda>x. '','' @ json_text_of x) xs) @ '';'' @ rest) = Some (xs, rest)"
    using Cons.IH [of m] Cons.prems m text_nonempty [of x] by (cases "json_text_of x") auto
  ultimately show ?case by (simp add: m)
qed

lemma read_entries_text:
  assumes "\<And>e n rest. e \<in> set es \<Longrightarrow> length (json_text_of (snd e)) \<le> n \<Longrightarrow>
      read_json n (json_text_of (snd e) @ rest) = Some (snd e, rest)"
    and "length (concat (map (\<lambda>e. '','' @ string_text (fst e) @ json_text_of (snd e)) es)) < n"
  shows "read_entries n (concat (map (\<lambda>e. '','' @ string_text (fst e) @ json_text_of (snd e)) es) @ '';'' @ rest)
    = Some (es, rest)"
  using assms
proof (induction es arbitrary: n)
  case Nil
  then show ?case by (cases n) simp_all
next
  case (Cons e es)
  obtain m where m: "n = Suc m" using Cons.prems(2) by (cases n) auto
  let ?more = "concat (map (\<lambda>e. '','' @ string_text (fst e) @ json_text_of (snd e)) es) @ '';'' @ rest"
  have "read_json m (json_text_of (snd e) @ ?more) = Some (snd e, ?more)"
    using Cons.prems m by simp
  moreover have "read_entries m ?more = Some (es, rest)"
    using Cons.IH [of m] Cons.prems m text_nonempty [of "snd e"] by (cases "json_text_of (snd e)") auto
  ultimately show ?case by (simp add: m read_string_text)
qed

lemma read_json_text:
  "length (json_text_of j) \<le> n \<Longrightarrow> read_json n (json_text_of j @ rest) = Some (j, rest)"
proof (induction j arbitrary: n rest)
  case (JInt i)
  then show ?case by (cases n; cases "0 \<le> i") (simp_all add: read_string_text)
next
  case (JArr xs)
  then obtain m where "n = Suc m" by (cases n) auto
  then show ?case using read_items_text [of xs m rest] JArr by (simp add: less_Suc_eq_le)
next
  case (JObj es)
  then obtain m where m: "n = Suc m" by (cases n) auto
  have "read_json k (json_text_of (snd e) @ r) = Some (snd e, r)"
    if "e \<in> set es" "length (json_text_of (snd e)) \<le> k" for e k r
    using JObj.IH [of e "snd e"] that by (simp add: snds.simps)
  then show ?case using read_entries_text [of es m rest] JObj.prems m by simp
next
  case (JBool b)
  then show ?case by (cases n; cases b) simp_all
qed (case_tac [!] n, simp_all add: read_string_text)

lemma json_text_back [simp]: "json_of_text (json_text_of j) = Some j"
  using read_json_text [of j "length (json_text_of j)" "[]"] by (simp add: json_of_text_def)

end
