(* ===== verification/Settings_Runs.thy ===== *)
theory Settings_Runs
  imports Server_Settings Json_Text
begin

text \<open>
  What the settings routes guarantee over any run of requests, and against a restart on the files they
  leave behind.
\<close>

section \<open>Runs of the routes\<close>

datatype settings_op =
    PutAlias "string option"
  | PutLobes "string list"
  | PutBackend backend_request
  | DropBackend string
  | PutCap cap_request
  | DropCap string
  | PutPlanner "string option" "string option"
  | PutSeeds "binding net_env" nat peer_table "string list" "string option"
  | DropSeed string

fun settings_step ::
  "('x) settings_env_scheme \<Rightarrow> string \<Rightarrow> settings_op \<Rightarrow> settings_app \<Rightarrow> response \<times> settings_app" where
  "settings_step se dir (PutAlias al) a = put_alias se dir al a"
| "settings_step se dir (PutLobes ls) a = put_lobes se dir ls a"
| "settings_step se dir (PutBackend rq) a = create_backend se dir rq a"
| "settings_step se dir (DropBackend name) a = delete_backend se dir name a"
| "settings_step se dir (PutCap rq) a = upsert_cap_manifest se dir rq a"
| "settings_step se dir (DropCap name) a = delete_cap_manifest se dir name a"
| "settings_step se dir (PutPlanner b m) a = api_planner_put se dir b m a"
| "settings_step se dir (PutSeeds ne k t ps txt) a = apsnd fst (api_bootstrap_put se ne k t dir ps txt a)"
| "settings_step se dir (DropSeed e) a = api_bootstrap_remove_seed se dir e a"

text \<open>The files that are theirs to change: configuration files by name, and manifests.\<close>

definition own_file :: "string set \<Rightarrow> string \<Rightarrow> string \<Rightarrow> string list \<Rightarrow> bool" where
  "own_file cs dir md loc \<longleftrightarrow>
     (\<exists>c\<in>cs. loc = locate dir @ [c])
     \<or> (\<exists>d\<in>{dir, md}. \<exists>sub\<in>{''backends'', ''caps''}. \<exists>name.
          valid_name name \<and> loc = locate d @ [sub, name @ ''.toml''])"

lemma valid_name_proper:
  assumes "valid_name name"
  shows "proper_segment (name @ ''.toml'')" "proper_segment name"
proof -
  have "CHR ''/'' \<notin> set name" "CHR ''.'' \<notin> set name" "name \<noteq> []"
    using assms by (auto simp: valid_name_def list_all_iff name_char_def is_ascii_alphanumeric_def
        is_ascii_alphabetic_def is_ascii_lowercase_def is_ascii_uppercase_def is_ascii_digit_def)
  then show "proper_segment (name @ ''.toml'')" "proper_segment name" by (auto simp: proper_segment_def)
qed

lemma locate_manifest [simp]:
  assumes "valid_name name" "proper_segment sub"
  shows "locate (manifest_path d sub name) = locate d @ [sub, name @ ''.toml'']"
  using assms by (simp add: manifest_path_def valid_name_proper)

lemma own_manifest:
  "valid_name name \<Longrightarrow> sub \<in> {''backends'', ''caps''} \<Longrightarrow> d \<in> {dir, md} \<Longrightarrow>
     own_file cs dir md (locate (manifest_path d sub name))"
  unfolding own_file_def by (intro disjI2 bexI [of _ d] bexI [of _ sub] exI [of _ name]) auto

lemma own_config:
  "name \<in> cs \<Longrightarrow> proper_segment name \<Longrightarrow> own_file cs dir md (locate (path_join dir name))"
  by (auto simp: own_file_def)

text \<open>What is kept on a disk by a change of one of these files.\<close>

definition only_own :: "string set \<Rightarrow> string \<Rightarrow> string \<Rightarrow> disk \<Rightarrow> disk \<Rightarrow> bool" where
  "only_own cs dir md dk dk1 \<longleftrightarrow> (\<forall>p. \<not> own_file cs dir md (locate p) \<longrightarrow> disk_get p dk1 = disk_get p dk)"

lemma only_own_refl [simp]: "only_own cs dir md dk dk"
  by (simp add: only_own_def)

lemma only_own_trans: "only_own cs dir md dk dk1 \<Longrightarrow> only_own cs dir md dk1 dk2 \<Longrightarrow> only_own cs dir md dk dk2"
  by (simp add: only_own_def)

lemma own_write:
  "write_disk se p c dk = (r, dk1) \<Longrightarrow> own_file cs dir md (locate p) \<Longrightarrow> only_own cs dir md dk dk1"
  unfolding only_own_def by (metis write_disk_other)

lemma own_remove:
  "remove_disk se p dk = (r, dk1) \<Longrightarrow> own_file cs dir md (locate p) \<Longrightarrow> only_own cs dir md dk dk1"
  unfolding only_own_def by (metis remove_disk_other)

lemma own_save:
  assumes "save_config se dir name j dk = (r, dk1)" "own_file cs dir md (locate (path_join dir name))"
  shows "only_own cs dir md dk dk1"
  unfolding only_own_def
proof (intro allI impI)
  fix p assume "\<not> own_file cs dir md (locate p)"
  then have "locate p \<noteq> locate (path_join dir name)" using assms(2) by metis
  then show "disk_get p dk1 = disk_get p dk" by (rule save_config_other [OF assms(1)])
qed

lemma own_save_named:
  "save_config se dir name j dk = (r, dk1) \<Longrightarrow> name \<in> cs \<Longrightarrow> proper_segment name \<Longrightarrow> only_own cs dir md dk dk1"
  by (erule own_save) (rule own_config)

lemma own_save_instance:
  "save_instance_user_config se dir c dk = (r, dk1) \<Longrightarrow> ''instance.toml'' \<in> cs \<Longrightarrow> only_own cs dir md dk dk1"
  by (auto simp: save_instance_user_config_def split: sum.splits option.splits intro: own_save_named)

lemma own_save_planner:
  "save_planner_user_config se dir u dk = (r, dk1) \<Longrightarrow> ''planner.toml'' \<in> cs \<Longrightarrow> only_own cs dir md dk dk1"
  by (auto simp: save_planner_user_config_def intro: own_save_named)

lemma own_save_bootstrap:
  "save_bootstrap_user_config se dir u dk = (r, dk1) \<Longrightarrow> ''bootstrap.toml'' \<in> cs \<Longrightarrow> only_own cs dir md dk dk1"
  by (auto simp: save_bootstrap_user_config_def intro: own_save_named)

lemma own_remove_endpoint:
  "remove_endpoint_from_bootstrap se dir e dk = (r, dk1) \<Longrightarrow> ''bootstrap.toml'' \<in> cs \<Longrightarrow> only_own cs dir md dk dk1"
  by (auto simp: remove_endpoint_from_bootstrap_def Let_def split: option.splits if_splits prod.splits sum.splits
      intro: own_save_bootstrap)

lemma own_clear_planner: "''planner.toml'' \<in> cs \<Longrightarrow> only_own cs dir md dk (clear_planner_backend_if_removed se dir name dk)"
  by (cases "save_planner_user_config se dir ((load_planner_user_config se dir dk)\<lparr>pu_backend := None\<rparr>) dk")
    (auto simp: clear_planner_backend_if_removed_def Let_def intro: own_save_planner)

text \<open>One lemma per route: what changes on the disk, and that the manifest directory stays.\<close>

lemma reload_dir: "ln_manifest_dir (snd (reload_caps mn n)) = ln_manifest_dir n"
  by (cases rule: reload_caps_cases [of mn n]) simp_all

lemma reload_backends_dir: "ln_manifest_dir (snd (reload_backends mn n)) = ln_manifest_dir n"
proof (cases rule: reload_backends_cases [of mn n])
  case (2 bs r n')
  then show ?thesis using reload_dir [of mn "n\<lparr>ln_backends := Some bs\<rparr>"] by simp
qed simp

definition stays_within :: "string set \<Rightarrow> string \<Rightarrow> settings_app \<Rightarrow> settings_app \<Rightarrow> bool" where
  "stays_within cs dir a a1 \<longleftrightarrow>
     only_own cs dir (manifest_dir_of dir (sa_node a)) (sa_disk a) (sa_disk a1)
     \<and> ln_manifest_dir (sa_node a1) = ln_manifest_dir (sa_node a)"

lemma stays_refl [simp]: "stays_within cs dir a a"
  by (simp add: stays_within_def)

lemma put_alias_within: "''instance.toml'' \<in> cs \<Longrightarrow> stays_within cs dir a (snd (put_alias se dir al a))"
  by (auto simp: put_alias_def Let_def stays_within_def set_node_alias_def intro: own_save_instance
      split: option.split sum.split prod.split)

lemma put_lobes_within:
  assumes "''instance.toml'' \<in> cs"
  shows "stays_within cs dir a (snd (put_lobes se dir ls a))"
proof -
  let ?ls = "filter (\<lambda>l. l \<noteq> []) (map trim ls)"
  obtain r dk where s: "save_instance_user_config se dir \<lparr>iu_alias = Option.bind
      (load_instance_user_config se dir (sa_disk a)) iu_alias, iu_lobes = ?ls\<rparr> (sa_disk a) = (r, dk)" by force
  obtain q n where l: "reload_caps (me_on se dk) (set_lobes ?ls (sa_node a)) = (q, n)" by force
  have "ln_manifest_dir n = ln_manifest_dir (sa_node a)"
    using reload_dir [of "me_on se dk" "set_lobes ?ls (sa_node a)"] l by (simp add: set_lobes_def)
  then show ?thesis using own_save_instance [OF s assms]
    by (auto simp: put_lobes_def Let_def s l stays_within_def split: sum.split)
qed

lemma create_backend_within: "stays_within cs dir a (snd (create_backend se dir rq a))"
proof (cases "valid_name (trim (cb_name rq))")
  case False
  then show ?thesis by (simp add: create_backend_def)
next
  case True
  let ?md = "manifest_dir_of dir (sa_node a)" and ?name = "trim (cb_name rq)"
  show ?thesis
  proof (cases "backend_body se dir ?name rq (sa_disk a)")
    case (Inr body)
    obtain r dk where w: "write_disk se (manifest_path ?md ''backends'' ?name) body (sa_disk a) = (r, dk)" by force
    then have "only_own cs dir ?md (sa_disk a) dk" using own_write own_manifest True by blast
    then show ?thesis using True Inr reload_backends_dir [of "me_on se dk" "sa_node a"]
      by (auto simp: create_backend_def Let_def w stays_within_def split: option.split sum.split prod.split)
  qed (use True in \<open>simp add: create_backend_def\<close>)
qed

lemma delete_backend_within:
  assumes "''planner.toml'' \<in> cs"
  shows "stays_within cs dir a (snd (delete_backend se dir name a))"
proof (cases "valid_name name \<and> disk_get (manifest_path dir ''backends'' name) (sa_disk a) \<noteq> None")
  case False
  then show ?thesis by (auto simp: delete_backend_def Let_def)
next
  case True
  let ?md = "manifest_dir_of dir (sa_node a)"
  obtain r dk where w: "remove_disk se (manifest_path dir ''backends'' name) (sa_disk a) = (r, dk)" by force
  then have own: "only_own cs dir ?md (sa_disk a) dk" using own_remove own_manifest True by blast
  show ?thesis
  proof (cases r)
    case (Inl e)
    then show ?thesis using True own by (simp add: delete_backend_def Let_def w stays_within_def)
  next
    case (Inr u)
    let ?dk = "clear_planner_backend_if_removed se dir name dk"
    have "only_own cs dir ?md (sa_disk a) ?dk" using own own_clear_planner [OF assms] only_own_trans by blast
    then show ?thesis using True Inr reload_backends_dir [of "me_on se ?dk" "sa_node a"]
      by (auto simp: delete_backend_def Let_def w stays_within_def split: prod.split option.split)
  qed
qed

lemma upsert_cap_within: "stays_within cs dir a (snd (upsert_cap_manifest se dir rq a))"
proof (cases "cap_request_fault se rq (sa_node a)")
  case (Some e)
  then show ?thesis by (simp add: upsert_cap_manifest_def)
next
  case None
  let ?md = "manifest_dir_of dir (sa_node a)" and ?name = "trim (uc_name rq)"
  have name: "valid_name ?name" using None by (auto simp: cap_request_fault_def split: if_splits)
  show ?thesis
  proof (cases "build_cap_toml ?name rq")
    case (Inr body)
    obtain r dk where w: "write_disk se (manifest_path ?md ''caps'' ?name) body (sa_disk a) = (r, dk)" by force
    then have "only_own cs dir ?md (sa_disk a) dk" using own_write own_manifest name by blast
    then show ?thesis using None Inr reload_dir [of "me_on se dk" "sa_node a"]
      by (auto simp: upsert_cap_manifest_def Let_def w stays_within_def split: option.split sum.split prod.split)
  qed (use None in \<open>simp add: upsert_cap_manifest_def\<close>)
qed

lemma delete_cap_within: "stays_within cs dir a (snd (delete_cap_manifest se dir name a))"
proof (cases "valid_name name")
  case True
  let ?md = "manifest_dir_of dir (sa_node a)"
  obtain r dk where w: "remove_disk se (manifest_path ?md ''caps'' name) (sa_disk a) = (r, dk)" by force
  then have "only_own cs dir ?md (sa_disk a) dk" using own_remove own_manifest True by blast
  then show ?thesis using True reload_dir [of "me_on se dk" "sa_node a"]
    by (auto simp: delete_cap_manifest_def Let_def w stays_within_def split: sum.split prod.split)
qed (simp add: delete_cap_manifest_def)

lemma planner_put_within:
  assumes "''planner.toml'' \<in> cs"
  shows "stays_within cs dir a (snd (api_planner_put se dir b m a))"
proof -
  obtain r dk where s: "save_planner_user_config se dir \<lparr>pu_backend = nonblank b, pu_model = nonblank m\<rparr> (sa_disk a) = (r, dk)"
    by force
  show ?thesis using own_save_planner [OF s assms]
    by (auto simp: api_planner_put_def Let_def s stays_within_def split: option.split sum.split)
qed

lemma seeds_within:
  assumes "''bootstrap.toml'' \<in> cs"
  shows "stays_within cs dir a (fst (snd (api_bootstrap_put se ne k t dir ps txt a)))"
  "stays_within cs dir a (snd (api_bootstrap_remove_seed se dir e a))"
proof -
  let ?ps = "normalize_peers (ps @ (case txt of Some s \<Rightarrow> parse_peer_list s | None \<Rightarrow> []))"
  obtain r dk where s: "save_bootstrap_user_config se dir ?ps (sa_disk a) = (r, dk)" by force
  show "stays_within cs dir a (fst (snd (api_bootstrap_put se ne k t dir ps txt a)))"
    using own_save_bootstrap [OF s assms]
    by (auto simp: api_bootstrap_put_def Let_def s stays_within_def split: sum.split prod.split)
  obtain q dk where e: "remove_endpoint_from_bootstrap se dir (seed_endpoint e) (sa_disk a) = (q, dk)" by force
  show "stays_within cs dir a (snd (api_bootstrap_remove_seed se dir e a))"
    using own_remove_endpoint [OF e assms]
    by (auto simp: api_bootstrap_remove_seed_def Let_def e stays_within_def split: sum.split)
qed

text \<open>The configuration file a request saves.\<close>

fun config_of :: "settings_op \<Rightarrow> string set" where
  "config_of (PutAlias _) = {''instance.toml''}"
| "config_of (PutLobes _) = {''instance.toml''}"
| "config_of (PutBackend _) = {}"
| "config_of (DropBackend _) = {''planner.toml''}"
| "config_of (PutCap _) = {}"
| "config_of (DropCap _) = {}"
| "config_of (PutPlanner _ _) = {''planner.toml''}"
| "config_of (PutSeeds _ _ _ _ _) = {''bootstrap.toml''}"
| "config_of (DropSeed _) = {''bootstrap.toml''}"

lemma step_within: "config_of op \<subseteq> cs \<Longrightarrow> stays_within cs dir a (snd (settings_step se dir op a))"
  by (cases op) (simp_all add: put_alias_within put_lobes_within create_backend_within delete_backend_within
      upsert_cap_within delete_cap_within planner_put_within seeds_within)

text \<open>A run: each request meets the file system in a state of its own.\<close>

fun settings_run ::
  "(settings_env \<times> settings_op) list \<Rightarrow> string \<Rightarrow> settings_app \<Rightarrow> settings_app" where
  "settings_run [] dir a = a"
| "settings_run ((se, op) # ops) dir a = settings_run ops dir (snd (settings_step se dir op a))"

lemma run_within:
  "(\<Union>so\<in>set ops. config_of (snd so)) \<subseteq> cs \<Longrightarrow> stays_within cs dir a (settings_run ops dir a)"
proof (induction ops dir a rule: settings_run.induct)
  case (2 se op ops dir a)
  have st: "stays_within cs dir a (snd (settings_step se dir op a))" using "2.prems" by (intro step_within) simp
  then have "manifest_dir_of dir (sa_node (snd (settings_step se dir op a))) = manifest_dir_of dir (sa_node a)"
    by (simp add: stays_within_def manifest_dir_of_def)
  then show ?case using 2 st only_own_trans by (auto simp: stays_within_def)
qed simp

text \<open>
  C21 (settings write their own files). Whatever requests reach the settings routes, and whatever fails
  on the way, the only files that change are \<open>instance.toml\<close>, \<open>planner.toml\<close> and \<open>bootstrap.toml\<close> of
  the configuration directory and \<open><name>.toml\<close> in a \<open>backends\<close> or \<open>caps\<close> folder, for a name of letters,
  digits, dashes and underscores.
\<close>

theorem settings_write_own_files:
  assumes "disk_get p (sa_disk (settings_run ops dir a)) \<noteq> disk_get p (sa_disk a)"
  shows "locate p \<in> {locate dir @ [''instance.toml''], locate dir @ [''planner.toml''], locate dir @ [''bootstrap.toml'']}
    \<or> (\<exists>d\<in>{dir, manifest_dir_of dir (sa_node a)}. \<exists>sub\<in>{''backends'', ''caps''}. \<exists>name.
         name \<noteq> [] \<and> list_all (\<lambda>c. is_ascii_alphanumeric c \<or> c = CHR ''_'' \<or> c = CHR ''-'') name
         \<and> locate p = locate d @ [sub, name @ ''.toml''])"
proof -
  let ?cs = "{''instance.toml'', ''planner.toml'', ''bootstrap.toml''}"
  have "config_of op \<subseteq> ?cs" for op by (cases op) auto
  then have "stays_within ?cs dir a (settings_run ops dir a)" by (intro run_within) blast
  then have "own_file ?cs dir (manifest_dir_of dir (sa_node a)) (locate p)"
    using assms by (auto simp: stays_within_def only_own_def)
  then show ?thesis unfolding own_file_def valid_name_def name_char_def [abs_def] by blast
qed

section \<open>Live node and restart\<close>

lemma reload_caps_identity:
  "nd_alias (snd (reload_caps mn n)) = nd_alias n" "nd_lobes (snd (reload_caps mn n)) = nd_lobes n"
  by (cases rule: reload_caps_cases [of mn n]; simp)+

lemma reload_backends_identity:
  "nd_alias (snd (reload_backends mn n)) = nd_alias n" "nd_lobes (snd (reload_backends mn n)) = nd_lobes n"
proof -
  have "nd_alias (snd (reload_backends mn n)) = nd_alias n \<and> nd_lobes (snd (reload_backends mn n)) = nd_lobes n"
  proof (cases rule: reload_backends_cases [of mn n])
    case (2 bs r n')
    then show ?thesis using reload_caps_identity [of mn "n\<lparr>ln_backends := Some bs\<rparr>"] by simp
  qed simp
  then show "nd_alias (snd (reload_backends mn n)) = nd_alias n" "nd_lobes (snd (reload_backends mn n)) = nd_lobes n"
    by auto
qed

lemmas reload_identity = reload_caps_identity reload_backends_identity

definition same_identity :: "settings_app \<Rightarrow> settings_app \<Rightarrow> bool" where
  "same_identity a a1 \<longleftrightarrow> nd_alias (sa_node a1) = nd_alias (sa_node a) \<and> nd_lobes (sa_node a1) = nd_lobes (sa_node a)"

lemma reloaded_identity:
  "reload_caps mn n = (r, n1) \<Longrightarrow> nd_alias n1 = nd_alias n \<and> nd_lobes n1 = nd_lobes n"
  "reload_backends mn n = (q, n1) \<Longrightarrow> nd_alias n1 = nd_alias n \<and> nd_lobes n1 = nd_lobes n"
  using reload_caps_identity [of mn n] reload_backends_identity [of mn n] by simp_all

lemma backends_identity:
  "same_identity a (snd (create_backend se dir rq a))" "same_identity a (snd (delete_backend se dir name a))"
  by (auto simp: create_backend_def delete_backend_def Let_def same_identity_def
      dest: reloaded_identity split: sum.split option.split prod.split)

lemma caps_identity:
  "same_identity a (snd (upsert_cap_manifest se dir cq a))" "same_identity a (snd (delete_cap_manifest se dir name a))"
  by (auto simp: upsert_cap_manifest_def delete_cap_manifest_def Let_def same_identity_def
      dest: reloaded_identity split: sum.split option.split prod.split)

lemma others_identity:
  "same_identity a (snd (api_planner_put se dir b m a))"
  "same_identity a (fst (snd (api_bootstrap_put se ne k t dir ps txt a)))"
  "same_identity a (snd (api_bootstrap_remove_seed se dir e a))"
  by (auto simp: api_planner_put_def api_bootstrap_put_def api_bootstrap_remove_seed_def Let_def same_identity_def
      split: sum.split option.split prod.split)

text \<open>A node started here without flags would have the alias and the lobes of the running one.\<close>

definition restart_agrees :: "('x) settings_env_scheme \<Rightarrow> string \<Rightarrow> settings_app \<Rightarrow> bool" where
  "restart_agrees se dir a \<longleftrightarrow>
     resolve_startup_lobes se [] dir (sa_disk a) = nd_lobes (sa_node a)
     \<and> resolve_startup_alias se None dir (sa_disk a) = nd_alias (sa_node a)"

text \<open>The folders of manifests are not the configuration directory itself.\<close>

definition separate :: "string \<Rightarrow> settings_app \<Rightarrow> bool" where
  "separate dir a \<longleftrightarrow> (\<forall>sub\<in>{''backends'', ''caps''}. locate (manifest_dir_of dir (sa_node a)) @ [sub] \<noteq> locate dir)"

lemma instance_not_manifest:
  assumes "separate dir a" "''instance.toml'' \<notin> cs" "stays_within cs dir a a1"
  shows "disk_get (path_join dir ''instance.toml'') (sa_disk a1) = disk_get (path_join dir ''instance.toml'') (sa_disk a)"
proof -
  have "\<not> own_file cs dir (manifest_dir_of dir (sa_node a)) (locate (path_join dir ''instance.toml''))"
  proof
    assume "own_file cs dir (manifest_dir_of dir (sa_node a)) (locate (path_join dir ''instance.toml''))"
    then obtain d sub name where d: "d \<in> {dir, manifest_dir_of dir (sa_node a)}" "sub \<in> {''backends'', ''caps''}"
      "locate dir @ [''instance.toml''] = (locate d @ [sub]) @ [name @ ''.toml'']"
      using assms(2) by (auto simp: own_file_def)
    then have "locate d @ [sub] = locate dir" by simp
    then show False using d(1,2) assms(1) by (auto simp: separate_def)
  qed
  then show ?thesis using assms(3) by (simp add: stays_within_def only_own_def)
qed

text \<open>The environment a started process sees is the same for all requests; files fail as they may.\<close>

definition same_process :: "settings_env \<Rightarrow> settings_env \<Rightarrow> bool" where
  "same_process se se1 \<longleftrightarrow> calm se1 \<and> env_var se1 = env_var se \<and> toml_read se1 = toml_read se
     \<and> toml_write se1 = toml_write se"

lemma same_process_reads:
  assumes "same_process se se1" "calm se"
  shows "load_config se1 dir name rd dk = load_config se dir name rd dk"
  using assms by (auto simp: same_process_def calm_def load_config_def read_disk_def split: option.split)

lemma same_process_instance:
  "same_process se se1 \<Longrightarrow> calm se \<Longrightarrow> load_instance_user_config se1 dir dk = load_instance_user_config se dir dk"
  by (simp add: load_instance_user_config_def same_process_reads)

lemma validated_alias_trim: "validate_alias al = Inr () \<Longrightarrow> trim al = al \<and> al \<noteq> []"
proof -
  assume "validate_alias al = Inr ()"
  then have ok: "al \<noteq> []" "list_all alias_char al" by (simp_all add: validate_alias_ok)
  have "33 \<le> byte c \<and> byte c < (127::nat)" if "alias_char c" for c
    using that by (auto simp: alias_char_def is_ascii_alphanumeric_def is_ascii_alphabetic_def
        is_ascii_lowercase_def is_ascii_uppercase_def is_ascii_digit_def)
  then have "list_all (\<lambda>c. 33 \<le> byte c \<and> byte c < (127::nat)) al"
    using ok(2) by (auto simp: list_all_iff)
  then show ?thesis using trim_visible ok(1) by blast
qed

lemma save_instance_saved:
  assumes "save_instance_user_config se1 dir c dk = (Inr u, dk1)" "same_process se se1" "toml_law se" "calm se"
  shows "load_instance_user_config se dir dk1 = Some c" "validate_instance_lobes (iu_lobes c) = Inr ()"
    "iu_alias c = Some al \<Longrightarrow> validate_alias al = Inr ()"
proof -
  have s: "save_config se1 dir ''instance.toml'' (enc_instance_file c) dk = (Inr u, dk1)"
    using assms(1) by (auto simp: save_instance_user_config_def split: sum.splits option.splits)
  have "toml_law se1" "read_fault se (path_join dir ''instance.toml'') = None" "toml_read se = toml_read se1"
    using assms(2-4) by (simp_all add: same_process_def toml_law_def calm_def)
  then show "load_instance_user_config se dir dk1 = Some c"
    unfolding load_instance_user_config_def by (rule load_saved [OF s]) simp
  show "validate_instance_lobes (iu_lobes c) = Inr ()" "iu_alias c = Some al \<Longrightarrow> validate_alias al = Inr ()"
    using assms(1) by (auto simp: save_instance_user_config_def split: sum.splits option.splits)
qed

lemma save_instance_failed:
  "save_instance_user_config se1 dir c dk = (Inl e, dk1) \<Longrightarrow> calm se1 \<Longrightarrow> dk1 = dk"
  by (auto simp: save_instance_user_config_def dest: save_config_failed split: sum.splits option.splits)

definition no_overrides :: "('x) settings_env_scheme \<Rightarrow> bool" where
  "no_overrides se \<longleftrightarrow> env_var se ''N3UR0N_LOBES'' = None \<and> env_var se ''N3UR0N_ALIAS'' = None"

lemma resolve_from_file:
  assumes "no_overrides se"
  shows "resolve_startup_lobes se [] dir dk = keep_lobes [] (iu_lobes (instance_or_default se dir dk))"
    "load_instance_user_config se dir dk = Some c \<Longrightarrow> validate_instance_lobes (iu_lobes c) = Inr () \<Longrightarrow>
       resolve_startup_lobes se [] dir dk = iu_lobes c"
    "load_instance_user_config se dir dk = Some c \<Longrightarrow> (\<forall>al. iu_alias c = Some al \<longrightarrow> validate_alias al = Inr ()) \<Longrightarrow>
       resolve_startup_alias se None dir dk = iu_alias c"
  using assms accepted_lobes_kept [of "iu_lobes c"] validated_alias_trim
  by (auto simp: resolve_startup_lobes_def resolve_startup_alias_def no_overrides_def env_lobes_def Let_def
      instance_or_default_def split: option.split)

lemma resolve_same_file:
  "load_instance_user_config se dir dk1 = load_instance_user_config se dir dk \<Longrightarrow>
     resolve_startup_lobes se cli dir dk1 = resolve_startup_lobes se cli dir dk
     \<and> resolve_startup_alias se ca dir dk1 = resolve_startup_alias se ca dir dk"
  by (simp only: resolve_startup_lobes_def resolve_startup_alias_def simp_thms)

lemma put_alias_agrees:
  assumes "no_overrides se" "toml_law se" "calm se" "same_process se se1" "restart_agrees se dir a"
  shows "restart_agrees se dir (snd (put_alias se1 dir asked a))"
proof -
  let ?al = "nonblank asked"
  have same: "instance_or_default se1 dir (sa_disk a) = instance_or_default se dir (sa_disk a)"
    by (simp add: instance_or_default_def same_process_instance [OF assms(4,3)])
  obtain r dk where s: "save_instance_user_config se1 dir ((instance_or_default se1 dir (sa_disk a))\<lparr>iu_alias := ?al\<rparr>)
      (sa_disk a) = (r, dk)" by force
  consider e where "map_option validate_alias ?al = Some (Inl e)" | "\<forall>e. map_option validate_alias ?al \<noteq> Some (Inl e)"
    by blast
  then show ?thesis
  proof cases
    case 1
    then show ?thesis using assms(5) by (auto simp: put_alias_def Let_def)
  next
    case 2
    then have put: "put_alias se1 dir asked a = (case (r, dk) of
          (Inl e, dk) \<Rightarrow> (settings_error 500 e, a\<lparr>sa_disk := dk\<rparr>)
        | (Inr _, dk) \<Rightarrow> (respond 200 (json_obj [(''ok'', JBool True), (''alias'', json_or_null JStr ?al)]),
            a\<lparr>sa_disk := dk, sa_node := set_node_alias ?al (sa_node a)\<rparr>))"
      unfolding put_alias_def Let_def s by (auto split: option.split sum.split)
    show ?thesis
    proof (cases r)
      case (Inl e)
      have "calm se1" using assms(4) by (simp add: same_process_def)
      then have "dk = sa_disk a" using s unfolding Inl by (intro save_instance_failed)
      then show ?thesis using assms(5) unfolding put Inl by simp
    next
      case (Inr u)
      note saved = save_instance_saved [OF s [unfolded Inr] assms(4,2,3)]
      have "resolve_startup_lobes se [] dir dk = iu_lobes (instance_or_default se dir (sa_disk a))"
        using resolve_from_file(2) [OF assms(1) saved(1,2)] same by simp
      moreover have "validate_instance_lobes (iu_lobes (instance_or_default se dir (sa_disk a))) = Inr ()"
        using saved(2) same by simp
      ultimately have "resolve_startup_lobes se [] dir dk = nd_lobes (sa_node a)"
        using assms(5) resolve_from_file(1) [OF assms(1), of dir "sa_disk a"] accepted_lobes_kept
        by (simp add: restart_agrees_def)
      moreover have "resolve_startup_alias se None dir dk = ?al"
        using resolve_from_file(3) [OF assms(1) saved(1)] saved(3) by simp
      ultimately show ?thesis unfolding put Inr by (simp add: restart_agrees_def set_node_alias_def)
    qed
  qed
qed

lemma put_lobes_agrees:
  assumes "no_overrides se" "toml_law se" "calm se" "same_process se se1" "restart_agrees se dir a"
  shows "restart_agrees se dir (snd (put_lobes se1 dir asked a))"
proof -
  let ?ls = "filter (\<lambda>l. l \<noteq> []) (map trim asked)"
  let ?c = "\<lparr>iu_alias = Option.bind (load_instance_user_config se1 dir (sa_disk a)) iu_alias, iu_lobes = ?ls\<rparr>"
  have same: "load_instance_user_config se1 dir (sa_disk a) = load_instance_user_config se dir (sa_disk a)"
    by (rule same_process_instance [OF assms(4,3)])
  obtain r dk where s: "save_instance_user_config se1 dir ?c (sa_disk a) = (r, dk)" by force
  obtain q n where l: "reload_caps (me_on se1 dk) (set_lobes ?ls (sa_node a)) = (q, n)" by force
  show ?thesis
  proof (cases "validate_instance_lobes ?ls")
    case (Inl e)
    then show ?thesis using assms(5) by (simp add: put_lobes_def Let_def)
  next
    case ok: (Inr u)
    show ?thesis
    proof (cases r)
      case (Inl e)
      have "calm se1" using assms(4) by (simp add: same_process_def)
      then have "dk = sa_disk a" using s unfolding Inl by (intro save_instance_failed)
      then show ?thesis using assms(5) ok Inl by (simp add: put_lobes_def Let_def s)
    next
      case (Inr u)
      note saved = save_instance_saved [OF s [unfolded Inr] assms(4,2,3)]
      have "resolve_startup_lobes se [] dir dk = ?ls" using resolve_from_file(2) [OF assms(1) saved(1,2)] by simp
      moreover have "resolve_startup_alias se None dir dk = iu_alias ?c"
        using resolve_from_file(3) [OF assms(1) saved(1)] saved(3) by simp
      moreover have "resolve_startup_alias se None dir (sa_disk a) = iu_alias ?c"
      proof (cases "load_instance_user_config se dir (sa_disk a)")
        case None
        then show ?thesis using assms(1) same by (simp add: resolve_startup_alias_def no_overrides_def)
      next
        case (Some c)
        then show ?thesis using resolve_from_file(3) [OF assms(1) Some] saved(3) same by simp
      qed
      moreover have "nd_lobes n = ?ls" "nd_alias n = nd_alias (sa_node a)"
        using reloaded_identity(1) [OF l] by (simp_all add: set_lobes_def)
      moreover have "snd (put_lobes se1 dir asked a) = a\<lparr>sa_disk := dk, sa_node := n\<rparr>"
        using ok Inr by (simp add: put_lobes_def Let_def s l)
      ultimately show ?thesis using assms(5) by (simp add: restart_agrees_def)
    qed
  qed
qed

lemma step_agrees:
  assumes "no_overrides se" "toml_law se" "calm se" "same_process se se1" "restart_agrees se dir a" "separate dir a"
  shows "restart_agrees se dir (snd (settings_step se1 dir op a))" "separate dir (snd (settings_step se1 dir op a))"
proof -
  let ?a1 = "snd (settings_step se1 dir op a)"
  have within: "stays_within (config_of op) dir a ?a1" by (rule step_within) simp
  then show "separate dir ?a1" using assms(6) by (simp add: separate_def stays_within_def manifest_dir_of_def)
  have keep: "restart_agrees se dir ?a1" if "same_identity a ?a1" "''instance.toml'' \<notin> config_of op"
  proof -
    have "load_instance_user_config se dir (sa_disk ?a1) = load_instance_user_config se dir (sa_disk a)"
      unfolding load_instance_user_config_def
      by (rule load_config_cong [OF instance_not_manifest [OF assms(6) that(2) within]])
    then show ?thesis using assms(5) that(1) resolve_same_file [of se dir "sa_disk ?a1" "sa_disk a"]
      by (simp add: restart_agrees_def same_identity_def)
  qed
  show "restart_agrees se dir ?a1"
  proof (cases op)
    case (PutAlias al)
    then show ?thesis using put_alias_agrees assms by simp
  next
    case (PutLobes ls)
    then show ?thesis using put_lobes_agrees assms by simp
  qed (use keep in \<open>simp_all add: backends_identity caps_identity others_identity\<close>)
qed


section \<open>Where the files are\<close>

lemma settings_error_status [simp]: "rs_status (settings_error c m) = c" "rs_status (respond c j) = c"
  by (simp_all add: settings_error_def respond_def)

lemma backend_body_refused: "backend_body se dir name rq dk = Inl r \<Longrightarrow> rs_status r = 400"
  by (auto simp: backend_body_def Let_def split: if_splits option.splits)

lemma create_backend_written:
  assumes "create_backend se dir rq a = (r, a1)" "rs_status r = 200" "name = trim (cb_name rq)"
  obtains body where "valid_name name" "backend_body se dir name rq (sa_disk a) = Inr body"
    "sa_disk a1 = disk_put (manifest_path (manifest_dir_of dir (sa_node a)) ''backends'' name) body (sa_disk a)"
proof -
  let ?target = "manifest_path (manifest_dir_of dir (sa_node a)) ''backends'' name"
  have name: "valid_name name"
    using assms by (auto simp: create_backend_def Let_def split: if_splits)
  obtain body where body: "backend_body se dir name rq (sa_disk a) = Inr body"
    using assms name backend_body_refused [of se dir name rq "sa_disk a"]
    by (auto simp: create_backend_def Let_def split: sum.splits)
  have "make_dir_fault se (path_join (manifest_dir_of dir (sa_node a)) ''backends'') = None"
    using assms name body by (auto simp: create_backend_def Let_def split: option.splits)
  moreover obtain q dk where w: "write_disk se ?target body (sa_disk a) = (q, dk)" by force
  ultimately have "q = Inr ()" "sa_disk a1 = dk"
    using assms name body by (auto simp: create_backend_def Let_def split: sum.splits prod.splits)
  then show ?thesis using that name body w write_disk_ok by blast
qed

lemma valid_name_trim: "valid_name name \<Longrightarrow> trim name = name \<and> name \<noteq> []"
proof -
  assume v: "valid_name name"
  have "33 \<le> byte c \<and> byte c < (127::nat)" if "name_char c" for c
    using that by (auto simp: name_char_def is_ascii_alphanumeric_def is_ascii_alphabetic_def
        is_ascii_lowercase_def is_ascii_uppercase_def is_ascii_digit_def)
  then have "list_all (\<lambda>c. 33 \<le> byte c \<and> byte c < (127::nat)) name"
    using v by (auto simp: valid_name_def list_all_iff)
  then show ?thesis using trim_visible v by (auto simp: valid_name_def)
qed

lemma no_backend_file:
  assumes "disk_get (manifest_path dir ''backends'' name) dk = None"
  shows "load_openai_compat_backend se dir name dk = None" "kept_api_key se dir name dk = []"
  using assms by (auto simp: load_openai_compat_backend_def kept_api_key_def parse_backend_file_def me_on_def
      read_disk_def split: option.splits)

lemma me_on_fields:
  "read_file (me_on se dk) = read_disk se dk" "backend_toml (me_on se dk) = backend_toml se"
  "cap_toml (me_on se dk) = cap_toml se" "dir_entries (me_on se dk) = disk_dir dk"
  by (simp_all add: me_on_def manifest_env.defs)

lemma load_backend_cong:
  assumes "disk_get (manifest_path dir ''backends'' name) dk1 = disk_get (manifest_path dir ''backends'' name) dk"
  shows "load_openai_compat_backend se dir name dk1 = load_openai_compat_backend se dir name dk"
proof -
  have "read_disk se dk1 (manifest_path dir ''backends'' name) = read_disk se dk (manifest_path dir ''backends'' name)"
    using assms by (simp only: read_disk_def)
  then show ?thesis unfolding load_openai_compat_backend_def parse_backend_file_def me_on_fields by simp
qed

lemma planner_backend_missing:
  assumes "load_openai_compat_backend se dir name dk = None" "nonblank (pu_backend u) = Some name"
  shows "resolve_planner_llm se dir n env u dk = Inl (''planner backend `'' @ name @ ''`'')"
  using assms by (simp add: resolve_planner_llm_def)

text \<open>
  (a saved backend out of reach). When the manifests are not in the configuration directory, as on
  every default installation, a backend that was saved and answered 200 cannot be fetched or deleted,
  cannot be chosen for the planner, and loses its key when it is edited.
\<close>

theorem saved_backend_unreachable:
  assumes "ln_manifest_dir (sa_node a) = Some md" "locate md \<noteq> locate dir" "name = trim (cb_name rq)"
    and "create_backend se dir rq a = (r, a1)" "rs_status r = 200"
    and "disk_get (manifest_path dir ''backends'' name) (sa_disk a) = None"
  shows "disk_get (manifest_path md ''backends'' name) (sa_disk a1) \<noteq> None
    \<and> get_backend se1 dir name a1 = settings_error 404 ''backend manifest not found''
    \<and> delete_backend se1 dir name a1 = (settings_error 404 ''backend manifest not found'', a1)
    \<and> resolve_planner_llm se1 dir n env \<lparr>pu_backend = Some name, pu_model = m\<rparr> (sa_disk a1)
        = Inl (''planner backend `'' @ name @ ''`'')
    \<and> kept_api_key se1 dir name (sa_disk a1) = []"
proof -
  obtain body where w: "valid_name name"
    "sa_disk a1 = disk_put (manifest_path md ''backends'' name) body (sa_disk a)"
    using create_backend_written [OF assms(4,5,3)] assms(1) by (auto simp: manifest_dir_of_def)
  then have gone: "disk_get (manifest_path dir ''backends'' name) (sa_disk a1) = None"
    using assms(2,6) by (simp add: disk_get_put)
  have "nonblank (pu_backend \<lparr>pu_backend = Some name, pu_model = m\<rparr>) = Some name"
    using valid_name_trim [OF w(1)] by (simp add: nonblank_def)
  note planner = planner_backend_missing [OF no_backend_file(1) [OF gone] this]
  have "disk_get (manifest_path md ''backends'' name) (sa_disk a1) \<noteq> None" using w by (simp add: disk_get_put)
  moreover have "get_backend se1 dir name a1 = settings_error 404 ''backend manifest not found''"
    "delete_backend se1 dir name a1 = (settings_error 404 ''backend manifest not found'', a1)"
    using w(1) gone by (simp_all add: get_backend_def delete_backend_def Let_def)
  ultimately show ?thesis using planner no_backend_file(2) [OF gone] by blast
qed

text \<open>
  C39 (a refused planner stops the next start). A planner that names a backend without a file is refused
  with 400 and the running planner stays; but the choice has been saved, and from then on the
  server does not start: \<open>serve\<close> ends with the same error.
\<close>

theorem refused_planner_blocks_start:
  assumes "toml_law se" "sa_planner a = Some h" "nonblank backend = Some name" "valid_name name"
    and "load_openai_compat_backend se dir name (sa_disk a) = None"
    and "api_planner_put se dir backend model a = (r, a1)" "rs_status r \<noteq> 500"
    and "read_fault se (path_join dir ''planner.toml'') = None" "sv_config_dir args = Some dir"
    and "parse_planner_kind (sv_planner_mode args) (sv_planner_base_url args) (sv_planner_model args)
           (sv_planner_api_key args) = Inr (Some k)"
  shows "rs_status r = 400 \<and> sa_planner a1 = sa_planner a
    \<and> (\<exists>e. serve_setup se cr identity args (sa_disk a1) = Inl e)"
proof -
  let ?u = "\<lparr>pu_backend = nonblank backend, pu_model = nonblank model\<rparr>"
  obtain q dk where s: "save_planner_user_config se dir ?u (sa_disk a) = (q, dk)" by force
  have "q = Inr ()"
    using assms(2,6,7) s by (cases q) (auto simp: api_planner_put_def Let_def)
  note s = s [unfolded this]
  have "nonblank (pu_backend ?u) = Some name"
    using assms(3) valid_name_trim [OF assms(4)] by (simp add: nonblank_def)
  note missing = planner_backend_missing [OF _ this]
  have "locate (manifest_path dir ''backends'' name) \<noteq> locate (path_join dir ''planner.toml'')"
    using assms(4) by simp
  from save_config_other [OF s [unfolded save_planner_user_config_def] this]
  have "load_openai_compat_backend se dir name dk = None"
    using assms(5) load_backend_cong by metis
  note missing = missing [OF this]
  have dk: "sa_disk a1 = dk" "rs_status r = 400" "sa_planner a1 = sa_planner a"
    using assms(2,6) s missing by (auto simp: api_planner_put_def Let_def build_runtime_with_user_config_def)
  have "load_config se dir ''planner.toml'' dec_planner_file dk = Some ?u"
    by (rule load_saved [OF s [unfolded save_planner_user_config_def] assms(1,8)]) simp_all
  then have "load_planner_user_config se dir dk = ?u" by (simp add: load_planner_user_config_def)
  then have "\<exists>e. serve_setup se cr identity args dk = Inl e"
    using assms(9,10) missing
    by (auto simp: serve_setup_def Let_def build_runtime_with_user_config_def split: sum.split)
  then show ?thesis using dk by simp
qed

text \<open>
  (the last capability is served for ever). Deleting the last capability manifest is answered 200
  and the file is gone; the node goes on serving every capability it served before, the deleted one
  included, until it is restarted.
\<close>

theorem last_capability_still_served:
  assumes "ln_manifest_dir (sa_node a) = Some md" "delete_cap_manifest se dir name a = (r, a1)" "rs_status r = 200"
    and "list_toml (me_on se (sa_disk a1)) (path_join md ''caps'') = []"
  shows "disk_get (manifest_path md ''caps'' name) (sa_disk a1) = None
    \<and> nd_registry (sa_node a1) = nd_registry (sa_node a)
    \<and> (\<forall>reg bs. load_manifest_registry se md (sa_disk a1) = Inr (reg, bs) \<longrightarrow> reg = [])"
proof -
  have md: "manifest_dir_of dir (sa_node a) = md" using assms(1) by (simp add: manifest_dir_of_def)
  have v: "valid_name name" "disk_get (manifest_path md ''caps'' name) (sa_disk a) \<noteq> None"
    using assms(2,3) md by (auto simp: delete_cap_manifest_def Let_def split: if_splits)
  obtain q dk where w: "remove_disk se (manifest_path md ''caps'' name) (sa_disk a) = (q, dk)" by force
  have "q = Inr ()" using assms(2,3) md v w by (cases q) (auto simp: delete_cap_manifest_def Let_def)
  then have dk: "dk = disk_del (manifest_path md ''caps'' name) (sa_disk a)"
    using w by (auto simp: remove_disk_def split: option.splits)
  obtain p n where l: "reload_caps (me_on se dk) (sa_node a) = (p, n)" by force
  have a1: "sa_disk a1 = dk" "sa_node a1 = n"
    using assms(2) md v w \<open>q = Inr ()\<close> l by (auto simp: delete_cap_manifest_def Let_def split: sum.splits)
  then have none: "load_cap_dir (me_on se dk) (path_join md ''caps'') = []"
    using assms(4) by (simp add: load_cap_dir_def)
  then have "nd_registry n = nd_registry (sa_node a)"
    using l assms(1) by (auto simp: reload_caps_def loadable_def Let_def map_filter_simps split: option.splits)
  then show ?thesis using a1 dk none
    by (auto simp: disk_get_del load_manifest_registry_def loadable_def map_filter_simps from_entries_def split: sum.splits)
qed

text \<open>
  (any TOML file can be read). The route that shows a capability manifest does not check its name:
  given an absolute path it answers with the text of that file, the key of a backend included, to
  anyone who may read capabilities.
\<close>

theorem cap_route_reads_any_file:
  assumes "starts_with ''/'' p" "disk_get (p @ ''.toml'') (sa_disk a) = Some raw"
    and "read_fault se (p @ ''.toml'') = None"
  shows "get_cap_manifest se dir p a = respond 200 (json_obj [(''name'', JStr p), (''toml'', JStr raw)])"
proof -
  obtain q where "p = ''/'' @ q" using assms(1) starts_withE by blast
  then have "manifest_path d ''caps'' p = p @ ''.toml''" for d
    by (simp add: manifest_path_def path_join_def starts_with_def)
  then show ?thesis using assms(2,3) by (simp add: get_cap_manifest_def read_disk_def)
qed


section \<open>Witnesses\<close>

definition toy_settings :: settings_env where
  "toy_settings = manifest_env.extend (toy_manifest_env
       \<lparr>backend_toml := (\<lambda>_. Inr \<lparr>bf_version = ''0.1'', bf_name = ''tools'', bf_kind = ''mcp_server'',
          bf_extras = [''mcp_server'' \<mapsto> json_obj [(''command'', JStr ''srv'')]]\<rparr>)\<rparr>)
     \<lparr>make_dir_fault = (\<lambda>_. None), write_fault = (\<lambda>_ _. None), remove_fault = (\<lambda>_. None),
      read_fault = (\<lambda>_. None), absent = ''absent'', env_var = (\<lambda>_. None),
      toml_read = (\<lambda>s. case json_of_text s of Some j \<Rightarrow> Inr j | None \<Rightarrow> Inl ''bad''),
      toml_write = (\<lambda>j. Inr (json_text_of j)), parse_f32 = (\<lambda>_. None)\<rparr>"

definition toy_disk :: disk where
  "toy_disk = \<lparr>dk_files = [([''c'', ''manifests'', ''backends'', ''tools.toml''], ''key''),
     ([''c'', ''manifests'', ''caps'', ''echo.toml''], ''echo'')]\<rparr>"

definition toy_site :: settings_app where
  "toy_site = \<lparr>sa_node = toy_live\<lparr>ln_manifest_dir := Some ''/c/manifests'', nd_lobes := []\<rparr>, sa_disk = toy_disk,
     sa_planner = Some \<lparr>ph_setup = None, ph_env = \<lparr>pf_base_url = ''u'', pf_model = ''m'', pf_api_key = None\<rparr>\<rparr>\<rparr>"

lemma toy_settings_fields [simp]:
  "make_dir_fault toy_settings p = None" "write_fault toy_settings p c = None" "remove_fault toy_settings p = None"
  "read_fault toy_settings p = None" "env_var toy_settings v = None" "semver_fault toy_settings v = None"
  "toml_write toy_settings j = Inr (json_text_of j)"
  by (simp_all add: toy_settings_def manifest_env.defs toy_manifest_env_def)

lemma toy_settings_laws: "toml_law toy_settings" "calm toy_settings" "no_overrides toy_settings"
  by (simp_all add: toml_law_def calm_def no_overrides_def)
    (simp add: toy_settings_def manifest_env.defs)

lemma toy_locations:
  "locate ''/c'' = [''c'']" "locate ''/c/manifests'' = [''c'', ''manifests'']"
  by code_simp+

lemma toy_site_fields [simp]:
  "ln_manifest_dir (sa_node toy_site) = Some ''/c/manifests''" "manifest_dir_of ''/c'' (sa_node toy_site) = ''/c/manifests''"
  "sa_disk toy_site = toy_disk" "nd_lobes (sa_node toy_site) = []" "nd_alias (sa_node toy_site) = None"
  by (simp_all add: toy_site_def manifest_dir_of_def toy_live_def with_manifest_runtime_def new_node_def toy_config_def)

lemma toy_names: "valid_name ''x''" "valid_name ''echo''" "validate_alias ''bob'' = Inr ()" "nonblank (Some ''bob'') = Some ''bob''"
  "nonblank (Some ''x'') = Some ''x''"
  by code_simp+

lemma toy_no_file: "disk_get (path_join ''/c'' ''instance.toml'') toy_disk = None"
  "disk_get (manifest_path ''/c'' ''backends'' ''x'') toy_disk = None"
  by (simp_all add: disk_get_def toy_disk_def toy_locations toy_names)

lemma toy_renamed:
  "settings_run [(toy_settings, PutAlias (Some ''bob''))] ''/c'' toy_site
     = toy_site\<lparr>sa_disk := disk_put (path_join ''/c'' ''instance.toml'')
          (json_text_of (enc_instance_file \<lparr>iu_alias = Some ''bob'', iu_lobes = []\<rparr>)) toy_disk,
        sa_node := set_node_alias (Some ''bob'') (sa_node toy_site)\<rparr>"
proof -
  have "load_instance_user_config toy_settings ''/c'' toy_disk = None"
    by (simp add: load_instance_user_config_def load_config_def read_disk_def toy_no_file)
  then have "instance_or_default toy_settings ''/c'' toy_disk = \<lparr>iu_alias = None, iu_lobes = []\<rparr>"
    by (simp add: instance_or_default_def)
  moreover have "validate_instance_lobes [] = Inr ()" by (simp add: validate_lobes_iff)
  ultimately show ?thesis
    by (simp add: put_alias_def toy_names save_instance_user_config_def save_config_def write_disk_def Let_def)
qed

lemma settings_write_own_files_witness:
  "\<exists>name. locate (path_join ''/c'' ''instance.toml'') = [''c'', name]"
proof -
  have "disk_get (path_join ''/c'' ''instance.toml'')
      (sa_disk (settings_run [(toy_settings, PutAlias (Some ''bob''))] ''/c'' toy_site))
    \<noteq> disk_get (path_join ''/c'' ''instance.toml'') (sa_disk toy_site)"
    unfolding toy_renamed by (simp add: disk_get_put toy_no_file)
  from settings_write_own_files [OF this] show ?thesis by (auto simp: toy_locations)
qed


definition toy_backend_form :: backend_request where
  "toy_backend_form = \<lparr>cb_name = '' x '', cb_kind = ''http_base'', cb_base_url = Some ''u'', cb_default_model = None,
     cb_api_key = None, cb_api_key_keep = False, cb_transport = None, cb_command = None, cb_args = [], cb_env = [],
     cb_headers = []\<rparr>"

lemma saved_backend_unreachable_witness:
  "\<exists>a1 :: settings_app. disk_get (manifest_path ''/c/manifests'' ''backends'' ''x'') (sa_disk a1) \<noteq> None
    \<and> get_backend toy_settings ''/c'' ''x'' a1 = settings_error 404 ''backend manifest not found''"
proof -
  obtain r a1 where c: "create_backend toy_settings ''/c'' toy_backend_form toy_site = (r, a1)" by force
  have n: "''x'' = trim (cb_name toy_backend_form)" unfolding toy_backend_form_def by code_simp
  have "rs_status (fst (create_backend toy_settings ''/c'' toy_backend_form toy_site)) = 200"
    using n [symmetric] toy_names(1)
    by (simp add: create_backend_def toy_backend_form_def backend_body_def write_disk_def Let_def split: prod.split)
  then have ok: "rs_status r = 200" by (simp add: c)
  have d: "locate ''/c/manifests'' \<noteq> locate ''/c''" by (simp add: toy_locations)
  have f: "disk_get (manifest_path ''/c'' ''backends'' ''x'') (sa_disk toy_site) = None" by (simp add: toy_no_file)
  from saved_backend_unreachable [OF toy_site_fields(1) d n c ok f] show ?thesis by blast
qed

definition toy_args :: serve_args where
  "toy_args = \<lparr>sv_config_dir = Some ''/c'', sv_endpoint = None, sv_bootstrap = [], sv_lobe = [], sv_alias = None,
     sv_manifest_dir = None, sv_backend = ''echo'', sv_openai_base_url = None, sv_openai_model = None,
     sv_openai_api_key = None, sv_planner_mode = ''llm'', sv_planner_base_url = Some ''u'',
     sv_planner_model = Some ''m'', sv_planner_api_key = None\<rparr>"

lemma refused_planner_blocks_start_witness:
  "\<exists>(a1 :: settings_app) e. serve_setup toy_settings toy_wire (Inr ''bob'') toy_args (sa_disk a1) = Inl e"
proof -
  obtain r a1 where p: "api_planner_put toy_settings ''/c'' (Some ''x'') None toy_site = (r, a1)" by force
  have h: "sa_planner toy_site = Some \<lparr>ph_setup = None, ph_env = \<lparr>pf_base_url = ''u'', pf_model = ''m'', pf_api_key = None\<rparr>\<rparr>"
    by (simp add: toy_site_def)
  have l: "load_openai_compat_backend toy_settings ''/c'' ''x'' (sa_disk toy_site) = None"
    by (rule no_backend_file) (simp add: toy_no_file)
  obtain q dk where s: "save_planner_user_config toy_settings ''/c'' \<lparr>pu_backend = Some ''x'', pu_model = nonblank None\<rparr>
      (sa_disk toy_site) = (q, dk)" by force
  then have "q = Inr ()" by (simp add: save_planner_user_config_def save_config_def write_disk_def)
  then have st: "rs_status r \<noteq> 500" using p h s toy_names(5) l
    planner_backend_missing [of toy_settings "''/c''" "''x''"]
    by (auto simp: api_planner_put_def Let_def build_runtime_with_user_config_def resolve_planner_llm_def
        split: sum.splits option.splits if_splits)
  have k: "parse_planner_kind (sv_planner_mode toy_args) (sv_planner_base_url toy_args)
      (sv_planner_model toy_args) (sv_planner_api_key toy_args) = Inr (Some (plain_openai ''u'' ''m'' None, Some ''m''))"
    unfolding toy_args_def by code_simp
  have cfg: "sv_config_dir toy_args = Some ''/c''" by (simp add: toy_args_def)
  from refused_planner_blocks_start [OF toy_settings_laws(1) h toy_names(5) toy_names(1) l p st toy_settings_fields(4) cfg k]
  show ?thesis by blast
qed

lemma toy_caps_left:
  "list_toml (me_on toy_settings (disk_del (manifest_path ''/c/manifests'' ''caps'' ''echo'') toy_disk))
     (path_join ''/c/manifests'' ''caps'') = []"
  by (simp add: list_toml_def me_on_fields disk_dir_def disk_del_def toy_disk_def toy_locations toy_names)

lemma last_capability_still_served_witness:
  "\<exists>a1 :: settings_app. disk_get (manifest_path ''/c/manifests'' ''caps'' ''echo'') (sa_disk a1) = None
    \<and> nd_registry (sa_node a1) = nd_registry (sa_node toy_site) \<and> nd_registry (sa_node a1) \<noteq> []"
proof -
  let ?dk = "disk_del (manifest_path ''/c/manifests'' ''caps'' ''echo'') toy_disk"
  have "ln_backends (sa_node toy_site) \<noteq> None" by (simp add: toy_site_def toy_live_def with_manifest_runtime_def)
  then have l: "reload_caps (me_on toy_settings ?dk) (sa_node toy_site) = (Inr 0, sa_node toy_site)"
    by (auto simp: reload_caps_def Let_def load_cap_dir_def toy_caps_left loadable_def map_filter_simps)
  have "disk_get (manifest_path ''/c/manifests'' ''caps'' ''echo'') toy_disk \<noteq> None"
    by (simp add: disk_get_def toy_disk_def toy_locations toy_names)
  then have d: "delete_cap_manifest toy_settings ''/c'' ''echo'' toy_site
      = (respond 200 (json_obj [(''ok'', JBool True), (''name'', JStr ''echo''), (''registered'', jnat 0)]),
         toy_site\<lparr>sa_disk := ?dk, sa_node := sa_node toy_site\<rparr>)"
    using toy_names(2) l by (auto simp: delete_cap_manifest_def Let_def remove_disk_def)
  have "nd_registry (sa_node toy_site) \<noteq> []"
    by (simp add: toy_site_def toy_live_def with_manifest_runtime_def new_node_def enforce_snd from_entries_def reg_insert_def)
  moreover have "list_toml (me_on toy_settings (sa_disk (toy_site\<lparr>sa_disk := ?dk, sa_node := sa_node toy_site\<rparr>)))
      (path_join ''/c/manifests'' ''caps'') = []" by (simp add: toy_caps_left)
  note last_capability_still_served [OF toy_site_fields(1) d settings_error_status(2) this]
  ultimately show ?thesis by (intro exI [of _ "toy_site\<lparr>sa_disk := ?dk, sa_node := sa_node toy_site\<rparr>"]) simp
qed

lemma cap_route_reads_any_file_witness:
  "get_cap_manifest toy_settings ''/c'' ''/c/manifests/backends/tools'' toy_site
     = respond 200 (json_obj [(''name'', JStr ''/c/manifests/backends/tools''), (''toml'', JStr ''key'')])"
proof (rule cap_route_reads_any_file)
  have "locate (''/c/manifests/backends/tools'' @ ''.toml'') = [''c'', ''manifests'', ''backends'', ''tools.toml'']"
    by code_simp
  then show "disk_get (''/c/manifests/backends/tools'' @ ''.toml'') (sa_disk toy_site) = Some ''key''"
    by (simp add: disk_get_def toy_disk_def)
qed (simp_all add: starts_with_def)


end
