(* ===== verification/Node_Identity.thy ===== *)
theory Node_Identity
  imports Settings_Runs Node_Discovery
begin

text \<open>
  \<open>crates/node/src/identity_file.rs\<close> and the subcommands of \<open>server/cli.rs\<close> that use it: the key
  file of a node, its creation, and what \<open>keys\<close>, \<open>send\<close> and \<open>peers\<close> print. A secret is its 32
  bytes. JSON text, the random source, the mode of a fresh file and failures of the system are
  parameters.
\<close>

section \<open>The key file\<close>

record key_env = settings_env +
  key_json_read :: "string \<Rightarrow> json option"
  key_json_text :: "json \<Rightarrow> string"
  key_json_fault :: "string \<Rightarrow> string"
  hex_fault :: "string \<Rightarrow> string"
  chmod_fault :: "string \<Rightarrow> string option"
  fresh_mode :: nat
  open_db_fault :: "string \<Rightarrow> string option"

text \<open>The disk with the permission bits of the key files.\<close>

record key_store =
  ks_disk :: disk
  ks_modes :: "string list \<rightharpoonup> nat"

record identity_file =
  if_instance_id :: string
  if_secret_hex :: string
  if_public_hex :: string

definition enc_identity :: "identity_file \<Rightarrow> json" where
  "enc_identity f = json_obj [(''instance_id'', JStr (if_instance_id f)),
     (''secret_hex'', JStr (if_secret_hex f)), (''public_hex'', JStr (if_public_hex f))]"

definition dec_identity :: "json \<Rightarrow> identity_file option" where
  "dec_identity j = do {
     m \<leftarrow> struct_fields [''instance_id'', ''secret_hex'', ''public_hex''] j;
     i \<leftarrow> field_req as_str m ''instance_id'';
     s \<leftarrow> field_req as_str m ''secret_hex'';
     p \<leftarrow> field_req as_str m ''public_hex'';
     Some \<lparr>if_instance_id = i, if_secret_hex = s, if_public_hex = p\<rparr> }"

definition from_keypair :: "('x) crypto_scheme \<Rightarrow> keypair \<Rightarrow> identity_file" where
  "from_keypair cr kp = \<lparr>if_instance_id = keypair_id cr kp, if_secret_hex = hex_encode cr kp,
     if_public_hex = hex_encode cr (public_key cr kp)\<rparr>"

text \<open>A stale \<open>instance_id\<close> is only logged.\<close>

definition into_keypair ::
  "('x) key_env_scheme \<Rightarrow> ('y) crypto_scheme \<Rightarrow> identity_file \<Rightarrow> (node_error, keypair) result" where
  "into_keypair ke cr f =
     (case hex_decode cr (if_secret_hex f) of
        None \<Rightarrow> Inl (IdentityFile (''hex secret: '' @ hex_fault ke (if_secret_hex f)))
      | Some b \<Rightarrow> if length b \<noteq> 32 then Inl (IdentityFile ''secret must be 32 bytes'') else Inr b)"

definition load_identity ::
  "('x) key_env_scheme \<Rightarrow> ('y) crypto_scheme \<Rightarrow> string \<Rightarrow> disk \<Rightarrow> (node_error, keypair) result" where
  "load_identity ke cr p dk =
     (case read_disk ke dk p of
        Inl e \<Rightarrow> Inl (Io e)
      | Inr raw \<Rightarrow>
          (case Option.bind (key_json_read ke raw) dec_identity of
             None \<Rightarrow> Inl (NodeSerde (key_json_fault ke raw))
           | Some f \<Rightarrow> into_keypair ke cr f))"

text \<open>\<open>Path::parent\<close> and \<open>Path::exists\<close>.\<close>

definition parent_dir :: "string \<Rightarrow> string option" where
  "parent_dir p =
     (let q = trim_end_char CHR ''/'' p in
      if q = [] then None else Some (rev (drop 1 (dropWhile (\<lambda>c. c \<noteq> CHR ''/'') (rev q)))))"

definition path_exists :: "disk \<Rightarrow> string \<Rightarrow> bool" where
  "path_exists dk p \<longleftrightarrow>
     list_ex (\<lambda>f. take (length (locate p)) (fst f) = locate p) (dk_files dk)"

definition save_identity ::
  "('x) key_env_scheme \<Rightarrow> identity_file \<Rightarrow> string \<Rightarrow> key_store \<Rightarrow> (node_error, unit) result \<times> key_store" where
  "save_identity ke f p ks =
     (if path_exists (ks_disk ks) p
      then (Inl (IdentityFile (''refusing to overwrite existing identity at '' @ p)), ks)
      else (case Option.bind (parent_dir p) (make_dir_fault ke) of
              Some e \<Rightarrow> (Inl (Io e), ks)
            | None \<Rightarrow>
      (case write_disk ke p (key_json_text ke (enc_identity f)) (ks_disk ks) of (r, dk1) \<Rightarrow>
         let ks1 = \<lparr>ks_disk = dk1, ks_modes =
           (if disk_get p dk1 = None then ks_modes ks else (ks_modes ks)(locate p \<mapsto> fresh_mode ke))\<rparr> in
         (case r of
            Inl e \<Rightarrow> (Inl (Io e), ks1)
          | Inr _ \<Rightarrow>
              (case chmod_fault ke p of
                 Some e \<Rightarrow> (Inl (Io e), ks1)
               | None \<Rightarrow> (Inr (), ks1\<lparr>ks_modes := (ks_modes ks1)(locate p \<mapsto> 384)\<rparr>))))))"

definition default_path :: "string \<Rightarrow> string" where
  "default_path dir = path_join dir ''keys.json''"

definition db_path :: "string \<Rightarrow> string" where
  "db_path dir = path_join dir ''n3ur0n.sqlite''"

section \<open>Subcommands\<close>

text \<open>Each gives the error it ends with, or the lines it prints.\<close>

definition create_identity ::
  "('x) key_env_scheme \<Rightarrow> ('y) crypto_scheme \<Rightarrow> keypair \<Rightarrow> string \<Rightarrow> key_store \<Rightarrow> (string, keypair) result \<times> key_store" where
  "create_identity ke cr kp dir ks =
     (case make_dir_fault ke dir of
        Some _ \<Rightarrow> (Inl (''creating config dir '' @ dir), ks)
      | None \<Rightarrow>
          (case save_identity ke (from_keypair cr kp) (default_path dir) ks of
             (Inl e, ks1) \<Rightarrow> (Inl (node_error_text e), ks1)
           | (Inr _, ks1) \<Rightarrow>
               (case open_db_fault ke (db_path dir) of Some e \<Rightarrow> (Inl e, ks1) | None \<Rightarrow> (Inr kp, ks1))))"

definition config_dir_or_default :: "('x) settings_env_scheme \<Rightarrow> string option \<Rightarrow> string" where
  "config_dir_or_default se arg = (case arg of Some d \<Rightarrow> d | None \<Rightarrow> default_config_dir se)"

definition cli_init ::
  "('x) key_env_scheme \<Rightarrow> ('y) crypto_scheme \<Rightarrow> keypair \<Rightarrow> string option \<Rightarrow> key_store
     \<Rightarrow> (string, string list) result \<times> key_store" where
  "cli_init ke cr kp arg ks =
     (let dir = config_dir_or_default ke arg in
      case create_identity ke cr kp dir ks of
        (Inl e, ks1) \<Rightarrow> (Inl e, ks1)
      | (Inr k, ks1) \<Rightarrow>
          (Inr [''instance id: '' @ keypair_id cr k, ''config dir : '' @ dir,
                ''keys       : '' @ default_path dir, ''database   : '' @ db_path dir], ks1))"

definition cli_keys ::
  "('x) key_env_scheme \<Rightarrow> ('y) crypto_scheme \<Rightarrow> string option \<Rightarrow> disk \<Rightarrow> (string, string) result" where
  "cli_keys ke cr arg dk =
     (let p = default_path (config_dir_or_default ke arg) in
      case load_identity ke cr p dk of
        Inl _ \<Rightarrow> Inl (''reading identity from '' @ p)
      | Inr kp \<Rightarrow> Inr (keypair_id cr kp))"

definition parse_verb :: "string \<Rightarrow> (string, protocol_verb) result" where
  "parse_verb s =
     (if s = ''ping'' then Inr Ping
      else if s = ''describe_self'' then Inr DescribeSelf
      else if s = ''get_known_peers'' then Inr GetKnownPeers
      else if s = ''invoke'' then Inr Invoke
      else Inl (''unknown verb: '' @ s))"

record send_args =
  sd_config_dir :: "string option"
  sd_endpoint :: string
  sd_verb :: string
  sd_payload :: string

definition cli_send ::
  "('x) key_env_scheme \<Rightarrow> ('b, 'y) net_env_scheme \<Rightarrow> nat \<Rightarrow> send_args \<Rightarrow> disk \<Rightarrow> (string, string) result" where
  "cli_send ke ne k args dk =
     (let p = default_path (config_dir_or_default ke (sd_config_dir args)) in
      case load_identity ke ne p dk of
        Inl _ \<Rightarrow> Inl (''loading identity from '' @ p)
      | Inr kp \<Rightarrow>
      (case parse_verb (sd_verb args) of
         Inl e \<Rightarrow> Inl e
       | Inr v \<Rightarrow>
      (case key_json_read ke (sd_payload args) of
         None \<Rightarrow> Inl (''parsing --payload as JSON: '' @ sd_payload args)
       | Some pl \<Rightarrow>
      (case send_signed ne k kp (sd_endpoint args) v pl None of
         Inl e \<Rightarrow> Inl (client_error_text e)
       | Inr m \<Rightarrow> Inr (key_json_text ke (payload (sm_envelope m)))))))"

definition cli_peers_list :: "int \<Rightarrow> peer_table \<Rightarrow> string list" where
  "cli_peers_list n t =
     (let rows = peer_list n t in
      if rows = [] then [''(no peers in directory)'']
      else map (\<lambda>p. pr_id p @ [CHR 0x09] @ pr_endpoint p @ [CHR 0x09]
             @ (case pr_alias p of None \<Rightarrow> ''-'' | Some a \<Rightarrow> a)) rows)"

text \<open>The identity that \<open>load_node\<close> is given.\<close>

definition node_identity ::
  "('x) key_env_scheme \<Rightarrow> ('y) crypto_scheme \<Rightarrow> string \<Rightarrow> disk \<Rightarrow> (string, keypair) result" where
  "node_identity ke cr dir dk =
     (case load_identity ke cr (default_path dir) dk of Inl e \<Rightarrow> Inl (node_error_text e) | Inr kp \<Rightarrow> Inr kp)"

definition cli_peers_discover ::
  "('x) key_env_scheme \<Rightarrow> ('b, 'y) net_env_scheme \<Rightarrow> (binding, 'z) net_env_scheme
     \<Rightarrow> (peer_record list \<Rightarrow> peer_record list) \<Rightarrow> nat \<Rightarrow> string option \<Rightarrow> string \<Rightarrow> disk \<Rightarrow> peer_table
     \<Rightarrow> (string, string) result \<times> peer_table" where
  "cli_peers_discover ke cr ne shuffle k arg capability dk t =
     (let dir = config_dir_or_default ke arg in
      case load_node ke cr (node_identity ke cr dir dk) dir None UseEcho [] None dk of
        Inl e \<Rightarrow> (Inl e, t)
      | Inr n \<Rightarrow>
          (let c = discover_capability ne shuffle (node.truncate n) capability k t in
           (Inr (''discovered '' @ dec (cs_new c) @ '' new peer(s) for capability '' @ [CHR 0x22] @ capability
              @ [CHR 0x22]), cs_peers c)))"

section \<open>Lemmas\<close>

lemma identity_codec [simp]: "dec_identity (enc_identity f) = Some f"
  by (simp add: dec_identity_def enc_identity_def field_defs)

lemma put_exists: "disk_get p dk \<noteq> None \<Longrightarrow> path_exists dk p"
  by (auto simp: path_exists_def disk_get_def list_ex_iff dest!: map_of_SomeD intro!: bexI)

lemma into_from:
  assumes "hex_law cr" "length kp = 32"
  shows "into_keypair ke cr (from_keypair cr kp) = Inr kp"
  using assms by (simp add: into_keypair_def from_keypair_def hex_law_def)

text \<open>The stored id and public key decide nothing.\<close>

lemma stale_id_ignored:
  "into_keypair ke cr (f\<lparr>if_instance_id := i, if_public_hex := p\<rparr>) = into_keypair ke cr f"
  by (simp add: into_keypair_def split: option.split)

lemma saved_identity:
  assumes "save_identity ke f p ks = (Inr u, ks1)"
  shows "disk_get p (ks_disk ks1) = Some (key_json_text ke (enc_identity f))" "ks_modes ks1 (locate p) = Some 384"
    "save_identity ke' f' p ks1 = (Inl (IdentityFile (''refusing to overwrite existing identity at '' @ p)), ks1)"
proof -
  have dk: "\<exists>dk1. write_disk ke p (key_json_text ke (enc_identity f)) (ks_disk ks) = (Inr (), dk1)
      \<and> ks_disk ks1 = dk1 \<and> ks_modes ks1 (locate p) = Some 384"
    using assms by (auto simp: save_identity_def Let_def split: if_splits option.splits prod.splits sum.splits)
  then show get: "disk_get p (ks_disk ks1) = Some (key_json_text ke (enc_identity f))"
    by (auto dest: write_disk_ok simp: disk_get_put)
  show "ks_modes ks1 (locate p) = Some 384" using dk by blast
  have "path_exists (ks_disk ks1) p" using get by (intro put_exists) simp
  then show "save_identity ke' f' p ks1 = (Inl (IdentityFile (''refusing to overwrite existing identity at '' @ p)), ks1)"
    by (simp add: save_identity_def)
qed

section \<open>Properties\<close>

text \<open>
  C20 (an identity is made once and for good). After \<open>init\<close> succeeds, the key file is readable by its
  owner only, any further \<open>init\<close> is refused and changes nothing, \<open>keys\<close> prints the id that \<open>init\<close>
  printed, and a node starts from the directory under that id.
\<close>

theorem identity_made_once:
  assumes "hex_law cr" "\<And>j. key_json_read ke (key_json_text ke j) = Some j" "\<And>p. read_fault ke p = None"
    and "length kp = 32" "cli_init ke cr kp (Some dir) ks = (Inr out, ks1)"
  shows "hd out = ''instance id: '' @ keypair_id cr kp
    \<and> ks_modes ks1 (locate (default_path dir)) = Some 384
    \<and> isl (fst (cli_init ke cr kp' (Some dir) ks1)) \<and> snd (cli_init ke cr kp' (Some dir) ks1) = ks1
    \<and> cli_keys ke cr (Some dir) (ks_disk ks1) = Inr (keypair_id cr kp)
    \<and> (\<exists>n. load_node ke cr (node_identity ke cr dir (ks_disk ks1)) dir ep UseEcho lobes alias (ks_disk ks1) = Inr n
         \<and> nd_keypair n = kp)"
proof -
  obtain u where sv: "save_identity ke (from_keypair cr kp) (default_path dir) ks = (Inr u, ks1)"
    and mk: "make_dir_fault ke dir = None" and o: "hd out = ''instance id: '' @ keypair_id cr kp"
    using assms(5)
    by (auto simp: cli_init_def create_identity_def config_dir_or_default_def Let_def
        split: option.splits sum.splits prod.splits)
  note saved = saved_identity [OF sv]
  have load: "load_identity ke cr (default_path dir) (ks_disk ks1) = Inr kp"
    using assms(3) by (simp add: load_identity_def read_disk_def saved(1) assms(2) into_from [OF assms(1,4)])
  have again: "cli_init ke cr kp' (Some dir) ks1 =
      (Inl (node_error_text (IdentityFile (''refusing to overwrite existing identity at '' @ default_path dir))), ks1)"
    by (simp add: cli_init_def create_identity_def config_dir_or_default_def mk saved(3))
  have "\<exists>n. load_node ke cr (node_identity ke cr dir (ks_disk ks1)) dir ep UseEcho lobes alias (ks_disk ks1) = Inr n
      \<and> nd_keypair n = kp"
    by (simp add: node_identity_def load load_node_def Let_def with_manifest_runtime_def new_node_def)
  then show ?thesis
    using o saved(2) again load by (simp add: cli_keys_def config_dir_or_default_def)
qed

definition toy_key_env :: key_env where
  "toy_key_env = settings_env.extend toy_settings
     \<lparr>key_json_read = json_of_text, key_json_text = json_text_of, key_json_fault = id, hex_fault = id,
      chmod_fault = (\<lambda>_. None), fresh_mode = 420, open_db_fault = (\<lambda>_. None)\<rparr>"

lemma toy_key_fields [simp]:
  "key_json_read toy_key_env s = json_of_text s" "key_json_text toy_key_env j = json_text_of j"
  "read_fault toy_key_env p = None" "make_dir_fault toy_key_env p = None" "write_fault toy_key_env p c = None"
  "chmod_fault toy_key_env p = None" "open_db_fault toy_key_env p = None"
  by (simp_all add: toy_key_env_def settings_env.defs manifest_env.defs toy_settings_def)

lemma identity_made_once_witness:
  "\<exists>out ks1. cli_init toy_key_env toy_crypto (replicate 32 CHR ''k'') (Some ''/c'')
       \<lparr>ks_disk = \<lparr>dk_files = []\<rparr>, ks_modes = Map.empty\<rparr> = (Inr out, ks1)
     \<and> cli_keys toy_key_env toy_crypto (Some ''/c'') (ks_disk ks1) = Inr (keypair_id toy_crypto (replicate 32 CHR ''k''))"
proof -
  let ?ks = "\<lparr>ks_disk = \<lparr>dk_files = []\<rparr>, ks_modes = Map.empty\<rparr>"
  obtain out ks1 where r: "cli_init toy_key_env toy_crypto (replicate 32 CHR ''k'') (Some ''/c'') ?ks = (Inr out, ks1)"
    by (simp add: cli_init_def create_identity_def config_dir_or_default_def save_identity_def path_exists_def
        write_disk_def Let_def bind_eq_None_conv split: option.splits)
  from identity_made_once [OF hex_toy _ _ _ r] r show ?thesis by simp
qed

end
