(* ===== verification/Planner_Refs.thy ===== *)
theory Planner_Refs
  imports Bind_Template
begin

text \<open>
  \<open>crates/node/src/planner/plan.rs\<close>, reference resolution: which steps the arguments of a
  plan step refer to (\<open>${step.path}\<close>, leniently \<open>{step.path}\<close>) and what they resolve to on the
  blackboard of results. A \<open>HashSet\<close> of ids is a list whose order is never used.
\<close>

section \<open>Finding references\<close>

definition looks_like_step_id :: "string \<Rightarrow> bool" where
  "looks_like_step_id s \<longleftrightarrow>
     s \<noteq> [] \<and> is_ascii_alphabetic (hd s) \<and> list_all (\<lambda>c. is_ascii_alphanumeric c \<or> c = CHR ''_'') s"

definition head_of :: "string \<Rightarrow> string" where
  "head_of key = hd (split_on CHR ''.'' key)"

function extract_template_keys :: "string \<Rightarrow> string list" where
  "extract_template_keys [] = []"
| "extract_template_keys (c # cs) =
     (case (if starts_with ''${'' (c # cs) then find_char CHR ''}'' (drop 2 (c # cs)) else None) of
        Some e \<Rightarrow> take e (drop 2 (c # cs)) # extract_template_keys (drop (e + 3) (c # cs))
      | None \<Rightarrow>
          (case (if c = CHR ''{'' then find_char CHR ''}'' cs else None) of
             Some e \<Rightarrow>
               (if looks_like_step_id (head_of (take e cs)) then [take e cs] else [])
                 @ extract_template_keys (drop (e + 2) (c # cs))
           | None \<Rightarrow> extract_template_keys cs))"
  by pat_completeness auto
termination by (relation "measure length") auto

fun collect_refs :: "json \<Rightarrow> string list" where
  "collect_refs (JStr s) = filter (\<lambda>i. i \<noteq> []) (map head_of (extract_template_keys s))"
| "collect_refs (JArr xs) = concat (map collect_refs xs)"
| "collect_refs (JObj es) = concat (map (\<lambda>e. collect_refs (snd e)) es)"
| "collect_refs _ = []"

fun collect_ref_keys :: "json \<Rightarrow> string list" where
  "collect_ref_keys (JStr s) = extract_template_keys s"
| "collect_ref_keys (JArr xs) = concat (map collect_ref_keys xs)"
| "collect_ref_keys (JObj es) = concat (map (\<lambda>e. collect_ref_keys (snd e)) es)"
| "collect_ref_keys _ = []"

fun find_map :: "('a \<Rightarrow> 'b option) \<Rightarrow> 'a list \<Rightarrow> 'b option" where
  "find_map f [] = None"
| "find_map f (x # xs) = (case f x of Some y \<Rightarrow> Some y | None \<Rightarrow> find_map f xs)"

lemma find_map_cong [fundef_cong]:
  "xs = ys \<Longrightarrow> (\<And>x. x \<in> set ys \<Longrightarrow> f x = g x) \<Longrightarrow> find_map f xs = find_map g ys"
  by (induction xs arbitrary: ys) (auto split: option.split)

definition unresolved_in :: "string \<Rightarrow> string option" where
  "unresolved_in s =
     (case find_str ''${'' s of
        None \<Rightarrow> None
      | Some start \<Rightarrow>
          (case find_char CHR ''}'' (drop (start + 2) s) of
             None \<Rightarrow> None
           | Some e \<Rightarrow> Some (take (e + 3) (drop start s))))"

fun first_unresolved_template :: "json \<Rightarrow> string option" where
  "first_unresolved_template (JStr s) = unresolved_in s"
| "first_unresolved_template (JArr xs) = find_map first_unresolved_template xs"
| "first_unresolved_template (JObj es) = find_map (\<lambda>e. first_unresolved_template (snd e)) es"
| "first_unresolved_template _ = None"

section \<open>Resolving references\<close>

type_synonym blackboard = "string \<rightharpoonup> json"

definition plan_whole_template :: "string \<Rightarrow> string option" where
  "plan_whole_template s =
     (let t = trim s; a = take (length t - 3) (drop 2 t); b = take (length t - 2) (drop 1 t) in
      if starts_with ''${'' t \<and> ends_with ''}'' t \<and> \<not> has_str ''${'' a \<and> CHR ''{'' \<notin> set a then Some a
      else if starts_with ''{'' t \<and> ends_with ''}'' t \<and> \<not> starts_with ''${'' t
        \<and> CHR ''{'' \<notin> set b \<and> b \<noteq> [] then Some b
      else None)"

fun plan_walk :: "json \<Rightarrow> string list \<Rightarrow> json option" where
  "plan_walk v [] = Some v"
| "plan_walk v (p # ps) = (case json_get p v of None \<Rightarrow> None | Some v' \<Rightarrow> plan_walk v' ps)"

definition lookup_path :: "string \<Rightarrow> blackboard \<Rightarrow> json option" where
  "lookup_path p bb =
     (case split_on CHR ''.'' p of
        [] \<Rightarrow> None
      | i # ps \<Rightarrow> (case bb i of None \<Rightarrow> None | Some v \<Rightarrow> plan_walk v ps))"

definition rendered :: "(json \<Rightarrow> string) \<Rightarrow> blackboard \<Rightarrow> string \<Rightarrow> string \<Rightarrow> string" where
  "rendered show bb original inner =
     (case lookup_path inner bb of None \<Rightarrow> original | Some v \<Rightarrow> value_to_text show v)"

function plan_substitute :: "(json \<Rightarrow> string) \<Rightarrow> blackboard \<Rightarrow> string \<Rightarrow> string" where
  "plan_substitute show bb [] = []"
| "plan_substitute show bb (c # cs) =
     (case (if starts_with ''${'' (c # cs) then find_char CHR ''}'' (drop 2 (c # cs)) else None) of
        Some e \<Rightarrow>
          (let inner = take e (drop 2 (c # cs)) in
           rendered show bb (''${'' @ inner @ ''}'') inner
             @ plan_substitute show bb (drop (e + 3) (c # cs)))
      | None \<Rightarrow>
          (case (if c = CHR ''{'' then find_char CHR ''}'' cs else None) of
             Some e \<Rightarrow>
               (let inner = take e cs; h = head_of inner in
                if h \<noteq> [] \<and> bb h \<noteq> None
                then rendered show bb (''{'' @ inner @ ''}'') inner
                  @ plan_substitute show bb (drop (e + 2) (c # cs))
                else c # plan_substitute show bb cs)
           | None \<Rightarrow>
               take (char_width c) (c # cs) @ plan_substitute show bb (drop (char_width c) (c # cs))))"
  by pat_completeness auto
termination by (relation "measure (\<lambda>(_, _, s). length s)") (auto simp: char_width_def)

fun resolve_value :: "(json \<Rightarrow> string) \<Rightarrow> blackboard \<Rightarrow> json \<Rightarrow> json" where
  "resolve_value show bb (JStr s) =
     (case Option.bind (plan_whole_template s) (\<lambda>inner. lookup_path inner bb) of
        Some v \<Rightarrow> v
      | None \<Rightarrow> JStr (plan_substitute show bb s))"
| "resolve_value show bb (JArr xs) = JArr (map (resolve_value show bb) xs)"
| "resolve_value show bb (JObj es) = JObj (map (\<lambda>e. (fst e, resolve_value show bb (snd e))) es)"
| "resolve_value show bb v = v"

section \<open>Lemmas\<close>

text \<open>A text as an author sees it: literal pieces and \<open>${..}\<close> references.\<close>

fun plan_source :: "piece list \<Rightarrow> string" where
  "plan_source [] = []"
| "plan_source (Lit s # ps) = s @ plan_source ps"
| "plan_source (Ref p # ps) = ''${'' @ p @ ''}'' @ plan_source ps"

definition lit_ok :: "string \<Rightarrow> bool" where
  "lit_ok s \<longleftrightarrow> is_ascii s \<and> CHR ''{'' \<notin> set s"

fun plan_pieces_ok :: "piece list \<Rightarrow> bool" where
  "plan_pieces_ok [] = True"
| "plan_pieces_ok (Lit s # ps) = (lit_ok s \<and> plan_pieces_ok ps)"
| "plan_pieces_ok (Ref p # ps) = (CHR ''}'' \<notin> set p \<and> plan_pieces_ok ps)"

fun piece_refs :: "piece list \<Rightarrow> string list" where
  "piece_refs [] = []"
| "piece_refs (Lit s # ps) = piece_refs ps"
| "piece_refs (Ref p # ps) = p # piece_refs ps"

fun plan_expand :: "(json \<Rightarrow> string) \<Rightarrow> blackboard \<Rightarrow> piece list \<Rightarrow> string" where
  "plan_expand show bb [] = []"
| "plan_expand show bb (Lit s # ps) = s @ plan_expand show bb ps"
| "plan_expand show bb (Ref p # ps) =
     rendered show bb (''${'' @ p @ ''}'') p @ plan_expand show bb ps"

declare extract_template_keys.simps(2) [simp del] plan_substitute.simps(2) [simp del]

text \<open>A literal that ends in \<open>$\<close> must not run into a brace.\<close>

definition no_brace_next :: "string \<Rightarrow> string \<Rightarrow> bool" where
  "no_brace_next s t \<longleftrightarrow> s = [] \<or> last s \<noteq> CHR ''$'' \<or> \<not> starts_with ''{'' t"

lemma starts_dollar_brace: "starts_with ''${'' (c # s) \<longleftrightarrow> c = CHR ''$'' \<and> starts_with ''{'' s"
  by (cases s) (auto simp: starts_with_def)

lemma extract_literal:
  "lit_ok s \<Longrightarrow> no_brace_next s t \<Longrightarrow> extract_template_keys (s @ t) = extract_template_keys t"
proof (induction s)
  case (Cons c s)
  have "\<not> starts_with ''${'' (c # s @ t)"
    using Cons.prems by (cases s) (auto simp: starts_dollar_brace lit_ok_def no_brace_next_def starts_with_def)
  moreover have "no_brace_next s t" using Cons.prems(2) by (auto simp: no_brace_next_def split: if_splits)
  ultimately show ?case
    using Cons by (auto simp: extract_template_keys.simps(2) lit_ok_def is_ascii_def)
qed simp

lemma substitute_plan_literal:
  "lit_ok s \<Longrightarrow> no_brace_next s t \<Longrightarrow> plan_substitute show bb (s @ t) = s @ plan_substitute show bb t"
proof (induction s)
  case (Cons c s)
  have "\<not> starts_with ''${'' (c # s @ t)"
    using Cons.prems by (cases s) (auto simp: starts_dollar_brace lit_ok_def no_brace_next_def starts_with_def)
  moreover have "no_brace_next s t" using Cons.prems(2) by (auto simp: no_brace_next_def split: if_splits)
  moreover have "char_width c = 1" using Cons.prems(1) by (auto simp: lit_ok_def is_ascii_def char_width_def)
  ultimately show ?case
    using Cons by (auto simp: plan_substitute.simps(2) lit_ok_def is_ascii_def)
qed simp

lemma extract_reference:
  assumes "CHR ''}'' \<notin> set p"
  shows "extract_template_keys (''${'' @ p @ ''}'' @ t) = p # extract_template_keys t"
  using assms
  by (simp add: extract_template_keys.simps(2) starts_with_def numeral_2_eq_2 find_char_append numeral_3_eq_3)

lemma substitute_plan_reference:
  assumes "CHR ''}'' \<notin> set p"
  shows "plan_substitute show bb (''${'' @ p @ ''}'' @ t) =
    rendered show bb (''${'' @ p @ ''}'') p @ plan_substitute show bb t"
  using assms
  by (simp add: plan_substitute.simps(2) starts_with_def numeral_2_eq_2 find_char_append numeral_3_eq_3)

lemma source_no_brace: "plan_pieces_ok ps \<Longrightarrow> \<not> starts_with ''{'' (plan_source ps)"
proof (induction ps rule: plan_source.induct)
  case (2 s ps)
  then show ?case by (cases s) (auto simp: starts_with_def lit_ok_def)
qed (auto simp: starts_with_def)

lemma extract_pieces: "plan_pieces_ok ps \<Longrightarrow> extract_template_keys (plan_source ps) = piece_refs ps"
  by (induction ps rule: plan_source.induct)
    (auto simp: extract_literal no_brace_next_def source_no_brace extract_reference [simplified])

lemma substitute_plan_pieces:
  "plan_pieces_ok ps \<Longrightarrow> plan_substitute show bb (plan_source ps) = plan_expand show bb ps"
  by (induction ps rule: plan_source.induct)
    (auto simp: substitute_plan_literal no_brace_next_def source_no_brace
      substitute_plan_reference [simplified])

text \<open>A reference inside an outer pair of braces, as in JSON text.\<close>

lemma extract_skips_braces:
  assumes "CHR ''}'' \<notin> set inner" "\<not> looks_like_step_id (head_of inner)"
  shows "extract_template_keys (''{'' @ inner @ ''}'' @ t) = extract_template_keys t"
  using assms by (simp add: extract_template_keys.simps(2) starts_with_def find_char_append)

lemma substitute_enters_braces:
  assumes "CHR ''}'' \<notin> set inner" "bb (head_of inner) = None"
  shows "plan_substitute show bb (''{'' @ inner @ ''}'' @ t) =
    CHR ''{'' # plan_substitute show bb (inner @ ''}'' @ t)"
  using assms by (simp add: plan_substitute.simps(2) [of _ _ "CHR ''{''"] starts_with_def find_char_append Let_def)

section \<open>Properties\<close>

text \<open>
  (references in plain text). In a text whose only braces belong to \<open>${..}\<close> references, the
  references found are exactly those the author wrote, and substitution replaces exactly them,
  by the text of the value or by themselves when there is none.
\<close>

theorem references_in_plain_text:
  assumes "plan_pieces_ok ps"
  shows "collect_ref_keys (JStr (plan_source ps)) = piece_refs ps
    \<and> plan_substitute show bb (plan_source ps) = plan_expand show bb ps"
  using assms by (simp add: extract_pieces substitute_plan_pieces)

lemma references_in_plain_text_witness:
  "collect_ref_keys (JStr (plan_source [Lit ''sum: '', Ref ''s1.value'', Lit '' and '', Ref ''s2'']))
     = piece_refs [Lit ''sum: '', Ref ''s1.value'', Lit '' and '', Ref ''s2'']
   \<and> plan_substitute print_json (\<lambda>_. None) (plan_source [Lit ''sum: '', Ref ''s1.value'', Lit '' and '', Ref ''s2''])
     = plan_expand print_json (\<lambda>_. None) [Lit ''sum: '', Ref ''s1.value'', Lit '' and '', Ref ''s2'']"
  by (rule references_in_plain_text) (simp add: lit_ok_def is_ascii_def)

text \<open>
  (a reference the dependency scan misses). Inside an outer pair of braces, as in
  \<open>{"q": "${s1.x}"}\<close>, a reference is substituted but not collected: the step does not wait
  for the step it refers to.
\<close>

theorem braced_reference_missed:
  assumes "lit_ok pre" "CHR ''}'' \<notin> set pre" "pre \<noteq> []" "\<not> is_ascii_alphabetic (hd pre)"
    and "hd pre \<noteq> CHR ''.''" "hd pre \<noteq> CHR ''$''"
    and "CHR ''}'' \<notin> set p" "lit_ok post" "bb (head_of (pre @ ''${'' @ p)) = None"
  shows "collect_refs (JStr (''{'' @ pre @ ''${'' @ p @ ''}'' @ post)) = []
    \<and> plan_substitute show bb (''{'' @ pre @ ''${'' @ p @ ''}'' @ post)
      = ''{'' @ pre @ rendered show bb (''${'' @ p @ ''}'') p @ post"
proof -
  let ?inner = "pre @ ''${'' @ p"
  have nb: "CHR ''}'' \<notin> set ?inner" using assms by simp
  have post: "extract_template_keys post = []" "plan_substitute show bb post = post"
    using extract_literal [of post "[]"] substitute_plan_literal [of post "[]" "show" bb] assms(8)
    by (simp_all add: no_brace_next_def starts_with_def)
  have "hd (head_of ?inner) = hd pre"
    using assms(3,5) by (cases pre) (auto simp: head_of_def split: list.split)
  then have "\<not> looks_like_step_id (head_of ?inner)" using assms(4) by (simp add: looks_like_step_id_def)
  from extract_skips_braces [OF nb this, of post]
  have keys: "extract_template_keys (''{'' @ pre @ ''${'' @ p @ ''}'' @ post) = []" using post by simp
  have "plan_substitute show bb (pre @ ''${'' @ p @ ''}'' @ post)
      = pre @ rendered show bb (''${'' @ p @ ''}'') p @ post"
    using substitute_plan_literal [OF assms(1), of "''${'' @ p @ ''}'' @ post" "show" bb]
      substitute_plan_reference [OF assms(7), of "show" bb post] post
    by (simp add: no_brace_next_def starts_with_def)
  then show ?thesis
    using keys substitute_enters_braces [of ?inner bb "show" post] nb assms(9) by simp
qed

lemma braced_reference_missed_witness:
  "collect_refs (JStr (''{'' @ ''_q_: '' @ ''${'' @ ''s1.x'' @ ''}'' @ '' }'')) = []
    \<and> plan_substitute print_json [''s1'' \<mapsto> json_obj [(''x'', JStr ''v'')]]
        (''{'' @ ''_q_: '' @ ''${'' @ ''s1.x'' @ ''}'' @ '' }'')
      = ''{'' @ ''_q_: '' @ rendered print_json [''s1'' \<mapsto> json_obj [(''x'', JStr ''v'')]]
          (''${'' @ ''s1.x'' @ ''}'') ''s1.x'' @ '' }''"
  by (rule braced_reference_missed)
    (simp_all add: lit_ok_def is_ascii_def is_ascii_alphabetic_def is_ascii_lowercase_def
      is_ascii_uppercase_def head_of_def)

end
