(* ===== verification/Planner_Catalog.thy ===== *)
theory Planner_Catalog
  imports Node_Handler
begin

text \<open>
  \<open>crates/node/src/planner/catalog.rs\<close>: the tools a plan may use, gathered from the local
  registry and the cached descriptors of peers, ranked, scoped and looked up by name. Scores
  (\<open>f32\<close> under \<open>total_cmp\<close>) are elements of a linear order.
\<close>

section \<open>Building\<close>

record tool_def =
  td_peer_id :: string
  td_peer_endpoint :: "string option"
  td_cap :: capability_decl

type_synonym catalog = "tool_def list"

definition EXCLUDED_CAP_NAMES :: "string list" where
  "EXCLUDED_CAP_NAMES = [''plan'']"

definition LOCAL_TOP_K :: nat where
  "LOCAL_TOP_K = 12"

definition listable :: "capability_decl \<Rightarrow> bool" where
  "listable c \<longleftrightarrow> cap_name c \<notin> set EXCLUDED_CAP_NAMES \<and> examples c \<noteq> []"

definition cached_caps :: "('b, 'x) node_env_scheme \<Rightarrow> peer_record \<Rightarrow> capability_decl list" where
  "cached_caps ne r =
     (case Option.bind (describe_self_cached r) (json_from_str ne) of
        None \<Rightarrow> []
      | Some parsed \<Rightarrow>
          (case Option.bind (json_get ''capabilities'' parsed) as_array of
             None \<Rightarrow> []
           | Some cs \<Rightarrow> List.map_filter dec_decl cs))"

definition catalog_build ::
  "('b, 'x) node_env_scheme \<Rightarrow> string \<Rightarrow> 'b registry \<Rightarrow> peer_table \<Rightarrow> int \<Rightarrow> catalog" where
  "catalog_build ne self_id loc peers peer_limit =
     map (\<lambda>c. \<lparr>td_peer_id = self_id, td_peer_endpoint = None, td_cap = c\<rparr>)
       (filter listable (reg_all loc))
     @ concat (map (\<lambda>r. map (\<lambda>c. \<lparr>td_peer_id = pr_id r, td_peer_endpoint = Some (pr_endpoint r), td_cap = c\<rparr>)
         (filter listable (cached_caps ne r))) (peer_list peer_limit peers))"

section \<open>Ranking\<close>

definition rank_top :: "nat \<Rightarrow> (tool_def \<times> 's::linorder) list \<Rightarrow> tool_def list" where
  "rank_top k ts =
     map fst (take k (if length ts > k then rev (sort_key snd (rev ts)) else ts))"

definition filter_with_scores :: "'s::linorder list \<Rightarrow> nat \<Rightarrow> catalog \<Rightarrow> catalog" where
  "filter_with_scores scores remote_top_k tools =
     (if remote_top_k = 0 then tools
      else if length scores \<noteq> length tools then tools
      else let ts = zip tools scores in
        rank_top LOCAL_TOP_K (filter (\<lambda>p. td_peer_endpoint (fst p) = None) ts)
        @ rank_top remote_top_k (filter (\<lambda>p. td_peer_endpoint (fst p) \<noteq> None) ts))"

definition filter_for_query ::
  "(catalog \<Rightarrow> string \<Rightarrow> nat \<Rightarrow> 's::linorder) \<Rightarrow> string \<Rightarrow> nat \<Rightarrow> catalog \<Rightarrow> catalog" where
  "filter_for_query score query remote_top_k tools =
     (if remote_top_k = 0 \<or> trim query = [] then tools
      else filter_with_scores (map (score tools query) [0..<length tools]) remote_top_k tools)"

definition build_for_query ::
  "('b, 'x) node_env_scheme \<Rightarrow> (catalog \<Rightarrow> string \<Rightarrow> nat \<Rightarrow> 's::linorder) \<Rightarrow> string \<Rightarrow> 'b registry
     \<Rightarrow> peer_table \<Rightarrow> int \<Rightarrow> string \<Rightarrow> nat \<Rightarrow> catalog" where
  "build_for_query ne score self_id loc peers peer_limit query remote_top_k =
     filter_for_query score query remote_top_k (catalog_build ne self_id loc peers peer_limit)"

section \<open>Names and scopes\<close>

definition short_peer :: "string \<Rightarrow> string" where
  "short_peer p =
     concat (take 12 (chars (case strip_prefix ''n3:'' p of Some b \<Rightarrow> b | None \<Rightarrow> p)))"

definition tool_name :: "tool_def \<Rightarrow> string" where
  "tool_name t = short_peer (td_peer_id t) @ ''::'' @ cap_name (td_cap t)"

definition tool_names :: "catalog \<Rightarrow> (string \<times> string) list" where
  "tool_names tools = map (\<lambda>t. (short_peer (td_peer_id t), cap_name (td_cap t))) tools"

definition scoped_to :: "string list \<Rightarrow> string list \<Rightarrow> string list \<Rightarrow> catalog \<Rightarrow> catalog" where
  "scoped_to peer_ids lobes caps tools =
     (if peer_ids = [] \<and> lobes = [] \<and> caps = [] then tools
      else filter (\<lambda>t. (peer_ids = [] \<or> td_peer_id t \<in> set peer_ids)
        \<and> (lobes = [] \<or> list_ex (\<lambda>l. l \<in> set lobes) (lobe_ids (td_cap t)))
        \<and> (caps = [] \<or> cap_name (td_cap t) \<in> set caps)) tools)"

definition catalog_find :: "string \<Rightarrow> catalog \<Rightarrow> tool_def option" where
  "catalog_find name tools =
     (case split_once_str ''::'' name of
        None \<Rightarrow> None
      | Some (peer, cap) \<Rightarrow>
          find (\<lambda>t. short_peer (td_peer_id t) = peer \<and> cap_name (td_cap t) = cap) tools)"

definition to_openai_tools :: "catalog \<Rightarrow> json list" where
  "to_openai_tools tools =
     map (\<lambda>t. json_obj [(''type'', JStr ''function''),
       (''function'', json_obj [(''name'', JStr (tool_name t)),
          (''description'', JStr (description (td_cap t))), (''parameters'', schema_in (td_cap t))])])
       tools"

section \<open>Lemmas\<close>

lemma set_rank_top: "set (rank_top k ts) \<subseteq> fst ` set ts"
proof -
  have "set (take k xs) \<subseteq> set xs" for xs :: "(tool_def \<times> 'a) list" by (rule set_take_subset)
  then show ?thesis unfolding rank_top_def by (simp add: image_mono) (metis image_mono set_rev set_sort)
qed

lemma length_rank_top: "length (rank_top k ts) \<le> k"
  by (simp add: rank_top_def)

lemma rank_top_best:
  assumes "(t, s) \<in> set ts" "t \<notin> set (rank_top k ts)" "u \<in> set (rank_top k ts)"
  shows "\<exists>s'. (u, s') \<in> set ts \<and> s \<le> s'"
proof (cases "length ts > k")
  case True
  let ?r = "rev (sort_key snd (rev ts))"
  have top: "rank_top k ts = map fst (take k ?r)" using True by (simp add: rank_top_def)
  obtain s' where u: "(u, s') \<in> set (take k ?r)" using assms(3) by (auto simp: top)
  have "(t, s) \<in> set (drop k ?r)"
  proof -
    have "(t, s) \<in> set (take k ?r @ drop k ?r)" using assms(1) by simp
    moreover have "(t, s) \<notin> set (take k ?r)" using assms(2) by (force simp: top)
    ultimately show ?thesis by (simp only: set_append Un_iff) blast
  qed
  moreover have "sorted (map snd (sort_key snd (rev ts)))" by simp
  then have "sorted_wrt (\<lambda>x y. y \<le> x) (rev (map snd (sort_key snd (rev ts))))"
    by (simp only: sorted_wrt_rev)
  then have "sorted_wrt (\<ge>) (map snd ?r)" by (simp only: rev_map)
  then have "sorted_wrt (\<lambda>p q. snd q \<le> snd p) (take k ?r @ drop k ?r)"
    by (simp add: sorted_wrt_map)
  ultimately have "s \<le> s'" using u unfolding sorted_wrt_append by fastforce
  moreover have "(u, s') \<in> set ts" using in_set_takeD [OF u] by simp
  ultimately show ?thesis by blast
next
  case False
  then have "rank_top k ts = map fst ts" by (simp add: rank_top_def)
  then show ?thesis using assms by force
qed

lemma find_str_sep:
  assumes "CHR '':'' \<notin> set a"
  shows "find_str ''::'' (a @ ''::'' @ b) = Some (length a)"
  using assms by (intro find_str_literal) (auto simp: starts_with_def)

lemma split_tool_name:
  assumes "CHR '':'' \<notin> set a"
  shows "split_once_str ''::'' (a @ ''::'' @ b) = Some (a, b)"
  unfolding split_once_str_def find_str_sep [OF assms] by simp

lemma set_scoped_to:
  "t \<in> set (scoped_to ps ls cs tools) \<longleftrightarrow> t \<in> set tools
     \<and> (ps = [] \<or> td_peer_id t \<in> set ps)
     \<and> (ls = [] \<or> set (lobe_ids (td_cap t)) \<inter> set ls \<noteq> {})
     \<and> (cs = [] \<or> cap_name (td_cap t) \<in> set cs)"
  by (auto simp: scoped_to_def list_ex_iff)

section \<open>Properties\<close>

text \<open>
  (tool names resolve). The name under which a tool is advertised finds a tool of the catalog
  with the same short peer and capability, the tool itself when no other shares both.
\<close>

theorem tool_name_resolves:
  assumes "t \<in> set tools" "CHR '':'' \<notin> set (short_peer (td_peer_id t))"
  shows "\<exists>u. catalog_find (tool_name t) tools = Some u \<and> u \<in> set tools
    \<and> short_peer (td_peer_id u) = short_peer (td_peer_id t)
    \<and> cap_name (td_cap u) = cap_name (td_cap t)
    \<and> (u = t \<or> \<not> distinct (tool_names tools))"
proof -
  let ?P = "\<lambda>u. short_peer (td_peer_id u) = short_peer (td_peer_id t) \<and> cap_name (td_cap u) = cap_name (td_cap t)"
  have f: "catalog_find (tool_name t) tools = find ?P tools"
    unfolding catalog_find_def tool_name_def split_tool_name [OF assms(2)] by simp
  then obtain u where u: "find ?P tools = Some u" "u \<in> set tools" "?P u"
    using assms(1) by (cases "find ?P tools") (auto simp: find_None_iff find_Some_iff)
  have "u = t" if "distinct (tool_names tools)"
    using that u(2,3) assms(1) by (auto simp: tool_names_def distinct_map dest: inj_onD)
  then show ?thesis using f u by auto
qed

definition toy_tool :: "string \<Rightarrow> string option \<Rightarrow> string \<Rightarrow> tool_def" where
  "toy_tool p ep c = \<lparr>td_peer_id = p, td_peer_endpoint = ep, td_cap = toy_decl c Free\<rparr>"

lemma tool_name_resolves_witness:
  "catalog_find (tool_name (toy_tool ''n3:ab'' None ''echo'')) [toy_tool ''n3:ab'' None ''echo'']
    = Some (toy_tool ''n3:ab'' None ''echo'')"
proof -
  let ?t = "toy_tool ''n3:ab'' None ''echo''"
  have "short_peer ''n3:ab'' = ''ab''" by code_simp
  then have "CHR '':'' \<notin> set (short_peer (td_peer_id ?t))" by (simp add: toy_tool_def)
  moreover have "?t \<in> set [?t]" by simp
  ultimately obtain u where "catalog_find (tool_name ?t) [?t] = Some u" "u \<in> set [?t]"
    using tool_name_resolves [of ?t "[?t]"] by blast
  then show ?thesis by simp
qed

text \<open>
  (ranking bounds the catalog). With scores that match, the filtered catalog takes tools of
  the catalog only, at most 12 local and \<open>remote_top_k\<close> remote ones, and never drops a tool for
  a worse one of its group.
\<close>

theorem ranking_keeps_the_best:
  assumes "0 < k" "length scores = length tools" "out = filter_with_scores scores k tools"
  shows "set out \<subseteq> set tools
    \<and> length out \<le> LOCAL_TOP_K + k
    \<and> length (filter (\<lambda>t. td_peer_endpoint t \<noteq> None) out) \<le> k
    \<and> (\<forall>(t, s)\<in>set (zip tools scores). t \<notin> set out \<longrightarrow>
        (\<forall>u\<in>set out. (td_peer_endpoint u = None \<longleftrightarrow> td_peer_endpoint t = None) \<longrightarrow>
          (\<exists>s'. (u, s') \<in> set (zip tools scores) \<and> s \<le> s')))"
proof -
  let ?z = "zip tools scores"
  let ?l = "filter (\<lambda>p. td_peer_endpoint (fst p) = None) ?z"
  let ?r = "filter (\<lambda>p. td_peer_endpoint (fst p) \<noteq> None) ?z"
  let ?L = "rank_top LOCAL_TOP_K ?l" and ?R = "rank_top k ?r"
  have out: "out = ?L @ ?R" using assms by (simp add: filter_with_scores_def Let_def)
  have L: "u \<in> fst ` set ?l" if "u \<in> set ?L" for u using that set_rank_top by fast
  have R: "u \<in> fst ` set ?r" if "u \<in> set ?R" for u using that set_rank_top by fast
  have loc: "td_peer_endpoint u = None" "u \<in> set tools" if "u \<in> set ?L" for u
    using L [OF that] by (auto dest: set_zip_leftD)
  have rem: "td_peer_endpoint u \<noteq> None" "u \<in> set tools" if "u \<in> set ?R" for u
    using R [OF that] by (auto dest: set_zip_leftD)
  have sub: "set out \<subseteq> set tools" using loc(2) rem(2) out by auto
  have len: "length out \<le> LOCAL_TOP_K + k"
    unfolding out length_append by (intro add_mono length_rank_top)
  have "filter (\<lambda>t. td_peer_endpoint t \<noteq> None) ?L = []"
    unfolding filter_empty_conv by (intro ballI) (simp only: loc(1) not_not)
  then have "filter (\<lambda>t. td_peer_endpoint t \<noteq> None) out = filter (\<lambda>t. td_peer_endpoint t \<noteq> None) ?R"
    unfolding out filter_append by simp
  then have rlen: "length (filter (\<lambda>t. td_peer_endpoint t \<noteq> None) out) \<le> k"
    using le_trans [OF length_filter_le length_rank_top] by metis
  have best: "\<exists>s'. (u, s') \<in> set ?z \<and> s \<le> s'"
    if t: "(t, s) \<in> set ?z" "t \<notin> set out" and u: "u \<in> set out"
      and same: "td_peer_endpoint u = None \<longleftrightarrow> td_peer_endpoint t = None" for t s u
  proof (cases "td_peer_endpoint t = None")
    case True
    have "(t, s) \<in> set ?l" using t(1) True by simp
    moreover have "t \<notin> set ?L" using t(2) unfolding out set_append by blast
    moreover have "u \<in> set ?L" using u rem(1) [of u] same True unfolding out set_append by (elim UnE) simp_all
    ultimately obtain s' where "(u, s') \<in> set ?l" "s \<le> s'" using rank_top_best by meson
    then show ?thesis unfolding set_filter by blast
  next
    case False
    have "(t, s) \<in> set ?r" using t(1) False by simp
    moreover have "t \<notin> set ?R" using t(2) unfolding out set_append by blast
    moreover have "u \<in> set ?R" using u loc(1) [of u] same False unfolding out set_append by (elim UnE) simp_all
    ultimately obtain s' where "(u, s') \<in> set ?r" "s \<le> s'" using rank_top_best by meson
    then show ?thesis unfolding set_filter by blast
  qed
  then have "\<forall>(t, s)\<in>set ?z. t \<notin> set out \<longrightarrow> (\<forall>u\<in>set out.
      (td_peer_endpoint u = None \<longleftrightarrow> td_peer_endpoint t = None) \<longrightarrow> (\<exists>s'. (u, s') \<in> set ?z \<and> s \<le> s'))"
    by (intro ballI impI case_prodI2) simp
  then show ?thesis using sub len rlen by (intro conjI)
qed

definition toy_catalog :: catalog where
  "toy_catalog = [toy_tool ''n3:ab'' None ''echo'', toy_tool ''n3:cd'' (Some ''http://cd'') ''sum'',
     toy_tool ''n3:ef'' (Some ''http://ef'') ''sum'']"

lemma ranking_keeps_the_best_witness:
  "set (filter_with_scores [3, 1, 2 :: int] 1 toy_catalog) \<subseteq> set toy_catalog
    \<and> length (filter_with_scores [3, 1, 2 :: int] 1 toy_catalog) \<le> LOCAL_TOP_K + 1"
  using ranking_keeps_the_best [of 1 "[3, 1, 2 :: int]" toy_catalog, OF _ _ refl]
  by (simp add: toy_catalog_def)

text \<open>
  (what a catalog is built from). Every tool offers at least one example and is not called
  \<open>plan\<close>; a tool without an endpoint is a capability of the local registry, one with an endpoint
  comes from the cached descriptor of the stored peer it names.
\<close>

theorem catalog_sources:
  "t \<in> set (catalog_build ne self_id loc peers lim) \<Longrightarrow>
     examples (td_cap t) \<noteq> [] \<and> cap_name (td_cap t) \<noteq> ''plan''
     \<and> (if td_peer_endpoint t = None then td_peer_id t = self_id \<and> td_cap t \<in> set (reg_all loc)
        else \<exists>r\<in>set peers. td_peer_id t = pr_id r \<and> td_peer_endpoint t = Some (pr_endpoint r)
          \<and> td_cap t \<in> set (cached_caps ne r))"
  using peer_list_subset [of lim peers]
  by (fastforce simp: catalog_build_def listable_def EXCLUDED_CAP_NAMES_def)

lemma catalog_sources_witness:
  defines "d \<equiv> (toy_decl ''echo'' Free)\<lparr>examples := [\<lparr>user_intent = [], ex_args = JNull, expected_output = JNull\<rparr>]\<rparr>"
  shows "examples (td_cap \<lparr>td_peer_id = ''me'', td_peer_endpoint = None, td_cap = d\<rparr>) \<noteq> []"
proof -
  have "\<lparr>td_peer_id = ''me'', td_peer_endpoint = None, td_cap = d\<rparr>
      \<in> set (catalog_build toy_node_env ''me'' (from_decls [d]) [] 10)"
    by (simp add: catalog_build_def listable_def EXCLUDED_CAP_NAMES_def d_def toy_decl_def
        from_decls_def reg_insert_def reg_all_def)
  from catalog_sources [OF this] show ?thesis by blast
qed

end
