(* ===== verification/Planner_Plan.thy ===== *)
theory Planner_Plan
  imports Planner_Refs Planner_Catalog
begin

text \<open>
  \<open>crates/node/src/planner/plan.rs\<close>, plans and their order: the dependency graph of a plan,
  Kahn's algorithm on it, validation against the catalog, and depth. Releasing the dependents
  of a finished step is the same loop in \<open>topological_order\<close> and in the executor; what it
  promises is the interface \<open>dep_graph\<close>. The order of a plan with repeated step ids need not
  exist (the queue may never drain), so Kahn's loop is a partial function.
\<close>

section \<open>Releasing dependents\<close>

fun release_all :: "'k list \<Rightarrow> ('k \<rightharpoonup> nat) \<Rightarrow> ('k \<rightharpoonup> nat) \<times> 'k list" where
  "release_all [] indeg = (indeg, [])"
| "release_all (i # is) indeg =
     (case indeg i of
        None \<Rightarrow> release_all is indeg
      | Some d \<Rightarrow>
          (case release_all is (indeg(i \<mapsto> d - 1)) of
             (indeg', freed) \<Rightarrow> (indeg', if d - 1 = 0 then i # freed else freed)))"

partial_function (option) kahn ::
  "('k \<Rightarrow> 'k list) \<Rightarrow> 'k list \<Rightarrow> ('k \<rightharpoonup> nat) \<Rightarrow> 'k list \<Rightarrow> 'k list option" where
  "kahn outs queue indeg acc =
     (case queue of
        [] \<Rightarrow> Some acc
      | i # rest \<Rightarrow>
          (case release_all (outs i) indeg of
             (indeg', freed) \<Rightarrow> kahn outs (rest @ freed) indeg' (acc @ [i])))"

declare kahn.simps [code]

lemma release_all_fst:
  "distinct is \<Longrightarrow> fst (release_all is m) i = (if i \<in> set is then map_option (\<lambda>n. n - 1) (m i) else m i)"
proof (induction "is" arbitrary: m)
  case (Cons j "is")
  then show ?case
    by (cases "m j") (auto simp: prod.case_eq_if)
qed simp

lemma release_all_snd:
  "distinct is \<Longrightarrow> snd (release_all is m) = filter (\<lambda>i. \<exists>n. m i = Some n \<and> n - 1 = 0) is"
proof (induction "is" arbitrary: m)
  case (Cons j "is")
  have same: "filter (\<lambda>i. \<exists>n. (m(j \<mapsto> k)) i = Some n \<and> n - 1 = 0) is
      = filter (\<lambda>i. \<exists>n. m i = Some n \<and> n - 1 = 0) is" for k
    using Cons.prems by (intro filter_cong) auto
  show ?case
  proof (cases "m j")
    case None
    then show ?thesis using Cons by simp
  next
    case (Some d)
    then show ?thesis
      using Cons.IH [of "m(j \<mapsto> d - 1)"] Cons.prems same [of "d - 1"]
      by (simp add: prod.case_eq_if del: fun_upd_apply)
  qed
qed simp

section \<open>Interface: dependency graphs\<close>

locale dep_graph =
  fixes ids :: "'k list" and deps :: "'k \<Rightarrow> 'k set" and outs :: "'k \<Rightarrow> 'k list"
  assumes outs_set: "set (outs d) = {i \<in> set ids. d \<in> deps i}"
    and outs_distinct: "distinct (outs d)"
    and deps_ids: "deps i \<subseteq> set ids"
    and deps_irrefl: "i \<notin> deps i"
begin

definition dep_rel :: "('k \<times> 'k) set" where
  "dep_rel = {(d, i). i \<in> set ids \<and> d \<in> deps i}"

definition tracks :: "('k \<rightharpoonup> nat) \<Rightarrow> 'k set \<Rightarrow> bool" where
  "tracks m done \<longleftrightarrow> (\<forall>i. m i = (if i \<in> set ids then Some (card (deps i - done)) else None))"

definition available :: "'k set \<Rightarrow> 'k set" where
  "available done = {i \<in> set ids. deps i \<subseteq> done}"

lemma finite_deps: "finite (deps i)"
  using deps_ids by (rule finite_subset) simp

lemma release_step:
  assumes "tracks m done" "d \<notin> done"
  shows "tracks (fst (release_all (outs d) m)) (insert d done)"
    and "snd (release_all (outs d) m) = filter (\<lambda>i. deps i \<subseteq> insert d done) (outs d)"
    and "available (insert d done) = available done \<union> set (snd (release_all (outs d) m))"
    and "available done \<inter> set (snd (release_all (outs d) m)) = {}"
proof -
  have minus: "card (deps i - insert d done) = card (deps i - done) - (if d \<in> deps i then 1 else 0)" for i
  proof -
    have "deps i - insert d done = (deps i - done) - {d}" by blast
    then show ?thesis using assms(2) by (simp add: card_Diff_singleton_if)
  qed
  show "tracks (fst (release_all (outs d) m)) (insert d done)"
    using assms(1) by (auto simp: tracks_def release_all_fst outs_distinct outs_set minus)
  have zero: "card (deps i - done) - 1 = 0 \<longleftrightarrow> deps i \<subseteq> insert d done" if "d \<in> deps i" for i
  proof -
    have "card (deps i - done) - 1 = card (deps i - insert d done)" using minus [of i] that by simp
    then show ?thesis using finite_deps [of i] by auto
  qed
  show freed: "snd (release_all (outs d) m) = filter (\<lambda>i. deps i \<subseteq> insert d done) (outs d)"
    unfolding release_all_snd [OF outs_distinct]
    using assms(1) zero by (intro filter_cong) (auto simp: outs_set tracks_def)
  show "available (insert d done) = available done \<union> set (snd (release_all (outs d) m))"
    unfolding freed by (auto simp: available_def outs_set)
  show "available done \<inter> set (snd (release_all (outs d) m)) = {}"
    unfolding freed using assms(2) by (auto simp: available_def outs_set)
qed

text \<open>The state of Kahn's loop: what is done, queued, and counted.\<close>

definition kahn_inv :: "'k list \<Rightarrow> ('k \<rightharpoonup> nat) \<Rightarrow> 'k list \<Rightarrow> bool" where
  "kahn_inv queue m acc \<longleftrightarrow> tracks m (set acc) \<and> distinct (acc @ queue)
     \<and> set (acc @ queue) = available (set acc) \<and> (\<forall>k<length acc. deps (acc ! k) \<subseteq> set (take k acc))"

lemma kahn_inv_step:
  assumes "kahn_inv (i # rest) m acc"
  shows "kahn_inv (rest @ snd (release_all (outs i) m)) (fst (release_all (outs i) m)) (acc @ [i])"
proof -
  have i: "i \<notin> set acc" "tracks m (set acc)" "deps i \<subseteq> set acc"
    using assms by (auto simp: kahn_inv_def available_def)
  note r = release_step [OF i(2,1)]
  have old: "set acc \<union> set (i # rest) = available (set acc)" "distinct (acc @ i # rest)"
    using assms by (auto simp: kahn_inv_def)
  have "distinct (snd (release_all (outs i) m))" unfolding r(2) by (simp add: outs_distinct)
  then have "distinct ((acc @ [i]) @ rest @ snd (release_all (outs i) m))"
    using old r(4) by auto
  moreover have "set ((acc @ [i]) @ rest @ snd (release_all (outs i) m)) = available (set (acc @ [i]))"
    using old(1) r(3) by auto
  moreover have "\<forall>k<length (acc @ [i]). deps ((acc @ [i]) ! k) \<subseteq> set (take k (acc @ [i]))"
    using assms i(3) by (auto simp: kahn_inv_def nth_append less_Suc_eq)
  ultimately show ?thesis using r(1) by (simp add: kahn_inv_def)
qed

lemma kahn_terminates:
  assumes "kahn_inv queue m acc"
  shows "\<exists>order m'. kahn outs queue m acc = Some order \<and> kahn_inv [] m' order"
  using assms
proof (induction "card (set ids) - length acc" arbitrary: queue m acc rule: less_induct)
  case less
  show ?case
  proof (cases queue)
    case Nil
    then show ?thesis using less.prems by (subst kahn.simps) auto
  next
    case (Cons i rest)
    let ?r = "release_all (outs i) m"
    have inv: "kahn_inv (rest @ snd ?r) (fst ?r) (acc @ [i])"
      using kahn_inv_step less.prems Cons by simp
    have "set (acc @ [i]) \<subseteq> set ids" "distinct (acc @ [i])"
      using less.prems Cons by (auto simp: kahn_inv_def available_def)
    then have "length (acc @ [i]) \<le> card (set ids)"
      by (metis List.finite_set card_mono distinct_card)
    then have "\<exists>order m'. kahn outs (rest @ snd ?r) (fst ?r) (acc @ [i]) = Some order \<and> kahn_inv [] m' order"
      using inv by (intro less.hyps) auto
    then show ?thesis using Cons by (subst kahn.simps) (simp add: prod.case_eq_if)
  qed
qed

text \<open>Without cycles, work stops only when everything is done.\<close>

lemma closed_complete:
  assumes "acyclic dep_rel" "done = available done"
  shows "done = set ids"
proof -
  have "dep_rel \<subseteq> set ids \<times> set ids" using deps_ids by (auto simp: dep_rel_def)
  then have "finite dep_rel" by (rule finite_subset) simp
  then have wf: "wf dep_rel" using assms(1) by (simp add: finite_acyclic_wf)
  have "i \<in> set ids \<longrightarrow> i \<in> done" for i
    using wf
  proof (induction i rule: wf_induct_rule)
    case (less i)
    then have "i \<in> set ids \<Longrightarrow> deps i \<subseteq> done" using deps_ids by (auto simp: dep_rel_def)
    then show ?case using assms(2) by (auto simp: available_def)
  qed
  then show ?thesis using assms(2) by (auto simp: available_def)
qed

lemma complete_iff_acyclic:
  assumes "kahn_inv [] m order"
  shows "set order = set ids \<longleftrightarrow> acyclic dep_rel"
proof
  assume all: "set order = set ids"
  have dist: "distinct order" using assms by (simp add: kahn_inv_def)
  let ?f = "the_inv_into {..<length order} ((!) order)"
  have f: "?f (order ! k) = k" if "k < length order" for k
    using that dist by (intro the_inv_into_f_f) (auto simp: inj_on_nth)
  have "dep_rel \<subseteq> inv_image less_than ?f"
  proof (clarsimp simp: dep_rel_def)
    fix d i assume "i \<in> set ids" "d \<in> deps i"
    then obtain k where k: "k < length order" "i = order ! k" using all by (metis in_set_conv_nth)
    then have "d \<in> set (take k order)" using assms \<open>d \<in> deps i\<close> by (auto simp: kahn_inv_def)
    then obtain j where "j < k" "j < length order" "d = order ! j" by (auto simp: in_set_conv_nth)
    then show "?f d < ?f i" using k f by simp
  qed
  then show "acyclic dep_rel" by (meson acyclic_subset wf_acyclic wf_inv_image wf_less_than)
next
  assume "acyclic dep_rel"
  moreover have "set order = available (set order)" using assms by (simp add: kahn_inv_def)
  ultimately show "set order = set ids" by (rule closed_complete)
qed

end

section \<open>Plans\<close>

record plan_step =
  step_id :: string
  step_peer :: string
  step_capability :: string
  step_args :: json
  step_depends :: "string list"

type_synonym plan = "plan_step list"

datatype plan_error = PlanParse string | Validation string | Execution string

definition MAX_PLAN_STEPS :: nat where
  "MAX_PLAN_STEPS = 8"

definition step_deps :: "plan_step \<Rightarrow> string list" where
  "step_deps s = remdups (step_depends s @ collect_refs (step_args s))"

text \<open>The last step of an id wins, as when collecting into a \<open>HashMap\<close>.\<close>

definition last_wins :: "('a \<times> 'v) list \<Rightarrow> 'a \<rightharpoonup> 'v" where
  "last_wins es = map_of (rev es)"

definition plan_index :: "plan \<Rightarrow> string \<Rightarrow> nat" where
  "plan_index p i =
     (case last_wins (zip (map step_id p) [0..<length p]) i of None \<Rightarrow> 2 ^ 64 - 1 | Some n \<Rightarrow> n)"

type_synonym graph = "(string \<rightharpoonup> nat) \<times> (string \<rightharpoonup> string list)"

definition zero_graph :: "plan \<Rightarrow> graph" where
  "zero_graph p = fold (\<lambda>s (indeg, edges).
       (if indeg (step_id s) = None then indeg(step_id s \<mapsto> 0) else indeg,
        if edges (step_id s) = None then edges(step_id s \<mapsto> []) else edges)) p (Map.empty, Map.empty)"

definition add_dep :: "string \<Rightarrow> string \<Rightarrow> graph \<Rightarrow> graph" where
  "add_dep i d g =
     (case g of (indeg, edges) \<Rightarrow>
        if d = i then (indeg, edges)
        else if indeg d = None then (indeg, edges)
        else (indeg(i \<mapsto> (case indeg i of None \<Rightarrow> 0 | Some n \<Rightarrow> n) + 1),
              edges(d \<mapsto> (case edges d of None \<Rightarrow> [] | Some l \<Rightarrow> l) @ [i])))"

definition dep_graph_of :: "plan \<Rightarrow> graph" where
  "dep_graph_of p =
     (case fold (\<lambda>s g. fold (add_dep (step_id s)) (step_deps s) g) p (zero_graph p) of
        (indeg, edges) \<Rightarrow>
          (indeg, \<lambda>i. map_option (\<lambda>l. remdups_adj (sort_key (plan_index p) l)) (edges i)))"

definition plan_outs :: "plan \<Rightarrow> string \<Rightarrow> string list" where
  "plan_outs p i = (case snd (dep_graph_of p) i of None \<Rightarrow> [] | Some l \<Rightarrow> l)"

definition roots :: "plan \<Rightarrow> string list" where
  "roots p = filter (\<lambda>i. fst (dep_graph_of p) i = Some 0) (map step_id p)"

definition topological_order :: "plan \<Rightarrow> string list option" where
  "topological_order p = kahn (plan_outs p) (roots p) (fst (dep_graph_of p)) []"

section \<open>The graph of a plan\<close>

definition plan_deps :: "plan \<Rightarrow> string \<Rightarrow> string set" where
  "plan_deps p i = {d \<in> step_id ` set p. d \<noteq> i \<and> (\<exists>s\<in>set p. step_id s = i \<and> d \<in> set (step_deps s))}"

lemma zero_fold:
  "fold (\<lambda>s (indeg, edges).
       (if indeg (step_id s) = None then indeg(step_id s \<mapsto> 0) else indeg,
        if edges (step_id s) = None then edges(step_id s \<mapsto> []) else edges)) p (a, b)
   = (\<lambda>i. if i \<in> step_id ` set p \<and> a i = None then Some 0 else a i,
      \<lambda>i. if i \<in> step_id ` set p \<and> b i = None then Some [] else b i)"
proof (induction p arbitrary: a b)
  case (Cons s p)
  show ?case
    unfolding fold_Cons o_apply prod.case Cons.IH
    by (rule arg_cong2 [of _ _ _ _ Pair]; rule ext) simp_all
qed simp

lemma zero_graph: "zero_graph p =
    (\<lambda>i. if i \<in> step_id ` set p then Some 0 else None, \<lambda>i. if i \<in> step_id ` set p then Some [] else None)"
  by (simp add: zero_graph_def zero_fold)

lemma add_deps:
  assumes "distinct ds" "\<And>x. indeg x \<noteq> None \<longleftrightarrow> x \<in> I" "indeg i = Some n"
  shows "fold (add_dep i) ds (indeg, edges) =
    (indeg(i \<mapsto> n + length (filter (\<lambda>d. d \<noteq> i \<and> d \<in> I) ds)),
     \<lambda>d. if d \<in> set ds \<and> d \<noteq> i \<and> d \<in> I
       then Some ((case edges d of None \<Rightarrow> [] | Some l \<Rightarrow> l) @ [i]) else edges d)"
  using assms
proof (induction ds arbitrary: indeg edges n)
  case Nil
  then show ?case by (simp add: fun_upd_idem)
next
  case (Cons d ds)
  show ?case
  proof (cases "d \<noteq> i \<and> d \<in> I")
    case True
    have known: "indeg d \<noteq> None" using Cons.prems(2) True by blast
    have "add_dep i d (indeg, edges) = (indeg(i \<mapsto> n + 1), edges(d \<mapsto> (case edges d of None \<Rightarrow> [] | Some l \<Rightarrow> l) @ [i]))"
      using True known Cons.prems(3) by (auto simp: add_dep_def)
    moreover have "(indeg(i \<mapsto> n + 1)) x \<noteq> None \<longleftrightarrow> x \<in> I" for x
      using Cons.prems(2) [of x] Cons.prems(3) by (cases "x = i") auto
    ultimately have "fold (add_dep i) (d # ds) (indeg, edges) =
      ((indeg(i \<mapsto> n + 1))(i \<mapsto> n + 1 + length (filter (\<lambda>d. d \<noteq> i \<and> d \<in> I) ds)),
       \<lambda>x. if x \<in> set ds \<and> x \<noteq> i \<and> x \<in> I
         then Some ((case (edges(d \<mapsto> (case edges d of None \<Rightarrow> [] | Some l \<Rightarrow> l) @ [i])) x of None \<Rightarrow> [] | Some l \<Rightarrow> l) @ [i])
         else (edges(d \<mapsto> (case edges d of None \<Rightarrow> [] | Some l \<Rightarrow> l) @ [i])) x)"
      using Cons.prems(1) by (simp only: fold_Cons o_apply) (rule Cons.IH; simp)
    then show ?thesis using True Cons.prems(1) by (auto simp: fun_eq_iff)
  next
    case False
    have "add_dep i d (indeg, edges) = (indeg, edges)"
    proof (cases "d = i")
      case False
      then have "indeg d = None" using \<open>\<not> (d \<noteq> i \<and> d \<in> I)\<close> Cons.prems(2) [of d] by simp
      then show ?thesis by (simp add: add_dep_def)
    qed (simp add: add_dep_def)
    then have "fold (add_dep i) (d # ds) (indeg, edges) = fold (add_dep i) ds (indeg, edges)" by simp
    also have "\<dots> = (indeg(i \<mapsto> n + length (filter (\<lambda>d. d \<noteq> i \<and> d \<in> I) ds)),
        \<lambda>d. if d \<in> set ds \<and> d \<noteq> i \<and> d \<in> I
          then Some ((case edges d of None \<Rightarrow> [] | Some l \<Rightarrow> l) @ [i]) else edges d)"
      using Cons.prems by (intro Cons.IH) simp_all
    finally show ?thesis using False by (auto simp: fun_eq_iff)
  qed
qed

text \<open>The dependents of \<open>d\<close> among some steps, and how many dependencies \<open>i\<close> has in them.\<close>

definition waits :: "string set \<Rightarrow> string \<Rightarrow> plan_step \<Rightarrow> bool" where
  "waits I d s \<longleftrightarrow> d \<in> set (step_deps s) \<and> d \<noteq> step_id s \<and> d \<in> I"

definition dep_count :: "string set \<Rightarrow> plan_step \<Rightarrow> nat" where
  "dep_count I s = length (filter (\<lambda>d. d \<noteq> step_id s \<and> d \<in> I) (step_deps s))"

lemma add_steps:
  assumes "\<And>x. indeg x \<noteq> None \<longleftrightarrow> x \<in> I" "\<And>x. edges x \<noteq> None \<longleftrightarrow> x \<in> I"
    and "step_id ` set p \<subseteq> I"
  shows "fold (\<lambda>s g. fold (add_dep (step_id s)) (step_deps s) g) p (indeg, edges) =
    (\<lambda>i. map_option (\<lambda>n. n + sum_list (map (dep_count I) (filter (\<lambda>s. step_id s = i) p))) (indeg i),
     \<lambda>d. map_option (\<lambda>l. l @ map step_id (filter (waits I d) p)) (edges d))"
  using assms
proof (induction p arbitrary: indeg edges)
  case Nil
  then show ?case by (simp add: option.map_ident)
next
  case (Cons s p)
  obtain n where n: "indeg (step_id s) = Some n" using Cons.prems(1) [of "step_id s"] Cons.prems(3) by auto
  let ?i = "indeg(step_id s \<mapsto> n + dep_count I s)"
  let ?e = "\<lambda>d. if d \<in> set (step_deps s) \<and> d \<noteq> step_id s \<and> d \<in> I
       then Some ((case edges d of None \<Rightarrow> [] | Some l \<Rightarrow> l) @ [step_id s]) else edges d"
  have step: "fold (add_dep (step_id s)) (step_deps s) (indeg, edges) = (?i, ?e)"
    using add_deps [OF _ Cons.prems(1) n, of "step_deps s" edges] by (simp add: step_deps_def dep_count_def)
  have i: "?i x \<noteq> None \<longleftrightarrow> x \<in> I" for x using Cons.prems(1) [of x] n by (cases "x = step_id s") auto
  have e: "?e x \<noteq> None \<longleftrightarrow> x \<in> I" for x using Cons.prems(2) [of x] by simp
  have left: "map_option (\<lambda>k. k + sum_list (map (dep_count I) (filter (\<lambda>s. step_id s = x) p))) (?i x)
      = map_option (\<lambda>k. k + sum_list (map (dep_count I) (filter (\<lambda>s. step_id s = x) (s # p)))) (indeg x)" for x
    using n by (cases "x = step_id s") (auto simp: add.assoc)
  have right: "map_option (\<lambda>l. l @ map step_id (filter (waits I d) p)) (?e d)
      = map_option (\<lambda>l. l @ map step_id (filter (waits I d) (s # p))) (edges d)" for d
    using Cons.prems(2) [of d] by (cases "edges d") (auto simp: waits_def)
  have "fold (\<lambda>s g. fold (add_dep (step_id s)) (step_deps s) g) (s # p) (indeg, edges)
      = fold (\<lambda>s g. fold (add_dep (step_id s)) (step_deps s) g) p (?i, ?e)"
    using step by simp
  also have "\<dots> = (\<lambda>i. map_option (\<lambda>n. n + sum_list (map (dep_count I) (filter (\<lambda>s. step_id s = i) p))) (?i i),
     \<lambda>d. map_option (\<lambda>l. l @ map step_id (filter (waits I d) p)) (?e d))"
    using Cons.prems(3) by (intro Cons.IH i e) simp
  finally show ?case unfolding left right .
qed

lemma graph_of: "dep_graph_of p =
    (\<lambda>i. if i \<in> step_id ` set p
       then Some (sum_list (map (dep_count (step_id ` set p)) (filter (\<lambda>s. step_id s = i) p))) else None,
     \<lambda>d. if d \<in> step_id ` set p
       then Some (remdups_adj (sort_key (plan_index p) (map step_id (filter (waits (step_id ` set p) d) p))))
       else None)"
  unfolding dep_graph_of_def zero_graph by (subst add_steps [where I = "step_id ` set p"]) (auto simp: fun_eq_iff)

lemma distinct_remdups_adj:
  "sorted (map f xs) \<Longrightarrow> inj_on f (set xs) \<Longrightarrow> distinct (remdups_adj xs)"
proof (induction xs rule: remdups_adj.induct)
  case (3 x y xs)
  have "x \<notin> set (y # xs)" if "x \<noteq> y"
  proof
    assume "x \<in> set (y # xs)"
    then have "f y \<le> f x" using 3(3) by auto
    then have "f x = f y" using 3(3) by auto
    then show False using that 3(4) by (auto dest: inj_onD)
  qed
  moreover have "inj_on f (set (x # xs))" "inj_on f (set (y # xs))"
    using 3(4) by (auto intro: inj_on_subset)
  ultimately show ?case using 3(1,2,3) by (cases "x = y") simp_all
qed simp_all

lemma plan_index_at:
  assumes "i \<in> step_id ` set p"
  shows "plan_index p i < length p" "step_id (p ! plan_index p i) = i"
proof -
  have "fst ` set (zip (map step_id p) [0..<length p]) = set (map fst (zip (map step_id p) [0..<length p]))" by (simp only: set_map)
  also have "\<dots> = step_id ` set p" by (subst map_fst_zip) simp_all
  finally have "fst ` set (rev (zip (map step_id p) [0..<length p])) = step_id ` set p" by simp
  with assms obtain n where n: "last_wins (zip (map step_id p) [0..<length p]) i = Some n"
    unfolding last_wins_def using map_of_eq_None_iff [of "rev (zip (map step_id p) [0..<length p])" i] by blast
  then have "(i, n) \<in> set (zip (map step_id p) [0..<length p])"
    unfolding last_wins_def by (metis map_of_SomeD set_rev)
  then obtain k where "k < length p" "i = step_id (p ! k)" "n = k" by (auto simp: in_set_zip)
  then show "plan_index p i < length p" "step_id (p ! plan_index p i) = i"
    using n by (simp_all add: plan_index_def)
qed

lemma plan_index_nth:
  assumes "distinct (map step_id p)" "k < length p"
  shows "plan_index p (step_id (p ! k)) = k"
proof -
  have "step_id (p ! k) \<in> step_id ` set p" using assms(2) by simp
  from plan_index_at [OF this] show ?thesis using assms by (simp add: distinct_conv_nth) metis
qed

lemma plan_index_inj: "inj_on (plan_index p) (step_id ` set p)"
  by (rule inj_onI) (metis plan_index_at(2))

lemma plan_outs: "plan_outs p d = (if d \<in> step_id ` set p
    then remdups_adj (sort_key (plan_index p) (map step_id (filter (waits (step_id ` set p) d) p))) else [])"
  by (simp add: plan_outs_def graph_of)

interpretation plan_graph: dep_graph "map step_id p" "plan_deps p" "plan_outs p" for p
proof (unfold_locales, goal_cases)
  case (1 d)
  show ?case
  proof (cases "d \<in> step_id ` set p")
    case True
    then have "i \<in> set (plan_outs p d) \<longleftrightarrow> (\<exists>s\<in>set p. step_id s = i \<and> d \<in> set (step_deps s)) \<and> d \<noteq> i" for i
      by (auto simp: plan_outs waits_def)
    then show ?thesis using True by (auto simp: plan_deps_def)
  qed (auto simp: plan_outs plan_deps_def)
next
  case (2 d)
  have "inj_on (plan_index p) (set (map step_id (filter (waits (step_id ` set p) d) p)))"
    by (rule inj_on_subset [OF plan_index_inj]) auto
  then show ?case unfolding plan_outs by (simp add: distinct_remdups_adj [where f = "plan_index p"])
qed (auto simp: plan_deps_def)

lemma filter_id_single:
  "distinct (map step_id p) \<Longrightarrow> s \<in> set p \<Longrightarrow> filter (\<lambda>x. step_id x = step_id s) p = [s]"
proof (induction p)
  case (Cons x p)
  show ?case
  proof (cases "x = s")
    case True
    have "step_id s \<notin> step_id ` set p" using Cons.prems(1) True by simp
    then have "step_id y \<noteq> step_id s" if "y \<in> set p" for y using that by (metis imageI)
    then show ?thesis using True by (simp add: filter_empty_conv)
  next
    case False
    then have "s \<in> set p" using Cons.prems(2) by simp
    moreover have "step_id x \<noteq> step_id s" using Cons.prems(1) \<open>s \<in> set p\<close> by force
    ultimately show ?thesis using Cons by simp
  qed
qed simp

lemma plan_deps_of:
  assumes "distinct (map step_id p)" "s \<in> set p"
  shows "plan_deps p (step_id s) = {d \<in> set (step_deps s). d \<noteq> step_id s \<and> d \<in> step_id ` set p}"
proof -
  have "x = s" if "x \<in> set p" "step_id x = step_id s" for x
    using assms that by (auto simp: distinct_map dest: inj_onD)
  then show ?thesis using assms(2) by (auto simp: plan_deps_def)
qed

lemma graph_tracks:
  assumes "distinct (map step_id p)"
  shows "plan_graph.tracks p (fst (dep_graph_of p)) {}"
proof -
  have "sum_list (map (dep_count (step_id ` set p)) (filter (\<lambda>s. step_id s = i) p)) = card (plan_deps p i)"
    if i: "i \<in> step_id ` set p" for i
  proof -
    obtain s where s: "s \<in> set p" "i = step_id s" using i by auto
    have "dep_count (step_id ` set p) s
        = card (set (filter (\<lambda>d. d \<noteq> step_id s \<and> d \<in> step_id ` set p) (step_deps s)))"
      unfolding dep_count_def by (rule distinct_card [symmetric]) (simp add: step_deps_def)
    also have "set (filter (\<lambda>d. d \<noteq> step_id s \<and> d \<in> step_id ` set p) (step_deps s)) = plan_deps p (step_id s)"
      unfolding plan_deps_of [OF assms s(1)] set_filter by (rule refl)
    finally show ?thesis using s filter_id_single [OF assms s(1)] by simp
  qed
  then show ?thesis by (auto simp: plan_graph.tracks_def graph_of)
qed

lemma roots_inv:
  assumes "distinct (map step_id p)"
  shows "plan_graph.kahn_inv p (roots p) (fst (dep_graph_of p)) []"
proof -
  note t = graph_tracks [OF assms]
  have "set (roots p) = plan_graph.available p {}"
    using t plan_graph.finite_deps [of p]
    by (auto simp: roots_def plan_graph.tracks_def plan_graph.available_def)
  then show ?thesis using assms t by (simp add: plan_graph.kahn_inv_def roots_def)
qed

definition acyclic_plan :: "plan \<Rightarrow> bool" where
  "acyclic_plan p \<longleftrightarrow> acyclic {(d, i). d \<in> plan_deps p i}"

lemma plan_rel: "plan_graph.dep_rel p = {(d, i). d \<in> plan_deps p i}"
  by (auto simp: plan_graph.dep_rel_def plan_deps_def)

lemma topological_order_run:
  assumes "distinct (map step_id p)"
  obtains order m where "topological_order p = Some order" "plan_graph.kahn_inv p [] m order"
    "set order = set (map step_id p) \<longleftrightarrow> acyclic_plan p"
  using plan_graph.kahn_terminates [OF roots_inv [OF assms]] plan_graph.complete_iff_acyclic
  by (auto simp: topological_order_def acyclic_plan_def plan_rel)

section \<open>Validation\<close>

text \<open>\<open>jsonschema\<close> compiles a schema or says why not; the validator lists the errors it finds.\<close>

type_synonym json_schema = "json \<Rightarrow> (string, json \<Rightarrow> string list) result"

definition validate_args_against_schema ::
  "json_schema \<Rightarrow> json \<Rightarrow> json \<Rightarrow> (string, unit) result" where
  "validate_args_against_schema js args sch =
     (if as_object sch = None \<or> as_object sch = Some [] then Inr ()
      else (case js sch of
              Inl e \<Rightarrow> Inl (''schema compile failed: '' @ e)
            | Inr validate \<Rightarrow>
                if validate args = [] then Inr () else Inl (join ''; '' (take 3 (validate args)))))"

fun check_each :: "('a \<Rightarrow> ('e, unit) result) \<Rightarrow> 'a list \<Rightarrow> ('e, unit) result" where
  "check_each f [] = Inr ()"
| "check_each f (x # xs) = (case f x of Inl e \<Rightarrow> Inl e | Inr _ \<Rightarrow> check_each f xs)"

lemma check_each_ok: "check_each f xs = Inr () \<longleftrightarrow> (\<forall>x\<in>set xs. f x = Inr ())"
  by (induction xs) (auto split: sum.splits)

fun check_ids :: "string list \<Rightarrow> plan \<Rightarrow> (plan_error, unit) result" where
  "check_ids seen [] = Inr ()"
| "check_ids seen (s # p) =
     (if step_id s \<in> set seen
      then Inl (Validation (''duplicate step id `'' @ step_id s @ ''`''))
      else check_ids (step_id s # seen) p)"

definition step_tool :: "plan_step \<Rightarrow> string" where
  "step_tool s = step_peer s @ ''::'' @ step_capability s"

definition check_step :: "json_schema \<Rightarrow> catalog \<Rightarrow> plan \<Rightarrow> plan_step \<Rightarrow> (plan_error, unit) result" where
  "check_step js cat p s =
     (case catalog_find (step_tool s) cat of
        None \<Rightarrow> Inl (Validation (''step `'' @ step_id s @ ''`: tool `'' @ step_tool s @ ''` not in catalog''))
      | Some t \<Rightarrow>
          (case (if first_unresolved_template (step_args s) = None
                 then validate_args_against_schema js (step_args s) (schema_in (td_cap t)) else Inr ()) of
             Inl e \<Rightarrow> Inl (Validation (''step `'' @ step_id s @ ''`: args do not conform to `''
               @ step_tool s @ ''` schema_in: '' @ e))
           | Inr _ \<Rightarrow>
               check_each (\<lambda>d. if d \<in> step_id ` set p then Inr ()
                 else Inl (Validation (''step `'' @ step_id s @ ''`: depends_on `'' @ d @ ''` does not exist'')))
                 (step_depends s)))"

definition schema_outs :: "catalog \<Rightarrow> plan \<Rightarrow> string \<rightharpoonup> json" where
  "schema_outs cat p = last_wins (List.map_filter
     (\<lambda>s. map_option (\<lambda>t. (step_id s, schema_out (td_cap t))) (catalog_find (step_tool s) cat)) p)"

definition check_key :: "catalog \<Rightarrow> plan \<Rightarrow> plan_step \<Rightarrow> string \<Rightarrow> (plan_error, unit) result" where
  "check_key cat p s key =
     (let rid = head_of key; ref = ''${'' @ key @ ''}'' in
      if rid \<notin> step_id ` set p
      then Inl (Validation (''step `'' @ step_id s @ ''`: reference `'' @ ref
        @ ''` points to unknown step `'' @ rid @ ''`''))
      else if rid = step_id s
      then Inl (Validation (''step `'' @ step_id s @ ''`: references its own output `'' @ ref @ ''`''))
      else (case tl (split_on CHR ''.'' key) of
              [] \<Rightarrow> Inr ()
            | field # _ \<Rightarrow>
                (case Option.bind (Option.bind (schema_outs cat p rid) (json_get ''properties'')) as_object of
                   None \<Rightarrow> Inr ()
                 | Some props \<Rightarrow>
                     if props \<noteq> [] \<and> field \<notin> fst ` set props
                     then Inl (Validation (''step `'' @ step_id s @ ''`: `'' @ ref @ ''` references field `''
                       @ field @ ''` not produced by step `'' @ rid @ ''` (available: ''
                       @ join '', '' (map fst props) @ '')''))
                     else Inr ())))"

text \<open>The outer option is whether validation returns at all.\<close>

definition validate_plan :: "json_schema \<Rightarrow> catalog \<Rightarrow> plan \<Rightarrow> (plan_error, unit) result option" where
  "validate_plan js cat p =
     (if p = [] then Some (Inl (Validation ''plan has no steps''))
      else if length p > MAX_PLAN_STEPS
      then Some (Inl (Validation (''plan has '' @ dec (length p) @ '' steps, exceeds MAX_PLAN_STEPS=''
        @ dec MAX_PLAN_STEPS)))
      else (case check_ids [] p of
        Inl e \<Rightarrow> Some (Inl e)
      | Inr _ \<Rightarrow>
          (case check_each (check_step js cat p) p of
             Inl e \<Rightarrow> Some (Inl e)
           | Inr _ \<Rightarrow>
               (case check_each (\<lambda>s. check_each (check_key cat p s) (collect_ref_keys (step_args s))) p of
                  Inl e \<Rightarrow> Some (Inl e)
                | Inr _ \<Rightarrow>
                    (case topological_order p of
                       None \<Rightarrow> None
                     | Some order \<Rightarrow>
                         Some (if length order \<noteq> length p
                           then Inl (Validation ''plan has a dependency cycle'') else Inr ()))))))"

section \<open>Depth\<close>

fun depth_loop ::
  "(string \<rightharpoonup> plan_step) \<Rightarrow> string list \<Rightarrow> (string \<rightharpoonup> nat) \<Rightarrow> nat \<Rightarrow> nat" where
  "depth_loop by_id [] level deepest = deepest"
| "depth_loop by_id (i # order) level deepest =
     (case by_id i of
        None \<Rightarrow> depth_loop by_id order level deepest
      | Some s \<Rightarrow>
          (let ds = List.map_filter level (filter (\<lambda>d. d \<noteq> step_id s) (step_deps s));
               d = (if ds = [] then 0 else Max (set ds)) + 1
           in depth_loop by_id order (level(step_id s \<mapsto> d)) (max deepest d)))"

definition steps_by_id :: "plan \<Rightarrow> string \<rightharpoonup> plan_step" where
  "steps_by_id p = last_wins (map (\<lambda>s. (step_id s, s)) p)"

definition plan_depth :: "plan \<Rightarrow> nat option" where
  "plan_depth p = map_option (\<lambda>order. depth_loop (steps_by_id p) order Map.empty 0) (topological_order p)"

lemma check_ids_ok: "check_ids seen p = Inr () \<longleftrightarrow> distinct (map step_id p) \<and> set seen \<inter> step_id ` set p = {}"
  by (induction seen p rule: check_ids.induct) auto

lemma steps_by_id:
  assumes "distinct (map step_id p)" "s \<in> set p"
  shows "steps_by_id p (step_id s) = Some s"
proof -
  have "distinct (map fst (rev (map (\<lambda>s. (step_id s, s)) p)))"
    using assms(1) by (simp add: rev_map [symmetric] comp_def)
  then show ?thesis using assms(2) by (simp add: steps_by_id_def last_wins_def map_of_eq_Some_iff)
qed

text \<open>A chain of steps, each waiting for the one before.\<close>

definition chain :: "plan \<Rightarrow> string list \<Rightarrow> bool" where
  "chain p xs \<longleftrightarrow> xs \<noteq> [] \<and> set xs \<subseteq> step_id ` set p \<and> successively (\<lambda>d i. d \<in> plan_deps p i) xs"

lemma chain_snoc: "chain p (xs @ [i]) \<longleftrightarrow>
    i \<in> step_id ` set p \<and> (xs = [] \<or> chain p xs \<and> last xs \<in> plan_deps p i)"
  by (auto simp: chain_def successively_append_iff)

definition longest :: "plan \<Rightarrow> string \<Rightarrow> nat \<Rightarrow> bool" where
  "longest p i n \<longleftrightarrow> (\<exists>xs. chain p (xs @ [i]) \<and> length xs + 1 = n)
     \<and> (\<forall>xs. chain p (xs @ [i]) \<longrightarrow> length xs + 1 \<le> n)"

definition depth_inv :: "plan \<Rightarrow> string set \<Rightarrow> (string \<rightharpoonup> nat) \<Rightarrow> nat \<Rightarrow> bool" where
  "depth_inv p seen level deepest \<longleftrightarrow>
     (\<forall>i. i \<in> seen \<longleftrightarrow> level i \<noteq> None) \<and> (\<forall>i n. level i = Some n \<longrightarrow> longest p i n \<and> n \<le> deepest)
     \<and> (deepest = 0 \<or> (\<exists>i. level i = Some deepest))"

lemma longest_step:
  assumes "i \<in> step_id ` set p" "finite N"
    and "\<And>n. n \<in> N \<longleftrightarrow> (\<exists>d\<in>plan_deps p i. level d = Some n)"
    and "\<And>d. d \<in> plan_deps p i \<Longrightarrow> \<exists>n. level d = Some n \<and> longest p d n"
  shows "longest p i ((if N = {} then 0 else Max N) + 1)"
proof (cases "N = {}")
  case True
  then have "plan_deps p i = {}" using assms(3,4) by fastforce
  then show ?thesis using True assms(1) by (auto simp: longest_def chain_snoc)
next
  case False
  then have "Max N \<in> N" using assms(2) by simp
  then obtain d where d: "d \<in> plan_deps p i" "level d = Some (Max N)" using assms(3) by blast
  then have "longest p d (Max N)" using assms(4) by fastforce
  then obtain xs where "chain p (xs @ [d])" "length xs + 1 = Max N" by (auto simp: longest_def)
  then have "chain p ((xs @ [d]) @ [i])" "length (xs @ [d]) + 1 = Max N + 1"
    using d(1) assms(1) by (simp_all only: chain_snoc [of p "xs @ [d]"]) auto
  then have ex: "\<exists>xs. chain p (xs @ [i]) \<and> length xs + 1 = Max N + 1" by blast
  have "length xs + 1 \<le> Max N + 1" if c: "chain p (xs @ [i])" for xs
  proof (cases xs rule: rev_cases)
    case (snoc ys e)
    then have "e \<in> plan_deps p i" "chain p (ys @ [e])" using c chain_snoc [of p "ys @ [e]" i] by simp_all
    then obtain n where "level e = Some n" "length ys + 1 \<le> n" using assms(4) by (auto simp: longest_def)
    then have "length xs \<le> n" "n \<in> N" using snoc assms(3) \<open>e \<in> plan_deps p i\<close> by auto
    then have "length xs \<le> n" "n \<le> Max N" using assms(2) by simp_all
    then show ?thesis by simp
  qed simp
  with ex show ?thesis using False by (simp add: longest_def)
qed

lemma depth_inv_insert:
  assumes "depth_inv p S level deepest" "longest p i d" "0 < d"
    and "i \<notin> S"
  shows "depth_inv p (insert i S) (level(i \<mapsto> d)) (max deepest d)"
proof -
  have old: "j \<in> S \<longleftrightarrow> level j \<noteq> None" "level j = Some n \<Longrightarrow> longest p j n \<and> n \<le> deepest" for j n
    using assms(1) unfolding depth_inv_def by blast+
  have top: "deepest = 0 \<or> (\<exists>j. level j = Some deepest)" using assms(1) by (simp add: depth_inv_def)
  have "j \<in> insert i S \<longleftrightarrow> (level(i \<mapsto> d)) j \<noteq> None" for j using old(1) [of j] by simp
  moreover have "longest p j n \<and> n \<le> max deepest d" if "(level(i \<mapsto> d)) j = Some n" for j n
    using that old(2) [of j n] assms(2) by (cases "j = i") (simp_all add: le_max_iff_disj)
  moreover have "\<exists>j. (level(i \<mapsto> d)) j = Some (max deepest d)"
  proof (cases "d \<ge> deepest")
    case False
    then obtain j where "level j = Some deepest" using top by auto
    moreover have "j \<noteq> i" using calculation old(1) [of j] assms(4) by auto
    ultimately show ?thesis using False by (intro exI [of _ j]) (simp add: max_def)
  qed (simp add: max_def exI [of _ i])
  ultimately show ?thesis unfolding depth_inv_def by blast
qed

lemma depth_loop_inv:
  assumes "distinct (map step_id p)" "set (acc @ rest) \<subseteq> step_id ` set p" "distinct (acc @ rest)"
    and "\<forall>k<length (acc @ rest). plan_deps p ((acc @ rest) ! k) \<subseteq> set (take k (acc @ rest))"
    and "depth_inv p (set acc) level deepest"
  shows "\<exists>level'. depth_inv p (set (acc @ rest)) level' (depth_loop (steps_by_id p) rest level deepest)"
  using assms(2-5)
proof (induction rest arbitrary: acc level deepest)
  case (Cons i rest)
  obtain s where s: "s \<in> set p" "i = step_id s" using Cons.prems(1) by auto
  let ?ds = "List.map_filter level (filter (\<lambda>d. d \<noteq> step_id s) (step_deps s))"
  define d where "d = (if ?ds = [] then 0 else Max (set ?ds)) + 1"
  have deps: "plan_deps p i \<subseteq> set acc"
  proof -
    have "plan_deps p ((acc @ i # rest) ! length acc) \<subseteq> set (take (length acc) (acc @ i # rest))"
      using Cons.prems(3) by (metis add_Suc_right length_Cons length_append less_add_Suc1)
    then show ?thesis by simp
  qed
  have seen: "d \<in> set acc \<longleftrightarrow> level d \<noteq> None" for d using Cons.prems(4) by (simp add: depth_inv_def)
  have mem: "n \<in> set ?ds \<longleftrightarrow> (\<exists>d\<in>plan_deps p i. level d = Some n)" for n
  proof -
    have "d \<in> plan_deps p i \<longleftrightarrow> d \<in> set (filter (\<lambda>d. d \<noteq> step_id s) (step_deps s))" if "level d = Some n" for d
      using that seen [of d] Cons.prems(1) unfolding s(2) plan_deps_of [OF assms(1) s(1)] by auto
    moreover have "n \<in> set ?ds \<longleftrightarrow> (\<exists>d\<in>set (filter (\<lambda>d. d \<noteq> step_id s) (step_deps s)). level d = Some n)"
      by (force simp: List.map_filter_def)
    ultimately show ?thesis by blast
  qed
  have "longest p i ((if set ?ds = {} then 0 else Max (set ?ds)) + 1)"
  proof (rule longest_step)
    show "\<exists>n. level d = Some n \<and> longest p d n" if mem_d: "d \<in> plan_deps p i" for d
    proof -
      obtain n where "level d = Some n" using mem_d deps seen [of d] by auto
      moreover have "longest p d n" using Cons.prems(4) \<open>level d = Some n\<close> unfolding depth_inv_def by blast
      ultimately show ?thesis by blast
    qed
  qed (use mem s in auto)
  then have long: "longest p i d" by (simp only: set_empty d_def)
  have set_snoc: "set (acc @ [i]) = insert i (set acc)" by simp
  have "i \<notin> set acc" "0 < d" using Cons.prems(2) by (auto simp: d_def)
  then have "depth_inv p (set (acc @ [i])) (level(i \<mapsto> d)) (max deepest d)"
    unfolding set_snoc by (intro depth_inv_insert [OF Cons.prems(4) long])
  then have "\<exists>level'. depth_inv p (set ((acc @ [i]) @ rest)) level'
      (depth_loop (steps_by_id p) rest (level(i \<mapsto> d)) (max deepest d))"
    using Cons.prems(1-3) by (intro Cons.IH) (simp_all del: fun_upd_apply)
  moreover have "depth_loop (steps_by_id p) (i # rest) level deepest
      = depth_loop (steps_by_id p) rest (level(i \<mapsto> d)) (max deepest d)"
    using s(2) by (simp add: steps_by_id [OF assms(1) s(1)] Let_def d_def)
  ultimately show ?case by simp
qed auto

lemma plan_depth_longest:
  assumes "distinct (map step_id p)" "acyclic_plan p"
  shows "\<exists>d. plan_depth p = Some d \<and> (p \<noteq> [] \<longrightarrow> (\<exists>xs. chain p xs \<and> length xs = d))
    \<and> (\<forall>xs. chain p xs \<longrightarrow> length xs \<le> d)"
proof -
  obtain order m where o: "topological_order p = Some order" "plan_graph.kahn_inv p [] m order"
    "set order = set (map step_id p)"
    using topological_order_run [OF assms(1)] assms(2) by blast
  let ?d = "depth_loop (steps_by_id p) order Map.empty 0"
  have "\<exists>level. depth_inv p (set ([] @ order)) level ?d"
    using o by (intro depth_loop_inv [OF assms(1)]) (simp_all add: plan_graph.kahn_inv_def depth_inv_def)
  then obtain level where inv: "depth_inv p (step_id ` set p) level ?d" using o(3) by auto
  have upper: "length xs \<le> ?d" if "chain p xs" for xs
  proof -
    have ne: "xs \<noteq> []" "last xs \<in> step_id ` set p" using that by (auto simp: chain_def)
    then obtain n where "level (last xs) = Some n" "longest p (last xs) n" "n \<le> ?d"
      using inv by (auto simp: depth_inv_def)
    moreover have "chain p (butlast xs @ [last xs])" using that ne by simp
    ultimately have "length (butlast xs) + 1 \<le> ?d" unfolding longest_def by fastforce
    then show ?thesis using ne by simp
  qed
  have "\<exists>xs. chain p xs \<and> length xs = ?d" if ne: "p \<noteq> []"
  proof -
    obtain s where "s \<in> set p" using ne by (cases p) auto
    then have "chain p [step_id s]" by (simp add: chain_def)
    from upper [OF this] have "?d \<noteq> 0" by simp
    then obtain i where "longest p i ?d" using inv by (auto simp: depth_inv_def)
    then obtain xs where "chain p (xs @ [i])" "length xs + 1 = ?d" by (auto simp: longest_def)
    then show ?thesis by (intro exI [of _ "xs @ [i]"]) simp
  qed
  with upper show ?thesis using o(1) by (auto simp: plan_depth_def)
qed

lemma order_complete_iff:
  assumes "distinct (map step_id p)" "topological_order p = Some order"
  shows "distinct order" "set order \<subseteq> step_id ` set p"
    "\<forall>k<length order. plan_deps p (order ! k) \<subseteq> set (take k order)"
    "length order = length p \<longleftrightarrow> acyclic_plan p"
proof -
  obtain m where o: "plan_graph.kahn_inv p [] m order" "set order = set (map step_id p) \<longleftrightarrow> acyclic_plan p"
    by (rule topological_order_run [OF assms(1)]) (use assms(2) in auto)
  show d: "distinct order" and sub: "set order \<subseteq> step_id ` set p"
    and "\<forall>k<length order. plan_deps p (order ! k) \<subseteq> set (take k order)"
    using o(1) by (auto simp: plan_graph.kahn_inv_def plan_graph.available_def)
  have "length order = length p \<longleftrightarrow> card (set order) = card (set (map step_id p))"
    using d assms(1) distinct_card [of order] distinct_card [of "map step_id p"] by simp
  also have "\<dots> \<longleftrightarrow> set order = set (map step_id p)"
    using sub by (metis List.finite_set card_subset_eq list.set_map)
  finally show "length order = length p \<longleftrightarrow> acyclic_plan p" using o(2) by simp
qed

lemma validate_plan_accepts:
  assumes "validate_plan js cat p = Some (Inr ())"
  shows "0 < length p" "length p \<le> 8" "distinct (map step_id p)" "acyclic_plan p"
    "\<And>s. s \<in> set p \<Longrightarrow> check_step js cat p s = Inr ()"
    "\<And>s k. s \<in> set p \<Longrightarrow> k \<in> set (collect_ref_keys (step_args s)) \<Longrightarrow> check_key cat p s k = Inr ()"
proof -
  obtain order where v: "p \<noteq> []" "length p \<le> MAX_PLAN_STEPS" "check_ids [] p = Inr ()"
    "\<forall>s\<in>set p. check_step js cat p s = Inr ()"
    "\<forall>s\<in>set p. \<forall>k\<in>set (collect_ref_keys (step_args s)). check_key cat p s k = Inr ()"
    "topological_order p = Some order" "length order = length p"
    using assms by (auto simp: validate_plan_def check_each_ok split: if_splits sum.splits option.splits)
  show d: "distinct (map step_id p)" using v(3) by (simp add: check_ids_ok)
  show "acyclic_plan p" using order_complete_iff [OF d v(6)] v(7) by simp
  show "0 < length p" "length p \<le> 8" using v(1,2) by (simp_all add: MAX_PLAN_STEPS_def)
  show "check_step js cat p s = Inr ()" if "s \<in> set p" for s using v(4) that by blast
  show "check_key cat p s k = Inr ()" if "s \<in> set p" "k \<in> set (collect_ref_keys (step_args s))" for s k
    using v(5) that by blast
qed

lemma validate_plan_total: "validate_plan js cat p \<noteq> None"
proof -
  have "topological_order p \<noteq> None" if "check_ids [] p = Inr ()"
  proof -
    have d: "distinct (map step_id p)" using that by (simp add: check_ids_ok)
    show ?thesis by (rule topological_order_run [OF d]) simp
  qed
  then show ?thesis by (auto simp: validate_plan_def split: sum.splits option.splits)
qed

section \<open>Properties\<close>

text \<open>
  C29 (execution order). For a plan with distinct step ids Kahn's loop ends; the order it returns
  has no repetitions, lists every step after all steps it waits for, and is complete exactly if
  the dependencies, declared or found in the arguments, have no cycle.
\<close>

theorem topological_order_correct:
  assumes "distinct (map step_id p)"
  shows "\<exists>order. topological_order p = Some order \<and> distinct order \<and> set order \<subseteq> step_id ` set p
    \<and> (\<forall>k<length order. plan_deps p (order ! k) \<subseteq> set (take k order))
    \<and> (length order = length p \<longleftrightarrow> acyclic_plan p)"
proof -
  obtain order where "topological_order p = Some order" using topological_order_run [OF assms] .
  with order_complete_iff [OF assms this] show ?thesis by blast
qed

definition toy_step :: "string \<Rightarrow> string \<Rightarrow> plan_step" where
  "toy_step i a = \<lparr>step_id = i, step_peer = ''ab'', step_capability = ''echo'', step_args = JStr a,
     step_depends = []\<rparr>"

lemma topological_order_correct_witness:
  "\<exists>order. topological_order [toy_step ''s2'' ''${s1}'', toy_step ''s1'' ''x''] = Some order
    \<and> distinct order
    \<and> (0 < length order \<and> plan_deps [toy_step ''s2'' ''${s1}'', toy_step ''s1'' ''x''] (order ! 0) = {})"
proof -
  let ?p = "[toy_step ''s2'' ''${s1}'', toy_step ''s1'' ''x'']"
  have "distinct (map step_id ?p)" by (simp add: toy_step_def)
  from topological_order_correct [OF this] obtain order where
    o: "topological_order ?p = Some order" "distinct order"
      "\<forall>k<length order. plan_deps ?p (order ! k) \<subseteq> set (take k order)" by blast
  have "map_option length (topological_order ?p) = Some 2" by code_simp
  then have "0 < length order" using o(1) by simp
  with o(3) have "plan_deps ?p (order ! 0) \<subseteq> set (take 0 order)" by blast
  then show ?thesis using o(1,2) \<open>0 < length order\<close> by auto
qed

text \<open>
  C22 (what validation guarantees). Validation always returns. A plan it accepts has between one
  and eight steps with distinct ids and no dependency cycle, every tool is in the catalog, and
  every declared dependency and every reference found names a step of the plan, in the case of
  a reference another one.
\<close>

theorem validate_plan_sound:
  "validate_plan js cat p \<noteq> None
   \<and> (validate_plan js cat p = Some (Inr ()) \<longrightarrow>
       0 < length p \<and> length p \<le> 8 \<and> distinct (map step_id p) \<and> acyclic_plan p
       \<and> (\<forall>s\<in>set p. catalog_find (step_tool s) cat \<noteq> None
           \<and> set (step_depends s) \<subseteq> step_id ` set p
           \<and> (\<forall>k\<in>set (collect_ref_keys (step_args s)). head_of k \<in> step_id ` set p - {step_id s})))"
proof -
  have step: "catalog_find (step_tool s) cat \<noteq> None \<and> set (step_depends s) \<subseteq> step_id ` set p"
    if "check_step js cat p s = Inr ()" for s
    using that by (auto simp: check_step_def check_each_ok split: option.splits sum.splits if_splits)
  have key: "head_of k \<in> step_id ` set p - {step_id s}" if "check_key cat p s k = Inr ()" for s k
    using that by (auto simp: check_key_def Let_def split: if_splits)
  show ?thesis
    using validate_plan_total [of js cat p] validate_plan_accepts [of js cat p] step key
    by (intro conjI impI ballI) (simp_all del: Diff_iff)
qed

lemma validate_plan_sound_witness:
  "validate_plan (\<lambda>_. Inl []) [toy_tool ''n3:ab'' None ''echo''] [toy_step ''s1'' ''x''] = Some (Inr ())
    \<and> acyclic_plan [toy_step ''s1'' ''x''] \<and> length [toy_step ''s1'' ''x''] \<le> 8"
proof -
  have "validate_plan (\<lambda>_. Inl []) [toy_tool ''n3:ab'' None ''echo''] [toy_step ''s1'' ''x''] = Some (Inr ())"
    by code_simp
  with validate_plan_sound [of "\<lambda>_. Inl []" "[toy_tool ''n3:ab'' None ''echo'']" "[toy_step ''s1'' ''x'']"]
  show ?thesis by simp
qed

text \<open>
  (depth). For a plan without cycles \<open>plan_depth\<close> is the number of steps of the longest chain
  in which each step waits for the one before.
\<close>

theorem plan_depth_is_longest_chain:
  assumes "distinct (map step_id p)" "acyclic_plan p" "p \<noteq> []"
  shows "\<exists>d. plan_depth p = Some d \<and> (\<exists>xs. chain p xs \<and> length xs = d)
    \<and> (\<forall>xs. chain p xs \<longrightarrow> length xs \<le> d)"
  using plan_depth_longest [OF assms(1,2)] assms(3) by blast

lemma toy_plan_acyclic: "acyclic_plan [toy_step ''s1'' ''x'']"
proof -
  have "{(d, i). d \<in> plan_deps [toy_step ''s1'' ''x''] i} = {}" by (auto simp: plan_deps_def)
  then show ?thesis by (simp add: acyclic_plan_def acyclic_def)
qed

lemma plan_depth_is_longest_chain_witness:
  "\<exists>d xs. plan_depth [toy_step ''s1'' ''x''] = Some d \<and> chain [toy_step ''s1'' ''x''] xs \<and> length xs = d"
proof -
  have "distinct (map step_id [toy_step ''s1'' ''x''])" by simp
  from plan_depth_is_longest_chain [OF this toy_plan_acyclic] show ?thesis by blast
qed

end
