(* ===== verification/Planner_Grammar.thy ===== *)
theory Planner_Grammar
  imports Planner_Plan
begin

text \<open>
  \<open>crates/node/src/planner/grammar.rs\<close>: the constrained-decoding grammars of a dispatch, built
  from the names of its catalog. In the texts of grammars below a backquote stands for a double
  quote and a tilde for a backslash (\<open>gbnf\<close> puts them back). What llama.cpp reads in a quoted
  terminal is \<open>read_terminal\<close>, for the two escapes the code produces.
\<close>

section \<open>Text\<close>

definition gbnf :: "string \<Rightarrow> string" where
  "gbnf = map (\<lambda>c. if c = CHR 0x60 then CHR 0x22 else if c = CHR 0x7E then CHR 0x5C else c)"

definition gbnf_lines :: "string list \<Rightarrow> string" where
  "gbnf_lines ls = concat (map (\<lambda>l. gbnf l @ [CHR 0x0A]) ls)"

text \<open>\<open>str::replace\<close> of one character.\<close>

definition replace_char :: "char \<Rightarrow> string \<Rightarrow> string \<Rightarrow> string" where
  "replace_char x r s = concat (map (\<lambda>c. if c = x then r else [c]) s)"

section \<open>Names\<close>

type_synonym tool_key = "string \<times> string"

text \<open>The first occurrences, in order: the filter over a \<open>HashSet\<close> of what was seen.\<close>

fun first_seen :: "'a set \<Rightarrow> 'a list \<Rightarrow> 'a list" where
  "first_seen seen [] = []"
| "first_seen seen (x # xs) =
     (if x \<in> seen then first_seen seen xs else x # first_seen (insert x seen) xs)"

definition unique_in_order :: "string list \<Rightarrow> string list" where
  "unique_in_order = first_seen {}"

definition dedup_tools :: "tool_key list \<Rightarrow> tool_key list" where
  "dedup_tools = first_seen {}"

text \<open>Both layers of escaping: \<open>show\<close> is the JSON text of the string.\<close>

definition gbnf_json_string :: "(json \<Rightarrow> string) \<Rightarrow> string \<Rightarrow> string" where
  "gbnf_json_string show s =
     [CHR 0x22]
     @ replace_char (CHR 0x22) [CHR 0x5C, CHR 0x22] (replace_char (CHR 0x5C) [CHR 0x5C, CHR 0x5C] (show (JStr s)))
     @ [CHR 0x22]"

section \<open>The grammar\<close>

definition PLAN_GBNF_HEAD :: string where
  "PLAN_GBNF_HEAD = gbnf_lines [
     ''root        ::= ws `{` ws `~`plan~`` ws `:` ws `[` ws steps? ws `]` ws `}` ws'',
     ''steps       ::= step (ws `,` ws step)*'',
     ''step        ::= `{` ws step-fields ws `}`'',
     ''step-fields ::= step-id ws `,` ws step-tool ws `,` ws step-args (ws `,` ws step-deps)?'',
     ''step-id     ::= `~`id~``         ws `:` ws string'',
     ''step-args   ::= `~`args~``       ws `:` ws object'',
     ''step-deps   ::= `~`depends_on~`` ws `:` ws `[` ws (string (ws `,` ws string)*)? ws `]`'']"

definition PLAN_GBNF_TAIL :: string where
  "PLAN_GBNF_TAIL = gbnf_lines [
     '''',
     ''value       ::= object | array | string | number | `true` | `false` | `null`'',
     ''object      ::= `{` ws (pair (ws `,` ws pair)*)? ws `}`'',
     ''pair        ::= string ws `:` ws value'',
     ''array       ::= `[` ws (value (ws `,` ws value)*)? ws `]`'',
     ''string      ::= `~`` char* `~``'',
     ''char        ::= [^`~~~x00-~x1F] | `~~` ([`~~/bfnrt] | `u` hex hex hex hex)'',
     ''hex         ::= [0-9a-fA-F]'',
     ''number      ::= `-`? int frac? exp?'',
     ''int         ::= `0` | [1-9] [0-9]*'',
     ''frac        ::= `.` [0-9]+'',
     ''exp         ::= [eE] [-+]? [0-9]+'',
     ''ws          ::= [ ~t~n~r]*'']"

definition FREE_PLAN_GBNF :: string where
  "FREE_PLAN_GBNF = gbnf_lines [
     ''root        ::= ws `{` ws `~`plan~`` ws `:` ws `[` ws steps? ws `]` ws `}` ws'',
     ''steps       ::= step (ws `,` ws step)*'',
     ''step        ::= `{` ws step-fields ws `}`'',
     ''step-fields ::= step-id ws `,` ws step-peer ws `,` ws step-cap ws `,` ws step-args (ws `,` ws step-deps)?'',
     ''step-id     ::= `~`id~``         ws `:` ws string'',
     ''step-peer   ::= `~`peer~``       ws `:` ws string'',
     ''step-cap    ::= `~`capability~`` ws `:` ws string'',
     ''step-args   ::= `~`args~``       ws `:` ws object'',
     ''step-deps   ::= `~`depends_on~`` ws `:` ws `[` ws (string (ws `,` ws string)*)? ws `]`'',
     '''',
     ''value       ::= object | array | string | number | `true` | `false` | `null`'',
     ''object      ::= `{` ws (pair (ws `,` ws pair)*)? ws `}`'',
     ''pair        ::= string ws `:` ws value'',
     ''array       ::= `[` ws (value (ws `,` ws value)*)? ws `]`'',
     ''string      ::= `~`` char* `~``'',
     ''char        ::= [^`~~~x00-~x1F] | `~~` ([`~~/bfnrt] | `u` hex hex hex hex)'',
     ''hex         ::= [0-9a-fA-F]'',
     ''number      ::= `-`? int frac? exp?'',
     ''int         ::= `0` | [1-9] [0-9]*'',
     ''frac        ::= `.` [0-9]+'',
     ''exp         ::= [eE] [-+]? [0-9]+'',
     ''ws          ::= [ ~t~n~r]*'']"

definition tool_rule :: "nat \<Rightarrow> string" where
  "tool_rule i = ''tool-'' @ dec i"

definition tool_branch :: "(json \<Rightarrow> string) \<Rightarrow> nat \<Rightarrow> tool_key \<Rightarrow> string" where
  "tool_branch show i t =
     tool_rule i @ gbnf ''      ::= `~`peer~`` ws `:` ws '' @ gbnf_json_string show (fst t)
     @ gbnf '' ws `,` ws `~`capability~`` ws `:` ws '' @ gbnf_json_string show (snd t)"

definition plan_grammar :: "(json \<Rightarrow> string) \<Rightarrow> tool_key list \<Rightarrow> string" where
  "plan_grammar show tools =
     (let ts = dedup_tools tools in
      if ts = [] then FREE_PLAN_GBNF
      else PLAN_GBNF_HEAD @ ''step-tool   ::= '' @ join '' | '' (map tool_rule [0..<length ts]) @ [CHR 0x0A]
        @ join [CHR 0x0A] (map (\<lambda>(i, t). tool_branch show i t) (zip [0..<length ts] ts)) @ [CHR 0x0A]
        @ PLAN_GBNF_TAIL)"

section \<open>The schema\<close>

definition string_type :: "(string \<times> json) list \<Rightarrow> json" where
  "string_type es = json_obj ((''type'', JStr ''string'') # es)"

definition name_schema :: "string list \<Rightarrow> json" where
  "name_schema names =
     (if names = [] then string_type [(''minLength'', JInt 1)]
      else string_type [(''enum'', enc_list JStr (unique_in_order names))])"

definition plan_json_schema :: "tool_key list \<Rightarrow> json" where
  "plan_json_schema tools =
     (let ts = dedup_tools tools in
      json_obj [(''type'', JStr ''object''), (''additionalProperties'', JBool False),
        (''required'', JArr [JStr ''plan'']),
        (''properties'', json_obj [(''plan'', json_obj [(''type'', JStr ''array''),
          (''items'', json_obj [(''type'', JStr ''object''), (''additionalProperties'', JBool False),
            (''required'', JArr [JStr ''id'', JStr ''peer'', JStr ''capability'', JStr ''args'']),
            (''properties'', json_obj
               [(''id'', string_type [(''minLength'', JInt 1)]),
                (''peer'', name_schema (map fst ts)),
                (''capability'', name_schema (map snd ts)),
                (''args'', json_obj [(''type'', JStr ''object'')]),
                (''depends_on'', json_obj [(''type'', JStr ''array''), (''items'', string_type [])])])])])])])"

definition plan_response_format :: "tool_key list \<Rightarrow> json" where
  "plan_response_format tools =
     json_obj [(''type'', JStr ''json_schema''),
       (''json_schema'', json_obj [(''name'', JStr ''n3ur0n_plan''), (''strict'', JBool True),
          (''schema'', plan_json_schema tools)])]"

section \<open>Lemmas\<close>

lemma first_seen_set: "set (first_seen seen xs) = set xs - seen"
  by (induction xs arbitrary: seen) auto

lemma first_seen_distinct: "distinct (first_seen seen xs)"
  by (induction xs arbitrary: seen) (auto simp: first_seen_set)

text \<open>What a grammar reader takes from a quoted terminal: its text, and what follows it.\<close>

fun read_escaped :: "string \<Rightarrow> (string \<times> string) option" where
  "read_escaped [] = None"
| "read_escaped (c # cs) =
     (if c = CHR 0x22 then Some ([], cs)
      else if c = CHR 0x5C then
        (case cs of
           [] \<Rightarrow> None
         | d # ds \<Rightarrow>
             if d = CHR 0x22 \<or> d = CHR 0x5C then map_option (\<lambda>(t, r). (d # t, r)) (read_escaped ds)
             else None)
      else map_option (\<lambda>(t, r). (c # t, r)) (read_escaped cs))"

definition read_terminal :: "string \<Rightarrow> (string \<times> string) option" where
  "read_terminal s = Option.bind (strip_prefix [CHR 0x22] s) read_escaped"

lemma read_escaped_text:
  "read_escaped (replace_char (CHR 0x22) [CHR 0x5C, CHR 0x22] (replace_char (CHR 0x5C) [CHR 0x5C, CHR 0x5C] s)
     @ CHR 0x22 # r) = Some (s, r)"
  by (induction s) (simp_all add: replace_char_def)

lemma read_gbnf_string: "read_terminal (gbnf_json_string show s @ r) = Some (show (JStr s), r)"
  by (simp add: read_terminal_def gbnf_json_string_def strip_prefix_def starts_with_def read_escaped_text)

text \<open>Reading a branch back: the two terminals between the fixed texts.\<close>

definition read_branch :: "nat \<Rightarrow> string \<Rightarrow> (string \<times> string \<times> string) option" where
  "read_branch i s = do {
     s1 \<leftarrow> strip_prefix (tool_rule i @ gbnf ''      ::= `~`peer~`` ws `:` ws '') s;
     (p, s2) \<leftarrow> read_terminal s1;
     s3 \<leftarrow> strip_prefix (gbnf '' ws `,` ws `~`capability~`` ws `:` ws '') s2;
     (c, s4) \<leftarrow> read_terminal s3;
     Some (p, c, s4) }"

lemma strip_prefix_append [simp]: "strip_prefix p (p @ s) = Some s"
  by (simp add: strip_prefix_Some)

lemma read_tool_branch:
  "read_branch i (tool_branch show i t @ r) = Some (show (JStr (fst t)), show (JStr (snd t)), r)"
proof -
  let ?a = "tool_rule i @ gbnf ''      ::= `~`peer~`` ws `:` ws ''"
  let ?b = "gbnf '' ws `,` ws `~`capability~`` ws `:` ws ''"
  have "tool_branch show i t @ r
      = ?a @ gbnf_json_string show (fst t) @ ?b @ gbnf_json_string show (snd t) @ r"
    by (simp add: tool_branch_def)
  then show ?thesis
    by (simp only: read_branch_def strip_prefix_append read_gbnf_string Option.bind.bind_lunit prod.case)
qed

definition schema_path :: "string list \<Rightarrow> json \<Rightarrow> json option" where
  "schema_path ks j = fold (\<lambda>k v. Option.bind v (json_get k)) ks (Some j)"

lemma plan_json_schema_names:
  "schema_path [''properties'', ''plan'', ''items'', ''properties'', ''peer''] (plan_json_schema tools)
     = Some (name_schema (map fst (dedup_tools tools)))"
  "schema_path [''properties'', ''plan'', ''items'', ''properties'', ''capability''] (plan_json_schema tools)
     = Some (name_schema (map snd (dedup_tools tools)))"
  by (simp_all add: schema_path_def plan_json_schema_def Let_def)

section \<open>Properties\<close>

text \<open>
  (no name breaks out of its terminal). The branch of a tool reads back as the JSON texts of its
  peer and of its capability and leaves what follows the branch, whatever characters the names hold.
\<close>

theorem branch_reads_back:
  "read_branch i (tool_branch show i (p, c) @ r) = Some (show (JStr p), show (JStr c), r)"
  using read_tool_branch [of i "show" "(p, c)" r] by simp

text \<open>
  (the schema enumerates the catalog). For a catalog with tools, the schema of a step's peer is
  the list of its short peers, and that of the capability the list of its capabilities, each once.
\<close>

theorem schema_enumerates:
  assumes "tools \<noteq> []"
  shows "schema_path [''properties'', ''plan'', ''items'', ''properties'', ''peer'', ''enum''] (plan_json_schema tools)
      = Some (JArr (map JStr (unique_in_order (map fst (dedup_tools tools)))))
    \<and> schema_path [''properties'', ''plan'', ''items'', ''properties'', ''capability'', ''enum''] (plan_json_schema tools)
      = Some (JArr (map JStr (unique_in_order (map snd (dedup_tools tools)))))
    \<and> distinct (unique_in_order (map fst (dedup_tools tools)))
    \<and> set (unique_in_order (map fst (dedup_tools tools))) = fst ` set tools
    \<and> distinct (unique_in_order (map snd (dedup_tools tools)))
    \<and> set (unique_in_order (map snd (dedup_tools tools))) = snd ` set tools"
proof -
  have "dedup_tools tools \<noteq> []"
    using assms first_seen_set [of "{}" tools] by (auto simp: dedup_tools_def)
  moreover have "schema_path [''properties'', ''plan'', ''items'', ''properties'', k, ''enum''] j
      = Option.bind (schema_path [''properties'', ''plan'', ''items'', ''properties'', k] j) (json_get ''enum'')" for k j
    by (simp add: schema_path_def)
  ultimately show ?thesis
    using plan_json_schema_names [of tools]
    by (simp add: name_schema_def string_type_def enc_list_def unique_in_order_def dedup_tools_def
        first_seen_set first_seen_distinct)
qed

lemma schema_enumerates_witness:
  "schema_path [''properties'', ''plan'', ''items'', ''properties'', ''peer'', ''enum'']
      (plan_json_schema [(''a'', ''x''), (''b'', ''x''), (''a'', ''x'')])
    = Some (JArr [JStr ''a'', JStr ''b''])"
proof -
  have "unique_in_order (map fst (dedup_tools [(''a'', ''x''), (''b'', ''x''), (''a'', ''x'')])) = [''a'', ''b'']"
    by code_simp
  then show ?thesis using schema_enumerates [of "[(''a'', ''x''), (''b'', ''x''), (''a'', ''x'')]"] by simp
qed



end
