(* ===== verification/Store_Conv.thy ===== *)
theory Store_Conv
  imports N_Prelude
begin

text \<open>
  \<open>crates/storage/src/conversations.rs\<close> and \<open>plan_runs.rs\<close> over the three tables they
  share, with the primary keys, foreign keys and CHECK constraints of the migrations. A
  violated constraint is the error value; a transaction that meets one leaves the tables as
  they were.
\<close>

datatype storage_error = Constraint string

record conversation_record =
  cv_id :: string
  cv_client_id :: string
  cv_title :: "string option"
  cv_created_at :: int
  cv_updated_at :: int

record turn_record =
  tr_conversation_id :: string
  tr_seq :: int
  tr_role :: string
  tr_payload :: string
  tr_created_at :: int

record plan_run_record =
  run_id :: string
  run_conversation_id :: string
  plan_json :: string
  run_status :: string
  run_created_at :: int
  finished_at :: "int option"

record conv_db =
  conversations :: "conversation_record list"
  turns :: "turn_record list"
  plan_runs :: "plan_run_record list"

definition turn_roles :: "string list" where
  "turn_roles = [''user'', ''assistant'', ''tool_call'', ''tool_result'', ''system'']"

definition run_statuses :: "string list" where
  "run_statuses = [''running'', ''done'', ''failed'']"

definition turn_key :: "turn_record \<Rightarrow> string \<times> int" where
  "turn_key t = (tr_conversation_id t, tr_seq t)"

definition conv_insert :: "conversation_record \<Rightarrow> conv_db \<Rightarrow> (storage_error, conv_db) result" where
  "conv_insert c db =
     (if select_by cv_id (cv_id c) (conversations db) \<noteq> None
      then Inl (Constraint ''conversations.id'')
      else Inr (db\<lparr>conversations := conversations db @ [c]\<rparr>))"

definition conv_get :: "string \<Rightarrow> conv_db \<Rightarrow> conversation_record option" where
  "conv_get i db = select_by cv_id i (conversations db)"

definition list_for_client :: "string \<Rightarrow> int \<Rightarrow> conv_db \<Rightarrow> conversation_record list" where
  "list_for_client client lim db =
     limit lim (sort_key (\<lambda>c. - cv_updated_at c)
       (filter (\<lambda>c. cv_client_id c = client) (conversations db)))"

definition update_meta :: "string \<Rightarrow> string option \<Rightarrow> int \<Rightarrow> conv_db \<Rightarrow> conv_db" where
  "update_meta i title at db =
     (case title of
        Some t \<Rightarrow> db\<lparr>conversations := sql_update (\<lambda>c. cv_id c = i)
            (\<lambda>c. c\<lparr>cv_title := Some t, cv_updated_at := at\<rparr>) (conversations db)\<rparr>
      | None \<Rightarrow> db\<lparr>conversations := sql_update (\<lambda>c. cv_id c = i)
            (\<lambda>c. c\<lparr>cv_updated_at := at\<rparr>) (conversations db)\<rparr>)"

definition conv_delete :: "string \<Rightarrow> conv_db \<Rightarrow> conv_db" where
  "conv_delete i db =
     db\<lparr>conversations := sql_delete (\<lambda>c. cv_id c = i) (conversations db),
        turns := sql_delete (\<lambda>t. tr_conversation_id t = i) (turns db),
        plan_runs := sql_delete (\<lambda>r. run_conversation_id r = i) (plan_runs db)\<rparr>"

definition insert_turn :: "turn_record \<Rightarrow> conv_db \<Rightarrow> (storage_error, conv_db) result" where
  "insert_turn t db =
     (if select_by turn_key (turn_key t) (turns db) \<noteq> None
      then Inl (Constraint ''conversation_turns.conversation_id, conversation_turns.seq'')
      else if tr_role t \<notin> set turn_roles then Inl (Constraint ''role'')
      else if conv_get (tr_conversation_id t) db = None then Inl (Constraint ''FOREIGN KEY'')
      else Inr (db\<lparr>turns := turns db @ [t]\<rparr>))"

fun append_loop :: "int \<Rightarrow> turn_record list \<Rightarrow> conv_db \<Rightarrow> (storage_error, conv_db) result" where
  "append_loop at [] db = Inr db"
| "append_loop at (t # ts) db =
     (case insert_turn t db of
        Inl e \<Rightarrow> Inl e
      | Inr db' \<Rightarrow> append_loop at ts (update_meta (tr_conversation_id t) None at db'))"

definition append_turns ::
  "turn_record list \<Rightarrow> int \<Rightarrow> conv_db \<Rightarrow> (storage_error, unit) result \<times> conv_db" where
  "append_turns ts at db =
     (if ts = [] then (Inr (), db)
      else (case append_loop at ts db of Inl e \<Rightarrow> (Inl e, db) | Inr db' \<Rightarrow> (Inr (), db')))"

definition append_turn ::
  "turn_record \<Rightarrow> int \<Rightarrow> conv_db \<Rightarrow> (storage_error, unit) result \<times> conv_db" where
  "append_turn t at db = append_turns [t] at db"

definition load_turns :: "string \<Rightarrow> conv_db \<Rightarrow> turn_record list" where
  "load_turns i db = sort_key tr_seq (filter (\<lambda>t. tr_conversation_id t = i) (turns db))"

definition max_seq :: "string \<Rightarrow> conv_db \<Rightarrow> int option" where
  "max_seq i db =
     (let s = map tr_seq (filter (\<lambda>t. tr_conversation_id t = i) (turns db))
      in if s = [] then None else Some (Max (set s)))"

definition run_insert :: "plan_run_record \<Rightarrow> conv_db \<Rightarrow> (storage_error, conv_db) result" where
  "run_insert r db =
     (if select_by run_id (run_id r) (plan_runs db) \<noteq> None then Inl (Constraint ''plan_runs.id'')
      else if run_status r \<notin> set run_statuses then Inl (Constraint ''status'')
      else if conv_get (run_conversation_id r) db = None then Inl (Constraint ''FOREIGN KEY'')
      else Inr (db\<lparr>plan_runs := plan_runs db @ [r]\<rparr>))"

definition set_status ::
  "string \<Rightarrow> string \<Rightarrow> int \<Rightarrow> conv_db \<Rightarrow> (storage_error, conv_db) result" where
  "set_status i st at db =
     (if select_by run_id i (plan_runs db) \<noteq> None \<and> st \<notin> set run_statuses
      then Inl (Constraint ''status'')
      else Inr (db\<lparr>plan_runs := sql_update (\<lambda>r. run_id r = i)
             (\<lambda>r. r\<lparr>run_status := st, finished_at := Some at\<rparr>) (plan_runs db)\<rparr>))"

definition run_get :: "string \<Rightarrow> conv_db \<Rightarrow> plan_run_record option" where
  "run_get i db = select_by run_id i (plan_runs db)"

definition list_for_conversation :: "string \<Rightarrow> int \<Rightarrow> conv_db \<Rightarrow> plan_run_record list" where
  "list_for_conversation c lim db =
     limit lim (sort_key run_created_at (filter (\<lambda>r. run_conversation_id r = c) (plan_runs db)))"

section \<open>Integrity\<close>

definition conv_ids :: "conv_db \<Rightarrow> string set" where
  "conv_ids db = cv_id ` set (conversations db)"

definition db_ok :: "conv_db \<Rightarrow> bool" where
  "db_ok db \<longleftrightarrow>
     unique_key cv_id (conversations db) \<and> unique_key turn_key (turns db)
     \<and> unique_key run_id (plan_runs db)
     \<and> list_all (\<lambda>t. tr_conversation_id t \<in> conv_ids db \<and> tr_role t \<in> set turn_roles) (turns db)
     \<and> list_all (\<lambda>r. run_conversation_id r \<in> conv_ids db \<and> run_status r \<in> set run_statuses)
         (plan_runs db)"

lemma conv_get_ids: "conv_get i db = None \<longleftrightarrow> i \<notin> conv_ids db"
  by (auto simp: conv_get_def conv_ids_def select_by_None)

lemma conv_ids_map: "conv_ids db = set (map cv_id (conversations db))"
  by (simp add: conv_ids_def)

lemma map_id_update_meta: "map cv_id (conversations (update_meta i ti at db)) = map cv_id (conversations db)"
  by (cases ti) (auto simp: update_meta_def intro!: map_key_update)

lemma update_meta_other [simp]:
  "turns (update_meta i ti at db) = turns db" "plan_runs (update_meta i ti at db) = plan_runs db"
  by (simp_all add: update_meta_def split: option.splits)

lemma update_meta_ids [simp]:
  "conv_ids (update_meta i ti at db) = conv_ids db"
  "unique_key cv_id (conversations (update_meta i ti at db)) \<longleftrightarrow> unique_key cv_id (conversations db)"
  by (simp_all only: conv_ids_map unique_key_def map_id_update_meta)

lemma conv_ids_delete: "conv_ids (conv_delete i db) = conv_ids db - {i}"
  by (auto simp: conv_ids_def conv_delete_def)

lemma insert_turn_ok: "insert_turn t db = Inr db' \<Longrightarrow> db_ok db \<Longrightarrow> db_ok db'"
  by (auto simp: insert_turn_def db_ok_def conv_get_ids unique_key_snoc select_by_None conv_ids_def
      split: if_splits)

lemma update_meta_ok: "db_ok db \<Longrightarrow> db_ok (update_meta i ti at db)"
  by (simp add: db_ok_def)

lemma append_loop_ok: "append_loop at ts db = Inr db' \<Longrightarrow> db_ok db \<Longrightarrow> db_ok db'"
  by (induction ts arbitrary: db) (auto intro: insert_turn_ok update_meta_ok split: sum.splits)

lemma append_loop_turns: "append_loop at ts db = Inr db' \<Longrightarrow> turns db' = turns db @ ts"
proof (induction ts arbitrary: db)
  case (Cons t ts)
  then obtain db1 where db1: "insert_turn t db = Inr db1"
    "append_loop at ts (update_meta (tr_conversation_id t) None at db1) = Inr db'"
    by (auto split: sum.splits)
  then have "turns db1 = turns db @ [t]" by (auto simp: insert_turn_def split: if_splits)
  with Cons.IH [OF db1(2)] show ?case by simp
qed simp

lemma append_turns_ok: "db_ok db \<Longrightarrow> db_ok (snd (append_turns ts at db))"
  by (auto simp: append_turns_def intro: append_loop_ok split: sum.splits)

lemma conv_insert_ok: "conv_insert c db = Inr db' \<Longrightarrow> db_ok db \<Longrightarrow> db_ok db'"
  by (auto simp: conv_insert_def db_ok_def unique_key_snoc select_by_None conv_ids_def list_all_iff
      split: if_splits)

lemma conv_delete_ok:
  assumes "db_ok db"
  shows "db_ok (conv_delete i db)"
  using assms
  by (simp add: db_ok_def conv_ids_delete) (auto simp: conv_delete_def list_all_iff intro: unique_key_delete)

lemma run_insert_ok: "run_insert r db = Inr db' \<Longrightarrow> db_ok db \<Longrightarrow> db_ok db'"
  by (auto simp: run_insert_def db_ok_def conv_get_ids unique_key_snoc select_by_None conv_ids_def
      split: if_splits)

lemma set_status_ok: "set_status i st at db = Inr db' \<Longrightarrow> db_ok db \<Longrightarrow> db_ok db'"
  by (auto simp: set_status_def db_ok_def list_all_iff in_set_update conv_ids_def select_by_None
      split: if_splits)

lemma insort_key_append:
  "\<forall>y\<in>set ys. f x \<le> f y \<Longrightarrow> insort_key f x (zs @ ys) = insort_key f x zs @ ys"
  by (induction zs) (cases ys; auto)+

lemma sort_key_append_later:
  assumes "sorted (map f ys)" "\<forall>x\<in>set xs. \<forall>y\<in>set ys. f x \<le> f y"
  shows "sort_key f (xs @ ys) = sort_key f xs @ ys"
  using assms
proof (induction xs)
  case Nil
  then show ?case by (simp add: sorted_sort_id sort_key_id_if_sorted)
next
  case (Cons x xs)
  then show ?case by (simp add: insort_key_append)
qed

lemma max_seq_bound:
  assumes "max_seq c db = Some m" "t \<in> set (turns db)" "tr_conversation_id t = c"
  shows "tr_seq t \<le> m"
  using assms by (auto simp: max_seq_def Let_def split: if_splits intro!: Max_ge)

lemma load_appended:
  assumes "turns db' = turns db @ ts" "sorted (map tr_seq ts)"
    and "\<And>m t. max_seq c db = Some m \<Longrightarrow> t \<in> set ts \<Longrightarrow> m < tr_seq t"
  shows "load_turns c db' = load_turns c db @ filter (\<lambda>t. tr_conversation_id t = c) ts"
proof -
  let ?f = "filter (\<lambda>t. tr_conversation_id t = c)"
  have "tr_seq x \<le> tr_seq y" if x: "x \<in> set (?f (turns db))" and y: "y \<in> set (?f ts)" for x y
  proof (cases "max_seq c db")
    case None
    then show ?thesis using x by (auto simp: max_seq_def Let_def filter_empty_conv split: if_splits)
  next
    case (Some m)
    have "tr_seq x \<le> m" using max_seq_bound [OF Some] x by simp
    moreover have "m < tr_seq y" using assms(3) [OF Some] y by simp
    ultimately show ?thesis by simp
  qed
  then show ?thesis
    unfolding load_turns_def assms(1)
    by (subst filter_append, intro sort_key_append_later) (auto intro: sorted_filter assms(2))
qed

section \<open>The tables as a state machine\<close>

inductive conv_step :: "conv_db \<Rightarrow> conv_db \<Rightarrow> bool" where
  create: "conv_insert c db = Inr db' \<Longrightarrow> conv_step db db'"
| meta: "conv_step db (update_meta i ti at db)"
| drop: "conv_step db (conv_delete i db)"
| append: "conv_step db (snd (append_turns ts at db))"
| journal: "run_insert r db = Inr db' \<Longrightarrow> conv_step db db'"
| close: "set_status i st at db = Inr db' \<Longrightarrow> conv_step db db'"

definition empty_conv_db :: conv_db where
  "empty_conv_db = \<lparr>conversations = [], turns = [], plan_runs = []\<rparr>"

lemma conv_step_ok: "conv_step db db' \<Longrightarrow> db_ok db \<Longrightarrow> db_ok db'"
  by (induction rule: conv_step.induct)
    (auto intro: conv_insert_ok update_meta_ok conv_delete_ok append_turns_ok run_insert_ok
      set_status_ok)

section \<open>Properties\<close>

text \<open>
  (integrity). In every database reachable from an empty one, conversation ids, turn
  positions and run ids are unique, every turn and every plan run belongs to an existing
  conversation, and roles and statuses are among the allowed ones.
\<close>

theorem reachable_db_ok:
  assumes "conv_step\<^sup>*\<^sup>* empty_conv_db db"
  shows "db_ok db"
  using assms
proof (induction rule: rtranclp_induct)
  case base
  then show ?case by (simp add: db_ok_def empty_conv_db_def)
qed (rule conv_step_ok)

lemma reachable_db_ok_witness:
  "db_ok (conv_delete ''c'' (empty_conv_db\<lparr>conversations :=
     [\<lparr>cv_id = ''c'', cv_client_id = ''x'', cv_title = None, cv_created_at = 1, cv_updated_at = 1\<rparr>]\<rparr>))"
proof (rule reachable_db_ok)
  let ?c = "\<lparr>cv_id = ''c'', cv_client_id = ''x'', cv_title = None, cv_created_at = 1, cv_updated_at = 1\<rparr>"
  have "conv_insert ?c empty_conv_db = Inr (empty_conv_db\<lparr>conversations := [?c]\<rparr>)"
    by (simp add: conv_insert_def empty_conv_db_def)
  then show "conv_step\<^sup>*\<^sup>* empty_conv_db (conv_delete ''c'' (empty_conv_db\<lparr>conversations := [?c]\<rparr>))"
    by (meson conv_step.create conv_step.drop converse_rtranclp_into_rtranclp r_into_rtranclp)
qed

text \<open>
  (turns land together or not at all). A refused \<open>append_turns\<close> leaves the database as it
  was; an accepted one adds exactly its turns, and when they continue the numbering a reload of
  the conversation is the old ledger followed by them.
\<close>

theorem append_turns_atomic:
  assumes "append_turns ts at db = (res, db')"
  shows "case res of
      Inl _ \<Rightarrow> db' = db
    | Inr _ \<Rightarrow> turns db' = turns db @ ts
        \<and> (sorted (map tr_seq ts) \<and> (\<forall>m. max_seq c db = Some m \<longrightarrow> list_all (\<lambda>t. m < tr_seq t) ts)
           \<longrightarrow> load_turns c db' = load_turns c db @ filter (\<lambda>t. tr_conversation_id t = c) ts)"
proof (cases res)
  case (Inl e)
  then show ?thesis using assms by (auto simp: append_turns_def split: if_splits sum.splits)
next
  case (Inr u)
  then have "turns db' = turns db @ ts"
    using assms append_loop_turns by (auto simp: append_turns_def split: if_splits sum.splits)
  then show ?thesis using Inr load_appended [of db' db ts c] by (auto simp: list_all_iff)
qed

definition sample_turn :: "int \<Rightarrow> string \<Rightarrow> turn_record" where
  "sample_turn n r = \<lparr>tr_conversation_id = ''c'', tr_seq = n, tr_role = r, tr_payload = ''{}'',
     tr_created_at = 1\<rparr>"

definition sample_db :: conv_db where
  "sample_db = \<lparr>conversations = [\<lparr>cv_id = ''c'', cv_client_id = ''x'', cv_title = None,
     cv_created_at = 1, cv_updated_at = 1\<rparr>], turns = [sample_turn 0 ''user''], plan_runs = []\<rparr>"

lemma append_turns_atomic_witness:
  "snd (append_turns [sample_turn 1 ''tool_call'', sample_turn 0 ''tool_result''] 9 sample_db) = sample_db
   \<and> load_turns ''c'' (snd (append_turns [sample_turn 1 ''tool_call'', sample_turn 2 ''tool_result''] 9 sample_db))
     = [sample_turn 0 ''user'', sample_turn 1 ''tool_call'', sample_turn 2 ''tool_result'']"
proof
  have "fst (append_turns [sample_turn 1 ''tool_call'', sample_turn 0 ''tool_result''] 9 sample_db)
      = Inl (Constraint ''conversation_turns.conversation_id, conversation_turns.seq'')"
    by code_simp
  then obtain d where d: "append_turns [sample_turn 1 ''tool_call'', sample_turn 0 ''tool_result''] 9 sample_db
      = (Inl (Constraint ''conversation_turns.conversation_id, conversation_turns.seq''), d)"
    by (metis prod.collapse)
  from append_turns_atomic [OF d]
  show "snd (append_turns [sample_turn 1 ''tool_call'', sample_turn 0 ''tool_result''] 9 sample_db) = sample_db"
    by (simp add: d)
  show "load_turns ''c'' (snd (append_turns [sample_turn 1 ''tool_call'', sample_turn 2 ''tool_result''] 9 sample_db))
     = [sample_turn 0 ''user'', sample_turn 1 ''tool_call'', sample_turn 2 ''tool_result'']"
    by code_simp
qed

end
