(* ===== verification/Node_Conversation.thy ===== *)
theory Node_Conversation
  imports Node_Handler Store_Conv Planner_Catalog
begin

text \<open>
  \<open>crates/node/src/conversation.rs\<close>: the turns of a conversation with their serde codec, the
  in-memory state the planners append to, the view of it a language model gets, and the
  persistence helpers over the tables of \<open>Store_Conv\<close>. A struct is serialised in field order, so
  the stored payload is the text of a \<open>JObj\<close>; \<open>to_value\<close> sorts, which is \<open>json_obj\<close>. The clock
  and fresh ids are arguments.
\<close>

section \<open>Input\<close>

record attachment =
  at_hash :: string
  at_mime :: string
  at_size :: int
  at_name :: "string option"

record user_input =
  ui_text :: string
  ui_attachments :: "attachment list"

definition input_of_text :: "string \<Rightarrow> user_input" where
  "input_of_text t = \<lparr>ui_text = t, ui_attachments = []\<rparr>"

definition input_is_empty :: "user_input \<Rightarrow> bool" where
  "input_is_empty i \<longleftrightarrow> trim (ui_text i) = [] \<and> ui_attachments i = []"

definition middle_dot :: string where
  "middle_dot = '' '' @ [CHR 0xC2, CHR 0xB7] @ '' ''"

definition attachment_line :: "attachment \<Rightarrow> string" where
  "attachment_line a = [CHR 0x0A] @ ''[attachment: ''
     @ (case at_name a of Some n \<Rightarrow> n | None \<Rightarrow> at_mime a)
     @ middle_dot @ at_hash a @ middle_dot @ dec_int (at_size a) @ '' bytes]''"

definition planner_text :: "user_input \<Rightarrow> string" where
  "planner_text i =
     (let t = trim (ui_text i);
          t' = (if t = [] \<and> ui_attachments i \<noteq> []
            then ''The user sent '' @ dec (length (ui_attachments i)) @ '' file(s).'' else t)
      in t' @ concat (map attachment_line (ui_attachments i)))"

section \<open>Turns\<close>

datatype turn =
    TUser string "attachment list" int
  | TAssistant string "string option" int
  | TToolCall string string string json int
  | TToolResult string string string "json option" "string option" int
  | TSystem string int

fun role_label :: "turn \<Rightarrow> string" where
  "role_label (TUser _ _ _) = ''user''"
| "role_label (TAssistant _ _ _) = ''assistant''"
| "role_label (TToolCall _ _ _ _ _) = ''tool_call''"
| "role_label (TToolResult _ _ _ _ _ _) = ''tool_result''"
| "role_label (TSystem _ _) = ''system''"

fun turn_ts :: "turn \<Rightarrow> int" where
  "turn_ts (TUser _ _ ts) = ts"
| "turn_ts (TAssistant _ _ ts) = ts"
| "turn_ts (TToolCall _ _ _ _ ts) = ts"
| "turn_ts (TToolResult _ _ _ _ _ ts) = ts"
| "turn_ts (TSystem _ ts) = ts"

definition attachment_entries :: "attachment \<Rightarrow> (string \<times> json) list" where
  "attachment_entries a =
     [(''hash'', JStr (at_hash a)), (''mime'', JStr (at_mime a)), (''size'', JInt (at_size a))]
     @ opt_entry ''name'' JStr (at_name a)"

definition dec_attachment :: "json \<Rightarrow> attachment option" where
  "dec_attachment j = do {
     m \<leftarrow> struct_fields [''hash'', ''mime'', ''size'', ''name''] j;
     h \<leftarrow> field_req as_str m ''hash'';
     t \<leftarrow> field_req as_str m ''mime'';
     s \<leftarrow> field_req (dec_uint 64) m ''size'';
     n \<leftarrow> field_opt as_str m ''name'';
     Some \<lparr>at_hash = h, at_mime = t, at_size = s, at_name = n\<rparr> }"

fun turn_fields :: "turn \<Rightarrow> (string \<times> json) list" where
  "turn_fields (TUser c atts ts) =
     [(''content'', JStr c)] @ list_entry ''attachments'' (\<lambda>a. JObj (attachment_entries a)) atts
     @ [(''ts'', JInt ts)]"
| "turn_fields (TAssistant c m ts) =
     [(''content'', JStr c)] @ opt_entry ''model'' JStr m @ [(''ts'', JInt ts)]"
| "turn_fields (TToolCall i p c args ts) =
     [(''id'', JStr i), (''peer_id'', JStr p), (''capability'', JStr c), (''args'', args), (''ts'', JInt ts)]"
| "turn_fields (TToolResult i p c r e ts) =
     [(''call_id'', JStr i), (''peer_id'', JStr p), (''capability'', JStr c)]
     @ opt_entry ''result'' (\<lambda>v. v) r @ opt_entry ''error'' JStr e @ [(''ts'', JInt ts)]"
| "turn_fields (TSystem c ts) = [(''content'', JStr c), (''ts'', JInt ts)]"

definition enc_turn :: "turn \<Rightarrow> json" where
  "enc_turn t = JObj ((''role'', JStr (role_label t)) # turn_fields t)"

text \<open>\<open>#[serde(tag = ..)]\<close>: the tag, and what is left for the variant.\<close>

fun tagged :: "string \<Rightarrow> json \<Rightarrow> (string \<times> json) option" where
  "tagged k (JObj es) =
     (case filter (\<lambda>e. fst e = k) es of
        [(_, JStr t)] \<Rightarrow> Some (t, JObj (filter (\<lambda>e. fst e \<noteq> k) es))
      | _ \<Rightarrow> None)"
| "tagged k (JArr (JStr t # vs)) = Some (t, JArr vs)"
| "tagged k _ = None"

definition dec_turn :: "json \<Rightarrow> turn option" where
  "dec_turn j = do {
     (tag, rest) \<leftarrow> tagged ''role'' j;
     (if tag = ''user'' then do {
        m \<leftarrow> struct_fields [''content'', ''attachments'', ''ts''] rest;
        c \<leftarrow> field_req as_str m ''content'';
        a \<leftarrow> field_default (dec_list dec_attachment) [] m ''attachments'';
        ts \<leftarrow> field_req (dec_sint 64) m ''ts'';
        Some (TUser c a ts) }
      else if tag = ''assistant'' then do {
        m \<leftarrow> struct_fields [''content'', ''model'', ''ts''] rest;
        c \<leftarrow> field_req as_str m ''content'';
        o' \<leftarrow> field_opt as_str m ''model'';
        ts \<leftarrow> field_req (dec_sint 64) m ''ts'';
        Some (TAssistant c o' ts) }
      else if tag = ''tool_call'' then do {
        m \<leftarrow> struct_fields [''id'', ''peer_id'', ''capability'', ''args'', ''ts''] rest;
        i \<leftarrow> field_req as_str m ''id'';
        p \<leftarrow> field_req as_str m ''peer_id'';
        c \<leftarrow> field_req as_str m ''capability'';
        a \<leftarrow> field_req Some m ''args'';
        ts \<leftarrow> field_req (dec_sint 64) m ''ts'';
        Some (TToolCall i p c a ts) }
      else if tag = ''tool_result'' then do {
        m \<leftarrow> struct_fields [''call_id'', ''peer_id'', ''capability'', ''result'', ''error'', ''ts''] rest;
        i \<leftarrow> field_req as_str m ''call_id'';
        p \<leftarrow> field_req as_str m ''peer_id'';
        c \<leftarrow> field_req as_str m ''capability'';
        r \<leftarrow> field_opt Some m ''result'';
        e \<leftarrow> field_opt as_str m ''error'';
        ts \<leftarrow> field_req (dec_sint 64) m ''ts'';
        Some (TToolResult i p c r e ts) }
      else if tag = ''system'' then do {
        m \<leftarrow> struct_fields [''content'', ''ts''] rest;
        c \<leftarrow> field_req as_str m ''content'';
        ts \<leftarrow> field_req (dec_sint 64) m ''ts'';
        Some (TSystem c ts) }
      else None) }"

section \<open>The state of a conversation\<close>

record conv_state =
  cs_id :: string
  cs_client_id :: string
  cs_title :: "string option"
  cs_created_at :: int
  cs_updated_at :: int
  cs_turns :: "turn list"
  cs_next_seq :: int

definition conv_new :: "string \<Rightarrow> string \<Rightarrow> string option \<Rightarrow> int \<Rightarrow> conv_state" where
  "conv_new i client title now =
     \<lparr>cs_id = i, cs_client_id = client, cs_title = title, cs_created_at = now, cs_updated_at = now,
      cs_turns = [], cs_next_seq = 0\<rparr>"

definition next_seq :: "conv_state \<Rightarrow> int" where
  "next_seq cs = cs_next_seq cs + 1"

definition push_turn :: "turn \<Rightarrow> conv_state \<Rightarrow> conv_state" where
  "push_turn t cs = cs\<lparr>cs_next_seq := cs_next_seq cs + 1, cs_updated_at := turn_ts t,
     cs_turns := cs_turns cs @ [t]\<rparr>"

definition push_user_input :: "user_input \<Rightarrow> int \<Rightarrow> conv_state \<Rightarrow> conv_state" where
  "push_user_input i now = push_turn (TUser (ui_text i) (ui_attachments i) now)"

definition push_user :: "string \<Rightarrow> int \<Rightarrow> conv_state \<Rightarrow> conv_state" where
  "push_user c = push_user_input \<lparr>ui_text = c, ui_attachments = []\<rparr>"

definition push_assistant :: "string \<Rightarrow> string option \<Rightarrow> int \<Rightarrow> conv_state \<Rightarrow> conv_state" where
  "push_assistant c m now = push_turn (TAssistant c m now)"

definition push_tool_call_with_id ::
  "string \<Rightarrow> string \<Rightarrow> string \<Rightarrow> json \<Rightarrow> int \<Rightarrow> conv_state \<Rightarrow> conv_state" where
  "push_tool_call_with_id i p c args now = push_turn (TToolCall i p c args now)"

definition push_tool_call ::
  "string \<Rightarrow> string \<Rightarrow> string \<Rightarrow> json \<Rightarrow> int \<Rightarrow> conv_state \<Rightarrow> string \<times> conv_state" where
  "push_tool_call uuid p c args now cs =
     (let i = ''call_'' @ uuid in (i, push_tool_call_with_id i p c args now cs))"

definition push_tool_result ::
  "string \<Rightarrow> string \<Rightarrow> string \<Rightarrow> json option \<Rightarrow> string option \<Rightarrow> int \<Rightarrow> conv_state \<Rightarrow> conv_state" where
  "push_tool_result i p c r e now = push_turn (TToolResult i p c r e now)"

definition push_system :: "string \<Rightarrow> int \<Rightarrow> conv_state \<Rightarrow> conv_state" where
  "push_system c now = push_turn (TSystem c now)"

definition ui_turns :: "conv_state \<Rightarrow> json list" where
  "ui_turns cs = map (\<lambda>t. json_obj ((''role'', JStr (role_label t)) # turn_fields t)) (cs_turns cs)"

text \<open>\<open>validate\<close>: the repair of a call without its result.\<close>

definition conv_validate :: "int \<Rightarrow> conv_state \<Rightarrow> conv_state" where
  "conv_validate now cs =
     (if cs_turns cs = [] then cs
      else (case last (cs_turns cs) of
              TToolCall i p c args ts \<Rightarrow>
                push_tool_result i p c None
                  (Some ''instance restarted before result was persisted'') now cs
            | _ \<Rightarrow> cs))"

section \<open>What the language model sees\<close>

fun is_assistant :: "turn \<Rightarrow> bool" where
  "is_assistant (TAssistant _ _ _) = True"
| "is_assistant _ = False"

fun is_tool :: "turn \<Rightarrow> bool" where
  "is_tool (TToolCall _ _ _ _ _) = True"
| "is_tool (TToolResult _ _ _ _ _ _) = True"
| "is_tool _ = False"

definition last_assistant :: "turn list \<Rightarrow> nat option" where
  "last_assistant ts = map_option fst (find (\<lambda>p. is_assistant (snd p)) (rev (zip [0..<length ts] ts)))"

definition filter_visible_for_llm :: "turn list \<Rightarrow> turn list" where
  "filter_visible_for_llm ts =
     map snd (filter (\<lambda>(i, t). \<not> (is_tool t \<and> (case last_assistant ts of Some li \<Rightarrow> i \<le> li | None \<Rightarrow> False)))
       (zip [0..<length ts] ts))"

definition answers :: "turn \<Rightarrow> turn \<Rightarrow> bool" where
  "answers r c \<longleftrightarrow> (case (r, c) of
     (TToolResult i _ _ _ _ _, TToolCall j _ _ _ _) \<Rightarrow> j = i | _ \<Rightarrow> False)"

definition prune_context_refs :: "turn list \<Rightarrow> nat \<Rightarrow> turn list" where
  "prune_context_refs ts max_turns =
     (if length ts \<le> max_turns then ts
      else let start = length ts - max_turns;
               start' = (if 0 < start \<and> start < length ts \<and> answers (ts ! start) (ts ! (start - 1))
                 then start - 1 else start)
        in drop start' ts)"

definition chat_tool_name :: "string \<Rightarrow> string \<Rightarrow> string" where
  "chat_tool_name p c =
     concat (take 12 (chars (case strip_prefix ''n3:'' p of Some b \<Rightarrow> b | None \<Rightarrow> p))) @ ''::'' @ c"

fun turn_to_message :: "(json \<Rightarrow> string) \<Rightarrow> turn \<Rightarrow> json" where
  "turn_to_message show (TUser c _ _) = json_obj [(''role'', JStr ''user''), (''content'', JStr c)]"
| "turn_to_message show (TAssistant c _ _) =
     json_obj [(''role'', JStr ''assistant''), (''content'', JStr c)]"
| "turn_to_message show (TSystem c _) = json_obj [(''role'', JStr ''system''), (''content'', JStr c)]"
| "turn_to_message show (TToolCall i p c args _) =
     json_obj [(''role'', JStr ''assistant''), (''content'', JNull),
       (''tool_calls'', JArr [json_obj [(''id'', JStr i), (''type'', JStr ''function''),
          (''function'', json_obj [(''name'', JStr (chat_tool_name p c)),
             (''arguments'', JStr (show args))])]])]"
| "turn_to_message show (TToolResult i _ _ r e _) =
     json_obj [(''role'', JStr ''tool''), (''tool_call_id'', JStr i),
       (''content'', JStr (case e of
           Some err \<Rightarrow> show (json_obj [(''error'', JStr err)])
         | None \<Rightarrow> show (case r of Some v \<Rightarrow> v | None \<Rightarrow> JNull)))]"

definition to_chat_messages :: "(json \<Rightarrow> string) \<Rightarrow> nat \<Rightarrow> conv_state \<Rightarrow> json list" where
  "to_chat_messages show max_turns cs =
     map (turn_to_message show) (prune_context_refs (filter_visible_for_llm (cs_turns cs)) max_turns)"

section \<open>Persistence\<close>

datatype conv_error =
    ConvStorage storage_error
  | ConvSerde
  | ConvNotFound string
  | OwnershipMismatch

definition conv_create ::
  "string \<Rightarrow> int \<Rightarrow> string \<Rightarrow> string option \<Rightarrow> conv_db \<Rightarrow> (conv_error, conv_state) result \<times> conv_db" where
  "conv_create uuid now client title db =
     (let cs = conv_new (''conv_'' @ uuid) client title now in
      case conv_insert \<lparr>cv_id = cs_id cs, cv_client_id = client, cv_title = title,
             cv_created_at = cs_created_at cs, cv_updated_at = cs_updated_at cs\<rparr> db of
        Inl e \<Rightarrow> (Inl (ConvStorage e), db)
      | Inr db' \<Rightarrow> (Inr cs, db'))"

definition parse_payload :: "('b, 'x) node_env_scheme \<Rightarrow> turn_record \<Rightarrow> (conv_error, turn) result" where
  "parse_payload ne r =
     (case Option.bind (json_from_str ne (tr_payload r)) dec_turn of
        None \<Rightarrow> Inl ConvSerde | Some t \<Rightarrow> Inr t)"

definition conv_load ::
  "('b, 'x) node_env_scheme \<Rightarrow> int \<Rightarrow> string \<Rightarrow> string \<Rightarrow> conv_db \<Rightarrow> (conv_error, conv_state) result" where
  "conv_load ne now i client db =
     (case conv_get i db of
        None \<Rightarrow> Inl (ConvNotFound i)
      | Some r \<Rightarrow>
          if cv_client_id r \<noteq> client then Inl OwnershipMismatch
          else (case map_result (parse_payload ne) (load_turns i db) of
                  Inl e \<Rightarrow> Inl e
                | Inr ts \<Rightarrow> Inr (conv_validate now
                    \<lparr>cs_id = cv_id r, cs_client_id = cv_client_id r, cs_title = cv_title r,
                     cs_created_at = cv_created_at r, cs_updated_at = cv_updated_at r, cs_turns = ts,
                     cs_next_seq = fold (\<lambda>row m. if tr_seq row > m then tr_seq row else m) (load_turns i db) 0\<rparr>)))"

definition turn_row :: "('b, 'x) node_env_scheme \<Rightarrow> string \<Rightarrow> int \<Rightarrow> int \<Rightarrow> turn \<Rightarrow> turn_record" where
  "turn_row ne conv sq at t =
     \<lparr>tr_conversation_id = conv, tr_seq = sq, tr_role = role_label t,
      tr_payload = serde_text ne (enc_turn t), tr_created_at = at\<rparr>"

definition persist_last ::
  "('b, 'x) node_env_scheme \<Rightarrow> conv_state \<Rightarrow> conv_db \<Rightarrow> (conv_error, unit) result \<times> conv_db" where
  "persist_last ne cs db =
     (if cs_turns cs = [] then (Inl (ConvNotFound ''empty turns''), db)
      else let t = last (cs_turns cs) in
        (case append_turn (turn_row ne (cs_id cs) (cs_next_seq cs) (turn_ts t) t) (cs_updated_at cs) db of
           (Inl e, db') \<Rightarrow> (Inl (ConvStorage e), db')
         | (Inr _, db') \<Rightarrow> (Inr (), db')))"

text \<open>The two turns of a step, at the positions its index reserves.\<close>

record tool_pair =
  tp_call_id :: string
  tp_peer :: string
  tp_capability :: string
  tp_args :: json
  tp_result :: "json option"
  tp_error :: "string option"

definition tool_rows ::
  "('b, 'x) node_env_scheme \<Rightarrow> string \<Rightarrow> int \<Rightarrow> nat \<Rightarrow> tool_pair \<Rightarrow> int \<Rightarrow> turn_record list" where
  "tool_rows ne conv base_seq n p at =
     (let call_seq = base_seq + 1 + 2 * int n in
      [turn_row ne conv call_seq at (TToolCall (tp_call_id p) (tp_peer p) (tp_capability p) (tp_args p) at),
       turn_row ne conv (call_seq + 1) at
         (TToolResult (tp_call_id p) (tp_peer p) (tp_capability p) (tp_result p) (tp_error p) at)])"

definition persist_tool_pair_at ::
  "('b, 'x) node_env_scheme \<Rightarrow> string \<Rightarrow> int \<Rightarrow> nat \<Rightarrow> tool_pair \<Rightarrow> int \<Rightarrow> conv_db
     \<Rightarrow> (conv_error, unit) result \<times> conv_db" where
  "persist_tool_pair_at ne conv base_seq n p at db =
     (case append_turns (tool_rows ne conv base_seq n p at) at db of
        (Inl e, db') \<Rightarrow> (Inl (ConvStorage e), db')
      | (Inr _, db') \<Rightarrow> (Inr (), db'))"

section \<open>The codec of turns\<close>

definition turn_ok :: "turn \<Rightarrow> bool" where
  "turn_ok t \<longleftrightarrow> - (2 ^ 63) \<le> turn_ts t \<and> turn_ts t < 2 ^ 63
     \<and> (case t of TUser _ atts _ \<Rightarrow> list_all (\<lambda>a. 0 \<le> at_size a \<and> at_size a < 2 ^ 64) atts
        | TToolResult _ _ _ r _ _ \<Rightarrow> r \<noteq> Some JNull
        | _ \<Rightarrow> True)"

lemma dec_attachment_enc:
  assumes "0 \<le> at_size a" "at_size a < 2 ^ 64"
  shows "dec_attachment (JObj (attachment_entries a)) = Some a"
  using assms
  by (cases a; cases "at_name a")
    (simp_all add: dec_attachment_def attachment_entries_def opt_entry_def field_defs dec_uint_def read_opt_def)

lemma dec_attachments_enc:
  assumes "list_all (\<lambda>a. 0 \<le> at_size a \<and> at_size a < 2 ^ 64) atts"
  shows "dec_list dec_attachment (enc_list (\<lambda>a. JObj (attachment_entries a)) atts) = Some atts"
proof -
  have "those (map (dec_attachment \<circ> (\<lambda>a. JObj (attachment_entries a))) atts) = Some atts"
    using assms by (intro those_map_Some dec_attachment_enc) (auto simp: list_all_iff)
  then show ?thesis by (simp add: dec_list_def enc_list_def)
qed

lemma dec_turn_enc:
  assumes "turn_ok t"
  shows "dec_turn (enc_turn t) = Some t"
proof (cases t)
  case (TUser c atts ts)
  then show ?thesis
    using assms dec_attachments_enc [of atts]
    by (cases atts) (simp_all add: turn_ok_def dec_turn_def enc_turn_def list_entry_def field_defs
        dec_sint_def read_default_def)
next
  case (TAssistant c m ts)
  then show ?thesis
    using assms by (cases m) (simp_all add: turn_ok_def dec_turn_def enc_turn_def opt_entry_def field_defs
        dec_sint_def read_opt_def)
next
  case (TToolCall i p c args ts)
  then show ?thesis
    using assms by (simp add: turn_ok_def dec_turn_def enc_turn_def field_defs dec_sint_def)
next
  case (TToolResult i p c r e ts)
  then show ?thesis
    using assms by (cases r; cases e) (simp_all add: turn_ok_def dec_turn_def enc_turn_def opt_entry_def
        field_defs dec_sint_def read_opt_def)
next
  case (TSystem c ts)
  then show ?thesis
    using assms by (simp add: turn_ok_def dec_turn_def enc_turn_def field_defs dec_sint_def)
qed

section \<open>What is stored\<close>

lemma role_label_known: "role_label t \<in> set turn_roles"
  by (cases t) (simp_all add: turn_roles_def)

definition ledger_rows :: "('b, 'x) node_env_scheme \<Rightarrow> string \<Rightarrow> turn list \<Rightarrow> turn_record list" where
  "ledger_rows ne i ts = map (\<lambda>(n, t). turn_row ne i (int n + 1) (turn_ts t) t) (zip [0..<length ts] ts)"

text \<open>The tables hold the state, turn by turn.\<close>

definition stored :: "('b, 'x) node_env_scheme \<Rightarrow> conv_state \<Rightarrow> conv_db \<Rightarrow> bool" where
  "stored ne cs db \<longleftrightarrow>
     conv_get (cs_id cs) db = Some \<lparr>cv_id = cs_id cs, cv_client_id = cs_client_id cs, cv_title = cs_title cs,
       cv_created_at = cs_created_at cs, cv_updated_at = cs_updated_at cs\<rparr>
     \<and> load_turns (cs_id cs) db = ledger_rows ne (cs_id cs) (cs_turns cs)
     \<and> cs_next_seq cs = int (length (cs_turns cs))"

text \<open>Printing and parsing JSON text gives the turns back.\<close>

definition text_law :: "('b, 'x) node_env_scheme \<Rightarrow> turn list \<Rightarrow> bool" where
  "text_law ne ts \<longleftrightarrow>
     list_all (\<lambda>t. json_from_str ne (serde_text ne (enc_turn t)) = Some (enc_turn t) \<and> turn_ok t) ts"

lemma ledger_rows_snoc:
  "ledger_rows ne i (ts @ [t]) = ledger_rows ne i ts @ [turn_row ne i (int (length ts) + 1) (turn_ts t) t]"
  by (simp add: ledger_rows_def)

lemma parse_ledger: "text_law ne ts \<Longrightarrow> map_result (parse_payload ne) (ledger_rows ne i ts) = Inr ts"
proof (induction ts rule: rev_induct)
  case (snoc t ts)
  have "list_all2 (\<lambda>row t. parse_payload ne row = Inr t) (ledger_rows ne i ts) ts"
    using snoc by (simp add: text_law_def map_result_Inr)
  moreover have "parse_payload ne (turn_row ne i n at t) = Inr t" for n at
    using snoc.prems by (simp add: text_law_def parse_payload_def turn_row_def dec_turn_enc)
  ultimately show ?case by (simp add: map_result_Inr ledger_rows_snoc list_all2_appendI)
qed (simp add: ledger_rows_def)

lemma ledger_next:
  "fold (\<lambda>row m. if tr_seq row > m then tr_seq row else m) (ledger_rows ne i ts) 0 = int (length ts)"
  by (induction ts rule: rev_induct) (simp_all add: ledger_rows_snoc turn_row_def, simp add: ledger_rows_def)

lemma load_stored:
  assumes "stored ne cs db" "text_law ne (cs_turns cs)"
  shows "conv_load ne now (cs_id cs) (cs_client_id cs) db = Inr (conv_validate now cs)"
  using assms parse_ledger [OF assms(2), of "cs_id cs"]
  by (cases cs) (simp add: stored_def conv_load_def ledger_next)

lemma in_load_turns: "t \<in> set (load_turns i db) \<longleftrightarrow> t \<in> set (turns db) \<and> tr_conversation_id t = i"
  by (auto simp: load_turns_def)

lemma max_seq_row:
  assumes "max_seq i db = Some m"
  shows "\<exists>r\<in>set (load_turns i db). tr_seq r = m"
proof -
  let ?s = "map tr_seq (filter (\<lambda>t. tr_conversation_id t = i) (turns db))"
  have "?s \<noteq> []" "m = Max (set ?s)"
    using assms by (auto simp only: max_seq_def Let_def option.inject option.distinct split: if_splits)
  then have "m \<in> set ?s" by (metis List.finite_set Max_in set_empty)
  then show ?thesis by (auto simp: in_load_turns)
qed

lemma conv_get_turns [simp]: "conv_get j (db\<lparr>turns := ts\<rparr>) = conv_get j db"
  by (simp add: conv_get_def)

lemma conv_get_meta:
  "conv_get j (update_meta i None at db)
    = (if j = i then map_option (\<lambda>c. c\<lparr>cv_updated_at := at\<rparr>) (conv_get j db) else conv_get j db)"
  by (simp add: conv_get_def update_meta_def select_by_update_key)

lemma insert_turn_fresh:
  assumes "select_by turn_key (turn_key t) (turns db) = None" "tr_role t \<in> set turn_roles"
    "conv_get (tr_conversation_id t) db \<noteq> None"
  shows "insert_turn t db = Inr (db\<lparr>turns := turns db @ [t]\<rparr>)"
  using assms by (simp add: insert_turn_def)

lemma append_turn_fresh:
  assumes "\<And>r. r \<in> set (turns db) \<Longrightarrow> turn_key r \<noteq> turn_key t" "tr_role t \<in> set turn_roles"
    "conv_get (tr_conversation_id t) db \<noteq> None"
  shows "append_turn t at db
    = (Inr (), update_meta (tr_conversation_id t) None at (db\<lparr>turns := turns db @ [t]\<rparr>))"
proof -
  have "select_by turn_key (turn_key t) (turns db) = None" using assms(1) by (auto simp: select_by_None)
  then show ?thesis using assms(2,3) by (simp add: append_turn_def append_turns_def insert_turn_def)
qed

lemma persist_push:
  assumes "stored ne cs db"
  shows "\<exists>db'. persist_last ne (push_turn t cs) db = (Inr (), db') \<and> stored ne (push_turn t cs) db'"
proof -
  let ?row = "turn_row ne (cs_id cs) (int (length (cs_turns cs)) + 1) (turn_ts t) t"
  let ?db = "db\<lparr>turns := turns db @ [?row]\<rparr>"
  note st = assms [unfolded stored_def]
  have bound: "tr_seq r \<le> int (length (cs_turns cs))" if "r \<in> set (load_turns (cs_id cs) db)" for r
    using that unfolding st [THEN conjunct2, THEN conjunct1]
    by (auto simp: ledger_rows_def turn_row_def set_zip)
  have fresh: "turn_key r \<noteq> turn_key ?row" if "r \<in> set (turns db)" for r
    using bound [of r] that by (auto simp: turn_key_def in_load_turns turn_row_def)
  have known: "tr_conversation_id ?row = cs_id cs" "tr_role ?row \<in> set turn_roles"
    by (simp_all add: turn_row_def role_label_known)
  have "append_turn ?row (turn_ts t) db = (Inr (), update_meta (cs_id cs) None (turn_ts t) ?db)"
    using append_turn_fresh [OF fresh known(2)] st unfolding known(1) by simp
  then have "persist_last ne (push_turn t cs) db = (Inr (), update_meta (cs_id cs) None (turn_ts t) ?db)"
    using st by (simp add: persist_last_def push_turn_def add.commute)
  moreover have "load_turns (cs_id cs) ?db = load_turns (cs_id cs) db @ [?row]"
  proof -
    have "load_turns (cs_id cs) ?db = load_turns (cs_id cs) db @ filter (\<lambda>r. tr_conversation_id r = cs_id cs) [?row]"
    proof (rule load_appended)
      fix m r assume m: "max_seq (cs_id cs) db = Some m" "r \<in> set [?row]"
      then have "m \<le> int (length (cs_turns cs))" using max_seq_row [OF m(1)] bound by auto
      then show "m < tr_seq r" using m(2) by (simp add: turn_row_def)
    qed simp_all
    then show ?thesis by (simp add: known(1))
  qed
  moreover have "conv_get (cs_id cs) ?db = conv_get (cs_id cs) db" by (simp add: conv_get_def)
  ultimately show ?thesis
    using st by (auto simp: stored_def push_turn_def conv_get_meta load_turns_def ledger_rows_snoc)
qed

section \<open>Steps that finish in any order\<close>

definition persist_pairs ::
  "('b, 'x) node_env_scheme \<Rightarrow> string \<Rightarrow> int \<Rightarrow> int \<Rightarrow> (nat \<times> tool_pair) list \<Rightarrow> conv_db \<Rightarrow> conv_db" where
  "persist_pairs ne conv base_seq at ps db =
     fold (\<lambda>(n, p) d. snd (persist_tool_pair_at ne conv base_seq n p at d)) ps db"

definition pair_rows ::
  "('b, 'x) node_env_scheme \<Rightarrow> string \<Rightarrow> int \<Rightarrow> int \<Rightarrow> (nat \<times> tool_pair) list \<Rightarrow> turn_record list" where
  "pair_rows ne conv base_seq at ps = concat (map (\<lambda>(n, p). tool_rows ne conv base_seq n p at) ps)"

lemma tool_rows_set:
  "r \<in> set (tool_rows ne conv b n p at) \<Longrightarrow> tr_conversation_id r = conv
     \<and> (tr_seq r = b + 1 + 2 * int n \<or> tr_seq r = b + 2 + 2 * int n)"
  by (auto simp: tool_rows_def Let_def turn_row_def)

lemma persist_pair_fresh:
  assumes "conv_get conv db \<noteq> None"
    and "\<And>r. r \<in> set (turns db) \<Longrightarrow> tr_conversation_id r = conv
      \<Longrightarrow> tr_seq r \<noteq> b + 1 + 2 * int n \<and> tr_seq r \<noteq> b + 2 + 2 * int n"
  obtains db' where "persist_tool_pair_at ne conv b n p at db = (Inr (), db')"
    "turns db' = turns db @ tool_rows ne conv b n p at" "conv_get conv db' \<noteq> None"
proof -
  let ?c = "turn_row ne conv (b + 1 + 2 * int n) at
    (TToolCall (tp_call_id p) (tp_peer p) (tp_capability p) (tp_args p) at)"
  let ?r = "turn_row ne conv (b + 1 + 2 * int n + 1) at
    (TToolResult (tp_call_id p) (tp_peer p) (tp_capability p) (tp_result p) (tp_error p) at)"
  let ?d1 = "db\<lparr>turns := turns db @ [?c]\<rparr>"
  let ?m1 = "update_meta conv None at ?d1"
  let ?d2 = "?m1\<lparr>turns := turns ?m1 @ [?r]\<rparr>"
  have keys: "turn_key ?c = (conv, b + 1 + 2 * int n)" "turn_key ?r = (conv, b + 2 + 2 * int n)"
    "tr_conversation_id ?c = conv" "tr_conversation_id ?r = conv"
    "tr_role ?c \<in> set turn_roles" "tr_role ?r \<in> set turn_roles"
    by (simp_all add: turn_key_def turn_row_def turn_roles_def)
  have "select_by turn_key (turn_key ?c) (turns db) = None"
    unfolding select_by_None keys(1) using assms(2) by (auto simp: turn_key_def)
  then have i1: "insert_turn ?c db = Inr ?d1"
    by (rule insert_turn_fresh [OF _ keys(5)]) (simp only: keys(3) assms(1) not_False_eq_True)
  have get1: "conv_get conv ?m1 \<noteq> None"
    using assms(1) by (simp add: conv_get_meta)
  have "select_by turn_key (turn_key ?r) (turns ?m1) = None"
    unfolding select_by_None keys(2) using assms(2) keys(1) by (auto simp: turn_key_def)
  then have i2: "insert_turn ?r ?m1 = Inr ?d2"
    by (rule insert_turn_fresh [OF _ keys(6)]) (simp only: keys(4) get1 not_False_eq_True)
  have loop: "append_loop at [?c, ?r] db = Inr (update_meta conv None at ?d2)"
    by (simp only: append_loop.simps i1 i2 sum.case keys(3,4))
  have rows: "tool_rows ne conv b n p at = [?c, ?r]" by (simp add: tool_rows_def Let_def)
  have "persist_tool_pair_at ne conv b n p at db = (Inr (), update_meta conv None at ?d2)"
    by (simp only: persist_tool_pair_at_def append_turns_def rows loop sum.case prod.case list.distinct if_False)
  moreover have "turns (update_meta conv None at ?d2) = turns db @ tool_rows ne conv b n p at"
    by (simp add: rows)
  moreover have "conv_get conv (update_meta conv None at ?d2) \<noteq> None"
    using get1 by (simp add: conv_get_meta)
  ultimately show thesis by (rule that)
qed

lemma persist_pairs_turns:
  assumes "distinct (map fst ps)" "conv_get conv db \<noteq> None"
    and "\<And>r n. r \<in> set (turns db) \<Longrightarrow> tr_conversation_id r = conv \<Longrightarrow> n \<in> fst ` set ps
      \<Longrightarrow> tr_seq r \<noteq> b + 1 + 2 * int n \<and> tr_seq r \<noteq> b + 2 + 2 * int n"
  shows "turns (persist_pairs ne conv b at ps db) = turns db @ pair_rows ne conv b at ps"
  using assms
proof (induction ps arbitrary: db)
  case (Cons x ps)
  obtain n p where x: "x = (n, p)" by force
  have free: "tr_seq r \<noteq> b + 1 + 2 * int n \<and> tr_seq r \<noteq> b + 2 + 2 * int n"
    if "r \<in> set (turns db)" "tr_conversation_id r = conv" for r
    using Cons.prems(3) [OF that, of n] x by simp
  obtain db' where db': "persist_tool_pair_at ne conv b n p at db = (Inr (), db')"
    "turns db' = turns db @ tool_rows ne conv b n p at" "conv_get conv db' \<noteq> None"
    by (rule persist_pair_fresh [OF Cons.prems(2) free])
  have "turns (persist_pairs ne conv b at ps db') = turns db' @ pair_rows ne conv b at ps"
  proof (rule Cons.IH)
    show "distinct (map fst ps)" using Cons.prems(1) by simp
    show "conv_get conv db' \<noteq> None" by (rule db'(3))
    fix r k assume r: "r \<in> set (turns db')" "tr_conversation_id r = conv" "k \<in> fst ` set ps"
    have "k \<noteq> n" using Cons.prems(1) r(3) x by auto
    show "tr_seq r \<noteq> b + 1 + 2 * int k \<and> tr_seq r \<noteq> b + 2 + 2 * int k"
    proof (cases "r \<in> set (turns db)")
      case True
      then show ?thesis using Cons.prems(3) [OF _ r(2), of k] r(3) by simp
    next
      case False
      then have "tr_seq r = b + 1 + 2 * int n \<or> tr_seq r = b + 2 + 2 * int n"
        using r(1) tool_rows_set [of r ne conv b n p at] unfolding db'(2) set_append by blast
      then show ?thesis using \<open>k \<noteq> n\<close> by presburger
    qed
  qed
  then show ?case using db'(1,2) x by (simp add: persist_pairs_def pair_rows_def)
qed (simp add: persist_pairs_def pair_rows_def)

lemma persist_pairs_ok: "db_ok db \<Longrightarrow> db_ok (persist_pairs ne conv b at ps db)"
proof (induction ps arbitrary: db)
  case (Cons x ps)
  obtain n p where x: "x = (n, p)" by force
  have "snd (persist_tool_pair_at ne conv b n p at db) = snd (append_turns (tool_rows ne conv b n p at) at db)"
    by (simp add: persist_tool_pair_at_def split: prod.split sum.split)
  then have "db_ok (snd (persist_tool_pair_at ne conv b n p at db))"
    using append_turns_ok [OF Cons.prems] by simp
  then show ?case using Cons.IH x by (simp add: persist_pairs_def)
qed (simp add: persist_pairs_def)

lemma pair_rows_sorted:
  assumes "sorted_wrt (<) (map fst ps)"
  shows "sorted (map tr_seq (pair_rows ne conv b at ps))"
    and "\<And>r. r \<in> set (pair_rows ne conv b at ps) \<Longrightarrow> tr_conversation_id r = conv \<and> b < tr_seq r"
proof -
  show "sorted (map tr_seq (pair_rows ne conv b at ps))" using assms
  proof (induction ps)
    case (Cons x ps)
    obtain n p where x: "x = (n, p)" by force
    have "b + 2 + 2 * int n < tr_seq r" if "r \<in> set (pair_rows ne conv b at ps)" for r
    proof -
      obtain k q where "(k, q) \<in> set ps" "r \<in> set (tool_rows ne conv b k q at)"
        using \<open>r \<in> set (pair_rows ne conv b at ps)\<close> by (auto simp: pair_rows_def)
      moreover have "n < k" using Cons.prems x calculation(1) by force
      ultimately show ?thesis using tool_rows_set [of r ne conv b k q at] by auto
    qed
    then show ?case using Cons x
      by (force simp: pair_rows_def tool_rows_def Let_def turn_row_def sorted_append)
  qed (simp add: pair_rows_def)
  fix r assume "r \<in> set (pair_rows ne conv b at ps)"
  then obtain k q where "r \<in> set (tool_rows ne conv b k q at)" by (auto simp: pair_rows_def)
  then show "tr_conversation_id r = conv \<and> b < tr_seq r" using tool_rows_set [of r ne conv b k q at] by auto
qed

section \<open>The context window\<close>

text \<open>Every result directly follows the call it answers.\<close>

definition pairs_at :: "turn list \<Rightarrow> bool" where
  "pairs_at ts \<longleftrightarrow> (\<forall>k<length ts. case ts ! k of
     TToolResult _ _ _ _ _ _ \<Rightarrow> 0 < k \<and> answers (ts ! k) (ts ! (k - 1)) | _ \<Rightarrow> True)"

lemma pairs_at_drop:
  assumes "pairs_at ts"
    and "n < length ts \<Longrightarrow> (case ts ! n of TToolResult _ _ _ _ _ _ \<Rightarrow> False | _ \<Rightarrow> True)"
  shows "pairs_at (drop n ts)"
  unfolding pairs_at_def
proof (intro allI impI)
  fix k assume k: "k < length (drop n ts)"
  then have here: "case ts ! (n + k) of
      TToolResult _ _ _ _ _ _ \<Rightarrow> 0 < n + k \<and> answers (ts ! (n + k)) (ts ! (n + k - 1)) | _ \<Rightarrow> True"
    using assms(1) by (simp add: pairs_at_def)
  show "case drop n ts ! k of
      TToolResult _ _ _ _ _ _ \<Rightarrow> 0 < k \<and> answers (drop n ts ! k) (drop n ts ! (k - 1)) | _ \<Rightarrow> True"
  proof (cases k)
    case 0
    then show ?thesis using assms(2) k by (simp split: turn.splits)
  next
    case (Suc j)
    then show ?thesis using here k by (simp split: turn.splits)
  qed
qed

lemma find_SomeD: "find P xs = Some x \<Longrightarrow> x \<in> set xs \<and> P x"
  by (induction xs) (auto split: if_splits)

lemma last_assistant_Some:
  assumes "last_assistant ts = Some li"
  shows "li < length ts" "is_assistant (ts ! li)"
proof -
  obtain t where "find (\<lambda>p. is_assistant (snd p)) (rev (zip [0..<length ts] ts)) = Some (li, t)"
    using assms by (auto simp: last_assistant_def)
  then have "(li, t) \<in> set (zip [0..<length ts] ts)" "is_assistant t" by (auto dest!: find_SomeD)
  then show "li < length ts" "is_assistant (ts ! li)" by (auto simp: set_zip)
qed

lemma filter_zip_suffix:
  "map snd (filter (\<lambda>(i, t). \<not> (P t \<and> i \<le> li)) (zip [a..<a + length ts] ts))
    = filter (\<lambda>t. \<not> P t) (take (Suc li - a) ts) @ drop (Suc li - a) ts"
proof (induction ts arbitrary: a)
  case (Cons t ts)
  have "[a..<a + length (t # ts)] = a # [Suc a..<Suc a + length ts]" by (subst upt_rec) simp
  then show ?case using Cons.IH [of "Suc a"] by (cases "a \<le> li") (auto simp: Suc_diff_le)
qed simp

lemma visible_split:
  "filter_visible_for_llm ts =
     (case last_assistant ts of None \<Rightarrow> ts
      | Some li \<Rightarrow> filter (\<lambda>t. \<not> is_tool t) (take (Suc li) ts) @ drop (Suc li) ts)"
proof (cases "last_assistant ts")
  case None
  then show ?thesis by (simp add: filter_visible_for_llm_def case_prod_unfold)
next
  case (Some li)
  then show ?thesis
    using filter_zip_suffix [of is_tool li 0 ts] by (simp add: filter_visible_for_llm_def)
qed

lemma pairs_at_append:
  assumes "list_all (\<lambda>t. \<not> is_tool t) xs" "pairs_at ys"
  shows "pairs_at (xs @ ys)"
  unfolding pairs_at_def
proof (intro allI impI)
  fix k assume k: "k < length (xs @ ys)"
  show "case (xs @ ys) ! k of
      TToolResult _ _ _ _ _ _ \<Rightarrow> 0 < k \<and> answers ((xs @ ys) ! k) ((xs @ ys) ! (k - 1)) | _ \<Rightarrow> True"
  proof (cases "k < length xs")
    case True
    then have "\<not> is_tool ((xs @ ys) ! k)" using assms(1) by (simp add: list_all_length nth_append)
    then show ?thesis by (cases "(xs @ ys) ! k") simp_all
  next
    case False
    then obtain j where j: "k = length xs + j" by (metis le_iff_add not_less)
    then have here: "case ys ! j of TToolResult _ _ _ _ _ _ \<Rightarrow> 0 < j \<and> answers (ys ! j) (ys ! (j - 1)) | _ \<Rightarrow> True"
      using assms(2) k by (simp add: pairs_at_def)
    have "(xs @ ys) ! k = ys ! j" "0 < j \<Longrightarrow> (xs @ ys) ! (k - 1) = ys ! (j - 1)"
      using j by (cases j; simp add: nth_append)+
    then show ?thesis using here j by (cases "ys ! j") simp_all
  qed
qed

lemma answers_shape: "answers r c \<Longrightarrow> (\<exists>i p cap a ts. c = TToolCall i p cap a ts)"
  by (cases r; cases c) (auto simp: answers_def)

lemma visible_pairs:
  assumes "pairs_at ts"
  shows "pairs_at (filter_visible_for_llm ts)"
proof (cases "last_assistant ts")
  case None
  then show ?thesis using assms by (simp add: visible_split)
next
  case (Some li)
  have "pairs_at (drop (Suc li) ts)"
  proof (rule pairs_at_drop [OF assms])
    assume "Suc li < length ts"
    then have "case ts ! Suc li of TToolResult _ _ _ _ _ _ \<Rightarrow> answers (ts ! Suc li) (ts ! li) | _ \<Rightarrow> True"
      using assms by (auto simp: pairs_at_def split: turn.split dest: spec [of _ "Suc li"])
    then show "case ts ! Suc li of TToolResult _ _ _ _ _ _ \<Rightarrow> False | _ \<Rightarrow> True"
      using last_assistant_Some(2) [OF Some] by (auto dest: answers_shape split: turn.splits)
  qed
  then show ?thesis
    by (simp add: visible_split Some) (rule pairs_at_append, auto simp: list_all_iff)
qed

lemma prune_pairs:
  assumes "pairs_at ts"
  shows "pairs_at (prune_context_refs ts n)"
proof (cases "length ts \<le> n")
  case True
  then show ?thesis using assms by (simp add: prune_context_refs_def)
next
  case False
  let ?s = "length ts - n"
  show ?thesis
  proof (cases "?s < length ts \<and> answers (ts ! ?s) (ts ! (?s - 1))")
    case True
    then obtain i p c a t where "ts ! (?s - 1) = TToolCall i p c a t" using answers_shape by blast
    then have "pairs_at (drop (?s - 1) ts)" by (intro pairs_at_drop [OF assms]) simp
    then show ?thesis using False True by (simp add: prune_context_refs_def Let_def)
  next
    case no: False
    have "pairs_at (drop ?s ts)"
    proof (rule pairs_at_drop [OF assms])
      assume s: "?s < length ts"
      then have "case ts ! ?s of TToolResult _ _ _ _ _ _ \<Rightarrow> answers (ts ! ?s) (ts ! (?s - 1)) | _ \<Rightarrow> True"
        using assms by (auto simp: pairs_at_def split: turn.split dest: spec [of _ ?s])
      then show "case ts ! ?s of TToolResult _ _ _ _ _ _ \<Rightarrow> False | _ \<Rightarrow> True"
        using no s by (auto split: turn.splits)
    qed
    then show ?thesis using False no by (auto simp: prune_context_refs_def Let_def)
  qed
qed

section \<open>Properties\<close>

text \<open>
  C25 (the tables refine the state). While the tables hold a conversation, appending a turn in memory
  and persisting it keeps them so, and loading the conversation gives the appended state, with a
  dangling call repaired; the JSON text has to read back for the turns it holds.
\<close>

theorem appended_turn_reloads:
  assumes "stored ne cs db" "text_law ne (cs_turns cs @ [t])"
  shows "\<exists>db'. persist_last ne (push_turn t cs) db = (Inr (), db') \<and> stored ne (push_turn t cs) db'
    \<and> conv_load ne now (cs_id cs) (cs_client_id cs) db' = Inr (conv_validate now (push_turn t cs))"
proof -
  obtain db' where db': "persist_last ne (push_turn t cs) db = (Inr (), db')" "stored ne (push_turn t cs) db'"
    using persist_push [OF assms(1)] by blast
  moreover have "conv_load ne now (cs_id cs) (cs_client_id cs) db' = Inr (conv_validate now (push_turn t cs))"
    using load_stored [OF db'(2)] assms(2) by (simp add: push_turn_def)
  ultimately show ?thesis by blast
qed

definition toy_turn :: turn where
  "toy_turn = TUser ''hi'' [] 5"

definition toy_text_env :: "nat node_env" where
  "toy_text_env = toy_node_env\<lparr>json_from_str :=
     (\<lambda>s. if s = print_json (enc_turn toy_turn) then Some (enc_turn toy_turn) else None)\<rparr>"

definition toy_conv_db :: conv_db where
  "toy_conv_db = \<lparr>conversations = [\<lparr>cv_id = ''c'', cv_client_id = ''u'', cv_title = None,
     cv_created_at = 1, cv_updated_at = 1\<rparr>], turns = [], plan_runs = []\<rparr>"

lemma appended_turn_reloads_witness:
  "\<exists>db'. conv_load toy_text_env 9 ''c'' ''u'' db' = Inr (push_turn toy_turn (conv_new ''c'' ''u'' None 1))"
proof -
  have "stored toy_text_env (conv_new ''c'' ''u'' None 1) toy_conv_db"
    by (simp add: stored_def conv_new_def toy_conv_db_def conv_get_def select_by_def load_turns_def ledger_rows_def)
  moreover have "text_law toy_text_env (cs_turns (conv_new ''c'' ''u'' None 1) @ [toy_turn])"
    by (simp add: text_law_def toy_text_env_def toy_node_env_def wire_env.defs conv_new_def)
      (simp add: turn_ok_def toy_turn_def)
  ultimately obtain db' where "conv_load toy_text_env 9 ''c'' ''u'' db'
      = Inr (conv_validate 9 (push_turn toy_turn (conv_new ''c'' ''u'' None 1)))"
    using appended_turn_reloads [of toy_text_env "conv_new ''c'' ''u'' None 1" toy_conv_db toy_turn 9]
    by (auto simp: conv_new_def)
  then show ?thesis by (auto simp: conv_validate_def push_turn_def toy_turn_def)
qed

lemma persist_pairs_load:
  assumes "db_ok db" "conv_get conv db \<noteq> None" "distinct (map fst ps)"
    and "list_all (\<lambda>r. tr_seq r \<le> b) (load_turns conv db)"
  shows "load_turns conv (persist_pairs ne conv b at ps db)
    = load_turns conv db @ pair_rows ne conv b at (sort_key fst ps)"
proof -
  let ?f = "filter (\<lambda>r. tr_conversation_id r = conv)" and ?db = "persist_pairs ne conv b at ps db"
  have old: "tr_seq r \<le> b" if "r \<in> set (turns db)" "tr_conversation_id r = conv" for r
    using assms(4) that by (simp add: list_all_iff in_load_turns)
  then have all: "turns ?db = turns db @ pair_rows ne conv b at ps"
    by (intro persist_pairs_turns [OF assms(3,2)]) fastforce
  have srt: "sorted_wrt (<) (map fst (sort_key fst ps))"
    using assms(3) by (simp add: strict_sorted_iff distinct_map)
  note new = pair_rows_sorted [OF srt, where ne = ne and conv = conv and b = b and at = at]
  have perm: "mset (pair_rows ne conv b at ps) = mset (pair_rows ne conv b at (sort_key fst ps))"
  proof -
    have "mset (concat (map g xs)) = (\<Sum>x\<in>#mset xs. mset (g x))"
      for g :: "nat \<times> tool_pair \<Rightarrow> turn_record list" and xs
      by (induction xs) simp_all
    then show ?thesis by (simp add: pair_rows_def)
  qed
  then have "set (pair_rows ne conv b at ps) = set (pair_rows ne conv b at (sort_key fst ps))"
    by (metis set_mset_mset)
  then have "?f (pair_rows ne conv b at ps) = pair_rows ne conv b at ps"
    using new(2) by (auto simp: filter_id_conv)
  then have f: "?f (turns ?db) = ?f (turns db) @ pair_rows ne conv b at ps" by (simp add: all)
  have "inj_on turn_key (set (turns ?db))"
    using persist_pairs_ok [OF assms(1), of ne conv b at ps]
    by (simp add: db_ok_def unique_key_def distinct_map)
  then have "inj_on tr_seq (set (?f (turns ?db)))"
    by (intro inj_onI, elim inj_onD) (auto simp: turn_key_def)
  moreover have "mset (?f (turns ?db)) = mset (load_turns conv db @ pair_rows ne conv b at (sort_key fst ps))"
    by (simp add: f perm) (simp add: load_turns_def)
  moreover have "sorted (map tr_seq (load_turns conv db @ pair_rows ne conv b at (sort_key fst ps)))"
  proof -
    have "tr_seq x \<le> tr_seq y"
      if "x \<in> set (load_turns conv db)" "y \<in> set (pair_rows ne conv b at (sort_key fst ps))" for x y
      using that old [of x] new(2) [of y] by (simp add: in_load_turns)
    then show ?thesis using new(1) by (auto simp: sorted_append) (simp add: load_turns_def)
  qed
  ultimately show ?thesis unfolding load_turns_def [of conv ?db] by (metis sort_key_inj_key_eq)
qed

text \<open>
  (steps persist in any order). Whatever order the steps of a plan finish in, their pairs all
  land, and a reload gives the turns that were there followed by the pairs in plan order.
\<close>

theorem pairs_in_plan_order:
  assumes "db_ok db" "conv_get conv db \<noteq> None" "distinct (map fst ps)"
    and "list_all (\<lambda>r. tr_seq r \<le> b) (load_turns conv db)"
  shows "load_turns conv (persist_pairs ne conv b at ps db)
    = load_turns conv db @ pair_rows ne conv b at (sort_key fst ps)"
  using assms by (rule persist_pairs_load)

definition toy_pair :: "string \<Rightarrow> tool_pair" where
  "toy_pair i = \<lparr>tp_call_id = i, tp_peer = ''n3:ab'', tp_capability = ''echo'', tp_args = JNull,
     tp_result = Some (JInt 1), tp_error = None\<rparr>"

lemma pairs_in_plan_order_witness:
  "load_turns ''c'' (persist_pairs toy_text_env ''c'' 1 7 [(1, toy_pair ''b''), (0, toy_pair ''a'')] toy_conv_db)
    = pair_rows toy_text_env ''c'' 1 7 [(0, toy_pair ''a''), (1, toy_pair ''b'')]"
proof -
  have "db_ok toy_conv_db" "conv_get ''c'' toy_conv_db \<noteq> None" "load_turns ''c'' toy_conv_db = []"
    by (simp_all add: toy_conv_db_def db_ok_def unique_key_def conv_get_def select_by_def load_turns_def)
  then show ?thesis
    using pairs_in_plan_order [of toy_conv_db "''c''" "[(1, toy_pair ''b''), (0, toy_pair ''a'')]" 1 toy_text_env 7]
    by simp
qed

text \<open>
  (the context keeps calls and results together). If every result of a conversation follows its
  call, so it does in what the language model is shown: a suffix of the visible turns that never
  opens with an orphan result. It may be one turn longer than asked for.
\<close>

theorem context_keeps_pairs:
  assumes "pairs_at (cs_turns cs)" "v = filter_visible_for_llm (cs_turns cs)" "w = prune_context_refs v n"
  shows "to_chat_messages show n cs = map (turn_to_message show) w \<and> pairs_at w
    \<and> w = drop (length v - length w) v \<and> min n (length v) \<le> length w \<and> length w \<le> n + 1"
  using prune_pairs [OF visible_pairs [OF assms(1)]] assms(2,3)
  by (auto simp: to_chat_messages_def prune_context_refs_def Let_def)

lemma context_keeps_pairs_witness:
  "pairs_at (prune_context_refs (filter_visible_for_llm
      [toy_turn, TToolCall ''a'' ''p'' ''c'' JNull 1, TToolResult ''a'' ''p'' ''c'' None None 1]) 1)
   \<and> length (prune_context_refs (filter_visible_for_llm
      [toy_turn, TToolCall ''a'' ''p'' ''c'' JNull 1, TToolResult ''a'' ''p'' ''c'' None None 1]) 1) = 2"
proof
  let ?ts = "[toy_turn, TToolCall ''a'' ''p'' ''c'' JNull 1, TToolResult ''a'' ''p'' ''c'' None None 1]"
  have "pairs_at ?ts"
    by (auto simp: pairs_at_def toy_turn_def answers_def less_Suc_eq numeral_3_eq_3)
  then show "pairs_at (prune_context_refs (filter_visible_for_llm ?ts) 1)"
    using context_keeps_pairs [of "(conv_new ''c'' ''u'' None 1)\<lparr>cs_turns := ?ts\<rparr>", OF _ refl refl] by simp
  show "length (prune_context_refs (filter_visible_for_llm ?ts) 1) = 2" by code_simp
qed

end
