(* ===== verification/Planner_Compile.thy ===== *)
theory Planner_Compile
  imports Complex_Main Planner_Grammar Node_Conversation Node_Discovery
begin

text \<open>
  Compiling a plan: the prompt and the parser of \<open>crates/node/src/planner/plan_exec.rs\<close>, its
  corrective retry, the compilers of \<open>planner/compiler.rs\<close>, and \<open>planner/planner_cap.rs\<close>, which
  serves a compiler to peers. A compiler asks a model or a peer, whose answers may differ from one
  call to the next: it takes the index of the call, and \<open>resolve_plan\<close> returns the next index.
  Confidences are rationals in place of \<open>f32\<close>; they are only compared. In the texts of prompts
  a caret stands for a double quote, a percent sign for a line break, an ampersand, a bar and a
  tilde for the dash, the arrow and the ellipsis (\<open>prompt\<close> puts them back).
\<close>

section \<open>Text\<close>

definition prompt :: "string list \<Rightarrow> string" where
  "prompt ss = concat (map (\<lambda>c.
     if c = CHR 0x5E then [CHR 0x22]
     else if c = CHR 0x25 then [CHR 0x0A]
     else if c = CHR 0x26 then [CHR 0xE2, CHR 0x80, CHR 0x94]
     else if c = CHR 0x7C then [CHR 0xE2, CHR 0x86, CHR 0x92]
     else if c = CHR 0x7E then [CHR 0xE2, CHR 0x80, CHR 0xA6]
     else [c]) (concat ss))"

text \<open>\<open>str::rfind\<close>: the last occurrence.\<close>

fun rfind_str :: "string \<Rightarrow> string \<Rightarrow> nat option" where
  "rfind_str p [] = (if p = [] then Some 0 else None)"
| "rfind_str p (c # cs) =
     (case rfind_str p cs of
        Some n \<Rightarrow> Some (Suc n)
      | None \<Rightarrow> if starts_with p (c # cs) then Some 0 else None)"

section \<open>Plans as JSON\<close>

definition enc_step :: "plan_step \<Rightarrow> json" where
  "enc_step s = json_obj [(''id'', JStr (step_id s)), (''peer'', JStr (step_peer s)),
     (''capability'', JStr (step_capability s)), (''args'', step_args s),
     (''depends_on'', enc_list JStr (step_depends s))]"

definition dec_step :: "json \<Rightarrow> plan_step option" where
  "dec_step j = do {
     m \<leftarrow> struct_fields [''id'', ''peer'', ''capability'', ''args'', ''depends_on''] j;
     i \<leftarrow> field_req as_str m ''id'';
     p \<leftarrow> field_req as_str m ''peer'';
     c \<leftarrow> field_req as_str m ''capability'';
     a \<leftarrow> field_default Some JNull m ''args'';
     d \<leftarrow> field_default (dec_list as_str) [] m ''depends_on'';
     Some \<lparr>step_id = i, step_peer = p, step_capability = c, step_args = a, step_depends = d\<rparr> }"

definition enc_plan :: "plan \<Rightarrow> json" where
  "enc_plan p = json_obj [(''plan'', enc_list enc_step p)]"

definition dec_plan :: "json \<Rightarrow> plan option" where
  "dec_plan j = do {
     m \<leftarrow> struct_fields [''plan''] j;
     field_req (dec_list dec_step) m ''plan'' }"

section \<open>Reading the reply of a model\<close>

definition strip_md_fences :: "string \<Rightarrow> string" where
  "strip_md_fences raw =
     (let s = trim raw in
      if starts_with ''```'' s
      then (case find_char (CHR 0x0A) s of
              None \<Rightarrow> s
            | Some n \<Rightarrow>
                let body = drop (n + 1) s in
                (case rfind_str ''```'' body of
                   Some e \<Rightarrow> trim (take e body)
                 | None \<Rightarrow> trim body))
      else s)"

text \<open>The scanner over the bytes of an object: depth, inside a string, after a backslash.\<close>

fun scan_object :: "int \<Rightarrow> bool \<Rightarrow> bool \<Rightarrow> string \<Rightarrow> nat option" where
  "scan_object d str esc [] = None"
| "scan_object d str esc (c # cs) =
     (if str then
        map_option Suc (if esc then scan_object d True False cs
          else if c = CHR 0x5C then scan_object d True True cs
          else if c = CHR 0x22 then scan_object d False False cs
          else scan_object d True False cs)
      else if c = CHR 0x22 then map_option Suc (scan_object d True False cs)
      else if c = CHR 0x7B then map_option Suc (scan_object (d + 1) False False cs)
      else if c = CHR 0x7D then
        (if d - 1 = 0 then Some 0 else map_option Suc (scan_object (d - 1) False False cs))
      else map_option Suc (scan_object d False False cs))"

definition extract_first_json_object :: "string \<Rightarrow> string option" where
  "extract_first_json_object s =
     (case find_char (CHR 0x7B) s of
        None \<Rightarrow> None
      | Some start \<Rightarrow>
          map_option (\<lambda>n. take (n + 1) (drop start s)) (scan_object 0 False False (drop start s)))"

definition plan_from_str :: "(string \<Rightarrow> json option) \<Rightarrow> string \<Rightarrow> plan option" where
  "plan_from_str parse s = Option.bind (parse s) dec_plan"

definition parse_plan :: "(string \<Rightarrow> json option) \<Rightarrow> string \<Rightarrow> (string, plan) result" where
  "parse_plan parse raw =
     (if trim raw = [] then Inl ''empty plan response''
      else let cleaned = strip_md_fences (trim raw) in
        (case plan_from_str parse cleaned of
           Some p \<Rightarrow> Inr p
         | None \<Rightarrow>
             (case Option.bind (extract_first_json_object cleaned) (plan_from_str parse) of
                Some p \<Rightarrow> Inr p
              | None \<Rightarrow> Inl (''could not parse Plan from response: ''
                  @ concat (take 120 (chars cleaned))))))"

section \<open>The compile prompt\<close>

definition COMPILE_PROMPT :: string where
  "COMPILE_PROMPT = prompt [
     ''You are an n3ur0n plan compiler. Given a user request, produce ONE JSON plan that a '',
     ''deterministic executor will run. Output ONLY valid JSON conforming to this schema:%%{%'',
     ''^plan^: [%{%^id^:         ^<short alpha-numeric id, unique>^,%^peer^:       ^<the `peer:` '',
     ''value of the chosen skill & NOT the `##` header>^,%^capability^: ^<the `capability:` value '',
     ''of the chosen skill>^,%^args^:       { ...skill-specific args... },%^depends_on^: [ ^<other '',
     ''step ids>^, ... ]%},%...%]%}%%Structural rules (independent of which skills exist):%- '',
     ''Return ONLY the JSON; no prose, no Markdown fences.%- Reference results from earlier steps '',
     ''inside `args` with the exact syntax `${stepid.path.to.value}` & the dollar sign is '',
     ''required. Example:%{^id^: ^s1^, ^peer^: ^abc^, ^capability^: ^random_int^, ^args^: '',
     ''{^min^:1,^max^:10}}%{^id^: ^s2^, ^peer^: ^abc^, ^capability^: ^reverse^, ^args^: {^text^: '',
     ''^${s1.value}^}}%{^id^: ^s3^, ^peer^: ^xyz^, ^capability^: ^chat^,%^args^: {^prompt^: ^Write '',
     ''one rhyming line about ${s2.reversed}^}}%- A reference inside args creates an implicit '',
     ''dependency (omit from `depends_on`).%- NO arithmetic, conditionals, or function calls '',
     ''inside `${...}`. Only paths.%WRONG: `${s2.value + s1.year}`, `${len(s1.text)}`, `${s1.value '',
     ''* 2}`.%RIGHT: include the raw values as separate refs and let the downstream skill do the '',
     ''math. Example: `^prompt^: ^Year ${s1.year} plus ${s2.value} & describe a bicycle from that '',
     ''year.^`.%- Each `${...}` head must match a step id you defined earlier in the plan. Do NOT '',
     ''invent step ids.%- For chat-like skills, set only fields the schema declares; never set '',
     ''`model`.%- All `peer` values must come from the skills list verbatim.%- Pick the SHORTEST '',
     ''useful plan. If the user asks something you can answer from prior knowledge with no skill, '',
     ''return an empty plan: `{^plan^: []}`. The reflection step that runs after execution will '',
     ''compose the answer using your own knowledge.%- Decide this against the skills that are '',
     ''actually listed below, not against the kind of task it is. If a listed skill is DEDICATED '',
     ''to what the user asked (a translation skill for a translation, a summarising skill for a '',
     ''summary), use it & it is more accurate than answering from memory. A general-purpose chat '',
     ''or LLM skill is NOT dedicated to anything: never route to one for something you can answer '',
     ''yourself. If nothing listed is dedicated to the request and you can answer from your own '',
     ''knowledge & greetings, definitions, well-known facts, simple arithmetic, explaining code or '',
     ''text the user already gave you & return `{^plan^: []}`. Do not invent a chain of skills '',
     ''just because they are listed.%- BUT you must NEVER answer from memory when the request '',
     ''needs live or current data you cannot possibly know from training & above all the CURRENT '',
     ''TIME, the time ^now^, or today's DATE. You do not know the current time. If a skill '',
     ''provides it (e.g. a `time` skill), you MUST use it; do not fabricate a time. This applies '',
     ''even when the time is only an input to another step (e.g. ^show the current time reversed^ '',
     ''| get the time, then reverse it).%- A skill is RELEVANT only when its declared description '',
     ''and examples match the user's intent. When in doubt, prefer fewer steps. Skill-specific '',
     ''semantics live in the skill metadata below & read it.%- Do NOT add filler steps that only '',
     ''relay a previous result. The reflection step at the end already turns the blackboard into '',
     ''the user's reply.%%Available skills (each entry: name & description, schema, examples, '',
     ''disambiguation, anti-patterns):%%'']"

definition output_fields :: "json \<Rightarrow> string" where
  "output_fields sch =
     (case Option.bind (json_get ''properties'' sch) as_object of
        None \<Rightarrow> []
      | Some props \<Rightarrow>
          if props = [] then []
          else ''output_fields: '' @ join '', '' (map (\<lambda>(k, v). k @ '' ('' @
              (case Option.bind (json_get ''type'' v) as_str of Some ty \<Rightarrow> ty | None \<Rightarrow> ''any'') @ '')'') props)
            @ prompt [''   (reference as ${<step_id>.<field>})%''])"

definition render_skill_block :: "(json \<Rightarrow> string) \<Rightarrow> tool_def \<Rightarrow> string" where
  "render_skill_block show t =
     (let cap = td_cap t; full = tool_name t; nl = [CHR 0x0A];
          peer = (case split_once_str ''::'' full of Some (p, _) \<Rightarrow> p | None \<Rightarrow> full)
      in ''## '' @ cap_name cap @ nl
       @ ''peer: '' @ peer @ nl
       @ ''capability: '' @ cap_name cap @ nl
       @ ''description: '' @ description cap @ nl
       @ ''schema_in: '' @ show (schema_in cap) @ nl
       @ output_fields (schema_out cap)
       @ (if examples cap = [] then []
          else ''examples:'' @ nl @ concat (map (\<lambda>ex. prompt [''  - intent: ^''] @ user_intent ex
              @ prompt [''^ | args: ''] @ show (ex_args ex) @ nl) (take 2 (examples cap))))
       @ (case disambiguation cap of Some d \<Rightarrow> ''disambiguation: '' @ d @ nl | None \<Rightarrow> [])
       @ (if negative_examples cap = [] then []
          else ''do_NOT_use_for:'' @ nl @ concat (map (\<lambda>ex. prompt [''  - intent: ^''] @ ne_user_intent ex
              @ prompt [''^ & ''] @ why_not ex @ nl) (take 2 (negative_examples cap))))
       @ (case output_semantic cap of Some d \<Rightarrow> ''output_means: '' @ d @ nl | None \<Rightarrow> [])
       @ nl)"

definition default_compile_system_prompt :: "(json \<Rightarrow> string) \<Rightarrow> catalog \<Rightarrow> string" where
  "default_compile_system_prompt show cat =
     COMPILE_PROMPT @ (if cat = [] then prompt [''(none)%''] else concat (map (render_skill_block show) cat))"

section \<open>Compilers\<close>

record compiler =
  pc_compile :: "nat \<Rightarrow> string \<Rightarrow> catalog \<Rightarrow> (node_error, plan) result"
  pc_confidence :: "plan \<Rightarrow> catalog \<Rightarrow> rat"

definition default_confidence :: "plan \<Rightarrow> catalog \<Rightarrow> rat" where
  "default_confidence p cat =
     (if length p > MAX_PLAN_STEPS then 3 / 10 else if p = [] then 5 / 10 else 9 / 10)"

definition resp_content :: "json \<Rightarrow> string option" where
  "resp_content j = Option.bind (Option.bind (json_get ''message'' j) (json_get ''content'')) as_str"

definition llm_message :: "string \<Rightarrow> string \<Rightarrow> json" where
  "llm_message r c = json_obj [(''role'', JStr r), (''content'', JStr c)]"

definition compile_args :: "(json \<Rightarrow> string) \<Rightarrow> string option \<Rightarrow> string \<Rightarrow> string \<Rightarrow> catalog \<Rightarrow> json" where
  "compile_args show hint system msg cat =
     (let names = tool_names cat in
      json_obj ([(''messages'', JArr [llm_message ''system'' system, llm_message ''user'' msg]),
        (''grammar'', JStr (plan_grammar show names)),
        (''response_format'', plan_response_format names),
        (''format'', plan_json_schema names), (''temperature'', JFloat ''0.0'')]
        @ opt_entry ''model'' JStr hint))"

definition local_llm_compiler ::
  "('b, 'x) node_env_scheme \<Rightarrow> (nat \<Rightarrow> string \<Rightarrow> json \<Rightarrow> (adapter_error, json) result) \<Rightarrow> string option
     \<Rightarrow> (catalog \<Rightarrow> string) \<Rightarrow> compiler" where
  "local_llm_compiler ne llm hint system =
     \<lparr>pc_compile = (\<lambda>n msg cat.
        case llm n ''chat'' (compile_args (serde_text ne) hint (system cat) msg cat) of
          Inl e \<Rightarrow> Inl (Adapter e)
        | Inr resp \<Rightarrow>
            (case parse_plan (json_from_str ne) (case resp_content resp of Some c \<Rightarrow> c | None \<Rightarrow> []) of
               Inr p \<Rightarrow> Inr p
             | Inl _ \<Rightarrow> Inr [])),
      pc_confidence = default_confidence\<rparr>"

definition enc_tool :: "tool_def \<Rightarrow> json" where
  "enc_tool t = json_obj [(''peer_id'', JStr (td_peer_id t)),
     (''peer_endpoint'', case td_peer_endpoint t of Some e \<Rightarrow> JStr e | None \<Rightarrow> JNull),
     (''cap'', enc_decl (td_cap t))]"

definition remote_plan_args :: "string \<Rightarrow> catalog \<Rightarrow> json" where
  "remote_plan_args msg cat =
     json_obj [(''user_intent'', JStr msg), (''catalog'', enc_list enc_tool cat)]"

definition remote_plan_reply :: "(json \<Rightarrow> string) \<Rightarrow> json \<Rightarrow> (node_error, plan) result" where
  "remote_plan_reply fault body =
     (case (case Option.bind (json_get ''result'' body) (json_get ''plan'') of
              Some v \<Rightarrow> Some v | None \<Rightarrow> json_get ''plan'' body) of
        None \<Rightarrow> Inl (InvalidPayload ''remote planner reply missing `plan`'')
      | Some v \<Rightarrow>
          (case dec_plan (json_obj [(''plan'', v)]) of
             None \<Rightarrow> Inl (InvalidPayload (''remote plan parse: '' @ fault v))
           | Some p \<Rightarrow> Inr p))"

definition plan_is_valid :: "json_schema \<Rightarrow> plan \<Rightarrow> catalog \<Rightarrow> bool" where
  "plan_is_valid js p cat = (validate_plan js cat p = Some (Inr ()))"

definition remote_plan_compiler ::
  "('b, 'x) net_env_scheme \<Rightarrow> json_schema \<Rightarrow> keypair \<Rightarrow> string \<Rightarrow> string option \<Rightarrow> compiler" where
  "remote_plan_compiler ne js kp endpoint sender_ep =
     \<lparr>pc_compile = (\<lambda>n msg cat.
        case send_signed ne n kp endpoint Invoke
            (json_obj [(''capability'', JStr ''plan''), (''args'', remote_plan_args msg cat)]) sender_ep of
          Inl e \<Rightarrow> Inl (InvalidPayload (''remote plan invoke: '' @ client_error_text e))
        | Inr reply \<Rightarrow> remote_plan_reply (\<lambda>v. serde_fault ne (serde_text ne v)) (payload (sm_envelope reply))),
      pc_confidence = (\<lambda>p cat.
        if p \<noteq> [] \<and> plan_is_valid js p cat then min (default_confidence p cat + 1 / 10) 1
        else default_confidence p cat)\<rparr>"

definition cascading_compiler :: "compiler \<Rightarrow> compiler option \<Rightarrow> rat \<Rightarrow> compiler" where
  "cascading_compiler primary fallback threshold =
     \<lparr>pc_compile = (\<lambda>n msg cat.
        case pc_compile primary n msg cat of
          Inl e \<Rightarrow> Inl e
        | Inr p \<Rightarrow>
            if pc_confidence primary p cat \<ge> threshold then Inr p
            else (case fallback of
                    None \<Rightarrow> Inr p
                  | Some fb \<Rightarrow>
                      (case pc_compile fb n msg cat of
                         Inl _ \<Rightarrow> Inr p
                       | Inr q \<Rightarrow>
                           if pc_confidence fb q cat > pc_confidence primary p cat then Inr q else Inr p))),
      pc_confidence = pc_confidence primary\<rparr>"

section \<open>Validation and the corrective retry\<close>

fun plan_error_text :: "plan_error \<Rightarrow> string" where
  "plan_error_text (PlanParse s) = ''plan parse error: '' @ s"
| "plan_error_text (Validation s) = ''plan validation: '' @ s"
| "plan_error_text (Execution s) = ''plan execution: '' @ s"

datatype plan_outcome = EmptyPlan | ValidPlan plan | InvalidPlan string

definition COMPILE_RETRY_LIMIT :: nat where
  "COMPILE_RETRY_LIMIT = 1"

definition compile_retry_message :: "string \<Rightarrow> string \<Rightarrow> string" where
  "compile_retry_message msg err = msg @ prompt [
     ''%%[plan rejected] Your previous plan was rejected by the validator:%'']
     @ err @ prompt [
     ''%%First reconsider whether any skill is needed at all. A rejected plan is often a plan that '',
     ''should not exist: if this request can be answered from your own knowledge & translation, '',
     ''arithmetic, definitions, explaining code or text the user already provided & return '',
     ''{^plan^: []}. That is the correct answer, not a failure.%Only if a skill genuinely is '',
     ''required, emit a corrected plan: use the exact `peer:` and `capability:` values from the '',
     ''skills list above, and only argument fields the skill's schema declares.'']"

text \<open>The loop over the retries left. \<open>None\<close> is validation that does not return.\<close>

fun retry_plan ::
  "compiler \<Rightarrow> json_schema \<Rightarrow> string \<Rightarrow> catalog \<Rightarrow> nat \<Rightarrow> string \<Rightarrow> nat \<Rightarrow> (plan_outcome \<times> nat) option" where
  "retry_plan co js msg cat 0 err n = Some (InvalidPlan err, n)"
| "retry_plan co js msg cat (Suc k) err n =
     (case pc_compile co n (compile_retry_message msg err) cat of
        Inl e \<Rightarrow> Some (InvalidPlan err, Suc n)
      | Inr p \<Rightarrow>
          if p = [] then Some (EmptyPlan, Suc n)
          else (case validate_plan js cat p of
                  None \<Rightarrow> None
                | Some (Inr _) \<Rightarrow> Some (ValidPlan p, Suc n)
                | Some (Inl e) \<Rightarrow> retry_plan co js msg cat k (plan_error_text e) (Suc n)))"

definition resolve_plan ::
  "compiler \<Rightarrow> json_schema \<Rightarrow> string \<Rightarrow> catalog \<Rightarrow> plan \<Rightarrow> nat \<Rightarrow> (plan_outcome \<times> nat) option" where
  "resolve_plan co js msg cat p n =
     (if p = [] then Some (EmptyPlan, n)
      else (case validate_plan js cat p of
              None \<Rightarrow> None
            | Some (Inr _) \<Rightarrow> Some (ValidPlan p, n)
            | Some (Inl e) \<Rightarrow> retry_plan co js msg cat COMPILE_RETRY_LIMIT (plan_error_text e) n))"

section \<open>A compiler as a capability\<close>

definition parse_tool :: "(json \<Rightarrow> string) \<Rightarrow> json \<Rightarrow> (string, tool_def) result" where
  "parse_tool fault item =
     (case Option.bind (json_get ''peer_id'' item) as_str of
        None \<Rightarrow> Inl ''tool entry missing `peer_id`''
      | Some p \<Rightarrow>
          (case json_get ''cap'' item of
             None \<Rightarrow> Inl ''tool entry missing `cap`''
           | Some c \<Rightarrow>
               (case dec_decl c of
                  None \<Rightarrow> Inl (''invalid `cap`: '' @ fault c)
                | Some d \<Rightarrow> Inr \<lparr>td_peer_id = p,
                    td_peer_endpoint = Option.bind (json_get ''peer_endpoint'' item) as_str, td_cap = d\<rparr>)))"

definition parse_catalog :: "(json \<Rightarrow> string) \<Rightarrow> json option \<Rightarrow> (string, catalog) result" where
  "parse_catalog fault v =
     (case v of
        None \<Rightarrow> Inr []
      | Some j \<Rightarrow>
          (case as_array j of
             None \<Rightarrow> Inl ''`catalog` must be an array''
           | Some arr \<Rightarrow> map_result (parse_tool fault) arr))"

definition plan_cap_schema_in :: json where
  "plan_cap_schema_in = json_obj
     [(''type'', JStr ''object''), (''required'', JArr [JStr ''user_intent'']),
      (''properties'', json_obj
        [(''user_intent'', json_obj [(''type'', JStr ''string'')]),
         (''catalog'', json_obj
           [(''type'', JStr ''array''),
            (''items'', json_obj
              [(''type'', JStr ''object''), (''required'', JArr [JStr ''peer_id'', JStr ''cap'']),
               (''properties'', json_obj
                 [(''peer_id'', json_obj [(''type'', JStr ''string'')]),
                  (''peer_endpoint'', json_obj [(''type'', JArr [JStr ''string'', JStr ''null''])]),
                  (''cap'', json_obj [(''type'', JStr ''object'')])])])])])]"

definition plan_cap_schema_out :: json where
  "plan_cap_schema_out = json_obj
     [(''type'', JStr ''object''), (''required'', JArr [JStr ''plan'']),
      (''properties'', json_obj
        [(''plan'', json_obj
          [(''type'', JStr ''array''), (''items'', json_obj [(''type'', JStr ''object'')])])])]"

definition random_int_tool :: json where
  "random_int_tool = json_obj
     [(''peer_id'', JStr ''n3:abc''), (''peer_endpoint'', JStr ''http://x''),
      (''cap'', json_obj
        [(''name'', JStr ''random_int''), (''description'', JStr ''random int''),
         (''schema_in'', JObj []), (''schema_out'', JObj []), (''mode'', JStr ''free''),
         (''tags'', JArr []), (''lobe_ids'', JArr []),
         (''examples'', JArr [json_obj [(''user_intent'', JStr ''pick''), (''args'', JObj []),
            (''expected_output'', JObj [])]])])]"

definition planner_cap_decl :: capability_decl where
  "planner_cap_decl =
     \<lparr>cap_name = ''plan'',
      description = ''Compile a typed Plan from a user intent and a serialised ''
        @ ''catalog of tools. Used by peers that delegate planning to a node with a stronger model.'',
      schema_in = plan_cap_schema_in, schema_out = plan_cap_schema_out, mode = Free, pricing = None,
      tags = [''planner'', ''meta''], lobe_ids = [],
      examples =
        [\<lparr>user_intent = ''delegate a translation task'',
          ex_args = json_obj
            [(''user_intent'', JStr (''Translate '' @ [CHR 0x27] @ ''hello'' @ [CHR 0x27] @ '' to French.'')),
             (''catalog'', JArr [])],
          expected_output = json_obj [(''plan'', JArr [])]\<rparr>,
         \<lparr>user_intent = ''delegate a multi-step utility chain'',
          ex_args = json_obj
            [(''user_intent'', JStr ''Generate a random integer and reverse its digits.''),
             (''catalog'', JArr [random_int_tool])],
          expected_output = json_obj [(''plan'', JArr [json_obj
            [(''id'', JStr ''s1''), (''peer'', JStr ''abc''), (''capability'', JStr ''random_int''),
             (''args'', JObj [])]])]\<rparr>],
      disambiguation = Some (prompt [
        ''Meta-cap: produces a plan others execute. Not for direct user-facing '',
        ''content generation & pair with a `chat` cap on the caller side for replies.'']),
      negative_examples =
        [\<lparr>ne_user_intent = ''answer a question directly'',
          why_not = ''plan emits a plan, not a reply; use a chat cap for direct answers.''\<rparr>],
      output_semantic = Some ''Typed Plan ready for a deterministic executor.'',
      version = ''0.1.0'', languages = [], countries = []\<rparr>"

text \<open>
  The published example is one the capability itself can read: its catalog parses, and the plan
  it shows is a plan.
\<close>

lemma planner_cap_examples_parse:
  "map_sum id (map (\<lambda>t. (td_peer_id t, cap_name (td_cap t))))
     (parse_catalog fault (json_get ''catalog'' (ex_args (examples planner_cap_decl ! 1))))
     = Inr [(''n3:abc'', ''random_int'')]"
  "map_option (map step_tool) (dec_plan (expected_output (examples planner_cap_decl ! 1)))
     = Some [''abc::random_int'']"
  by (code_simp, code_simp)

definition planner_cap_invoke ::
  "(json \<Rightarrow> string) \<Rightarrow> compiler \<Rightarrow> nat \<Rightarrow> string \<Rightarrow> json \<Rightarrow> (adapter_error, json) result" where
  "planner_cap_invoke fault co n cap args =
     (if cap \<noteq> ''plan'' then Inl (AdUnknownCapability cap)
      else (case Option.bind (json_get ''user_intent'' args) as_str of
              None \<Rightarrow> Inl (Backend ''missing `user_intent` (string)'')
            | Some msg \<Rightarrow>
                (case parse_catalog fault (json_get ''catalog'' args) of
                   Inl e \<Rightarrow> Inl (Backend (''invalid catalog: '' @ e))
                 | Inr cat \<Rightarrow>
                     (case pc_compile co n msg cat of
                        Inl e \<Rightarrow> Inl (Backend (''compile: '' @ node_error_text e))
                      | Inr p \<Rightarrow> Inr (enc_plan p)))))"

section \<open>Codecs\<close>

lemma step_codec [simp]: "dec_step (enc_step s) = Some s"
  by (simp add: dec_step_def enc_step_def field_defs)

lemma plan_codec [simp]: "dec_plan (enc_plan p) = Some p"
  by (simp add: dec_plan_def enc_plan_def field_defs)

lemma parse_enc_tool: "parse_tool fault (enc_tool t) = Inr t"
  by (simp add: parse_tool_def enc_tool_def split: option.split)

lemma parse_enc_catalog: "parse_catalog fault (Some (enc_list enc_tool cat)) = Inr cat"
  by (simp add: parse_catalog_def enc_list_def map_result_Inr list_all2_conv_all_nth parse_enc_tool)

section \<open>Scanning printed JSON\<close>

text \<open>Bytes the scanner passes over, outside and inside a string.\<close>

definition neutral :: "char \<Rightarrow> bool" where
  "neutral c \<longleftrightarrow> c \<noteq> CHR 0x22 \<and> c \<noteq> CHR 0x5C \<and> c \<noteq> CHR 0x7B \<and> c \<noteq> CHR 0x7D"

definition quotable :: "string \<Rightarrow> bool" where
  "quotable s \<longleftrightarrow> CHR 0x22 \<notin> set s \<and> CHR 0x5C \<notin> set s"

text \<open>JSON whose compact text needs no escapes.\<close>

fun plain_json :: "json \<Rightarrow> bool" where
  "plain_json JNull = True"
| "plain_json (JBool _) = True"
| "plain_json (JInt _) = True"
| "plain_json (JFloat s) = list_all neutral s"
| "plain_json (JStr s) = quotable s"
| "plain_json (JArr xs) = list_all plain_json xs"
| "plain_json (JObj es) = list_all (\<lambda>e. quotable (fst e) \<and> plain_json (snd e)) es"

definition shift :: "nat \<Rightarrow> nat option \<Rightarrow> nat option" where
  "shift n = map_option ((+) n)"

lemma shift_simps [simp]:
  "map_option Suc x = shift 1 x" "shift m (shift n x) = shift (m + n) x" "shift 0 x = x"
  "shift n (Some k) = Some (n + k)"
  by (cases x; simp add: shift_def)+

text \<open>\<open>v\<close> takes the scanner from a depth back to the same depth.\<close>

definition passes :: "string \<Rightarrow> bool" where
  "passes v \<longleftrightarrow> (\<forall>d r. 1 \<le> d \<longrightarrow>
     scan_object d False False (v @ r) = shift (length v) (scan_object d False False r))"

lemma passesI:
  "(\<And>d r. 1 \<le> d \<Longrightarrow> scan_object d False False (v @ r) = shift (length v) (scan_object d False False r))
    \<Longrightarrow> passes v"
  by (simp add: passes_def)

lemma passes_append: "passes v \<Longrightarrow> passes w \<Longrightarrow> passes (v @ w)"
  by (simp add: passes_def)

lemma passes_Nil [simp]: "passes []"
  by (rule passesI) simp

lemma passes_neutral: "list_all neutral v \<Longrightarrow> passes v"
proof (induction v)
  case (Cons c v)
  then have "passes v" "neutral c" by simp_all
  then show ?case
    by (intro passesI) (auto simp: passes_def neutral_def)
qed simp

lemma scan_string:
  "quotable s \<Longrightarrow> scan_object d True False (s @ CHR 0x22 # r)
     = shift (Suc (length s)) (scan_object d False False r)"
  by (induction s) (auto simp: quotable_def)

lemma passes_quoted: "quotable s \<Longrightarrow> passes ([CHR 0x22] @ s @ [CHR 0x22])"
  by (rule passesI) (simp add: scan_string)

lemma passes_join:
  "list_all passes vs \<Longrightarrow> passes (join '','' vs)"
proof (induction vs rule: induct_list012)
  case (3 v w vs)
  have "passes '',''" by (intro passes_neutral) (simp add: neutral_def)
  then have "passes (v @ '','' @ join '','' (w # vs))" using 3 by (intro passes_append) simp_all
  then show ?case by simp
qed simp_all

lemma scan_close:
  assumes "1 \<le> d" "passes v"
  shows "scan_object d False False (v @ CHR 0x7D # r)
    = (if d = 1 then Some (length v) else shift (Suc (length v)) (scan_object (d - 1) False False r))"
  using assms by (auto simp: passes_def)

lemma passes_braced:
  assumes "passes v"
  shows "passes (''{'' @ v @ ''}'')"
proof (rule passesI)
  fix d :: int and r assume "1 \<le> d"
  then have "scan_object (d + 1) False False (v @ CHR 0x7D # r)
      = shift (Suc (length v)) (scan_object d False False r)"
    using scan_close [OF _ assms, of "d + 1" r] by simp
  then show "scan_object d False False ((''{'' @ v @ ''}'') @ r)
      = shift (length (''{'' @ v @ ''}'')) (scan_object d False False r)"
    by simp
qed

lemma dec_neutral: "list_all neutral (dec n)"
proof (induction n rule: dec.induct)
  case (1 n)
  have digit: "neutral (char_of (48 + m))" if "m < 10" for m :: nat
  proof -
    have "m \<in> {0, 1, 2, 3, 4, 5, 6, 7, 8, 9}" using that by auto
    then show ?thesis by (elim insertE) (simp_all add: neutral_def char_of_def)
  qed
  show ?case using 1 digit [of n] digit [of "n mod 10"] by (subst dec.simps) simp
qed

definition print_entry :: "string \<times> json \<Rightarrow> string" where
  "print_entry e = [CHR 0x22] @ fst e @ [CHR 0x22] @ '':'' @ print_json (snd e)"

lemma passes_entry:
  assumes "quotable (fst e)" "passes (print_json (snd e))"
  shows "passes (print_entry e)"
proof -
  have "passes '':''" by (intro passes_neutral) (simp add: neutral_def)
  then have "passes (([CHR 0x22] @ fst e @ [CHR 0x22]) @ '':'' @ print_json (snd e))"
    using assms by (intro passes_append passes_quoted)
  then show ?thesis by (simp add: print_entry_def)
qed

lemma print_obj: "print_json (JObj es) = ''{'' @ join '','' (map print_entry es) @ ''}''"
  by (simp add: print_entry_def [abs_def])

lemma passes_printed: "plain_json j \<Longrightarrow> passes (print_json j)"
proof (induction j rule: print_json.induct)
  case (7 es)
  have "passes (print_entry e)" if "e \<in> set es" for e
    using "7.IH" [OF that] "7.prems" that by (intro passes_entry) (auto simp: list_all_iff)
  then have "passes (join '','' (map print_entry es))" by (intro passes_join) (auto simp: list_all_iff)
  then show ?case unfolding print_obj by (rule passes_braced)
next
  case (6 xs)
  have "passes ''[''" "passes '']''" by (simp_all add: passes_neutral neutral_def)
  moreover have "passes (join '','' (map print_json xs))"
    using 6 by (intro passes_join) (auto simp: list_all_iff)
  ultimately show ?case unfolding print_json.simps by (intro passes_append)
next
  case (5 s)
  then show ?case using passes_quoted by simp
next
  case (3 i)
  show ?case
    using dec_neutral by (auto intro!: passes_neutral simp: dec_int_def neutral_def)
qed (auto intro!: passes_neutral simp: neutral_def)

lemma extract_printed:
  assumes "plain_json (JObj es)" "CHR 0x7B \<notin> set pre"
  shows "extract_first_json_object (pre @ print_json (JObj es) @ post) = Some (print_json (JObj es))"
proof -
  let ?v = "join '','' (map print_entry es)"
  have "passes (print_entry e)" if "e \<in> set es" for e
    using assms(1) that by (intro passes_entry passes_printed) (auto simp: list_all_iff)
  then have "passes ?v" by (intro passes_join) (auto simp: list_all_iff)
  then have scan: "scan_object 0 False False (CHR 0x7B # ?v @ CHR 0x7D # post) = Some (Suc (length ?v))"
    using scan_close [of 1 ?v post] by simp
  have "pre @ print_json (JObj es) @ post = pre @ CHR 0x7B # ?v @ CHR 0x7D # post"
    unfolding print_obj by simp
  moreover have "find_char (CHR 0x7B) (pre @ CHR 0x7B # ?v @ CHR 0x7D # post) = Some (length pre)"
    using assms(2) by (rule find_char_append)
  ultimately show ?thesis
    using scan unfolding print_obj by (simp add: extract_first_json_object_def)
qed

section \<open>Properties\<close>

text \<open>
  (a plan is found in prose). When a model surrounds the plan with text, and the whole is not
  JSON, the plan is read from the first object of the text, for every plan whose names and
  arguments need no JSON escapes.
\<close>

theorem plan_found_in_prose:
  assumes "plain_json (enc_plan p)" "CHR 0x7B \<notin> set pre"
    and "s = pre @ print_json (enc_plan p) @ post" "trim s = s" "\<not> starts_with ''```'' s"
    and "parse s = None" "parse (print_json (enc_plan p)) = Some (enc_plan p)"
  shows "parse_plan parse s = Inr p"
proof -
  obtain es where es: "enc_plan p = JObj es" by (simp add: enc_plan_def json_obj_def)
  have "s \<noteq> []" using assms(3) by (simp add: es)
  moreover have "strip_md_fences s = s" using assms(4,5) by (simp add: strip_md_fences_def Let_def)
  moreover have "extract_first_json_object s = Some (print_json (enc_plan p))"
    unfolding assms(3) using extract_printed [of es pre post] assms(1,2) es by simp
  ultimately show ?thesis
    using assms(4,6,7) by (simp add: parse_plan_def plan_from_str_def Let_def)
qed

lemma plan_found_in_prose_witness:
  "parse_plan (\<lambda>s. if s = print_json (enc_plan [toy_step ''s1'' ''x'']) then Some (enc_plan [toy_step ''s1'' ''x'']) else None)
     (''Sure: '' @ print_json (enc_plan [toy_step ''s1'' ''x'']) @ '' ok'') = Inr [toy_step ''s1'' ''x'']"
proof (rule plan_found_in_prose [of _ "''Sure: ''" _ "'' ok''"])
  show "trim (''Sure: '' @ print_json (enc_plan [toy_step ''s1'' ''x'']) @ '' ok'')
      = ''Sure: '' @ print_json (enc_plan [toy_step ''s1'' ''x'']) @ '' ok''" by code_simp
  show "plain_json (enc_plan [toy_step ''s1'' ''x''])" by code_simp
qed (simp_all add: starts_with_def)

text \<open>
  (delegation changes nothing). A peer that serves the \<open>plan\<close> capability answers a delegated
  request with what its compiler makes of the caller's own text and catalog, and the caller reads
  that very plan from the reply, whether or not the reply wraps it in \<open>result\<close>.
\<close>

theorem delegated_plan_unchanged:
  "planner_cap_invoke fault co n ''plan'' (remote_plan_args msg cat)
     = (case pc_compile co n msg cat of
          Inl e \<Rightarrow> Inl (Backend (''compile: '' @ node_error_text e)) | Inr p \<Rightarrow> Inr (enc_plan p))
   \<and> remote_plan_reply fault (enc_plan p) = Inr p
   \<and> remote_plan_reply fault (json_obj [(''result'', enc_plan p)]) = Inr p"
proof -
  have "json_get ''plan'' (enc_plan p) = Some (enc_list enc_step p)" by (simp add: enc_plan_def)
  moreover have "json_get ''result'' (enc_plan p) = None" by (simp add: enc_plan_def)
  moreover have "dec_plan (json_obj [(''plan'', enc_list enc_step p)]) = Some p"
    using plan_codec [of p] by (simp add: enc_plan_def)
  ultimately show ?thesis
    using parse_enc_catalog [of fault cat]
    by (simp add: planner_cap_invoke_def remote_plan_args_def remote_plan_reply_def)
qed

text \<open>
  (a plan is valid or there is none). Resolving a compiled plan always returns. A plan it calls
  valid passes validation and is the compiled one or the answer to the one corrective message; the
  compiler is asked at most once more, and never for an empty or a valid plan.
\<close>

theorem resolve_plan_sound:
  "\<exists>out n'. resolve_plan co js msg cat p n = Some (out, n') \<and> n' \<in> {n, Suc n}
    \<and> (p = [] \<longrightarrow> out = EmptyPlan \<and> n' = n)
    \<and> (p \<noteq> [] \<and> validate_plan js cat p = Some (Inr ()) \<longrightarrow> out = ValidPlan p \<and> n' = n)
    \<and> (\<forall>q. out = ValidPlan q \<longrightarrow> validate_plan js cat q = Some (Inr ())
        \<and> (q = p \<or> (\<exists>e. pc_compile co n (compile_retry_message msg e) cat = Inr q)))"
proof (cases "p = []")
  case False
  note ne = this
  obtain r where r: "validate_plan js cat p = Some r" using validate_plan_total [of js cat p] by blast
  show ?thesis
  proof (cases r)
    case (Inr u)
    then show ?thesis using ne r by (simp add: resolve_plan_def)
  next
    case (Inl e)
    let ?m = "compile_retry_message msg (plan_error_text e)"
    have start: "resolve_plan co js msg cat p n = retry_plan co js msg cat 1 (plan_error_text e) n"
      using ne r Inl by (simp add: resolve_plan_def COMPILE_RETRY_LIMIT_def)
    show ?thesis
    proof (cases "pc_compile co n ?m cat")
      case (Inl x)
      then show ?thesis using start ne r \<open>r = Inl e\<close> by simp
    next
      case (Inr q)
      obtain r' where "validate_plan js cat q = Some r'" using validate_plan_total [of js cat q] by blast
      then show ?thesis using start ne r \<open>r = Inl e\<close> Inr by (cases r') auto
    qed
  qed
qed (simp add: resolve_plan_def)

lemma resolve_plan_sound_witness:
  "resolve_plan \<lparr>pc_compile = (\<lambda>_ _ _. Inr []), pc_confidence = default_confidence\<rparr> (\<lambda>_. Inl []) ''hi''
     [] [] 1 = Some (EmptyPlan, 1)"
  using resolve_plan_sound [of "\<lparr>pc_compile = (\<lambda>_ _ _. Inr []), pc_confidence = default_confidence\<rparr>"
      "\<lambda>_. Inl []" "''hi''" "[]" "[]" 1] by auto

text \<open>
  (the cascade keeps the better plan). Once the primary compiler answers, the cascade answers
  too, with the primary's plan or the fallback's, never one its author rates below the primary's;
  the fallback is not asked when the primary reaches the threshold.
\<close>

theorem cascade_keeps_the_better:
  assumes "pc_compile primary n msg cat = Inr p"
  shows "\<exists>r. pc_compile (cascading_compiler primary fallback th) n msg cat = Inr r
    \<and> (r = p \<or> (\<exists>fb. fallback = Some fb \<and> pc_compile fb n msg cat = Inr r
         \<and> pc_confidence primary p cat < pc_confidence fb r cat \<and> pc_confidence primary p cat < th))
    \<and> (th \<le> pc_confidence primary p cat \<longrightarrow> r = p)"
  using assms by (auto simp: cascading_compiler_def split: option.split sum.split)

lemma cascade_keeps_the_better_witness:
  "pc_compile (cascading_compiler \<lparr>pc_compile = (\<lambda>_ _ _. Inr []), pc_confidence = default_confidence\<rparr> None (9 / 10))
     0 ''hi'' [] = Inr []"
  using cascade_keeps_the_better [of "\<lparr>pc_compile = (\<lambda>_ _ _. Inr []), pc_confidence = default_confidence\<rparr>" 0 "''hi''" "[]" "[]" None "9 / 10"]
  by auto

end
