(* ===== verification/Planner_Exec.thy ===== *)
theory Planner_Exec
  imports Planner_Plan Error_Text
begin

text \<open>
  \<open>crates/node/src/planner/plan.rs\<close>, \<open>execute_plan_streaming\<close>: the executor as a state machine.
  A spawned step is a future in flight; the scheduler may let a waiting one take a permit, a
  running one end (with whatever the world answers) and the main loop consume a completed one,
  in any order. The invocation of a step, its reads and writes of the blob index included, is
  one transition. The event channel and the persistence hook are logs.
\<close>

section \<open>State\<close>

definition MAX_CONCURRENT_STEPS :: nat where
  "MAX_CONCURRENT_STEPS = 4"

record trace_entry =
  te_call_id :: string
  te_peer_id :: string
  te_capability :: string
  te_args :: json
  te_result :: "json option"
  te_error :: "string option"

datatype dispatch_event = StepStart string | StepDone string json "json option" "string option"

record job =
  jb_tool :: tool_def
  jb_args :: json

datatype flight = Waiting job | Running job | Completed "(string, json) result"

record exec_env =
  ee_plan :: plan
  ee_catalog :: catalog
  ee_schema :: json_schema
  ee_show :: "json \<Rightarrow> string"
  ee_uuid :: "nat \<Rightarrow> string"
  ee_owner :: blob_owner
  ee_labels :: label_env

text \<open>What the world answers when a step ends: the peer, its reply, and the clock.\<close>

record completion =
  cp_remote :: remote
  cp_send :: "json \<Rightarrow> (string, json) result"
  cp_now :: time
  cp_elapsed_ms :: int

record exec_state =
  ex_blackboard :: blackboard
  ex_trace :: "string \<rightharpoonup> trace_entry"
  ex_last :: "string option"
  ex_indeg :: "string \<rightharpoonup> nat"
  ex_flight :: "(string \<times> flight) list"
  ex_calls :: nat
  ex_events :: "dispatch_event list"
  ex_hooks :: "(nat \<times> trace_entry) list"
  ex_audit :: audit_log
  ex_blobs :: blob_world

section \<open>Spawning\<close>

definition unresolved_error :: "string \<Rightarrow> string \<Rightarrow> string" where
  "unresolved_error i u = ''step `'' @ i @ ''`: unresolved template `'' @ u
     @ ''` (no expressions allowed in ${...}; use raw refs only, let the downstream tool combine values)''"

definition put_step ::
  "exec_env \<Rightarrow> plan_step \<Rightarrow> string \<Rightarrow> json \<Rightarrow> string option \<Rightarrow> flight \<Rightarrow> exec_state \<Rightarrow> exec_state" where
  "put_step ee s peer args err f st = st
     \<lparr>ex_trace := (ex_trace st)(step_id s \<mapsto>
        \<lparr>te_call_id = ''call_'' @ ee_uuid ee (ex_calls st), te_peer_id = peer,
         te_capability = step_capability s, te_args = args, te_result = None, te_error = err\<rparr>),
      ex_flight := ex_flight st @ [(step_id s, f)], ex_calls := ex_calls st + 1\<rparr>"

definition spawn_step :: "exec_env \<Rightarrow> string \<Rightarrow> exec_state \<Rightarrow> exec_state" where
  "spawn_step ee i st =
     (case steps_by_id (ee_plan ee) i of
        None \<Rightarrow> st
      | Some s \<Rightarrow>
          let args = resolve_value (ee_show ee) (ex_blackboard st) (step_args s);
              fail = (\<lambda>peer e. put_step ee s peer args (Some e) (Completed (Inl e)) st)
          in (case first_unresolved_template args of
                Some u \<Rightarrow> fail (step_peer s) (unresolved_error (step_id s) u)
              | None \<Rightarrow>
                  (case catalog_find (step_tool s) (ee_catalog ee) of
                     None \<Rightarrow> fail (step_peer s) (''tool `'' @ step_tool s @ ''` not in catalog'')
                   | Some t \<Rightarrow>
                       (case validate_args_against_schema (ee_schema ee) args (schema_in (td_cap t)) of
                          Inl e \<Rightarrow> fail (td_peer_id t) (''step `'' @ step_id s
                            @ ''`: resolved args do not conform to `'' @ step_tool s @ ''` schema_in: '' @ e)
                        | Inr _ \<Rightarrow> put_step ee s (td_peer_id t) args None
                            (Waiting \<lparr>jb_tool = t, jb_args = args\<rparr>) st))))"

section \<open>Running a step\<close>

definition run_local :: "('b, 'x) node_env_scheme \<Rightarrow> 'b node \<Rightarrow> job \<Rightarrow> (string, json) result" where
  "run_local ne nd j =
     (case binding_for (cap_name (td_cap (jb_tool j))) (nd_registry nd) of
        Some b \<Rightarrow> (case binding_invoke ne b (jb_args j) of Inl e \<Rightarrow> Inl (node_error_text e) | Inr v \<Rightarrow> Inr v)
      | None \<Rightarrow> (case backend_invoke ne (cap_name (td_cap (jb_tool j))) (jb_args j) of
          Inl e \<Rightarrow> Inl (adapter_error_text e) | Inr v \<Rightarrow> Inr v))"

text \<open>The flag tells whether the journal is reached: a failed preparation returns before it.\<close>

definition run_remote ::
  "('b, 'x) node_env_scheme \<Rightarrow> 'b node \<Rightarrow> exec_env \<Rightarrow> completion \<Rightarrow> job \<Rightarrow> blob_world
     \<Rightarrow> (string, json) result \<times> bool \<times> blob_world" where
  "run_remote ne nd ee c j w =
     (let cap = cap_name (td_cap (jb_tool j)); now = unix_timestamp (cp_now c) in
      case prepare_invoke_args ne (nd_blobs nd) (cp_remote c) now (jb_args j) w of
        (Inl e, w1) \<Rightarrow> (Inl e, False, w1)
      | (Inr args, w1) \<Rightarrow>
          (case cp_send c (json_obj [(''capability'', JStr cap), (''args'', args)]) of
             Inl e \<Rightarrow> (Inl e, True, w1)
           | Inr reply \<Rightarrow>
               (case fetch_output_blobs ne (nd_blobs nd) (ee_labels ee) (cp_remote c) now cap (ee_owner ee)
                       (case json_get ''result'' reply of Some r \<Rightarrow> r | None \<Rightarrow> reply) w1 of
                  (r, w2) \<Rightarrow> (r, True, w2))))"

definition run_job ::
  "('b, 'x) node_env_scheme \<Rightarrow> 'b node \<Rightarrow> exec_env \<Rightarrow> completion \<Rightarrow> job \<Rightarrow> blob_world
     \<Rightarrow> (string, json) result \<times> bool \<times> blob_world" where
  "run_job ne nd ee c j w =
     (if td_peer_endpoint (jb_tool j) = None then (run_local ne nd j, True, w)
      else run_remote ne nd ee c j w)"

definition step_audit :: "completion \<Rightarrow> job \<Rightarrow> (string, json) result \<Rightarrow> audit_entry" where
  "step_audit c j r =
     \<lparr>ae_timestamp = unix_timestamp (cp_now c),
      ae_direction = (if td_peer_endpoint (jb_tool j) \<noteq> None then DirOut else DirLocal),
      ae_peer_id = td_peer_id (jb_tool j), ae_capability = Some (cap_name (td_cap (jb_tool j))),
      ae_status = (case r of Inr _ \<Rightarrow> ''ok'' | Inl _ \<Rightarrow> ''call_failed''),
      ae_latency_ms = (if cp_elapsed_ms c < 2 ^ 63 then Some (cp_elapsed_ms c) else None)\<rparr>"

section \<open>The main loop\<close>

definition set_flight :: "string \<Rightarrow> flight \<Rightarrow> (string \<times> flight) list \<Rightarrow> (string \<times> flight) list" where
  "set_flight i f = map (\<lambda>p. if fst p = i then (i, f) else p)"

definition drop_flight :: "string \<Rightarrow> (string \<times> flight) list \<Rightarrow> (string \<times> flight) list" where
  "drop_flight i = filter (\<lambda>p. fst p \<noteq> i)"

fun is_running :: "flight \<Rightarrow> bool" where
  "is_running (Running _) = True"
| "is_running _ = False"

definition running_count :: "(string \<times> flight) list \<Rightarrow> nat" where
  "running_count fl = length (filter (\<lambda>p. is_running (snd p)) fl)"

definition complete_step :: "exec_env \<Rightarrow> string \<Rightarrow> (string, json) result \<Rightarrow> exec_state \<Rightarrow> exec_state" where
  "complete_step ee i r st =
     (let value = (case r of Inr v \<Rightarrow> v | Inl e \<Rightarrow> json_obj [(''error'', JStr e)]);
          ok = (case r of Inr v \<Rightarrow> Some v | Inl _ \<Rightarrow> None);
          err = (case r of Inr _ \<Rightarrow> None | Inl e \<Rightarrow> Some e);
          entry = map_option (\<lambda>t. case r of Inr v \<Rightarrow> t\<lparr>te_result := Some v\<rparr> | Inl e \<Rightarrow> t\<lparr>te_error := Some e\<rparr>)
                    (ex_trace st i);
          args = (case ex_trace st i of None \<Rightarrow> JObj [] | Some t \<Rightarrow> te_args t)
      in st\<lparr>ex_blackboard := (ex_blackboard st)(i \<mapsto> value), ex_trace := (ex_trace st)(i := entry),
            ex_events := ex_events st @ [StepDone i args ok err],
            ex_last := (if ok \<noteq> None then Some i else ex_last st),
            ex_hooks := (case entry of
              Some t \<Rightarrow> if i \<in> step_id ` set (ee_plan ee) then ex_hooks st @ [(plan_index (ee_plan ee) i, t)]
                else ex_hooks st
            | None \<Rightarrow> ex_hooks st)\<rparr>)"

definition free_dependents :: "exec_env \<Rightarrow> string \<Rightarrow> exec_state \<Rightarrow> exec_state" where
  "free_dependents ee i st =
     (case release_all (plan_outs (ee_plan ee) i) (ex_indeg st) of
        (indeg', freed) \<Rightarrow> fold (spawn_step ee) freed (st\<lparr>ex_indeg := indeg'\<rparr>))"

datatype exec_label = Acquire string | Finish string completion | Drain string

fun exec_next ::
  "('b, 'x) node_env_scheme \<Rightarrow> 'b node \<Rightarrow> exec_env \<Rightarrow> exec_label \<Rightarrow> exec_state \<Rightarrow> exec_state option" where
  "exec_next ne nd ee (Acquire i) st =
     (case map_of (ex_flight st) i of
        Some (Waiting j) \<Rightarrow>
          if running_count (ex_flight st) < MAX_CONCURRENT_STEPS
          then Some (st\<lparr>ex_flight := set_flight i (Running j) (ex_flight st),
                        ex_events := ex_events st @ [StepStart i]\<rparr>)
          else None
      | _ \<Rightarrow> None)"
| "exec_next ne nd ee (Finish i c) st =
     (case map_of (ex_flight st) i of
        Some (Running j) \<Rightarrow>
          (case run_job ne nd ee c j (ex_blobs st) of
             (r, journaled, w) \<Rightarrow>
               Some (st\<lparr>ex_flight := set_flight i (Completed r) (ex_flight st), ex_blobs := w,
                        ex_audit := (if journaled then record_entry (step_audit c j r) (ex_audit st)
                          else ex_audit st)\<rparr>))
      | _ \<Rightarrow> None)"
| "exec_next ne nd ee (Drain i) st =
     (case map_of (ex_flight st) i of
        Some (Completed r) \<Rightarrow>
          Some (free_dependents ee i (complete_step ee i r (st\<lparr>ex_flight := drop_flight i (ex_flight st)\<rparr>)))
      | _ \<Rightarrow> None)"

definition exec_init :: "exec_env \<Rightarrow> audit_log \<Rightarrow> blob_world \<Rightarrow> exec_state" where
  "exec_init ee log w = fold (spawn_step ee) (roots (ee_plan ee))
     \<lparr>ex_blackboard = Map.empty, ex_trace = Map.empty, ex_last = None,
      ex_indeg = fst (dep_graph_of (ee_plan ee)), ex_flight = [], ex_calls = 0, ex_events = [],
      ex_hooks = [], ex_audit = log, ex_blobs = w\<rparr>"

text \<open>States the executor can reach, with the number of transitions taken.\<close>

inductive exec_reach ::
  "('b, 'x) node_env_scheme \<Rightarrow> 'b node \<Rightarrow> exec_env \<Rightarrow> audit_log \<Rightarrow> blob_world \<Rightarrow> nat \<Rightarrow> exec_state \<Rightarrow> bool"
  for ne nd ee log w where
  start: "exec_reach ne nd ee log w 0 (exec_init ee log w)"
| step: "exec_reach ne nd ee log w n st \<Longrightarrow> exec_next ne nd ee l st = Some st'
    \<Longrightarrow> exec_reach ne nd ee log w (Suc n) st'"

section \<open>The answer\<close>

record plan_run =
  run_blackboard :: blackboard
  run_last :: "string option"
  run_trace :: "trace_entry list"

fun reassemble :: "plan \<Rightarrow> (string \<rightharpoonup> trace_entry) \<Rightarrow> trace_entry list" where
  "reassemble [] tr = []"
| "reassemble (s # p) tr =
     (case tr (step_id s) of
        None \<Rightarrow> reassemble p tr
      | Some e \<Rightarrow> e # reassemble p (tr(step_id s := None)))"

definition exec_result :: "exec_env \<Rightarrow> exec_state \<Rightarrow> plan_run" where
  "exec_result ee st =
     \<lparr>run_blackboard = ex_blackboard st, run_last = ex_last st,
      run_trace = reassemble (ee_plan ee) (ex_trace st)\<rparr>"

section \<open>Flights\<close>

definition flight_sum :: "(flight \<Rightarrow> nat) \<Rightarrow> (string \<times> flight) list \<Rightarrow> nat" where
  "flight_sum w fl = sum_list (map (\<lambda>p. w (snd p)) fl)"

lemma flight_sum_simps [simp]:
  "flight_sum w [] = 0" "flight_sum w (x # fl) = w (snd x) + flight_sum w fl"
  "flight_sum w (fl @ fl') = flight_sum w fl + flight_sum w fl'"
  by (simp_all add: flight_sum_def)

lemma set_flight_keys [simp]: "map fst (set_flight i f fl) = map fst fl"
  by (induction fl) (auto simp: set_flight_def)

lemma set_flight_same: "i \<notin> fst ` set fl \<Longrightarrow> set_flight i f fl = fl"
  by (induction fl) (auto simp: set_flight_def)

lemma drop_flight_same: "i \<notin> fst ` set fl \<Longrightarrow> drop_flight i fl = fl"
  by (induction fl) (auto simp: drop_flight_def)

lemma set_flight_sum:
  "distinct (map fst fl) \<Longrightarrow> map_of fl i = Some f \<Longrightarrow>
     flight_sum w (set_flight i f' fl) + w f = flight_sum w fl + w f'"
proof (induction fl)
  case (Cons x fl)
  show ?case
  proof (cases "fst x = i")
    case True
    then have "set_flight i f' fl = fl" using Cons.prems(1) by (intro set_flight_same) auto
    then show ?thesis using True Cons.prems(2) by (cases x) (simp add: set_flight_def)
  next
    case False
    then have "flight_sum w (set_flight i f' fl) + w f = flight_sum w fl + w f'" using Cons by (cases x) simp
    then show ?thesis using False by (simp add: set_flight_def)
  qed
qed simp

lemma drop_flight_sum:
  "distinct (map fst fl) \<Longrightarrow> map_of fl i = Some f \<Longrightarrow>
     flight_sum w (drop_flight i fl) + w f = flight_sum w fl"
proof (induction fl)
  case (Cons x fl)
  show ?case
  proof (cases "fst x = i")
    case True
    then have "drop_flight i fl = fl" using Cons.prems(1) by (intro drop_flight_same) auto
    then show ?thesis using True Cons.prems(2) by (cases x) (simp add: drop_flight_def)
  next
    case False
    then have "flight_sum w (drop_flight i fl) + w f = flight_sum w fl" using Cons by (cases x) simp
    then show ?thesis using False by (simp add: drop_flight_def)
  qed
qed simp

lemma set_flight_mem:
  "(k, g) \<in> set (set_flight i f fl) \<Longrightarrow> (k = i \<and> g = f) \<or> (k \<noteq> i \<and> (k, g) \<in> set fl)"
  by (auto simp: set_flight_def split: if_splits)

lemma drop_flight_mem: "(k, g) \<in> set (drop_flight i fl) \<longleftrightarrow> k \<noteq> i \<and> (k, g) \<in> set fl"
  by (auto simp: drop_flight_def)

lemma drop_flight_keys:
  "distinct (map fst fl) \<Longrightarrow> distinct (map fst (drop_flight i fl))"
  "fst ` set (drop_flight i fl) = fst ` set fl - {i}"
  by (auto simp: drop_flight_def distinct_map_filter)

lemma running_count_sum: "running_count fl = flight_sum (\<lambda>f. if is_running f then 1 else 0) fl"
  by (induction fl) (auto simp: running_count_def)

fun weight :: "flight \<Rightarrow> nat" where
  "weight (Waiting _) = 3"
| "weight (Running _) = 2"
| "weight (Completed _) = 1"

section \<open>The invariant\<close>

fun start_of :: "dispatch_event \<Rightarrow> string option" where
  "start_of (StepStart i) = Some i"
| "start_of _ = None"

definition starts :: "dispatch_event list \<Rightarrow> string list" where
  "starts ev = List.map_filter start_of ev"

lemma starts_simps [simp]:
  "starts [] = []" "starts (ev @ [StepStart i]) = starts ev @ [i]"
  "starts (ev @ [StepDone i a r e]) = starts ev"
  by (simp_all add: starts_def List.map_filter_def)

fun job_of :: "flight \<Rightarrow> job option" where
  "job_of (Waiting j) = Some j"
| "job_of (Running j) = Some j"
| "job_of (Completed _) = None"

fun is_waiting :: "flight \<Rightarrow> bool" where
  "is_waiting (Waiting _) = True"
| "is_waiting _ = False"

text \<open>\<open>D\<close> is what is done, \<open>A\<close> what has been spawned.\<close>

definition exec_core :: "string set \<Rightarrow> string set \<Rightarrow> exec_state \<Rightarrow> bool" where
  "exec_core D A st \<longleftrightarrow> dom (ex_blackboard st) = D \<and> distinct (map fst (ex_flight st))
     \<and> fst ` set (ex_flight st) \<inter> D = {} \<and> D \<union> fst ` set (ex_flight st) = A
     \<and> running_count (ex_flight st) \<le> MAX_CONCURRENT_STEPS \<and> dom (ex_trace st) = A
     \<and> (\<forall>i\<in>D. \<exists>t. ex_trace st i = Some t \<and> (te_result t \<noteq> None \<or> te_error t \<noteq> None))
     \<and> (\<forall>i f j. (i, f) \<in> set (ex_flight st) \<longrightarrow> job_of f = Some j \<longrightarrow> first_unresolved_template (jb_args j) = None)
     \<and> distinct (starts (ex_events st))
     \<and> (\<forall>i\<in>set (starts (ex_events st)). i \<in> D \<or> (\<exists>f. (i, f) \<in> set (ex_flight st) \<and> \<not> is_waiting f))"

definition potential :: "plan \<Rightarrow> exec_state \<Rightarrow> nat" where
  "potential p st = 3 * (length p - card (dom (ex_trace st))) + flight_sum weight (ex_flight st)"

definition fresh_flight :: "flight \<Rightarrow> bool" where
  "fresh_flight f \<longleftrightarrow> \<not> is_running f \<and> weight f \<le> 3
     \<and> (\<forall>j. job_of f = Some j \<longrightarrow> first_unresolved_template (jb_args j) = None)"

lemma spawn_put:
  assumes "distinct (map step_id (ee_plan ee))" "s \<in> set (ee_plan ee)"
  shows "\<exists>peer args err f. spawn_step ee (step_id s) st = put_step ee s peer args err f st \<and> fresh_flight f"
proof -
  let ?args = "resolve_value (ee_show ee) (ex_blackboard st) (step_args s)"
  note by_id = steps_by_id [OF assms]
  show ?thesis
  proof (cases "first_unresolved_template ?args")
    case (Some u)
    then show ?thesis
      by (simp add: spawn_step_def by_id Let_def) (intro exI conjI, rule refl, simp add: fresh_flight_def)
  next
    case None
    note un = this
    show ?thesis
    proof (cases "catalog_find (step_tool s) (ee_catalog ee)")
      case None
      then show ?thesis using un
        by (simp add: spawn_step_def by_id Let_def) (intro exI conjI, rule refl, simp add: fresh_flight_def)
    next
      case (Some t)
      note tool = this
      show ?thesis
      proof (cases "validate_args_against_schema (ee_schema ee) ?args (schema_in (td_cap t))")
        case (Inl e)
        then show ?thesis using un tool
          by (simp add: spawn_step_def by_id Let_def) (intro exI conjI, rule refl, simp add: fresh_flight_def)
      next
        case (Inr x)
        then show ?thesis using un tool
          by (simp add: spawn_step_def by_id Let_def) (intro exI conjI, rule refl, simp add: fresh_flight_def)
      qed
    qed
  qed
qed

lemma spawn_step_shape:
  assumes "distinct (map step_id (ee_plan ee))" "i \<in> step_id ` set (ee_plan ee)"
  obtains t f where
    "spawn_step ee i st = st\<lparr>ex_trace := (ex_trace st)(i \<mapsto> t), ex_flight := ex_flight st @ [(i, f)],
       ex_calls := ex_calls st + 1\<rparr>" "fresh_flight f"
proof -
  obtain s where s: "s \<in> set (ee_plan ee)" "i = step_id s" using assms(2) by auto
  then show thesis using spawn_put [OF assms(1) s(1), of st] that by (auto simp: put_step_def)
qed

lemma exec_coreD:
  assumes "exec_core D A st"
  shows "dom (ex_blackboard st) = D" "distinct (map fst (ex_flight st))"
    "fst ` set (ex_flight st) \<inter> D = {}" "D \<union> fst ` set (ex_flight st) = A"
    "running_count (ex_flight st) \<le> MAX_CONCURRENT_STEPS" "dom (ex_trace st) = A"
    "\<And>i. i \<in> D \<Longrightarrow> \<exists>t. ex_trace st i = Some t \<and> (te_result t \<noteq> None \<or> te_error t \<noteq> None)"
    "\<And>i f j. (i, f) \<in> set (ex_flight st) \<Longrightarrow> job_of f = Some j \<Longrightarrow> first_unresolved_template (jb_args j) = None"
    "distinct (starts (ex_events st))"
    "\<And>i. i \<in> set (starts (ex_events st)) \<Longrightarrow> i \<in> D \<or> (\<exists>f. (i, f) \<in> set (ex_flight st) \<and> \<not> is_waiting f)"
  using assms unfolding exec_core_def by blast+

lemma spawn_core:
  assumes "distinct (map step_id (ee_plan ee))" "i \<in> step_id ` set (ee_plan ee)" "i \<notin> A"
    and "exec_core D A st" "A \<subseteq> step_id ` set (ee_plan ee)"
  shows "exec_core D (insert i A) (spawn_step ee i st)"
    and "potential (ee_plan ee) (spawn_step ee i st) \<le> potential (ee_plan ee) st"
    and "ex_indeg (spawn_step ee i st) = ex_indeg st"
proof -
  obtain t f where sp: "spawn_step ee i st = st\<lparr>ex_trace := (ex_trace st)(i \<mapsto> t),
      ex_flight := ex_flight st @ [(i, f)], ex_calls := ex_calls st + 1\<rparr>" "fresh_flight f"
    using spawn_step_shape [OF assms(1,2)] .
  note core = exec_coreD [OF assms(4)]
  have i: "i \<notin> D" "i \<notin> fst ` set (ex_flight st)" using assms(3) core(4) by auto
  have "running_count (ex_flight st @ [(i, f)]) = running_count (ex_flight st)"
    using sp(2) by (simp add: running_count_def fresh_flight_def)
  moreover have "\<exists>t'. ((ex_trace st)(i \<mapsto> t)) k = Some t' \<and> (te_result t' \<noteq> None \<or> te_error t' \<noteq> None)"
    if "k \<in> D" for k using core(7) [OF that] that i(1) by (cases "k = i") auto
  moreover have "first_unresolved_template (jb_args j) = None"
    if "(k, g) \<in> set (ex_flight st @ [(i, f)])" "job_of g = Some j" for k g j
    using that core(8) [of k g j] sp(2) by (auto simp: fresh_flight_def)
  moreover have "k \<in> D \<or> (\<exists>g. (k, g) \<in> set (ex_flight st @ [(i, f)]) \<and> \<not> is_waiting g)"
    if "k \<in> set (starts (ex_events st))" for k using core(10) [OF that] by auto
  moreover have "D \<union> fst ` set (ex_flight st @ [(i, f)]) = insert i A"
    "fst ` set (ex_flight st @ [(i, f)]) \<inter> D = {}" "distinct (map fst (ex_flight st @ [(i, f)]))"
    using core(2,3,4) i by auto
  moreover have "dom ((ex_trace st)(i \<mapsto> t)) = insert i A" using core(6) by simp
  ultimately show "exec_core D (insert i A) (spawn_step ee i st)"
    using core(1,5,9) unfolding exec_core_def sp(1)
    by (simp del: fun_upd_apply set_append)
  have "card (insert i A) \<le> length (ee_plan ee)"
    using assms(2,5) card_mono [of "step_id ` set (ee_plan ee)" "insert i A"]
      card_image_le [of "set (ee_plan ee)" step_id] card_length [of "ee_plan ee"] by simp
  moreover have "finite A" using assms(5) by (rule finite_subset) simp
  ultimately have c: "Suc (card A) \<le> length (ee_plan ee)" "card (insert i A) = Suc (card A)"
    using assms(3) by simp_all
  have "weight f \<le> 3" using sp(2) by (simp add: fresh_flight_def)
  then have "3 * (length (ee_plan ee) - card (insert i A)) + weight f \<le> 3 * (length (ee_plan ee) - card A)"
    using c by linarith
  then show "potential (ee_plan ee) (spawn_step ee i st) \<le> potential (ee_plan ee) st"
    using core(6) by (simp add: potential_def sp(1))
  show "ex_indeg (spawn_step ee i st) = ex_indeg st" by (simp add: sp(1))
qed

lemma spawn_all_core:
  assumes "distinct (map step_id (ee_plan ee))" "set ks \<subseteq> step_id ` set (ee_plan ee)" "distinct ks"
    and "set ks \<inter> A = {}" "exec_core D A st" "A \<subseteq> step_id ` set (ee_plan ee)"
  shows "exec_core D (A \<union> set ks) (fold (spawn_step ee) ks st)
    \<and> potential (ee_plan ee) (fold (spawn_step ee) ks st) \<le> potential (ee_plan ee) st
    \<and> ex_indeg (fold (spawn_step ee) ks st) = ex_indeg st"
  using assms(2-6)
proof (induction ks arbitrary: A st)
  case (Cons k ks)
  have k: "k \<in> step_id ` set (ee_plan ee)" "k \<notin> A" using Cons.prems by auto
  note one = spawn_core [OF assms(1) k Cons.prems(4,5)]
  have "exec_core D (insert k A \<union> set ks) (fold (spawn_step ee) ks (spawn_step ee k st))
    \<and> potential (ee_plan ee) (fold (spawn_step ee) ks (spawn_step ee k st)) \<le> potential (ee_plan ee) (spawn_step ee k st)
    \<and> ex_indeg (fold (spawn_step ee) ks (spawn_step ee k st)) = ex_indeg (spawn_step ee k st)"
    using Cons.prems k one(1) by (intro Cons.IH) auto
  then show ?case using one(2,3) by simp
qed simp

section \<open>Transitions\<close>

lemma exec_coreI:
  assumes "dom (ex_blackboard st) = D" "distinct (map fst (ex_flight st))"
    "fst ` set (ex_flight st) \<inter> D = {}" "D \<union> fst ` set (ex_flight st) = A"
    "running_count (ex_flight st) \<le> MAX_CONCURRENT_STEPS" "dom (ex_trace st) = A"
    "\<And>i. i \<in> D \<Longrightarrow> \<exists>t. ex_trace st i = Some t \<and> (te_result t \<noteq> None \<or> te_error t \<noteq> None)"
    "\<And>i f j. (i, f) \<in> set (ex_flight st) \<Longrightarrow> job_of f = Some j \<Longrightarrow> first_unresolved_template (jb_args j) = None"
    "distinct (starts (ex_events st))"
    "\<And>i. i \<in> set (starts (ex_events st)) \<Longrightarrow> i \<in> D \<or> (\<exists>f. (i, f) \<in> set (ex_flight st) \<and> \<not> is_waiting f)"
  shows "exec_core D A st"
  unfolding exec_core_def
  by (intro conjI allI ballI impI) (rule assms(1) assms(2) assms(3) assms(4) assms(5) assms(6) assms(9) | (rule assms(7) assms(8) assms(10); assumption))+

text \<open>Replacing the flight of a step, with or without a start event.\<close>

lemma set_flight_core:
  assumes "exec_core D A st" "map_of (ex_flight st) i = Some f" "running_count (set_flight i f' (ex_flight st)) \<le> MAX_CONCURRENT_STEPS"
    and "\<not> is_waiting f'" "job_of f' = None \<or> job_of f' = job_of f"
    and "ev = ex_events st \<or> (is_waiting f \<and> ev = ex_events st @ [StepStart i])"
  shows "exec_core D A (st\<lparr>ex_flight := set_flight i f' (ex_flight st), ex_events := ev, ex_blobs := w, ex_audit := log\<rparr>)"
proof -
  note core = exec_coreD [OF assms(1)]
  have i: "(i, f) \<in> set (ex_flight st)" using assms(2) by (rule map_of_SomeD)
  have only: "g = f" if "(i, g) \<in> set (ex_flight st)" for g
    using map_of_is_SomeI [OF core(2) that] assms(2) by simp
  have keys: "fst ` set (set_flight i f' (ex_flight st)) = fst ` set (ex_flight st)"
    unfolding set_map [symmetric] set_flight_keys ..
  have new: "(i, f') \<in> set (set_flight i f' (ex_flight st))" using i by (force simp: set_flight_def)
  have old: "(k, g) \<in> set (set_flight i f' (ex_flight st))" if "(k, g) \<in> set (ex_flight st)" "k \<noteq> i" for k g
    using that by (force simp: set_flight_def)
  have jobs: "first_unresolved_template (jb_args j) = None"
    if "(k, g) \<in> set (set_flight i f' (ex_flight st))" "job_of g = Some j" for k g j
    using set_flight_mem [OF that(1)] that(2) assms(5) core(8) [of k g j] core(8) [OF i, of j] by auto
  have started: "k \<in> D \<or> (\<exists>g. (k, g) \<in> set (set_flight i f' (ex_flight st)) \<and> \<not> is_waiting g)"
    if "k \<in> set (starts ev)" for k
  proof (cases "k = i")
    case True
    then show ?thesis using new assms(4) by blast
  next
    case False
    then have "k \<in> set (starts (ex_events st))" using that assms(6) by auto
    then show ?thesis using core(10) [of k] old False by blast
  qed
  have "distinct (starts ev)"
  proof (cases "ev = ex_events st")
    case False
    then have ev: "is_waiting f" "ev = ex_events st @ [StepStart i]" using assms(6) by auto
    have "i \<notin> D" using core(3) i by force
    then have "i \<notin> set (starts (ex_events st))" using core(10) [of i] only ev(1) by blast
    then show ?thesis using ev(2) core(9) by simp
  qed (use core(9) in simp)
  then show ?thesis
  proof (intro exec_coreI, goal_cases)
    case (7 k)
    then show ?case using core(7) [of k] by simp
  next
    case (8 k g j)
    then show ?case using jobs [of k g j] by simp
  next
    case (10 k)
    then show ?case using started [of k] by simp
  qed (use core(1-6) keys assms(3) in simp_all)
qed

lemma acquire_core:
  assumes "exec_core D A st" "exec_next ne nd ee (Acquire i) st = Some st'"
  shows "exec_core D A st'" "potential p st' < potential p st" "ex_indeg st' = ex_indeg st"
proof -
  obtain j where j: "map_of (ex_flight st) i = Some (Waiting j)"
    "running_count (ex_flight st) < MAX_CONCURRENT_STEPS"
    "st' = st\<lparr>ex_flight := set_flight i (Running j) (ex_flight st), ex_events := ex_events st @ [StepStart i]\<rparr>"
    using assms(2) by (auto split: option.splits flight.splits if_splits)
  note sum = set_flight_sum [OF exec_coreD(2) [OF assms(1)] j(1), of _ "Running j"]
  have run: "running_count (set_flight i (Running j) (ex_flight st)) \<le> MAX_CONCURRENT_STEPS"
    using sum [of "\<lambda>f. if is_running f then 1 else 0"] j(2) by (simp add: running_count_sum)
  show "exec_core D A st'"
    using set_flight_core [OF assms(1) j(1) run, where ev = "ex_events st @ [StepStart i]"
        and w = "ex_blobs st" and log = "ex_audit st"]
    by (simp add: j(3))
  show "potential p st' < potential p st" using sum [of weight] by (simp add: potential_def j(3))
  show "ex_indeg st' = ex_indeg st" by (simp add: j(3))
qed

lemma finish_core:
  assumes "exec_core D A st" "exec_next ne nd ee (Finish i c) st = Some st'"
  shows "exec_core D A st'" "potential p st' < potential p st" "ex_indeg st' = ex_indeg st"
proof -
  obtain j r w log where j: "map_of (ex_flight st) i = Some (Running j)"
    "st' = st\<lparr>ex_flight := set_flight i (Completed r) (ex_flight st), ex_blobs := w, ex_audit := log\<rparr>"
    using assms(2) by (auto split: option.splits flight.splits prod.splits)
  note sum = set_flight_sum [OF exec_coreD(2) [OF assms(1)] j(1), of _ "Completed r"]
  have run: "running_count (set_flight i (Completed r) (ex_flight st)) \<le> MAX_CONCURRENT_STEPS"
    using sum [of "\<lambda>f. if is_running f then 1 else 0"] exec_coreD(5) [OF assms(1)]
    by (simp add: running_count_sum)
  show "exec_core D A st'"
    using set_flight_core [OF assms(1) j(1) run, where ev = "ex_events st" and w = w and log = log]
    by (simp add: j(2))
  show "potential p st' < potential p st" using sum [of weight] by (simp add: potential_def j(2))
  show "ex_indeg st' = ex_indeg st" by (simp add: j(2))
qed

lemma complete_core:
  fixes ee :: exec_env
  assumes "exec_core D A st" "map_of (ex_flight st) i = Some (Completed r)"
  defines "st' \<equiv> complete_step ee i r (st\<lparr>ex_flight := drop_flight i (ex_flight st)\<rparr>)"
  shows "exec_core (insert i D) A st'" "potential p st' < potential p st" "ex_indeg st' = ex_indeg st"
proof -
  note core = exec_coreD [OF assms(1)]
  note sum = drop_flight_sum [OF core(2) assms(2)]
  have i: "(i, Completed r) \<in> set (ex_flight st)" using assms(2) by (rule map_of_SomeD)
  then have mem: "i \<in> fst ` set (ex_flight st)" by force
  then obtain t where t: "ex_trace st i = Some t" using core(4,6) by blast
  define t' where "t' = (case r of Inr v \<Rightarrow> t\<lparr>te_result := Some v\<rparr> | Inl e \<Rightarrow> t\<lparr>te_error := Some e\<rparr>)"
  have fields: "ex_flight st' = drop_flight i (ex_flight st)" "ex_trace st' = (ex_trace st)(i \<mapsto> t')"
    "dom (ex_blackboard st') = insert i D" "starts (ex_events st') = starts (ex_events st)"
    using t core(1) by (simp_all add: st'_def complete_step_def Let_def t'_def)
  have t'_done: "te_result t' \<noteq> None \<or> te_error t' \<noteq> None" by (cases r) (simp_all add: t'_def)
  have "running_count (drop_flight i (ex_flight st)) \<le> MAX_CONCURRENT_STEPS"
    using sum [of "\<lambda>f. if is_running f then 1 else 0"] core(5) by (simp add: running_count_sum)
  moreover have "insert i D \<union> fst ` set (drop_flight i (ex_flight st)) = A"
    "fst ` set (drop_flight i (ex_flight st)) \<inter> insert i D = {}"
    using core(3,4) mem by (auto simp: drop_flight_keys(2))
  moreover have "dom ((ex_trace st)(i \<mapsto> t')) = A" using core(4,6) mem by auto
  moreover have "\<exists>u. ((ex_trace st)(i \<mapsto> t')) k = Some u \<and> (te_result u \<noteq> None \<or> te_error u \<noteq> None)"
    if "k \<in> insert i D" for k using that t'_done core(7) [of k] by (cases "k = i") auto
  moreover have "first_unresolved_template (jb_args j) = None"
    if "(k, g) \<in> set (drop_flight i (ex_flight st))" "job_of g = Some j" for k g j
    using that core(8) by (auto simp: drop_flight_mem)
  moreover have "k \<in> insert i D \<or> (\<exists>g. (k, g) \<in> set (drop_flight i (ex_flight st)) \<and> \<not> is_waiting g)"
    if "k \<in> set (starts (ex_events st))" for k
    using core(10) [OF that] by (auto simp: drop_flight_mem)
  ultimately show "exec_core (insert i D) A st'"
    unfolding exec_core_def fields using core(9) drop_flight_keys(1) [OF core(2)] fields(3)
    by (simp del: fun_upd_apply)
  have "dom (ex_trace st') = dom (ex_trace st)" using t by (auto simp: fields)
  then show "potential p st' < potential p st" using sum [of weight] by (simp add: potential_def fields(1))
  show "ex_indeg st' = ex_indeg st" by (simp add: st'_def complete_step_def Let_def)
qed

definition exec_inv :: "exec_env \<Rightarrow> exec_state \<Rightarrow> bool" where
  "exec_inv ee st \<longleftrightarrow>
     exec_core (dom (ex_blackboard st)) (plan_graph.available (ee_plan ee) (dom (ex_blackboard st))) st
     \<and> plan_graph.tracks (ee_plan ee) (ex_indeg st) (dom (ex_blackboard st))"

lemma available_steps: "plan_graph.available p D \<subseteq> step_id ` set p"
  by (auto simp: plan_graph.available_def)

lemma exec_init_inv:
  assumes "distinct (map step_id (ee_plan ee))"
  shows "exec_inv ee (exec_init ee log w) \<and> potential (ee_plan ee) (exec_init ee log w) \<le> 3 * length (ee_plan ee)"
proof -
  let ?s0 = "\<lparr>ex_blackboard = Map.empty, ex_trace = Map.empty, ex_last = None,
      ex_indeg = fst (dep_graph_of (ee_plan ee)), ex_flight = [], ex_calls = 0, ex_events = [],
      ex_hooks = [], ex_audit = log, ex_blobs = w\<rparr>"
  have r: "set (roots (ee_plan ee)) = plan_graph.available (ee_plan ee) {}" "distinct (roots (ee_plan ee))"
    using roots_inv [OF assms] by (auto simp: plan_graph.kahn_inv_def)
  have "exec_core {} {} ?s0" by (simp add: exec_core_def running_count_def)
  then have all: "exec_core {} ({} \<union> set (roots (ee_plan ee))) (exec_init ee log w)
      \<and> potential (ee_plan ee) (exec_init ee log w) \<le> potential (ee_plan ee) ?s0
      \<and> ex_indeg (exec_init ee log w) = ex_indeg ?s0"
    unfolding exec_init_def using r available_steps [of "ee_plan ee" "{}"]
    by (intro spawn_all_core [OF assms]) auto
  then have "dom (ex_blackboard (exec_init ee log w)) = {}" by (auto dest: exec_coreD(1))
  then show ?thesis
    using all r graph_tracks [OF assms] by (simp add: exec_inv_def) (simp add: potential_def)
qed

lemma drain_inv:
  assumes "distinct (map step_id (ee_plan ee))" "exec_inv ee st" "exec_next ne nd ee (Drain i) st = Some st'"
  shows "exec_inv ee st' \<and> potential (ee_plan ee) st' < potential (ee_plan ee) st"
proof -
  let ?p = "ee_plan ee" and ?D = "dom (ex_blackboard st)"
  obtain r where r: "map_of (ex_flight st) i = Some (Completed r)"
    "st' = free_dependents ee i (complete_step ee i r (st\<lparr>ex_flight := drop_flight i (ex_flight st)\<rparr>))"
    using assms(3) by (auto split: option.splits flight.splits)
  have core: "exec_core ?D (plan_graph.available ?p ?D) st" and tr: "plan_graph.tracks ?p (ex_indeg st) ?D"
    using assms(2) by (simp_all add: exec_inv_def)
  let ?s1 = "complete_step ee i r (st\<lparr>ex_flight := drop_flight i (ex_flight st)\<rparr>)"
  note c = complete_core [OF core r(1), where ee = ee]
  let ?rel = "release_all (plan_outs ?p i) (ex_indeg st)"
  have "i \<notin> ?D" using exec_coreD(3) [OF core] map_of_SomeD [OF r(1)] by force
  note rel = plan_graph.release_step [OF tr this]
  let ?s2 = "?s1\<lparr>ex_indeg := fst ?rel\<rparr>"
  have st': "st' = fold (spawn_step ee) (snd ?rel) ?s2"
    using c(3) by (simp add: r(2) free_dependents_def prod.case_eq_if)
  have "exec_core (insert i ?D) (plan_graph.available ?p ?D) ?s2"
    using c(1) by (simp add: exec_core_def)
  moreover have "potential ?p ?s2 = potential ?p ?s1" by (simp add: potential_def)
  moreover have "distinct (snd ?rel)" unfolding rel(2) by (simp add: plan_graph.outs_distinct)
  moreover have "set (snd ?rel) \<subseteq> step_id ` set ?p"
    unfolding rel(2) using plan_graph.outs_set [of ?p i] by auto
  ultimately have all: "exec_core (insert i ?D) (plan_graph.available ?p ?D \<union> set (snd ?rel)) st'
      \<and> potential ?p st' \<le> potential ?p ?s1 \<and> ex_indeg st' = fst ?rel"
    unfolding st' using spawn_all_core [OF assms(1) _ _ _ _ available_steps, of "snd ?rel" ?D "insert i ?D" ?s2] rel(4)
    by (simp add: Int_commute)
  have "dom (ex_blackboard st') = insert i ?D" by (rule exec_coreD(1) [OF conjunct1 [OF all]])
  then show ?thesis
    using all rel(1,3) c(2) [where p = ?p] by (simp add: exec_inv_def)
qed

lemma exec_next_inv:
  assumes "distinct (map step_id (ee_plan ee))" "exec_inv ee st" "exec_next ne nd ee l st = Some st'"
  shows "exec_inv ee st' \<and> potential (ee_plan ee) st' < potential (ee_plan ee) st"
proof (cases l)
  case (Acquire i)
  have core: "exec_core (dom (ex_blackboard st)) (plan_graph.available (ee_plan ee) (dom (ex_blackboard st))) st"
    using assms(2) by (simp add: exec_inv_def)
  note a = acquire_core [OF core assms(3) [unfolded Acquire]]
  show ?thesis using a exec_coreD(1) [OF a(1)] assms(2) by (simp add: exec_inv_def)
next
  case (Finish i c)
  have core: "exec_core (dom (ex_blackboard st)) (plan_graph.available (ee_plan ee) (dom (ex_blackboard st))) st"
    using assms(2) by (simp add: exec_inv_def)
  note f = finish_core [OF core assms(3) [unfolded Finish]]
  show ?thesis using f exec_coreD(1) [OF f(1)] assms(2) by (simp add: exec_inv_def)
next
  case (Drain i)
  then show ?thesis using drain_inv assms by blast
qed

lemma exec_reach_inv:
  assumes "exec_reach ne nd ee log w n st" "distinct (map step_id (ee_plan ee))"
  shows "exec_inv ee st \<and> n + potential (ee_plan ee) st \<le> 3 * length (ee_plan ee)"
  using assms(1)
proof induction
  case start
  then show ?case using exec_init_inv [OF assms(2)] by simp
next
  case (step n st l st')
  then show ?case using exec_next_inv [OF assms(2), of st ne nd l st'] by simp
qed

lemma exec_progress:
  assumes "exec_inv ee st" "ex_flight st \<noteq> []"
  shows "\<exists>l. exec_next ne nd ee l st \<noteq> None"
proof -
  have dist: "distinct (map fst (ex_flight st))" using assms(1) by (auto simp: exec_inv_def dest: exec_coreD(2))
  have look: "map_of (ex_flight st) i = Some f" if "(i, f) \<in> set (ex_flight st)" for i f
    using that dist by (simp add: map_of_eq_Some_iff)
  consider (completed) i r where "(i, Completed r) \<in> set (ex_flight st)"
    | (running) i j where "(i, Running j) \<in> set (ex_flight st)"
    | (waiting) "\<forall>(i, f)\<in>set (ex_flight st). is_waiting f"
    by (metis case_prodI2 flight.exhaust is_waiting.simps(1))
  then show ?thesis
  proof cases
    case completed
    then have "exec_next ne nd ee (Drain i) st \<noteq> None" by (simp add: look)
    then show ?thesis by blast
  next
    case running
    obtain c :: completion where "True" by simp
    have "exec_next ne nd ee (Finish i c) st \<noteq> None"
      using running by (simp add: look prod.case_eq_if)
    then show ?thesis by blast
  next
    case waiting
    then have "\<not> is_running f" if "(i, f) \<in> set (ex_flight st)" for i f using that by (cases f) auto
    then have "running_count (ex_flight st) = 0" by (auto simp: running_count_def filter_empty_conv)
    moreover obtain i f where "(i, f) \<in> set (ex_flight st)" using assms(2) by (cases "ex_flight st") auto
    moreover then obtain j where "f = Waiting j" using waiting by (cases f) auto
    ultimately have "exec_next ne nd ee (Acquire i) st \<noteq> None" by (simp add: look MAX_CONCURRENT_STEPS_def)
    then show ?thesis by blast
  qed
qed

lemma reassemble_order:
  "distinct (map step_id p) \<Longrightarrow> step_id ` set p \<subseteq> dom tr \<Longrightarrow>
     map Some (reassemble p tr) = map (\<lambda>s. tr (step_id s)) p"
proof (induction p arbitrary: tr)
  case (Cons s p)
  obtain e where e: "tr (step_id s) = Some e" using Cons.prems(2) by auto
  have "map Some (reassemble p (tr(step_id s := None))) = map (\<lambda>x. (tr(step_id s := None)) (step_id x)) p"
  proof (rule Cons.IH)
    have "step_id s \<notin> step_id ` set p" using Cons.prems(1) by simp
    then show "step_id ` set p \<subseteq> dom (tr(step_id s := None))" using Cons.prems(2) by (simp add: subset_Diff_insert)
  qed (use Cons.prems(1) in simp)
  also have "\<dots> = map (\<lambda>x. tr (step_id x)) p"
  proof (rule map_cong)
    fix x assume "x \<in> set p"
    then have "step_id x \<in> step_id ` set p" by simp
    then have "step_id x \<noteq> step_id s" using Cons.prems(1) by auto
    then show "(tr(step_id s := None)) (step_id x) = tr (step_id x)" by simp
  qed simp
  finally show ?case using e by simp
qed simp

section \<open>The durability hook\<close>

text \<open>The hook has seen every step that is done, once, with the entry it keeps.\<close>

definition hooked :: "exec_env \<Rightarrow> exec_state \<Rightarrow> bool" where
  "hooked ee st \<longleftrightarrow> (\<exists>ks. distinct ks \<and> set ks = dom (ex_blackboard st)
     \<and> ex_hooks st = map (\<lambda>i. (plan_index (ee_plan ee) i, the (ex_trace st i))) ks)"

lemma spawn_keeps:
  "ex_hooks (spawn_step ee i st) = ex_hooks st" "ex_blackboard (spawn_step ee i st) = ex_blackboard st"
  "k \<noteq> i \<Longrightarrow> ex_trace (spawn_step ee i st) k = ex_trace st k"
proof -
  have "ex_hooks (spawn_step ee i st) = ex_hooks st \<and> ex_blackboard (spawn_step ee i st) = ex_blackboard st
    \<and> (k \<noteq> i \<longrightarrow> ex_trace (spawn_step ee i st) k = ex_trace st k)"
  proof (cases "steps_by_id (ee_plan ee) i")
    case (Some s)
    then have "step_id s = i" by (auto simp: steps_by_id_def last_wins_def dest: map_of_SomeD)
    then show ?thesis
      using Some by (simp add: spawn_step_def put_step_def Let_def split: option.split sum.split)
  qed (simp add: spawn_step_def)
  then show "ex_hooks (spawn_step ee i st) = ex_hooks st" "ex_blackboard (spawn_step ee i st) = ex_blackboard st"
    "k \<noteq> i \<Longrightarrow> ex_trace (spawn_step ee i st) k = ex_trace st k" by simp_all
qed

lemma spawn_all_keeps:
  "ex_hooks (fold (spawn_step ee) ks st) = ex_hooks st"
  "ex_blackboard (fold (spawn_step ee) ks st) = ex_blackboard st"
  "k \<notin> set ks \<Longrightarrow> ex_trace (fold (spawn_step ee) ks st) k = ex_trace st k"
  by (induction ks arbitrary: st) (simp_all add: spawn_keeps)

lemma hooked_init: "hooked ee (exec_init ee log w)"
  by (simp add: hooked_def exec_init_def spawn_all_keeps)

lemma drain_hooked:
  assumes "distinct (map step_id (ee_plan ee))" "exec_inv ee st" "hooked ee st"
    and "exec_next ne nd ee (Drain i) st = Some st'"
  shows "hooked ee st'"
proof -
  let ?p = "ee_plan ee" and ?D = "dom (ex_blackboard st)"
  obtain r where r: "map_of (ex_flight st) i = Some (Completed r)"
    "st' = free_dependents ee i (complete_step ee i r (st\<lparr>ex_flight := drop_flight i (ex_flight st)\<rparr>))"
    using assms(4) by (auto split: option.splits flight.splits)
  have core: "exec_core ?D (plan_graph.available ?p ?D) st" and tr: "plan_graph.tracks ?p (ex_indeg st) ?D"
    using assms(2) by (simp_all add: exec_inv_def)
  let ?s1 = "complete_step ee i r (st\<lparr>ex_flight := drop_flight i (ex_flight st)\<rparr>)"
  let ?rel = "release_all (plan_outs ?p i) (ex_indeg ?s1)"
  let ?s2 = "?s1\<lparr>ex_indeg := fst ?rel\<rparr>"
  have indeg: "ex_indeg ?s1 = ex_indeg st" by (simp add: complete_step_def Let_def)
  have mem: "i \<in> fst ` set (ex_flight st)" using map_of_SomeD [OF r(1)] by force
  have new: "i \<notin> ?D" using exec_coreD(3) [OF core] mem by blast
  have av: "i \<in> plan_graph.available ?p ?D" "?D \<subseteq> plan_graph.available ?p ?D"
    using exec_coreD(4) [OF core] mem by blast+
  obtain t where t: "ex_trace st i = Some t" using exec_coreD(6) [OF core] av(1) by blast
  have known: "i \<in> step_id ` set ?p" using av(1) available_steps by blast
  have st': "st' = fold (spawn_step ee) (snd ?rel) ?s2"
    by (simp add: r(2) free_dependents_def prod.case_eq_if)
  have fresh: "set (snd ?rel) \<inter> plan_graph.available ?p ?D = {}"
    using plan_graph.release_step(4) [OF tr new] unfolding indeg by blast
  obtain ks where ks: "distinct ks" "set ks = ?D"
    "ex_hooks st = map (\<lambda>k. (plan_index ?p k, the (ex_trace st k))) ks"
    using assms(3) by (auto simp: hooked_def)
  have bb: "dom (ex_blackboard st') = insert i ?D"
    unfolding st' spawn_all_keeps by (simp add: complete_step_def Let_def)
  have same: "ex_trace st' k = ex_trace ?s1 k" if "k \<in> insert i ?D" for k
  proof -
    have "k \<notin> set (snd ?rel)" using that av fresh by blast
    then have "ex_trace st' k = ex_trace ?s2 k" unfolding st' by (rule spawn_all_keeps(3))
    then show ?thesis by simp
  qed
  have old: "ex_trace ?s1 k = ex_trace st k" if "k \<noteq> i" for k
    using that by (simp add: complete_step_def Let_def)
  have hooks: "ex_hooks st' = ex_hooks st @ [(plan_index ?p i, the (ex_trace ?s1 i))]"
    unfolding st' spawn_all_keeps using t known by (simp add: complete_step_def Let_def)
  have "map (\<lambda>k. (plan_index ?p k, the (ex_trace st' k))) ks = map (\<lambda>k. (plan_index ?p k, the (ex_trace st k))) ks"
  proof (intro map_cong refl)
    fix k assume "k \<in> set ks"
    then have "k \<in> ?D" "k \<noteq> i" using ks(2) new by auto
    then have "ex_trace st' k = ex_trace st k" using same [of k] old [of k] by simp
    then show "(plan_index ?p k, the (ex_trace st' k)) = (plan_index ?p k, the (ex_trace st k))" by simp
  qed
  then have "ex_hooks st' = map (\<lambda>k. (plan_index ?p k, the (ex_trace st' k))) (ks @ [i])"
    using hooks ks(3) same [of i] by simp
  then show ?thesis using ks(1,2) new bb unfolding hooked_def by (intro exI [of _ "ks @ [i]"]) simp
qed

lemma hooked_next:
  assumes "distinct (map step_id (ee_plan ee))" "exec_inv ee st" "hooked ee st"
    and "exec_next ne nd ee l st = Some st'"
  shows "hooked ee st'"
proof (cases l)
  case (Acquire i)
  then show ?thesis
    using assms(3,4) by (auto simp: hooked_def split: option.splits flight.splits if_splits)
next
  case (Finish i c)
  then show ?thesis
    using assms(3,4) by (auto simp: hooked_def split: option.splits flight.splits prod.splits)
next
  case (Drain i)
  then show ?thesis using drain_hooked [OF assms(1-3)] assms(4) by simp
qed

lemma exec_reach_hooked:
  assumes "exec_reach ne nd ee log w n st" "distinct (map step_id (ee_plan ee))"
  shows "hooked ee st"
  using assms(1)
proof induction
  case start
  then show ?case by (rule hooked_init)
next
  case (step n st l st')
  then show ?case
    using hooked_next [OF assms(2) _ step.IH step.hyps(2)] exec_reach_inv [OF step.hyps(1) assms(2)] by blast
qed

section \<open>Properties\<close>

text \<open>
  C6 (executor safety). In every reachable state at most four steps hold a permit, no step is in
  flight twice, started twice or run again once it is done, every step in flight has the results
  of all steps it waits for on the blackboard, and no step that will be invoked still has a
  \<open>${..}\<close> in its arguments.
\<close>

theorem executor_safe:
  assumes "exec_reach ne nd ee log w n st" "distinct (map step_id (ee_plan ee))"
  shows "running_count (ex_flight st) \<le> 4
    \<and> distinct (map fst (ex_flight st)) \<and> distinct (starts (ex_events st))
    \<and> (\<forall>(i, f)\<in>set (ex_flight st). i \<notin> dom (ex_blackboard st)
        \<and> plan_deps (ee_plan ee) i \<subseteq> dom (ex_blackboard st)
        \<and> (\<forall>j. job_of f = Some j \<longrightarrow> first_unresolved_template (jb_args j) = None))"
proof -
  have "exec_core (dom (ex_blackboard st)) (plan_graph.available (ee_plan ee) (dom (ex_blackboard st))) st"
    using exec_reach_inv [OF assms] by (simp add: exec_inv_def)
  note core = exec_coreD [OF this]
  have "plan_deps (ee_plan ee) i \<subseteq> dom (ex_blackboard st) \<and> i \<notin> dom (ex_blackboard st)"
    if "(i, f) \<in> set (ex_flight st)" for i f
  proof -
    have "i \<in> fst ` set (ex_flight st)" using that by (rule image_eqI [rotated]) simp
    then have "i \<in> plan_graph.available (ee_plan ee) (dom (ex_blackboard st))" "i \<notin> dom (ex_blackboard st)"
      using core(3,4) by blast+
    then show ?thesis unfolding plan_graph.available_def by blast
  qed
  moreover have "first_unresolved_template (jb_args j) = None"
    if "(i, f) \<in> set (ex_flight st)" "job_of f = Some j" for i f j
    using core(8) [OF that] .
  ultimately have "\<forall>(i, f)\<in>set (ex_flight st). i \<notin> dom (ex_blackboard st)
        \<and> plan_deps (ee_plan ee) i \<subseteq> dom (ex_blackboard st)
        \<and> (\<forall>j. job_of f = Some j \<longrightarrow> first_unresolved_template (jb_args j) = None)"
    by (intro ballI case_prodI2) blast
  then show ?thesis using core(2,5,9) unfolding MAX_CONCURRENT_STEPS_def by (intro conjI)
qed

definition toy_exec :: exec_env where
  "toy_exec = \<lparr>ee_plan = [toy_step ''s1'' ''x''], ee_catalog = [toy_tool ''n3:ab'' None ''echo''],
     ee_schema = (\<lambda>_. Inl []), ee_show = print_json, ee_uuid = dec,
     ee_owner = \<lparr>ow_client_id = None, ow_conversation_id = None\<rparr>,
     ee_labels = \<lparr>to_lowercase = id, civil = (\<lambda>_. None)\<rparr>\<rparr>"

definition toy_blobs :: blob_world where
  "toy_blobs = \<lparr>bw_index = [], bw_files = (\<lambda>_. None)\<rparr>"

lemma executor_safe_witness:
  "map fst (ex_flight (exec_init toy_exec [] toy_blobs)) = [''s1'']
    \<and> running_count (ex_flight (exec_init toy_exec [] toy_blobs)) \<le> 4
    \<and> distinct (starts (ex_events (exec_init toy_exec [] toy_blobs)))
    \<and> ''s1'' \<notin> dom (ex_blackboard (exec_init toy_exec [] toy_blobs))"
proof -
  let ?st = "exec_init toy_exec [] toy_blobs"
  have one: "map fst (ex_flight ?st) = [''s1'']" by code_simp
  have "''s1'' \<in> set (map fst (ex_flight ?st))" unfolding one by simp
  then obtain f where f: "(''s1'', f) \<in> set (ex_flight ?st)" by auto
  have "distinct (map step_id (ee_plan toy_exec))" by (simp add: toy_exec_def)
  note safe = executor_safe [OF exec_reach.start [of toy_node_env toy_node] this, of "[]" toy_blobs]
  from safe have all: "\<forall>(i, f)\<in>set (ex_flight ?st). i \<notin> dom (ex_blackboard ?st)" by blast
  have "''s1'' \<notin> dom (ex_blackboard ?st)" using bspec [OF all f] by simp
  with safe one show ?thesis by (intro conjI) simp_all
qed

lemma executor_runs_out:
  assumes "exec_reach ne nd ee log w n st" "validate_plan js cat (ee_plan ee) = Some (Inr ())"
  shows "n \<le> 3 * length (ee_plan ee)
    \<and> (ex_flight st \<noteq> [] \<longrightarrow> (\<exists>l. exec_next ne nd ee l st \<noteq> None))
    \<and> (ex_flight st = [] \<longrightarrow> dom (run_blackboard (exec_result ee st)) = step_id ` set (ee_plan ee)
        \<and> map Some (run_trace (exec_result ee st)) = map (\<lambda>s. ex_trace st (step_id s)) (ee_plan ee)
        \<and> (\<forall>t\<in>set (run_trace (exec_result ee st)). te_result t \<noteq> None \<or> te_error t \<noteq> None))"
proof -
  let ?p = "ee_plan ee" and ?D = "dom (ex_blackboard st)"
  have valid: "distinct (map step_id ?p)" "acyclic_plan ?p"
    using validate_plan_accepts [OF assms(2)] by simp_all
  have inv: "exec_inv ee st" "n + potential ?p st \<le> 3 * length ?p"
    using exec_reach_inv [OF assms(1) valid(1)] by simp_all
  then have "exec_core ?D (plan_graph.available ?p ?D) st" by (simp add: exec_inv_def)
  note core = exec_coreD [OF this]
  have all: "?D = step_id ` set ?p" if "ex_flight st = []"
  proof -
    have "?D = plan_graph.available ?p ?D" using core(4) that by simp
    then show ?thesis using plan_graph.closed_complete [of ?p ?D] valid(2) by (simp add: acyclic_plan_def plan_rel)
  qed
  have trace: "map Some (reassemble ?p (ex_trace st)) = map (\<lambda>s. ex_trace st (step_id s)) ?p"
    if "ex_flight st = []"
  proof (rule reassemble_order [OF valid(1)])
    have "dom (ex_trace st) = ?D" using core(4,6) that by simp
    then show "step_id ` set ?p \<subseteq> dom (ex_trace st)" using all [OF that] by simp
  qed
  have finished: "te_result t \<noteq> None \<or> te_error t \<noteq> None"
    if "ex_flight st = []" "t \<in> set (reassemble ?p (ex_trace st))" for t
  proof -
    have "Some t \<in> set (map (\<lambda>s. ex_trace st (step_id s)) ?p)"
      unfolding trace [OF that(1), symmetric] using that(2) by simp
    then obtain s where "s \<in> set ?p" "ex_trace st (step_id s) = Some t" by auto
    then show ?thesis using core(7) [of "step_id s"] all [OF that(1)] by auto
  qed
  have "n \<le> 3 * length ?p" using inv(2) by simp
  moreover have "ex_flight st \<noteq> [] \<longrightarrow> (\<exists>l. exec_next ne nd ee l st \<noteq> None)"
    using exec_progress [OF inv(1)] by blast
  ultimately show ?thesis
    using all trace finished unfolding exec_result_def plan_run.simps by blast
qed

text \<open>
  C7 (executor termination). Every run of a validated plan ends within three transitions per
  step and is never stuck before that. When nothing is in flight any more, every step is on the
  blackboard, and the trace has the entry of every step, with its result or error, in plan order.
\<close>

theorem executor_completes:
  assumes "exec_reach ne nd ee log w n st" "validate_plan js cat (ee_plan ee) = Some (Inr ())"
  shows "n \<le> 3 * length (ee_plan ee)
    \<and> (ex_flight st \<noteq> [] \<longrightarrow> (\<exists>l. exec_next ne nd ee l st \<noteq> None))
    \<and> (ex_flight st = [] \<longrightarrow> dom (run_blackboard (exec_result ee st)) = step_id ` set (ee_plan ee)
        \<and> map Some (run_trace (exec_result ee st)) = map (\<lambda>s. ex_trace st (step_id s)) (ee_plan ee)
        \<and> (\<forall>t\<in>set (run_trace (exec_result ee st)). te_result t \<noteq> None \<or> te_error t \<noteq> None))"
  using assms by (rule executor_runs_out)

lemma toy_valid: "validate_plan (\<lambda>_. Inl []) (ee_catalog toy_exec) (ee_plan toy_exec) = Some (Inr ())"
  by code_simp

lemma executor_completes_witness:
  "ex_flight (exec_init toy_exec [] toy_blobs) \<noteq> []
    \<and> (\<exists>l. exec_next toy_node_env toy_node toy_exec l (exec_init toy_exec [] toy_blobs) \<noteq> None)"
proof -
  have "map fst (ex_flight (exec_init toy_exec [] toy_blobs)) = [''s1'']" by code_simp
  then have flying: "ex_flight (exec_init toy_exec [] toy_blobs) \<noteq> []" by auto
  with executor_completes [OF exec_reach.start [of toy_node_env toy_node] toy_valid, of "[]" toy_blobs]
  show ?thesis by blast
qed

text \<open>
  (results that look like templates). A step whose only argument is one reference fails as
  having an unresolved template when the value it refers to, found on the blackboard, is a text
  with \<open>${..}\<close> in it.
\<close>

theorem template_like_result_fails:
  assumes "distinct (map step_id (ee_plan ee))" "s \<in> set (ee_plan ee)" "step_args s = JStr t"
    and "plan_whole_template t = Some p" "lookup_path p (ex_blackboard st) = Some v"
    and "first_unresolved_template v = Some u"
  shows "last (ex_flight (spawn_step ee (step_id s) st))
      = (step_id s, Completed (Inl (unresolved_error (step_id s) u)))
    \<and> map_option te_args (ex_trace (spawn_step ee (step_id s) st) (step_id s)) = Some v"
  using assms(3-6) by (simp add: spawn_step_def steps_by_id [OF assms(1,2)] put_step_def)

definition toy_consumer :: exec_env where
  "toy_consumer = toy_exec\<lparr>ee_plan := [toy_step ''s1'' ''x'', toy_step ''s2'' ''${s1}'']\<rparr>"

lemma template_like_result_fails_witness:
  "last (ex_flight (spawn_step toy_consumer (step_id (toy_step ''s2'' ''${s1}''))
      ((exec_init toy_consumer [] toy_blobs)\<lparr>ex_blackboard := [''s1'' \<mapsto> JStr ''use ${HOME}'']\<rparr>)))
      = (step_id (toy_step ''s2'' ''${s1}''),
         Completed (Inl (unresolved_error (step_id (toy_step ''s2'' ''${s1}'')) ''${HOME}'')))
    \<and> map_option te_args (ex_trace (spawn_step toy_consumer (step_id (toy_step ''s2'' ''${s1}''))
      ((exec_init toy_consumer [] toy_blobs)\<lparr>ex_blackboard := [''s1'' \<mapsto> JStr ''use ${HOME}'']\<rparr>))
        (step_id (toy_step ''s2'' ''${s1}''))) = Some (JStr ''use ${HOME}'')"
proof (rule template_like_result_fails)
  show "distinct (map step_id (ee_plan toy_consumer))" by (simp add: toy_consumer_def toy_step_def)
  show "toy_step ''s2'' ''${s1}'' \<in> set (ee_plan toy_consumer)" by (simp add: toy_consumer_def)
  show "step_args (toy_step ''s2'' ''${s1}'') = JStr ''${s1}''" by (simp add: toy_step_def)
  show "plan_whole_template ''${s1}'' = Some ''s1''" by code_simp
  show "lookup_path ''s1'' (ex_blackboard ((exec_init toy_consumer [] toy_blobs)
      \<lparr>ex_blackboard := [''s1'' \<mapsto> JStr ''use ${HOME}'']\<rparr>)) = Some (JStr ''use ${HOME}'')"
    by (simp add: lookup_path_def)
  show "first_unresolved_template (JStr ''use ${HOME}'') = Some ''${HOME}''" by code_simp
qed

end
