(* ===== verification/Node_Mention.thy ===== *)
theory Node_Mention
  imports Planner_Refs
begin

text \<open>
  \<open>crates/node/src/mention.rs\<close>: the scoping mentions a user types, \<open>@type:value\<close>. The loop of
  \<open>parse_mentions\<close> is a recursion on the byte offset it resumes at; it ends because a mention
  found at an \<open>@\<close> spans more than that byte. Which characters Unicode calls alphanumeric is a
  parameter of \<open>is_scope_only\<close>.
\<close>

section \<open>Mentions\<close>

datatype mention_kind = MFile | MPeer | MLobe | MCap

definition kind_of_prefix :: "string \<Rightarrow> mention_kind option" where
  "kind_of_prefix s =
     (if s = ''file'' then Some MFile
      else if s = ''peer'' then Some MPeer
      else if s = ''lobe'' then Some MLobe
      else if s = ''cap'' then Some MCap
      else None)"

fun kind_str :: "mention_kind \<Rightarrow> string" where
  "kind_str MFile = ''file''"
| "kind_str MPeer = ''peer''"
| "kind_str MLobe = ''lobe''"
| "kind_str MCap = ''cap''"

record mention =
  mn_kind :: mention_kind
  mn_entity :: string
  mn_capability :: "string option"
  mn_span :: "nat \<times> nat"

definition TRAILING_PUNCTUATION :: string where
  "TRAILING_PUNCTUATION = ''.,;:!?)]}'' @ [CHR 0x22, CHR 0x27]"

definition quote_if_needed :: "string \<Rightarrow> string" where
  "quote_if_needed v =
     (if list_ex is_whitespace (chars v) \<or> (v \<noteq> [] \<and> last v \<in> set TRAILING_PUNCTUATION) \<or> v = []
      then [CHR 0x22] @ v @ [CHR 0x22] else v)"

definition mention_value :: "mention \<Rightarrow> string" where
  "mention_value m =
     (case mn_capability m of Some cap \<Rightarrow> mn_entity m @ ''/'' @ cap | None \<Rightarrow> mn_entity m)"

definition to_token :: "mention \<Rightarrow> string" where
  "to_token m = ''@'' @ kind_str (mn_kind m) @ '':'' @ quote_if_needed (mention_value m)"

section \<open>Parsing\<close>

text \<open>\<open>s.find(char::is_whitespace)\<close>, or the end of the text.\<close>

definition word_end :: "string \<Rightarrow> nat" where
  "word_end s = length (concat (takeWhile (\<lambda>ch. \<not> is_whitespace ch) (chars s)))"

definition trim_trailing :: "string \<Rightarrow> string" where
  "trim_trailing s = rev (dropWhile (\<lambda>c. c \<in> set TRAILING_PUNCTUATION) (rev s))"

text \<open>The value after the colon and the bytes it takes, quotes included.\<close>

definition read_value :: "string \<Rightarrow> (string \<times> nat) option" where
  "read_value after =
     (case strip_prefix [CHR 0x22] after of
        Some body \<Rightarrow>
          (case find_char (CHR 0x22) body of
             Some close \<Rightarrow> Some (take close body, close + 2)
           | None \<Rightarrow> None)
      | None \<Rightarrow>
          let v = trim_trailing (take (word_end after) after) in Some (v, length v))"

definition split_entity :: "mention_kind \<Rightarrow> string \<Rightarrow> (string \<times> string option) option" where
  "split_entity k v =
     (if k = MFile \<or> k = MCap then Some (v, None)
      else (case split_once (CHR ''/'') v of
              Some (e, cap) \<Rightarrow>
                if e \<noteq> [] \<and> cap \<noteq> [] then Some (e, Some cap)
                else if e \<noteq> [] then Some (e, None)
                else None
            | None \<Rightarrow> Some (v, None)))"

definition opens_token :: "string \<Rightarrow> nat \<Rightarrow> bool" where
  "opens_token text a \<longleftrightarrow> a = 0 \<or> is_whitespace (last (chars (take a text)))"

definition mention_at :: "string \<Rightarrow> nat \<Rightarrow> mention option" where
  "mention_at text a =
     (if \<not> opens_token text a then None
      else let rest = drop (a + 1) text in
        (case find_char (CHR '':'') rest of
           None \<Rightarrow> None
         | Some colon \<Rightarrow>
             (case kind_of_prefix (take colon rest) of
                None \<Rightarrow> None
              | Some k \<Rightarrow>
                  (case read_value (drop (colon + 1) rest) of
                     None \<Rightarrow> None
                   | Some (v, n) \<Rightarrow>
                       if v = [] then None
                       else (case split_entity k v of
                               None \<Rightarrow> None
                             | Some (e, cap) \<Rightarrow>
                                 Some \<lparr>mn_kind = k, mn_entity = e, mn_capability = cap,
                                       mn_span = (a, a + 1 + (colon + 1 + n))\<rparr>)))))"

lemma mention_at_span:
  "mention_at text a = Some m \<Longrightarrow> fst (mn_span m) = a \<and> a + 1 < snd (mn_span m)"
  by (auto simp: mention_at_def Let_def split: if_splits option.splits)

function parse_from :: "string \<Rightarrow> nat \<Rightarrow> mention list" where
  "parse_from text i =
     (case find_char (CHR ''@'') (drop i text) of
        None \<Rightarrow> []
      | Some rel \<Rightarrow>
          (case mention_at text (i + rel) of
             None \<Rightarrow> parse_from text (i + rel + 1)
           | Some m \<Rightarrow> m # parse_from text (snd (mn_span m))))"
  by pat_completeness auto

termination
proof (relation "measure (\<lambda>(text, i). length text - i)", goal_cases)
  case (2 src i rel)
  then show ?case by (auto dest!: find_char_Some)
next
  case (3 src i rel m)
  then show ?case by (auto dest!: find_char_Some mention_at_span)
qed simp

declare parse_from.simps [simp del]

definition parse_mentions :: "string \<Rightarrow> mention list" where
  "parse_mentions text = parse_from text 0"

section \<open>What a message asks for\<close>

definition slice :: "string \<Rightarrow> nat \<Rightarrow> nat \<Rightarrow> string" where
  "slice s a b = take (b - a) (drop a s)"

definition strip_mentions :: "string \<Rightarrow> string" where
  "strip_mentions text =
     (case fold (\<lambda>m (out, cursor). (out @ slice text cursor (fst (mn_span m)), snd (mn_span m)))
        (parse_mentions text) ([], 0) of
        (out, cursor) \<Rightarrow> trim (out @ drop cursor text))"

definition is_scope_only :: "(string \<Rightarrow> bool) \<Rightarrow> string \<Rightarrow> bool" where
  "is_scope_only alphanumeric text =
     (if parse_mentions text = [] then False
      else \<not> list_ex alphanumeric (chars (strip_mentions text)))"

record mention_scope =
  ms_peers :: "string list"
  ms_lobes :: "string list"
  ms_caps :: "string list"
  ms_files :: "string list"

definition scope_is_empty :: "mention_scope \<Rightarrow> bool" where
  "scope_is_empty sc \<longleftrightarrow> ms_peers sc = [] \<and> ms_lobes sc = [] \<and> ms_caps sc = []"

definition push_unique :: "'a \<Rightarrow> 'a list \<Rightarrow> 'a list" where
  "push_unique x v = (if x \<in> set v then v else v @ [x])"

definition scope_add :: "mention \<Rightarrow> mention_scope \<Rightarrow> mention_scope" where
  "scope_add m sc =
     (let sc1 = (case mn_kind m of
           MFile \<Rightarrow> sc\<lparr>ms_files := push_unique (mn_entity m) (ms_files sc)\<rparr>
         | MPeer \<Rightarrow> sc\<lparr>ms_peers := push_unique (mn_entity m) (ms_peers sc)\<rparr>
         | MLobe \<Rightarrow> sc\<lparr>ms_lobes := push_unique (mn_entity m) (ms_lobes sc)\<rparr>
         | MCap \<Rightarrow> sc\<lparr>ms_caps := push_unique (mn_entity m) (ms_caps sc)\<rparr>)
      in (case mn_capability m of
            Some cap \<Rightarrow> sc1\<lparr>ms_caps := push_unique cap (ms_caps sc1)\<rparr>
          | None \<Rightarrow> sc1))"

definition empty_scope :: mention_scope where
  "empty_scope = \<lparr>ms_peers = [], ms_lobes = [], ms_caps = [], ms_files = []\<rparr>"

definition scope_from_text :: "string \<Rightarrow> mention_scope" where
  "scope_from_text text = fold scope_add (parse_mentions text) empty_scope"

section \<open>Lemmas\<close>

lemma length_word_end: "word_end s \<le> length s"
proof -
  have "length (concat (takeWhile P xs)) \<le> length (concat xs)" for P and xs :: "string list"
    by (induction xs) auto
  then show ?thesis unfolding word_end_def by (metis concat_chars)
qed

lemma word_end_all:
  assumes "\<not> list_ex is_whitespace (chars s)"
  shows "word_end s = length s"
proof -
  have "takeWhile (\<lambda>ch. \<not> is_whitespace ch) (chars s) = chars s"
    using assms unfolding takeWhile_eq_all_conv list_ex_iff by blast
  then show ?thesis unfolding word_end_def by (simp only: concat_chars)
qed

lemma length_trim_trailing: "length (trim_trailing s) \<le> length s"
  by (simp add: trim_trailing_def) (metis length_dropWhile_le length_rev)

lemma trim_trailing_id: "s \<noteq> [] \<Longrightarrow> last s \<notin> set TRAILING_PUNCTUATION \<Longrightarrow> trim_trailing s = s"
  by (cases s rule: rev_cases) (auto simp: trim_trailing_def)

lemma read_value_bound:
  assumes "read_value s = Some (v, n)"
  shows "n \<le> length s"
proof (cases "strip_prefix [CHR 0x22] s")
  case None
  then have "v = trim_trailing (take (word_end s) s)" "n = length v"
    using assms by (auto simp: read_value_def Let_def)
  then show ?thesis using length_trim_trailing [of "take (word_end s) s"] by simp
next
  case (Some body)
  then have s: "s = CHR 0x22 # body" by (simp add: strip_prefix_Some)
  obtain close where "find_char (CHR 0x22) body = Some close" "n = close + 2"
    using assms Some by (auto simp: read_value_def split: option.splits)
  then show ?thesis using find_char_Some s by fastforce
qed

lemma read_quoted: "CHR 0x22 \<notin> set v \<Longrightarrow> read_value (CHR 0x22 # v @ CHR 0x22 # s) = Some (v, length v + 2)"
  by (simp add: read_value_def strip_prefix_def starts_with_def find_char_append)

lemma read_bare:
  assumes "CHR 0x22 \<notin> set v" "\<not> list_ex is_whitespace (chars v)" "v \<noteq> []"
    "last v \<notin> set TRAILING_PUNCTUATION"
  shows "read_value v = Some (v, length v)"
proof -
  have "strip_prefix [CHR 0x22] v = None"
    using assms(1,3) by (cases v) (auto simp: strip_prefix_def starts_with_def)
  then show ?thesis
    using word_end_all [OF assms(2)] trim_trailing_id [OF assms(3,4)] by (simp add: read_value_def Let_def)
qed

lemma read_quote_if_needed:
  assumes "CHR 0x22 \<notin> set v"
  shows "read_value (quote_if_needed v) = Some (v, length (quote_if_needed v))"
  using read_quoted [OF assms, of "[]"] read_bare [OF assms] by (auto simp: quote_if_needed_def)

lemma mention_at_bound:
  assumes "mention_at text a = Some m"
  shows "snd (mn_span m) \<le> length text"
proof -
  let ?rest = "drop (a + 1) text"
  obtain colon k v n where c: "find_char (CHR '':'') ?rest = Some colon"
    "read_value (drop (colon + 1) ?rest) = Some (v, n)" "snd (mn_span m) = a + 1 + (colon + 1 + n)"
    using assms by (auto simp: mention_at_def Let_def split: if_splits option.splits prod.splits)
  have "colon < length ?rest" using find_char_Some [OF c(1)] by simp
  moreover have "n \<le> length (drop (colon + 1) ?rest)" using read_value_bound [OF c(2)] .
  ultimately show ?thesis using c(3) by simp
qed

text \<open>Where the mentions of a text lie: in order, apart, and inside it.\<close>

definition spans_from :: "nat \<Rightarrow> mention list \<Rightarrow> nat \<Rightarrow> bool" where
  "spans_from i ms n \<longleftrightarrow>
     sorted_wrt (\<lambda>m m'. snd (mn_span m) \<le> fst (mn_span m')) ms
     \<and> list_all (\<lambda>m. i \<le> fst (mn_span m) \<and> fst (mn_span m) < snd (mn_span m) \<and> snd (mn_span m) \<le> n) ms"

lemma spans_from_mono: "spans_from j ms n \<Longrightarrow> i \<le> j \<Longrightarrow> spans_from i ms n"
  by (auto simp: spans_from_def list_all_iff)

lemma parse_from_spans: "spans_from i (parse_from src i) (length src)"
proof (induction src i rule: parse_from.induct)
  case (1 src i)
  show ?case
  proof (cases "find_char (CHR ''@'') (drop i src)")
    case None
    then show ?thesis by (simp add: parse_from.simps spans_from_def)
  next
    case (Some rel)
    show ?thesis
    proof (cases "mention_at src (i + rel)")
      case None
      have "spans_from (i + rel + 1) (parse_from src (i + rel + 1)) (length src)"
        using 1(1) [OF Some None] .
      then show ?thesis
        using Some None by (subst parse_from.simps) (auto intro: spans_from_mono)
    next
      case m: (Some m)
      have "spans_from (snd (mn_span m)) (parse_from src (snd (mn_span m))) (length src)"
        using 1(2) [OF Some m] .
      then show ?thesis
        using Some m mention_at_span [OF m] mention_at_bound [OF m]
        by (subst parse_from.simps) (auto simp: spans_from_def list_all_iff)
    qed
  qed
qed

lemma parse_from_kinds:
  assumes "m \<in> set (parse_from src i)"
  shows "\<exists>a. mention_at src a = Some m \<and> src ! a = CHR ''@'' \<and> a < length src"
  using assms
proof (induction src i rule: parse_from.induct)
  case (1 src i)
  show ?case
  proof (cases "find_char (CHR ''@'') (drop i src)")
    case None
    then show ?thesis using "1.prems" by (simp add: parse_from.simps)
  next
    case (Some rel)
    have here: "src ! (i + rel) = CHR ''@''" "i + rel < length src"
      using find_char_Some [OF Some] by auto
    show ?thesis
    proof (cases "mention_at src (i + rel)")
      case None
      have "m \<in> set (parse_from src (i + rel + 1))"
        using "1.prems" Some None by (subst (asm) parse_from.simps) simp
      then show ?thesis using "1.IH"(1) [OF Some None] by blast
    next
      case x: (Some x)
      have "m = x \<or> m \<in> set (parse_from src (snd (mn_span x)))"
        using "1.prems" Some x by (subst (asm) parse_from.simps) simp
      then show ?thesis using "1.IH"(2) [OF Some x] here x by blast
    qed
  qed
qed

lemma push_unique_set [simp]: "set (push_unique x v) = insert x (set v)"
  by (auto simp: push_unique_def)

lemma push_unique_distinct [simp]: "distinct (push_unique x v) \<longleftrightarrow> distinct v"
  by (auto simp: push_unique_def)

section \<open>Properties\<close>

text \<open>A mention the composer can spell: no quote, and no empty or misplaced tail.\<close>

definition mention_ok :: "mention \<Rightarrow> bool" where
  "mention_ok m \<longleftrightarrow> CHR 0x22 \<notin> set (mention_value m) \<and> mn_entity m \<noteq> []
     \<and> (if mn_kind m = MFile \<or> mn_kind m = MCap then mn_capability m = None
        else CHR ''/'' \<notin> set (mn_entity m) \<and> mn_capability m \<noteq> Some [])"

lemma split_entity_value:
  assumes "mention_ok m"
  shows "split_entity (mn_kind m) (mention_value m) = Some (mn_entity m, mn_capability m)"
proof (cases "mn_kind m = MFile \<or> mn_kind m = MCap")
  case True
  then show ?thesis using assms by (auto simp: mention_ok_def split_entity_def mention_value_def)
next
  case False
  then have m: "CHR ''/'' \<notin> set (mn_entity m)" "mn_capability m \<noteq> Some []" "mn_entity m \<noteq> []"
    using assms by (auto simp: mention_ok_def)
  show ?thesis
  proof (cases "mn_capability m")
    case None
    then have "find_char (CHR ''/'') (mention_value m) = None"
      using m(1) by (simp add: mention_value_def find_char_None)
    then show ?thesis using False None by (simp add: split_entity_def split_once_def mention_value_def)
  next
    case (Some cap)
    then have "mention_value m = mn_entity m @ CHR ''/'' # cap" by (simp add: mention_value_def)
    moreover have "find_char (CHR ''/'') (mn_entity m @ CHR ''/'' # cap) = Some (length (mn_entity m))"
      using m(1) by (rule find_char_append)
    ultimately show ?thesis using False Some m(2,3) by (simp add: split_entity_def split_once_def)
  qed
qed

lemma kind_str_roundtrip: "kind_of_prefix (kind_str k) = Some k" "CHR '':'' \<notin> set (kind_str k)"
  by (cases k; simp add: kind_of_prefix_def)+

lemma mention_at_token:
  assumes "mention_ok m" "opens_token (pre @ to_token m) (length pre)"
  shows "mention_at (pre @ to_token m) (length pre)
    = Some (m\<lparr>mn_span := (length pre, length (pre @ to_token m))\<rparr>)"
proof -
  let ?k = "kind_str (mn_kind m)" and ?q = "quote_if_needed (mention_value m)"
  have rest: "drop (length pre + 1) (pre @ to_token m) = ?k @ CHR '':'' # ?q"
    by (simp add: to_token_def)
  have colon: "find_char (CHR '':'') (?k @ CHR '':'' # ?q) = Some (length ?k)"
    using kind_str_roundtrip(2) by (rule find_char_append)
  have "CHR 0x22 \<notin> set (mention_value m)" "mention_value m \<noteq> []"
    using assms(1) by (auto simp: mention_ok_def mention_value_def split: option.splits)
  note token = this
  have parts: "take (length ?k) (?k @ CHR '':'' # ?q) = ?k" "drop (length ?k + 1) (?k @ CHR '':'' # ?q) = ?q"
    by simp_all
  have len: "length (pre @ to_token m) = length pre + 1 + (length ?k + 1 + length ?q)"
    by (simp add: to_token_def)
  show ?thesis
    unfolding mention_at_def rest Let_def colon option.case parts kind_str_roundtrip(1)
      read_quote_if_needed [OF token(1)] prod.case split_entity_value [OF assms(1)] len
    using assms(2) token(2) by simp
qed


definition sample_mention :: mention where
  "sample_mention = \<lparr>mn_kind = MPeer, mn_entity = ''tool box'', mn_capability = Some ''sum!'', mn_span = (0, 0)\<rparr>"


text \<open>
  (where mentions lie). The mentions of a text come in order, do not overlap, and stay inside
  it; each starts at an \<open>@\<close> that opens a token, so an address such as \<open>bob@example.com\<close> is none.
\<close>

theorem mentions_lie_apart:
  "sorted_wrt (\<lambda>m m'. snd (mn_span m) \<le> fst (mn_span m')) (parse_mentions s)
   \<and> list_all (\<lambda>m. fst (mn_span m) < snd (mn_span m) \<and> snd (mn_span m) \<le> length s
       \<and> s ! fst (mn_span m) = CHR ''@'' \<and> opens_token s (fst (mn_span m))) (parse_mentions s)"
proof
  show "sorted_wrt (\<lambda>m m'. snd (mn_span m) \<le> fst (mn_span m')) (parse_mentions s)"
    using parse_from_spans [of 0 s] by (simp add: spans_from_def parse_mentions_def)
  have "fst (mn_span m) < snd (mn_span m) \<and> snd (mn_span m) \<le> length s
      \<and> s ! fst (mn_span m) = CHR ''@'' \<and> opens_token s (fst (mn_span m))"
    if m: "m \<in> set (parse_mentions s)" for m
  proof -
    obtain a where a: "mention_at s a = Some m" "s ! a = CHR ''@''"
      using parse_from_kinds m unfolding parse_mentions_def by blast
    have "opens_token s a" using a(1) by (auto simp: mention_at_def split: if_splits)
    then show ?thesis using mention_at_span [OF a(1)] mention_at_bound [OF a(1)] a(2) by auto
  qed
  then show "list_all (\<lambda>m. fst (mn_span m) < snd (mn_span m) \<and> snd (mn_span m) \<le> length s
      \<and> s ! fst (mn_span m) = CHR ''@'' \<and> opens_token s (fst (mn_span m))) (parse_mentions s)"
    by (simp add: list_all_iff)
qed

text \<open>
  (a mention of a peer always scopes). A text whose mentions are not all of files gives a scope
  that is not empty, and conversely, so the catalog is narrowed exactly when the user asked for it.
\<close>

theorem scope_empty_iff:
  "scope_is_empty (scope_from_text s) = list_all (\<lambda>m. mn_kind m = MFile) (parse_mentions s)"
proof -
  have no_tail: "mn_kind m = MFile \<Longrightarrow> mn_capability m = None" if "m \<in> set (parse_mentions s)" for m
    using parse_from_kinds [of m s 0] that
    by (auto simp: parse_mentions_def mention_at_def Let_def split_entity_def split: if_splits option.splits)
  have "scope_is_empty (fold scope_add ms sc) \<longleftrightarrow> scope_is_empty sc \<and> list_all (\<lambda>m. mn_kind m = MFile) ms"
    if "\<And>m. m \<in> set ms \<Longrightarrow> mn_kind m = MFile \<Longrightarrow> mn_capability m = None" for ms sc
    using that
  proof (induction ms arbitrary: sc)
    case (Cons m ms)
    have "push_unique x v \<noteq> []" for x :: string and v by (auto simp: push_unique_def)
    then have "scope_is_empty (scope_add m sc) \<longleftrightarrow> scope_is_empty sc \<and> mn_kind m = MFile"
      using Cons.prems [of m]
      by (cases "mn_kind m") (auto simp: scope_is_empty_def scope_add_def Let_def split: option.splits)
    then show ?case using Cons.IH [of "scope_add m sc"] Cons.prems by auto
  qed simp
  from this [of "parse_mentions s" empty_scope] no_tail show ?thesis
    by (simp add: scope_from_text_def empty_scope_def scope_is_empty_def)
qed

end
