(* ===== verification/Planner_Dispatch.thy ===== *)
theory Planner_Dispatch
  imports Planner_Compile Planner_Exec Node_Mention
begin

text \<open>
  \<open>crates/node/src/planner/plan_exec.rs\<close>: one dispatch from the user's message to the reply, with
  \<open>planner/mod.rs\<close> (options, events, outcome) and \<open>planner/direct.rs\<close>, which skips the plan. The
  world a dispatch meets is a record: clock readings by the place that takes them, fresh ids, and
  for each round the schedule of the executor, a list of transitions of \<open>Planner_Exec\<close>; a schedule
  that does not run the plan to its end gives \<open>None\<close>, as does a loop that does not return.
  \<open>execute_plan_streaming\<close> has no error return, so the branches that handle one are left out.
  Iterating over a \<open>HashMap\<close> takes its order from the world.
\<close>

section \<open>Types\<close>

definition MAX_CONTEXT_TURNS :: nat where
  "MAX_CONTEXT_TURNS = 16"

definition REMOTE_TOP_K :: nat where
  "REMOTE_TOP_K = 20"

definition MAX_PLAN_ROUNDS :: nat where
  "MAX_PLAN_ROUNDS = 2"

definition CONTINUATION_DEPTH_THRESHOLD :: nat where
  "CONTINUATION_DEPTH_THRESHOLD = 3"

definition MAX_TOTAL_STEPS :: nat where
  "MAX_TOTAL_STEPS = 12"

definition DISPATCH_BUDGET_SECS :: int where
  "DISPATCH_BUDGET_SECS = 300"

definition BLACKBOARD_ENTRY_CAP :: nat where
  "BLACKBOARD_ENTRY_CAP = 1024"

record dispatch_outcome =
  do_reply :: string
  do_model :: "string option"
  do_trace :: "trace_entry list"
  do_rounds :: nat

record plan_step_info =
  si_id :: string
  si_peer_id :: string
  si_peer_short :: string
  si_capability :: string

datatype ui_event =
    PlanReady "plan_step_info list" nat
  | LowConfidence rat
  | StepEvent dispatch_event
  | Reflecting
  | Final string "string option"

datatype clock_point =
    AtUser | AtStart | AtMirror nat nat | AtCheck nat | AtRound nat | AtRoundEnd nat | AtReply | AtClose

record world =
  wd_schema :: json_schema
  wd_clock :: "clock_point \<Rightarrow> int"
  wd_call_uuid :: "nat \<Rightarrow> nat \<Rightarrow> string"
  wd_run_uuid :: "nat \<Rightarrow> string"
  wd_labels :: label_env
  wd_schedule :: "nat \<Rightarrow> exec_label list"
  wd_hash_order :: "string list \<Rightarrow> string list"
  wd_alphanumeric :: "string \<Rightarrow> bool"
  wd_peers :: peer_table

record planner =
  pl_compiler :: compiler
  pl_llm :: "string \<Rightarrow> json \<Rightarrow> (adapter_error, json) result"
  pl_hint :: "string option"
  pl_score :: "catalog \<Rightarrow> string \<Rightarrow> rat list"
  pl_streaming :: bool

text \<open>What a dispatch changes: the conversation, the tables, the log of events, the calls made.\<close>

record dispatch_state =
  dp_conv :: conv_state
  dp_db :: conv_db
  dp_audit :: audit_log
  dp_blobs :: blob_world
  dp_events :: "ui_event list"
  dp_calls :: nat

definition emit :: "planner \<Rightarrow> ui_event \<Rightarrow> dispatch_state \<Rightarrow> dispatch_state" where
  "emit pl e d = (if pl_streaming pl then d\<lparr>dp_events := dp_events d @ [e]\<rparr> else d)"

definition storage_error_text :: "storage_error \<Rightarrow> string" where
  "storage_error_text e = (case e of Constraint s \<Rightarrow> s)"

fun conv_error_text :: "conv_error \<Rightarrow> string" where
  "conv_error_text (ConvStorage e) = ''storage: '' @ storage_error_text e"
| "conv_error_text ConvSerde = ''serde: ''"
| "conv_error_text (ConvNotFound i) = ''conversation not found: '' @ i"
| "conv_error_text OwnershipMismatch = ''ownership mismatch''"

section \<open>Mentions against the directory and the catalog\<close>

record resolved_scope =
  rs_peers :: "string list"
  rs_lobes :: "string list"
  rs_caps :: "string list"
  rs_unresolved :: "string list"

definition narrows :: "resolved_scope \<Rightarrow> bool" where
  "narrows r \<longleftrightarrow> rs_peers r \<noteq> [] \<or> rs_lobes r \<noteq> [] \<or> rs_caps r \<noteq> []"

definition self_matches :: "string \<Rightarrow> string \<Rightarrow> bool" where
  "self_matches self_id key \<longleftrightarrow> self_id = key
     \<or> (case strip_prefix ''n3:'' self_id of Some s \<Rightarrow> 8 \<le> length key \<and> starts_with key s | None \<Rightarrow> False)"

definition peer_hit :: "string \<Rightarrow> peer_table \<Rightarrow> string \<Rightarrow> string option" where
  "peer_hit self_id peers key =
     (if self_matches self_id key then Some self_id
      else if 8 \<le> length key \<or> starts_with ''n3:'' key
      then (case find_by_id_prefix key 2 peers of [r] \<Rightarrow> Some (pr_id r) | _ \<Rightarrow> None)
      else None)"

definition add_peer :: "string \<Rightarrow> peer_table \<Rightarrow> string \<Rightarrow> resolved_scope \<Rightarrow> resolved_scope" where
  "add_peer self_id peers entity r =
     (if to_ascii_lowercase entity = ''self'' then r\<lparr>rs_peers := push_unique self_id (rs_peers r)\<rparr>
      else (case peer_hit self_id peers (last (split_on (CHR ''#'') entity)) of
              Some i \<Rightarrow> r\<lparr>rs_peers := push_unique i (rs_peers r)\<rparr>
            | None \<Rightarrow> r\<lparr>rs_unresolved := rs_unresolved r @ [''@peer:'' @ entity]\<rparr>))"

definition add_lobe :: "catalog \<Rightarrow> string \<Rightarrow> resolved_scope \<Rightarrow> resolved_scope" where
  "add_lobe cat l r =
     (if list_ex (\<lambda>t. l \<in> set (lobe_ids (td_cap t))) cat then r\<lparr>rs_lobes := rs_lobes r @ [l]\<rparr>
      else r\<lparr>rs_unresolved := rs_unresolved r @ [''@lobe:'' @ l]\<rparr>)"

definition add_cap :: "catalog \<Rightarrow> string \<Rightarrow> resolved_scope \<Rightarrow> resolved_scope" where
  "add_cap cat c r =
     (if list_ex (\<lambda>t. cap_name (td_cap t) = c) cat then r\<lparr>rs_caps := rs_caps r @ [c]\<rparr>
      else r\<lparr>rs_unresolved := rs_unresolved r @ [''@cap:'' @ c]\<rparr>)"

definition empty_resolved :: resolved_scope where
  "empty_resolved = \<lparr>rs_peers = [], rs_lobes = [], rs_caps = [], rs_unresolved = []\<rparr>"

definition resolve_scope :: "string \<Rightarrow> peer_table \<Rightarrow> catalog \<Rightarrow> mention_scope \<Rightarrow> resolved_scope" where
  "resolve_scope self_id peers cat sc =
     fold (add_cap cat) (ms_caps sc)
       (fold (add_lobe cat) (ms_lobes sc) (fold (add_peer self_id peers) (ms_peers sc) empty_resolved))"

section \<open>What the composer is told\<close>

fun floor_boundary :: "string \<Rightarrow> nat \<Rightarrow> nat" where
  "floor_boundary s 0 = 0"
| "floor_boundary s (Suc n) = (if is_char_boundary s (Suc n) then Suc n else floor_boundary s n)"

definition render_blackboard_value :: "(json \<Rightarrow> string) \<Rightarrow> json \<Rightarrow> string" where
  "render_blackboard_value show v =
     (let refs = collect_blob_refs v in
      if refs \<noteq> [] then join ''; '' (map (\<lambda>b. ''blob '' @ br_hash b @ '' ('' @ dec (unat (br_size b)) @ '' B, ''
           @ br_mime b @ '')'') refs)
      else let s = show v in
        if length s \<le> BLACKBOARD_ENTRY_CAP then s
        else take (floor_boundary s BLACKBOARD_ENTRY_CAP) s @ prompt [''~[truncated, ''] @ dec (length s)
          @ '' bytes]'')"

definition summary_line :: "(json \<Rightarrow> string) \<Rightarrow> trace_entry \<Rightarrow> string" where
  "summary_line show e =
     ''- '' @ short_peer (te_peer_id e) @ ''::'' @ te_capability e @ prompt ['' | '']
     @ (case te_result e of
          Some v \<Rightarrow> render_blackboard_value show v
        | None \<Rightarrow> (case te_error e of Some err \<Rightarrow> ''ERROR: '' @ err | None \<Rightarrow> ''(no result)''))
     @ [CHR 0x0A]"

definition blackboard_summary :: "(json \<Rightarrow> string) \<Rightarrow> trace_entry list \<Rightarrow> string" where
  "blackboard_summary show tr = concat (map (summary_line show) tr)"

definition reference_lines :: "(json \<Rightarrow> string) \<Rightarrow> string \<times> json \<Rightarrow> string" where
  "reference_lines show e =
     (case snd e of
        JObj fs \<Rightarrow> concat (map (\<lambda>(f, v). ''  ${'' @ fst e @ ''.'' @ f @ ''} = ''
            @ render_blackboard_value show v @ [CHR 0x0A]) fs)
      | v \<Rightarrow> ''  ${'' @ fst e @ ''} = '' @ render_blackboard_value show v @ [CHR 0x0A])"

definition referenceable_values :: "(json \<Rightarrow> string) \<Rightarrow> (string \<times> json) list \<Rightarrow> string" where
  "referenceable_values show bb = concat (map (reference_lines show) (sort_key fst bb))"

definition REFLECT_PROMPT :: string where
  "REFLECT_PROMPT = prompt [
     ''You are an n3ur0n response composer. The user asked a question and a plan was executed; you '',
     ''now have the executor's blackboard (all step results). Write the final reply for the user '',
     ''in plain text. Use the user's language. Do NOT emit JSON, do NOT call any tool, do NOT '',
     ''re-explain the plan unless the user asked for it. Be concise and use the actual values from '',
     ''the blackboard.%%Honesty rules & non-negotiable:%- The blackboard is the complete record of '',
     ''what happened. You performed no action yourself: you cannot open, display, download, send '',
     ''or modify anything. Never write that you did. If the blackboard is empty, nothing was done '',
     ''at all & say so.%- If the user asked for a side-effect action (sending email, posting, '',
     ''payments, modifying files, calling an external service) and no tool capable of performing '',
     ''it ran successfully, say plainly that you cannot perform it. Do NOT pretend the action was '',
     ''done.%- Never invent a request the user did not make. If the message does not ask for '',
     ''anything, ask what they want instead of assuming.%- If a tool step failed but the user gave '',
     ''the data directly (a literal string in the prompt, a number, etc.), compute the answer '',
     ''yourself from that data when you can. Tool failures on simple known data don't excuse you '',
     ''from answering.%- Acknowledge step errors when they prevented you from gathering data the '',
     ''user genuinely needed.'']"

definition QUOTING_HEAD :: string where
  "QUOTING_HEAD = prompt [
     ''%%To state any of these values, write its reference and nothing else & the system replaces '',
     ''it with the exact value:%'']"

definition QUOTING_TAIL :: string where
  "QUOTING_TAIL = prompt [
     ''%Never retype or recompute a value yourself. A reversed string, a hash, an id or a '',
     ''timestamp retyped from memory will be wrong.'']"

definition UNRESOLVED_HEAD :: string where
  "UNRESOLVED_HEAD = prompt [
     ''These mentions in the user's message matched nothing known to this node: '']"

definition UNRESOLVED_TAIL :: string where
  "UNRESOLVED_TAIL = prompt [
     ''. Say so plainly, in their language, before answering with whatever you could do. Do not '',
     ''pretend they exist, and do not silently substitute something else for them.'']"

definition SCOPE_ONLY :: string where
  "SCOPE_ONLY = prompt [
     ''The user's message contains only scoping mentions and no request. Do not guess what they '',
     ''want and do not claim anything was done. Ask them what they would like, in their language.'']"

text \<open>The tail without its last user message: the request is stated once, at the end.\<close>

definition is_user_message :: "json \<Rightarrow> bool" where
  "is_user_message m \<longleftrightarrow> json_get ''role'' m = Some (JStr ''user'')"

fun remove_last :: "('a \<Rightarrow> bool) \<Rightarrow> 'a list \<Rightarrow> 'a list" where
  "remove_last p [] = []"
| "remove_last p (x # xs) =
     (if list_ex p xs then x # remove_last p xs else if p x then xs else x # xs)"

definition blackboard_message :: "(json \<Rightarrow> string) \<Rightarrow> string \<Rightarrow> (string \<times> json) list \<Rightarrow> json" where
  "blackboard_message show summary bb =
     (let refs = referenceable_values show bb;
          quoting = (if refs = [] then [] else QUOTING_HEAD @ refs @ QUOTING_TAIL)
      in llm_message ''system'' (''Blackboard from this dispatch:'' @ [CHR 0x0A] @ summary @ quoting))"

definition reflect_messages ::
  "(json \<Rightarrow> string) \<Rightarrow> (string \<Rightarrow> bool) \<Rightarrow> conv_state \<Rightarrow> string \<Rightarrow> (string \<times> (string \<times> json) list) option
     \<Rightarrow> string list \<Rightarrow> json list" where
  "reflect_messages show alnum cs msg bb unresolved =
     [llm_message ''system'' REFLECT_PROMPT]
     @ remove_last is_user_message (to_chat_messages show MAX_CONTEXT_TURNS cs)
     @ (case bb of Some (summary, entries) \<Rightarrow> [blackboard_message show summary entries] | None \<Rightarrow> [])
     @ (if unresolved = [] then []
        else [llm_message ''system'' (UNRESOLVED_HEAD @ join '', '' unresolved @ UNRESOLVED_TAIL)])
     @ (if is_scope_only alnum msg then [llm_message ''system'' SCOPE_ONLY] else [])
     @ [llm_message ''user'' msg]"

definition reply_text :: "(json \<Rightarrow> string) \<Rightarrow> (string \<times> json) list option \<Rightarrow> string \<Rightarrow> string" where
  "reply_text show bb raw =
     (case bb of
        Some entries \<Rightarrow>
          (case as_str (resolve_value show (map_of entries) (JStr raw)) of Some s \<Rightarrow> s | None \<Rightarrow> [])
      | None \<Rightarrow> raw)"

definition reflect_only ::
  "('b, 'x) node_env_scheme \<Rightarrow> world \<Rightarrow> planner \<Rightarrow> string \<Rightarrow> (string \<times> (string \<times> json) list) option
     \<Rightarrow> string list \<Rightarrow> trace_entry list \<Rightarrow> nat \<Rightarrow> dispatch_state
     \<Rightarrow> (node_error, dispatch_outcome) result \<times> dispatch_state" where
  "reflect_only ne wd pl msg bb unresolved tr rounds d0 =
     (let d = emit pl Reflecting d0;
          args = json_obj ([(''messages'', JArr (reflect_messages (serde_text ne) (wd_alphanumeric wd) (dp_conv d)
                     msg bb unresolved)), (''temperature'', JFloat ''0.2'')] @ opt_entry ''model'' JStr (pl_hint pl))
      in (case pl_llm pl ''chat'' args of
            Inl e \<Rightarrow> (Inl (Adapter e), d)
          | Inr resp \<Rightarrow>
              (let raw = trim (case resp_content resp of Some c \<Rightarrow> c | None \<Rightarrow> []);
                   content = reply_text (serde_text ne) (map_option snd bb) raw;
                   used = (case Option.bind (json_get ''model'' resp) as_str of Some m \<Rightarrow> Some m | None \<Rightarrow> pl_hint pl);
                   cs = push_assistant content used (wd_clock wd AtReply) (dp_conv d)
               in (case persist_last ne cs (dp_db d) of
                     (Inl e, db) \<Rightarrow> (Inl (InvalidPayload (''persist assistant: '' @ conv_error_text e)),
                       d\<lparr>dp_conv := cs, dp_db := db\<rparr>)
                   | (Inr _, db) \<Rightarrow>
                       (Inr \<lparr>do_reply = content, do_model = used, do_trace = tr, do_rounds = rounds\<rparr>,
                        emit pl (Final content used) (d\<lparr>dp_conv := cs, dp_db := db\<rparr>))))))"

section \<open>Rounds\<close>

definition invocation_fingerprint :: "(json \<Rightarrow> string) \<Rightarrow> string \<Rightarrow> string \<Rightarrow> json \<Rightarrow> string" where
  "invocation_fingerprint show p c args = p @ ''::'' @ c @ ''::'' @ show args"

definition executed_invocations :: "(json \<Rightarrow> string) \<Rightarrow> trace_entry list \<Rightarrow> string list" where
  "executed_invocations show tr =
     map (\<lambda>e. invocation_fingerprint show (te_peer_id e) (te_capability e) (te_args e)) tr"

definition adds_nothing :: "(json \<Rightarrow> string) \<Rightarrow> plan \<Rightarrow> trace_entry list \<Rightarrow> catalog \<Rightarrow> bool" where
  "adds_nothing show p tr cat =
     (if tr = [] then False
      else list_all (\<lambda>s.
        if collect_refs (step_args s) \<noteq> [] then False
        else (case catalog_find (step_tool s) cat of
                None \<Rightarrow> False
              | Some t \<Rightarrow> invocation_fingerprint show (td_peer_id t) (step_capability s) (step_args s)
                  \<in> set (executed_invocations show tr))) p)"

definition continuation_reason :: "trace_entry list \<Rightarrow> nat \<Rightarrow> int \<Rightarrow> string option" where
  "continuation_reason tr depth elapsed =
     (if MAX_TOTAL_STEPS \<le> length tr \<or> DISPATCH_BUDGET_SECS \<le> elapsed then None
      else if list_ex (\<lambda>e. te_error e \<noteq> None) tr then Some ''a step failed''
      else if CONTINUATION_DEPTH_THRESHOLD \<le> depth
      then Some ''plan is deep enough to suspect it stopped short''
      else None)"

definition continuation_message :: "string \<Rightarrow> string \<Rightarrow> string" where
  "continuation_message msg summary = msg @ prompt [
     ''%%[steps already executed] These ran and produced:%'']
     @ summary @ prompt [
     ''%%Plan ONLY what still has to happen, given those results. Do not repeat a step that '',
     ''already ran, and do not re-plan work whose result is above. A step that reports an error '',
     ''has already been attempted and will fail the same way again: do not retry it. Either plan a '',
     ''different route to the same goal, or stop. Every capability listed above has already run; '',
     ''calling it again recomputes a value you already have. If the results are enough to answer '',
     ''the user, return {^plan^: []} & that is the normal ending, not a failure.'']"

definition step_info :: "catalog \<Rightarrow> plan_step \<Rightarrow> plan_step_info" where
  "step_info cat s =
     \<lparr>si_id = step_id s,
      si_peer_id = (case catalog_find (step_tool s) cat of Some t \<Rightarrow> td_peer_id t | None \<Rightarrow> step_peer s),
      si_peer_short = step_peer s, si_capability = step_capability s\<rparr>"

text \<open>The stored form of a plan, in field order.\<close>

definition plan_text_json :: "plan \<Rightarrow> json" where
  "plan_text_json p = JObj [(''plan'', JArr (map (\<lambda>s. JObj
     [(''id'', JStr (step_id s)), (''peer'', JStr (step_peer s)), (''capability'', JStr (step_capability s)),
      (''args'', step_args s), (''depends_on'', enc_list JStr (step_depends s))]) p))]"

definition running_row ::
  "('b, 'x) node_env_scheme \<Rightarrow> world \<Rightarrow> conv_state \<Rightarrow> nat \<Rightarrow> plan \<Rightarrow> int \<Rightarrow> plan_run_record" where
  "running_row ne wd cs rnd p now =
     \<lparr>run_id = ''run_'' @ wd_run_uuid wd rnd, run_conversation_id = cs_id cs,
      plan_json = serde_text ne (plan_text_json p), run_status = ''running'', run_created_at = now,
      finished_at = None\<rparr>"

definition close_run :: "world \<Rightarrow> nat \<Rightarrow> string \<Rightarrow> int \<Rightarrow> conv_db \<Rightarrow> conv_db" where
  "close_run wd rnd st now db =
     (case set_status (''run_'' @ wd_run_uuid wd rnd) st now db of Inl _ \<Rightarrow> db | Inr db' \<Rightarrow> db')"

definition entry_peer :: "string \<Rightarrow> trace_entry \<Rightarrow> string" where
  "entry_peer self_id e = (case parse_instance_id (te_peer_id e) of Inr i \<Rightarrow> i | Inl _ \<Rightarrow> self_id)"

definition entry_pair :: "string \<Rightarrow> trace_entry \<Rightarrow> tool_pair" where
  "entry_pair self_id e =
     \<lparr>tp_call_id = te_call_id e, tp_peer = entry_peer self_id e, tp_capability = te_capability e,
      tp_args = te_args e, tp_result = te_result e, tp_error = te_error e\<rparr>"

text \<open>The durability hook, called for the steps in the order they completed.\<close>

definition persist_hooks ::
  "('b, 'x) node_env_scheme \<Rightarrow> string \<Rightarrow> string \<Rightarrow> int \<Rightarrow> nat \<Rightarrow> int \<Rightarrow> (nat \<times> trace_entry) list \<Rightarrow> conv_db \<Rightarrow> conv_db" where
  "persist_hooks ne self_id conv base_seq offset now hooks db =
     persist_pairs ne conv base_seq now (map (\<lambda>(i, e). (i + offset, entry_pair self_id e)) hooks) db"

definition mirror_entry :: "string \<Rightarrow> (nat \<Rightarrow> int) \<Rightarrow> nat \<times> trace_entry \<Rightarrow> conv_state \<Rightarrow> conv_state" where
  "mirror_entry self_id clock x cs =
     (case x of (k, e) \<Rightarrow> let p = entry_peer self_id e in
        push_tool_result (te_call_id e) p (te_capability e) (te_result e) (te_error e) (clock (2 * k + 1))
          (push_tool_call_with_id (te_call_id e) p (te_capability e) (te_args e) (clock (2 * k)) cs))"

definition mirror_trace :: "string \<Rightarrow> (nat \<Rightarrow> int) \<Rightarrow> trace_entry list \<Rightarrow> conv_state \<Rightarrow> conv_state" where
  "mirror_trace self_id clock tr cs = fold (mirror_entry self_id clock) (zip [0..<length tr] tr) cs"

text \<open>The schedule of a round, run to the end.\<close>

fun exec_labels ::
  "('b, 'x) node_env_scheme \<Rightarrow> 'b node \<Rightarrow> exec_env \<Rightarrow> exec_label list \<Rightarrow> exec_state \<Rightarrow> exec_state option" where
  "exec_labels ne nd ee [] st = (if ex_flight st = [] then Some st else None)"
| "exec_labels ne nd ee (l # ls) st =
     (case exec_next ne nd ee l st of None \<Rightarrow> None | Some st' \<Rightarrow> exec_labels ne nd ee ls st')"

definition round_env ::
  "('b, 'x) node_env_scheme \<Rightarrow> world \<Rightarrow> conv_state \<Rightarrow> catalog \<Rightarrow> nat \<Rightarrow> plan \<Rightarrow> exec_env" where
  "round_env ne wd cs cat rnd p =
     \<lparr>ee_plan = p, ee_catalog = cat, ee_schema = wd_schema wd, ee_show = serde_text ne,
      ee_uuid = wd_call_uuid wd rnd,
      ee_owner = \<lparr>ow_client_id = Some (cs_client_id cs), ow_conversation_id = Some (cs_id cs)\<rparr>,
      ee_labels = wd_labels wd\<rparr>"

text \<open>
  Executing the plan of a round: steps persist as they complete, then the trace is mirrored in
  memory. The result is the trace and the entries of the blackboard.
\<close>

definition execute_round ::
  "('b, 'x) node_env_scheme \<Rightarrow> 'b node \<Rightarrow> world \<Rightarrow> planner \<Rightarrow> catalog \<Rightarrow> nat \<Rightarrow> plan \<Rightarrow> int \<Rightarrow> nat \<Rightarrow> int
     \<Rightarrow> dispatch_state \<Rightarrow> ((trace_entry list \<times> (string \<times> json) list) \<times> dispatch_state) option" where
  "execute_round ne nd wd pl cat rnd p base_seq offset now d =
     (let cs = dp_conv d; self_id = node_id ne nd; ee = round_env ne wd cs cat rnd p in
      case exec_labels ne nd ee (wd_schedule wd rnd) (exec_init ee (dp_audit d) (dp_blobs d)) of
        None \<Rightarrow> None
      | Some st \<Rightarrow>
          (let run = exec_result ee st;
               bb = map (\<lambda>i. (i, the (ex_blackboard st i)))
                 (filter (\<lambda>i. ex_blackboard st i \<noteq> None) (remdups (map step_id p)));
               d1 = fold (\<lambda>e. emit pl (StepEvent e)) (ex_events st) d
           in Some ((run_trace run, bb),
                d1\<lparr>dp_audit := ex_audit st, dp_blobs := ex_blobs st,
                   dp_db := persist_hooks ne self_id (cs_id cs) base_seq offset now (ex_hooks st) (dp_db d1),
                   dp_conv := mirror_trace self_id (\<lambda>k. wd_clock wd (AtMirror rnd k)) (run_trace run) cs\<rparr>)))"

text \<open>Merging a later blackboard: an id already taken gets a suffix.\<close>

definition bb_insert :: "string \<Rightarrow> json \<Rightarrow> (string \<times> json) list \<Rightarrow> (string \<times> json) list" where
  "bb_insert k v bb = (if k \<in> fst ` set bb then map (\<lambda>e. if fst e = k then (k, v) else e) bb else bb @ [(k, v)])"

definition merge_entry :: "nat \<Rightarrow> string \<times> json \<Rightarrow> (string \<times> json) list \<Rightarrow> (string \<times> json) list" where
  "merge_entry rnd e bb =
     bb_insert (if fst e \<in> fst ` set bb then fst e @ ''_r'' @ dec (rnd + 1) else fst e) (snd e) bb"

definition merge_blackboard ::
  "(string list \<Rightarrow> string list) \<Rightarrow> nat \<Rightarrow> (string \<times> json) list \<Rightarrow> (string \<times> json) list \<Rightarrow> (string \<times> json) list" where
  "merge_blackboard order rnd new bb =
     fold (merge_entry rnd) (List.map_filter (\<lambda>i. map_option (Pair i) (map_of new i)) (order (map fst new))) bb"

type_synonym run_acc = "trace_entry list \<times> (string \<times> json) list"

text \<open>The loop over the rounds left. It returns what ran, the compile rounds used and the state.\<close>

fun continue_rounds ::
  "('b, 'x) node_env_scheme \<Rightarrow> 'b node \<Rightarrow> world \<Rightarrow> planner \<Rightarrow> string \<Rightarrow> catalog \<Rightarrow> int \<Rightarrow> int \<Rightarrow> nat \<Rightarrow> nat \<Rightarrow> nat
     \<Rightarrow> run_acc \<Rightarrow> nat \<Rightarrow> dispatch_state \<Rightarrow> (run_acc \<times> nat \<times> dispatch_state) option" where
  "continue_rounds ne nd wd pl msg cat started base_seq 0 rnd depth acc used d = Some (acc, used, d)"
| "continue_rounds ne nd wd pl msg cat started base_seq (Suc k) rnd depth acc used d =
     (case continuation_reason (fst acc) depth (wd_clock wd (AtCheck rnd) - started) of
        None \<Rightarrow> Some (acc, used, d)
      | Some reason \<Rightarrow>
          (let now = wd_clock wd (AtRound rnd);
               msg2 = continuation_message msg (blackboard_summary (serde_text ne) (fst acc))
           in (case pc_compile (pl_compiler pl) (dp_calls d) msg2 cat of
                 Inl e \<Rightarrow> Some (acc, used + 1, d\<lparr>dp_calls := dp_calls d + 1\<rparr>)
               | Inr compiled \<Rightarrow>
                   (case resolve_plan (pl_compiler pl) (wd_schema wd) msg2 cat compiled (dp_calls d + 1) of
                      None \<Rightarrow> None
                    | Some (ValidPlan p, n) \<Rightarrow>
                        (let d1 = d\<lparr>dp_calls := n\<rparr> in
                         if adds_nothing (serde_text ne) p (fst acc) cat then Some (acc, used + 1, d1)
                         else let d2 = emit pl (PlanReady (map (step_info cat) p) (rnd + 1)) d1 in
                           (case run_insert (running_row ne wd (dp_conv d2) (rnd + 1) p now) (dp_db d2) of
                              Inl e \<Rightarrow> Some (acc, used + 1, d2)
                            | Inr db \<Rightarrow>
                                (case execute_round ne nd wd pl cat (rnd + 1) p base_seq (length (fst acc)) now
                                    (d2\<lparr>dp_db := db\<rparr>) of
                                   None \<Rightarrow> None
                                 | Some ((tr, bb), d3) \<Rightarrow>
                                     (let d4 = d3\<lparr>dp_db := close_run wd (rnd + 1) ''done''
                                                (wd_clock wd (AtRoundEnd rnd)) (dp_db d3)\<rparr>
                                      in (case plan_depth p of
                                            None \<Rightarrow> None
                                          | Some depth2 \<Rightarrow>
                                              continue_rounds ne nd wd pl msg cat started base_seq k (rnd + 1) depth2
                                                (fst acc @ tr, merge_blackboard (wd_hash_order wd) rnd bb (snd acc))
                                                (used + 1) d4)))))
                    | Some (_, n) \<Rightarrow> Some (acc, used + 1, d\<lparr>dp_calls := n\<rparr>)))))"

section \<open>A dispatch\<close>

definition scoped_catalog ::
  "('b, 'x) node_env_scheme \<Rightarrow> 'b node \<Rightarrow> world \<Rightarrow> user_input \<Rightarrow> catalog \<times> resolved_scope" where
  "scoped_catalog ne nd wd inp =
     (let cat = catalog_build ne (node_id ne nd) (nd_registry nd) (wd_peers wd) 500;
          sc = scope_from_text (ui_text inp)
      in if scope_is_empty sc then (cat, empty_resolved)
         else let r = resolve_scope (node_id ne nd) (wd_peers wd) cat sc in
           (if narrows r then scoped_to (rs_peers r) (rs_lobes r) (rs_caps r) cat else cat, r))"

text \<open>Running a valid plan, its continuations, and the reply.\<close>

definition run_and_reflect ::
  "('b, 'x) node_env_scheme \<Rightarrow> 'b node \<Rightarrow> world \<Rightarrow> planner \<Rightarrow> string \<Rightarrow> catalog \<Rightarrow> string list \<Rightarrow> plan
     \<Rightarrow> dispatch_state \<Rightarrow> ((node_error, dispatch_outcome) result \<times> dispatch_state) option" where
  "run_and_reflect ne nd wd pl msg cat unresolved p d0 =
     (let d = emit pl (PlanReady (map (step_info cat) p) 1) d0; started = wd_clock wd AtStart in
      case run_insert (running_row ne wd (dp_conv d) 1 p started) (dp_db d) of
        Inl e \<Rightarrow> Some (Inl (InvalidPayload (''insert plan_run: '' @ storage_error_text e)), d)
      | Inr db \<Rightarrow>
          (let base_seq = next_seq (dp_conv d) - 1 in
           case execute_round ne nd wd pl cat 1 p base_seq 0 started (d\<lparr>dp_db := db\<rparr>) of
             None \<Rightarrow> None
           | Some (acc, d1) \<Rightarrow>
               (case plan_depth p of
                  None \<Rightarrow> None
                | Some depth \<Rightarrow>
                    (case continue_rounds ne nd wd pl msg cat started base_seq (MAX_PLAN_ROUNDS - 1) 1 depth acc 1 d1 of
                       None \<Rightarrow> None
                     | Some ((tr, bb), used, d2) \<Rightarrow>
                         (case reflect_only ne wd pl msg (Some (blackboard_summary (serde_text ne) tr, bb))
                             unresolved tr used d2 of
                            (res, d3) \<Rightarrow>
                              Some (res, d3\<lparr>dp_db := close_run wd 1
                                (case res of Inr _ \<Rightarrow> ''done'' | Inl _ \<Rightarrow> ''failed'')
                                (wd_clock wd AtClose) (dp_db d3)\<rparr>))))))"

definition dispatch_inner ::
  "('b, 'x) node_env_scheme \<Rightarrow> 'b node \<Rightarrow> world \<Rightarrow> planner \<Rightarrow> user_input \<Rightarrow> dispatch_state
     \<Rightarrow> ((node_error, dispatch_outcome) result \<times> dispatch_state) option" where
  "dispatch_inner ne nd wd pl inp d =
     (let msg = planner_text inp in
      case scoped_catalog ne nd wd inp of
        (cat0, scope) \<Rightarrow>
          if rs_unresolved scope \<noteq> [] then Some (Inl (UnresolvedMentions (rs_unresolved scope)), d)
          else let cs = push_user_input inp (wd_clock wd AtUser) (dp_conv d) in
            (case persist_last ne cs (dp_db d) of
               (Inl e, db) \<Rightarrow> Some (Inl (InvalidPayload (''persist user: '' @ conv_error_text e)),
                 d\<lparr>dp_conv := cs, dp_db := db\<rparr>)
             | (Inr _, db) \<Rightarrow>
                 (let d1 = d\<lparr>dp_conv := cs, dp_db := db\<rparr>;
                      cat = filter_with_scores (pl_score pl cat0 msg) REMOTE_TOP_K cat0
                  in (case pc_compile (pl_compiler pl) (dp_calls d1) msg cat of
                        Inl e \<Rightarrow> Some (Inl e, d1\<lparr>dp_calls := dp_calls d1 + 1\<rparr>)
                      | Inr compiled \<Rightarrow>
                          (let conf = pc_confidence (pl_compiler pl) compiled cat;
                               d2 = (if conf < 1 / 2 then emit pl (LowConfidence conf) d1 else d1)
                           in (case resolve_plan (pl_compiler pl) (wd_schema wd) msg cat compiled (dp_calls d2 + 1) of
                                 None \<Rightarrow> None
                               | Some (ValidPlan p, n) \<Rightarrow>
                                   run_and_reflect ne nd wd pl msg cat (rs_unresolved scope) p (d2\<lparr>dp_calls := n\<rparr>)
                               | Some (_, n) \<Rightarrow>
                                   Some (reflect_only ne wd pl msg None (rs_unresolved scope) [] 1
                                     (emit pl (PlanReady [] 1) (d2\<lparr>dp_calls := n\<rparr>)))))))))"

section \<open>Direct chat\<close>

definition DIRECT_PROMPT :: string where
  "DIRECT_PROMPT = prompt [
     ''You are a helpful assistant. Answer the user's question directly and honestly. Do not claim '',
     ''to have executed any actions or tools & you can only provide advice.'']"

definition direct_inner ::
  "('b, 'x) node_env_scheme \<Rightarrow> world \<Rightarrow> planner \<Rightarrow> string option \<Rightarrow> user_input \<Rightarrow> dispatch_state
     \<Rightarrow> (node_error, dispatch_outcome) result \<times> dispatch_state" where
  "direct_inner ne wd pl override inp d =
     (let cs = push_user_input inp (wd_clock wd AtUser) (dp_conv d) in
      case persist_last ne cs (dp_db d) of
        (Inl e, db) \<Rightarrow> (Inl (InvalidPayload (''persist user: '' @ conv_error_text e)),
          d\<lparr>dp_conv := cs, dp_db := db\<rparr>)
      | (Inr _, db) \<Rightarrow>
          (let d1 = d\<lparr>dp_conv := cs, dp_db := db\<rparr>;
               model = (case override of Some m \<Rightarrow> Some m | None \<Rightarrow> pl_hint pl);
               args = json_obj [(''messages'', JArr (llm_message ''system'' DIRECT_PROMPT
                          # to_chat_messages (serde_text ne) MAX_CONTEXT_TURNS cs)),
                        (''temperature'', JFloat ''0.7''),
                        (''model'', case model of Some m \<Rightarrow> JStr m | None \<Rightarrow> JNull)]
           in (case pl_llm pl ''chat'' args of
                 Inl e \<Rightarrow> (Inl (Adapter e), d1)
               | Inr resp \<Rightarrow>
                   (case resp_content resp of
                      None \<Rightarrow> (Inl (InvalidPayload ''LLM response missing message.content field''), d1)
                    | Some content \<Rightarrow>
                        (let used = Option.bind (json_get ''model'' resp) as_str;
                             cs2 = push_assistant content used (wd_clock wd AtReply) cs
                         in (case persist_last ne cs2 db of
                               (Inl e, db2) \<Rightarrow> (Inl (InvalidPayload (''persist assistant: '' @ conv_error_text e)),
                                 d1\<lparr>dp_conv := cs2, dp_db := db2\<rparr>)
                             | (Inr _, db2) \<Rightarrow>
                                 (Inr \<lparr>do_reply = content, do_model = used, do_trace = [], do_rounds = 1\<rparr>,
                                  d1\<lparr>dp_conv := cs2, dp_db := db2\<rparr>)))))))"

definition direct_dispatch ::
  "('b, 'x) node_env_scheme \<Rightarrow> world \<Rightarrow> planner \<Rightarrow> string option \<Rightarrow> user_input \<Rightarrow> dispatch_state
     \<Rightarrow> (node_error, dispatch_outcome) result \<times> dispatch_state" where
  "direct_dispatch ne wd pl override inp d =
     (if pl_streaming pl
      then (case direct_inner ne wd pl override inp (emit pl Reflecting (emit pl (PlanReady [] 1) d)) of
              (Inl e, d') \<Rightarrow> (Inl e, d')
            | (Inr r, d') \<Rightarrow> (Inr r, emit pl (Final (do_reply r) (do_model r)) d'))
      else direct_inner ne wd pl override inp d)"

end
