(* ===== verification/Dispatch_Ledger.thy ===== *)
theory Dispatch_Ledger
  imports Planner_Dispatch
begin

text \<open>
  What a dispatch promises: explicit mentions bind it, the conversation and its tables stay in
  step, the journal of plan runs is closed, and rounds, calls and steps are bounded.
\<close>

section \<open>Mentions\<close>

text \<open>The instance a peer mention stands for.\<close>

definition peer_target :: "string \<Rightarrow> peer_table \<Rightarrow> string \<Rightarrow> string option" where
  "peer_target self_id peers entity =
     (if to_ascii_lowercase entity = ''self'' then Some self_id
      else peer_hit self_id peers (last (split_on (CHR ''#'') entity)))"

lemma add_peers:
  "rs_lobes (fold (add_peer self_id peers) es r) = rs_lobes r"
  "rs_caps (fold (add_peer self_id peers) es r) = rs_caps r"
  "set (rs_peers (fold (add_peer self_id peers) es r))
     = set (rs_peers r) \<union> {i. \<exists>e\<in>set es. peer_target self_id peers e = Some i}"
  "rs_unresolved (fold (add_peer self_id peers) es r) = rs_unresolved r
     @ map ((@) ''@peer:'') (filter (\<lambda>e. peer_target self_id peers e = None) es)"
  by (induction es arbitrary: r)
    (auto simp: add_peer_def peer_target_def split: option.splits)

lemma add_lobes:
  "rs_peers (fold (add_lobe cat) ls r) = rs_peers r"
  "rs_caps (fold (add_lobe cat) ls r) = rs_caps r"
  "rs_lobes (fold (add_lobe cat) ls r) = rs_lobes r
     @ filter (\<lambda>l. list_ex (\<lambda>t. l \<in> set (lobe_ids (td_cap t))) cat) ls"
  "rs_unresolved (fold (add_lobe cat) ls r) = rs_unresolved r
     @ map ((@) ''@lobe:'') (filter (\<lambda>l. \<not> list_ex (\<lambda>t. l \<in> set (lobe_ids (td_cap t))) cat) ls)"
  by (induction ls arbitrary: r) (auto simp: add_lobe_def)

lemma add_caps:
  "rs_peers (fold (add_cap cat) cs r) = rs_peers r"
  "rs_lobes (fold (add_cap cat) cs r) = rs_lobes r"
  "rs_caps (fold (add_cap cat) cs r) = rs_caps r
     @ filter (\<lambda>c. list_ex (\<lambda>t. cap_name (td_cap t) = c) cat) cs"
  "rs_unresolved (fold (add_cap cat) cs r) = rs_unresolved r
     @ map ((@) ''@cap:'') (filter (\<lambda>c. \<not> list_ex (\<lambda>t. cap_name (td_cap t) = c) cat) cs)"
  by (induction cs arbitrary: r) (auto simp: add_cap_def)

lemmas add_scope = add_peers add_lobes add_caps

lemma resolve_scope_complete:
  assumes "rs_unresolved (resolve_scope self_id peers cat sc) = []"
  shows "set (rs_peers (resolve_scope self_id peers cat sc))
      = {i. \<exists>e\<in>set (ms_peers sc). peer_target self_id peers e = Some i}"
    and "rs_lobes (resolve_scope self_id peers cat sc) = ms_lobes sc"
    and "rs_caps (resolve_scope self_id peers cat sc) = ms_caps sc"
    and "\<And>e. e \<in> set (ms_peers sc) \<Longrightarrow> \<exists>i. peer_target self_id peers e = Some i"
  using assms
  by (auto simp: resolve_scope_def add_scope empty_resolved_def filter_empty_conv filter_id_conv)

lemma scoped_catalog_respects:
  assumes "scoped_catalog ne nd wd inp = (cat, r)" "rs_unresolved r = []" "t \<in> set cat"
  defines "sc \<equiv> scope_from_text (ui_text inp)"
  shows "t \<in> set (catalog_build ne (node_id ne nd) (nd_registry nd) (wd_peers wd) 500)"
    and "ms_peers sc \<noteq> [] \<Longrightarrow> \<exists>e\<in>set (ms_peers sc). peer_target (node_id ne nd) (wd_peers wd) e = Some (td_peer_id t)"
    and "ms_lobes sc \<noteq> [] \<Longrightarrow> set (lobe_ids (td_cap t)) \<inter> set (ms_lobes sc) \<noteq> {}"
    and "ms_caps sc \<noteq> [] \<Longrightarrow> cap_name (td_cap t) \<in> set (ms_caps sc)"
proof -
  let ?cat = "catalog_build ne (node_id ne nd) (nd_registry nd) (wd_peers wd) 500"
  let ?r = "resolve_scope (node_id ne nd) (wd_peers wd) ?cat sc"
  have cases: "(scope_is_empty sc \<and> cat = ?cat) \<or>
      (\<not> scope_is_empty sc \<and> r = ?r \<and> cat = (if narrows ?r then scoped_to (rs_peers ?r) (rs_lobes ?r) (rs_caps ?r) ?cat else ?cat))"
    using assms(1) unfolding scoped_catalog_def Let_def sc_def by (auto split: if_splits)
  have all: "t \<in> set ?cat \<and>
     (ms_peers sc \<noteq> [] \<longrightarrow> (\<exists>e\<in>set (ms_peers sc). peer_target (node_id ne nd) (wd_peers wd) e = Some (td_peer_id t)))
     \<and> (ms_lobes sc \<noteq> [] \<longrightarrow> set (lobe_ids (td_cap t)) \<inter> set (ms_lobes sc) \<noteq> {})
     \<and> (ms_caps sc \<noteq> [] \<longrightarrow> cap_name (td_cap t) \<in> set (ms_caps sc))"
  proof (cases "scope_is_empty sc")
    case True
    then show ?thesis using cases assms(3) by (auto simp: scope_is_empty_def)
  next
    case False
    then have un: "rs_unresolved ?r = []" using cases assms(2) by auto
    note rc = resolve_scope_complete [OF un]
    have peers: "rs_peers ?r = [] \<longleftrightarrow> ms_peers sc = []"
    proof (cases "ms_peers sc")
      case Nil
      then have "set (rs_peers ?r) = {}" using rc(1) by simp
      then show ?thesis using Nil by simp
    next
      case (Cons e es)
      then obtain i where "peer_target (node_id ne nd) (wd_peers wd) e = Some i" using rc(4) [of e] by auto
      then have "i \<in> set (rs_peers ?r)" using rc(1) Cons by auto
      then show ?thesis using Cons by auto
    qed
    then have "narrows ?r" using False rc(2,3) by (simp add: narrows_def scope_is_empty_def)
    then have "t \<in> set (scoped_to (rs_peers ?r) (rs_lobes ?r) (rs_caps ?r) ?cat)" using cases assms(3) False by auto
    then show ?thesis using rc(1) peers unfolding set_scoped_to rc(2,3) by auto
  qed
  then show "t \<in> set ?cat"
    "ms_peers sc \<noteq> [] \<Longrightarrow> \<exists>e\<in>set (ms_peers sc). peer_target (node_id ne nd) (wd_peers wd) e = Some (td_peer_id t)"
    "ms_lobes sc \<noteq> [] \<Longrightarrow> set (lobe_ids (td_cap t)) \<inter> set (ms_lobes sc) \<noteq> {}"
    "ms_caps sc \<noteq> [] \<Longrightarrow> cap_name (td_cap t) \<in> set (ms_caps sc)" by simp_all
qed

section \<open>Direct chat\<close>

lemma emit_fields [simp]:
  "dp_conv (emit pl e d) = dp_conv d" "dp_db (emit pl e d) = dp_db d" "dp_calls (emit pl e d) = dp_calls d"
  "dp_audit (emit pl e d) = dp_audit d" "dp_blobs (emit pl e d) = dp_blobs d"
  by (simp_all add: emit_def)

lemma persist_stored:
  assumes "stored ne cs db"
  obtains db' where "persist_last ne (push_turn t cs) db = (Inr (), db')" "stored ne (push_turn t cs) db'"
  using persist_push [OF assms, of t] by blast

lemma push_turns: "cs_turns (push_turn t cs) = cs_turns cs @ [t]"
  by (simp add: push_turn_def)

text \<open>
  Interface: what a table must keep of a conversation for direct chat, that one more turn can be
  pushed and persisted.
\<close>

locale turn_ledger =
  fixes ne :: "('b, 'x) node_env_scheme"
    and keeps :: "conv_state \<Rightarrow> conv_db \<Rightarrow> bool"
  assumes push: "keeps cs db \<Longrightarrow>
    \<exists>db'. persist_last ne (push_turn t cs) db = (Inr (), db') \<and> keeps (push_turn t cs) db'"
begin

lemma direct_inner_ledger:
  assumes "keeps (dp_conv d) (dp_db d)" "direct_inner ne wd pl ov inp d = (res, d')"
  shows "keeps (dp_conv d') (dp_db d') \<and> cs_turns (dp_conv d') = cs_turns (dp_conv d)
      @ [TUser (ui_text inp) (ui_attachments inp) (wd_clock wd AtUser)]
      @ (case res of Inr out \<Rightarrow> [TAssistant (do_reply out) (do_model out) (wd_clock wd AtReply)] | Inl _ \<Rightarrow> [])"
proof -
  let ?u = "TUser (ui_text inp) (ui_attachments inp) (wd_clock wd AtUser)"
  let ?cs = "push_turn ?u (dp_conv d)"
  obtain db where db: "persist_last ne ?cs (dp_db d) = (Inr (), db)" "keeps ?cs db"
    using push [OF assms(1)] by blast
  let ?args = "json_obj [(''messages'', JArr (llm_message ''system'' DIRECT_PROMPT
        # to_chat_messages (serde_text ne) MAX_CONTEXT_TURNS ?cs)), (''temperature'', JFloat ''0.7''),
      (''model'', case (case ov of Some m \<Rightarrow> Some m | None \<Rightarrow> pl_hint pl) of Some m \<Rightarrow> JStr m | None \<Rightarrow> JNull)]"
  show ?thesis
  proof (cases "pl_llm pl ''chat'' ?args")
    case (Inl e)
    then have "res = Inl (Adapter e)" "d' = d\<lparr>dp_conv := ?cs, dp_db := db\<rparr>"
      using assms(2) db(1) by (simp_all add: direct_inner_def push_user_input_def Let_def)
    then show ?thesis using db(2) by (simp add: push_turns)
  next
    case (Inr resp)
    show ?thesis
    proof (cases "resp_content resp")
      case None
      then have "res = Inl (InvalidPayload ''LLM response missing message.content field'')"
        "d' = d\<lparr>dp_conv := ?cs, dp_db := db\<rparr>"
        using assms(2) db(1) Inr by (simp_all add: direct_inner_def push_user_input_def Let_def)
      then show ?thesis using db(2) by (simp add: push_turns)
    next
      case (Some c)
      let ?m = "Option.bind (json_get ''model'' resp) as_str"
      let ?a = "TAssistant c ?m (wd_clock wd AtReply)"
      obtain db2 where db2: "persist_last ne (push_turn ?a ?cs) db = (Inr (), db2)"
        "keeps (push_turn ?a ?cs) db2"
        using push [OF db(2)] by blast
      have "res = Inr \<lparr>do_reply = c, do_model = ?m, do_trace = [], do_rounds = 1\<rparr>"
        "d' = d\<lparr>dp_conv := push_turn ?a ?cs, dp_db := db2\<rparr>"
        using assms(2) db(1) db2(1) Inr Some
        by (simp_all add: direct_inner_def push_user_input_def push_assistant_def Let_def)
      then show ?thesis using db2(2) by (simp add: push_turns)
    qed
  qed
qed

lemma direct_dispatch_ledger:
  assumes "keeps (dp_conv d) (dp_db d)" "direct_dispatch ne wd pl ov inp d = (res, d')"
  shows "keeps (dp_conv d') (dp_db d') \<and> cs_turns (dp_conv d') = cs_turns (dp_conv d)
      @ [TUser (ui_text inp) (ui_attachments inp) (wd_clock wd AtUser)]
      @ (case res of Inr out \<Rightarrow> [TAssistant (do_reply out) (do_model out) (wd_clock wd AtReply)] | Inl _ \<Rightarrow> [])"
proof (cases "pl_streaming pl")
  case False
  then show ?thesis using direct_inner_ledger [OF assms(1)] assms(2) by (simp add: direct_dispatch_def)
next
  case True
  let ?d = "emit pl Reflecting (emit pl (PlanReady [] 1) d)"
  obtain r d1 where d1: "direct_inner ne wd pl ov inp ?d = (r, d1)" by force
  have "keeps (dp_conv ?d) (dp_db ?d)" using assms(1) by simp
  note led = direct_inner_ledger [OF this d1]
  have "res = r" "dp_conv d' = dp_conv d1" "dp_db d' = dp_db d1"
    using assms(2) True d1 by (auto simp: direct_dispatch_def split: sum.splits)
  then show ?thesis using led by simp
qed

end

interpretation exact: turn_ledger ne "stored ne" for ne
  by unfold_locales (metis persist_stored)

section \<open>The reply\<close>

lemma whole_reference_lost:
  assumes "plan_whole_template raw = Some inner" "lookup_path inner (map_of bb) = Some v" "as_str v = None"
  shows "reply_text show (Some bb) raw = []"
  using assms by (simp add: reply_text_def)

section \<open>One round\<close>

lemma resolve_valid:
  assumes "resolve_plan co js msg cat p n = Some (out, n')"
  shows "n' \<le> n + 1" "out = ValidPlan q \<Longrightarrow> validate_plan js cat q = Some (Inr ())"
  using assms
  by (auto simp: resolve_plan_def COMPILE_RETRY_LIMIT_def split: if_splits option.splits sum.splits)

lemma exec_labels_reach:
  assumes "exec_labels ne nd ee ls st = Some st'" "exec_reach ne nd ee lg w n st"
  shows "\<exists>m. exec_reach ne nd ee lg w m st' \<and> ex_flight st' = []"
  using assms
proof (induction ls arbitrary: st n)
  case Nil
  then show ?case by (auto split: if_splits)
next
  case (Cons l ls)
  then obtain s1 where s1: "exec_next ne nd ee l st = Some s1" "exec_labels ne nd ee ls s1 = Some st'"
    by (auto split: option.splits)
  from Cons.IH [OF s1(2) exec_reach.step [OF Cons.prems(2) s1(1)]] show ?case .
qed

lemma length_reassemble: "length (reassemble p tr) \<le> length p"
proof (induction p arbitrary: tr)
  case (Cons s p)
  show ?case using Cons.IH [of tr] Cons.IH [of "tr(step_id s := None)"]
    by (auto split: option.split simp del: fun_upd_apply)
qed simp

lemma emit_all [simp]:
  "dp_conv (fold (\<lambda>e. emit pl (f e)) es d) = dp_conv d" "dp_db (fold (\<lambda>e. emit pl (f e)) es d) = dp_db d"
  "dp_calls (fold (\<lambda>e. emit pl (f e)) es d) = dp_calls d"
  by (induction es arbitrary: d) simp_all

text \<open>What the execution of a valid plan leaves behind.\<close>

lemma execute_round_done:
  assumes "execute_round ne nd wd pl cat rnd p base offset now d = Some ((tr, bb), d')"
    and "validate_plan js cat' p = Some (Inr ())"
  obtains ks and st :: exec_state where "distinct ks" "set ks = step_id ` set p"
    "map Some tr = map (\<lambda>s. ex_trace st (step_id s)) p"
    "dp_db d' = persist_hooks ne (node_id ne nd) (cs_id (dp_conv d)) base offset now
       (map (\<lambda>i. (plan_index p i, the (ex_trace st i))) ks) (dp_db d)"
    "dp_conv d' = mirror_trace (node_id ne nd) (\<lambda>k. wd_clock wd (AtMirror rnd k)) tr (dp_conv d)"
    "dp_calls d' = dp_calls d"
proof -
  let ?ee = "round_env ne wd (dp_conv d) cat rnd p"
  let ?init = "exec_init ?ee (dp_audit d) (dp_blobs d)"
  obtain st where run: "exec_labels ne nd ?ee (wd_schedule wd rnd) ?init = Some st"
    and d': "tr = reassemble p (ex_trace st)"
      "dp_db d' = persist_hooks ne (node_id ne nd) (cs_id (dp_conv d)) base offset now (ex_hooks st) (dp_db d)"
      "dp_conv d' = mirror_trace (node_id ne nd) (\<lambda>k. wd_clock wd (AtMirror rnd k)) tr (dp_conv d)"
      "dp_calls d' = dp_calls d"
    using assms(1)
    by (auto simp: execute_round_def Let_def exec_result_def round_env_def split: option.splits)
  have ee: "ee_plan ?ee = p" by (simp add: round_env_def)
  obtain m where m: "exec_reach ne nd ?ee (dp_audit d) (dp_blobs d) m st" "ex_flight st = []"
    using exec_labels_reach [OF run exec_reach.start] by blast
  have v: "validate_plan js cat' (ee_plan ?ee) = Some (Inr ())" using assms(2) ee by simp
  note over = executor_runs_out [OF m(1) v, THEN conjunct2, THEN conjunct2, THEN mp, OF m(2), unfolded ee]
  have "distinct (map step_id (ee_plan ?ee))" using validate_plan_accepts(3) [OF v] .
  from exec_reach_hooked [OF m(1) this] obtain ks where ks: "distinct ks" "set ks = dom (ex_blackboard st)"
    "ex_hooks st = map (\<lambda>i. (plan_index p i, the (ex_trace st i))) ks"
    unfolding hooked_def ee by blast
  have ids: "set ks = step_id ` set p" using over ks(2) by (simp add: exec_result_def)
  have tr: "map Some tr = map (\<lambda>s. ex_trace st (step_id s)) p" using over d'(1) by (simp add: exec_result_def ee)
  show thesis by (rule that [OF ks(1) ids tr d'(2) [unfolded ks(3)] d'(3,4)])
qed

section \<open>The journal of runs\<close>

definition open_runs :: "conv_db \<Rightarrow> string set" where
  "open_runs db = {run_id r | r. r \<in> set (plan_runs db) \<and> run_status r = ''running''}"

lemma insert_turn_runs: "insert_turn t db = Inr db' \<Longrightarrow> plan_runs db' = plan_runs db"
  by (auto simp: insert_turn_def split: if_splits)

lemma append_loop_runs: "append_loop now ts db = Inr db' \<Longrightarrow> plan_runs db' = plan_runs db"
  by (induction ts arbitrary: db) (auto dest: insert_turn_runs split: sum.splits)

lemma append_turns_runs: "plan_runs (snd (append_turns ts now db)) = plan_runs db"
  by (auto simp: append_turns_def dest: append_loop_runs split: sum.split)

lemma persist_last_runs: "persist_last ne cs db = (r, db') \<Longrightarrow> plan_runs db' = plan_runs db"
  using append_turns_runs
  by (auto simp: persist_last_def append_turn_def Let_def split: if_splits prod.splits sum.splits)
    (metis snd_conv)+

lemma persist_pairs_runs: "plan_runs (persist_pairs ne conv b now ps db) = plan_runs db"
proof (induction ps arbitrary: db)
  case (Cons x ps)
  obtain n p where x: "x = (n, p)" by force
  have "snd (persist_tool_pair_at ne conv b n p now db) = snd (append_turns (tool_rows ne conv b n p now) now db)"
    by (simp add: persist_tool_pair_at_def split: prod.split sum.split)
  then have "plan_runs (snd (persist_tool_pair_at ne conv b n p now db)) = plan_runs db"
    by (simp add: append_turns_runs)
  then show ?case using Cons.IH x by (simp add: persist_pairs_def)
qed (simp add: persist_pairs_def)

lemma execute_round_runs:
  assumes "execute_round ne nd wd pl cat rnd p base offset now d = Some (acc, d')"
  shows "plan_runs (dp_db d') = plan_runs (dp_db d)"
  using assms
  by (auto simp: execute_round_def Let_def persist_hooks_def persist_pairs_runs split: option.splits)

lemma reflect_only_runs:
  assumes "reflect_only ne wd pl msg bb un tr rounds d = (res, d')"
  shows "plan_runs (dp_db d') = plan_runs (dp_db d)" "dp_calls d' = dp_calls d"
  using assms
  by (auto simp: reflect_only_def Let_def dest: persist_last_runs split: sum.splits prod.splits)

lemma open_insert:
  assumes "run_insert r db = Inr db'"
  shows "open_runs db' \<subseteq> insert (run_id r) (open_runs db)"
  using assms by (auto simp: run_insert_def open_runs_def split: if_splits)

lemma open_close:
  assumes "st \<in> set run_statuses" "st \<noteq> ''running''"
  shows "open_runs (close_run wd rnd st now db) = open_runs db - {''run_'' @ wd_run_uuid wd rnd}"
proof -
  let ?k = "''run_'' @ wd_run_uuid wd rnd"
  let ?f = "\<lambda>r. if run_id r = ?k then r\<lparr>run_status := st, finished_at := Some now\<rparr> else r"
  have rows: "plan_runs (close_run wd rnd st now db) = map ?f (plan_runs db)"
    using assms(1) by (simp add: close_run_def set_status_def sql_update_def)
  have "run_status (?f r) = ''running'' \<longleftrightarrow> run_status r = ''running'' \<and> run_id r \<noteq> ?k" "run_id (?f r) = run_id r" for r
    using assms(2) by simp_all
  then show ?thesis unfolding open_runs_def rows using assms(2) by (auto simp del: append.simps)
qed

lemma open_same: "plan_runs db = plan_runs db' \<Longrightarrow> open_runs db = open_runs db'"
  by (simp add: open_runs_def)

section \<open>Continuation rounds\<close>

text \<open>A round left either stops, touching no table, or executes a valid plan and goes on.\<close>

lemma continue_step:
  assumes "continue_rounds ne nd wd pl msg cat started base (Suc k) rnd depth acc used d = Some (acc', used', d')"
  obtains (stop) "acc' = acc" "used' \<le> used + 1" "dp_db d' = dp_db d" "dp_conv d' = dp_conv d"
      "dp_calls d' \<le> dp_calls d + 2"
    | (go) p n db tr bb d2 d3 depth2 where "validate_plan (wd_schema wd) cat p = Some (Inr ())"
      "n \<le> dp_calls d + 2" "dp_conv d2 = dp_conv d" "dp_calls d2 = n" "dp_db d2 = dp_db d"
      "run_insert (running_row ne wd (dp_conv d) (rnd + 1) p (wd_clock wd (AtRound rnd))) (dp_db d) = Inr db"
      "execute_round ne nd wd pl cat (rnd + 1) p base (length (fst acc)) (wd_clock wd (AtRound rnd)) (d2\<lparr>dp_db := db\<rparr>)
         = Some ((tr, bb), d3)"
      "continue_rounds ne nd wd pl msg cat started base k (rnd + 1) depth2
         (fst acc @ tr, merge_blackboard (wd_hash_order wd) rnd bb (snd acc)) (used + 1)
         (d3\<lparr>dp_db := close_run wd (rnd + 1) ''done'' (wd_clock wd (AtRoundEnd rnd)) (dp_db d3)\<rparr>)
         = Some (acc', used', d')"
proof (cases "continuation_reason (fst acc) depth (wd_clock wd (AtCheck rnd) - started)")
  case None
  then show thesis using assms by (intro stop) simp_all
next
  case (Some reason)
  note why = this
  let ?m = "continuation_message msg (blackboard_summary (serde_text ne) (fst acc))"
  show thesis
  proof (cases "pc_compile (pl_compiler pl) (dp_calls d) ?m cat")
    case (Inl e)
    then show thesis using assms why by (intro stop) (auto simp: Let_def)
  next
    case (Inr compiled)
    note comp = this
    obtain out n where out: "resolve_plan (pl_compiler pl) (wd_schema wd) ?m cat compiled (dp_calls d + 1) = Some (out, n)"
      using assms why comp by (auto simp: Let_def split: option.splits)
    note rv = resolve_valid [OF out]
    show thesis
    proof (cases out)
      case (ValidPlan p)
      note body = assms [unfolded continue_rounds.simps why option.case Let_def comp sum.case out prod.case ValidPlan plan_outcome.case]
      let ?d1 = "d\<lparr>dp_calls := n\<rparr>"
      let ?d2 = "emit pl (PlanReady (map (step_info cat) p) (rnd + 1)) ?d1"
      show thesis
      proof (cases "adds_nothing (serde_text ne) p (fst acc) cat")
        case True
        then show thesis using body rv(1) by (intro stop) auto
      next
        case False
        show thesis
        proof (cases "run_insert (running_row ne wd (dp_conv ?d2) (rnd + 1) p (wd_clock wd (AtRound rnd))) (dp_db ?d2)")
          case (Inl e)
          then show thesis using body False rv(1) by (intro stop) auto
        next
          case (Inr db)
          obtain tr bb d3 where ex: "execute_round ne nd wd pl cat (rnd + 1) p base (length (fst acc))
              (wd_clock wd (AtRound rnd)) (?d2\<lparr>dp_db := db\<rparr>) = Some ((tr, bb), d3)"
            using body False Inr by (auto split: option.splits)
          obtain depth2 where dep: "plan_depth p = Some depth2"
            using body False Inr ex by (auto split: option.splits)
          note rest = body [unfolded False if_False Inr sum.case ex option.case prod.case dep]
          show thesis
          proof (rule go)
            show "validate_plan (wd_schema wd) cat p = Some (Inr ())" using rv(2) ValidPlan by simp
            show "n \<le> dp_calls d + 2" using rv(1) by simp
            show "run_insert (running_row ne wd (dp_conv d) (rnd + 1) p (wd_clock wd (AtRound rnd))) (dp_db d) = Inr db"
              using Inr by simp
            show "execute_round ne nd wd pl cat (rnd + 1) p base (length (fst acc)) (wd_clock wd (AtRound rnd))
                (?d2\<lparr>dp_db := db\<rparr>) = Some ((tr, bb), d3)" by (rule ex)
            show "continue_rounds ne nd wd pl msg cat started base k (rnd + 1) depth2
                (fst acc @ tr, merge_blackboard (wd_hash_order wd) rnd bb (snd acc)) (used + 1)
                (d3\<lparr>dp_db := close_run wd (rnd + 1) ''done'' (wd_clock wd (AtRoundEnd rnd)) (dp_db d3)\<rparr>)
                = Some (acc', used', d')"
              using rest by (simp only: if_not_P [OF False])
          qed simp_all
        qed
      qed
    next
      case EmptyPlan
      then show thesis using assms why comp out rv(1) by (intro stop) (auto simp: Let_def)
    next
      case (InvalidPlan e)
      then show thesis using assms why comp out rv(1) by (intro stop) (auto simp: Let_def)
    qed
  qed
qed

lemma continue_runs:
  "continue_rounds ne nd wd pl msg cat started base k rnd depth acc used d = Some (acc', used', d')
     \<Longrightarrow> open_runs (dp_db d') \<subseteq> open_runs (dp_db d)"
proof (induction k arbitrary: rnd depth acc used d)
  case (Suc k)
  from Suc.prems show ?case
  proof (cases rule: continue_step)
    case stop
    then show ?thesis by simp
  next
    case (go p n db tr bb d2 d3 depth2)
    let ?id = "''run_'' @ wd_run_uuid wd (rnd + 1)"
    have "run_id (running_row ne wd (dp_conv d) (rnd + 1) p (wd_clock wd (AtRound rnd))) = ?id"
      by (simp add: running_row_def)
    then have "open_runs db \<subseteq> insert ?id (open_runs (dp_db d))" using open_insert [OF go(6)] by simp
    moreover have "open_runs (dp_db d3) = open_runs db"
      using open_same [OF execute_round_runs [OF go(7)]] by simp
    moreover have "open_runs (close_run wd (rnd + 1) ''done'' (wd_clock wd (AtRoundEnd rnd)) (dp_db d3))
        = open_runs (dp_db d3) - {?id}" by (rule open_close) (simp_all add: run_statuses_def)
    ultimately show ?thesis using Suc.IH [OF go(8)] by auto
  qed
qed simp

lemma execute_round_length:
  assumes "execute_round ne nd wd pl cat rnd p base offset now d = Some ((tr, bb), d')"
    "validate_plan js cat' p = Some (Inr ())"
  shows "length tr = length p" "length tr \<le> 8" "dp_calls d' = dp_calls d"
proof -
  from assms show "length tr = length p"
    by (rule execute_round_done) (metis length_map)
  then show "length tr \<le> 8" using validate_plan_accepts(2) [OF assms(2)] by simp
  from assms show "dp_calls d' = dp_calls d" by (rule execute_round_done)
qed

lemma continue_bounds:
  "continue_rounds ne nd wd pl msg cat started base k rnd depth acc used d = Some (acc', used', d')
     \<Longrightarrow> used' \<le> used + k \<and> dp_calls d' \<le> dp_calls d + 2 * k \<and> length (fst acc') \<le> length (fst acc) + 8 * k"
proof (induction k arbitrary: rnd depth acc used d)
  case (Suc k)
  from Suc.prems show ?case
  proof (cases rule: continue_step)
    case stop
    then show ?thesis by simp
  next
    case (go p n db tr bb d2 d3 depth2)
    have "length tr \<le> 8" "dp_calls d3 = n"
      using execute_round_length [OF go(7) go(1)] go(4) by simp_all
    then show ?thesis using Suc.IH [OF go(8)] go(2) by auto
  qed
qed simp

section \<open>The ledger of a conversation\<close>

text \<open>
  What a turn says, its time left out: the two copies of a step carry different clocks. A null
  result is no result, as it is for serde when the turn is read back.
\<close>

fun untimed :: "turn \<Rightarrow> turn" where
  "untimed (TUser c a _) = TUser c a 0"
| "untimed (TAssistant c m _) = TAssistant c m 0"
| "untimed (TToolCall i p c a _) = TToolCall i p c a 0"
| "untimed (TToolResult i p c r e _) = TToolResult i p c (if r = Some JNull then None else r) e 0"
| "untimed (TSystem c _) = TSystem c 0"

text \<open>The simulation: the tables hold, row by row, what the state says.\<close>

definition mirrored :: "('b, 'x) node_env_scheme \<Rightarrow> conv_state \<Rightarrow> conv_db \<Rightarrow> bool" where
  "mirrored ne cs db \<longleftrightarrow>
     db_ok db \<and> map_option cv_client_id (conv_get (cs_id cs) db) = Some (cs_client_id cs)
     \<and> cs_next_seq cs = int (length (cs_turns cs))
     \<and> (\<exists>ts. load_turns (cs_id cs) db = ledger_rows ne (cs_id cs) ts \<and> map untimed ts = map untimed (cs_turns cs))"

definition pair_turns :: "int \<Rightarrow> tool_pair \<Rightarrow> turn list" where
  "pair_turns now p =
     [TToolCall (tp_call_id p) (tp_peer p) (tp_capability p) (tp_args p) now,
      TToolResult (tp_call_id p) (tp_peer p) (tp_capability p) (tp_result p) (tp_error p) now]"

text \<open>The two turns of every step that ran, in order.\<close>

definition step_turns :: "string \<Rightarrow> trace_entry list \<Rightarrow> turn list" where
  "step_turns self_id tr = concat (map (map untimed \<circ> pair_turns 0 \<circ> entry_pair self_id) tr)"

lemma step_turns_append [simp]:
  "step_turns self_id [] = []" "step_turns self_id (tr @ tr') = step_turns self_id tr @ step_turns self_id tr'"
  by (simp_all add: step_turns_def)

lemma length_step_turns: "length (step_turns self_id tr) = 2 * length tr"
  by (induction tr) (simp_all add: step_turns_def pair_turns_def)

lemma mirrored_rows:
  assumes "mirrored ne cs db" "db_ok db'" "conv_get (cs_id cs) db' = conv_get (cs_id cs) db"
    "load_turns (cs_id cs) db' = load_turns (cs_id cs) db"
  shows "mirrored ne cs db'"
  using assms by (simp add: mirrored_def)

lemma mirrored_insert:
  assumes "mirrored ne cs db" "run_insert r db = Inr db'"
  shows "mirrored ne cs db'"
proof (rule mirrored_rows [OF assms(1)])
  show "db_ok db'" using run_insert_ok [OF assms(2)] assms(1) by (simp add: mirrored_def)
qed (use assms(2) in \<open>auto simp: run_insert_def conv_get_def load_turns_def split: if_splits\<close>)

lemma mirrored_close:
  assumes "mirrored ne cs db"
  shows "mirrored ne cs (close_run wd rnd st now db)"
proof (cases "set_status (''run_'' @ wd_run_uuid wd rnd) st now db")
  case (Inr db')
  have "mirrored ne cs db'"
  proof (rule mirrored_rows [OF assms])
    show "db_ok db'" using set_status_ok [OF Inr] assms by (simp add: mirrored_def)
  qed (use Inr in \<open>auto simp: set_status_def conv_get_def load_turns_def split: if_splits\<close>)
  then show ?thesis using Inr by (simp add: close_run_def)
qed (simp add: close_run_def assms)

text \<open>One more turn.\<close>

lemma persist_last_ok: "persist_last ne cs db = (r, db') \<Longrightarrow> db_ok db \<Longrightarrow> db_ok db'"
  using append_turns_ok
  by (auto simp: persist_last_def append_turn_def Let_def split: if_splits prod.splits sum.splits)
    (metis snd_conv)+

lemma mirrored_push:
  assumes "mirrored ne cs db"
  obtains db' where "persist_last ne (push_turn t cs) db = (Inr (), db')" "mirrored ne (push_turn t cs) db'"
proof -
  obtain c where c: "conv_get (cs_id cs) db = Some c" "cv_client_id c = cs_client_id cs"
    using assms by (auto simp: mirrored_def)
  then have id: "cv_id c = cs_id cs" by (auto simp: conv_get_def dest: select_by_Some)
  obtain ts where ts: "load_turns (cs_id cs) db = ledger_rows ne (cs_id cs) ts"
    "map untimed ts = map untimed (cs_turns cs)" using assms by (auto simp: mirrored_def)
  let ?cs = "\<lparr>cs_id = cs_id cs, cs_client_id = cs_client_id cs, cs_title = cv_title c,
    cs_created_at = cv_created_at c, cs_updated_at = cv_updated_at c, cs_turns = ts, cs_next_seq = cs_next_seq cs\<rparr>"
  have len: "length ts = length (cs_turns cs)" using ts(2) by (metis length_map)
  have "stored ne ?cs db" using c id ts(1) assms len by (simp add: stored_def mirrored_def)
  then obtain db' where db': "persist_last ne (push_turn t ?cs) db = (Inr (), db')" "stored ne (push_turn t ?cs) db'"
    by (rule persist_stored)
  have last: "persist_last ne (push_turn t cs) db = (Inr (), db')"
    using db'(1) by (simp add: persist_last_def push_turn_def)
  have "mirrored ne (push_turn t cs) db'"
    unfolding mirrored_def
  proof (intro conjI exI)
    show "db_ok db'" using persist_last_ok [OF last] assms by (simp add: mirrored_def)
    show "map_option cv_client_id (conv_get (cs_id (push_turn t cs)) db') = Some (cs_client_id (push_turn t cs))"
      using db'(2) by (simp add: stored_def push_turn_def)
    show "cs_next_seq (push_turn t cs) = int (length (cs_turns (push_turn t cs)))"
      using assms by (simp add: mirrored_def push_turn_def)
    show "load_turns (cs_id (push_turn t cs)) db' = ledger_rows ne (cs_id (push_turn t cs)) (ts @ [t])"
      using db'(2) by (simp add: stored_def push_turn_def)
    show "map untimed (ts @ [t]) = map untimed (cs_turns (push_turn t cs))"
      using ts(2) by (simp add: push_turn_def)
  qed
  with last show thesis by (rule that)
qed

interpretation loose: turn_ledger ne "mirrored ne" for ne
  by unfold_locales (metis mirrored_push)

text \<open>The steps of a round.\<close>

lemma mirror_fold:
  "map untimed (cs_turns (fold (mirror_entry self_id clock) (zip [a..<a + length tr] tr) cs))
     = map untimed (cs_turns cs) @ step_turns self_id tr
   \<and> cs_next_seq (fold (mirror_entry self_id clock) (zip [a..<a + length tr] tr) cs)
     = cs_next_seq cs + 2 * int (length tr)
   \<and> cs_id (fold (mirror_entry self_id clock) (zip [a..<a + length tr] tr) cs) = cs_id cs
   \<and> cs_client_id (fold (mirror_entry self_id clock) (zip [a..<a + length tr] tr) cs) = cs_client_id cs"
proof (induction tr arbitrary: a cs)
  case (Cons e tr)
  have "[a..<a + length (e # tr)] = a # [Suc a..<Suc a + length tr]" by (subst upt_rec) simp
  then show ?case
    using Cons.IH [of "Suc a" "mirror_entry self_id clock (a, e) cs"]
    by (simp add: mirror_entry_def Let_def push_tool_result_def push_tool_call_with_id_def push_turn_def
        step_turns_def pair_turns_def entry_pair_def)
qed simp

lemmas mirror_trace_turns = mirror_fold [of _ _ 0, simplified, folded mirror_trace_def]

lemma persist_pairs_shift:
  "persist_pairs ne conv b now (map (\<lambda>(n, p). (n + k, p)) ps) db = persist_pairs ne conv (b + 2 * int k) now ps db"
proof (induction ps arbitrary: db)
  case (Cons x ps)
  obtain n p where x: "x = (n, p)" by force
  have "tool_rows ne conv b (n + k) p now = tool_rows ne conv (b + 2 * int k) n p now"
    by (simp add: tool_rows_def algebra_simps)
  then have "persist_tool_pair_at ne conv b (n + k) p now = persist_tool_pair_at ne conv (b + 2 * int k) n p now"
    by (simp add: persist_tool_pair_at_def fun_eq_iff)
  then show ?case using Cons.IH x by (simp add: persist_pairs_def)
qed (simp add: persist_pairs_def)

lemma pair_rows_snoc:
  "pair_rows ne i b now (zip [0..<length (ps @ [p])] (ps @ [p]))
    = pair_rows ne i b now (zip [0..<length ps] ps) @ tool_rows ne i b (length ps) p now"
  by (simp add: pair_rows_def)

lemma ledger_pairs:
  "ledger_rows ne i ts @ pair_rows ne i (int (length ts)) now (zip [0..<length ps] ps)
    = ledger_rows ne i (ts @ concat (map (pair_turns now) ps))"
proof (induction ps rule: rev_induct)
  case (snoc p ps)
  let ?us = "ts @ concat (map (pair_turns now) ps)"
  have len: "length ?us = length ts + 2 * length ps" by (induction ps) (simp_all add: pair_turns_def)
  have "ledger_rows ne i (?us @ pair_turns now p) = ledger_rows ne i ?us @ tool_rows ne i (int (length ts)) (length ps) p now"
    using ledger_rows_snoc [of ne i ?us] ledger_rows_snoc [of ne i "?us @ [hd (pair_turns now p)]"] len
    by (simp add: pair_turns_def tool_rows_def Let_def ac_simps)
  then show ?case using snoc.IH unfolding pair_rows_snoc by simp
qed (simp add: pair_rows_def)

lemma sort_hooks:
  assumes "distinct ks" "set ks = step_id ` set p" "distinct (map step_id p)"
    "map Some tr = map (\<lambda>s. f (step_id s)) p"
  shows "sort_key fst (map (\<lambda>i. (plan_index p i, g (the (f i)))) ks) = zip [0..<length tr] (map g tr)"
proof -
  let ?h = "\<lambda>i. (plan_index p i, g (the (f i)))"
  have len: "length tr = length p" using assms(4) by (metis length_map)
  have "mset ks = mset (map step_id p)"
    using assms(1-3) set_eq_iff_mset_eq_distinct [OF assms(1,3)] by simp
  moreover have all: "map ?h (map step_id p) = zip [0..<length tr] (map g tr)"
  proof (rule nth_equalityI)
    fix k assume "k < length (map ?h (map step_id p))"
    then have k: "k < length p" by simp
    have at: "f (step_id (p ! k)) = Some (tr ! k)" using assms(4) k len by (metis nth_map)
    show "map ?h (map step_id p) ! k = zip [0..<length tr] (map g tr) ! k"
      using k len by (simp add: at plan_index_nth [OF assms(3) k])
  qed (simp add: len)
  ultimately have "mset (map ?h ks) = mset (zip [0..<length tr] (map g tr))" by (metis mset_map)
  moreover have "inj_on fst (set (map ?h ks))"
    using plan_index_inj [of p] unfolding assms(2) [symmetric] by (auto simp: inj_on_def)
  moreover have "sorted (map fst (zip [0..<length tr] (map g tr)))" by simp
  ultimately show ?thesis by (metis sort_key_inj_key_eq)
qed

lemma persist_pairs_client:
  "map_option cv_client_id (conv_get j (persist_pairs ne conv b now ps db)) = map_option cv_client_id (conv_get j db)"
proof (induction ps arbitrary: db)
  case (Cons x ps)
  obtain n p where x: "x = (n, p)" by force
  have meta: "map_option cv_client_id (conv_get j (update_meta i None now d)) = map_option cv_client_id (conv_get j d)"
    for i d by (auto simp: conv_get_meta option.map_comp o_def)
  have ins: "conv_get j d' = conv_get j d" if "insert_turn t d = Inr d'" for t d d'
    using that by (auto simp: insert_turn_def split: if_splits)
  have loop: "map_option cv_client_id (conv_get j d') = map_option cv_client_id (conv_get j d)"
    if "append_loop now ts d = Inr d'" for ts d d'
    using that by (induction ts arbitrary: d) (auto simp: meta ins split: sum.splits)
  have "snd (persist_tool_pair_at ne conv b n p now db) = snd (append_turns (tool_rows ne conv b n p now) now db)"
    by (simp add: persist_tool_pair_at_def split: prod.split sum.split)
  then have "map_option cv_client_id (conv_get j (snd (persist_tool_pair_at ne conv b n p now db)))
      = map_option cv_client_id (conv_get j db)"
    by (auto simp: append_turns_def dest: loop split: sum.split)
  then show ?case using Cons.IH x by (simp add: persist_pairs_def)
qed (simp add: persist_pairs_def)

lemma mirrored_round:
  assumes ex: "execute_round ne nd wd pl cat rnd p base offset now d = Some ((tr, bb), d')"
    and v: "validate_plan js cat' p = Some (Inr ())"
    and mir: "mirrored ne (dp_conv d) (dp_db d)" "cs_next_seq (dp_conv d) = base + 2 * int offset"
  shows "mirrored ne (dp_conv d') (dp_db d')"
    "map untimed (cs_turns (dp_conv d')) = map untimed (cs_turns (dp_conv d)) @ step_turns (node_id ne nd) tr"
    "cs_next_seq (dp_conv d') = cs_next_seq (dp_conv d) + 2 * int (length tr)"
proof -
  let ?id = "cs_id (dp_conv d)" and ?b = "base + 2 * int offset" and ?self = "node_id ne nd"
  obtain ks and st :: exec_state where r: "distinct ks" "set ks = step_id ` set p"
    "map Some tr = map (\<lambda>s. ex_trace st (step_id s)) p"
    "dp_db d' = persist_hooks ne ?self ?id base offset now
       (map (\<lambda>i. (plan_index p i, the (ex_trace st i))) ks) (dp_db d)"
    "dp_conv d' = mirror_trace ?self (\<lambda>k. wd_clock wd (AtMirror rnd k)) tr (dp_conv d)"
    by (rule execute_round_done [OF ex v])
  let ?ps = "map (\<lambda>i. (plan_index p i, entry_pair ?self (the (ex_trace st i)))) ks"
  note mem = mirror_trace_turns [of ?self "\<lambda>k. wd_clock wd (AtMirror rnd k)" tr "dp_conv d", folded r(5)]
  show turns: "map untimed (cs_turns (dp_conv d')) = map untimed (cs_turns (dp_conv d)) @ step_turns ?self tr"
    and sq: "cs_next_seq (dp_conv d') = cs_next_seq (dp_conv d) + 2 * int (length tr)"
    using mem by simp_all
  obtain ts where ts: "load_turns ?id (dp_db d) = ledger_rows ne ?id ts" "map untimed ts = map untimed (cs_turns (dp_conv d))"
    using mir(1) by (auto simp: mirrored_def)
  have len: "int (length ts) = ?b"
    using ts(2) mir by (metis (no_types) length_map mirrored_def)
  have db: "dp_db d' = persist_pairs ne ?id ?b now ?ps (dp_db d)"
    using persist_pairs_shift [of ne ?id base now offset ?ps "dp_db d"]
    by (simp add: r(4) persist_hooks_def o_def case_prod_unfold)
  have ok: "db_ok (dp_db d)" "conv_get ?id (dp_db d) \<noteq> None" using mir(1) by (auto simp: mirrored_def)
  have dist: "distinct (map fst ?ps)"
    using r(1,2) plan_index_inj [of p] by (simp add: distinct_map o_def)
  have old: "list_all (\<lambda>r. tr_seq r \<le> ?b) (load_turns ?id (dp_db d))"
    unfolding ts(1) len [symmetric] by (auto simp: ledger_rows_def list_all_iff set_zip turn_row_def)
  have "load_turns ?id (dp_db d') = ledger_rows ne ?id (ts @ concat (map (pair_turns now) (map (entry_pair ?self) tr)))"
    unfolding db persist_pairs_load [OF ok dist old] ts(1)
      sort_hooks [OF r(1,2) validate_plan_accepts(3) [OF v] r(3), of "entry_pair ?self"]
    using ledger_pairs [of ne ?id ts now "map (entry_pair ?self) tr"] by (simp add: len)
  moreover have "map untimed (concat (map (pair_turns now) (map (entry_pair ?self) tr))) = step_turns ?self tr"
    by (induction tr) (simp_all add: step_turns_def pair_turns_def)
  ultimately have rows: "\<exists>ts'. load_turns ?id (dp_db d') = ledger_rows ne ?id ts'
      \<and> map untimed ts' = map untimed (cs_turns (dp_conv d'))"
    unfolding turns ts(2) [symmetric] by (metis map_append)
  have client: "map_option cv_client_id (conv_get ?id (dp_db d')) = Some (cs_client_id (dp_conv d))"
    using mir(1) by (simp add: db persist_pairs_client mirrored_def)
  have "length (cs_turns (dp_conv d')) = length (cs_turns (dp_conv d)) + 2 * length tr"
    using turns [THEN arg_cong [of _ _ length]] by (simp add: length_step_turns)
  then show "mirrored ne (dp_conv d') (dp_db d')"
    using rows client mem sq mir(1) persist_pairs_ok [OF ok(1)] by (simp add: mirrored_def db)
qed

text \<open>The rounds after the first, the reply, and a whole dispatch.\<close>

lemma continue_ledger:
  assumes "continue_rounds ne nd wd pl msg cat started base k rnd depth acc used d = Some (acc', used', d')"
    and "mirrored ne (dp_conv d) (dp_db d)" "cs_next_seq (dp_conv d) = base + 2 * int (length (fst acc))"
    and "map untimed (cs_turns (dp_conv d)) = us @ step_turns (node_id ne nd) (fst acc)"
  shows "mirrored ne (dp_conv d') (dp_db d')
    \<and> map untimed (cs_turns (dp_conv d')) = us @ step_turns (node_id ne nd) (fst acc')"
  using assms
proof (induction k arbitrary: rnd depth acc used d)
  case (Suc k)
  from Suc.prems(1) show ?case
  proof (cases rule: continue_step)
    case stop
    then show ?thesis using Suc.prems(2,4) by simp
  next
    case (go p n db tr bb d2 d3 depth2)
    have m2: "mirrored ne (dp_conv (d2\<lparr>dp_db := db\<rparr>)) (dp_db (d2\<lparr>dp_db := db\<rparr>))"
      using mirrored_insert [OF Suc.prems(2) go(6)] go(3) by simp
    have sq: "cs_next_seq (dp_conv (d2\<lparr>dp_db := db\<rparr>)) = base + 2 * int (length (fst acc))"
      using Suc.prems(3) go(3) by simp
    note r = mirrored_round [OF go(7) go(1) m2 sq]
    show ?thesis
    proof (rule Suc.IH [OF go(8)])
      show "cs_next_seq (dp_conv (d3\<lparr>dp_db := close_run wd (rnd + 1) ''done'' (wd_clock wd (AtRoundEnd rnd)) (dp_db d3)\<rparr>))
          = base + 2 * int (length (fst (fst acc @ tr, merge_blackboard (wd_hash_order wd) rnd bb (snd acc))))"
        using r(3) Suc.prems(3) go(3) by simp
    qed (use r(2) mirrored_close [OF r(1)] Suc.prems(4) go(3) in simp_all)
  qed
qed simp

lemma reflect_ledger:
  assumes "mirrored ne (dp_conv d) (dp_db d)" "reflect_only ne wd pl msg bb un tr rounds d = (res, d')"
  shows "mirrored ne (dp_conv d') (dp_db d')"
    "map untimed (cs_turns (dp_conv d')) = map untimed (cs_turns (dp_conv d))
       @ (case res of Inr out \<Rightarrow> [TAssistant (do_reply out) (do_model out) 0] | Inl _ \<Rightarrow> [])"
    "res = Inr out \<Longrightarrow> do_trace out = tr \<and> do_rounds out = rounds"
proof -
  let ?d = "emit pl Reflecting d"
  let ?args = "json_obj ([(''messages'', JArr (reflect_messages (serde_text ne) (wd_alphanumeric wd) (dp_conv ?d)
      msg bb un)), (''temperature'', JFloat ''0.2'')] @ opt_entry ''model'' JStr (pl_hint pl))"
  have "mirrored ne (dp_conv d') (dp_db d')
    \<and> map untimed (cs_turns (dp_conv d')) = map untimed (cs_turns (dp_conv d))
       @ (case res of Inr out \<Rightarrow> [TAssistant (do_reply out) (do_model out) 0] | Inl _ \<Rightarrow> [])
    \<and> (\<forall>out. res = Inr out \<longrightarrow> do_trace out = tr \<and> do_rounds out = rounds)"
  proof (cases "pl_llm pl ''chat'' ?args")
    case (Inl e)
    then have "res = Inl (Adapter e)" "d' = ?d" using assms(2) by (simp_all add: reflect_only_def Let_def)
    then show ?thesis using assms(1) by simp
  next
    case (Inr resp)
    let ?c = "reply_text (serde_text ne) (map_option snd bb)
      (trim (case resp_content resp of Some c \<Rightarrow> c | None \<Rightarrow> []))"
    let ?u = "case Option.bind (json_get ''model'' resp) as_str of Some m \<Rightarrow> Some m | None \<Rightarrow> pl_hint pl"
    let ?t = "TAssistant ?c ?u (wd_clock wd AtReply)"
    obtain db where db: "persist_last ne (push_turn ?t (dp_conv d)) (dp_db d) = (Inr (), db)"
      "mirrored ne (push_turn ?t (dp_conv d)) db" using mirrored_push [OF assms(1)] .
    have "res = Inr \<lparr>do_reply = ?c, do_model = ?u, do_trace = tr, do_rounds = rounds\<rparr>"
      "dp_conv d' = push_turn ?t (dp_conv d)" "dp_db d' = db"
      using assms(2) Inr db(1) by (simp_all add: reflect_only_def Let_def push_assistant_def, auto)
    then show ?thesis using db(2) by (simp add: push_turns)
  qed
  then show "mirrored ne (dp_conv d') (dp_db d')"
    "map untimed (cs_turns (dp_conv d')) = map untimed (cs_turns (dp_conv d))
       @ (case res of Inr out \<Rightarrow> [TAssistant (do_reply out) (do_model out) 0] | Inl _ \<Rightarrow> [])"
    "res = Inr out \<Longrightarrow> do_trace out = tr \<and> do_rounds out = rounds" by blast+
qed

section \<open>The stages of a dispatch\<close>

lemma run_stages:
  assumes "run_and_reflect ne nd wd pl msg cat un p d = Some (res, d')"
  obtains (refused) e where "res = Inl e" "dp_conv d' = dp_conv d" "dp_db d' = dp_db d" "dp_calls d' = dp_calls d"
    | (ran) db d0 tr1 bb1 d1 depth tr bb used d2 d3 st where
      "run_insert (running_row ne wd (dp_conv d) 1 p (wd_clock wd AtStart)) (dp_db d) = Inr db"
      "dp_conv d0 = dp_conv d" "dp_db d0 = db" "dp_calls d0 = dp_calls d"
      "execute_round ne nd wd pl cat 1 p (cs_next_seq (dp_conv d)) 0 (wd_clock wd AtStart) d0 = Some ((tr1, bb1), d1)"
      "continue_rounds ne nd wd pl msg cat (wd_clock wd AtStart) (cs_next_seq (dp_conv d)) 1 1 depth (tr1, bb1) 1 d1
         = Some ((tr, bb), used, d2)"
      "reflect_only ne wd pl msg (Some (blackboard_summary (serde_text ne) tr, bb)) un tr used d2 = (res, d3)"
      "d' = d3\<lparr>dp_db := close_run wd 1 st (wd_clock wd AtClose) (dp_db d3)\<rparr>"
      "st \<in> set run_statuses" "st \<noteq> ''running''"
proof -
  let ?d = "emit pl (PlanReady (map (step_info cat) p) 1) d"
  show thesis
  proof (cases "run_insert (running_row ne wd (dp_conv d) 1 p (wd_clock wd AtStart)) (dp_db d)")
    case (Inl e)
    then show thesis using assms by (intro refused) (auto simp: run_and_reflect_def Let_def)
  next
    case (Inr db)
    note body = assms [unfolded run_and_reflect_def Let_def emit_fields Inr sum.case next_seq_def add_diff_cancel_right']
    obtain acc d1 where ex: "execute_round ne nd wd pl cat 1 p (cs_next_seq (dp_conv d)) 0 (wd_clock wd AtStart)
        (?d\<lparr>dp_db := db\<rparr>) = Some (acc, d1)"
      using body by (auto split: option.splits)
    obtain depth where dep: "plan_depth p = Some depth" using body ex by (auto split: option.splits)
    have two: "MAX_PLAN_ROUNDS - 1 = 1" by (simp add: MAX_PLAN_ROUNDS_def)
    note rest = body [unfolded ex dep option.case prod.case two]
    obtain tr bb used d2 where co: "continue_rounds ne nd wd pl msg cat (wd_clock wd AtStart) (cs_next_seq (dp_conv d)) 1 1
        depth acc 1 d1 = Some ((tr, bb), used, d2)"
      using rest by (auto simp del: continue_rounds.simps split: option.splits prod.splits)
    obtain r d3 where re: "reflect_only ne wd pl msg (Some (blackboard_summary (serde_text ne) tr, bb)) un tr used d2
        = (r, d3)" by force
    let ?st = "case r of Inr _ \<Rightarrow> ''done'' | Inl _ \<Rightarrow> ''failed''"
    have fin: "res = r" "d' = d3\<lparr>dp_db := close_run wd 1 ?st (wd_clock wd AtClose) (dp_db d3)\<rparr>"
      using rest [unfolded co re option.case prod.case] by auto
    obtain tr1 bb1 where acc: "acc = (tr1, bb1)" by force
    show thesis
    proof (rule ran [OF Inr _ _ _ ex [unfolded acc] co [unfolded acc]])
      show "reflect_only ne wd pl msg (Some (blackboard_summary (serde_text ne) tr, bb)) un tr used d2 = (res, d3)"
        using re fin(1) by simp
      show "d' = d3\<lparr>dp_db := close_run wd 1 ?st (wd_clock wd AtClose) (dp_db d3)\<rparr>" by (rule fin(2))
      show "?st \<in> set run_statuses" "?st \<noteq> ''running''" by (cases r; simp add: run_statuses_def)+
    qed simp_all
  qed
qed

lemma dispatch_stages:
  assumes "dispatch_inner ne nd wd pl inp d = Some (res, d')"
  obtains (unresolved) cat r where "scoped_catalog ne nd wd inp = (cat, r)" "rs_unresolved r \<noteq> []"
      "res = Inl (UnresolvedMentions (rs_unresolved r))" "d' = d"
    | (unsaved) e db where "persist_last ne (push_user_input inp (wd_clock wd AtUser) (dp_conv d)) (dp_db d) = (Inl e, db)"
      "dp_conv d' = push_user_input inp (wd_clock wd AtUser) (dp_conv d)" "dp_db d' = db" "dp_calls d' = dp_calls d"
      "\<And>out. res \<noteq> Inr out"
    | (unplanned) e db where "persist_last ne (push_user_input inp (wd_clock wd AtUser) (dp_conv d)) (dp_db d) = (Inr (), db)"
      "dp_conv d' = push_user_input inp (wd_clock wd AtUser) (dp_conv d)" "dp_db d' = db"
      "dp_calls d' \<le> dp_calls d + 2" "res = Inl e"
    | (talked) db d2 un where "persist_last ne (push_user_input inp (wd_clock wd AtUser) (dp_conv d)) (dp_db d) = (Inr (), db)"
      "dp_conv d2 = push_user_input inp (wd_clock wd AtUser) (dp_conv d)" "dp_db d2 = db" "dp_calls d2 \<le> dp_calls d + 2"
      "reflect_only ne wd pl (planner_text inp) None un [] 1 d2 = (res, d')"
    | (ran) db d2 cat un p where "persist_last ne (push_user_input inp (wd_clock wd AtUser) (dp_conv d)) (dp_db d) = (Inr (), db)"
      "dp_conv d2 = push_user_input inp (wd_clock wd AtUser) (dp_conv d)" "dp_db d2 = db" "dp_calls d2 \<le> dp_calls d + 2"
      "validate_plan (wd_schema wd) cat p = Some (Inr ())"
      "run_and_reflect ne nd wd pl (planner_text inp) cat un p d2 = Some (res, d')"
proof -
  let ?cs = "push_user_input inp (wd_clock wd AtUser) (dp_conv d)" and ?msg = "planner_text inp"
  obtain cat0 r where sc: "scoped_catalog ne nd wd inp = (cat0, r)" by force
  show thesis
  proof (cases "rs_unresolved r = []")
    case False
    then show thesis using assms sc by (intro unresolved [OF sc]) (simp_all add: dispatch_inner_def Let_def)
  next
    case True
    obtain pr db where pe: "persist_last ne ?cs (dp_db d) = (pr, db)" by force
    show thesis
    proof (cases pr)
      case (Inl e)
      then show thesis using assms sc True pe by (intro unsaved [OF pe [unfolded Inl]]) (auto simp: dispatch_inner_def Let_def)
    next
      case (Inr u)
      then have pe: "persist_last ne ?cs (dp_db d) = (Inr (), db)" using pe by simp
      let ?d1 = "d\<lparr>dp_conv := ?cs, dp_db := db\<rparr>" and ?cat = "filter_with_scores (pl_score pl cat0 ?msg) REMOTE_TOP_K cat0"
      show thesis
      proof (cases "pc_compile (pl_compiler pl) (dp_calls d) ?msg ?cat")
        case (Inl e)
        then show thesis using assms sc True pe by (intro unplanned [OF pe]) (auto simp: dispatch_inner_def Let_def)
      next
        case (Inr compiled)
        let ?conf = "pc_confidence (pl_compiler pl) compiled ?cat"
        let ?d2 = "if ?conf < 1 / 2 then emit pl (LowConfidence ?conf) ?d1 else ?d1"
        have same: "dp_conv ?d2 = ?cs" "dp_db ?d2 = db" "dp_calls ?d2 = dp_calls d" by simp_all
        note body = assms [unfolded dispatch_inner_def Let_def sc prod.case True pe sum.case] and comp = Inr
        obtain out n where out: "resolve_plan (pl_compiler pl) (wd_schema wd) ?msg ?cat compiled (dp_calls d + 1) = Some (out, n)"
          using body comp by (cases "?conf < 1 / 2") (auto split: option.splits)
        note rv = resolve_valid [OF out]
        show thesis
        proof (cases out)
          case (ValidPlan p)
          have "run_and_reflect ne nd wd pl ?msg ?cat [] p (?d2\<lparr>dp_calls := n\<rparr>) = Some (res, d')"
            using body comp out ValidPlan by (cases "?conf < 1 / 2") simp_all
          then show thesis using rv same ValidPlan by (intro ran [OF pe _ _ _ _, where ?d2.0 = "?d2\<lparr>dp_calls := n\<rparr>"]) simp_all
        next
          case EmptyPlan
          have "reflect_only ne wd pl ?msg None [] [] 1 (emit pl (PlanReady [] 1) (?d2\<lparr>dp_calls := n\<rparr>)) = (res, d')"
            using body comp out EmptyPlan by (cases "?conf < 1 / 2") simp_all
          then show thesis using rv(1) same by (intro talked [OF pe, where ?d2.0 = "emit pl (PlanReady [] 1) (?d2\<lparr>dp_calls := n\<rparr>)"]) simp_all
        next
          case (InvalidPlan e)
          have "reflect_only ne wd pl ?msg None [] [] 1 (emit pl (PlanReady [] 1) (?d2\<lparr>dp_calls := n\<rparr>)) = (res, d')"
            using body comp out InvalidPlan by (cases "?conf < 1 / 2") simp_all
          then show thesis using rv(1) same by (intro talked [OF pe, where ?d2.0 = "emit pl (PlanReady [] 1) (?d2\<lparr>dp_calls := n\<rparr>)"]) simp_all
        qed
      qed
    qed
  qed
qed

definition reply_turns :: "(node_error, dispatch_outcome) result \<Rightarrow> turn list" where
  "reply_turns res = (case res of Inr out \<Rightarrow> [TAssistant (do_reply out) (do_model out) 0] | Inl _ \<Rightarrow> [])"

lemma run_ledger:
  assumes "run_and_reflect ne nd wd pl msg cat un p d = Some (res, d')" "validate_plan js cat' p = Some (Inr ())"
    and "mirrored ne (dp_conv d) (dp_db d)"
  shows "mirrored ne (dp_conv d') (dp_db d')
    \<and> (\<exists>tr. map untimed (cs_turns (dp_conv d')) = map untimed (cs_turns (dp_conv d))
         @ step_turns (node_id ne nd) tr @ reply_turns res \<and> (\<forall>out. res = Inr out \<longrightarrow> tr = do_trace out))"
  using assms(1)
proof (cases rule: run_stages)
  case (refused e)
  then show ?thesis using assms(3) by (intro conjI exI [of _ "[]"]) (simp_all add: reply_turns_def)
next
  case (ran db d0 tr1 bb1 d1 depth tr bb used d2 d3 st)
  have m0: "mirrored ne (dp_conv d0) (dp_db d0)" using mirrored_insert [OF assms(3) ran(1)] ran(2,3) by simp
  have sq: "cs_next_seq (dp_conv d0) = cs_next_seq (dp_conv d) + 2 * int 0" using ran(2) by simp
  note r1 = mirrored_round [OF ran(5) assms(2) m0 sq]
  have r2: "mirrored ne (dp_conv d2) (dp_db d2)
      \<and> map untimed (cs_turns (dp_conv d2)) = map untimed (cs_turns (dp_conv d)) @ step_turns (node_id ne nd) tr"
    using continue_ledger [OF ran(6) r1(1), of "map untimed (cs_turns (dp_conv d))"] r1(2,3) ran(2,3)
    by simp
  note r3 = reflect_ledger [OF conjunct1 [OF r2] ran(7)]
  have "mirrored ne (dp_conv d') (dp_db d')" using mirrored_close [OF r3(1)] ran(8) by simp
  moreover have "map untimed (cs_turns (dp_conv d')) = map untimed (cs_turns (dp_conv d))
      @ step_turns (node_id ne nd) tr @ reply_turns res"
    using r3(2) r2 ran(8) by (simp add: reply_turns_def)
  moreover have "do_trace out = tr" if "res = Inr out" for out using r3(3) [OF that] by simp
  ultimately show ?thesis by metis
qed

text \<open>What a message adds: nothing, or itself, the steps that ran, and the reply if there is one.\<close>

definition message_turns :: "string \<Rightarrow> user_input \<Rightarrow> trace_entry list \<Rightarrow> (node_error, dispatch_outcome) result \<Rightarrow> turn list" where
  "message_turns self_id inp tr res =
     TUser (ui_text inp) (ui_attachments inp) 0 # step_turns self_id tr @ reply_turns res"

lemma dispatch_ledger:
  assumes "dispatch_inner ne nd wd pl inp d = Some (res, d')" "mirrored ne (dp_conv d) (dp_db d)"
  shows "mirrored ne (dp_conv d') (dp_db d')
    \<and> (\<exists>us. map untimed (cs_turns (dp_conv d')) = map untimed (cs_turns (dp_conv d)) @ us
       \<and> (us = [] \<and> (\<exists>e. res = Inl e)
          \<or> (\<exists>tr. us = message_turns (node_id ne nd) inp tr res \<and> (\<forall>out. res = Inr out \<longrightarrow> tr = do_trace out))))"
proof -
  let ?t = "TUser (ui_text inp) (ui_attachments inp) (wd_clock wd AtUser)"
  obtain db0 where db0: "persist_last ne (push_user_input inp (wd_clock wd AtUser) (dp_conv d)) (dp_db d) = (Inr (), db0)"
    "mirrored ne (push_turn ?t (dp_conv d)) db0"
    using mirrored_push [OF assms(2), of ?t] by (metis push_user_input_def)
  have turn: "untimed ?t = TUser (ui_text inp) (ui_attachments inp) 0" by simp
  from assms(1) show ?thesis
  proof (cases rule: dispatch_stages)
    case (unresolved cat r)
    then show ?thesis using assms(2) by simp
  next
    case (unsaved e db)
    then show ?thesis using db0(1) by simp
  next
    case (unplanned e db)
    then have "map untimed (cs_turns (dp_conv d')) = map untimed (cs_turns (dp_conv d)) @ message_turns (node_id ne nd) inp [] res"
      by (simp add: push_user_input_def push_turns message_turns_def reply_turns_def)
    then show ?thesis using unplanned db0 by (auto simp: push_user_input_def)
  next
    case (talked db d2 un)
    then have m: "mirrored ne (dp_conv d2) (dp_db d2)" using db0 by (simp add: push_user_input_def)
    note r = reflect_ledger [OF m talked(5)]
    have "map untimed (cs_turns (dp_conv d')) = map untimed (cs_turns (dp_conv d)) @ message_turns (node_id ne nd) inp [] res"
      using r(2) talked(2) by (simp add: push_user_input_def push_turns message_turns_def reply_turns_def)
    then show ?thesis using r(1,3) by (intro conjI exI [of _ "message_turns (node_id ne nd) inp [] res"] disjI2 exI [of _ "[]"]) auto
  next
    case (ran db d2 cat un p)
    then have m: "mirrored ne (dp_conv d2) (dp_db d2)" using db0 by (simp add: push_user_input_def)
    obtain tr where tr: "map untimed (cs_turns (dp_conv d')) = map untimed (cs_turns (dp_conv d2))
         @ step_turns (node_id ne nd) tr @ reply_turns res" "\<forall>out. res = Inr out \<longrightarrow> tr = do_trace out"
      and mir: "mirrored ne (dp_conv d') (dp_db d')"
      using run_ledger [OF ran(6,5) m] by blast
    have "map untimed (cs_turns (dp_conv d')) = map untimed (cs_turns (dp_conv d)) @ message_turns (node_id ne nd) inp tr res"
      using tr(1) ran(2) by (simp add: push_user_input_def push_turns message_turns_def)
    then show ?thesis using mir tr(2) by blast
  qed
qed

section \<open>Journal and bounds\<close>

lemma run_journal:
  assumes "run_and_reflect ne nd wd pl msg cat un p d = Some (res, d')"
  shows "open_runs (dp_db d') \<subseteq> open_runs (dp_db d)"
  using assms
proof (cases rule: run_stages)
  case (refused e)
  then show ?thesis by simp
next
  case (ran db d0 tr1 bb1 d1 depth tr bb used d2 d3 st)
  let ?id = "''run_'' @ wd_run_uuid wd 1"
  have "open_runs db \<subseteq> insert ?id (open_runs (dp_db d))"
    using open_insert [OF ran(1)] by (simp add: running_row_def)
  moreover have "open_runs (dp_db d1) = open_runs db"
    using open_same [OF execute_round_runs [OF ran(5)]] ran(3) by simp
  moreover note continue_runs [OF ran(6)]
  moreover have "open_runs (dp_db d3) = open_runs (dp_db d2)"
    using open_same [OF reflect_only_runs(1) [OF ran(7)]] .
  moreover have "open_runs (dp_db d') = open_runs (dp_db d3) - {?id}"
    using open_close [OF ran(9,10), of wd 1] ran(8) by simp
  ultimately show ?thesis by auto
qed

lemma dispatch_journal:
  assumes "dispatch_inner ne nd wd pl inp d = Some (res, d')"
  shows "open_runs (dp_db d') \<subseteq> open_runs (dp_db d)"
  using assms
proof (cases rule: dispatch_stages)
  case (talked db d2 un)
  then show ?thesis
    using open_same [OF persist_last_runs [OF talked(1)]] open_same [OF reflect_only_runs(1) [OF talked(5)]] by simp
next
  case (ran db d2 cat un p)
  then show ?thesis using run_journal [OF ran(6)] open_same [OF persist_last_runs [OF ran(1)]] by simp
next
  case (unsaved e db)
  then show ?thesis using open_same [OF persist_last_runs [OF unsaved(1)]] by simp
next
  case (unplanned e db)
  then show ?thesis using open_same [OF persist_last_runs [OF unplanned(1)]] by simp
qed simp

lemma run_bounds:
  assumes "run_and_reflect ne nd wd pl msg cat un p d = Some (res, d')" "validate_plan js cat' p = Some (Inr ())"
  shows "dp_calls d' \<le> dp_calls d + 2
    \<and> (\<forall>out. res = Inr out \<longrightarrow> do_rounds out \<le> MAX_PLAN_ROUNDS \<and> length (do_trace out) \<le> 2 * MAX_PLAN_STEPS)"
  using assms(1)
proof (cases rule: run_stages)
  case (refused e)
  then show ?thesis by simp
next
  case (ran db d0 tr1 bb1 d1 depth tr bb used d2 d3 st)
  note e = execute_round_length [OF ran(5) assms(2)] and c = continue_bounds [OF ran(6)]
  have "do_trace out = tr \<and> do_rounds out = used" if "res = Inr out" for out
    using ran(7) that by (auto simp: reflect_only_def Let_def split: sum.splits prod.splits)
  then show ?thesis
    using e c reflect_only_runs(2) [OF ran(7)] ran(4,8) by (auto simp: MAX_PLAN_ROUNDS_def MAX_PLAN_STEPS_def)
qed

lemma dispatch_bounds:
  assumes "dispatch_inner ne nd wd pl inp d = Some (res, d')"
  shows "dp_calls d' \<le> dp_calls d + 4
    \<and> (\<forall>out. res = Inr out \<longrightarrow> do_rounds out \<le> MAX_PLAN_ROUNDS \<and> length (do_trace out) \<le> 2 * MAX_PLAN_STEPS)"
  using assms
proof (cases rule: dispatch_stages)
  case (talked db d2 un)
  have "do_trace out = [] \<and> do_rounds out = 1" if "res = Inr out" for out
    using talked(5) that by (auto simp: reflect_only_def Let_def split: sum.splits prod.splits)
  then show ?thesis using talked(4) reflect_only_runs(2) [OF talked(5)] by (auto simp: MAX_PLAN_ROUNDS_def)
next
  case (ran db d2 cat un p)
  then show ?thesis using run_bounds [OF ran(6,5)] by auto
qed auto

section \<open>Properties\<close>

text \<open>
  C2 (the tables refine the dispatch). If the tables hold the conversation when a dispatch starts,
  they hold it when it returns, whatever order its steps finished in; nothing said before is lost,
  and an answered message has added exactly itself, the call and the result of every step that ran,
  in plan order, and the reply.
\<close>

theorem dispatch_keeps_ledger:
  assumes "dispatch_inner ne nd wd pl inp d = Some (res, d')" "mirrored ne (dp_conv d) (dp_db d)"
  shows "mirrored ne (dp_conv d') (dp_db d')
    \<and> (\<exists>us. map untimed (cs_turns (dp_conv d')) = map untimed (cs_turns (dp_conv d)) @ us
       \<and> (\<forall>out. res = Inr out \<longrightarrow> us = TUser (ui_text inp) (ui_attachments inp) 0
            # step_turns (node_id ne nd) (do_trace out) @ [TAssistant (do_reply out) (do_model out) 0]))"
  using dispatch_ledger [OF assms] by (auto simp: message_turns_def reply_turns_def)

definition toy_world :: world where
  "toy_world = \<lparr>wd_schema = (\<lambda>_. Inl []), wd_clock = (\<lambda>_. 5), wd_call_uuid = (\<lambda>r k. dec k), wd_run_uuid = dec,
     wd_labels = \<lparr>to_lowercase = id, civil = (\<lambda>_. None)\<rparr>, wd_schedule = (\<lambda>_. []),
     wd_hash_order = id, wd_alphanumeric = (\<lambda>_. True), wd_peers = []\<rparr>"

definition toy_planner :: planner where
  "toy_planner = \<lparr>pl_compiler = \<lparr>pc_compile = (\<lambda>_ _ _. Inr []), pc_confidence = (\<lambda>_ _. 1)\<rparr>,
     pl_llm = (\<lambda>_ _. Inr (json_obj [(''message'', json_obj [(''content'', JStr ''fine'')])])),
     pl_hint = None, pl_score = (\<lambda>c _. map (\<lambda>_. 1) c), pl_streaming = False\<rparr>"

definition toy_dispatch :: dispatch_state where
  "toy_dispatch = \<lparr>dp_conv = conv_new ''c'' ''u'' None 1, dp_db = toy_conv_db, dp_audit = [],
     dp_blobs = toy_blobs, dp_events = [], dp_calls = 0\<rparr>"

abbreviation toy_dispatched :: "((node_error, dispatch_outcome) result \<times> dispatch_state) option" where
  "toy_dispatched \<equiv> dispatch_inner toy_node_env toy_node toy_world toy_planner (input_of_text ''hi'') toy_dispatch"

lemma toy_mirrored: "mirrored toy_node_env (dp_conv toy_dispatch) (dp_db toy_dispatch)"
  by (simp add: mirrored_def toy_dispatch_def toy_conv_db_def conv_new_def db_ok_def unique_key_def
      conv_get_def select_by_def load_turns_def ledger_rows_def)

lemma toy_scope:
  "scoped_catalog toy_node_env toy_node toy_world (input_of_text ''hi'') = ([], empty_resolved)"
proof -
  have "filter listable (reg_all (nd_registry toy_node)) = []"
    by (simp add: toy_node_def from_entries_def reg_insert_def reg_all_def listable_def toy_decl_def filter_empty_conv)
  moreover have "scope_from_text ''hi'' = empty_scope" by code_simp
  ultimately show ?thesis
    by (simp add: scoped_catalog_def catalog_build_def toy_world_def input_of_text_def empty_scope_def
        scope_is_empty_def peer_list_def limit_def)
qed

lemma toy_answered:
  obtains d' where "toy_dispatched
    = Some (Inr \<lparr>do_reply = ''fine'', do_model = None, do_trace = [], do_rounds = 1\<rparr>, d')"
proof -
  let ?u = "TUser ''hi'' [] 5" and ?a = "TAssistant ''fine'' None 5" and ?c = "conv_new ''c'' ''u'' None 1"
  have m: "mirrored toy_node_env ?c toy_conv_db" using toy_mirrored by (simp add: toy_dispatch_def)
  obtain db where db: "persist_last toy_node_env (push_turn ?u ?c) toy_conv_db = (Inr (), db)"
    "mirrored toy_node_env (push_turn ?u ?c) db" using mirrored_push [OF m] .
  obtain db2 where db2: "persist_last toy_node_env (push_turn ?a (push_turn ?u ?c)) db = (Inr (), db2)"
    using mirrored_push [OF db(2)] .
  have "trim ''fine'' = ''fine''" by code_simp
  then have "map_option fst toy_dispatched
      = Some (Inr \<lparr>do_reply = ''fine'', do_model = None, do_trace = [], do_rounds = 1\<rparr>)"
    unfolding dispatch_inner_def toy_scope
    by (simp add: toy_world_def toy_dispatch_def toy_planner_def db(1) db2
        input_of_text_def push_user_input_def push_assistant_def empty_resolved_def Let_def resolve_plan_def
        reflect_only_def resp_content_def reply_text_def)
  then show thesis using that by (cases toy_dispatched) force+
qed

lemma dispatch_keeps_ledger_witness:
  "\<exists>out d'. toy_dispatched = Some (Inr out, d') \<and> mirrored toy_node_env (dp_conv d') (dp_db d')
    \<and> map untimed (cs_turns (dp_conv d')) = [TUser ''hi'' [] 0, TAssistant ''fine'' None 0]"
proof (rule toy_answered)
  fix d' assume d: "toy_dispatched
    = Some (Inr \<lparr>do_reply = ''fine'', do_model = None, do_trace = [], do_rounds = 1\<rparr>, d')"
  have none: "cs_turns (dp_conv toy_dispatch) = []" by (simp add: toy_dispatch_def conv_new_def)
  show ?thesis
    using dispatch_keeps_ledger [OF d toy_mirrored] d unfolding none by (auto simp: input_of_text_def)
qed

text \<open>
  C24 (the journal is closed). A dispatch that returns, with a reply or an error, leaves no run of
  its own marked as running: the rows still running were running when it began.
\<close>

theorem dispatch_closes_runs:
  assumes "dispatch_inner ne nd wd pl inp d = Some (res, d')"
  shows "open_runs (dp_db d') \<subseteq> open_runs (dp_db d)"
  using assms by (rule dispatch_journal)

lemma dispatch_closes_runs_witness:
  "\<exists>res d'. toy_dispatched = Some (res, d') \<and> open_runs (dp_db d') = {}"
proof (rule toy_answered)
  fix d' assume d: "toy_dispatched
    = Some (Inr \<lparr>do_reply = ''fine'', do_model = None, do_trace = [], do_rounds = 1\<rparr>, d')"
  have "open_runs (dp_db toy_dispatch) = {}" by (simp add: open_runs_def toy_dispatch_def toy_conv_db_def)
  then show ?thesis using dispatch_closes_runs [OF d] d by auto
qed





text \<open>
  (direct chat keeps the ledger). In the mode without a plan the message is recorded first and
  the reply last, nothing else, and the tables hold both.
\<close>

theorem direct_chat_recorded:
  assumes "stored ne (dp_conv d) (dp_db d)" "direct_dispatch ne wd pl ov inp d = (res, d')"
  shows "stored ne (dp_conv d') (dp_db d') \<and> cs_turns (dp_conv d') = cs_turns (dp_conv d)
      @ [TUser (ui_text inp) (ui_attachments inp) (wd_clock wd AtUser)]
      @ (case res of Inr out \<Rightarrow> [TAssistant (do_reply out) (do_model out) (wd_clock wd AtReply)] | Inl _ \<Rightarrow> [])"
  using assms by (rule exact.direct_dispatch_ledger)

lemma direct_chat_recorded_witness:
  "\<exists>res d'. direct_dispatch toy_node_env toy_world toy_planner None (input_of_text ''hi'') toy_dispatch = (res, d')
    \<and> stored toy_node_env (dp_conv d') (dp_db d') \<and> hd (cs_turns (dp_conv d')) = TUser ''hi'' [] 5"
proof -
  have s: "stored toy_node_env (dp_conv toy_dispatch) (dp_db toy_dispatch)"
    by (simp add: stored_def toy_dispatch_def conv_new_def toy_conv_db_def conv_get_def select_by_def
        load_turns_def ledger_rows_def)
  obtain res d' where d: "direct_dispatch toy_node_env toy_world toy_planner None (input_of_text ''hi'') toy_dispatch
    = (res, d')" by force
  have "cs_turns (dp_conv toy_dispatch) = []" by (simp add: toy_dispatch_def conv_new_def)
  then show ?thesis using direct_chat_recorded [OF s d] d by (simp add: input_of_text_def toy_world_def)
qed

text \<open>
  (a reply can be lost). A reply that is exactly one reference, to a value that is not a
  string, is shown to the user as an empty message.
\<close>

theorem reference_reply_is_empty:
  assumes "plan_whole_template raw = Some inner" "lookup_path inner (map_of bb) = Some v" "as_str v = None"
  shows "reply_text show (Some bb) raw = []"
  using assms by (rule whole_reference_lost)

lemma reference_reply_is_empty_witness:
  "reply_text print_json (Some [(''s1'', JInt 42)]) ''${s1}'' = []"
proof (rule reference_reply_is_empty)
  show "plan_whole_template ''${s1}'' = Some ''s1''" by code_simp
  show "lookup_path ''s1'' (map_of [(''s1'', JInt 42)]) = Some (JInt 42)" by code_simp
qed simp

end
