(* ===== verification/Node_Runtime.thy ===== *)
theory Node_Runtime
  imports Dispatch_Ledger Json_Text
begin

text \<open>
  \<open>crates/node/src/runtime.rs\<close>: the runtime that serves the messages of many clients. A message
  takes the lock of its conversation and one of the planner slots, finds the state of the
  conversation in a cache or loads it from the tables, dispatches, and stores the state back, or
  drops it when the dispatch failed. The \<open>lru\<close> crate is a parameter. A message is two transitions,
  one up to the loaded state and one from there to the end, and other handlers run between them; a
  dispatch itself is one transition on the tables. A handler that waits for a lock or a slot has no
  transition yet. The planners are fixed per message, so a language model may answer each message
  differently.
\<close>

section \<open>State\<close>

record runtime_config =
  max_concurrent_planners :: nat
  max_active_conversations :: nat

definition default_runtime_config :: runtime_config where
  "default_runtime_config = \<lparr>max_concurrent_planners = 4, max_active_conversations = 50\<rparr>"

text \<open>The cache: its operations, and the entries it holds. A \<open>get\<close> may reorder them.\<close>

record 'c lru =
  lru_new :: "nat \<Rightarrow> 'c"
  lru_get :: "string \<Rightarrow> 'c \<Rightarrow> conv_state option \<times> 'c"
  lru_put :: "string \<Rightarrow> conv_state \<Rightarrow> 'c \<Rightarrow> 'c"
  lru_pop :: "string \<Rightarrow> 'c \<Rightarrow> 'c"
  lru_entry :: "'c \<Rightarrow> string \<Rightarrow> conv_state option"

definition lru_law :: "'c lru \<Rightarrow> bool" where
  "lru_law lru \<longleftrightarrow>
     (\<forall>n k. lru_entry lru (lru_new lru n) k = None)
     \<and> (\<forall>k c. fst (lru_get lru k c) = lru_entry lru c k)
     \<and> (\<forall>k c j. lru_entry lru (snd (lru_get lru k c)) j = lru_entry lru c j)
     \<and> (\<forall>k v c. lru_entry lru (lru_put lru k v c) k = Some v)
     \<and> (\<forall>k v c j. j \<noteq> k \<longrightarrow> lru_entry lru (lru_put lru k v c) j \<in> {None, lru_entry lru c j})
     \<and> (\<forall>k c j. lru_entry lru (lru_pop lru k c) j = (if j = k then None else lru_entry lru c j))"

record 'c runtime =
  rt_config :: runtime_config
  rt_slots :: nat
  rt_locks :: "string \<Rightarrow> bool option"
  rt_cache :: 'c

definition runtime_new :: "'c lru \<Rightarrow> runtime_config \<Rightarrow> 'c runtime" where
  "runtime_new lru cfg =
     \<lparr>rt_config = cfg, rt_slots = max (max_concurrent_planners cfg) 1, rt_locks = (\<lambda>_. None),
      rt_cache = lru_new lru (max (max_active_conversations cfg) 1)\<rparr>"

datatype dispatch_mode = Auto | Direct

record dispatch_options =
  model_override :: "string option"

record planners =
  ps_planner :: planner
  ps_direct :: planner

fun planner_for :: "planners \<Rightarrow> dispatch_mode \<Rightarrow> planner" where
  "planner_for ps Auto = ps_planner ps"
| "planner_for ps Direct = ps_direct ps"

section \<open>Locks and slots\<close>

text \<open>A lock is created on demand and never removed; \<open>True\<close> stands for a lock that is held.\<close>

definition lock_for :: "string \<Rightarrow> 'c runtime \<Rightarrow> 'c runtime" where
  "lock_for i rt =
     (case rt_locks rt i of
        None \<Rightarrow> rt\<lparr>rt_locks := (rt_locks rt)(i := Some False)\<rparr> | Some _ \<Rightarrow> rt)"

definition rt_acquire :: "string \<Rightarrow> 'c runtime \<Rightarrow> 'c runtime option" where
  "rt_acquire i rt0 =
     (let rt = lock_for i rt0 in
      if rt_locks rt i = Some True \<or> rt_slots rt = 0 then None
      else Some (rt\<lparr>rt_locks := (rt_locks rt)(i := Some True), rt_slots := rt_slots rt - 1\<rparr>))"

definition rt_release :: "string \<Rightarrow> 'c runtime \<Rightarrow> 'c runtime" where
  "rt_release i rt = rt\<lparr>rt_locks := (rt_locks rt)(i := Some False), rt_slots := rt_slots rt + 1\<rparr>"

section \<open>The cache\<close>

fun map_conv_err :: "conv_error \<Rightarrow> node_error" where
  "map_conv_err (ConvStorage s) = Storage (storage_error_text s)"
| "map_conv_err ConvSerde = NodeSerde []"
| "map_conv_err (ConvNotFound i) = InvalidPayload (''conversation not found: '' @ i)"
| "map_conv_err OwnershipMismatch = InvalidPayload ''ownership mismatch''"

definition load_state ::
  "'c lru \<Rightarrow> ('b, 'x) node_env_scheme \<Rightarrow> int \<Rightarrow> string \<Rightarrow> string \<Rightarrow> conv_db \<Rightarrow> 'c runtime
     \<Rightarrow> (node_error, conv_state) result \<times> 'c runtime" where
  "load_state lru ne now i client db rt =
     (case lru_get lru i (rt_cache rt) of
        (Some cs, c) \<Rightarrow>
          (if cs_client_id cs \<noteq> client then Inl (InvalidPayload ''ownership mismatch (cache)'') else Inr cs,
           rt\<lparr>rt_cache := c\<rparr>)
      | (None, c) \<Rightarrow>
          (case conv_load ne now i client db of
             Inl e \<Rightarrow> (Inl (map_conv_err e), rt\<lparr>rt_cache := c\<rparr>)
           | Inr cs \<Rightarrow> (Inr cs, rt\<lparr>rt_cache := lru_put lru i cs c\<rparr>)))"

definition store_in_cache :: "'c lru \<Rightarrow> conv_state \<Rightarrow> 'c runtime \<Rightarrow> 'c runtime" where
  "store_in_cache lru cs rt = rt\<lparr>rt_cache := lru_put lru (cs_id cs) cs (rt_cache rt)\<rparr>"

definition rt_evict :: "'c lru \<Rightarrow> string \<Rightarrow> 'c runtime \<Rightarrow> 'c runtime" where
  "rt_evict lru i rt = rt\<lparr>rt_cache := lru_pop lru i (rt_cache rt)\<rparr>"

section \<open>A message\<close>

text \<open>\<open>handle_user_message_with_opts\<close> up to the loaded state; \<open>None\<close> while it has to wait.\<close>

definition begin_message ::
  "'c lru \<Rightarrow> ('b, 'x) node_env_scheme \<Rightarrow> int \<Rightarrow> string \<Rightarrow> string \<Rightarrow> conv_db \<Rightarrow> 'c runtime
     \<Rightarrow> ((node_error, conv_state) result \<times> 'c runtime) option" where
  "begin_message lru ne now client i db rt =
     (case rt_acquire i rt of
        None \<Rightarrow> None
      | Some rt1 \<Rightarrow>
          (case load_state lru ne now i client db rt1 of
             (Inl e, rt2) \<Rightarrow> Some (Inl e, rt_release i rt2)
           | (Inr cs, rt2) \<Rightarrow> Some (Inr cs, rt2)))"

definition dispatch_by ::
  "('b, 'x) node_env_scheme \<Rightarrow> 'b node \<Rightarrow> world \<Rightarrow> planners \<Rightarrow> user_input \<Rightarrow> dispatch_mode \<Rightarrow> dispatch_options
     \<Rightarrow> dispatch_state \<Rightarrow> ((node_error, dispatch_outcome) result \<times> dispatch_state) option" where
  "dispatch_by ne nd wd ps inp md opts d =
     (case md of
        Auto \<Rightarrow> dispatch_inner ne nd wd (planner_for ps md) inp d
      | Direct \<Rightarrow> Some (direct_dispatch ne wd (planner_for ps md) (model_override opts) inp d))"

text \<open>The rest of it: dispatch, then the cache, then the guards are dropped.\<close>

definition end_message ::
  "'c lru \<Rightarrow> ('b, 'x) node_env_scheme \<Rightarrow> 'b node \<Rightarrow> world \<Rightarrow> planners \<Rightarrow> string \<Rightarrow> user_input \<Rightarrow> dispatch_mode
     \<Rightarrow> dispatch_options \<Rightarrow> dispatch_state \<Rightarrow> 'c runtime
     \<Rightarrow> ((node_error, dispatch_outcome) result \<times> dispatch_state \<times> 'c runtime) option" where
  "end_message lru ne nd wd ps i inp md opts d rt =
     (case dispatch_by ne nd wd ps inp md opts d of
        None \<Rightarrow> None
      | Some (Inl e, d') \<Rightarrow> Some (Inl e, d', rt_release i (rt_evict lru i rt))
      | Some (Inr out, d') \<Rightarrow> Some (Inr out, d', rt_release i (store_in_cache lru (dp_conv d') rt)))"

section \<open>The running node\<close>

text \<open>
  The runtime with the tables and the messages under way: their conversation, their client, the
  state they loaded.
\<close>

record 'c hub =
  hb_runtime :: "'c runtime"
  hb_db :: conv_db
  hb_audit :: audit_log
  hb_blobs :: blob_world
  hb_calls :: nat
  hb_flight :: "(string \<times> string \<times> conv_state) list"

definition hub_dispatch :: "'c hub \<Rightarrow> conv_state \<Rightarrow> dispatch_state" where
  "hub_dispatch h cs =
     \<lparr>dp_conv = cs, dp_db = hb_db h, dp_audit = hb_audit h, dp_blobs = hb_blobs h, dp_events = [],
      dp_calls = hb_calls h\<rparr>"

definition hub_after :: "'c hub \<Rightarrow> dispatch_state \<Rightarrow> 'c hub" where
  "hub_after h d =
     h\<lparr>hb_db := dp_db d, hb_audit := dp_audit d, hb_blobs := dp_blobs d, hb_calls := dp_calls d\<rparr>"

text \<open>
  A message on its own, with the events it sent. A streaming dispatch is one whose planner has a
  channel.
\<close>

definition handle_user_message_with_opts ::
  "'c lru \<Rightarrow> ('b, 'x) node_env_scheme \<Rightarrow> 'b node \<Rightarrow> world \<Rightarrow> planners \<Rightarrow> int \<Rightarrow> string \<Rightarrow> string \<Rightarrow> user_input
     \<Rightarrow> dispatch_mode \<Rightarrow> dispatch_options \<Rightarrow> 'c hub
     \<Rightarrow> ((node_error, dispatch_outcome) result \<times> ui_event list \<times> 'c hub) option" where
  "handle_user_message_with_opts lru ne nd wd ps now client i inp md opts h =
     (case begin_message lru ne now client i (hb_db h) (hb_runtime h) of
        None \<Rightarrow> None
      | Some (Inl e, rt) \<Rightarrow> Some (Inl e, [], h\<lparr>hb_runtime := rt\<rparr>)
      | Some (Inr cs, rt) \<Rightarrow>
          (case end_message lru ne nd wd ps i inp md opts (hub_dispatch h cs) rt of
             None \<Rightarrow> None
           | Some (res, d, rt') \<Rightarrow> Some (res, dp_events d, (hub_after h d)\<lparr>hb_runtime := rt'\<rparr>)))"

definition handle_user_message ::
  "'c lru \<Rightarrow> ('b, 'x) node_env_scheme \<Rightarrow> 'b node \<Rightarrow> world \<Rightarrow> planners \<Rightarrow> int \<Rightarrow> string \<Rightarrow> string \<Rightarrow> user_input
     \<Rightarrow> 'c hub \<Rightarrow> ((node_error, dispatch_outcome) result \<times> ui_event list \<times> 'c hub) option" where
  "handle_user_message lru ne nd wd ps now client i inp =
     handle_user_message_with_opts lru ne nd wd ps now client i inp Auto \<lparr>model_override = None\<rparr>"

definition streaming :: "planners \<Rightarrow> planners" where
  "streaming ps = \<lparr>ps_planner = (ps_planner ps)\<lparr>pl_streaming := True\<rparr>, ps_direct = (ps_direct ps)\<lparr>pl_streaming := True\<rparr>\<rparr>"

definition handle_user_message_streaming_with_opts ::
  "'c lru \<Rightarrow> ('b, 'x) node_env_scheme \<Rightarrow> 'b node \<Rightarrow> world \<Rightarrow> planners \<Rightarrow> int \<Rightarrow> string \<Rightarrow> string \<Rightarrow> user_input
     \<Rightarrow> dispatch_mode \<Rightarrow> dispatch_options \<Rightarrow> 'c hub
     \<Rightarrow> ((node_error, dispatch_outcome) result \<times> ui_event list \<times> 'c hub) option" where
  "handle_user_message_streaming_with_opts lru ne nd wd ps =
     handle_user_message_with_opts lru ne nd wd (streaming ps)"

text \<open>
  The steps: the two halves of a message, and what the routes for conversations do to the tables
  and the cache while messages are under way. An id drawn for a new conversation is not in use.
\<close>

inductive hub_step :: "'c lru \<Rightarrow> ('b, 'x) node_env_scheme \<Rightarrow> 'c hub \<Rightarrow> 'c hub \<Rightarrow> bool"
  for lru :: "'c lru" and ne :: "('b, 'x) node_env_scheme" where
  start: "begin_message lru ne now client i (hb_db h) (hb_runtime h) = Some (Inr cs, rt)
    \<Longrightarrow> hub_step lru ne h (h\<lparr>hb_runtime := rt, hb_flight := hb_flight h @ [(i, client, cs)]\<rparr>)"
| refuse: "begin_message lru ne now client i (hb_db h) (hb_runtime h) = Some (Inl e, rt)
    \<Longrightarrow> hub_step lru ne h (h\<lparr>hb_runtime := rt\<rparr>)"
| finish: "(i, client, cs) \<in> set (hb_flight h)
    \<Longrightarrow> end_message lru ne nd wd ps i inp md opts (hub_dispatch h cs) (hb_runtime h) = Some (res, d, rt)
    \<Longrightarrow> hub_step lru ne h
          ((hub_after h d)\<lparr>hb_runtime := rt, hb_flight := remove1 (i, client, cs) (hb_flight h)\<rparr>)"
| create: "conv_create uuid now client title (hb_db h) = (Inr cs, db)
    \<Longrightarrow> lru_entry lru (rt_cache (hb_runtime h)) (''conv_'' @ uuid) = None
    \<Longrightarrow> ''conv_'' @ uuid \<notin> fst ` set (hb_flight h)
    \<Longrightarrow> hub_step lru ne h (h\<lparr>hb_db := db\<rparr>)"
| retitle: "hub_step lru ne h (h\<lparr>hb_db := update_meta i title now (hb_db h)\<rparr>)"
| drop: "hub_step lru ne h (h\<lparr>hb_db := conv_delete i (hb_db h)\<rparr>)"
| forget: "hub_step lru ne h (h\<lparr>hb_runtime := rt_evict lru i (hb_runtime h)\<rparr>)"

inductive hub_reach :: "'c lru \<Rightarrow> ('b, 'x) node_env_scheme \<Rightarrow> 'c hub \<Rightarrow> 'c hub \<Rightarrow> bool"
  for lru :: "'c lru" and ne :: "('b, 'x) node_env_scheme" and h0 :: "'c hub" where
  hub_here: "hub_reach lru ne h0 h0"
| hub_next: "hub_reach lru ne h0 h \<Longrightarrow> hub_step lru ne h h' \<Longrightarrow> hub_reach lru ne h0 h'"


section \<open>What a dispatch leaves alone\<close>

text \<open>A change that touches one conversation only, and neither makes nor removes any.\<close>

definition confined :: "string \<Rightarrow> conv_db \<Rightarrow> conv_db \<Rightarrow> bool" where
  "confined i db db' \<longleftrightarrow>
     (\<forall>j. map_option cv_client_id (conv_get j db') = map_option cv_client_id (conv_get j db))
     \<and> (\<forall>j. j \<noteq> i \<longrightarrow> conv_get j db' = conv_get j db \<and> load_turns j db' = load_turns j db)"

lemma confined_refl [simp]: "confined i db db"
  by (simp add: confined_def)

lemma confined_trans: "confined i db db1 \<Longrightarrow> confined i db1 db2 \<Longrightarrow> confined i db db2"
  by (simp add: confined_def)

lemma confined_runs:
  assumes "conversations db' = conversations db" "turns db' = turns db"
  shows "confined i db db'"
  using assms by (simp add: confined_def conv_get_def load_turns_def)

lemma confined_insert: "run_insert r db = Inr db' \<Longrightarrow> confined i db db'"
  by (rule confined_runs) (auto simp: run_insert_def split: if_splits)

lemma confined_close: "confined i db (close_run wd rnd st now db)"
  by (rule confined_runs) (auto simp: close_run_def set_status_def split: if_splits sum.splits)

lemma confined_meta: "confined i db (update_meta i None now db)"
  by (auto simp: confined_def conv_get_meta load_turns_def option.map_comp o_def)

lemma confined_turn:
  assumes "insert_turn t db = Inr db'" "tr_conversation_id t = i"
  shows "confined i db db'"
  using assms by (auto simp: confined_def insert_turn_def load_turns_def conv_get_def split: if_splits)

lemma confined_loop:
  "append_loop now ts db = Inr db' \<Longrightarrow> \<forall>t\<in>set ts. tr_conversation_id t = i \<Longrightarrow> confined i db db'"
proof (induction ts arbitrary: db)
  case (Cons t ts)
  obtain db1 where db1: "insert_turn t db = Inr db1"
    "append_loop now ts (update_meta (tr_conversation_id t) None now db1) = Inr db'"
    using Cons.prems(1) by (auto split: sum.splits)
  have t: "tr_conversation_id t = i" using Cons.prems(2) by simp
  have "confined i (update_meta i None now db1) db'" using Cons.IH [OF db1(2)] Cons.prems(2) t by simp
  with confined_turn [OF db1(1) t] confined_meta show ?case by (metis confined_trans)
qed simp

lemma confined_append: "\<forall>t\<in>set ts. tr_conversation_id t = i \<Longrightarrow> confined i db (snd (append_turns ts now db))"
  by (auto simp: append_turns_def intro: confined_loop split: sum.split)

lemma confined_persist:
  assumes "persist_last ne cs db = (r, db')"
  shows "confined (cs_id cs) db db'"
proof -
  have "db' = db \<or> (\<exists>t now. tr_conversation_id t = cs_id cs \<and> db' = snd (append_turns [t] now db))"
    using assms
    by (auto simp: persist_last_def append_turn_def Let_def turn_row_def split: if_splits prod.splits sum.splits)
      (metis snd_conv turn_record.select_convs(1))+
  then show ?thesis by (auto intro!: confined_append)
qed

lemma confined_pairs: "confined i db (persist_pairs ne i b now ps db)"
proof (induction ps arbitrary: db)
  case (Cons x ps)
  obtain n p where x: "x = (n, p)" by force
  have "snd (persist_tool_pair_at ne i b n p now db) = snd (append_turns (tool_rows ne i b n p now) now db)"
    by (simp add: persist_tool_pair_at_def split: prod.split sum.split)
  moreover have "\<forall>t\<in>set (tool_rows ne i b n p now). tr_conversation_id t = i"
    by (auto simp: tool_rows_def Let_def turn_row_def)
  ultimately have "confined i db (snd (persist_tool_pair_at ne i b n p now db))"
    using confined_append by simp
  from confined_trans [OF this Cons.IH] show ?case by (simp add: persist_pairs_def x)
qed (simp add: persist_pairs_def)

lemma confined_round:
  assumes "execute_round ne nd wd pl cat rnd p base offset now d = Some (acc, d')"
  shows "confined (cs_id (dp_conv d)) (dp_db d) (dp_db d') \<and> cs_id (dp_conv d') = cs_id (dp_conv d)"
  using assms mirror_trace_turns
  by (auto simp: execute_round_def Let_def persist_hooks_def confined_pairs split: option.splits)

lemma confined_continue:
  "continue_rounds ne nd wd pl msg cat started base k rnd depth acc used d = Some (acc', used', d')
     \<Longrightarrow> confined (cs_id (dp_conv d)) (dp_db d) (dp_db d') \<and> cs_id (dp_conv d') = cs_id (dp_conv d)"
proof (induction k arbitrary: rnd depth acc used d)
  case (Suc k)
  from Suc.prems show ?case
  proof (cases rule: continue_step)
    case stop
    then show ?thesis by simp
  next
    case (go p n db tr bb d2 d3 depth2)
    let ?i = "cs_id (dp_conv d)"
    let ?closed = "close_run wd (rnd + 1) ''done'' (wd_clock wd (AtRoundEnd rnd)) (dp_db d3)"
    have "confined ?i db (dp_db d3) \<and> cs_id (dp_conv d3) = ?i"
      using confined_round [OF go(7)] go(3) by simp
    moreover have "confined (cs_id (dp_conv d3)) ?closed (dp_db d') \<and> cs_id (dp_conv d') = cs_id (dp_conv d3)"
      using Suc.IH [OF go(8)] by simp
    ultimately show ?thesis
      using confined_insert [OF go(6)] confined_close by (metis confined_trans)
  qed
qed simp

lemma confined_reflect:
  assumes "reflect_only ne wd pl msg bb un tr rounds d = (res, d')"
  shows "confined (cs_id (dp_conv d)) (dp_db d) (dp_db d') \<and> cs_id (dp_conv d') = cs_id (dp_conv d)"
  using assms confined_persist
  by (fastforce simp: reflect_only_def Let_def push_assistant_def push_turn_def split: sum.splits prod.splits)

lemma confined_run:
  assumes "run_and_reflect ne nd wd pl msg cat un p d = Some (res, d')"
  shows "confined (cs_id (dp_conv d)) (dp_db d) (dp_db d') \<and> cs_id (dp_conv d') = cs_id (dp_conv d)"
  using assms
proof (cases rule: run_stages)
  case (refused e)
  then show ?thesis by simp
next
  case (ran db d0 tr1 bb1 d1 depth tr bb used d2 d3 st)
  let ?i = "cs_id (dp_conv d)"
  have "confined ?i (dp_db d) db" using confined_insert [OF ran(1)] .
  moreover have "confined ?i db (dp_db d1) \<and> cs_id (dp_conv d1) = ?i"
    using confined_round [OF ran(5)] ran(2,3) by simp
  moreover note confined_continue [OF ran(6)] confined_reflect [OF ran(7)]
  moreover have "confined ?i (dp_db d3) (dp_db d')" "dp_conv d' = dp_conv d3"
    using ran(8) by (simp_all add: confined_close)
  ultimately show ?thesis by (metis confined_trans)
qed

lemma push_id [simp]:
  "cs_id (push_turn t cs) = cs_id cs" "cs_id (push_user_input inp now cs) = cs_id cs"
  "cs_id (push_assistant c m now cs) = cs_id cs"
  by (simp_all add: push_turn_def push_user_input_def push_assistant_def)

lemma confined_dispatch:
  assumes "dispatch_inner ne nd wd pl inp d = Some (res, d')"
  shows "confined (cs_id (dp_conv d)) (dp_db d) (dp_db d') \<and> cs_id (dp_conv d') = cs_id (dp_conv d)"
  using assms
proof (cases rule: dispatch_stages)
  case (unsaved e db)
  then show ?thesis using confined_persist [OF unsaved(1)] by simp
next
  case (unplanned e db)
  then show ?thesis using confined_persist [OF unplanned(1)] by simp
next
  case (talked db d2 un)
  have "confined (cs_id (dp_conv d)) (dp_db d) db" using confined_persist [OF talked(1)] by simp
  then show ?thesis using confined_reflect [OF talked(5)] talked(2,3) by (auto intro: confined_trans)
next
  case (ran db d2 cat un p)
  have "confined (cs_id (dp_conv d)) (dp_db d) db" using confined_persist [OF ran(1)] by simp
  then show ?thesis using confined_run [OF ran(6)] ran(2,3) by (auto intro: confined_trans)
qed simp

lemma confined_direct_inner:
  assumes "direct_inner ne wd pl ov inp d = (res, d')"
  shows "confined (cs_id (dp_conv d)) (dp_db d) (dp_db d') \<and> cs_id (dp_conv d') = cs_id (dp_conv d)"
proof -
  let ?cs = "push_user_input inp (wd_clock wd AtUser) (dp_conv d)"
  obtain r1 db1 where p1: "persist_last ne ?cs (dp_db d) = (r1, db1)" by force
  have c1: "confined (cs_id (dp_conv d)) (dp_db d) db1" using confined_persist [OF p1] by simp
  let ?args = "json_obj [(''messages'', JArr (llm_message ''system'' DIRECT_PROMPT
        # to_chat_messages (serde_text ne) MAX_CONTEXT_TURNS ?cs)), (''temperature'', JFloat ''0.7''),
      (''model'', case (case ov of Some m \<Rightarrow> Some m | None \<Rightarrow> pl_hint pl) of Some m \<Rightarrow> JStr m | None \<Rightarrow> JNull)]"
  have short: ?thesis if "dp_conv d' = ?cs" "dp_db d' = db1" using c1 that by simp
  show ?thesis
  proof (cases r1)
    case (Inl e)
    then show ?thesis using assms p1 by (intro short) (auto simp: direct_inner_def Let_def)
  next
    case (Inr u)
    note p1 = p1 [unfolded Inr]
    show ?thesis
    proof (cases "Option.bind (case pl_llm pl ''chat'' ?args of Inl _ \<Rightarrow> None | Inr r \<Rightarrow> Some r) resp_content")
      case None
      then show ?thesis using assms p1
        by (intro short) (auto simp: direct_inner_def Let_def split: sum.splits option.splits bind_splits)
    next
      case (Some c)
      then obtain resp where resp: "pl_llm pl ''chat'' ?args = Inr resp" "resp_content resp = Some c"
        by (cases "pl_llm pl ''chat'' ?args") auto
      let ?cs2 = "push_assistant c (Option.bind (json_get ''model'' resp) as_str) (wd_clock wd AtReply) ?cs"
      obtain r2 db2 where p2: "persist_last ne ?cs2 db1 = (r2, db2)" by force
      have "dp_conv d' = ?cs2 \<and> dp_db d' = db2"
        using assms p1 p2 resp by (cases r2) (auto simp: direct_inner_def Let_def)
      then show ?thesis using confined_persist [OF p2] c1 by (auto intro: confined_trans)
    qed
  qed
qed

lemma confined_direct:
  assumes "direct_dispatch ne wd pl ov inp d = (res, d')"
  shows "confined (cs_id (dp_conv d)) (dp_db d) (dp_db d') \<and> cs_id (dp_conv d') = cs_id (dp_conv d)"
proof -
  obtain d0 d1 r where "dp_conv d0 = dp_conv d" "dp_db d0 = dp_db d" "direct_inner ne wd pl ov inp d0 = (r, d1)"
    "dp_conv d' = dp_conv d1" "dp_db d' = dp_db d1"
  proof (cases "pl_streaming pl")
    case True
    let ?d0 = "emit pl Reflecting (emit pl (PlanReady [] 1) d)"
    obtain r d1 where "direct_inner ne wd pl ov inp ?d0 = (r, d1)" by force
    then show thesis using assms True
      by (intro that [of ?d0 r d1]) (auto simp: direct_dispatch_def split: sum.splits)
  next
    case False
    then show thesis using assms by (intro that [of d res d']) (simp_all add: direct_dispatch_def)
  qed
  then show ?thesis using confined_direct_inner by metis
qed

lemma confined_by:
  assumes "dispatch_by ne nd wd ps inp md opts d = Some (res, d')"
  shows "confined (cs_id (dp_conv d)) (dp_db d) (dp_db d')" "cs_id (dp_conv d') = cs_id (dp_conv d)"
  using assms confined_dispatch [of ne nd wd "ps_planner ps"] confined_direct [of ne wd "ps_direct ps"]
  by (cases md; force simp: dispatch_by_def)+


section \<open>A dispatch on a conversation that was deleted\<close>

lemma persist_gone:
  assumes "conv_get (cs_id cs) db = None"
  shows "\<exists>e. persist_last ne cs db = (Inl e, db)"
proof (cases "cs_turns cs = []")
  case False
  have "\<exists>e. insert_turn t db = Inl e" if "tr_conversation_id t = cs_id cs" for t
    using assms that by (simp add: insert_turn_def)
  then show ?thesis using False
    by (auto simp: persist_last_def append_turn_def append_turns_def Let_def turn_row_def
        split: sum.splits) (metis Inl_Inr_False turn_record.select_convs(1))
qed (simp add: persist_last_def)

text \<open>When the message itself cannot be stored the dispatch ends there.\<close>

lemma dispatch_unsaved:
  assumes "persist_last ne (push_user_input inp (wd_clock wd AtUser) (dp_conv d)) (dp_db d) = (Inl e, dp_db d)"
    and "dispatch_by ne nd wd ps inp md opts d = Some (res, d')"
  shows "dp_db d' = dp_db d \<and> (res = Inl (InvalidPayload (''persist user: '' @ conv_error_text e))
    \<or> (\<exists>ms. res = Inl (UnresolvedMentions ms)))"
proof (cases md)
  case Auto
  then have "dispatch_inner ne nd wd (ps_planner ps) inp d = Some (res, d')"
    using assms(2) by (simp add: dispatch_by_def)
  then show ?thesis using assms(1) by (auto simp: dispatch_inner_def Let_def split: prod.splits if_splits)
next
  case Direct
  then have dir: "direct_dispatch ne wd (ps_direct ps) (model_override opts) inp d = (res, d')"
    using assms(2) by (simp add: dispatch_by_def)
  show ?thesis
  proof (cases "pl_streaming (ps_direct ps)")
    case True
    let ?d0 = "emit (ps_direct ps) Reflecting (emit (ps_direct ps) (PlanReady [] 1) d)"
    obtain r d1 where "direct_inner ne wd (ps_direct ps) (model_override opts) inp ?d0 = (r, d1)" by force
    then show ?thesis using dir True assms(1) by (auto simp: direct_dispatch_def direct_inner_def Let_def)
  next
    case False
    then show ?thesis using dir assms(1) by (auto simp: direct_dispatch_def direct_inner_def Let_def)
  qed
qed

lemma dispatch_gone:
  assumes "conv_get (cs_id (dp_conv d)) (dp_db d) = None" "dispatch_by ne nd wd ps inp md opts d = Some (res, d')"
  shows "\<exists>e. res = Inl e" "dp_db d' = dp_db d"
proof -
  obtain e where "persist_last ne (push_user_input inp (wd_clock wd AtUser) (dp_conv d)) (dp_db d) = (Inl e, dp_db d)"
    using persist_gone [of "push_user_input inp (wd_clock wd AtUser) (dp_conv d)" "dp_db d" ne] assms(1) by auto
  from dispatch_unsaved [OF this assms(2)] show "\<exists>e. res = Inl e" "dp_db d' = dp_db d" by auto
qed

text \<open>A state that lags behind its tables: its next turn takes a position that is taken.\<close>

lemma persist_stale:
  assumes "mirrored ne cs db" "cs_id old = cs_id cs" "cs_next_seq old = int (length (cs_turns old))"
    and "length (cs_turns old) < length (cs_turns cs)"
  shows "persist_last ne (push_turn t old) db
    = (Inl (ConvStorage (Constraint ''conversation_turns.conversation_id, conversation_turns.seq'')), db)"
proof -
  let ?n = "length (cs_turns old)"
  obtain ts where ts: "load_turns (cs_id cs) db = ledger_rows ne (cs_id cs) ts" "length ts = length (cs_turns cs)"
    using assms(1) by (metis length_map mirrored_def)
  let ?row = "turn_row ne (cs_id cs) (int ?n + 1) (turn_ts (ts ! ?n)) (ts ! ?n)"
  have "(?n, ts ! ?n) \<in> set (zip [0..<length ts] ts)"
    using assms(4) ts(2) by (auto simp: set_zip intro!: exI [of _ ?n])
  then have "?row \<in> set (load_turns (cs_id cs) db)" unfolding ts(1) ledger_rows_def by force
  then have "?row \<in> set (turns db)" by (simp add: in_load_turns)
  moreover have "turn_key ?row = (cs_id cs, int ?n + 1)" by (simp add: turn_key_def turn_row_def)
  ultimately have taken: "select_by turn_key (cs_id cs, int ?n + 1) (turns db) \<noteq> None"
    unfolding select_by_None by blast
  show ?thesis
    using taken assms(2,3)
    by (simp add: persist_last_def push_turn_def append_turn_def append_turns_def Let_def insert_turn_def
        turn_key_def turn_row_def add.commute)
qed

section \<open>What a dispatch adds\<close>

fun is_call :: "turn \<Rightarrow> bool" where
  "is_call (TToolCall _ _ _ _ _) = True"
| "is_call _ = False"

text \<open>No call is left without its result.\<close>

definition quiet :: "turn list \<Rightarrow> bool" where
  "quiet ts \<longleftrightarrow> ts = [] \<or> \<not> is_call (last ts)"

lemma is_call_untimed [simp]: "is_call (untimed t) = is_call t"
  by (cases t) simp_all

lemma quiet_map [simp]: "quiet (map untimed ts) = quiet ts"
  by (cases ts rule: rev_cases) (simp_all add: quiet_def)

lemma quiet_untimed: "map untimed ts = map untimed us \<Longrightarrow> quiet ts = quiet us"
  by (metis quiet_map)

lemma quiet_message: "quiet (ts @ message_turns self_id inp tr res)"
proof (cases res)
  case (Inl e)
  then show ?thesis
    by (cases tr rule: rev_cases)
      (simp_all add: quiet_def message_turns_def reply_turns_def step_turns_def pair_turns_def)
qed (simp add: quiet_def message_turns_def reply_turns_def)

lemma direct_trace:
  assumes "direct_dispatch ne wd pl ov inp d = (Inr out, d')"
  shows "do_trace out = []"
proof -
  have inner: "do_trace out = []" if "direct_inner ne wd pl ov inp d0 = (Inr out, d1)" for d0 d1
    using that by (auto simp: direct_inner_def Let_def split: sum.splits prod.splits option.splits)
  show ?thesis
    using assms inner by (cases "pl_streaming pl") (auto simp: direct_dispatch_def split: prod.splits sum.splits)
qed

lemma dispatch_by_ledger:
  assumes "dispatch_by ne nd wd ps inp md opts d = Some (res, d')" "mirrored ne (dp_conv d) (dp_db d)"
  shows "mirrored ne (dp_conv d') (dp_db d')
    \<and> (\<exists>us. map untimed (cs_turns (dp_conv d')) = map untimed (cs_turns (dp_conv d)) @ us
       \<and> (us = [] \<and> (\<exists>e. res = Inl e)
          \<or> (\<exists>tr. us = message_turns (node_id ne nd) inp tr res \<and> (\<forall>out. res = Inr out \<longrightarrow> tr = do_trace out))))"
proof (cases md)
  case Auto
  then show ?thesis using dispatch_ledger assms by (simp add: dispatch_by_def)
next
  case Direct
  then have dir: "direct_dispatch ne wd (ps_direct ps) (model_override opts) inp d = (res, d')"
    using assms(1) by (simp add: dispatch_by_def)
  note led = loose.direct_dispatch_ledger [OF assms(2) dir]
  then have "map untimed (cs_turns (dp_conv d')) = map untimed (cs_turns (dp_conv d))
      @ message_turns (node_id ne nd) inp [] res"
    by (cases res) (simp_all add: message_turns_def reply_turns_def)
  moreover have "[] = do_trace out" if "res = Inr out" for out
    using direct_trace [OF dir [unfolded that]] by simp
  ultimately show ?thesis using led by blast
qed

section \<open>Loading\<close>

definition serde_law :: "('b, 'x) node_env_scheme \<Rightarrow> bool" where
  "serde_law ne \<longleftrightarrow> (\<forall>j. json_from_str ne (serde_text ne j) = Some j)"

lemma those_map_same: "those (map f xs) = Some ys \<Longrightarrow> (\<And>x y. x \<in> set xs \<Longrightarrow> f x = Some y \<Longrightarrow> y = x) \<Longrightarrow> ys = xs"
  by (induction xs arbitrary: ys) (auto split: option.splits)

lemma dec_attachments_same:
  assumes "dec_list dec_attachment (enc_list (\<lambda>a. JObj (attachment_entries a)) atts) = Some ys"
  shows "ys = atts"
proof -
  have "y = a" if "dec_attachment (JObj (attachment_entries a)) = Some y" for a y
    using that by (cases a; cases "at_name a")
      (auto simp: dec_attachment_def attachment_entries_def opt_entry_def field_defs dec_uint_def read_opt_def
        split: if_splits bind_splits)
  moreover have "those (map (\<lambda>a. dec_attachment (JObj (attachment_entries a))) atts) = Some ys"
    using assms by (simp add: dec_list_def enc_list_def o_def)
  ultimately show ?thesis using those_map_same by metis
qed

text \<open>A turn that can be read back says what was written.\<close>

lemma dec_turn_same: "dec_turn (enc_turn t) = Some t' \<Longrightarrow> untimed t' = untimed t"
proof (cases t)
  case (TUser c atts ts)
  assume "dec_turn (enc_turn t) = Some t'"
  then show ?thesis using TUser dec_attachments_same [of atts]
    by (cases atts) (auto simp: dec_turn_def enc_turn_def list_entry_def field_defs
        dec_sint_def read_default_def split: if_splits bind_splits)
qed (auto simp: dec_turn_def enc_turn_def opt_entry_def field_defs dec_sint_def read_opt_def
      split: if_splits bind_splits option.splits)


lemma parse_untimed:
  assumes "serde_law ne" "map_result (parse_payload ne) (ledger_rows ne i ts) = Inr us"
  shows "map untimed us = map untimed ts"
  using assms(2)
proof (induction ts arbitrary: us rule: rev_induct)
  case (snoc t ts)
  have "list_all2 (\<lambda>row u. parse_payload ne row = Inr u)
      (ledger_rows ne i ts @ [turn_row ne i (int (length ts) + 1) (turn_ts t) t]) us"
    using snoc.prems by (simp add: map_result_Inr ledger_rows_snoc)
  then obtain vs u where us: "us = vs @ [u]"
    and "list_all2 (\<lambda>row u. parse_payload ne row = Inr u) (ledger_rows ne i ts) vs"
    and u: "parse_payload ne (turn_row ne i (int (length ts) + 1) (turn_ts t) t) = Inr u"
    by (auto simp: list_all2_append1 list_all2_Cons1)
  then have "map untimed vs = map untimed ts" using snoc.IH by (simp add: map_result_Inr)
  moreover have "dec_turn (enc_turn t) = Some u"
    using u assms(1) by (auto simp: parse_payload_def turn_row_def serde_law_def split: option.splits)
  ultimately show ?case using us dec_turn_same by simp
qed (simp add: ledger_rows_def)

text \<open>What is loaded mirrors the tables; nothing needs repair.\<close>

lemma load_mirrored:
  assumes "serde_law ne" "db_ok db" "load_turns i db = ledger_rows ne i ts" "quiet ts"
    and "conv_load ne now i client db = Inr cs"
  shows "cs_id cs = i \<and> cs_client_id cs = client \<and> quiet (cs_turns cs) \<and> mirrored ne cs db"
proof -
  obtain r us where r: "conv_get i db = Some r" "cv_client_id r = client"
    and us: "map_result (parse_payload ne) (ledger_rows ne i ts) = Inr us"
    and cs: "cs = conv_validate now \<lparr>cs_id = cv_id r, cs_client_id = cv_client_id r, cs_title = cv_title r,
       cs_created_at = cv_created_at r, cs_updated_at = cv_updated_at r, cs_turns = us,
       cs_next_seq = int (length ts)\<rparr>"
    using assms(3,5) by (auto simp: conv_load_def ledger_next split: option.splits if_splits sum.splits)
  have un: "map untimed us = map untimed ts" using parse_untimed [OF assms(1) us] .
  then have q: "quiet us" using assms(4) quiet_untimed by blast
  have same: "cs = \<lparr>cs_id = cv_id r, cs_client_id = cv_client_id r, cs_title = cv_title r,
       cs_created_at = cv_created_at r, cs_updated_at = cv_updated_at r, cs_turns = us, cs_next_seq = int (length ts)\<rparr>"
    using q unfolding cs by (cases "us = []") (auto simp: conv_validate_def quiet_def split: turn.splits)
  have i: "cv_id r = i" using r(1) by (auto simp: conv_get_def dest: select_by_Some)
  have "length us = length ts" using un by (metis length_map)
  then show ?thesis using r i q un assms(2,3) by (auto simp: same mirrored_def)
qed

section \<open>The invariant\<close>

text \<open>
  A state in memory: its conversation is gone, or the tables hold what it says. And the tables:
  the turns of every conversation are numbered without gaps.
\<close>

definition coherent :: "('b, 'x) node_env_scheme \<Rightarrow> string \<Rightarrow> conv_state \<Rightarrow> conv_db \<Rightarrow> bool" where
  "coherent ne i cs db \<longleftrightarrow>
     cs_id cs = i \<and> quiet (cs_turns cs) \<and> (conv_get i db = None \<or> mirrored ne cs db)"

definition ledgered :: "('b, 'x) node_env_scheme \<Rightarrow> conv_db \<Rightarrow> bool" where
  "ledgered ne db \<longleftrightarrow>
     db_ok db \<and> (\<forall>i. conv_get i db \<noteq> None \<longrightarrow> (\<exists>ts. quiet ts \<and> load_turns i db = ledger_rows ne i ts))"

definition rt_total :: "'c runtime \<Rightarrow> nat" where
  "rt_total rt = max (max_concurrent_planners (rt_config rt)) 1"

definition hub_ok :: "'c lru \<Rightarrow> ('b, 'x) node_env_scheme \<Rightarrow> 'c hub \<Rightarrow> bool" where
  "hub_ok lru ne h \<longleftrightarrow>
     ledgered ne (hb_db h)
     \<and> (\<forall>i cs. lru_entry lru (rt_cache (hb_runtime h)) i = Some cs \<longrightarrow> coherent ne i cs (hb_db h))
     \<and> (\<forall>(i, client, cs)\<in>set (hb_flight h). cs_client_id cs = client \<and> coherent ne i cs (hb_db h)
          \<and> rt_locks (hb_runtime h) i = Some True)
     \<and> distinct (map fst (hb_flight h))
     \<and> rt_slots (hb_runtime h) + length (hb_flight h) = rt_total (hb_runtime h)"

lemma mirrored_confined:
  assumes "mirrored ne cs db" "confined i db db'" "db_ok db'" "cs_id cs \<noteq> i"
  shows "mirrored ne cs db'"
  by (rule mirrored_rows [OF assms(1,3)]) (use assms(2,4) in \<open>auto simp: confined_def\<close>)

lemma coherent_confined:
  assumes "coherent ne j cs db" "confined i db db'" "db_ok db'" "j \<noteq> i"
  shows "coherent ne j cs db'"
  using assms mirrored_confined [of ne cs db i db'] by (auto simp: coherent_def confined_def)

lemma mirrored_ledgered:
  assumes "mirrored ne cs db'" "quiet (cs_turns cs)" "confined (cs_id cs) db db'" "ledgered ne db"
  shows "ledgered ne db'"
  unfolding ledgered_def
proof (intro conjI allI impI)
  show "db_ok db'" using assms(1) by (simp add: mirrored_def)
  fix j assume j: "conv_get j db' \<noteq> None"
  show "\<exists>ts. quiet ts \<and> load_turns j db' = ledger_rows ne j ts"
  proof (cases "j = cs_id cs")
    case True
    obtain ts where ts: "load_turns j db' = ledger_rows ne j ts" "map untimed ts = map untimed (cs_turns cs)"
      using assms(1) True by (auto simp: mirrored_def)
    have "quiet ts" using quiet_untimed [OF ts(2)] assms(2) by simp
    then show ?thesis using ts(1) by blast
  next
    case False
    then show ?thesis using j assms(3,4) by (auto simp: confined_def ledgered_def)
  qed
qed

text \<open>The last of a dispatch: either it changed nothing, or its state mirrors the tables.\<close>

lemma dispatch_by_coherent:
  assumes "dispatch_by ne nd wd ps inp md opts d = Some (res, d')" "ledgered ne (dp_db d)"
    and "coherent ne (cs_id (dp_conv d)) (dp_conv d) (dp_db d)"
  shows "ledgered ne (dp_db d')" "res = Inr out \<Longrightarrow> coherent ne (cs_id (dp_conv d)) (dp_conv d') (dp_db d')"
proof -
  note con = confined_by [OF assms(1)]
  have "ledgered ne (dp_db d') \<and> (res = Inr out \<longrightarrow> coherent ne (cs_id (dp_conv d)) (dp_conv d') (dp_db d'))"
  proof (cases "conv_get (cs_id (dp_conv d)) (dp_db d)")
    case None
    then show ?thesis using dispatch_gone [OF None assms(1)] assms(2) by auto
  next
    case (Some r)
    then have m: "mirrored ne (dp_conv d) (dp_db d)" and q: "quiet (cs_turns (dp_conv d))"
      using assms(3) by (auto simp: coherent_def)
    note led = dispatch_by_ledger [OF assms(1) m]
    then obtain us where us: "map untimed (cs_turns (dp_conv d')) = map untimed (cs_turns (dp_conv d)) @ us"
      "us = [] \<or> (\<exists>tr. us = message_turns (node_id ne nd) inp tr res)" by blast
    have "quiet (map untimed (cs_turns (dp_conv d')))"
      using us(2) q quiet_message unfolding us(1) by fastforce
    then have q': "quiet (cs_turns (dp_conv d'))" by simp
    have "ledgered ne (dp_db d')"
      using mirrored_ledgered [OF _ q' _ assms(2)] led con by simp
    then show ?thesis using led q' con(2) by (simp add: coherent_def)
  qed
  then show "ledgered ne (dp_db d')" "res = Inr out \<Longrightarrow> coherent ne (cs_id (dp_conv d)) (dp_conv d') (dp_db d')" by auto
qed


text \<open>What the halves of a message do to the runtime.\<close>

lemma rt_acquire_Some:
  assumes "rt_acquire i rt = Some rt1"
  shows "rt_locks rt i \<noteq> Some True" "rt_locks rt1 = (rt_locks rt)(i := Some True)"
    "rt_slots rt = rt_slots rt1 + 1" "rt_cache rt1 = rt_cache rt" "rt_config rt1 = rt_config rt"
  using assms by (auto simp: rt_acquire_def lock_for_def Let_def split: option.splits if_splits)

lemma load_state_cases:
  assumes "lru_law lru" "load_state lru ne now i client db rt = (r, rt')"
  shows "rt_locks rt' = rt_locks rt" "rt_slots rt' = rt_slots rt" "rt_config rt' = rt_config rt"
    "lru_entry lru (rt_cache rt') j = Some c
       \<Longrightarrow> lru_entry lru (rt_cache rt) j = Some c \<or> j = i \<and> conv_load ne now i client db = Inr c"
    "r = Inr cs \<Longrightarrow> lru_entry lru (rt_cache rt) i = Some cs \<and> cs_client_id cs = client
       \<or> lru_entry lru (rt_cache rt) i = None \<and> conv_load ne now i client db = Inr cs"
proof -
  obtain o1 c1 where g: "lru_get lru i (rt_cache rt) = (o1, c1)" by force
  have o1: "o1 = lru_entry lru (rt_cache rt) i" and c1: "\<And>j. lru_entry lru c1 j = lru_entry lru (rt_cache rt) j"
    using assms(1) g by (auto simp: lru_law_def) (metis fst_conv, metis snd_conv)
  note unf = assms(2) [unfolded load_state_def g prod.case]
  show "rt_locks rt' = rt_locks rt" "rt_slots rt' = rt_slots rt" "rt_config rt' = rt_config rt"
    using unf by (auto split: option.splits sum.splits)
  show "r = Inr cs \<Longrightarrow> lru_entry lru (rt_cache rt) i = Some cs \<and> cs_client_id cs = client
       \<or> lru_entry lru (rt_cache rt) i = None \<and> conv_load ne now i client db = Inr cs"
    using unf o1 by (auto split: option.splits sum.splits if_splits)
  have put: "j = i \<and> c = v \<or> lru_entry lru c1 j = Some c" if "lru_entry lru (lru_put lru i v c1) j = Some c" for v
  proof (cases "j = i")
    case True
    then show ?thesis using that assms(1) by (simp add: lru_law_def)
  next
    case False
    then have "lru_entry lru (lru_put lru i v c1) j \<in> {None, lru_entry lru c1 j}"
      using assms(1) by (simp add: lru_law_def)
    then show ?thesis using that by auto
  qed
  assume held: "lru_entry lru (rt_cache rt') j = Some c"
  show "lru_entry lru (rt_cache rt) j = Some c \<or> j = i \<and> conv_load ne now i client db = Inr c"
  proof (cases "conv_load ne now i client db")
    case (Inr v)
    then show ?thesis
      using held unf put [of v] c1 by (auto split: option.splits)
  qed (use held unf c1 in \<open>auto split: option.splits\<close>)
qed

text \<open>Changes that only drop conversations or retitle them.\<close>

definition weakens :: "conv_db \<Rightarrow> conv_db \<Rightarrow> bool" where
  "weakens db db' \<longleftrightarrow> db_ok db' \<and> (\<forall>j. conv_get j db' = None
     \<or> map_option cv_client_id (conv_get j db') = map_option cv_client_id (conv_get j db)
       \<and> load_turns j db' = load_turns j db)"

lemma weakensD:
  assumes "weakens db db'" "conv_get i db' \<noteq> None"
  shows "map_option cv_client_id (conv_get i db') = map_option cv_client_id (conv_get i db)"
    "load_turns i db' = load_turns i db" "db_ok db'" "conv_get i db \<noteq> None"
proof -
  have "conv_get i db' = None
     \<or> map_option cv_client_id (conv_get i db') = map_option cv_client_id (conv_get i db)
       \<and> load_turns i db' = load_turns i db" and ok: "db_ok db'"
    using assms(1) by (simp_all add: weakens_def)
  then show "map_option cv_client_id (conv_get i db') = map_option cv_client_id (conv_get i db)"
    "load_turns i db' = load_turns i db" "db_ok db'" "conv_get i db \<noteq> None"
    using assms(2) by (cases "conv_get i db"; auto)+
qed

lemma weakens_coherent:
  assumes "weakens db db'" "coherent ne i cs db"
  shows "coherent ne i cs db'"
proof (cases "conv_get i db' = None")
  case False
  from weakensD [OF assms(1) this] show ?thesis using assms(2) by (auto simp: coherent_def mirrored_def)
qed (use assms(2) in \<open>simp add: coherent_def\<close>)

lemma weakens_ledgered:
  assumes "weakens db db'" "ledgered ne db"
  shows "ledgered ne db'"
  unfolding ledgered_def
proof (intro conjI allI impI)
  show "db_ok db'" using assms(1) by (simp add: weakens_def)
  fix j assume "conv_get j db' \<noteq> None"
  from weakensD [OF assms(1) this] show "\<exists>ts. quiet ts \<and> load_turns j db' = ledger_rows ne j ts"
    using assms(2) by (simp add: ledgered_def)
qed

lemma weakens_meta: "db_ok db \<Longrightarrow> weakens db (update_meta i title now db)"
proof -
  assume "db_ok db"
  moreover have "map_option cv_client_id (conv_get j (update_meta i title now db)) = map_option cv_client_id (conv_get j db)" for j
    by (cases title) (simp_all add: conv_get_def update_meta_def select_by_update_key option.map_comp o_def)
  ultimately show ?thesis by (simp add: weakens_def update_meta_ok load_turns_def)
qed

lemma conv_get_delete: "conv_get j (conv_delete i db) = (if j = i then None else conv_get j db)"
  by (simp add: conv_get_def conv_delete_def select_by_delete_key)

lemma load_turns_delete: "j \<noteq> i \<Longrightarrow> load_turns j (conv_delete i db) = load_turns j db"
proof -
  assume "j \<noteq> i"
  then have "filter (\<lambda>t. tr_conversation_id t = j) (sql_delete (\<lambda>t. tr_conversation_id t = i) (turns db))
      = filter (\<lambda>t. tr_conversation_id t = j) (turns db)"
    by (auto simp: sql_delete_def intro: filter_cong)
  then show ?thesis by (simp add: load_turns_def conv_delete_def)
qed

lemma weakens_delete: "db_ok db \<Longrightarrow> weakens db (conv_delete i db)"
  by (simp add: weakens_def conv_delete_ok conv_get_delete load_turns_delete)

text \<open>A new conversation.\<close>

lemma row_owned: "db_ok db \<Longrightarrow> t \<in> set (turns db) \<Longrightarrow> conv_get (tr_conversation_id t) db \<noteq> None"
  by (simp add: db_ok_def list_all_iff conv_get_ids)

lemma created:
  assumes "conv_create uuid now client title db = (Inr cs, db')" "ledgered ne db"
  shows "cs_id cs = ''conv_'' @ uuid" "ledgered ne db'"
    "j \<noteq> cs_id cs \<Longrightarrow> conv_get j db' = conv_get j db \<and> load_turns j db' = load_turns j db"
    "conv_get (cs_id cs) db = None" "cs_client_id cs = client" "cs_turns cs = []" "load_turns (cs_id cs) db' = []"
    "map_option cv_client_id (conv_get (cs_id cs) db') = Some client"
proof -
  let ?row = "\<lparr>cv_id = cs_id cs, cv_client_id = client, cv_title = title, cv_created_at = cs_created_at cs,
    cv_updated_at = cs_updated_at cs\<rparr>"
  have cs: "cs = conv_new (''conv_'' @ uuid) client title now" and ins: "conv_insert ?row db = Inr db'"
    using assms(1) by (auto simp: conv_create_def Let_def split: sum.splits)
  show id: "cs_id cs = ''conv_'' @ uuid" "cs_client_id cs = client" "cs_turns cs = []"
    by (simp_all add: cs conv_new_def)
  have db': "db' = db\<lparr>conversations := conversations db @ [?row]\<rparr>" and new: "conv_get (cs_id cs) db = None"
    using ins by (auto simp: conv_insert_def conv_get_def split: if_splits)
  show "conv_get (cs_id cs) db = None" by (rule new)
  have get: "conv_get j db' = (if j = cs_id cs then Some ?row else conv_get j db)" for j
    using new by (auto simp: db' conv_get_def select_by_snoc split: option.split)
  have rows: "load_turns j db' = load_turns j db" for j by (simp add: db' load_turns_def)
  show "conv_get j db' = conv_get j db \<and> load_turns j db' = load_turns j db" if "j \<noteq> cs_id cs" for j
    using that by (simp add: get rows)
  show "map_option cv_client_id (conv_get (cs_id cs) db') = Some client" by (simp add: get)
  have "db_ok db" using assms(2) by (simp add: ledgered_def)
  then have none: "load_turns (cs_id cs) db = []"
    using new row_owned in_load_turns by (metis all_not_in_conv set_empty)
  then show "load_turns (cs_id cs) db' = []" by (simp add: rows)
  have "db_ok db'" using conv_insert_ok [OF ins \<open>db_ok db\<close>] .
  then show "ledgered ne db'"
    using assms(2) none by (auto simp: ledgered_def get rows quiet_def ledger_rows_def
        intro: exI [of _ "[]"])
qed


section \<open>Every step keeps the invariant\<close>

lemma ledgered_ok: "ledgered ne db \<Longrightarrow> db_ok db"
  by (simp add: ledgered_def)

text \<open>A state loaded under the lock, and what loading leaves in the cache.\<close>

lemma load_state_coherent:
  assumes "lru_law lru" "serde_law ne" "ledgered ne db"
    and "\<forall>j c. lru_entry lru (rt_cache rt) j = Some c \<longrightarrow> coherent ne j c db"
    and "load_state lru ne now i client db rt = (r, rt')"
  shows "lru_entry lru (rt_cache rt') j = Some c \<Longrightarrow> coherent ne j c db"
    "r = Inr cs \<Longrightarrow> cs_client_id cs = client \<and> coherent ne i cs db"
proof -
  note ld = load_state_cases [OF assms(1,5)]
  have fresh: "cs_client_id c = client \<and> coherent ne i c db" if c: "conv_load ne now i client db = Inr c" for c
  proof -
    have "conv_get i db \<noteq> None" using c by (cases "conv_get i db") (simp_all add: conv_load_def)
    then obtain ts where "load_turns i db = ledger_rows ne i ts" "quiet ts"
      using assms(3) by (auto simp: ledgered_def)
    from load_mirrored [OF assms(2) ledgered_ok [OF assms(3)] this c] show ?thesis by (simp add: coherent_def)
  qed
  show "lru_entry lru (rt_cache rt') j = Some c \<Longrightarrow> coherent ne j c db"
    using ld(4) [of j c] assms(4) fresh by auto
  show "r = Inr cs \<Longrightarrow> cs_client_id cs = client \<and> coherent ne i cs db"
    using ld(5) [of cs] assms(4) fresh by auto
qed

lemma begin_message_ok:
  assumes "lru_law lru" "serde_law ne" "hub_ok lru ne h"
    and "begin_message lru ne now client i (hb_db h) (hb_runtime h) = Some (r, rt)"
  shows "r = Inl e \<Longrightarrow> hub_ok lru ne (h\<lparr>hb_runtime := rt\<rparr>)"
    "r = Inr cs \<Longrightarrow> hub_ok lru ne (h\<lparr>hb_runtime := rt, hb_flight := hb_flight h @ [(i, client, cs)]\<rparr>)"
proof -
  obtain rt1 rt2 where acq: "rt_acquire i (hb_runtime h) = Some rt1"
    and ld: "load_state lru ne now i client (hb_db h) rt1 = (r, rt2)"
    and rt: "rt = (case r of Inl _ \<Rightarrow> rt_release i rt2 | Inr _ \<Rightarrow> rt2)"
    using assms(4) by (auto simp: begin_message_def split: option.splits prod.splits sum.splits)
  note a = rt_acquire_Some [OF acq] and l = load_state_cases(1-3) [OF assms(1) ld]
  have ok: "ledgered ne (hb_db h)" "distinct (map fst (hb_flight h))"
      "rt_slots (hb_runtime h) + length (hb_flight h) = rt_total (hb_runtime h)"
    and cache: "\<And>j c. lru_entry lru (rt_cache (hb_runtime h)) j = Some c \<Longrightarrow> coherent ne j c (hb_db h)"
    and flight: "\<And>j k c. (j, k, c) \<in> set (hb_flight h) \<Longrightarrow> cs_client_id c = k \<and> coherent ne j c (hb_db h)
          \<and> rt_locks (hb_runtime h) j = Some True"
    using assms(3) by (auto simp: hub_ok_def)
  have cache1: "\<forall>j c. lru_entry lru (rt_cache rt1) j = Some c \<longrightarrow> coherent ne j c (hb_db h)"
    using cache a(4) by simp
  note held = load_state_coherent(1) [OF assms(1,2) ok(1) cache1 ld] and got = load_state_coherent(2) [OF assms(1,2) ok(1) cache1 ld]
  have free: "i \<notin> fst ` set (hb_flight h)" using flight a(1) by fastforce
  have total: "rt_total rt2 = rt_total (hb_runtime h)" using a(5) l(3) by (simp add: rt_total_def)
  show "hub_ok lru ne (h\<lparr>hb_runtime := rt\<rparr>)" if "r = Inl e"
  proof -
    have "rt_locks rt j = Some True" if "(j, k, c) \<in> set (hb_flight h)" for j k c
    proof -
      have "j \<noteq> i" using free that by force
      then show ?thesis using flight [OF that] \<open>r = Inl e\<close> by (simp add: rt rt_release_def l(1) a(2))
    qed
    moreover have "rt_slots rt = rt_slots (hb_runtime h)" "rt_cache rt = rt_cache rt2"
      "rt_total rt = rt_total (hb_runtime h)"
      using \<open>r = Inl e\<close> total by (simp_all add: rt rt_release_def l(2) a(3) rt_total_def)
    ultimately show ?thesis using ok flight held unfolding hub_ok_def by auto
  qed
  show "hub_ok lru ne (h\<lparr>hb_runtime := rt, hb_flight := hb_flight h @ [(i, client, cs)]\<rparr>)" if "r = Inr cs"
  proof -
    have "rt = rt2" using that by (simp add: rt)
    moreover have "rt_locks rt2 j = Some True" if "(j, k, c) \<in> set (hb_flight h)" for j k c
      using flight [OF that] by (simp add: l(1) a(2))
    moreover have "rt_locks rt2 i = Some True" by (simp add: l(1) a(2))
    moreover have "rt_slots rt2 + length (hb_flight h @ [(i, client, cs)]) = rt_total rt2"
      using ok(3) total by (simp add: l(2) a(3))
    ultimately show ?thesis using ok free flight held got [OF that] unfolding hub_ok_def by auto
  qed
qed


lemma release_fields [simp]:
  "rt_cache (rt_release i rt) = rt_cache rt" "rt_slots (rt_release i rt) = rt_slots rt + 1"
  "rt_total (rt_release i rt) = rt_total rt" "rt_locks (rt_release i rt) = (rt_locks rt)(i := Some False)"
  by (simp_all add: rt_release_def rt_total_def)

lemma cache_fields [simp]:
  "rt_slots (rt_evict lru i rt) = rt_slots rt" "rt_locks (rt_evict lru i rt) = rt_locks rt"
  "rt_total (rt_evict lru i rt) = rt_total rt"
  "rt_slots (store_in_cache lru cs rt) = rt_slots rt" "rt_locks (store_in_cache lru cs rt) = rt_locks rt"
  "rt_total (store_in_cache lru cs rt) = rt_total rt"
  by (simp_all add: rt_evict_def store_in_cache_def rt_total_def)

lemma end_message_cases:
  assumes "end_message lru ne nd wd ps i inp md opts d rt = Some (res, d', rt')"
  obtains (failed) e where "res = Inl e" "dispatch_by ne nd wd ps inp md opts d = Some (Inl e, d')"
      "rt' = rt_release i (rt_evict lru i rt)"
    | (answered) out where "res = Inr out" "dispatch_by ne nd wd ps inp md opts d = Some (Inr out, d')"
      "rt' = rt_release i (store_in_cache lru (dp_conv d') rt)"
  using assms by (auto simp: end_message_def split: option.splits prod.splits sum.splits)

lemma distinct_keys_remove1: "distinct (map fst xs) \<Longrightarrow> distinct (map fst (remove1 x xs))"
proof (induction xs)
  case (Cons y xs)
  have "fst ` set (remove1 x xs) \<subseteq> fst ` set xs" by (rule image_mono [OF set_remove1_subset])
  then show ?case using Cons by auto
qed simp

lemma end_message_ok:
  assumes "lru_law lru" "hub_ok lru ne h" "(i, client, cs) \<in> set (hb_flight h)"
    and "end_message lru ne nd wd ps i inp md opts (hub_dispatch h cs) (hb_runtime h) = Some (res, d, rt)"
  shows "hub_ok lru ne ((hub_after h d)\<lparr>hb_runtime := rt, hb_flight := remove1 (i, client, cs) (hb_flight h)\<rparr>)"
proof -
  have dis: "dispatch_by ne nd wd ps inp md opts (hub_dispatch h cs) = Some (res, d)"
    using assms(4) by (cases rule: end_message_cases) simp_all
  have ok: "ledgered ne (hb_db h)" "distinct (map fst (hb_flight h))"
      "rt_slots (hb_runtime h) + length (hb_flight h) = rt_total (hb_runtime h)"
    and cache: "\<And>j c. lru_entry lru (rt_cache (hb_runtime h)) j = Some c \<Longrightarrow> coherent ne j c (hb_db h)"
    and flight: "\<And>j k c. (j, k, c) \<in> set (hb_flight h) \<Longrightarrow> cs_client_id c = k \<and> coherent ne j c (hb_db h)
          \<and> rt_locks (hb_runtime h) j = Some True"
    using assms(2) by (auto simp: hub_ok_def)
  have id: "cs_id cs = i" and co: "coherent ne i cs (hb_db h)"
    using flight [OF assms(3)] by (simp_all add: coherent_def)
  have led: "ledgered ne (dp_db d)" and own: "\<And>out. res = Inr out \<Longrightarrow> coherent ne i (dp_conv d) (dp_db d)"
    using dispatch_by_coherent [OF dis] ok(1) co id by (simp_all add: hub_dispatch_def)
  have con: "confined i (hb_db h) (dp_db d)" "cs_id (dp_conv d) = i"
    using confined_by [OF dis] id by (simp_all add: hub_dispatch_def)
  have others: "coherent ne j c (dp_db d)" if "coherent ne j c (hb_db h)" "j \<noteq> i" for j c
    using coherent_confined [OF that(1) con(1) ledgered_ok [OF led] that(2)] .
  have cached: "coherent ne j c (dp_db d)" if held: "lru_entry lru (rt_cache rt) j = Some c" for j c
    using assms(4)
  proof (cases rule: end_message_cases)
    case (failed e)
    then have "j \<noteq> i" "lru_entry lru (rt_cache (hb_runtime h)) j = Some c"
      using held assms(1) by (auto simp: rt_evict_def lru_law_def split: if_splits)
    then show ?thesis using others cache by blast
  next
    case (answered out)
    have put: "lru_entry lru (lru_put lru i (dp_conv d) (rt_cache (hb_runtime h))) j = Some c"
      using held answered(3) con(2) by (simp add: store_in_cache_def)
    show ?thesis
    proof (cases "j = i")
      case True
      then have "c = dp_conv d" using put assms(1) by (simp add: lru_law_def)
      then show ?thesis using own [OF answered(1)] True by simp
    next
      case False
      then have "lru_entry lru (lru_put lru i (dp_conv d) (rt_cache (hb_runtime h))) j
          \<in> {None, lru_entry lru (rt_cache (hb_runtime h)) j}"
        using assms(1) by (simp add: lru_law_def)
      then show ?thesis using put others cache False by auto
    qed
  qed
  have rt: "rt_slots rt = rt_slots (hb_runtime h) + 1" "rt_total rt = rt_total (hb_runtime h)"
    "rt_locks rt = (rt_locks (hb_runtime h))(i := Some False)"
    using assms(4) by (cases rule: end_message_cases; simp)+
  have dist: "distinct (hb_flight h)" using ok(2) distinct_map by blast
  have rest: "j \<noteq> i \<and> (j, k, c) \<in> set (hb_flight h)" if "(j, k, c) \<in> set (remove1 (i, client, cs) (hb_flight h))" for j k c
    using that ok(2) assms(3) dist by (auto simp: distinct_map dest: inj_onD [of fst _ "(j, k, c)" "(i, client, cs)"])
  have "distinct (map fst (remove1 (i, client, cs) (hb_flight h)))"
    using distinct_keys_remove1 [OF ok(2)] .
  moreover have "length (remove1 (i, client, cs) (hb_flight h)) + 1 = length (hb_flight h)"
    using length_pos_if_in_set [OF assms(3)] assms(3) by (simp add: length_remove1)
  moreover have "\<forall>(j, k, c)\<in>set (remove1 (i, client, cs) (hb_flight h)). cs_client_id c = k
      \<and> coherent ne j c (dp_db d) \<and> rt_locks rt j = Some True"
  proof (clarify, intro conjI)
    fix j k c assume m: "(j, k, c) \<in> set (remove1 (i, client, cs) (hb_flight h))"
    note r = rest [OF m]
    note f = flight [OF r [THEN conjunct2]]
    show "cs_client_id c = k" "coherent ne j c (dp_db d)" "rt_locks rt j = Some True"
      using f others r by (simp_all add: rt(3))
  qed
  ultimately show ?thesis
    using led cached rt ok(3) unfolding hub_ok_def by (simp add: hub_after_def)
qed

lemma hub_ok_db: "hub_ok lru ne h \<Longrightarrow> db_ok (hb_db h)"
  unfolding hub_ok_def by (blast intro: ledgered_ok)

lemma hub_ok_weakens:
  assumes "hub_ok lru ne h" "weakens (hb_db h) db"
  shows "hub_ok lru ne (h\<lparr>hb_db := db\<rparr>)"
  using assms weakens_coherent [OF assms(2)] weakens_ledgered [OF assms(2)]
  by (fastforce simp: hub_ok_def)

lemma hub_ok_create:
  assumes "hub_ok lru ne h" "conv_create uuid now client title (hb_db h) = (Inr cs, db)"
    and "lru_entry lru (rt_cache (hb_runtime h)) (''conv_'' @ uuid) = None"
    and "''conv_'' @ uuid \<notin> fst ` set (hb_flight h)"
  shows "hub_ok lru ne (h\<lparr>hb_db := db\<rparr>)"
proof -
  have led: "ledgered ne (hb_db h)" using assms(1) by (simp add: hub_ok_def)
  note c = created [OF assms(2) led]
  have ok: "coherent ne j x db" if co: "coherent ne j x (hb_db h)" and "j \<noteq> ''conv_'' @ uuid" for j x
  proof -
    have "conv_get j db = conv_get j (hb_db h) \<and> load_turns j db = load_turns j (hb_db h)"
      using c(3) [of j] c(1) \<open>j \<noteq> _\<close> by simp
    then show ?thesis using co ledgered_ok [OF c(2)] by (auto simp: coherent_def intro: mirrored_rows)
  qed
  have "coherent ne j x db" if "lru_entry lru (rt_cache (hb_runtime h)) j = Some x" for j x
  proof -
    have "j \<noteq> ''conv_'' @ uuid" using assms(3) that by auto
    then show ?thesis using ok assms(1) that by (simp add: hub_ok_def del: append.simps)
  qed
  moreover have "\<forall>(j, k, x)\<in>set (hb_flight h). cs_client_id x = k \<and> coherent ne j x db
      \<and> rt_locks (hb_runtime h) j = Some True"
  proof (clarify, intro conjI)
    fix j k x assume m: "(j, k, x) \<in> set (hb_flight h)"
    have "j \<noteq> ''conv_'' @ uuid" using assms(4) m by force
    then show "coherent ne j x db" using ok assms(1) m by (fastforce simp: hub_ok_def simp del: append.simps)
    show "cs_client_id x = k" "rt_locks (hb_runtime h) j = Some True" using assms(1) m by (auto simp: hub_ok_def)
  qed
  ultimately show ?thesis using assms(1) c(2) by (simp add: hub_ok_def)
qed

lemma hub_ok_forget:
  assumes "lru_law lru" "hub_ok lru ne h"
  shows "hub_ok lru ne (h\<lparr>hb_runtime := rt_evict lru i (hb_runtime h)\<rparr>)"
proof -
  have "lru_entry lru (rt_cache (hb_runtime h)) j = Some c"
    if "lru_entry lru (rt_cache (rt_evict lru i (hb_runtime h))) j = Some c" for j c
    using that assms(1) by (simp add: rt_evict_def lru_law_def split: if_splits)
  then show ?thesis using assms(2) by (simp add: hub_ok_def)
qed

lemma hub_step_ok:
  assumes "hub_step lru ne h h'" "lru_law lru" "serde_law ne" "hub_ok lru ne h"
  shows "hub_ok lru ne h'"
  using assms(1)
proof cases
  case (start now client i cs rt)
  then show ?thesis using begin_message_ok(2) [OF assms(2-4)] by simp
next
  case (refuse now client i e rt)
  then show ?thesis using begin_message_ok(1) [OF assms(2-4)] by simp
next
  case (finish i client cs nd wd ps inp md opts res d rt)
  then show ?thesis using end_message_ok [OF assms(2,4)] by simp
next
  case (create uuid now client title cs db)
  then show ?thesis using hub_ok_create [OF assms(4)] by simp
next
  case (retitle i title now)
  then show ?thesis using hub_ok_weakens [OF assms(4) weakens_meta [OF hub_ok_db [OF assms(4)]]] by simp
next
  case (drop i)
  then show ?thesis using hub_ok_weakens [OF assms(4) weakens_delete [OF hub_ok_db [OF assms(4)]]] by simp
next
  case (forget i)
  then show ?thesis using hub_ok_forget [OF assms(2,4)] by simp
qed

lemma hub_reach_ok: "hub_reach lru ne h0 h \<Longrightarrow> lru_law lru \<Longrightarrow> serde_law ne \<Longrightarrow> hub_ok lru ne h0 \<Longrightarrow> hub_ok lru ne h"
  by (induction rule: hub_reach.induct) (auto intro: hub_step_ok)


text \<open>A node that starts: nothing cached, nothing under way, tables without a gap.\<close>

definition hub_start :: "'c lru \<Rightarrow> ('b, 'x) node_env_scheme \<Rightarrow> 'c hub \<Rightarrow> bool" where
  "hub_start lru ne h \<longleftrightarrow>
     (\<exists>cfg. hb_runtime h = runtime_new lru cfg) \<and> hb_flight h = [] \<and> ledgered ne (hb_db h)"

lemma hub_start_ok: "lru_law lru \<Longrightarrow> hub_start lru ne h \<Longrightarrow> hub_ok lru ne h"
  by (auto simp: hub_start_def hub_ok_def runtime_new_def rt_total_def lru_law_def)

lemmas hub_runs = hub_reach_ok [OF _ _ _ hub_start_ok]

text \<open>Who gets a state from \<open>begin_message\<close>.\<close>

lemma begin_message_owner:
  assumes "lru_law lru" "serde_law ne" "hub_ok lru ne h" "conv_get i (hb_db h) = Some r"
    and "begin_message lru ne now client i (hb_db h) (hb_runtime h) = Some (x, rt)"
  shows "x = Inr cs \<Longrightarrow> cv_client_id r = client \<and> mirrored ne cs (hb_db h)"
    "cv_client_id r \<noteq> client \<Longrightarrow> \<exists>m. x = Inl (InvalidPayload m)"
proof -
  have inr: "cv_client_id r = client \<and> mirrored ne cs (hb_db h)" if "x = Inr cs" for cs
  proof -
    have "cs_client_id cs = client \<and> coherent ne i cs (hb_db h)"
      using begin_message_ok(2) [OF assms(1-3,5) that] by (simp add: hub_ok_def)
    then show ?thesis using assms(4) by (auto simp: coherent_def mirrored_def)
  qed
  then show "x = Inr cs \<Longrightarrow> cv_client_id r = client \<and> mirrored ne cs (hb_db h)" .
  show "\<exists>m. x = Inl (InvalidPayload m)" if "cv_client_id r \<noteq> client"
  proof (cases x)
    case (Inl e)
    obtain rt1 rt2 where "load_state lru ne now i client (hb_db h) rt1 = (Inl e, rt2)"
      using assms(5) Inl by (auto simp: begin_message_def split: option.splits prod.splits sum.splits)
    then show ?thesis
      using Inl assms(4) that
      by (auto simp: load_state_def conv_load_def split: prod.splits option.splits if_splits)
  qed (use inr that in blast)
qed

text \<open>What a message that finishes leaves in the tables.\<close>

lemma end_message_lands:
  assumes "hub_ok lru ne h"
    and "(i, client, cs) \<in> set (hb_flight h)" "conv_get i (hb_db h) \<noteq> None"
    and "end_message lru ne nd wd ps i inp md opts (hub_dispatch h cs) (hb_runtime h) = Some (res, d, rt)"
  shows "(\<exists>ts ts' us. load_turns i (hb_db h) = ledger_rows ne i ts \<and> load_turns i (dp_db d) = ledger_rows ne i ts'
      \<and> map untimed ts' = map untimed ts @ us
      \<and> (us = [] \<and> (\<exists>e. res = Inl e)
         \<or> (\<exists>tr. us = message_turns (node_id ne nd) inp tr res \<and> (\<forall>out. res = Inr out \<longrightarrow> tr = do_trace out))))
    \<and> (\<forall>j. j \<noteq> i \<longrightarrow> conv_get j (dp_db d) = conv_get j (hb_db h) \<and> load_turns j (dp_db d) = load_turns j (hb_db h))"
proof -
  have "coherent ne i cs (hb_db h)" using assms(1,2) by (auto simp: hub_ok_def)
  then have id: "cs_id cs = i" and m: "mirrored ne cs (hb_db h)" using assms(3) by (auto simp: coherent_def)
  have dis: "dispatch_by ne nd wd ps inp md opts (hub_dispatch h cs) = Some (res, d)"
    using assms(4) by (cases rule: end_message_cases) simp_all
  have con: "confined i (hb_db h) (dp_db d)" "cs_id (dp_conv d) = i"
    using confined_by [OF dis] id by (simp_all add: hub_dispatch_def)
  obtain us where us: "mirrored ne (dp_conv d) (dp_db d)"
    "map untimed (cs_turns (dp_conv d)) = map untimed (cs_turns cs) @ us"
    "us = [] \<and> (\<exists>e. res = Inl e)
       \<or> (\<exists>tr. us = message_turns (node_id ne nd) inp tr res \<and> (\<forall>out. res = Inr out \<longrightarrow> tr = do_trace out))"
    using dispatch_by_ledger [OF dis] m by (auto simp: hub_dispatch_def)
  obtain ts where ts: "load_turns i (hb_db h) = ledger_rows ne i ts" "map untimed ts = map untimed (cs_turns cs)"
    using m id by (auto simp: mirrored_def)
  obtain ts' where ts': "load_turns i (dp_db d) = ledger_rows ne i ts'"
    "map untimed ts' = map untimed (cs_turns (dp_conv d))"
    using us(1) con(2) by (auto simp: mirrored_def)
  have "map untimed ts' = map untimed ts @ us" using ts(2) ts'(2) us(2) by simp
  then show ?thesis using ts(1) ts'(1) us(3) con(1) unfolding confined_def by blast
qed

section \<open>An instance\<close>

text \<open>A cache as a list of entries, the latest first, cut at its capacity.\<close>

definition toy_lru :: "(nat \<times> (string \<times> conv_state) list) lru" where
  "toy_lru =
     \<lparr>lru_new = (\<lambda>n. (n - 1, [])),
      lru_get = (\<lambda>k (n, es). (map_of es k, (n, filter (\<lambda>e. fst e = k) es @ filter (\<lambda>e. fst e \<noteq> k) es))),
      lru_put = (\<lambda>k v (n, es). (n, take (Suc n) ((k, v) # filter (\<lambda>e. fst e \<noteq> k) es))),
      lru_pop = (\<lambda>k (n, es). (n, filter (\<lambda>e. fst e \<noteq> k) es)),
      lru_entry = (\<lambda>(n, es). map_of es)\<rparr>"

lemma map_of_only_key: "map_of (filter (\<lambda>e. fst e = k) es) j = (if j = k then map_of es j else None)"
  by (induction es) auto

lemma map_of_take: "map_of (take n es) j \<in> {None, map_of es j}"
  by (induction es arbitrary: n) (auto simp: take_Cons split: nat.split)

lemma map_of_take_other: "j \<noteq> k \<Longrightarrow> map_of (take n (filter (\<lambda>e. fst e \<noteq> k) es)) j \<noteq> map_of es j
    \<Longrightarrow> map_of (take n (filter (\<lambda>e. fst e \<noteq> k) es)) j = None"
  using map_of_take [of n "filter (\<lambda>e. fst e \<noteq> k) es" j] by (simp add: map_of_filter_key)

lemma toy_lru_law: "lru_law toy_lru"
  by (auto simp: lru_law_def toy_lru_def map_of_filter_key map_of_only_key map_add_def
      intro: map_of_take_other split: option.split)

definition text_env :: "nat node_env" where
  "text_env = toy_node_env\<lparr>json_from_str := json_of_text, serde_text := json_text_of\<rparr>"

lemma text_env_law: "serde_law text_env"
  by (simp add: serde_law_def text_env_def)

definition toy_hub :: "(nat \<times> (string \<times> conv_state) list) hub" where
  "toy_hub = \<lparr>hb_runtime = runtime_new toy_lru default_runtime_config, hb_db = toy_conv_db, hb_audit = [],
     hb_blobs = toy_blobs, hb_calls = 0, hb_flight = []\<rparr>"

abbreviation toy_opened :: conv_state where
  "toy_opened \<equiv> conv_new ''c'' ''u'' None 1"

lemma toy_db_facts:
  "db_ok toy_conv_db" "load_turns i toy_conv_db = []" "conv_get ''c'' toy_conv_db
     = Some \<lparr>cv_id = ''c'', cv_client_id = ''u'', cv_title = None, cv_created_at = 1, cv_updated_at = 1\<rparr>"
  by (simp_all add: toy_conv_db_def db_ok_def unique_key_def conv_get_def select_by_def load_turns_def)

lemma toy_hub_start: "hub_start toy_lru text_env toy_hub"
  using toy_db_facts by (auto simp: hub_start_def toy_hub_def ledgered_def quiet_def ledger_rows_def)

lemma toy_begin:
  obtains rt where "begin_message toy_lru text_env 5 ''u'' ''c'' (hb_db toy_hub) (hb_runtime toy_hub)
    = Some (Inr toy_opened, rt)"
proof -
  have "conv_load text_env 5 ''c'' ''u'' toy_conv_db = Inr toy_opened"
    by (simp add: conv_load_def toy_db_facts conv_validate_def conv_new_def)
  then show thesis
    using that by (simp add: begin_message_def rt_acquire_def lock_for_def toy_hub_def runtime_new_def
        load_state_def toy_lru_def default_runtime_config_def Let_def)
qed


section \<open>Properties\<close>




definition toy_planners :: planners where
  "toy_planners = \<lparr>ps_planner = toy_planner, ps_direct = toy_planner\<rparr>"


text \<open>
  (a conversation answers its owner only). In any run a message gets the state of an existing
  conversation only if its client owns it, and the state is the one the tables hold; anyone else
  is refused as an invalid payload, cached state or not.
\<close>

theorem runtime_serves_owner:
  assumes "lru_law lru" "serde_law ne" "hub_start lru ne h0" "hub_reach lru ne h0 h"
    and "conv_get i (hb_db h) = Some r"
    and "begin_message lru ne now client i (hb_db h) (hb_runtime h) = Some (x, rt)"
  shows "(\<forall>cs. x = Inr cs \<longrightarrow> cv_client_id r = client \<and> mirrored ne cs (hb_db h))
    \<and> (cv_client_id r \<noteq> client \<longrightarrow> (\<exists>m. x = Inl (InvalidPayload m)))"
  using begin_message_owner [OF assms(1,2) hub_runs [OF assms(4,1,2,1,3)] assms(5,6)] by blast

lemma runtime_serves_owner_witness:
  "\<exists>rt. begin_message toy_lru text_env 5 ''u'' ''c'' (hb_db toy_hub) (hb_runtime toy_hub) = Some (Inr toy_opened, rt)
    \<and> mirrored text_env toy_opened (hb_db toy_hub)"
proof (rule toy_begin)
  fix rt assume b: "begin_message toy_lru text_env 5 ''u'' ''c'' (hb_db toy_hub) (hb_runtime toy_hub) = Some (Inr toy_opened, rt)"
  have "conv_get ''c'' (hb_db toy_hub) = Some \<lparr>cv_id = ''c'', cv_client_id = ''u'', cv_title = None,
      cv_created_at = 1, cv_updated_at = 1\<rparr>" by (simp add: toy_hub_def toy_db_facts)
  from runtime_serves_owner [OF toy_lru_law text_env_law toy_hub_start hub_here this b] b show ?thesis by blast
qed

end
