(* ===== verification/Server_Chat.thy ===== *)
theory Server_Chat
  imports Server_Auth Node_Runtime
begin

text \<open>
  The conversation routes of \<open>crates/server/src/http.rs\<close>: the cookie that names a client, the
  handlers that make, list, show, retitle and delete conversations, and the one that hands a
  message to the runtime, plain or as a stream of events. The texts of errors that come from
  \<open>axum\<close> and \<open>serde_json\<close>, and the printing of floats, are parameters. Wire text is bytes; a
  request body is its bytes.
\<close>

section \<open>Clients\<close>

definition CLIENT_ID_COOKIE :: string where
  "CLIENT_ID_COOKIE = ''n3ur0n_client_id''"

definition CLIENT_ID_MAX_AGE :: nat where
  "CLIENT_ID_MAX_AGE = 31536000"

definition LOCAL_API_LIMIT :: nat where
  "LOCAL_API_LIMIT = 256 * 1024"

fun client_cookie_parts :: "string list \<Rightarrow> string option" where
  "client_cookie_parts [] = None"
| "client_cookie_parts (p # ps) =
     (case strip_prefix (CLIENT_ID_COOKIE @ ''='') (trim p) of
        Some rest \<Rightarrow> if rest \<noteq> [] then Some rest else client_cookie_parts ps
      | None \<Rightarrow> client_cookie_parts ps)"

definition parse_client_cookie :: "string \<Rightarrow> string option" where
  "parse_client_cookie raw = client_cookie_parts (split_on CHR '';'' raw)"

definition client_cookie_string :: "string \<Rightarrow> string" where
  "client_cookie_string cid =
     CLIENT_ID_COOKIE @ ''='' @ cid @ ''; Path=/; Max-Age='' @ dec CLIENT_ID_MAX_AGE @ ''; HttpOnly; SameSite=Lax''"

text \<open>The handler behind it gets the id of the client, from the cookie or freshly drawn.\<close>

definition client_id_middleware ::
  "string \<Rightarrow> string option \<Rightarrow> (string \<Rightarrow> 'd \<Rightarrow> response \<times> 'd) \<Rightarrow> 'd \<Rightarrow> response \<times> 'd" where
  "client_id_middleware uuid header next_handler d =
     (case Option.bind header parse_client_cookie of
        Some cid \<Rightarrow> next_handler cid d
      | None \<Rightarrow>
          (let cid = ''cli_'' @ uuid in
           case next_handler cid d of (resp, d') \<Rightarrow> (append_cookie (client_cookie_string cid) resp, d')))"

section \<open>Errors\<close>

definition api_error :: "nat \<Rightarrow> string \<Rightarrow> response" where
  "api_error code msg = respond code (json_obj [(''error'', JStr msg)])"

fun map_conv_load_error :: "conv_error \<Rightarrow> response" where
  "map_conv_load_error (ConvNotFound _) = api_error 404 ''conversation not found''"
| "map_conv_load_error OwnershipMismatch = api_error 404 ''conversation not found''"
| "map_conv_load_error e = api_error 500 (conv_error_text e)"

fun error_kind :: "node_error \<Rightarrow> nat \<times> string" where
  "error_kind Replay = (409, ''replay'')"
| "error_kind (UnknownCapability _) = (404, ''unknown_capability'')"
| "error_kind (InvalidPayload _) = (400, ''invalid_payload'')"
| "error_kind (Core SignatureInvalid) = (401, ''signature'')"
| "error_kind (Core (RecipientMismatch _ _)) = (400, ''recipient_mismatch'')"
| "error_kind (Core TimestampOutOfWindow) = (400, ''timestamp_out_of_window'')"
| "error_kind (Core _) = (400, ''bad_request'')"
| "error_kind _ = (500, ''internal'')"

definition http_error :: "node_error \<Rightarrow> response" where
  "http_error e =
     (case e of
        UnresolvedMentions tokens \<Rightarrow>
          respond 422 (json_obj [(''error'', JStr ''unresolved_mentions''), (''message'', JStr (node_error_text e)),
            (''unresolved'', enc_list JStr tokens)])
      | _ \<Rightarrow> respond (fst (error_kind e))
               (json_obj [(''error'', JStr (snd (error_kind e))), (''message'', JStr (node_error_text e))]))"

section \<open>Reading a request\<close>

record web_env =
  we_length_error :: string
  we_json_error :: "string \<Rightarrow> string"
  we_float :: "rat \<Rightarrow> string"

definition read_body :: "web_env \<Rightarrow> string \<Rightarrow> (response, string) result" where
  "read_body we bytes =
     (if LOCAL_API_LIMIT < length bytes then Inl (api_error 400 (we_length_error we)) else Inr bytes)"

definition read_json ::
  "web_env \<Rightarrow> ('b, 'x) node_env_scheme \<Rightarrow> (json \<Rightarrow> 'a option) \<Rightarrow> string \<Rightarrow> (response, 'a) result" where
  "read_json we ne d bytes =
     (case Option.bind (json_from_str ne bytes) d of
        None \<Rightarrow> Inl (api_error 400 (we_json_error we bytes)) | Some v \<Rightarrow> Inr v)"

definition missing_client :: response where
  "missing_client = api_error 500 ''missing client_id''"

definition nonempty :: "string \<Rightarrow> string option" where
  "nonempty s = (if s = [] then None else Some s)"

section \<open>Conversations\<close>

definition json_opt :: "('a \<Rightarrow> json) \<Rightarrow> 'a option \<Rightarrow> json" where
  "json_opt f x = (case x of None \<Rightarrow> JNull | Some v \<Rightarrow> f v)"

definition dec_title_request :: "json \<Rightarrow> string option option" where
  "dec_title_request j = Option.bind (struct_fields [''title''] j) (\<lambda>m. field_opt as_str m ''title'')"

definition api_conv_create ::
  "web_env \<Rightarrow> ('b, 'x) node_env_scheme \<Rightarrow> string \<Rightarrow> int \<Rightarrow> string option \<Rightarrow> string \<Rightarrow> conv_db \<Rightarrow> response \<times> conv_db" where
  "api_conv_create we ne uuid now client bytes db =
     (case client of
        None \<Rightarrow> (missing_client, db)
      | Some cid \<Rightarrow>
     (case read_body we bytes of
        Inl r \<Rightarrow> (r, db)
      | Inr _ \<Rightarrow>
     (case (if bytes = [] then Inr None else read_json we ne dec_title_request bytes) of
        Inl r \<Rightarrow> (r, db)
      | Inr asked \<Rightarrow>
          (case conv_create uuid now cid (Option.bind asked (\<lambda>t. nonempty (trim t))) db of
             (Inl e, db') \<Rightarrow> (api_error 500 (conv_error_text e), db')
           | (Inr cs, db') \<Rightarrow>
               (respond 200 (json_obj [(''id'', JStr (cs_id cs)), (''client_id'', JStr (cs_client_id cs)),
                  (''title'', json_opt JStr (cs_title cs)), (''created_at'', JInt (cs_created_at cs)),
                  (''updated_at'', JInt (cs_updated_at cs))]), db')))))"

definition api_conv_list :: "string option \<Rightarrow> conv_db \<Rightarrow> response" where
  "api_conv_list client db =
     (case client of
        None \<Rightarrow> missing_client
      | Some cid \<Rightarrow> respond 200 (json_obj [(''conversations'', enc_list (\<lambda>r. json_obj
          [(''id'', JStr (cv_id r)), (''title'', json_opt JStr (cv_title r)),
           (''created_at'', JInt (cv_created_at r)), (''updated_at'', JInt (cv_updated_at r))])
          (list_for_client cid 200 db))]))"

definition api_conv_get ::
  "('b, 'x) node_env_scheme \<Rightarrow> int \<Rightarrow> string option \<Rightarrow> string \<Rightarrow> conv_db \<Rightarrow> response" where
  "api_conv_get ne now client i db =
     (case client of
        None \<Rightarrow> missing_client
      | Some cid \<Rightarrow>
          (case conv_load ne now i cid db of
             Inl e \<Rightarrow> map_conv_load_error e
           | Inr cs \<Rightarrow> respond 200 (json_obj [(''id'', JStr (cs_id cs)), (''title'', json_opt JStr (cs_title cs)),
               (''created_at'', JInt (cs_created_at cs)), (''updated_at'', JInt (cs_updated_at cs)),
               (''turns'', JArr (ui_turns cs))])))"

definition api_conv_patch ::
  "web_env \<Rightarrow> ('b, 'x) node_env_scheme \<Rightarrow> int \<Rightarrow> string option \<Rightarrow> string \<Rightarrow> string \<Rightarrow> conv_db \<Rightarrow> response \<times> conv_db" where
  "api_conv_patch we ne now client i bytes db =
     (case client of
        None \<Rightarrow> (missing_client, db)
      | Some cid \<Rightarrow>
     (case read_body we bytes of
        Inl r \<Rightarrow> (r, db)
      | Inr _ \<Rightarrow>
     (case read_json we ne dec_title_request bytes of
        Inl r \<Rightarrow> (r, db)
      | Inr title \<Rightarrow>
          (case conv_load ne now i cid db of
             Inl e \<Rightarrow> (map_conv_load_error e, db)
           | Inr _ \<Rightarrow>
               (respond 200 (json_obj [(''id'', JStr i), (''title'', json_opt JStr title), (''updated_at'', JInt now)]),
                update_meta i title now db)))))"

definition api_conv_delete ::
  "('b, 'x) node_env_scheme \<Rightarrow> int \<Rightarrow> string option \<Rightarrow> string \<Rightarrow> conv_db \<Rightarrow> response \<times> conv_db" where
  "api_conv_delete ne now client i db =
     (case client of
        None \<Rightarrow> (missing_client, db)
      | Some cid \<Rightarrow>
          (case conv_load ne now i cid db of
             Inl e \<Rightarrow> (map_conv_load_error e, db)
           | Inr _ \<Rightarrow> (respond 204 (JStr []), conv_delete i db)))"

section \<open>A message\<close>

record conversation_message_request =
  cm_message :: string
  cm_attachments :: "attachment list"
  cm_mode :: "string option"
  cm_model :: "string option"

definition dec_message_attachment :: "json \<Rightarrow> attachment option" where
  "dec_message_attachment j = do {
     m \<leftarrow> struct_fields [''hash'', ''mime'', ''size'', ''name''] j;
     h \<leftarrow> field_req as_str m ''hash'';
     t \<leftarrow> field_req as_str m ''mime'';
     s \<leftarrow> field_req (dec_uint 64) m ''size'';
     n \<leftarrow> field_opt as_str m ''name'';
     Some \<lparr>at_hash = h, at_mime = t, at_size = s, at_name = n\<rparr> }"

definition dec_message_request :: "json \<Rightarrow> conversation_message_request option" where
  "dec_message_request j = do {
     m \<leftarrow> struct_fields [''message'', ''attachments'', ''mode'', ''model''] j;
     msg \<leftarrow> field_req as_str m ''message'';
     atts \<leftarrow> field_default (dec_list dec_message_attachment) [] m ''attachments'';
     md \<leftarrow> field_opt as_str m ''mode'';
     ml \<leftarrow> field_opt as_str m ''model'';
     Some \<lparr>cm_message = msg, cm_attachments = atts, cm_mode = md, cm_model = ml\<rparr> }"

definition parse_dispatch_mode :: "string option \<Rightarrow> (response, dispatch_mode) result" where
  "parse_dispatch_mode raw =
     (let m = trim (case raw of None \<Rightarrow> ''auto'' | Some s \<Rightarrow> s) in
      if m = ''auto'' then Inr Auto
      else if m = ''direct'' then Inr Direct
      else Inl (api_error 400 (''mode must be 'auto' or 'direct', got '' @ [CHR 0x27] @ m @ [CHR 0x27])))"

definition parse_dispatch_opts :: "dispatch_mode \<Rightarrow> string option \<Rightarrow> (response, dispatch_options) result" where
  "parse_dispatch_opts md model =
     (if md \<noteq> Direct then Inr \<lparr>model_override = None\<rparr>
      else (let ov = Option.bind model (\<lambda>m. nonempty (trim m)) in
        case ov of
          Some m \<Rightarrow> if 128 < length (chars m) then Inl (api_error 400 ''model must be at most 128 characters'')
                    else Inr \<lparr>model_override = ov\<rparr>
        | None \<Rightarrow> Inr \<lparr>model_override = ov\<rparr>))"


fun split_when :: "('a \<Rightarrow> bool) \<Rightarrow> 'a list \<Rightarrow> 'a list list" where
  "split_when p [] = [[]]"
| "split_when p (x # xs) =
     (if p x then [] # split_when p xs
      else (case split_when p xs of [] \<Rightarrow> [[x]] | w # ws \<Rightarrow> (x # w) # ws))"

definition split_whitespace :: "string \<Rightarrow> string list" where
  "split_whitespace s = map concat (filter (\<lambda>w. w \<noteq> []) (split_when is_whitespace (chars s)))"

definition auto_title :: "string \<Rightarrow> nat \<Rightarrow> string" where
  "auto_title message max_words = join '' '' (take max_words (split_whitespace message))"

record 'c dispatch_prep =
  dx_client :: string
  dx_runtime :: "'c runtime"
  dx_input :: user_input
  dx_mode :: dispatch_mode
  dx_opts :: dispatch_options

text \<open>The checks before a dispatch, and the title of a conversation that has none.\<close>

definition prepare_dispatch ::
  "web_env \<Rightarrow> ('b, 'x) node_env_scheme \<Rightarrow> int \<Rightarrow> 'c runtime option \<Rightarrow> string option \<Rightarrow> string \<Rightarrow> string \<Rightarrow> conv_db
     \<Rightarrow> (response, 'c dispatch_prep) result \<times> conv_db" where
  "prepare_dispatch we ne now runtime client i bytes db =
     (case client of
        None \<Rightarrow> (Inl missing_client, db)
      | Some cid \<Rightarrow>
     (case runtime of
        None \<Rightarrow> (Inl (api_error 503
          ''no_planner: this node has no planner configured. Use /api/v0/chat for manual mode.''), db)
      | Some rt \<Rightarrow>
     (case read_body we bytes of
        Inl r \<Rightarrow> (Inl r, db)
      | Inr _ \<Rightarrow>
     (case read_json we ne dec_message_request bytes of
        Inl r \<Rightarrow> (Inl r, db)
      | Inr asked \<Rightarrow>
          (let message = trim (cm_message asked);
               inp = \<lparr>ui_text = message, ui_attachments = cm_attachments asked\<rparr>
           in if message = [] \<and> cm_attachments asked = []
              then (Inl (api_error 400 ''message and attachments are both empty''), db)
              else
     (case parse_dispatch_mode (cm_mode asked) of
        Inl r \<Rightarrow> (Inl r, db)
      | Inr md \<Rightarrow>
     (case parse_dispatch_opts md (cm_model asked) of
        Inl r \<Rightarrow> (Inl r, db)
      | Inr opts \<Rightarrow>
     (case conv_get i db of
        None \<Rightarrow> (Inl (api_error 404 ''conversation not found''), db)
      | Some r \<Rightarrow>
          if cv_client_id r \<noteq> cid then (Inl (api_error 404 ''conversation not found''), db)
          else (Inr \<lparr>dx_client = cid, dx_runtime = rt, dx_input = inp, dx_mode = md, dx_opts = opts\<rparr>,
            if cv_title r = None
            then update_meta i (Some (auto_title (if message = [] then planner_text inp else message) 8)) now db
            else db)))))))))"

text \<open>The state behind the routes: the runtime of the moment, if the node has a planner, and the tables.\<close>

record 'c chat_app =
  ca_runtime :: "'c runtime option"
  ca_db :: conv_db
  ca_audit :: audit_log
  ca_blobs :: blob_world
  ca_calls :: nat

definition app_hub :: "'c runtime \<Rightarrow> 'c chat_app \<Rightarrow> 'c hub" where
  "app_hub rt a = \<lparr>hb_runtime = rt, hb_db = ca_db a, hb_audit = ca_audit a, hb_blobs = ca_blobs a,
     hb_calls = ca_calls a, hb_flight = []\<rparr>"

definition hub_app :: "'c hub \<Rightarrow> 'c chat_app" where
  "hub_app h = \<lparr>ca_runtime = Some (hb_runtime h), ca_db = hb_db h, ca_audit = hb_audit h, ca_blobs = hb_blobs h,
     ca_calls = hb_calls h\<rparr>"

definition trace_json :: "trace_entry \<Rightarrow> json" where
  "trace_json t = json_obj [(''peer_id'', JStr (te_peer_id t)), (''capability'', JStr (te_capability t)),
     (''args'', te_args t), (''result'', json_opt id (te_result t)), (''error'', json_opt JStr (te_error t))]"

definition outcome_response :: "string \<Rightarrow> dispatch_outcome \<Rightarrow> response" where
  "outcome_response i out =
     respond 200 (json_obj [(''conversation_id'', JStr i), (''reply'', JStr (do_reply out)),
       (''model'', json_opt JStr (do_model out)), (''trace'', enc_list trace_json (do_trace out))])"

text \<open>\<open>conv_messages\<close>, served on its own; \<open>None\<close> when the dispatch does not return.\<close>

definition api_conv_messages ::
  "web_env \<Rightarrow> 'c lru \<Rightarrow> ('b, 'x) node_env_scheme \<Rightarrow> 'b node \<Rightarrow> world \<Rightarrow> planners \<Rightarrow> int \<Rightarrow> string option \<Rightarrow> string
     \<Rightarrow> string \<Rightarrow> 'c chat_app \<Rightarrow> (response \<times> 'c chat_app) option" where
  "api_conv_messages we lru ne nd wd ps now client i bytes a =
     (case prepare_dispatch we ne now (ca_runtime a) client i bytes (ca_db a) of
        (Inl r, db) \<Rightarrow> Some (r, a\<lparr>ca_db := db\<rparr>)
      | (Inr p, db) \<Rightarrow>
          (case handle_user_message_with_opts lru ne nd wd ps now (dx_client p) i (dx_input p) (dx_mode p) (dx_opts p)
                 (app_hub (dx_runtime p) (a\<lparr>ca_db := db\<rparr>)) of
             None \<Rightarrow> None
           | Some (Inl e, _, h) \<Rightarrow> Some (http_error e, hub_app h)
           | Some (Inr out, _, h) \<Rightarrow> Some (outcome_response i out, hub_app h)))"

section \<open>The stream of events\<close>

definition step_info_json :: "plan_step_info \<Rightarrow> json" where
  "step_info_json s = JObj [(''id'', JStr (si_id s)), (''peer_id'', JStr (si_peer_id s)),
     (''peer_short'', JStr (si_peer_short s)), (''capability'', JStr (si_capability s))]"

fun sse_name :: "ui_event \<Rightarrow> string" where
  "sse_name (PlanReady _ _) = ''plan_ready''"
| "sse_name (LowConfidence _) = ''low_confidence''"
| "sse_name (StepEvent (StepStart _)) = ''step_start''"
| "sse_name (StepEvent (StepDone _ _ _ _)) = ''step_done''"
| "sse_name Reflecting = ''reflecting''"
| "sse_name (Final _ _) = ''final''"

fun sse_fields :: "web_env \<Rightarrow> ui_event \<Rightarrow> (string \<times> json) list" where
  "sse_fields we (PlanReady steps r) = [(''steps'', enc_list step_info_json steps), (''round'', JInt (int r))]"
| "sse_fields we (LowConfidence c) = [(''confidence'', JFloat (we_float we c))]"
| "sse_fields we (StepEvent (StepStart i)) = [(''id'', JStr i)]"
| "sse_fields we (StepEvent (StepDone i args r e)) =
     [(''id'', JStr i), (''args'', args), (''result'', json_opt id r), (''error'', json_opt JStr e)]"
| "sse_fields we Reflecting = []"
| "sse_fields we (Final r m) = [(''reply'', JStr r), (''model'', json_opt JStr m)]"

definition sse_event :: "web_env \<Rightarrow> ui_event \<Rightarrow> string \<times> json" where
  "sse_event we e = (sse_name e, JObj ((''type'', JStr (sse_name e)) # sse_fields we e))"

definition sse_error :: "node_error \<Rightarrow> string \<times> json" where
  "sse_error e =
     (''error'', JObj ([(''type'', JStr ''error''), (''message'', JStr (node_error_text e))]
        @ list_entry ''unresolved'' JStr (case e of UnresolvedMentions ts \<Rightarrow> ts | _ \<Rightarrow> [])))"

definition api_conv_messages_stream ::
  "web_env \<Rightarrow> 'c lru \<Rightarrow> ('b, 'x) node_env_scheme \<Rightarrow> 'b node \<Rightarrow> world \<Rightarrow> planners \<Rightarrow> int \<Rightarrow> string option \<Rightarrow> string
     \<Rightarrow> string \<Rightarrow> 'c chat_app \<Rightarrow> ((response, (string \<times> json) list) result \<times> 'c chat_app) option" where
  "api_conv_messages_stream we lru ne nd wd ps now client i bytes a =
     (case prepare_dispatch we ne now (ca_runtime a) client i bytes (ca_db a) of
        (Inl r, db) \<Rightarrow> Some (Inl r, a\<lparr>ca_db := db\<rparr>)
      | (Inr p, db) \<Rightarrow>
          (case handle_user_message_streaming_with_opts lru ne nd wd ps now (dx_client p) i (dx_input p) (dx_mode p)
                 (dx_opts p) (app_hub (dx_runtime p) (a\<lparr>ca_db := db\<rparr>)) of
             None \<Rightarrow> None
           | Some (res, es, h) \<Rightarrow>
               Some (Inr (map (sse_event we) es @ (case res of Inl e \<Rightarrow> [sse_error e] | Inr _ \<Rightarrow> [])), hub_app h)))"

text \<open>A reload of the planner puts a new runtime in place; messages under way keep the old one.\<close>

definition store_runtime :: "'c lru \<Rightarrow> runtime_config \<Rightarrow> 'c chat_app \<Rightarrow> 'c chat_app" where
  "store_runtime lru cfg a = a\<lparr>ca_runtime := Some (runtime_new lru cfg)\<rparr>"


section \<open>Whose conversation it is\<close>

lemma load_foreign:
  assumes "conv_get i db = Some r" "cv_client_id r \<noteq> cid"
  shows "conv_load ne now i cid db = Inl OwnershipMismatch" "conv_load ne now i cid (conv_delete i db) = Inl (ConvNotFound i)"
  using assms by (simp_all add: conv_load_def conv_get_delete)

section \<open>A message through the routes\<close>

lemma prepare_cases:
  assumes "prepare_dispatch we ne now rt0 client i bytes db = (x, db')"
  obtains (refused) r where "x = Inl r" "db' = db" "rs_status r \<noteq> 200"
    | (prepared) cid rt row p asked where "client = Some cid" "rt0 = Some rt" "conv_get i db = Some row"
      "cv_client_id row = cid" "x = Inr p" "dx_client p = cid" "dx_runtime p = rt"
      "db' = db \<or> (\<exists>t. db' = update_meta i (Some t) now db)"
      "Option.bind (json_from_str ne bytes) dec_message_request = Some asked"
      "dx_input p = \<lparr>ui_text = trim (cm_message asked), ui_attachments = cm_attachments asked\<rparr>"
proof (cases client)
  case None
  then show thesis using assms by (intro refused) (auto simp: prepare_dispatch_def missing_client_def api_error_def respond_def)
next
  case (Some cid)
  note cid = this
  show thesis
  proof (cases rt0)
    case None
    then show thesis using assms cid by (intro refused) (auto simp: prepare_dispatch_def api_error_def respond_def)
  next
    case (Some rt)
    note unf = assms [unfolded prepare_dispatch_def cid Some option.case Let_def]
    have err: "rs_status (api_error c m) = c" for c m by (simp add: api_error_def respond_def)
    have lim: "rs_status r = 400" if "read_body we bytes = Inl r" for r
      using that by (auto simp: read_body_def err split: if_splits)
    have js: "rs_status r = 400" if "read_json we ne dec_message_request bytes = Inl r" for r
      using that by (auto simp: read_json_def err split: option.splits)
    have md: "rs_status r = 400" if "parse_dispatch_mode m = Inl r" for r m
      using that by (auto simp: parse_dispatch_mode_def Let_def err split: if_splits)
    have op: "rs_status r = 400" if "parse_dispatch_opts m v = Inl r" for r m v
      using that by (auto simp: parse_dispatch_opts_def Let_def err split: if_splits option.splits)
    show thesis
    proof (cases x)
      case (Inl r)
      have "db' = db \<and> rs_status r \<noteq> 200"
        using unf Inl by (auto simp: err dest!: lim js md op split: sum.splits option.splits if_splits)
      then show thesis using Inl refused by blast
    next
      case (Inr p)
      have "\<exists>row asked. conv_get i db = Some row \<and> cv_client_id row = cid \<and> dx_client p = cid \<and> dx_runtime p = rt
          \<and> (db' = db \<or> (\<exists>t. db' = update_meta i (Some t) now db))
          \<and> Option.bind (json_from_str ne bytes) dec_message_request = Some asked
          \<and> dx_input p = \<lparr>ui_text = trim (cm_message asked), ui_attachments = cm_attachments asked\<rparr>"
        using unf Inr by (auto simp: read_json_def split: sum.splits option.splits if_splits)
      then show thesis using cid Some Inr by (elim exE conjE) (rule prepared)
    qed
  qed
qed

lemma message_runs:
  assumes "handle_user_message_with_opts lru ne nd wd ps now client i inp md opts h = Some (res, es, h')" "hb_flight h = []"
  shows "hub_reach lru ne h h'"
proof -
  obtain x rt where b: "begin_message lru ne now client i (hb_db h) (hb_runtime h) = Some (x, rt)"
    using assms(1) by (auto simp: handle_user_message_with_opts_def split: option.splits)
  show ?thesis
  proof (cases x)
    case (Inl e)
    then show ?thesis using assms(1) b hub_next [OF hub_here hub_step.refuse] 
      by (auto simp: handle_user_message_with_opts_def)
  next
    case (Inr cs)
    let ?h1 = "h\<lparr>hb_runtime := rt, hb_flight := hb_flight h @ [(i, client, cs)]\<rparr>"
    have start: "hub_reach lru ne h ?h1" using hub_next [OF hub_here hub_step.start] b Inr by blast
    obtain d rt' where e: "end_message lru ne nd wd ps i inp md opts (hub_dispatch h cs) rt = Some (res, d, rt')"
      and h': "h' = (hub_after h d)\<lparr>hb_runtime := rt'\<rparr>"
      using assms(1) b Inr by (auto simp: handle_user_message_with_opts_def split: option.splits prod.splits)
    have "hub_step lru ne ?h1 ((hub_after ?h1 d)\<lparr>hb_runtime := rt', hb_flight := remove1 (i, client, cs) (hb_flight ?h1)\<rparr>)"
      by (rule hub_step.finish) (use e in \<open>simp_all add: hub_dispatch_def\<close>)
    moreover have "(hub_after ?h1 d)\<lparr>hb_runtime := rt', hb_flight := remove1 (i, client, cs) (hb_flight ?h1)\<rparr> = h'"
      using assms(2) by (simp add: h' hub_after_def)
    ultimately show ?thesis using hub_next [OF start] by simp
  qed
qed

text \<open>What the routes rely on: the tables are a ledger, and the cache of the runtime agrees with them.\<close>

definition chat_ok :: "'c lru \<Rightarrow> ('b, 'x) node_env_scheme \<Rightarrow> 'c chat_app \<Rightarrow> bool" where
  "chat_ok lru ne a \<longleftrightarrow> ledgered ne (ca_db a) \<and> (\<forall>rt. ca_runtime a = Some rt \<longrightarrow> hub_ok lru ne (app_hub rt a))"


lemma message_flight:
  assumes "handle_user_message_with_opts lru ne nd wd ps now client i inp md opts h = Some (res, es, h')"
  shows "hb_flight h' = hb_flight h"
  using assms by (auto simp: handle_user_message_with_opts_def hub_after_def split: option.splits sum.splits prod.splits)

lemma app_hub_back: "hb_flight h = [] \<Longrightarrow> app_hub (hb_runtime h) (hub_app h) = h"
  by (simp add: app_hub_def hub_app_def)

lemma app_hub_fields [simp]:
  "hb_db (app_hub rt a) = ca_db a" "hb_flight (app_hub rt a) = []" "hb_runtime (app_hub rt a) = rt"
  "(app_hub rt a)\<lparr>hb_db := db\<rparr> = app_hub rt (a\<lparr>ca_db := db\<rparr>)"
  by (simp_all add: app_hub_def)

lemma chat_ok_prepared:
  assumes "chat_ok lru ne a" "db = ca_db a \<or> (\<exists>t. db = update_meta i (Some t) now (ca_db a))"
  shows "chat_ok lru ne (a\<lparr>ca_db := db\<rparr>)"
  using assms(2)
proof
  assume "\<exists>t. db = update_meta i (Some t) now (ca_db a)"
  then obtain t where db: "db = update_meta i (Some t) now (ca_db a)" by blast
  have led: "ledgered ne (ca_db a)" using assms(1) by (simp add: chat_ok_def)
  note w = weakens_meta [OF ledgered_ok [OF led], of i "Some t" now, folded db]
  have "hub_ok lru ne (app_hub rt (a\<lparr>ca_db := db\<rparr>))" if "ca_runtime a = Some rt" for rt
  proof -
    have "hub_ok lru ne (app_hub rt a)" using assms(1) that by (simp add: chat_ok_def)
    from hub_ok_weakens [OF this, of db] w show ?thesis by simp
  qed
  then show ?thesis using weakens_ledgered [OF w led] by (simp add: chat_ok_def)
qed (use assms(1) in simp)

text \<open>
  An answered message: its client owns the conversation, the table has grown by it and the reply
  sent, and the routes can go on.
\<close>

lemma api_message_cases:
  fixes a :: "'c chat_app"
  assumes "api_conv_messages we lru ne nd wd ps now client i bytes a = Some (r, a')"
  obtains (refused) "rs_status r \<noteq> 200" "a' = a"
    | (asked) cid rt row and p :: "'c dispatch_prep" and db res es h asked where "client = Some cid" "conv_get i (ca_db a) = Some row" "cv_client_id row = cid"
      "ca_runtime a = Some rt" "db = ca_db a \<or> (\<exists>t. db = update_meta i (Some t) now (ca_db a))"
      "handle_user_message_with_opts lru ne nd wd ps now cid i (dx_input p) (dx_mode p) (dx_opts p)
         (app_hub rt (a\<lparr>ca_db := db\<rparr>)) = Some (res, es, h)"
      "a' = hub_app h" "r = (case res of Inl e \<Rightarrow> http_error e | Inr out \<Rightarrow> outcome_response i out)"
      "Option.bind (json_from_str ne bytes) dec_message_request = Some asked"
      "dx_input p = \<lparr>ui_text = trim (cm_message asked), ui_attachments = cm_attachments asked\<rparr>"
proof -
  obtain x db where pr: "prepare_dispatch we ne now (ca_runtime a) client i bytes (ca_db a) = (x, db)" by force
  from pr show thesis
  proof (cases rule: prepare_cases)
    case (refused r0)
    then show thesis using assms pr by (intro that(1)) (simp_all add: api_conv_messages_def)
  next
    case (prepared cid rt row p asked)
    obtain res es h where h: "handle_user_message_with_opts lru ne nd wd ps now cid i (dx_input p) (dx_mode p) (dx_opts p)
         (app_hub rt (a\<lparr>ca_db := db\<rparr>)) = Some (res, es, h)"
      using assms pr prepared by (auto simp: api_conv_messages_def split: option.splits)
    have "a' = hub_app h \<and> r = (case res of Inl e \<Rightarrow> http_error e | Inr out \<Rightarrow> outcome_response i out)"
      using assms pr prepared h by (cases res) (auto simp: api_conv_messages_def)
    then show thesis using prepared h by (intro that(2) [where db = db and p = p and rt = rt and row = row and asked = asked]) simp_all
  qed
qed

lemma http_error_status: "rs_status (http_error e) \<noteq> 200"
  by (cases e rule: error_kind.cases) (simp_all add: http_error_def respond_def)

lemma api_message_ok:
  assumes "lru_law lru" "serde_law ne" "chat_ok lru ne a"
    and "api_conv_messages we lru ne nd wd ps now client i bytes a = Some (r, a')"
  shows "chat_ok lru ne a'"
  using assms(4)
proof (cases rule: api_message_cases)
  case (asked cid rt row p db res es h rq)
  have "hub_ok lru ne (app_hub rt (a\<lparr>ca_db := db\<rparr>))"
    using chat_ok_prepared [OF assms(3) asked(5)] asked(4) by (simp add: chat_ok_def)
  then have ok: "hub_ok lru ne h"
    using hub_reach_ok [OF message_runs [OF asked(6)]] assms(1,2) by simp
  have "hb_flight h = []" using message_flight [OF asked(6)] by simp
  then show ?thesis using ok app_hub_back [of h] unfolding asked(7)
    by (simp add: chat_ok_def hub_app_def) (simp add: hub_ok_def)
qed (use assms(3) in simp)


text \<open>A message that was answered, in the tables.\<close>

lemma message_lands:
  assumes "lru_law lru" "serde_law ne" "hub_ok lru ne h" "hb_flight h = []" "conv_get i (hb_db h) \<noteq> None"
    and "handle_user_message_with_opts lru ne nd wd ps now client i inp md opts h = Some (Inr out, es, h')"
  shows "(\<exists>ts ts'. load_turns i (hb_db h) = ledger_rows ne i ts \<and> load_turns i (hb_db h') = ledger_rows ne i ts'
      \<and> map untimed ts' = map untimed ts @ message_turns (node_id ne nd) inp (do_trace out) (Inr out))
    \<and> (\<forall>j. j \<noteq> i \<longrightarrow> conv_get j (hb_db h') = conv_get j (hb_db h) \<and> load_turns j (hb_db h') = load_turns j (hb_db h))"
proof -
  obtain cs rt d rt' where b: "begin_message lru ne now client i (hb_db h) (hb_runtime h) = Some (Inr cs, rt)"
    and e: "end_message lru ne nd wd ps i inp md opts (hub_dispatch h cs) rt = Some (Inr out, d, rt')"
    and h': "h' = (hub_after h d)\<lparr>hb_runtime := rt'\<rparr>"
    using assms(6) by (auto simp: handle_user_message_with_opts_def split: option.splits sum.splits prod.splits)
  let ?h1 = "h\<lparr>hb_runtime := rt, hb_flight := hb_flight h @ [(i, client, cs)]\<rparr>"
  have ok: "hub_ok lru ne ?h1" using begin_message_ok(2) [OF assms(1-3) b] by simp
  have "(i, client, cs) \<in> set (hb_flight ?h1)" "conv_get i (hb_db ?h1) \<noteq> None" using assms(5) by simp_all
  moreover have "end_message lru ne nd wd ps i inp md opts (hub_dispatch ?h1 cs) (hb_runtime ?h1) = Some (Inr out, d, rt')"
    using e by (simp add: hub_dispatch_def)
  ultimately have "(\<exists>ts ts' us. load_turns i (hb_db ?h1) = ledger_rows ne i ts \<and> load_turns i (dp_db d) = ledger_rows ne i ts'
      \<and> map untimed ts' = map untimed ts @ us
      \<and> (us = [] \<and> (\<exists>e. (Inr out :: (node_error, dispatch_outcome) result) = Inl e)
         \<or> (\<exists>tr. us = message_turns (node_id ne nd) inp tr (Inr out)
              \<and> (\<forall>o'. (Inr out :: (node_error, dispatch_outcome) result) = Inr o' \<longrightarrow> tr = do_trace o'))))
    \<and> (\<forall>j. j \<noteq> i \<longrightarrow> conv_get j (dp_db d) = conv_get j (hb_db ?h1) \<and> load_turns j (dp_db d) = load_turns j (hb_db ?h1))"
    by (rule end_message_lands [OF ok])
  then show ?thesis by (simp add: h' hub_after_def)
qed

text \<open>A second runtime over the same tables loads what the first is still working on.\<close>

lemma stale_dispatch:
  assumes "mirrored ne cs db" "mirrored ne old db" "cs_id old = cs_id cs"
    and "dispatch_by ne nd wd ps inp md opts d = Some (Inr out, d')" "dp_conv d = cs" "dp_db d = db"
    and "dispatch_by ne nd2 wd2 ps2 inp2 md2 opts2 d2 = Some (res, d2')" "dp_conv d2 = old" "dp_db d2 = dp_db d'"
  shows "dp_db d2' = dp_db d' \<and> (res = Inl (InvalidPayload
      ''persist user: storage: conversation_turns.conversation_id, conversation_turns.seq'')
    \<or> (\<exists>ms. res = Inl (UnresolvedMentions ms)))"
proof -
  obtain us where us: "mirrored ne (dp_conv d') (dp_db d')" "map untimed (cs_turns (dp_conv d')) = map untimed (cs_turns cs) @ us"
    "us \<noteq> []"
    using dispatch_by_ledger [OF assms(4)] assms(1,5,6) by (auto simp: message_turns_def)
  have "length (cs_turns old) = length (cs_turns cs)"
    using assms(1-3) by (auto simp: mirrored_def ledger_rows_def dest!: arg_cong [of _ _ length])
  moreover have "length (cs_turns cs) < length (cs_turns (dp_conv d'))"
    using us(2,3) by (metis length_append length_greater_0_conv length_map less_add_same_cancel1)
  ultimately have "length (cs_turns old) < length (cs_turns (dp_conv d'))" by simp
  moreover have "cs_id old = cs_id (dp_conv d')" using confined_by(2) [OF assms(4)] assms(3,5) by simp
  moreover have "cs_next_seq old = int (length (cs_turns old))" using assms(2) by (simp add: mirrored_def)
  ultimately have "persist_last ne (push_turn t old) (dp_db d')
      = (Inl (ConvStorage (Constraint ''conversation_turns.conversation_id, conversation_turns.seq'')), dp_db d')" for t
    using persist_stale [OF us(1)] by simp
  then have "persist_last ne (push_user_input inp2 (wd_clock wd2 AtUser) (dp_conv d2)) (dp_db d2)
      = (Inl (ConvStorage (Constraint ''conversation_turns.conversation_id, conversation_turns.seq'')), dp_db d2)"
    by (simp add: push_user_input_def assms(8,9))
  from dispatch_unsaved [OF this assms(7)] show ?thesis using assms(9) by (simp add: storage_error_text_def)
qed

section \<open>The cookie of a client\<close>

lemma split_on_joined:
  "\<forall>q\<in>set (p # ps). CHR '';'' \<notin> set q \<Longrightarrow> split_on CHR '';'' (join ''; '' (p # ps)) = p # map ((#) CHR '' '') ps"
proof (induction ps arbitrary: p)
  case Nil
  then show ?case by (simp add: split_on_single)
next
  case (Cons q ps)
  have "split_on CHR '';'' (join ''; '' (q # ps)) = q # map ((#) CHR '' '') ps" using Cons by simp
  then show ?case using Cons.prems by (simp add: split_on_append)
qed

lemma trim_space: "trim (CHR '' '' # s) = trim s"
  by (simp add: trim_def trim_start_def char_width_def is_whitespace_def)

lemma client_cookie_skips:
  "\<forall>q\<in>set ps. strip_prefix (CLIENT_ID_COOKIE @ ''='') (trim q) = None
     \<Longrightarrow> client_cookie_parts (ps @ qs) = client_cookie_parts qs"
  by (induction ps) simp_all

lemma alphanumeric_byte: "is_ascii_alphanumeric c \<Longrightarrow> 33 \<le> byte c \<and> byte c < (127::nat)"
  by (auto simp: is_ascii_alphanumeric_def is_ascii_alphabetic_def is_ascii_lowercase_def is_ascii_uppercase_def
      is_ascii_digit_def)

lemma client_cookie_trim:
  assumes "list_all is_ascii_alphanumeric uuid"
  shows "trim (CLIENT_ID_COOKIE @ ''=cli_'' @ uuid) = CLIENT_ID_COOKIE @ ''=cli_'' @ uuid"
proof (rule trim_visible)
  have "list_all (\<lambda>c. 33 \<le> byte c \<and> byte c < (127::nat)) uuid"
    by (rule list.pred_mono_strong [OF assms]) (rule alphanumeric_byte)
  then show "list_all (\<lambda>c. 33 \<le> byte c \<and> byte c < (127::nat)) (CLIENT_ID_COOKIE @ ''=cli_'' @ uuid)"
    by (simp add: CLIENT_ID_COOKIE_def)
qed

section \<open>An instance\<close>

definition toy_web :: web_env where
  "toy_web = \<lparr>we_length_error = ''length limit exceeded'', we_json_error = (\<lambda>_. ''bad json''), we_float = (\<lambda>_. ''0'')\<rparr>"

definition toy_chat_db :: conv_db where
  "toy_chat_db = \<lparr>conversations = [\<lparr>cv_id = ''c'', cv_client_id = ''u'', cv_title = Some ''t'',
     cv_created_at = 1, cv_updated_at = 1\<rparr>], turns = [], plan_runs = []\<rparr>"

definition toy_app :: "(nat \<times> (string \<times> conv_state) list) chat_app" where
  "toy_app = \<lparr>ca_runtime = Some (runtime_new toy_lru default_runtime_config), ca_db = toy_chat_db, ca_audit = [],
     ca_blobs = toy_blobs, ca_calls = 0\<rparr>"

definition toy_body :: string where
  "toy_body = json_text_of (JObj [(''message'', JStr '' hi ''), (''mode'', JStr ''direct'')])"

abbreviation toy_first :: conv_state where
  "toy_first \<equiv> conv_new ''c'' ''u'' (Some ''t'') 1"

lemma toy_chat_facts:
  "db_ok toy_chat_db" "load_turns i toy_chat_db = []" "conv_get ''c'' toy_chat_db
     = Some \<lparr>cv_id = ''c'', cv_client_id = ''u'', cv_title = Some ''t'', cv_created_at = 1, cv_updated_at = 1\<rparr>"
  by (simp_all add: toy_chat_db_def db_ok_def unique_key_def conv_get_def select_by_def load_turns_def)

lemma toy_chat_mirrored: "mirrored text_env toy_first toy_chat_db"
  by (simp add: mirrored_def toy_chat_facts conv_new_def ledger_rows_def)

lemma toy_chat_ok: "chat_ok toy_lru text_env toy_app"
proof -
  have led: "ledgered text_env toy_chat_db"
    using toy_chat_facts by (auto simp: ledgered_def quiet_def ledger_rows_def)
  then have "hub_start toy_lru text_env (app_hub (runtime_new toy_lru default_runtime_config) toy_app)"
    by (auto simp: hub_start_def toy_app_def app_hub_def)
  from hub_start_ok [OF toy_lru_law this] led show ?thesis by (simp add: chat_ok_def toy_app_def)
qed

lemma toy_chat_begin:
  obtains rt where "begin_message toy_lru text_env 5 ''u'' ''c'' toy_chat_db (runtime_new toy_lru cfg)
    = Some (Inr toy_first, rt)"
proof -
  have "conv_load text_env 5 ''c'' ''u'' toy_chat_db = Inr toy_first"
    by (simp add: conv_load_def toy_chat_facts conv_validate_def conv_new_def)
  then show thesis
    using that by (simp add: begin_message_def rt_acquire_def lock_for_def runtime_new_def
        load_state_def toy_lru_def Let_def)
qed

lemma toy_direct:
  assumes "mirrored ne (dp_conv d) (dp_db d)"
  obtains d' where "dispatch_by ne nd toy_world toy_planners inp Direct \<lparr>model_override = None\<rparr> d
    = Some (Inr \<lparr>do_reply = ''fine'', do_model = None, do_trace = [], do_rounds = 1\<rparr>, d')"
proof -
  let ?u = "TUser (ui_text inp) (ui_attachments inp) 5" and ?a = "TAssistant ''fine'' None 5"
  obtain db where db: "persist_last ne (push_turn ?u (dp_conv d)) (dp_db d) = (Inr (), db)"
    "mirrored ne (push_turn ?u (dp_conv d)) db" using mirrored_push [OF assms] .
  obtain db2 where db2: "persist_last ne (push_turn ?a (push_turn ?u (dp_conv d))) db = (Inr (), db2)"
    using mirrored_push [OF db(2)] .
  show thesis
    using that db(1) db2 by (simp add: dispatch_by_def direct_dispatch_def direct_inner_def toy_planners_def
        toy_planner_def toy_world_def push_user_input_def push_assistant_def resp_content_def Let_def)
qed

section \<open>Properties\<close>

text \<open>
  (a client keeps its id). A request without the cookie is served as a new client, and the
  response sets the cookie; when a browser sends the pair back, among any other cookies, the
  middleware finds the same id.
\<close>

theorem client_keeps_id:
  assumes "list_all is_ascii_alphanumeric uuid" "next_handler (''cli_'' @ uuid) s = (resp, s')"
    and "\<forall>p\<in>set before \<union> set after. CHR '';'' \<notin> set p" "\<forall>p\<in>set before. strip_prefix (CLIENT_ID_COOKIE @ ''='') (trim p) = None"
  shows "client_id_middleware uuid None next_handler s
      = (resp\<lparr>rs_cookies := rs_cookies resp @ [client_cookie_string (''cli_'' @ uuid)]\<rparr>, s')
    \<and> starts_with (CLIENT_ID_COOKIE @ ''=cli_'' @ uuid) (client_cookie_string (''cli_'' @ uuid))
    \<and> client_id_middleware uuid2 (Some (join ''; '' (before @ [CLIENT_ID_COOKIE @ ''=cli_'' @ uuid] @ after))) handler2 s2
      = handler2 (''cli_'' @ uuid) s2"
proof (intro conjI)
  let ?me = "CLIENT_ID_COOKIE @ ''=cli_'' @ uuid"
  have ok: "header_value_ok (client_cookie_string (''cli_'' @ uuid))"
  proof -
    have "list_all (\<lambda>c. byte c = 9 \<or> (32 \<le> byte c \<and> byte c \<noteq> 127)) uuid"
      by (rule list.pred_mono_strong [OF assms(1)]) (use alphanumeric_byte in fastforce)
    moreover have "list_all (\<lambda>c. byte c = 9 \<or> (32 \<le> byte c \<and> byte c \<noteq> 127)) (dec CLIENT_ID_MAX_AGE)"
      by (rule list.pred_mono_strong [OF conjunct1 [OF dec_digits]]) (auto simp: is_ascii_digit_def)
    ultimately show ?thesis by (simp add: header_value_ok_def client_cookie_string_def CLIENT_ID_COOKIE_def)
  qed
  then show "client_id_middleware uuid None next_handler s
      = (resp\<lparr>rs_cookies := rs_cookies resp @ [client_cookie_string (''cli_'' @ uuid)]\<rparr>, s')"
    using assms(2) by (simp add: client_id_middleware_def append_cookie_def Let_def)
  show "starts_with ?me (client_cookie_string (''cli_'' @ uuid))"
  proof -
    have "client_cookie_string (''cli_'' @ uuid)
        = ?me @ ''; Path=/; Max-Age='' @ dec CLIENT_ID_MAX_AGE @ ''; HttpOnly; SameSite=Lax''"
      by (simp add: client_cookie_string_def)
    then show ?thesis by (simp only: starts_with_append)
  qed
  have "\<not> is_ascii_alphanumeric CHR '';''" by code_simp
  then have "CHR '';'' \<notin> set uuid" using assms(1) by (auto simp: list_all_iff)
  then have sep: "CHR '';'' \<notin> set ?me" by (simp add: CLIENT_ID_COOKIE_def)
  have mine: "client_cookie_parts (?me # ps) = Some (''cli_'' @ uuid)" "client_cookie_parts ((CHR '' '' # ?me) # ps) = Some (''cli_'' @ uuid)" for ps
    using client_cookie_trim [OF assms(1)] by (simp_all add: trim_space strip_prefix_def starts_with_def)
  have "parse_client_cookie (join ''; '' (before @ [?me] @ after)) = Some (''cli_'' @ uuid)"
  proof (cases before)
    case Nil
    then show ?thesis
      using split_on_joined [of ?me after] assms(3) sep mine by (simp add: parse_client_cookie_def)
  next
    case (Cons p ps)
    have "split_on CHR '';'' (join ''; '' (p # ps @ ?me # after))
        = (p # map ((#) CHR '' '') ps) @ (CHR '' '' # ?me) # map ((#) CHR '' '') after"
      using split_on_joined [of p "ps @ ?me # after"] assms(3) sep Cons by simp
    moreover have none: "\<forall>q\<in>set (p # map ((#) CHR '' '') ps). strip_prefix (CLIENT_ID_COOKIE @ ''='') (trim q) = None"
      using assms(4) Cons by (simp add: trim_space)
    ultimately have "parse_client_cookie (join ''; '' (p # ps @ ?me # after)) = Some (''cli_'' @ uuid)"
      unfolding parse_client_cookie_def by (simp only: client_cookie_skips [OF none] mine(2))
    then show ?thesis using Cons by simp
  qed
  then show "client_id_middleware uuid2 (Some (join ''; '' (before @ [?me] @ after))) handler2 s2 = handler2 (''cli_'' @ uuid) s2"
    by (simp add: client_id_middleware_def)
qed

lemma client_keeps_id_witness:
  "client_id_middleware ''0b'' (Some ''lang=en; n3ur0n_client_id=cli_0a; theme=dark'')
    (\<lambda>c s. (respond 200 (JStr c), s)) () = (respond 200 (JStr ''cli_0a''), ())"
proof -
  have "list_all is_ascii_alphanumeric ''0a''" by code_simp
  moreover have "strip_prefix (CLIENT_ID_COOKIE @ ''='') (trim ''lang=en'') = None" by code_simp
  ultimately show ?thesis
    using client_keeps_id [of "''0a''" "\<lambda>c s. (respond 200 (JStr c), s)" "()" "respond 200 (JStr ''cli_0a'')" "()"
        "[''lang=en'']" "[''theme=dark'']" "''0b''" "\<lambda>c s. (respond 200 (JStr c), s)" "()"]
    by (simp add: CLIENT_ID_COOKIE_def)
qed

text \<open>
  C15 (other people's conversations do not exist). To a client that does not own it, every route
  answers about a conversation exactly as if it had been deleted, changes nothing, and does not
  list it.
\<close>

theorem foreign_conversation_hidden:
  assumes "conv_get i db = Some r" "cv_client_id r \<noteq> cid"
  shows "api_conv_get ne now (Some cid) i db = api_conv_get ne now (Some cid) i (conv_delete i db)
    \<and> api_conv_patch we ne now (Some cid) i bytes db
        = (fst (api_conv_patch we ne now (Some cid) i bytes (conv_delete i db)), db)
    \<and> api_conv_delete ne now (Some cid) i db = (fst (api_conv_delete ne now (Some cid) i (conv_delete i db)), db)
    \<and> prepare_dispatch we ne now rt (Some cid) i bytes db
        = (fst (prepare_dispatch we ne now rt (Some cid) i bytes (conv_delete i db)), db)
    \<and> r \<notin> set (list_for_client cid 200 db)"
proof (intro conjI)
  note l = load_foreign [OF assms]
  show "api_conv_get ne now (Some cid) i db = api_conv_get ne now (Some cid) i (conv_delete i db)"
    by (simp add: api_conv_get_def l)
  show "api_conv_patch we ne now (Some cid) i bytes db
      = (fst (api_conv_patch we ne now (Some cid) i bytes (conv_delete i db)), db)"
    by (auto simp: api_conv_patch_def l split: sum.split)
  show "api_conv_delete ne now (Some cid) i db = (fst (api_conv_delete ne now (Some cid) i (conv_delete i db)), db)"
    by (simp add: api_conv_delete_def l)
  show "prepare_dispatch we ne now rt (Some cid) i bytes db
      = (fst (prepare_dispatch we ne now rt (Some cid) i bytes (conv_delete i db)), db)"
    using assms by (auto simp: prepare_dispatch_def conv_get_delete Let_def split: sum.split option.split)
  show "r \<notin> set (list_for_client cid 200 db)"
    using assms by (auto simp: list_for_client_def limit_def dest: in_set_takeD)
qed

lemma foreign_conversation_hidden_witness:
  "api_conv_delete text_env 5 (Some ''v'') ''c'' toy_conv_db = (api_error 404 ''conversation not found'', toy_conv_db)"
proof -
  have "cv_client_id \<lparr>cv_id = ''c'', cv_client_id = ''u'', cv_title = None, cv_created_at = 1, cv_updated_at = 1\<rparr> \<noteq> ''v''"
    by simp
  from foreign_conversation_hidden [OF toy_db_facts(3) this, of text_env 5, THEN conjunct2, THEN conjunct2, THEN conjunct1]
  show ?thesis by (simp add: api_conv_delete_def conv_load_def conv_get_delete)
qed


text \<open>
  C4 (what the client is told is what is stored). When a message is answered 200, its client owns
  the conversation, and the table has grown by exactly the trimmed message with its attachments,
  the call and result of every step in the trace of the answer, and the reply of the answer; other
  conversations are untouched, and the cache agrees with the tables again.
\<close>

theorem answer_is_recorded:
  assumes "lru_law lru" "serde_law ne" "chat_ok lru ne a"
    and "api_conv_messages we lru ne nd wd ps now client i bytes a = Some (r, a')" "rs_status r = 200"
  shows "\<exists>row asked out ts ts'. conv_get i (ca_db a) = Some row \<and> client = Some (cv_client_id row)
    \<and> Option.bind (json_from_str ne bytes) dec_message_request = Some asked \<and> r = outcome_response i out
    \<and> load_turns i (ca_db a) = ledger_rows ne i ts \<and> load_turns i (ca_db a') = ledger_rows ne i ts'
    \<and> map untimed ts' = map untimed ts @ message_turns (node_id ne nd)
        \<lparr>ui_text = trim (cm_message asked), ui_attachments = cm_attachments asked\<rparr> (do_trace out) (Inr out)
    \<and> (\<forall>j. j \<noteq> i \<longrightarrow> conv_get j (ca_db a') = conv_get j (ca_db a) \<and> load_turns j (ca_db a') = load_turns j (ca_db a))
    \<and> chat_ok lru ne a'"
  using assms(4)
proof (cases rule: api_message_cases)
  case refused
  then show ?thesis using assms(5) by simp
next
  case (asked cid rt row p db res es h rq)
  obtain out where out: "res = Inr out" "r = outcome_response i out"
    using asked(8) assms(5) http_error_status by (cases res) auto
  let ?h = "app_hub rt (a\<lparr>ca_db := db\<rparr>)"
  have "hub_ok lru ne ?h" using chat_ok_prepared [OF assms(3) asked(5)] asked(4) by (simp add: chat_ok_def)
  moreover have same: "load_turns j db = load_turns j (ca_db a)" "j \<noteq> i \<Longrightarrow> conv_get j db = conv_get j (ca_db a)" for j
    using asked(5) by (auto simp: load_turns_def conv_get_def update_meta_def select_by_update_key)
  moreover have "conv_get i (hb_db ?h) \<noteq> None"
    using asked(2,5) by (auto simp: conv_get_def update_meta_def select_by_update_key)
  ultimately show ?thesis
    using message_lands [OF assms(1,2) _ _ _ asked(6) [unfolded out(1)]] asked(1,2,3,7,9,10) out(2)
      api_message_ok [OF assms(1-4)]
    by (simp add: hub_app_def) (metis (no_types, lifting))
qed

lemma answer_is_recorded_witness:
  "\<exists>r a' ts'. api_conv_messages toy_web toy_lru text_env toy_node toy_world toy_planners 5 (Some ''u'') ''c'' toy_body toy_app
      = Some (r, a') \<and> rs_status r = 200 \<and> load_turns ''c'' (ca_db a') = ledger_rows text_env ''c'' ts'
    \<and> map untimed ts' = [TUser ''hi'' [] 0, TAssistant ''fine'' None 0]"
proof -
  let ?out = "\<lparr>do_reply = ''fine'', do_model = None, do_trace = [], do_rounds = 1\<rparr> :: dispatch_outcome"
  let ?rq = "\<lparr>cm_message = '' hi '', cm_attachments = [], cm_mode = Some ''direct'', cm_model = None\<rparr>"
  let ?inp = "\<lparr>ui_text = ''hi'', ui_attachments = []\<rparr>"
  let ?rt = "runtime_new toy_lru default_runtime_config"
  have body: "json_from_str text_env toy_body = Some (JObj [(''message'', JStr '' hi ''), (''mode'', JStr ''direct'')])"
    by (simp add: text_env_def toy_body_def del: json_text_of.simps)
  have dec: "dec_message_request (JObj [(''message'', JStr '' hi ''), (''mode'', JStr ''direct'')]) = Some ?rq"
    by (simp add: dec_message_request_def field_defs read_default_def read_opt_def)
  have small: "length toy_body \<le> 1000" unfolding toy_body_def by code_simp
  have words: "trim '' hi '' = ''hi''" "trim ''direct'' = ''direct''" by code_simp+
  have prep: "prepare_dispatch toy_web text_env 5 (Some ?rt) (Some ''u'') ''c'' toy_body toy_chat_db
    = (Inr \<lparr>dx_client = ''u'', dx_runtime = ?rt, dx_input = ?inp, dx_mode = Direct, dx_opts = \<lparr>model_override = None\<rparr>\<rparr>, toy_chat_db)"
    using small by (simp add: prepare_dispatch_def read_body_def read_json_def body dec words parse_dispatch_mode_def
        parse_dispatch_opts_def toy_chat_facts LOCAL_API_LIMIT_def Let_def)
  obtain rt where b: "begin_message toy_lru text_env 5 ''u'' ''c'' toy_chat_db ?rt = Some (Inr toy_first, rt)"
    by (rule toy_chat_begin)
  let ?d = "hub_dispatch (app_hub ?rt toy_app) toy_first"
  have "mirrored text_env (dp_conv ?d) (dp_db ?d)"
    using toy_chat_mirrored by (simp add: hub_dispatch_def toy_app_def)
  then obtain d' where d': "dispatch_by text_env toy_node toy_world toy_planners ?inp Direct \<lparr>model_override = None\<rparr> ?d
      = Some (Inr ?out, d')" by (rule toy_direct)
  obtain a' where a': "api_conv_messages toy_web toy_lru text_env toy_node toy_world toy_planners 5 (Some ''u'') ''c'' toy_body
      toy_app = Some (outcome_response ''c'' ?out, a')"
    using prep b d' by (simp add: api_conv_messages_def handle_user_message_with_opts_def end_message_def toy_app_def)
  have ok: "rs_status (outcome_response ''c'' ?out) = 200" by (simp add: outcome_response_def respond_def)
  from answer_is_recorded [OF toy_lru_law text_env_law toy_chat_ok a' ok]
  obtain asked out ts ts' where r: "Option.bind (json_from_str text_env toy_body) dec_message_request = Some asked"
    "outcome_response ''c'' ?out = outcome_response ''c'' out" "load_turns ''c'' toy_chat_db = ledger_rows text_env ''c'' ts"
    "load_turns ''c'' (ca_db a') = ledger_rows text_env ''c'' ts'"
    "map untimed ts' = map untimed ts @ message_turns (node_id text_env toy_node)
        \<lparr>ui_text = trim (cm_message asked), ui_attachments = cm_attachments asked\<rparr> (do_trace out) (Inr out)"
    by (auto simp: toy_app_def)
  have "asked = ?rq" using r(1) by (simp add: body dec)
  moreover have "ts = []" using r(3) by (simp add: toy_chat_facts ledger_rows_def)
  moreover have "do_reply out = ''fine'' \<and> do_model out = None \<and> do_trace out = []"
    using r(2) by (simp add: outcome_response_def respond_def json_obj_def obj_of_def json_opt_def enc_list_def
        split: option.splits)
  ultimately have "map untimed ts' = [TUser ''hi'' [] 0, TAssistant ''fine'' None 0]"
    using r(5) words by (simp add: message_turns_def reply_turns_def)
  then show ?thesis using a' ok r(4) by (intro exI conjI) assumption+
qed




end
