(* ===== verification/Server_Files.thy ===== *)
theory Server_Files
  imports Blob_Endpoint
begin

text \<open>
  \<open>crates/server/src/files_api.rs\<close>: the files of a user, over the blob index and the store of
  the node. The handlers take the user that the guards let through, the bytes of the headers and
  what the store answers; a header that is absent is \<open>None\<close>. The file system does not fail here,
  apart from the removal of a file.
\<close>

section \<open>Text of a header\<close>

text \<open>\<open>String::from_utf8_lossy\<close>: every ill-formed sequence becomes U+FFFD.\<close>

definition byte_in :: "nat \<Rightarrow> nat \<Rightarrow> nat \<Rightarrow> string \<Rightarrow> bool" where
  "byte_in i lo hi s \<longleftrightarrow> i < length s \<and> lo \<le> byte (s ! i) \<and> byte (s ! i) \<le> hi"

text \<open>The length of the sequence that starts with a byte, and whether it is well formed.\<close>

definition utf8_head :: "char \<Rightarrow> string \<Rightarrow> nat \<times> bool" where
  "utf8_head c s =
     (let b = byte c in
      if b < 128 then (1, True)
      else if 194 \<le> b \<and> b \<le> 223 then (if byte_in 0 128 191 s then (2, True) else (1, False))
      else if 224 \<le> b \<and> b \<le> 239 then
        (if \<not> byte_in 0 (if b = 224 then 160 else 128) (if b = 237 then 159 else 191) s then (1, False)
         else if \<not> byte_in 1 128 191 s then (2, False) else (3, True))
      else if 240 \<le> b \<and> b \<le> 244 then
        (if \<not> byte_in 0 (if b = 240 then 144 else 128) (if b = 244 then 143 else 191) s then (1, False)
         else if \<not> byte_in 1 128 191 s then (2, False)
         else if \<not> byte_in 2 128 191 s then (3, False) else (4, True))
      else (1, False))"

definition replacement :: string where
  "replacement = [CHR 0xEF, CHR 0xBF, CHR 0xBD]"

fun from_utf8_lossy :: "string \<Rightarrow> string" where
  "from_utf8_lossy [] = []"
| "from_utf8_lossy (c # s) =
     (case utf8_head c s of (n, ok) \<Rightarrow>
        (if ok then c # take (n - 1) s else replacement) @ from_utf8_lossy (drop (n - 1) s))"

fun is_utf8 :: "string \<Rightarrow> bool" where
  "is_utf8 [] \<longleftrightarrow> True"
| "is_utf8 (c # s) \<longleftrightarrow> snd (utf8_head c s) \<and> is_utf8 (drop (fst (utf8_head c s) - 1) s)"

text \<open>\<open>char::to_digit(16)\<close>.\<close>

definition hex_digit_value :: "char \<Rightarrow> nat option" where
  "hex_digit_value c =
     (let b = byte c in
      if 48 \<le> b \<and> b \<le> 57 then Some (b - 48)
      else if 97 \<le> b \<and> b \<le> 102 then Some (b - 87)
      else if 65 \<le> b \<and> b \<le> 70 then Some (b - 55) else None)"

fun percent_bytes :: "string \<Rightarrow> string" where
  "percent_bytes (p # a # b # s) =
     (if p = CHR 0x25
      then (case (hex_digit_value a, hex_digit_value b) of
              (Some x, Some y) \<Rightarrow> char_of (x * 16 + y) # percent_bytes s
            | _ \<Rightarrow> p # percent_bytes (a # b # s))
      else p # percent_bytes (a # b # s))"
| "percent_bytes s = s"

definition percent_decode :: "string \<Rightarrow> string" where
  "percent_decode raw = from_utf8_lossy (percent_bytes raw)"

section \<open>Handlers\<close>

definition FILES_READ :: string where
  "FILES_READ = ''files:read''"

definition FILES_DELETE :: string where
  "FILES_DELETE = ''files:delete''"

definition CAPS_BLOBS_READ :: string where
  "CAPS_BLOBS_READ = ''caps:blobs:read''"

definition forbidden_reply :: "string \<Rightarrow> reply" where
  "forbidden_reply p =
     json_reply 403 (json_obj [(''error'', JStr ''forbidden''), (''required_permission'', JStr p)])"

definition FILE_COOKIE :: string where
  "FILE_COOKIE = ''n3ur0n_client_id''"

fun file_cookie_parts :: "string list \<Rightarrow> string option" where
  "file_cookie_parts [] = None"
| "file_cookie_parts (p # ps) =
     (case strip_prefix (FILE_COOKIE @ ''='') (trim p) of
        Some v \<Rightarrow> Some v
      | None \<Rightarrow> file_cookie_parts ps)"

definition client_id_from_cookie :: "string option \<Rightarrow> string option" where
  "client_id_from_cookie header =
     Option.bind (Option.bind header header_to_str) (\<lambda>raw. file_cookie_parts (split_on CHR '';'' raw))"

definition owns_record :: "blob_record \<Rightarrow> int \<Rightarrow> string option \<Rightarrow> bool" where
  "owns_record r user client \<longleftrightarrow>
     (if local_user_id r = Some user then True
      else case client of None \<Rightarrow> False | Some cid \<Rightarrow> client_id r = Some cid)"

record file_upload =
  fu_mime :: "string option"
  fu_name :: "string option"
  fu_body :: string

definition upload_mime :: "string option \<Rightarrow> string" where
  "upload_mime header =
     trim (hd (split_on CHR '';''
       (case Option.bind header header_to_str of None \<Rightarrow> ''application/octet-stream'' | Some v \<Rightarrow> v)))"

definition upload_name :: "string option \<Rightarrow> string option" where
  "upload_name header =
     Option.bind (map_option percent_decode (Option.bind header header_to_str)) sanitize_blob_path"

definition upload_file ::
  "('x) crypto_scheme \<Rightarrow> 'b node \<Rightarrow> int \<Rightarrow> authed_user \<Rightarrow> string option \<Rightarrow> file_upload \<Rightarrow> blob_world
     \<Rightarrow> reply \<times> blob_world" where
  "upload_file cr nd now user cookie rq w =
     (if \<not> has_permission (au_role user) FILES_READ then (forbidden_reply FILES_READ, w)
      else if fu_body rq = [] then (blob_error 400 ''empty body'', w)
      else (case store_local_cache cr (nd_blobs nd) now (fu_body rq) (upload_mime (fu_mime rq))
                   (upload_name (fu_name rq)) (Some (au_id user)) (client_id_from_cookie cookie) w of
              (Inl e, w1) \<Rightarrow> (blob_error 500 e, w1)
            | (Inr b, w1) \<Rightarrow>
                let stored = Option.bind (blob_get (br_hash b) (bw_index w1)) path in
                (json_reply 201 (json_obj [(''hash'', JStr (br_hash b)), (''size'', JInt (uint (br_size b))),
                   (''mime'', JStr (br_mime b)), (''path'', opt_json JStr stored)]), w1)))"

definition list_files ::
  "(int \<Rightarrow> string option) \<Rightarrow> authed_user \<Rightarrow> string option \<Rightarrow> blob_world \<Rightarrow> reply" where
  "list_files fmt user cookie w =
     (if \<not> has_permission (au_role user) FILES_READ then forbidden_reply FILES_READ
      else json_reply 200 (json_obj [(''files'', JArr (map (record_to_json fmt)
             (list_user_visible (Some (au_id user)) (client_id_from_cookie cookie) 200 (bw_index w))))]))"

definition BLOB_TICKET_HEADER :: string where
  "BLOB_TICKET_HEADER = ''X-N3UR0N-Ticket''"

definition get_file_meta ::
  "('x) blob_env_scheme \<Rightarrow> 'b node \<Rightarrow> time \<Rightarrow> string \<Rightarrow> authed_user \<Rightarrow> string option \<Rightarrow> string
     \<Rightarrow> blob_world \<Rightarrow> reply" where
  "get_file_meta be nd now uuid user cookie h w =
     (if \<not> has_permission (au_role user) FILES_READ then forbidden_reply FILES_READ
      else (case blob_get h (bw_index w) of
              None \<Rightarrow> blob_error 404 ''not found''
            | Some r \<Rightarrow>
      if \<not> b_user_visible r \<or> \<not> owns_record r (au_id user) (client_id_from_cookie cookie)
      then blob_error 404 ''not found''
      else (case forge_local_get_ticket be (nd_keypair nd) (keypair_id be (nd_keypair nd)) h now uuid of
              Inl e \<Rightarrow> blob_error 500 (core_error_text e)
            | Inr ticket \<Rightarrow>
      (case encode_ticket_wire be ticket of
         Inl e \<Rightarrow> blob_error 500 (core_error_text e)
       | Inr header \<Rightarrow>
      (case bw_files w (storage_path r) of
         None \<Rightarrow> blob_error 404 ''file missing on disk''
       | Some bytes \<Rightarrow>
           (if header_value_ok (mime r) \<and> header_value_ok header
            then \<lparr>rp_status = 200,
                   rp_headers = [(''content-type'', mime r), (''content-length'', dec_int (b_size r)),
                     (BLOB_TICKET_HEADER, header)],
                   rp_body = ByteBody bytes\<rparr>
            else \<lparr>rp_status = 500, rp_headers = [], rp_body = NoBody\<rparr>))))))"

definition delete_file ::
  "bool \<Rightarrow> authed_user \<Rightarrow> string option \<Rightarrow> string \<Rightarrow> blob_world \<Rightarrow> reply \<times> blob_world" where
  "delete_file unlinks user cookie h w =
     (if \<not> has_permission (au_role user) FILES_DELETE then (forbidden_reply FILES_DELETE, w)
      else (case blob_get h (bw_index w) of
              None \<Rightarrow> (blob_error 404 ''not found'', w)
            | Some r \<Rightarrow>
      if \<not> b_user_deletable r \<or> \<not> owns_record r (au_id user) (client_id_from_cookie cookie)
      then (blob_error 403 ''not deletable'', w)
      else (\<lparr>rp_status = 204, rp_headers = [], rp_body = NoBody\<rparr>,
            w\<lparr>bw_files := (if unlinks then (bw_files w)(storage_path r := None) else bw_files w),
              bw_index := snd (blob_delete h (bw_index w))\<rparr>)))"

definition list_cap_job_blobs :: "(int \<Rightarrow> string option) \<Rightarrow> authed_user \<Rightarrow> blob_world \<Rightarrow> reply" where
  "list_cap_job_blobs fmt user w =
     (if \<not> has_permission (au_role user) CAPS_BLOBS_READ then forbidden_reply CAPS_BLOBS_READ
      else json_reply 200 (json_obj [(''blobs'', JArr (map (record_to_json fmt)
             (list_cap_jobs 200 (bw_index w))))]))"

section \<open>A sequence of requests\<close>

datatype file_op =
    UploadFile file_upload
  | ListFiles
  | ReadFile string string
  | DropFile string bool
  | ListJobs

record file_request =
  fq_user :: authed_user
  fq_cookie :: "string option"
  fq_now :: time
  fq_op :: file_op

fun file_step ::
  "('x) blob_env_scheme \<Rightarrow> 'b node \<Rightarrow> file_request \<Rightarrow> blob_world \<Rightarrow> reply \<times> blob_world" where
  "file_step be nd q w =
     (case fq_op q of
        UploadFile rq \<Rightarrow> upload_file be nd (unix_timestamp (fq_now q)) (fq_user q) (fq_cookie q) rq w
      | ListFiles \<Rightarrow> (list_files (secs_rfc3339 be) (fq_user q) (fq_cookie q) w, w)
      | ReadFile h uuid \<Rightarrow> (get_file_meta be nd (fq_now q) uuid (fq_user q) (fq_cookie q) h w, w)
      | DropFile h unlinks \<Rightarrow> delete_file unlinks (fq_user q) (fq_cookie q) h w
      | ListJobs \<Rightarrow> (list_cap_job_blobs (secs_rfc3339 be) (fq_user q) w, w))"

declare file_step.simps [simp del]

fun file_run ::
  "('x) blob_env_scheme \<Rightarrow> 'b node \<Rightarrow> file_request list \<Rightarrow> blob_world \<Rightarrow> reply list \<times> blob_world" where
  "file_run be nd [] w = ([], w)"
| "file_run be nd (q # qs) w =
     (case file_step be nd q w of (r, w1) \<Rightarrow>
        case file_run be nd qs w1 of (rs, w2) \<Rightarrow> (r # rs, w2))"

section \<open>Names\<close>

lemma lossy_utf8: "is_utf8 s \<Longrightarrow> from_utf8_lossy s = s"
  by (induction s rule: is_utf8.induct) (auto split: prod.splits)

lemma is_utf8_ascii: "is_ascii s \<Longrightarrow> is_utf8 s"
  by (induction s) (auto simp: utf8_head_def is_ascii_def)

text \<open>What a browser's \<open>encodeURIComponent\<close> makes of the UTF-8 bytes of a name.\<close>

definition url_plain :: "char \<Rightarrow> bool" where
  "url_plain c \<longleftrightarrow> is_ascii_alphanumeric c \<or> byte c \<in> {45, 95, 46, 33, 126, 42, 39, 40, 41}"

definition upper_digit :: "nat \<Rightarrow> char" where
  "upper_digit n = (if n < 10 then char_of (48 + n) else char_of (55 + n))"

definition percent_encode :: "string \<Rightarrow> string" where
  "percent_encode s = concat (map (\<lambda>c. if url_plain c then [c]
     else [CHR 0x25, upper_digit (byte c div 16), upper_digit (byte c mod 16)]) s)"

lemma percent_encode_Cons:
  "percent_encode (c # s) = (if url_plain c then [c]
     else [CHR 0x25, upper_digit (byte c div 16), upper_digit (byte c mod 16)]) @ percent_encode s"
  by (simp add: percent_encode_def)

lemma upper_digit_value: "n < 16 \<Longrightarrow> hex_digit_value (upper_digit n) = Some n"
  by (auto simp: hex_digit_value_def upper_digit_def Let_def)

lemma percent_plain: "c \<noteq> CHR 0x25 \<Longrightarrow> percent_bytes (c # s) = c # percent_bytes s"
  by (cases s rule: percent_bytes.cases) auto

lemma url_plain_not_percent: "url_plain c \<Longrightarrow> c \<noteq> CHR 0x25"
  by (auto simp: url_plain_def is_ascii_alphanumeric_def is_ascii_alphabetic_def
      is_ascii_lowercase_def is_ascii_uppercase_def is_ascii_digit_def)

lemma percent_bytes_encode: "percent_bytes (percent_encode s) = s"
proof (induction s)
  case (Cons c s)
  have "char_of (byte c div 16 * 16 + byte c mod 16) = c" by simp
  with nibbles [of c] Cons show ?case
    by (simp add: percent_encode_Cons percent_plain url_plain_not_percent upper_digit_value
        del: div_mult_mod_eq)
qed (simp add: percent_encode_def)

lemma upper_digit_visible: "n < 16 \<Longrightarrow> 32 \<le> byte (upper_digit n) \<and> byte (upper_digit n) < 127"
  by (auto simp: upper_digit_def)

lemma percent_encode_visible: "header_to_str (percent_encode s) = Some (percent_encode s)"
proof -
  have "list_all (\<lambda>c. byte c = 9 \<or> 32 \<le> byte c \<and> byte c < 127) (percent_encode s)"
  proof (induction s)
    case (Cons c s)
    with nibbles [of c] upper_digit_visible show ?case
      by (auto simp: percent_encode_Cons url_plain_def is_ascii_alphanumeric_def is_ascii_alphabetic_def
          is_ascii_lowercase_def is_ascii_uppercase_def is_ascii_digit_def)
  qed (simp add: percent_encode_def)
  then show ?thesis by (simp add: header_to_str_def)
qed

lemma percent_round_trip: "is_utf8 s \<Longrightarrow> percent_decode (percent_encode s) = s"
  by (simp add: percent_decode_def percent_bytes_encode lossy_utf8)

section \<open>Who owns what\<close>

lemma owns_record_iff:
  "owns_record r u c \<longleftrightarrow> local_user_id r = Some u \<or> (c \<noteq> None \<and> client_id r = c)"
  by (auto simp: owns_record_def split: option.splits)

lemma listed_owned: "r \<in> set (list_user_visible (Some u) c n t) \<Longrightarrow> r \<in> set t \<and> owns_record r u c"
  by (auto simp: list_user_visible_def limit_def newest_first_def owned_by_def owns_record_iff
      split: if_splits dest: in_set_takeD)

definition kept :: "blob_record \<Rightarrow> blob_record \<Rightarrow> bool" where
  "kept r r' \<longleftrightarrow> local_user_id r' = local_user_id r \<and> client_id r' = client_id r
     \<and> b_user_visible r' = b_user_visible r \<and> b_user_deletable r' = b_user_deletable r
     \<and> (path r = None \<or> path r' = path r)"

lemma kept_refl [simp]: "kept r r"
  by (simp add: kept_def)

lemma kept_trans: "kept r s \<Longrightarrow> kept s t \<Longrightarrow> kept r t"
  by (auto simp: kept_def)

lemma kept_owner: "kept r r' \<Longrightarrow> owns_record r' u c \<longleftrightarrow> owns_record r u c"
  by (simp add: kept_def owns_record_iff)

lemma kept_merge: "kept r (blob_merge now r new)"
  by (cases "path r") (simp_all add: kept_def blob_merge_def)

text \<open>Every row is stored under the directory of the node, at its hash, one row a hash.\<close>

definition filed :: "string \<Rightarrow> blob_world \<Rightarrow> bool" where
  "filed root w \<longleftrightarrow> stored_under root w \<and> unique_key hash (bw_index w)
     \<and> (\<forall>h r. blob_get h (bw_index w) = Some r \<longrightarrow> validate_hash h = Inr ())"

definition holds_file :: "('x) crypto_scheme \<Rightarrow> string \<Rightarrow> blob_record \<Rightarrow> blob_world \<Rightarrow> bool" where
  "holds_file cr h r w \<longleftrightarrow> blob_get h (bw_index w) = Some r
     \<and> (\<exists>b. bw_files w (storage_path r) = Some b \<and> hash_bytes cr b = h)"

text \<open>The row an upload writes, and what an upload that is let through does.\<close>

definition cache_row :: "string \<Rightarrow> string \<Rightarrow> int \<Rightarrow> authed_user \<Rightarrow> string option \<Rightarrow> file_upload \<Rightarrow> blob_insert" where
  "cache_row root h now u c rq =
     \<lparr>hash = h, b_size = int (length (fu_body rq)), mime = upload_mime (fu_mime rq),
      path = upload_name (fu_name rq), b_expires_at = now + ttl_of PurposeInput,
      storage_path = path_join root h, b_provenance = ''outbound'', b_role = ''input'',
      b_anchor_kind = ''local_cache'', b_processing_status = ''staged'', local_user_id = Some (au_id u),
      client_id = client_id_from_cookie c, conversation_id = None, dispatch_id = None,
      b_capability = None, remote_sender_id = None, ticket_nonce = None, invoke_id = None,
      b_user_visible = True, b_user_deletable = True, uploader_id = None,
      b_recipients_whitelist = None\<rparr>"

lemma cache_row_simps [simp]:
  "hash (cache_row root h now u c rq) = h" "storage_path (cache_row root h now u c rq) = path_join root h"
  "path (cache_row root h now u c rq) = upload_name (fu_name rq)"
  by (simp_all add: cache_row_def)

lemma merged_row_simps [simp]:
  "storage_path (new_blob_row now row) = storage_path row"
  "storage_path (blob_merge now old new) = storage_path new"
  by (simp_all add: new_blob_row_def blob_merge_def blob_insert.defs)

definition cached :: "string \<Rightarrow> string \<Rightarrow> int \<Rightarrow> authed_user \<Rightarrow> string option \<Rightarrow> file_upload \<Rightarrow> blob_world \<Rightarrow> blob_world" where
  "cached root h now u c rq w =
     w\<lparr>bw_files := (bw_files w)(path_join root h \<mapsto> fu_body rq),
       bw_index := blob_upsert now (cache_row root h now u c rq) (bw_index w)\<rparr>"

lemma upload_admitted:
  assumes "has_permission (au_role u) FILES_READ" "fu_body rq \<noteq> []" "blobs_dir (nd_blobs nd) = Some root"
  shows "upload_file cr nd now u c rq w =
    (let h = hash_bytes cr (fu_body rq); w1 = cached root h now u c rq w
     in (json_reply 201 (json_obj [(''hash'', JStr h), (''size'', JInt (uint (of_nat (length (fu_body rq)) :: 64 word))),
          (''mime'', JStr (upload_mime (fu_mime rq))),
          (''path'', opt_json JStr (Option.bind (blob_get h (bw_index w1)) path))]), w1))"
  using assms
  by (simp add: upload_file_def store_local_cache_def Let_def cached_def cache_row_def
      classify_local_cache_def)

lemma cached_get:
  "blob_get j (bw_index (cached root h now u c rq w)) =
     (if j = h then Some (let new = new_blob_row now (cache_row root h now u c rq) in
        case blob_get j (bw_index w) of None \<Rightarrow> new | Some old \<Rightarrow> blob_merge now old new)
      else blob_get j (bw_index w))"
  by (simp add: cached_def blob_get_upsert Let_def)

lemma cached_unique: "unique_key hash (bw_index w) \<Longrightarrow> unique_key hash (bw_index (cached root h now u c rq w))"
  by (simp add: cached_def blob_unique(1))

lemma cached_files [simp]:
  "bw_files (cached root h now u c rq w) = (bw_files w)(path_join root h \<mapsto> fu_body rq)"
  by (simp add: cached_def)

lemma upload_effect:
  assumes "sha256_law cr" "hex_law cr" "blobs_dir (nd_blobs nd) = Some root" "filed root w"
    and "holds_file cr h r w"
  shows "filed root (snd (upload_file cr nd now u c rq w))
    \<and> (\<exists>r'. kept r r' \<and> holds_file cr h r' (snd (upload_file cr nd now u c rq w)))"
proof (cases "has_permission (au_role u) FILES_READ \<and> fu_body rq \<noteq> []")
  case True
  let ?k = "hash_bytes cr (fu_body rq)"
  have v: "validate_hash ?k = Inr ()" using assms(1,2) by (rule hash_bytes_valid)
  let ?w = "cached root ?k now u c rq w"
  have eq: "snd (upload_file cr nd now u c rq w) = ?w"
    using True assms(3) by (simp add: upload_admitted Let_def)
  have filed: "filed root ?w"
    using assms(4) v by (auto simp: filed_def stored_under_def cached_get cached_unique Let_def split: if_splits option.splits)
  have old: "blob_get h (bw_index w) = Some r" "storage_path r = path_join root h" "validate_hash h = Inr ()"
    using assms(4,5) by (auto simp: filed_def stored_under_def holds_file_def)
  have "\<exists>r'. kept r r' \<and> holds_file cr h r' ?w"
  proof (cases "h = ?k")
    case True
    then show ?thesis using old kept_merge [of r now]
      by (auto simp: holds_file_def cached_get Let_def)
  next
    case False
    then have "path_join root h \<noteq> path_join root ?k" using path_join_inj [OF old(3) v] by blast
    then show ?thesis using False old assms(5)
      by (intro exI [of _ r]) (auto simp: holds_file_def cached_get)
  qed
  with filed show ?thesis by (simp add: eq)
next
  case False
  then have "snd (upload_file cr nd now u c rq w) = w" by (auto simp: upload_file_def)
  then show ?thesis using assms(4,5) kept_refl by metis
qed

lemma delete_effect:
  assumes "filed root w" "holds_file cr h r w" "\<not> owns_record r (au_id u) (client_id_from_cookie c)"
  shows "filed root (snd (delete_file un u c k w)) \<and> holds_file cr h r (snd (delete_file un u c k w))"
proof (cases "snd (delete_file un u c k w) = w")
  case False
  then obtain rk where rk: "blob_get k (bw_index w) = Some rk" "owns_record rk (au_id u) (client_id_from_cookie c)"
    and w': "snd (delete_file un u c k w) = w\<lparr>bw_files := (if un then (bw_files w)(storage_path rk := None) else bw_files w),
              bw_index := snd (blob_delete k (bw_index w))\<rparr>"
    by (auto simp: delete_file_def split: option.splits if_splits)
  have "k \<noteq> h" using rk assms(2,3) by (auto simp: holds_file_def)
  moreover have "storage_path rk = path_join root k" "storage_path r = path_join root h"
    "validate_hash k = Inr ()" "validate_hash h = Inr ()"
    using assms(1,2) rk(1) by (auto simp: filed_def stored_under_def holds_file_def)
  ultimately have "storage_path r \<noteq> storage_path rk" using path_join_inj by metis
  then show ?thesis using assms \<open>k \<noteq> h\<close>
    by (auto simp: w' filed_def stored_under_def holds_file_def blob_get_delete blob_unique(5))
qed (use assms in simp)

lemma step_effect:
  assumes "sha256_law be" "hex_law be" "blobs_dir (nd_blobs nd) = Some root" "filed root w"
    and "holds_file be h r w" "\<not> owns_record r (au_id (fq_user q)) (client_id_from_cookie (fq_cookie q))"
  shows "filed root (snd (file_step be nd q w)) \<and> (\<exists>r'. kept r r' \<and> holds_file be h r' (snd (file_step be nd q w)))"
proof (cases "fq_op q")
  case (UploadFile rq)
  then show ?thesis using upload_effect [OF assms(1-5)] by (simp add: file_step.simps)
next
  case (DropFile k un)
  then show ?thesis using delete_effect [OF assms(4-6)] kept_refl by (fastforce simp: file_step.simps)
qed (use assms in \<open>auto simp: file_step.simps intro: exI [of _ r]\<close>)

text \<open>A reply to somebody who does not own the file at \<open>h\<close>.\<close>

definition conceals :: "(int \<Rightarrow> string option) \<Rightarrow> string \<Rightarrow> file_op \<Rightarrow> reply \<Rightarrow> bool" where
  "conceals fmt h oper rp \<longleftrightarrow>
     (case oper of
        ReadFile k _ \<Rightarrow> k \<noteq> h \<or> rp = blob_error 404 ''not found'' \<or> rp = forbidden_reply FILES_READ
      | DropFile k _ \<Rightarrow> k \<noteq> h \<or> rp = blob_error 403 ''not deletable'' \<or> rp = forbidden_reply FILES_DELETE
      | ListFiles \<Rightarrow> rp = forbidden_reply FILES_READ
          \<or> (\<exists>rows. rp = json_reply 200 (json_obj [(''files'', JArr (map (record_to_json fmt) rows))])
               \<and> h \<notin> hash ` set rows)
      | _ \<Rightarrow> True)"

lemma step_conceals:
  assumes "filed root w" "holds_file be h r w" "\<not> owns_record r (au_id (fq_user q)) (client_id_from_cookie (fq_cookie q))"
  shows "conceals (secs_rfc3339 be) h (fq_op q) (fst (file_step be nd q w))"
proof (cases "fq_op q")
  case ListFiles
  let ?rows = "list_user_visible (Some (au_id (fq_user q))) (client_id_from_cookie (fq_cookie q)) 200 (bw_index w)"
  have "h \<notin> hash ` set ?rows"
  proof
    assume "h \<in> hash ` set ?rows"
    then obtain x where x: "x \<in> set ?rows" "hash x = h" by blast
    with assms(1) have "blob_get h (bw_index w) = Some x"
      using listed_owned [OF x(1)] by (auto simp: filed_def blob_get_def dest: select_by_unique)
    with listed_owned [OF x(1)] assms(2,3) show False by (simp add: holds_file_def)
  qed
  then show ?thesis using ListFiles by (auto simp: file_step.simps conceals_def list_files_def)
next
  case (ReadFile k uuid)
  then show ?thesis using assms
    by (auto simp: file_step.simps conceals_def get_file_meta_def holds_file_def)
next
  case (DropFile k un)
  then show ?thesis using assms
    by (auto simp: file_step.simps conceals_def delete_file_def holds_file_def)
qed (simp_all add: conceals_def)

lemma file_run_Cons:
  "fst (file_run be nd (q # qs) w) = fst (file_step be nd q w) # fst (file_run be nd qs (snd (file_step be nd q w)))"
  "snd (file_run be nd (q # qs) w) = snd (file_run be nd qs (snd (file_step be nd q w)))"
  by (simp_all split: prod.splits)

declare file_run.simps(2) [simp del]

section \<open>Properties\<close>


text \<open>
  C40 (the second uploader is locked out). When the bytes of an upload are already those of another
  owner's file, the upload answers 201 with the name the other owner gave it, and the uploader
  then can neither read, list nor delete the file.
\<close>

theorem second_uploader_locked_out:
  assumes "has_permission (au_role u) FILES_READ" "fu_body rq \<noteq> []" "blobs_dir (nd_blobs nd) = Some root"
    and "unique_key hash (bw_index w)" "blob_get (hash_bytes be (fu_body rq)) (bw_index w) = Some r"
    and "path r = Some p" "\<not> owns_record r (au_id u) (client_id_from_cookie c)"
  shows "\<exists>j w1. upload_file be nd now u c rq w = (json_reply 201 j, w1) \<and> json_get ''path'' j = Some (JStr p)
    \<and> get_file_meta be nd t uuid u c (hash_bytes be (fu_body rq)) w1 = blob_error 404 ''not found''
    \<and> hash_bytes be (fu_body rq) \<notin> hash ` set (list_user_visible (Some (au_id u)) (client_id_from_cookie c) 200 (bw_index w1))
    \<and> rp_status (fst (delete_file un u c (hash_bytes be (fu_body rq)) w1)) = 403"
proof -
  let ?h = "hash_bytes be (fu_body rq)" and ?w = "cached root (hash_bytes be (fu_body rq)) now u c rq w"
  obtain r' where r': "blob_get ?h (bw_index ?w) = Some r'" "kept r r'"
    using assms(5) kept_merge [of r now] by (auto simp: cached_get Let_def)
  have own: "\<not> owns_record r' (au_id u) (client_id_from_cookie c)" using assms(7) by (simp add: kept_owner [OF r'(2)])
  have p: "path r' = Some p" using r'(2) assms(6) by (simp add: kept_def)
  have list: "?h \<notin> hash ` set (list_user_visible (Some (au_id u)) (client_id_from_cookie c) 200 (bw_index ?w))"
  proof
    assume "?h \<in> hash ` set (list_user_visible (Some (au_id u)) (client_id_from_cookie c) 200 (bw_index ?w))"
    then obtain x where x: "x \<in> set (list_user_visible (Some (au_id u)) (client_id_from_cookie c) 200 (bw_index ?w))"
      "hash x = ?h" by force
    have "blob_get ?h (bw_index ?w) = Some x"
      using listed_owned [OF x(1)] select_by_unique [OF cached_unique [OF assms(4)]] x(2)
      unfolding blob_get_def by metis
    with r'(1) own listed_owned [OF x(1)] show False by simp
  qed
  have "get_file_meta be nd t uuid u c ?h ?w = blob_error 404 ''not found''"
    "rp_status (fst (delete_file un u c ?h ?w)) = 403"
    using assms(1) r'(1) own by (simp_all add: get_file_meta_def delete_file_def forbidden_reply_def json_reply_def)
  with list p r'(1) show ?thesis
    unfolding upload_admitted [OF assms(1-3)] Let_def by (auto simp: opt_json_def)
qed

lemma upload_mime_ok: "header_value_ok (upload_mime m)"
proof -
  let ?v = "case Option.bind m header_to_str of None \<Rightarrow> ''application/octet-stream'' | Some v \<Rightarrow> v"
  have v: "header_value_ok ?v"
    by (auto simp: header_value_ok_def header_to_str_def list_all_iff split: option.splits bind_splits if_splits)
  have "set (hd (split_on x s)) \<subseteq> set s" for x s
    by (induction s) (auto split: list.splits)
  with trim_le(1) have "set (upload_mime m) \<subseteq> set ?v" unfolding upload_mime_def by blast
  with v show ?thesis by (auto simp: header_value_ok_def list_all_iff)
qed

text \<open>
  C34 (an upload reads back). A file whose bytes the store did not have, uploaded under any UTF-8 name
  that the browser percent-encodes, is stored under that name once sanitized, is listed, and is read
  back byte for byte with the type it was sent with, as long as the node can sign its own ticket.
\<close>

theorem upload_reads_back:
  assumes "has_permission (au_role u) FILES_READ" "fu_body rq \<noteq> []" "blobs_dir (nd_blobs nd) = Some root"
    and "blob_get (hash_bytes be (fu_body rq)) (bw_index w) = None"
    and "is_utf8 nm" "fu_name rq = Some (percent_encode nm)"
    and "forge_local_get_ticket be (nd_keypair nd) (keypair_id be (nd_keypair nd)) (hash_bytes be (fu_body rq)) t uuid = Inr ticket"
    and "encode_ticket_wire be ticket = Inr header" "header_value_ok header"
  shows "\<exists>j w1 r. upload_file be nd now u c rq w = (json_reply 201 j, w1)
    \<and> json_get ''hash'' j = Some (JStr (hash_bytes be (fu_body rq)))
    \<and> blob_get (hash_bytes be (fu_body rq)) (bw_index w1) = Some r
    \<and> path r = sanitize_blob_path nm \<and> b_user_visible r \<and> owns_record r (au_id u) (client_id_from_cookie c)
    \<and> rp_status (get_file_meta be nd t uuid u c (hash_bytes be (fu_body rq)) w1) = 200
    \<and> rp_body (get_file_meta be nd t uuid u c (hash_bytes be (fu_body rq)) w1) = ByteBody (fu_body rq)
    \<and> map_of (rp_headers (get_file_meta be nd t uuid u c (hash_bytes be (fu_body rq)) w1)) ''content-type''
        = Some (upload_mime (fu_mime rq))"
proof -
  let ?h = "hash_bytes be (fu_body rq)" and ?w = "cached root (hash_bytes be (fu_body rq)) now u c rq w"
  let ?r = "new_blob_row now (cache_row root ?h now u c rq)"
  have nm: "upload_name (fu_name rq) = sanitize_blob_path nm"
    by (simp add: upload_name_def assms(6) percent_encode_visible percent_round_trip [OF assms(5)])
  have row: "blob_get ?h (bw_index ?w) = Some ?r" using assms(4) by (simp add: cached_get Let_def)
  have r: "path ?r = sanitize_blob_path nm" "b_user_visible ?r" "owns_record ?r (au_id u) (client_id_from_cookie c)"
    "mime ?r = upload_mime (fu_mime rq)"
    by (simp_all add: new_blob_row_def blob_insert.defs cache_row_def owns_record_def nm)
  have get: "get_file_meta be nd t uuid u c ?h ?w = \<lparr>rp_status = 200,
      rp_headers = [(''content-type'', mime ?r), (''content-length'', dec_int (b_size ?r)), (BLOB_TICKET_HEADER, header)],
      rp_body = ByteBody (fu_body rq)\<rparr>"
    using assms(1,7-9) row r(2,3) upload_mime_ok [of "fu_mime rq"] r(4) by (simp add: get_file_meta_def)
  show ?thesis
    unfolding upload_admitted [OF assms(1-3)] Let_def
    by (intro exI [of _ ?w] exI [of _ ?r] exI conjI, rule refl) (simp_all add: get row r nm)
qed

section \<open>Instances\<close>

definition toy_file_env :: blob_env where
  "toy_file_env = toy_blob_env\<lparr>message_to_text := (\<lambda>_. Some ''t'')\<rparr>"

definition toy_file_node :: "nat node" where
  "toy_file_node = toy_node\<lparr>nd_blobs := \<lparr>blobs_dir = Some ''/d'', bc_instance = ''b''\<rparr>\<rparr>"

definition toy_owner :: "int \<Rightarrow> authed_user" where
  "toy_owner n = \<lparr>au_id = n, au_username = ''u'', au_role = RoleUser, au_token_hash = None\<rparr>"

definition toy_upload :: "string \<Rightarrow> file_upload" where
  "toy_upload nm = \<lparr>fu_mime = Some ''text/plain'', fu_name = Some (percent_encode nm), fu_body = ''hi''\<rparr>"

definition toy_world0 :: blob_world where
  "toy_world0 = \<lparr>bw_index = [], bw_files = (\<lambda>_. None)\<rparr>"

lemma toy_file_env_wire:
  "hash_bytes toy_file_env = hash_bytes toy_wire" "sign_envelope toy_file_env = sign_envelope toy_wire"
  "keypair_id toy_file_env = keypair_id toy_wire" "encode_ticket_wire toy_file_env m = Inr ''t''"
  by ((intro ext)?, simp add: toy_file_env_def toy_blob_env_def ticket_env.defs wire_env.defs sign_envelope_def
      canonical_bytes_def envelope_json_def from_public_key_def toy_wire_def crypto.defs signature_encode_def
      keypair_sign_def keypair_id_def public_key_def hash_bytes_def encode_ticket_wire_def)+

lemma toy_file_laws: "sha256_law toy_file_env" "hex_law toy_file_env"
  using sha256_toy hex_toy
  by (simp_all add: sha256_law_def hex_law_def toy_file_env_def toy_blob_env_def ticket_env.defs wire_env.defs)

lemma toy_file_facts [simp]:
  "blobs_dir (nd_blobs toy_file_node) = Some ''/d''" "nd_keypair toy_file_node = ''bob''"
  "fu_body (toy_upload nm) = ''hi''" "fu_name (toy_upload nm) = Some (percent_encode nm)"
  "au_id (toy_owner n) = n" "au_role (toy_owner n) = RoleUser"
  "has_permission RoleUser FILES_READ" "bw_index toy_world0 = []"
  by (simp_all add: toy_file_node_def toy_node_def toy_upload_def toy_owner_def has_permission_def
      permissions_for_def FILES_READ_def toy_world0_def)

lemma upload_reads_back_witness:
  "\<exists>j w1 r. upload_file toy_file_env toy_file_node 5 (toy_owner 1) None (toy_upload ''a b.txt'') toy_world0
      = (json_reply 201 j, w1)
    \<and> blob_get (hash_bytes toy_wire ''hi'') (bw_index w1) = Some r \<and> path r = sanitize_blob_path ''a b.txt''
    \<and> rp_body (get_file_meta toy_file_env toy_file_node 0 ''u'' (toy_owner 1) None (hash_bytes toy_wire ''hi'') w1)
        = ByteBody ''hi''"
proof -
  obtain ticket where t: "forge_local_get_ticket toy_file_env ''bob'' (keypair_id toy_file_env ''bob'')
      (hash_bytes toy_file_env ''hi'') 0 ''u'' = Inr ticket"
    by (simp add: forge_local_get_ticket_def toy_file_env_wire toy_sign)
  have "is_utf8 ''a b.txt''" "header_value_ok ''t''" by code_simp+
  then show ?thesis
    using upload_reads_back [of "toy_owner 1" "toy_upload ''a b.txt''" toy_file_node "''/d''" toy_file_env toy_world0
        "''a b.txt''" 0 "''u''" ticket "''t''" 5 None] t
    by (simp add: toy_file_env_wire blob_get_def) blast
qed

definition toy_filed :: blob_world where
  "toy_filed = cached ''/d'' (hash_bytes toy_wire ''hi'') 5 (toy_owner 1) None (toy_upload ''a b.txt'') toy_world0"

definition toy_file_row :: blob_record where
  "toy_file_row = new_blob_row 5 (cache_row ''/d'' (hash_bytes toy_wire ''hi'') 5 (toy_owner 1) None (toy_upload ''a b.txt''))"

lemma toy_filed_index: "bw_index toy_filed = [toy_file_row]"
  by (simp add: toy_filed_def cached_def toy_file_row_def blob_upsert_def sql_upsert_def)

lemma toy_filed_get:
  "blob_get h (bw_index toy_filed) = (if h = hash_bytes toy_wire ''hi'' then Some toy_file_row else None)"
  by (simp add: toy_filed_index blob_get_def select_by_def toy_file_row_def)

lemma toy_file_row_facts:
  "storage_path toy_file_row = path_join ''/d'' (hash_bytes toy_wire ''hi'')"
  "local_user_id toy_file_row = Some 1" "client_id toy_file_row = None"
  "path toy_file_row = Some ''a b.txt''"
proof -
  have "upload_name (Some (percent_encode ''a b.txt'')) = Some ''a b.txt''" by code_simp
  then show "path toy_file_row = Some ''a b.txt''"
    by (simp add: toy_file_row_def new_blob_row_def blob_insert.defs cache_row_def)
qed (simp_all add: toy_file_row_def new_blob_row_def blob_insert.defs cache_row_def client_id_from_cookie_def)

lemma toy_filed_ok: "filed ''/d'' toy_filed" "holds_file toy_file_env (hash_bytes toy_wire ''hi'') toy_file_row toy_filed"
proof -
  have "validate_hash (hash_bytes toy_wire ''hi'') = Inr ()" by (rule hash_bytes_valid) simp_all
  then show "filed ''/d'' toy_filed"
    by (auto simp: filed_def stored_under_def toy_filed_get toy_file_row_facts split: if_splits)
      (simp add: toy_filed_index unique_key_def)
  show "holds_file toy_file_env (hash_bytes toy_wire ''hi'') toy_file_row toy_filed"
    by (simp add: holds_file_def toy_filed_get toy_file_row_facts(1) toy_file_env_wire) (simp add: toy_filed_def)
qed

lemma second_uploader_locked_out_witness:
  "\<exists>j w1. upload_file toy_file_env toy_file_node 6 (toy_owner 2) None (toy_upload ''mine.txt'') toy_filed = (json_reply 201 j, w1)
    \<and> json_get ''path'' j = Some (JStr ''a b.txt'')
    \<and> get_file_meta toy_file_env toy_file_node 0 ''u'' (toy_owner 2) None (hash_bytes toy_file_env ''hi'') w1
        = blob_error 404 ''not found''"
  using second_uploader_locked_out [of "toy_owner 2" "toy_upload ''mine.txt''" toy_file_node "''/d''" toy_filed toy_file_env
      toy_file_row "''a b.txt''" None 6 0 "''u''"] toy_filed_ok(1)
  by (simp add: toy_file_env_wire toy_filed_get toy_file_row_facts owns_record_def client_id_from_cookie_def filed_def) blast

definition toy_intruder :: "file_request list" where
  "toy_intruder =
     [\<lparr>fq_user = toy_owner 2, fq_cookie = None, fq_now = 0, fq_op = UploadFile (toy_upload ''mine.txt'')\<rparr>,
      \<lparr>fq_user = toy_owner 2, fq_cookie = None, fq_now = 0, fq_op = DropFile (hash_bytes toy_wire ''hi'') True\<rparr>,
      \<lparr>fq_user = toy_owner 2, fq_cookie = None, fq_now = 0, fq_op = ListFiles\<rparr>]"


end
