(* ===== verification/Server_Activity.thy ===== *)
theory Server_Activity
  imports Store_Audit Server_Auth Node_Handler
begin

text \<open>
  \<open>crates/server/src/activity_api.rs\<close>: the dashboard, an aggregate of the journal over a window
  that ends now. The live stream is the same snapshot at every tick.
\<close>

section \<open>The window\<close>

definition MIN_WINDOW_SECS :: int where
  "MIN_WINDOW_SECS = 60"

definition MAX_WINDOW_SECS :: int where
  "MAX_WINDOW_SECS = 7 * 24 * 3600"

definition DEFAULT_WINDOW_SECS :: int where
  "DEFAULT_WINDOW_SECS = 3600"

definition PULSE_BUCKETS :: int where
  "PULSE_BUCKETS = 30"

definition TOP_N :: int where
  "TOP_N = 5"

definition window_of :: "int option \<Rightarrow> int" where
  "window_of q =
     (let s = (case q of None \<Rightarrow> DEFAULT_WINDOW_SECS | Some v \<Rightarrow> v) in
      if s < MIN_WINDOW_SECS then MIN_WINDOW_SECS else if MAX_WINDOW_SECS < s then MAX_WINDOW_SECS else s)"

section \<open>The snapshot\<close>

record snapshot =
  sn_now :: int
  sn_window :: int
  sn_served :: direction_stats
  sn_called :: direction_stats
  sn_ran :: direction_stats
  sn_discovery :: int
  sn_top_capabilities :: "json list"
  sn_top_callers :: "json list"
  sn_top_callees :: "json list"
  sn_pulse :: "bucket list"

definition alias_map :: "('x) crypto_scheme \<Rightarrow> 'b node \<Rightarrow> peer_table \<Rightarrow> string \<rightharpoonup> string" where
  "alias_map cr nd peers =
     fold (\<lambda>p m. case pr_alias p of None \<Rightarrow> m | Some a \<Rightarrow> m(pr_id p \<mapsto> a)) (peer_list 500 peers)
       [keypair_id cr (nd_keypair nd) \<mapsto>
          (case nd_alias nd of Some a \<Rightarrow> a | None \<Rightarrow> ''this instance'')]"

definition ranked_json :: "(string \<rightharpoonup> string) \<Rightarrow> ranked \<Rightarrow> json" where
  "ranked_json aliases r =
     json_obj [(''key'', JStr (rk_key r)),
       (''label'', JStr (case aliases (rk_key r) of None \<Rightarrow> rk_key r | Some a \<Rightarrow> a)),
       (''calls'', JInt (rk_calls r)), (''errors'', JInt (rk_errors r))]"

text \<open>\<open>None\<close> is the panic of the assertion on the width of the buckets.\<close>

definition take_snapshot ::
  "('x) crypto_scheme \<Rightarrow> 'b node \<Rightarrow> peer_table \<Rightarrow> audit_log \<Rightarrow> int \<Rightarrow> int \<Rightarrow> snapshot option" where
  "take_snapshot cr nd peers log now window =
     (let since = now - window; aliases = alias_map cr nd peers; width = div_trunc window PULSE_BUCKETS in
      map_option (\<lambda>bs.
        \<lparr>sn_now = now, sn_window = window, sn_served = served_capability_stats since log,
         sn_called = dir_stats DirOut since log, sn_ran = dir_stats DirLocal since log,
         sn_discovery = meta_calls_since since log,
         sn_top_capabilities = map (ranked_json Map.empty) (top_capabilities_solicited since TOP_N log),
         sn_top_callers = map (ranked_json aliases) (top_peers DirIn since TOP_N log),
         sn_top_callees = map (ranked_json aliases) (top_peers DirOut since TOP_N log),
         sn_pulse = bs\<rparr>)
        (buckets since (now + 1) (if width < 1 then 1 else width) log))"

definition enc_stats :: "direction_stats \<Rightarrow> json" where
  "enc_stats s = json_obj [(''calls'', JInt (st_calls s)), (''errors'', JInt (st_errors s)),
     (''median_latency_ms'', case st_median s of None \<Rightarrow> JNull | Some m \<Rightarrow> JInt m)]"

definition enc_bucket :: "bucket \<Rightarrow> json" where
  "enc_bucket b = json_obj [(''start'', JInt (bk_start b)), (''inbound'', JInt (inbound b)),
     (''outbound'', JInt (outbound b)), (''local'', JInt (local b)), (''errors'', JInt (bk_errors b))]"

definition enc_snapshot :: "snapshot \<Rightarrow> json" where
  "enc_snapshot s = json_obj
     [(''now'', JInt (sn_now s)), (''window_secs'', JInt (sn_window s)), (''served'', enc_stats (sn_served s)),
      (''called'', enc_stats (sn_called s)), (''ran'', enc_stats (sn_ran s)),
      (''discovery'', JInt (sn_discovery s)), (''top_capabilities'', JArr (sn_top_capabilities s)),
      (''top_callers'', JArr (sn_top_callers s)), (''top_callees'', JArr (sn_top_callees s)),
      (''pulse'', JArr (map enc_bucket (sn_pulse s)))]"

definition activity_snapshot ::
  "('x) crypto_scheme \<Rightarrow> 'b node \<Rightarrow> int \<Rightarrow> int option \<Rightarrow> node_state \<Rightarrow> response option" where
  "activity_snapshot cr nd now q s =
     map_option (\<lambda>sn. respond 200 (enc_snapshot sn))
       (take_snapshot cr nd (ns_peers s) (ns_audit s) now (window_of q))"

text \<open>The data of one event of the stream, at the tick at \<open>now\<close>.\<close>

definition activity_event ::
  "('x) crypto_scheme \<Rightarrow> 'b node \<Rightarrow> (json \<Rightarrow> string) \<Rightarrow> int \<Rightarrow> int \<Rightarrow> node_state \<Rightarrow> (string \<times> string) option" where
  "activity_event cr nd write now window s =
     map_option (\<lambda>sn. (''snapshot'', write (enc_snapshot sn)))
       (take_snapshot cr nd (ns_peers s) (ns_audit s) now window)"

section \<open>Lemmas\<close>

lemma window_bounds: "60 \<le> window_of q" "window_of q \<le> 604800"
  by (auto simp: window_of_def MIN_WINDOW_SECS_def MAX_WINDOW_SECS_def Let_def)

lemma pulse_width: "(if div_trunc (window_of q) PULSE_BUCKETS < 1 then 1 else div_trunc (window_of q) PULSE_BUCKETS)
    = window_of q div 30" "2 \<le> window_of q div 30"
proof -
  have "60 div 30 \<le> window_of q div 30" using window_bounds(1) by (rule zdiv_mono1) simp
  then show "2 \<le> window_of q div 30" by simp
  then show "(if div_trunc (window_of q) PULSE_BUCKETS < 1 then 1 else div_trunc (window_of q) PULSE_BUCKETS)
    = window_of q div 30"
    using window_bounds(1) [of q] by (simp add: div_trunc_def PULSE_BUCKETS_def)
qed

lemma take_snapshot_Some:
  "\<exists>s. take_snapshot cr nd peers log now (window_of q) = Some s
     \<and> buckets (now - window_of q) (now + 1) (window_of q div 30) log = Some (sn_pulse s)
     \<and> sn_served s = served_capability_stats (now - window_of q) log
     \<and> sn_called s = dir_stats DirOut (now - window_of q) log
     \<and> sn_ran s = dir_stats DirLocal (now - window_of q) log
     \<and> sn_discovery s = meta_calls_since (now - window_of q) log
     \<and> sn_now s = now \<and> sn_window s = window_of q"
  using pulse_width(2) [of q] by (auto simp: take_snapshot_def Let_def pulse_width(1) buckets_def)

text \<open>What a snapshot over a clamped window holds.\<close>

lemma snapshot_parts:
  assumes "take_snapshot cr nd peers log now (window_of q) = Some s"
  shows "buckets (now - window_of q) (now + 1) (window_of q div 30) log = Some (sn_pulse s)"
    "sn_served s = served_capability_stats (now - window_of q) log"
    "sn_called s = dir_stats DirOut (now - window_of q) log"
    "sn_ran s = dir_stats DirLocal (now - window_of q) log"
    "sn_discovery s = meta_calls_since (now - window_of q) log"
  using take_snapshot_Some [of cr nd peers log now q] assms by auto

lemma count_filter: "count_where p (filter r t) = count_where (\<lambda>e. r e \<and> p e) t"
  by (simp add: count_where_def)

lemma stats_calls: "st_calls (stats_of (filter p t)) = count_where p t"
  by (simp add: stats_of_def count_where_def)

lemma count_split: "count_where p t = count_where (\<lambda>e. p e \<and> r e) t + count_where (\<lambda>e. p e \<and> \<not> r e) t"
  by (induction t) (auto simp: count_where_def)

lemma count_cong: "(\<And>e. e \<in> set t \<Longrightarrow> p e \<longleftrightarrow> r e) \<Longrightarrow> count_where p t = count_where r t"
  unfolding count_where_def by (metis (mono_tags, lifting) filter_cong)

section \<open>Properties\<close>

text \<open>
  C33 (the dashboard's figures agree). Over a journal that has no entry of the future, every call of the
  window is in the pulse once: the inbound ones are the capability calls served and the discovery
  traffic, which do not overlap, and the outbound and local ones are those called and ran.
\<close>

theorem dashboard_agrees:
  assumes "take_snapshot cr nd peers log now (window_of q) = Some s" "window_of q \<le> now"
    and "\<And>e. e \<in> set log \<Longrightarrow> ae_timestamp e \<le> now"
  shows "sum_list (map inbound (sn_pulse s)) = st_calls (sn_served s) + sn_discovery s
    \<and> sum_list (map outbound (sn_pulse s)) = st_calls (sn_called s)
    \<and> sum_list (map local (sn_pulse s)) = st_calls (sn_ran s)"
proof -
  let ?since = "now - window_of q"
  have w: "0 < window_of q div 30" "0 \<le> ?since" using pulse_width(2) [of q] assms(2) by simp_all
  have sums: "sum_list (map f (sn_pulse s)) = count_where (\<lambda>e. ae_direction e = d \<and> ?since \<le> ae_timestamp e) log"
    if "\<And>st rows. f (bucket_row st rows) = count_where (\<lambda>e. ae_direction e = d) rows" for f d
    using buckets_sum [OF w snapshot_parts(1) [OF assms(1)], of f "\<lambda>e. ae_direction e = d"] that assms(3)
    by (auto simp: count_filter in_window_def intro!: count_cong)
  have "count_where (\<lambda>e. ae_direction e = DirIn \<and> ?since \<le> ae_timestamp e) log
      = st_calls (sn_served s) + sn_discovery s"
    unfolding snapshot_parts(2,5) [OF assms(1)] served_capability_stats_def meta_calls_since_def stats_calls
    by (subst count_split [where r = not_meta])
      (auto simp: not_meta_def conj_assoc intro!: arg_cong2 [where f = plus] count_cong split: option.splits)
  then show ?thesis
    using sums [of inbound DirIn] sums [of outbound DirOut] sums [of local DirLocal]
    by (simp add: bucket_row_def snapshot_parts(3,4) [OF assms(1)] dir_stats_def stats_calls)
qed

text \<open>
  (the pulse has more points than announced). \<open>PULSE_BUCKETS\<close> is 30, and the pulse has between 31
  and 46 points, as many as the window and the hour decide.
\<close>

theorem pulse_points:
  assumes "take_snapshot cr nd peers log now (window_of q) = Some s" "window_of q \<le> now"
  shows "31 \<le> length (sn_pulse s) \<and> length (sn_pulse s) \<le> 46"
proof -
  let ?w = "window_of q" and ?b = "window_of q div 30"
  let ?x = "(now - ?w) mod ?b"
  have b: "2 \<le> ?b" by (rule pulse_width(2))
  have first: "now - ?w - (now - ?w) div ?b * ?b = ?x" by (simp add: minus_div_mult_eq_mod)
  have dt: "div_trunc (now - ?w) ?b = (now - ?w) div ?b" using assms(2) by (simp add: div_trunc_def)
  have "length (sn_pulse s) = length (map bk_start (sn_pulse s))" by simp
  also have "\<dots> = nat ((now + 1 - (now - ?w) div ?b * ?b + ?b - 1) div ?b)"
    unfolding buckets_starts [OF snapshot_parts(1) [OF assms(1)]] dt by simp
  also have "now + 1 - (now - ?w) div ?b * ?b + ?b - 1 = (?w mod 30 + ?x) + 31 * ?b"
    using first mult_div_mod_eq [of 30 ?w] by linarith
  finally have len: "length (sn_pulse s) = nat ((?w mod 30 + ?x + 31 * ?b) div ?b)" .
  have m: "0 \<le> ?w mod 30" "?w mod 30 \<le> 29" by simp_all
  have x: "0 \<le> ?x" "?x \<le> ?b - 1" using b pos_mod_bound [of ?b "now - ?w"] by simp_all
  have "(?w mod 30 + ?x + 31 * ?b) div ?b = 31 + (?w mod 30 + ?x) div ?b"
    using b by (subst div_mult_self1) simp_all
  moreover have "0 \<le> (?w mod 30 + ?x) div ?b" using m(1) x(1) b by (simp add: pos_imp_zdiv_nonneg_iff)
  moreover have "(?w mod 30 + ?x) div ?b \<le> 15"
  proof -
    have "?w mod 30 + ?x \<le> (?b - 1) + 15 * ?b" using m(2) x(2) b by linarith
    then have "(?w mod 30 + ?x) div ?b \<le> ((?b - 1) + 15 * ?b) div ?b" using b by (intro zdiv_mono1) simp_all
    also have "\<dots> = 15" using b by (subst div_mult_self1) simp_all
    finally show ?thesis .
  qed
  ultimately show ?thesis unfolding len by linarith
qed

definition toy_journal :: audit_log where
  "toy_journal = [sample_entry DirIn 3990 ''ok'' None, sample_entry DirOut 3995 ''ok'' None]"

lemma dashboard_agrees_witness:
  "\<exists>s. take_snapshot toy_wire toy_node [] toy_journal 4000 (window_of None) = Some s
     \<and> sum_list (map inbound (sn_pulse s)) = st_calls (sn_served s) + sn_discovery s"
proof -
  obtain s where s: "take_snapshot toy_wire toy_node [] toy_journal 4000 (window_of None) = Some s"
    using take_snapshot_Some by blast
  have w: "window_of None \<le> 4000" by code_simp
  have "ae_timestamp e \<le> 4000" if "e \<in> set toy_journal" for e
    using that by (auto simp: toy_journal_def sample_entry_def)
  with dashboard_agrees [OF s w] s show ?thesis by blast
qed

lemma pulse_points_witness:
  "\<exists>s. take_snapshot toy_wire toy_node [] toy_journal 4000 (window_of (Some 89)) = Some s
     \<and> 31 \<le> length (sn_pulse s)"
proof -
  obtain s where s: "take_snapshot toy_wire toy_node [] toy_journal 4000 (window_of (Some 89)) = Some s"
    using take_snapshot_Some by blast
  have "window_of (Some 89) \<le> 4000" by code_simp
  then show ?thesis using pulse_points [OF s] s by auto
qed

end
