(* ===== verification/Server_Routes.thy ===== *)
theory Server_Routes
  imports Server_Chat Server_Settings Server_Files Server_Activity
begin

text \<open>
  The rest of \<open>crates/server/src/http.rs\<close>: the table of routes with the guards around each, the
  routes of peers and capabilities, the signed calls to a chosen peer, and the embedded pages. The
  routers of \<open>auth.rs\<close>, \<open>settings.rs\<close>, \<open>files_api.rs\<close> and \<open>activity_api.rs\<close> are part of the table.
  How \<open>axum\<close> matches a path and refuses a body is not modelled; the embedded files, the guess of a
  type from a name and the version of the crate are parameters.
\<close>

section \<open>The table of routes\<close>

datatype http_method = MGet | MPost | MPut | MPatch | MDelete

datatype guard_layer = RequireAuthed | RequirePerm string

text \<open>A handler is named as in the source; the outermost layer comes first.\<close>

record route =
  rt_method :: http_method
  rt_path :: string
  rt_layers :: "guard_layer list"
  rt_handler :: string

definition route :: "http_method \<Rightarrow> string \<Rightarrow> string \<Rightarrow> route" where
  "route m p h = \<lparr>rt_method = m, rt_path = p, rt_layers = [], rt_handler = h\<rparr>"

definition route_layer :: "guard_layer \<Rightarrow> route list \<Rightarrow> route list" where
  "route_layer l = map (\<lambda>r. r\<lparr>rt_layers := l # rt_layers r\<rparr>)"

definition public_api :: "route list" where
  "public_api = [route MGet ''/health'' ''health'', route MGet ''/locales'' ''api_locales'']"

definition files_routes :: "route list" where
  "files_routes =
     [route MGet ''/files'' ''list_files'', route MPost ''/files'' ''upload_file'',
      route MGet ''/files/{*hash}'' ''get_file_meta'', route MDelete ''/files/{*hash}'' ''delete_file'',
      route MGet ''/cap-jobs/blobs'' ''list_cap_job_blobs'']"

definition activity_routes :: "route list" where
  "activity_routes =
     [route MGet ''/activity'' ''activity_snapshot'', route MGet ''/activity/stream'' ''activity_stream'']"

definition authed_api :: "route list" where
  "authed_api = route_layer RequireAuthed
     (route MGet ''/whoami'' ''whoami''
      # route_layer (RequirePerm ''caps:read'') [route MGet ''/caps'' ''api_caps'']
      @ route_layer (RequirePerm ''peers:read'') [route MGet ''/peers'' ''api_peers'']
      @ route_layer (RequirePerm ''peers:write'') [route MPost ''/peers/refresh'' ''api_peers_refresh'']
      @ route_layer (RequirePerm ''peers:write'') [route MPost ''/peers/discover'' ''api_peers_discover'']
      @ route_layer (RequirePerm ''peers:write'') [route MDelete ''/peers/{id}'' ''api_peers_delete'']
      @ route_layer (RequirePerm ''chat:use'') [route MPost ''/chat'' ''api_chat'']
      @ route_layer (RequirePerm ''invoke:use'') [route MPost ''/invoke'' ''api_invoke'']
      @ [route MGet ''/conversations'' ''conv_list'', route MPost ''/conversations'' ''conv_create'',
         route MGet ''/conversations/{id}'' ''conv_get'', route MPatch ''/conversations/{id}'' ''conv_patch'',
         route MDelete ''/conversations/{id}'' ''conv_delete'',
         route MPost ''/conversations/{id}/messages'' ''conv_messages'',
         route MPost ''/conversations/{id}/messages/stream'' ''conv_messages_stream'']
      @ files_routes
      @ route_layer (RequirePerm ''peers:read'') activity_routes
      @ route_layer (RequirePerm ''backends:read'') [route MGet ''/planner'' ''api_planner_get'']
      @ route_layer (RequirePerm ''backends:write'') [route MPut ''/planner'' ''api_planner_put'']
      @ route_layer (RequirePerm ''peers:read'') [route MGet ''/settings/bootstrap'' ''api_bootstrap_get'']
      @ route_layer (RequirePerm ''peers:write'')
          [route MPut ''/settings/bootstrap'' ''api_bootstrap_put'',
           route MPost ''/settings/bootstrap/remove'' ''api_bootstrap_remove_seed''])"

definition auth_router :: "route list" where
  "auth_router =
     [route MPost ''/auth/bootstrap'' ''bootstrap'', route MPost ''/auth/login'' ''login'',
      route MPost ''/auth/logout'' ''logout'', route MPost ''/auth/me'' ''me'',
      route MPost ''/auth/password'' ''change_password'']
     @ route_layer (RequirePerm ''users:write'')
         [route MGet ''/users'' ''list_users'', route MPost ''/users'' ''create_user_route'',
          route MPatch ''/users/{id}'' ''update_user_route'', route MDelete ''/users/{id}'' ''delete_user_route'']"

definition settings_router :: "route list" where
  "settings_router =
     route_layer (RequirePerm ''backends:write'')
       [route MPost ''/backends'' ''create_backend'', route MDelete ''/backends/{name}'' ''delete_backend'']
     @ route_layer (RequirePerm ''backends:read'')
       [route MGet ''/backends'' ''list_backends'', route MGet ''/backends/{name}'' ''get_backend'']
     @ route_layer (RequirePerm ''caps:write'')
       [route MPost ''/caps/manifests'' ''upsert_cap_manifest'',
        route MDelete ''/caps/manifests/{name}'' ''delete_cap_manifest'']
     @ route_layer (RequirePerm ''caps:read'')
       [route MGet ''/caps/manifests'' ''list_cap_manifests'',
        route MGet ''/caps/manifests/{name}'' ''get_cap_manifest'']
     @ route_layer (RequirePerm ''caps:read'')
       [route MGet ''/settings/alias'' ''get_alias'', route MGet ''/settings/lobes'' ''get_lobes'']
     @ route_layer (RequirePerm ''caps:write'')
       [route MPut ''/settings/alias'' ''put_alias'', route MPut ''/settings/lobes'' ''put_lobes'']"

definition api_v0 :: "string option \<Rightarrow> route list" where
  "api_v0 cfg =
     public_api @ authed_api @ auth_router @ (case cfg of Some _ \<Rightarrow> settings_router | None \<Rightarrow> [])"

text \<open>A request on a route: the session outside, then the client's cookie, then the guards.\<close>

fun run_layers :: "guard_layer list \<Rightarrow> 'd handler \<Rightarrow> 'd handler" where
  "run_layers [] h = h"
| "run_layers (RequireAuthed # ls) h = require_authed (run_layers ls h)"
| "run_layers (RequirePerm p # ls) h = require_permission p (run_layers ls h)"

definition api_request ::
  "('x) crypto_scheme \<Rightarrow> bool \<Rightarrow> int \<Rightarrow> string \<Rightarrow> string option \<Rightarrow> (string \<Rightarrow> string \<Rightarrow> auth_db handler) \<Rightarrow> route
     \<Rightarrow> auth_db \<Rightarrow> response \<times> auth_db" where
  "api_request w bypass now uuid cookies handlers r =
     session_middleware w bypass now cookies
       (\<lambda>user. client_id_middleware uuid (Option.bind cookies header_to_str)
          (\<lambda>cid. run_layers (rt_layers r) (handlers cid (rt_handler r)) user))"

section \<open>Pages and public routes\<close>

definition health :: response where
  "health = respond 200 (json_obj [(''status'', JStr ''ok'')])"

definition public_health :: "('x) crypto_scheme \<Rightarrow> 'b node \<Rightarrow> string \<Rightarrow> response" where
  "public_health cr nd version_text =
     respond 200 (json_obj [(''status'', JStr ''ok''), (''instance_id'', JStr (keypair_id cr (nd_keypair nd))),
       (''protocol_version'', JStr PROTOCOL_VERSION), (''version'', JStr version_text)])"

definition whoami :: "('x) crypto_scheme \<Rightarrow> 'b node \<Rightarrow> response" where
  "whoami cr nd =
     respond 200 (json_obj [(''instance_id'', JStr (keypair_id cr (nd_keypair nd))),
       (''alias'', json_opt JStr (nd_alias nd))])"

definition post_message ::
  "('b, 'x) node_env_scheme \<Rightarrow> 'b node \<Rightarrow> arrival \<Rightarrow> (signed_message \<Rightarrow> json) \<Rightarrow> node_state \<Rightarrow> response \<times> node_state" where
  "post_message ne nd a enc s =
     (case handle_request ne nd a s of
        (Inr m, s') \<Rightarrow> (respond 200 (enc m), s')
      | (Inl e, s') \<Rightarrow> (http_error e, s'))"

text \<open>\<open>trim_start_matches\<close> and \<open>trim_end_matches\<close> on a string remove every repetition of it.\<close>

function trim_start_str :: "string \<Rightarrow> string \<Rightarrow> string" where
  "trim_start_str p s =
     (if p \<noteq> [] \<and> starts_with p s then trim_start_str p (drop (length p) s) else s)"
  by pat_completeness auto
termination
proof (relation "measure (length \<circ> snd)", goal_cases)
  case (2 p s)
  then show ?case by (cases s) (auto simp: starts_with_def)
qed simp

declare trim_start_str.simps [simp del]

definition trim_end_str :: "string \<Rightarrow> string \<Rightarrow> string" where
  "trim_end_str p s = rev (trim_start_str (rev p) (rev s))"

text \<open>The embedded files, by path.\<close>

definition locale_entry :: "string \<Rightarrow> json \<Rightarrow> string \<times> json" where
  "locale_entry p parsed =
     (let meta = (case json_get ''_meta'' parsed of None \<Rightarrow> json_obj [] | Some m \<Rightarrow> m);
          field = (\<lambda>k. case json_get k meta of None \<Rightarrow> JNull | Some v \<Rightarrow> v);
          code = (case Option.bind (json_get ''code'' meta) as_str of
                    Some c \<Rightarrow> c | None \<Rightarrow> trim_end_str ''.json'' (trim_start_str ''locales/'' p)) in
      (code, json_obj [(''code'', JStr code), (''name'', field ''name''), (''native_name'', field ''native_name''),
         (''url'', JStr (''/ui/'' @ p))]))"

definition api_locales :: "(string \<Rightarrow> json option) \<Rightarrow> (string \<times> string) list \<Rightarrow> response" where
  "api_locales parse assets =
     respond 200 (json_obj
       [(''available'', JArr (map snd (sort_key fst (List.map_filter
           (\<lambda>(p, bytes). if \<not> starts_with ''locales/'' p \<or> \<not> ends_with ''.json'' p then None
              else map_option (locale_entry p) (parse bytes)) assets)))),
        (''default'', JStr ''en'')])"

definition serve_asset :: "(string \<Rightarrow> string) \<Rightarrow> (string \<times> string) list \<Rightarrow> string \<Rightarrow> reply" where
  "serve_asset mime_of assets p =
     (case map_of assets p of
        Some bytes \<Rightarrow> \<lparr>rp_status = 200, rp_headers = [(''content-type'', mime_of p)], rp_body = ByteBody bytes\<rparr>
      | None \<Rightarrow> \<lparr>rp_status = 404, rp_headers = [], rp_body = ByteBody ''not found''\<rparr>)"

definition ui_static :: "(string \<Rightarrow> string) \<Rightarrow> (string \<times> string) list \<Rightarrow> string \<Rightarrow> reply" where
  "ui_static mime_of assets p =
     (if p = [] then serve_asset mime_of assets ''index.html'' else serve_asset mime_of assets p)"

section \<open>Capabilities and peers\<close>

definition value_or_null :: "string \<Rightarrow> json \<Rightarrow> json" where
  "value_or_null k j = (case json_get k j of None \<Rightarrow> JNull | Some v \<Rightarrow> v)"

definition cap_json :: "binding registry \<Rightarrow> capability_decl \<Rightarrow> json" where
  "cap_json reg d =
     (let b = binding_for (cap_name d) reg in
      case enc_decl d of
        JObj m \<Rightarrow>
          (let m1 = obj_insert ''has_binding'' (JBool (b \<noteq> None)) m in
           JObj (case b of None \<Rightarrow> m1 | Some bd \<Rightarrow> obj_insert ''binding_type'' (JStr (binding_kind bd)) m1))
      | v \<Rightarrow> v)"

definition api_caps :: "('x) crypto_scheme \<Rightarrow> (binding, 'y) node_scheme \<Rightarrow> response" where
  "api_caps cr nd =
     respond 200 (json_obj
       [(''self'', JStr (keypair_id cr (nd_keypair nd))), (''protocol_version'', JStr PROTOCOL_VERSION),
        (''caps'', JArr (map (cap_json (nd_registry nd)) (reg_all (nd_registry nd))))])"

definition array_field :: "string \<Rightarrow> json option \<Rightarrow> json list" where
  "array_field k d = (case Option.bind d (\<lambda>j. Option.bind (json_get k j) as_array) of None \<Rightarrow> [] | Some xs \<Rightarrow> xs)"

definition peer_json :: "('b, 'x) node_env_scheme \<Rightarrow> peer_record \<Rightarrow> json" where
  "peer_json ne p =
     (let d = Option.bind (describe_self_cached p) (json_from_str ne);
          summary = (\<lambda>c. json_obj [(''name'', value_or_null ''name'' c),
            (''description'', value_or_null ''description'' c), (''schema_in'', value_or_null ''schema_in'' c),
            (''lobe_ids'', value_or_null ''lobe_ids'' c)]) in
      json_obj [(''instance_id'', JStr (pr_id p)), (''endpoint'', JStr (pr_endpoint p)),
        (''alias'', json_opt JStr (pr_alias p)), (''lobe_ids'', JArr (array_field ''lobe_ids'' d)),
        (''capabilities'', JArr (map summary (array_field ''capabilities'' d)))])"

definition api_peers :: "('b, 'x) node_env_scheme \<Rightarrow> 'b node \<Rightarrow> peer_table \<Rightarrow> response" where
  "api_peers ne nd t =
     respond 200 (json_obj [(''self'', JStr (node_id ne nd)), (''peers'', JArr (map (peer_json ne) (peer_list 200 t)))])"

definition api_peers_delete :: "string \<Rightarrow> peer_table \<Rightarrow> response \<times> peer_table" where
  "api_peers_delete i t =
     (case peer_get i t of
        None \<Rightarrow> (api_error 404 ''peer not found'', t)
      | Some p \<Rightarrow>
          (case peer_delete i t of
             (True, t') \<Rightarrow> (respond 200 (json_obj [(''ok'', JBool True), (''instance_id'', JStr i),
                 (''endpoint'', JStr (pr_endpoint p))]), t')
           | (False, t') \<Rightarrow> (api_error 404 ''peer not found'', t')))"

definition dec_one_field :: "string \<Rightarrow> json \<Rightarrow> string option" where
  "dec_one_field k j = Option.bind (struct_fields [k] j) (\<lambda>m. field_req as_str m k)"

definition api_peers_discover ::
  "('b, 'x) net_env_scheme \<Rightarrow> (peer_record list \<Rightarrow> peer_record list) \<Rightarrow> 'b node \<Rightarrow> nat \<Rightarrow> string \<Rightarrow> peer_table
     \<Rightarrow> response \<times> peer_table" where
  "api_peers_discover ne shuffle nd k capability t =
     (let c = discover_capability ne shuffle nd capability k t in
      (respond 200 (json_obj [(''added'', JInt (int (cs_new c))), (''capability'', JStr capability)]), cs_peers c))"

definition api_peers_refresh ::
  "('b, 'x) net_env_scheme \<Rightarrow> 'b node \<Rightarrow> nat \<Rightarrow> string \<Rightarrow> peer_table \<Rightarrow> response \<times> peer_table" where
  "api_peers_refresh ne nd k endpoint t =
     (case refresh_peer ne nd k endpoint t of
        (Inr d, t') \<Rightarrow>
          (respond 200 (json_obj [(''instance_id'', JStr (ds_instance_id d)), (''endpoint'', json_opt JStr (ds_endpoint d)),
             (''alias'', json_opt JStr (ds_alias d)),
             (''capabilities'', JArr (map (JStr \<circ> cap_name) (capabilities d)))]), t')
      | (Inl e, t') \<Rightarrow> (api_error 502 (node_error_text e), t'))"

section \<open>Calls to a chosen peer\<close>

record chat_request =
  cq_endpoint :: string
  cq_prompt :: "string option"
  cq_messages :: "(string \<times> string) list option"
  cq_model :: "string option"

definition dec_chat_line :: "json \<Rightarrow> (string \<times> string) option" where
  "dec_chat_line j = do {
     m \<leftarrow> struct_fields [''role'', ''content''] j;
     r \<leftarrow> field_req as_str m ''role'';
     c \<leftarrow> field_req as_str m ''content'';
     Some (r, c) }"

definition dec_chat_request :: "json \<Rightarrow> chat_request option" where
  "dec_chat_request j = do {
     m \<leftarrow> struct_fields [''peer_endpoint'', ''prompt'', ''messages'', ''model''] j;
     e \<leftarrow> field_req as_str m ''peer_endpoint'';
     p \<leftarrow> field_opt as_str m ''prompt'';
     ms \<leftarrow> field_opt (dec_list dec_chat_line) m ''messages'';
     ml \<leftarrow> field_opt as_str m ''model'';
     Some \<lparr>cq_endpoint = e, cq_prompt = p, cq_messages = ms, cq_model = ml\<rparr> }"

text \<open>\<open>None\<close>: the request names neither a prompt nor messages, or both.\<close>

definition chat_args :: "chat_request \<Rightarrow> json option" where
  "chat_args rq =
     (let model = opt_entry ''model'' JStr (cq_model rq) in
      case (cq_prompt rq, cq_messages rq) of
        (Some p, None) \<Rightarrow> Some (json_obj ([(''prompt'', JStr p)] @ model))
      | (None, Some ms) \<Rightarrow>
          (if ms = [] then None
           else Some (json_obj ([(''messages'', JArr (map (\<lambda>(r, c).
                  json_obj [(''role'', JStr r), (''content'', JStr c)]) ms))] @ model)))
      | _ \<Rightarrow> None)"

definition relay ::
  "('b, 'x) net_env_scheme \<Rightarrow> 'b node \<Rightarrow> nat \<Rightarrow> string \<Rightarrow> string \<Rightarrow> json \<Rightarrow> response" where
  "relay ne nd k endpoint capability args =
     (case send_signed ne k (nd_keypair nd) endpoint Invoke
             (json_obj [(''capability'', JStr capability), (''args'', args)]) (nd_endpoint nd) of
        Inl e \<Rightarrow> api_error 502 (client_error_text e)
      | Inr m \<Rightarrow> respond 200 (json_obj [(''peer_id'', JStr (sender_id (sm_envelope m))),
                   (''reply'', payload (sm_envelope m))]))"

definition api_chat :: "('b, 'x) net_env_scheme \<Rightarrow> 'b node \<Rightarrow> nat \<Rightarrow> chat_request \<Rightarrow> response" where
  "api_chat ne nd k rq =
     (case chat_args rq of
        None \<Rightarrow> api_error 400 ''either `prompt` or non-empty `messages` is required''
      | Some args \<Rightarrow> relay ne nd k (cq_endpoint rq) ''chat'' args)"

record invoke_request_form =
  iq_endpoint :: string
  iq_capability :: string
  iq_args :: json

definition dec_invoke_form :: "json \<Rightarrow> invoke_request_form option" where
  "dec_invoke_form j = do {
     m \<leftarrow> struct_fields [''peer_endpoint'', ''capability'', ''args''] j;
     e \<leftarrow> field_req as_str m ''peer_endpoint'';
     c \<leftarrow> field_req as_str m ''capability'';
     a \<leftarrow> field_default Some JNull m ''args'';
     Some \<lparr>iq_endpoint = e, iq_capability = c, iq_args = a\<rparr> }"

definition api_invoke :: "('b, 'x) net_env_scheme \<Rightarrow> 'b node \<Rightarrow> nat \<Rightarrow> invoke_request_form \<Rightarrow> response" where
  "api_invoke ne nd k rq = relay ne nd k (iq_endpoint rq) (iq_capability rq) (iq_args rq)"

section \<open>Who reaches what\<close>

text \<open>The handlers that no guard protects, and those a role may not reach.\<close>

definition open_handlers :: "string list" where
  "open_handlers = [''health'', ''api_locales'', ''bootstrap'', ''login'', ''logout'', ''me'', ''change_password'']"

definition admin_handlers :: "string list" where
  "admin_handlers =
     [''api_peers_refresh'', ''api_peers_discover'', ''api_peers_delete'', ''api_planner_put'',
      ''api_bootstrap_put'', ''api_bootstrap_remove_seed'', ''create_backend'', ''delete_backend'',
      ''list_users'', ''create_user_route'', ''update_user_route'', ''delete_user_route'']"

fun denied_to :: "user_role \<Rightarrow> string list" where
  "denied_to RoleAdmin = []"
| "denied_to RoleOperator = admin_handlers"
| "denied_to RoleUser =
     admin_handlers @ [''upsert_cap_manifest'', ''delete_cap_manifest'', ''put_alias'', ''put_lobes'']"

fun passes :: "user_role \<Rightarrow> guard_layer \<Rightarrow> bool" where
  "passes who RequireAuthed \<longleftrightarrow> True"
| "passes who (RequirePerm p) \<longleftrightarrow> has_permission who p"

lemma run_layers_anonymous: "ls \<noteq> [] \<Longrightarrow> run_layers ls h None d = (unauthorised, d)"
  by (cases ls, simp, cases "hd ls") (auto simp: require_authed_def require_permission_def)

lemma run_layers_user:
  "if list_all (passes (au_role u)) ls then run_layers ls h (Some u) d = h (Some u) d
   else \<exists>p. run_layers ls h (Some u) d = (forbidden p, d)"
proof (induction ls)
  case (Cons l ls)
  then show ?case by (cases l) (auto simp: require_authed_def require_permission_def split: if_splits)
qed simp

lemma layers_checked:
  "list_all (\<lambda>r. (rt_layers r = [] \<longrightarrow> rt_handler r \<in> set open_handlers)
     \<and> list_all (\<lambda>who. list_all (passes who) (rt_layers r) \<longleftrightarrow> rt_handler r \<notin> set (denied_to who))
         [RoleUser, RoleOperator, RoleAdmin]) (api_v0 (Some []))"
  by code_simp

lemma api_v0_subset: "r \<in> set (api_v0 cfg) \<Longrightarrow> r \<in> set (api_v0 (Some []))"
  by (auto simp: api_v0_def split: option.splits)

lemma route_layers:
  assumes "r \<in> set (api_v0 cfg)"
  shows "rt_layers r = [] \<Longrightarrow> rt_handler r \<in> set open_handlers"
    "list_all (passes who) (rt_layers r) \<longleftrightarrow> rt_handler r \<notin> set (denied_to who)"
  using layers_checked api_v0_subset [OF assms] by (cases who; auto simp: list_all_iff)+

text \<open>No two routes have the same method and path, on which the router would panic.\<close>

lemma routes_distinct: "distinct (map (\<lambda>r. (rt_method r, rt_path r)) (api_v0 cfg))"
proof -
  have "distinct (map (\<lambda>r. (rt_method r, rt_path r)) (api_v0 (Some [])))" by code_simp
  then show ?thesis by (cases cfg) (auto simp: api_v0_def)
qed

lemma client_middleware_status:
  "rs_status (fst (client_id_middleware uuid header (\<lambda>cid d. (rp, d)) d)) = rs_status rp"
  "rs_body (fst (client_id_middleware uuid header (\<lambda>cid d. (rp, d)) d)) = rs_body rp"
  "snd (client_id_middleware uuid header (\<lambda>cid d. (rp, d)) d) = d"
  by (auto simp: client_id_middleware_def append_cookie_def Let_def split: option.splits)

section \<open>Properties\<close>



lemma send_signed_Inr:
  assumes "send_signed ne k kp endpoint v pl ep = Inr m"
  shows "\<exists>rcpt u. discover_peer_id ne k endpoint = Inr rcpt \<and> verify_signature ne m = Inr u
    \<and> recipient_id (sm_envelope m) = keypair_id ne kp \<and> sender_id (sm_envelope m) = rcpt"
  using assms by (auto simp: send_signed_def check_reply_def split: sum.splits option.splits if_splits)

text \<open>
  (a relayed reply is the peer's own). When the route that invokes a capability of a chosen peer
  answers 200, its body is the payload of a message whose signature verifies, addressed to this
  node, and signed by the very instance that answers for the endpoint; any other outcome is a 502.
\<close>

theorem relayed_reply_authentic:
  assumes "rs_status (api_invoke ne nd k rq) \<noteq> 502"
  shows "\<exists>m u. discover_peer_id ne k (iq_endpoint rq) = Inr (sender_id (sm_envelope m))
    \<and> verify_signature ne m = Inr u \<and> recipient_id (sm_envelope m) = node_id ne nd
    \<and> api_invoke ne nd k rq = respond 200 (json_obj
        [(''peer_id'', JStr (sender_id (sm_envelope m))), (''reply'', payload (sm_envelope m))])"
  using assms send_signed_Inr [of ne k "nd_keypair nd" "iq_endpoint rq" Invoke _ "nd_endpoint nd"]
  by (fastforce simp: api_invoke_def relay_def node_id_def api_error_def respond_def split: sum.splits)

text \<open>A peer deleted from the directory is gone, and no other peer is touched.\<close>

lemma api_peers_delete_effect:
  "peer_get j (snd (api_peers_delete i t)) = (if j = i then None else peer_get j t)"
  "rs_status (fst (api_peers_delete i t)) = (if peer_get i t = None then 404 else 200)"
proof -
  have "fst (peer_delete i t)" if "peer_get i t = Some p" for p
    using that by (auto simp: peer_delete_def peer_get_def list_ex_iff dest!: select_by_Some)
  then have eq: "api_peers_delete i t = (case peer_get i t of None \<Rightarrow> (api_error 404 ''peer not found'', t)
      | Some p \<Rightarrow> (respond 200 (json_obj [(''ok'', JBool True), (''instance_id'', JStr i),
           (''endpoint'', JStr (pr_endpoint p))]), snd (peer_delete i t)))"
    by (auto simp: api_peers_delete_def split: option.splits prod.splits bool.splits)
  show "peer_get j (snd (api_peers_delete i t)) = (if j = i then None else peer_get j t)"
    using peers.lookup_del [of j i t] by (auto simp: eq split: option.splits)
  show "rs_status (fst (api_peers_delete i t)) = (if peer_get i t = None then 404 else 200)"
    by (auto simp: eq api_error_def respond_def split: option.splits)
qed

section \<open>Instances\<close>



definition toy_invocation :: invoke_request_form where
  "toy_invocation = \<lparr>iq_endpoint = ''http://bob'', iq_capability = ''echo'', iq_args = JNull\<rparr>"

lemma relayed_reply_authentic_witness:
  "\<exists>m :: signed_message. sender_id (sm_envelope m) = keypair_id toy_wire ''bob''
     \<and> api_invoke (toy_net (toy_signed ''bob'' (toy_describes (JStr ''hi'')))) toy_caller 0 toy_invocation
       = respond 200 (json_obj [(''peer_id'', JStr (sender_id (sm_envelope m))), (''reply'', payload (sm_envelope m))])"
proof -
  let ?m = "toy_signed ''bob'' (toy_describes (JStr ''hi''))"
  have sg: "sign_envelope toy_wire ''bob'' (toy_describes (JStr ''hi'')) = Inr ?m"
    by (rule toy_signed) (simp add: toy_describes_def)
  have "send_signed (toy_net ?m) k ''alice'' base v pl ep = Inr ?m" for k base v pl ep
    by (rule toy_sends [OF sg]) (simp_all add: toy_describes_def)
  then have "rs_status (api_invoke (toy_net ?m) toy_caller 0 toy_invocation) \<noteq> 502"
    by (simp add: api_invoke_def relay_def toy_caller_def respond_def)
  from relayed_reply_authentic [OF this] obtain m :: signed_message where
    "discover_peer_id (toy_net ?m) 0 (iq_endpoint toy_invocation) = Inr (sender_id (sm_envelope m))"
    "api_invoke (toy_net ?m) toy_caller 0 toy_invocation = respond 200 (json_obj
       [(''peer_id'', JStr (sender_id (sm_envelope m))), (''reply'', payload (sm_envelope m))])" by blast
  then show ?thesis by (intro exI [of _ m]) simp
qed

end
