(* ===== verification/Spec2Isabelle.thy ===== *)
theory Spec2Isabelle
  imports Node_Lifecycle Blob_Client Node_Identity Server_Routes
begin

text \<open>
  n3ur0n: a verification library beside the Rust workspace under \<open>src/crates\<close>.

  A node is a process with a key pair that publishes capabilities, keeps a directory of peers, answers
  signed requests, and on behalf of a user compiles a message into a plan of capability calls, runs
  the plan on itself and on its peers, and composes a reply. The crates are \<open>core\<close> (identities,
  messages, blobs), \<open>storage\<close> (SQLite tables), \<open>adapters\<close> (language models), \<open>node\<close> (everything
  between) and \<open>server\<close> (HTTP, users, configuration).

  \<^bold>\<open>How the parts fit.\<close> An inbound request goes through \<open>verify_envelope\<close>, the nonce table and the
  verb handlers, which read the registry and the directory, resolve blobs, call a binding or a
  backend and write the journal. A user's message goes through the mention parser, the catalog, the
  compiler, plan validation and the executor; steps persist as they finish and the reply is recorded
  last. Discovery and refresh maintain the directory; the live node reloads manifests and lobes.
  At start-up the configuration files decide what is loaded and which model plans; the settings
  routes rewrite those files and bring the live node in step with them.

  \<^bold>\<open>Theories and code.\<close>
  \<^item> \<open>N_Prelude\<close>: results, strings as bytes, hexadecimal and base32, SQL tables as lists of rows.
  \<open>Json\<close>: the values of \<open>serde_json\<close>, object access and the derive rules of \<open>serde\<close>.
  \<^item> \<open>Core_Identity\<close> (\<open>core/identity.rs\<close>, \<open>lobe.rs\<close>, \<open>error.rs\<close>), \<open>Core_Message\<close>
  (\<open>message.rs\<close>, \<open>verify.rs\<close>, \<open>capability.rs\<close>, \<open>protocol.rs\<close>), \<open>Core_Blob\<close> (\<open>blob.rs\<close>).
  \<^item> \<open>Store_Peers\<close>, \<open>Store_Blobs\<close>, \<open>Store_Audit\<close>, \<open>Store_Conv\<close>, \<open>Store_Auth\<close>: the modules of
  \<open>storage\<close>, one function per statement, with the constraints of the schema.
  \<^item> \<open>Server_Auth\<close> (\<open>server/auth.rs\<close>): sessions, guards and the routes of users.
  \<open>Server_Blobs\<close> (\<open>server/blobs.rs\<close>, \<open>blob_gc.rs\<close>): the blob endpoint of a publisher and its
  sweep; \<open>Blob_Endpoint\<close> holds what any run of them guarantees. \<open>Blob_Client\<close>
  (\<open>node/blob_client.rs\<close>): the other end, composed with the endpoint.
  \<^item> \<open>Node_Registry\<close>, \<open>Node_Handler\<close>, \<open>Node_Blobs\<close> (\<open>blob_resolve.rs\<close>), \<open>Node_Discovery\<close>
  (\<open>client.rs\<close>, \<open>discovery.rs\<close>), \<open>Node_Lifecycle\<close> (\<open>node.rs\<close>), \<open>Node_Mention\<close> (\<open>mention.rs\<close>),
  \<open>Node_Conversation\<close> (\<open>conversation.rs\<close>).
  \<^item> \<open>Manifest\<close> (\<open>manifest/\<close>), \<open>Bind_Template\<close>, \<open>Bind_Runtime\<close> (\<open>bindings/\<close>,
  \<open>backends_registry.rs\<close>), \<open>Adapter_OpenAI\<close> (\<open>adapters/\<close>), \<open>Error_Text\<close>.
  \<^item> \<open>Planner_Refs\<close>, \<open>Planner_Plan\<close>, \<open>Planner_Exec\<close> (\<open>planner/plan.rs\<close>), \<open>Planner_Catalog\<close>,
  \<open>Planner_Grammar\<close>, \<open>Planner_Compile\<close> (\<open>compiler.rs\<close>, \<open>planner_cap.rs\<close> and the prompt and
  parser of \<open>plan_exec.rs\<close>), \<open>Planner_Dispatch\<close> (the rest of \<open>plan_exec.rs\<close>, \<open>mod.rs\<close>,
  \<open>direct.rs\<close>) and \<open>Dispatch_Ledger\<close>, which holds no model, only what a dispatch guarantees.
  \<^item> \<open>Node_Runtime\<close> (\<open>node/runtime.rs\<close>): locks, slots and the cache of conversations, and the two
  halves of a message. \<open>Server_Chat\<close>: the routes of conversations in \<open>server/http.rs\<close>.
  \<^item> \<open>Toml_Text\<close>: the TOML strings \<open>settings.rs\<close> and \<open>planner_config.rs\<close> write, with readers of
  them. \<open>Server_Config\<close>: a disk, the configuration files (\<open>instance_config.rs\<close>,
  \<open>bootstrap_config.rs\<close>, \<open>planner_config.rs\<close>), \<open>bootstrap.rs\<close> and the part of \<open>cli.rs\<close> that
  turns them into a node. \<open>Server_Settings\<close>: the routes of \<open>server/settings.rs\<close> and the planner
  and bootstrap routes of \<open>http.rs\<close>. \<open>Settings_Runs\<close>: what any run of these routes guarantees.
  \<^item> \<open>Server_Files\<close> (\<open>files_api.rs\<close>): the files of a user. \<open>Server_Activity\<close>
  (\<open>activity_api.rs\<close>): the dashboard over the journal. \<open>Server_Routes\<close>: the table of routes with
  their guards, and the other handlers of \<open>http.rs\<close>. \<open>Node_Identity\<close> (\<open>identity_file.rs\<close>): the
  key file, and the subcommands of \<open>cli.rs\<close> that read it.
  \<^item> \<open>Json_Text\<close>: a reader and a writer of JSON text, the instance of the laws on \<open>serde_json\<close>.

  \<^bold>\<open>Conventions.\<close> A Rust \<open>String\<close> is the list of its bytes. \<open>Inl\<close> is \<open>Err\<close>. A struct is a record, an
  enum a datatype, a table a list of rows. \<open>i64\<close> and time stamps are \<open>int\<close>; sizes that wrap are
  words. Code outside the repository (cryptography, HTTP, SQLite's engine, JSON and YAML text, JSON
  Schema, MCP processes, language models) is a parameter: a field of \<open>wire_env\<close>, \<open>node_env\<close> or
  \<open>world\<close>, or an argument. What the code relies on is a named hypothesis, and each has an instance
  (\<open>toy_wire\<close>, \<open>toy_node_env\<close>) at which the witnesses evaluate.

  \<^bold>\<open>Concurrency.\<close> The executor is a transition system: a label starts, ends or consumes a step, and a
  schedule is any list of labels. Properties quantify over schedules. Requests, reloads and
  discovery are sequences of operations over the tables; each SQL statement or transaction is atomic.
  In \<open>hub_step\<close> a message is two transitions, its admission and the rest; other messages,
  new, retitled and deleted conversations and evictions come between them in any order.

  \<^bold>\<open>Bounds and fuel.\<close> Loops of the code are structural recursions or have measures. Kahn's loop
  (\<open>topological_order\<close>, \<open>plan_depth\<close>) is a \<open>partial_function\<close> into \<open>option\<close>, where \<open>None\<close>
  stands for a loop that does not return; \<open>validate_plan_total\<close> and
  \<open>plan_depth_longest\<close> show that it returns. A schedule that stops
  early gives \<open>None\<close>; every run of a valid plan can finish, and does so
  within three transitions per step. Continuation rounds recurse on the rounds left (two in all).

  \<^bold>\<open>What the lemmas show.\<close> Per operation, every branch with its error; per table, integrity and that
  each statement keeps it; codecs read back; the executor's invariant by rule induction; the rank
  and scope of the catalog; the ledger of a conversation as a simulation between the in-memory state
  and the tables (\<open>stored\<close>, \<open>mirrored\<close>), kept by every operation of a dispatch; the
  invariant \<open>hub_ok\<close> of the runtime, by rule induction on its runs, and what the routes over it
  answer and record; for the settings routes, which files a run may write, which files decide
  whether the node starts, and that the live node and a restart from the disk agree; for the table
  of routes, who reaches which handler; for files, that others neither see nor change them.

  \<^bold>\<open>Not modelled.\<close> How \<open>axum\<close> matches paths and limits bodies, parsing of the command
  line, the desktop shell, logging, process spawning and file handles: they move data between the
  parts above and the outside. The file system and the TOML engine are parameters. Retrieval scoring
  (\<open>retrieval.rs\<close>, \<open>retriever.rs\<close>) and embeddings are floating point; the ranking that uses the
  scores is modelled over any linear order. The web client, deployment files and documents are not
  code of the node.
\<close>

end
